(* ===== verification/Prelude.thy ===== *)
theory Prelude
  imports Main
begin

text \<open>
  What every theory of the development shares: the collections of rewrite and introduction
  rules, the names of the model's basic types, and lemmas on lists, options and maps that are
  not about any one component.

  A Go \<^verbatim>\<open>string\<close> or \<^verbatim>\<open>[]byte\<close> is a \<^typ>\<open>string\<close> (a list of 8-bit characters, as
  a Go string is a sequence of bytes); a Go \<^verbatim>\<open>int\<close> is an \<^typ>\<open>int\<close>, with the 64-bit
  wrap-around written out (\<open>wrap64\<close>) where a computation can leave the range; an
  error return is the left side of a sum.
\<close>

named_theorems cmp_intros "comparators built from comparators"
named_theorems frame_simps "fields and lists an operation leaves unchanged"

type_synonym bytes = "char list"

subsection \<open>Signed 64-bit integers\<close>

text \<open>Go's \<^verbatim>\<open>int\<close> is 64 bits wide on every platform the tool is released for.\<close>

definition maxInt64 :: int where
  "maxInt64 = 9223372036854775807"

definition wrap64 :: "int \<Rightarrow> int" where
  "wrap64 x = (x + 9223372036854775808) mod 18446744073709551616 - 9223372036854775808"

lemma wrap64_id: "- 9223372036854775808 \<le> x \<Longrightarrow> x \<le> 9223372036854775807 \<Longrightarrow> wrap64 x = x"
  by (simp add: wrap64_def)

lemma wrap64_bounds: "- 9223372036854775808 \<le> wrap64 x \<and> wrap64 x \<le> 9223372036854775807"
proof -
  have "0 \<le> (x + 9223372036854775808) mod 18446744073709551616"
    by simp
  moreover have "(x + 9223372036854775808) mod 18446744073709551616 < 18446744073709551616"
    by simp
  ultimately show ?thesis by (simp only: wrap64_def) linarith
qed

subsection \<open>Lists\<close>

lemma length_dropWhile_less:
  "xs \<noteq> [] \<Longrightarrow> P (hd xs) \<Longrightarrow> length (dropWhile P xs) < length xs"
  by (cases xs) (auto simp: le_imp_less_Suc length_dropWhile_le)

lemma filter_nth_in: "(i, x) \<in> set (filter Q (enumerate 0 xs)) \<Longrightarrow> i < length xs \<and> x = xs ! i"
  by (auto simp: in_set_enumerate_eq)

subsection \<open>Results\<close>

text \<open>
  A fallible operation returns \<open>error + 'a\<close>. The loop \<^verbatim>\<open>for _, x := range xs { y, err := f(x);
  if err != nil { return err }; out = append(out, y) }\<close>, which the code has in many places, is
  \<open>mapM_result\<close>: it stops at the first error.
\<close>

fun mapM_result :: "('a \<Rightarrow> 'e + 'b) \<Rightarrow> 'a list \<Rightarrow> 'e + 'b list" where
  "mapM_result f [] = Inr []"
| "mapM_result f (x # xs) =
     (case f x of Inl e \<Rightarrow> Inl e
      | Inr y \<Rightarrow> (case mapM_result f xs of Inl e \<Rightarrow> Inl e | Inr ys \<Rightarrow> Inr (y # ys)))"

lemma mapM_result_cong [fundef_cong]:
  assumes "xs = ys" and "\<And>x. x \<in> set ys \<Longrightarrow> f x = g x"
  shows "mapM_result f xs = mapM_result g ys"
  using assms by (induction ys arbitrary: xs) (auto split: sum.splits)

lemma mapM_result_Inr:
  "mapM_result f xs = Inr ys \<Longrightarrow> list_all2 (\<lambda>x y. f x = Inr y) xs ys"
  by (induction xs arbitrary: ys) (auto split: sum.splits)

lemma mapM_result_length: "mapM_result f xs = Inr ys \<Longrightarrow> length ys = length xs"
  by (auto dest!: mapM_result_Inr simp: list_all2_lengthD)

lemma mapM_result_Inl: "mapM_result f xs = Inl e \<Longrightarrow> \<exists>x \<in> set xs. f x = Inl e"
  by (induction xs) (auto split: sum.splits)

lemma mapM_result_total:
  "(\<And>x. x \<in> set xs \<Longrightarrow> f x = Inr (g x)) \<Longrightarrow> mapM_result f xs = Inr (map g xs)"
  by (induction xs) auto

end
