(* ===== verification/Comparators.thy ===== *)
theory Comparators
  imports Prelude
begin

text \<open>
  Three-way comparison functions in the style of Go's \<^verbatim>\<open>strings.Compare\<close>: the result is
  -1, 0 or 1. Two interfaces: a \<open>comparator\<close> is antisymmetric, an \<open>order_comparator\<close> is a
  total preorder as well. The combinators are the loop shapes the version comparators of
  \<^verbatim>\<open>internal/vulndb\<close> share; each carries the interface of its parts to the whole.
\<close>

subsection \<open>The interfaces\<close>

locale comparator =
  fixes cmp :: "'a \<Rightarrow> 'a \<Rightarrow> int"
  assumes cmp_swap: "cmp b a = - cmp a b"
    and cmp_range: "cmp a b = -1 \<or> cmp a b = 0 \<or> cmp a b = 1"
begin

lemma cmp_same: "cmp a a = 0"
  using cmp_swap [of a a] by simp

lemma cmp_neg_iff: "cmp a b = -1 \<longleftrightarrow> cmp b a = 1"
  using cmp_swap [of a b] by auto

lemma cmp_zero_sym: "cmp a b = 0 \<longleftrightarrow> cmp b a = 0"
  using cmp_swap [of a b] by auto

lemma cmp_le_iff: "cmp a b \<le> 0 \<longleftrightarrow> 0 \<le> cmp b a"
  using cmp_swap [of a b] by auto

lemma cmp_lt_iff: "cmp a b < 0 \<longleftrightarrow> 0 < cmp b a"
  using cmp_swap [of a b] by auto

lemma cmp_linear: "cmp a b \<le> 0 \<or> cmp b a \<le> 0"
  using cmp_swap [of a b] by auto

end

locale order_comparator = comparator +
  assumes cmp_trans: "cmp a b \<le> 0 \<Longrightarrow> cmp b c \<le> 0 \<Longrightarrow> cmp a c \<le> 0"
begin

lemma cmp_eq_trans: "cmp a b = 0 \<Longrightarrow> cmp b c = 0 \<Longrightarrow> cmp a c = 0"
  using cmp_trans [of a b c] cmp_trans [of c b a] cmp_swap [of a b] cmp_swap [of b c]
    cmp_swap [of a c] by auto

lemma cmp_eq_left: "cmp a b = 0 \<Longrightarrow> cmp a c = cmp b c"
  using cmp_trans [of a b c] cmp_trans [of b a c] cmp_trans [of c a b] cmp_trans [of c b a]
    cmp_swap [of a b] cmp_swap [of b c] cmp_swap [of a c] cmp_range [of a c] cmp_range [of b c]
  by auto

lemma cmp_eq_right: "cmp b c = 0 \<Longrightarrow> cmp a b = cmp a c"
  using cmp_eq_left [of b c a] cmp_swap [of a b] cmp_swap [of a c] cmp_zero_sym by auto

lemma cmp_less_le_trans: "cmp a b < 0 \<Longrightarrow> cmp b c \<le> 0 \<Longrightarrow> cmp a c < 0"
proof (rule ccontr)
  assume ab: "cmp a b < 0" and bc: "cmp b c \<le> 0" and "\<not> cmp a c < 0"
  then have "cmp c a \<le> 0" using cmp_swap [of a c] by simp
  with bc have "cmp b a \<le> 0" by (rule cmp_trans)
  with ab show False using cmp_swap [of a b] by simp
qed

lemma cmp_le_less_trans: "cmp a b \<le> 0 \<Longrightarrow> cmp b c < 0 \<Longrightarrow> cmp a c < 0"
proof (rule ccontr)
  assume ab: "cmp a b \<le> 0" and bc: "cmp b c < 0" and "\<not> cmp a c < 0"
  then have "cmp c a \<le> 0" using cmp_swap [of a c] by simp
  then have "cmp c b \<le> 0" using ab by (rule cmp_trans)
  with bc show False using cmp_swap [of b c] by simp
qed

end

text \<open>Transitivity with its equality half, the form the lexicographic proofs use.\<close>

lemma order_comparatorI:
  assumes "comparator c"
    and "\<And>x y z. c x y = -1 \<Longrightarrow> c y z = -1 \<Longrightarrow> c x z = -1"
    and "\<And>x y z. c x y = 0 \<Longrightarrow> c x z = c y z"
  shows "order_comparator c"
proof -
  note swap = comparator.cmp_swap [OF assms(1)]
  note range = comparator.cmp_range [OF assms(1)]
  have "c x z \<le> 0" if xy: "c x y \<le> 0" and yz: "c y z \<le> 0" for x y z
  proof -
    consider "c x y = 0" | "c y z = 0" | "c x y = -1" "c y z = -1"
      using xy yz range [of x y] range [of y z] by linarith
    then show ?thesis
    proof cases
      case 1
      then show ?thesis using assms(3) [of x y z] yz by simp
    next
      case 2
      then have "c z y = 0" using swap [of z y] by simp
      then have "c z x = c y x" by (rule assms(3))
      then show ?thesis using xy swap [of z x] swap [of y x] by simp
    next
      case 3
      then show ?thesis using assms(2) [of x y z] by simp
    qed
  qed
  with assms(1) show ?thesis
    by (simp add: order_comparator_def order_comparator_axioms_def)
qed

lemma order_comparator_less_trans:
  assumes "order_comparator c" and "c x y = -1" and "c y z = -1"
  shows "c x z = -1"
  using order_comparator.cmp_less_le_trans [OF assms(1), of x y z] assms(2,3)
    comparator.cmp_range [OF order_comparator.axioms(1) [OF assms(1)], of x z]
  by simp

lemmas comparator_facts =
  comparator.cmp_swap comparator.cmp_range comparator.cmp_same

subsection \<open>The range of a comparison\<close>

definition tri :: "int \<Rightarrow> bool" where
  "tri r \<longleftrightarrow> r = -1 \<or> r = 0 \<or> r = 1"

named_theorems tri_intros "results that are -1, 0 or 1"

lemma tri_consts [tri_intros]: "tri 0" "tri 1" "tri (-1)"
  by (simp_all add: tri_def)

lemma tri_if [tri_intros]: "tri a \<Longrightarrow> tri b \<Longrightarrow> tri (if P then a else b)"
  by simp

lemma tri_chain [tri_intros]: "tri c \<Longrightarrow> tri d \<Longrightarrow> tri (let r = c in if r \<noteq> 0 then r else d)"
  by (simp add: Let_def)

lemma tri_comparator: "comparator c \<Longrightarrow> tri (c a b)"
  unfolding tri_def by (rule comparator.cmp_range)

subsection \<open>Combinators\<close>

text \<open>
  \<open>sign\<close> clamps a difference (\<^verbatim>\<open>sign\<close> of \<^verbatim>\<open>internal/vulndb/version.go\<close>); the
  comparison of two integers by \<open>sign (a - b)\<close> is an order as long as the subtraction does
  not wrap around.
\<close>

definition sign :: "int \<Rightarrow> int" where
  "sign n = (if n < 0 then -1 else if n > 0 then 1 else 0)"

lemma sign_simps [simp]:
  "sign 0 = 0" "sign 1 = 1" "sign (-1) = -1"
  by (simp_all add: sign_def)

lemma sign_range: "sign n = -1 \<or> sign n = 0 \<or> sign n = 1"
  by (simp add: sign_def)

lemma tri_sign [tri_intros]: "tri (sign n)"
  by (simp add: tri_def sign_def)

lemma sign_of_cmp: "r = -1 \<or> r = 0 \<or> r = 1 \<Longrightarrow> sign r = r"
  by (auto simp: sign_def)

lemma sign_minus: "sign (- n) = - sign n"
  by (simp add: sign_def)

definition int_cmp :: "int \<Rightarrow> int \<Rightarrow> int" where
  "int_cmp a b = sign (a - b)"

lemma int_cmp_order: "order_comparator int_cmp"
  by (unfold_locales) (auto simp: int_cmp_def sign_def split: if_splits)

text \<open>The comparison of the images under a key function.\<close>

definition cmp_on :: "('a \<Rightarrow> 'b) \<Rightarrow> ('b \<Rightarrow> 'b \<Rightarrow> int) \<Rightarrow> 'a \<Rightarrow> 'a \<Rightarrow> int" where
  "cmp_on f c a b = c (f a) (f b)"

lemma comparator_on [cmp_intros]:
  assumes "comparator c"
  shows "comparator (cmp_on f c)"
proof
  fix a b
  show "cmp_on f c b a = - cmp_on f c a b"
    using comparator.cmp_swap [OF assms, of "f b" "f a"] by (simp add: cmp_on_def)
  show "cmp_on f c a b = -1 \<or> cmp_on f c a b = 0 \<or> cmp_on f c a b = 1"
    using comparator.cmp_range [OF assms, of "f a" "f b"] by (simp add: cmp_on_def)
qed

lemma order_comparator_on [cmp_intros]: "order_comparator c \<Longrightarrow> order_comparator (cmp_on f c)"
  unfolding order_comparator_def order_comparator_axioms_def
  by (intro conjI comparator_on) (auto simp: cmp_on_def)

text \<open>
  Two comparisons in sequence: \<^verbatim>\<open>if c := c1(a, b); c != 0 { return c }; return c2(a, b)\<close>.
\<close>

definition cmp_then :: "('a \<Rightarrow> 'a \<Rightarrow> int) \<Rightarrow> ('a \<Rightarrow> 'a \<Rightarrow> int) \<Rightarrow> 'a \<Rightarrow> 'a \<Rightarrow> int" where
  "cmp_then c1 c2 a b = (let r = c1 a b in if r \<noteq> 0 then r else c2 a b)"

lemma comparator_then [cmp_intros]:
  assumes "comparator c1" and "comparator c2"
  shows "comparator (cmp_then c1 c2)"
proof
  fix a b
  show "cmp_then c1 c2 b a = - cmp_then c1 c2 a b"
    using comparator.cmp_swap [OF assms(1), of a b] comparator.cmp_swap [OF assms(2), of a b]
    by (simp add: cmp_then_def Let_def)
  show "cmp_then c1 c2 a b = -1 \<or> cmp_then c1 c2 a b = 0 \<or> cmp_then c1 c2 a b = 1"
    using comparator.cmp_range [OF assms(1), of a b] comparator.cmp_range [OF assms(2), of a b]
    by (auto simp: cmp_then_def)
qed

lemma order_comparator_then [cmp_intros]:
  assumes o1: "order_comparator c1" and o2: "order_comparator c2"
  shows "order_comparator (cmp_then c1 c2)"
proof (rule order_comparatorI)
  note c1 = order_comparator.axioms(1) [OF o1] and c2 = order_comparator.axioms(1) [OF o2]
  note eqL1 = order_comparator.cmp_eq_left [OF o1] and eqR1 = order_comparator.cmp_eq_right [OF o1]
  show "comparator (cmp_then c1 c2)" by (intro comparator_then c1 c2)
  fix x y z
  show "cmp_then c1 c2 x z = -1" if "cmp_then c1 c2 x y = -1" and "cmp_then c1 c2 y z = -1"
  proof (cases "c1 x y = 0")
    case True
    with that eqL1 [of x y z] show ?thesis
      using order_comparator_less_trans [OF o2, of x y z]
      by (auto simp: cmp_then_def Let_def split: if_splits)
  next
    case False
    with that eqR1 [of y z x] show ?thesis
      using order_comparator_less_trans [OF o1, of x y z]
      by (auto simp: cmp_then_def Let_def split: if_splits)
  qed
  show "cmp_then c1 c2 x z = cmp_then c1 c2 y z" if "cmp_then c1 c2 x y = 0"
    using that eqL1 [of x y z] order_comparator.cmp_eq_left [OF o2, of x y z]
    by (auto simp: cmp_then_def Let_def split: if_splits)
qed

text \<open>
  The loop \<^verbatim>\<open>for i := 0; i < n; i++\<close> up to the longer of two lists, where an absent element
  counts as \<open>z\<close> and the first non-zero comparison is returned.
\<close>

fun pad_lex :: "'a \<Rightarrow> ('a \<Rightarrow> 'a \<Rightarrow> int) \<Rightarrow> 'a list \<Rightarrow> 'a list \<Rightarrow> int" where
  "pad_lex z c [] [] = 0"
| "pad_lex z c (x # xs) [] = (let r = c x z in if r \<noteq> 0 then r else pad_lex z c xs [])"
| "pad_lex z c [] (y # ys) = (let r = c z y in if r \<noteq> 0 then r else pad_lex z c [] ys)"
| "pad_lex z c (x # xs) (y # ys) = (let r = c x y in if r \<noteq> 0 then r else pad_lex z c xs ys)"

lemma pad_lex_uncons:
  assumes "comparator c"
  shows "pad_lex z c xs ys =
    (let r = c (case xs of [] \<Rightarrow> z | x # _ \<Rightarrow> x) (case ys of [] \<Rightarrow> z | y # _ \<Rightarrow> y)
     in if r \<noteq> 0 then r else pad_lex z c (tl xs) (tl ys))"
  using comparator.cmp_same [OF assms] by (cases xs; cases ys) (simp_all add: Let_def)

lemma pad_lex_swap: "comparator c \<Longrightarrow> pad_lex z c ys xs = - pad_lex z c xs ys"
proof (induction z c xs ys rule: pad_lex.induct)
  case (2 z c x xs)
  then show ?case using comparator.cmp_swap [OF "2.prems", of x z] by (simp add: Let_def)
next
  case (3 z c y ys)
  then show ?case using comparator.cmp_swap [OF "3.prems", of z y] by (simp add: Let_def)
next
  case (4 z c x xs y ys)
  then show ?case using comparator.cmp_swap [OF "4.prems", of x y] by (simp add: Let_def)
qed simp

lemma pad_lex_range:
  "comparator c \<Longrightarrow> pad_lex z c xs ys = -1 \<or> pad_lex z c xs ys = 0 \<or> pad_lex z c xs ys = 1"
proof (induction z c xs ys rule: pad_lex.induct)
  case (2 z c x xs)
  then show ?case using comparator.cmp_range [OF "2.prems", of x z] by (auto simp: Let_def)
next
  case (3 z c y ys)
  then show ?case using comparator.cmp_range [OF "3.prems", of z y] by (auto simp: Let_def)
next
  case (4 z c x xs y ys)
  then show ?case using comparator.cmp_range [OF "4.prems", of x y] by (auto simp: Let_def)
qed simp

lemma comparator_pad_lex [cmp_intros]: "comparator c \<Longrightarrow> comparator (pad_lex z c)"
  by (rule comparator.intro) (erule pad_lex_swap, erule pad_lex_range)

lemma tri_pad_lex [tri_intros]: "(\<And>x y. tri (c x y)) \<Longrightarrow> tri (pad_lex z c xs ys)"
  by (induction z c xs ys rule: pad_lex.induct) (simp_all add: Let_def tri_intros)

text \<open>
  Both lists of a padded comparison can be read as infinite, so its transitivity is the one
  of the sequence of element comparisons; the induction runs over the longest of the three.
\<close>

lemma pad_lex_trans_aux:
  assumes o: "order_comparator c"
    and "length xs \<le> n" and "length ys \<le> n" and "length zs \<le> n"
  shows "(pad_lex z c xs ys = -1 \<longrightarrow> pad_lex z c ys zs = -1 \<longrightarrow> pad_lex z c xs zs = -1)
    \<and> (pad_lex z c xs ys = 0 \<longrightarrow> pad_lex z c xs zs = pad_lex z c ys zs)"
  using assms(2-4)
proof (induction n arbitrary: xs ys zs)
  case 0
  then show ?case by simp
next
  case (Suc n)
  note c = order_comparator.axioms(1) [OF o]
  define h where "h l = (case l of [] \<Rightarrow> z | x # _ \<Rightarrow> x)" for l
  have un: "pad_lex z c as bs =
      (if c (h as) (h bs) \<noteq> 0 then c (h as) (h bs) else pad_lex z c (tl as) (tl bs))" for as bs
    using pad_lex_uncons [OF c, of z as bs] by (simp add: h_def Let_def)
  have IH: "(pad_lex z c (tl xs) (tl ys) = -1 \<longrightarrow> pad_lex z c (tl ys) (tl zs) = -1 \<longrightarrow>
        pad_lex z c (tl xs) (tl zs) = -1)
      \<and> (pad_lex z c (tl xs) (tl ys) = 0 \<longrightarrow>
        pad_lex z c (tl xs) (tl zs) = pad_lex z c (tl ys) (tl zs))"
    using Suc.prems by (intro Suc.IH) auto
  note eqL = order_comparator.cmp_eq_left [OF o, of "h xs" "h ys" "h zs"]
  note eqR = order_comparator.cmp_eq_right [OF o, of "h ys" "h zs" "h xs"]
  note tr = order_comparator_less_trans [OF o, of "h xs" "h ys" "h zs"]
  show ?case
  proof (cases "c (h xs) (h ys) = 0")
    case True
    then show ?thesis
      using IH eqL unfolding un [of xs ys] un [of ys zs] un [of xs zs] by simp
  next
    case False
    show ?thesis
    proof (cases "c (h ys) (h zs) = 0")
      case True
      with False eqR show ?thesis
        unfolding un [of xs ys] un [of ys zs] un [of xs zs] by simp
    next
      case yz: False
      with False tr show ?thesis
        unfolding un [of xs ys] un [of ys zs] un [of xs zs] by simp
    qed
  qed
qed

lemma order_comparator_pad_lex [cmp_intros]:
  fixes c :: "'a \<Rightarrow> 'a \<Rightarrow> int"
  assumes "order_comparator c"
  shows "order_comparator (pad_lex z c)"
proof (rule order_comparatorI)
  show "comparator (pad_lex z c)"
    by (intro comparator_pad_lex order_comparator.axioms(1) [OF assms])
  fix xs ys zs :: "'a list"
  define n where "n = length xs + length ys + length zs"
  have le: "length xs \<le> n" "length ys \<le> n" "length zs \<le> n"
    by (simp_all add: n_def)
  note aux = pad_lex_trans_aux [OF assms le, of z]
  show "pad_lex z c xs zs = -1" if "pad_lex z c xs ys = -1" and "pad_lex z c ys zs = -1"
    using aux that by blast
  show "pad_lex z c xs zs = pad_lex z c ys zs" if "pad_lex z c xs ys = 0"
    using aux that by blast
qed

text \<open>
  The same loop where the shorter list is the smaller one: \<^verbatim>\<open>strings.Compare\<close> on bytes, and the
  token loop of \<^verbatim>\<open>compareGeneric\<close>.
\<close>

fun list_lex :: "('a \<Rightarrow> 'a \<Rightarrow> int) \<Rightarrow> 'a list \<Rightarrow> 'a list \<Rightarrow> int" where
  "list_lex c [] [] = 0"
| "list_lex c [] (y # ys) = -1"
| "list_lex c (x # xs) [] = 1"
| "list_lex c (x # xs) (y # ys) = (let r = c x y in if r \<noteq> 0 then r else list_lex c xs ys)"

text \<open>A shorter list is one whose missing elements are below every element.\<close>

fun bot_cmp :: "('a \<Rightarrow> 'a \<Rightarrow> int) \<Rightarrow> 'a option \<Rightarrow> 'a option \<Rightarrow> int" where
  "bot_cmp c None None = 0"
| "bot_cmp c None (Some _) = -1"
| "bot_cmp c (Some _) None = 1"
| "bot_cmp c (Some x) (Some y) = c x y"

lemma list_lex_pad: "list_lex c xs ys = pad_lex None (bot_cmp c) (map Some xs) (map Some ys)"
  by (induction c xs ys rule: list_lex.induct) (simp_all add: Let_def)

lemma comparator_bot:
  assumes "comparator c"
  shows "comparator (bot_cmp c)"
proof
  note swap = comparator.cmp_swap [OF assms] and range = comparator.cmp_range [OF assms]
  fix a b
  show "bot_cmp c b a = - bot_cmp c a b"
  proof (cases a)
    case None
    then show ?thesis by (cases b) simp_all
  next
    case (Some x)
    then show ?thesis
    proof (cases b)
      case (Some y)
      with \<open>a = _\<close> show ?thesis using swap [of y x] by simp
    qed simp
  qed
  show "bot_cmp c a b = -1 \<or> bot_cmp c a b = 0 \<or> bot_cmp c a b = 1"
    by (cases a; cases b) (simp_all add: range)
qed

lemma order_comparator_bot:
  assumes "order_comparator c"
  shows "order_comparator (bot_cmp c)"
proof (rule order_comparatorI)
  note cmp = order_comparator.axioms(1) [OF assms]
  show "comparator (bot_cmp c)" by (intro comparator_bot cmp)
  fix x y z
  show "bot_cmp c x z = -1" if "bot_cmp c x y = -1" and "bot_cmp c y z = -1"
    using that by (cases x; cases y; cases z) (simp_all add: order_comparator_less_trans [OF assms])
  show "bot_cmp c x z = bot_cmp c y z" if "bot_cmp c x y = 0"
    using that by (cases x; cases y; cases z) (simp_all add: order_comparator.cmp_eq_left [OF assms])
qed

lemma list_lex_on: "list_lex c = cmp_on (map Some) (pad_lex None (bot_cmp c))"
  by (rule ext)+ (simp add: cmp_on_def list_lex_pad)

lemma comparator_list_lex [cmp_intros]: "comparator c \<Longrightarrow> comparator (list_lex c)"
  unfolding list_lex_on by (intro cmp_intros comparator_bot)

lemma order_comparator_list_lex [cmp_intros]:
  "order_comparator c \<Longrightarrow> order_comparator (list_lex c)"
  unfolding list_lex_on by (intro cmp_intros order_comparator_bot)

lemma list_lex_zero:
  "(\<And>x y. c x y = 0 \<longleftrightarrow> x = y) \<Longrightarrow> list_lex c xs ys = 0 \<longleftrightarrow> xs = ys"
  by (induction c xs ys rule: list_lex.induct) (auto simp: Let_def)

end
