(* ===== verification/GoStrings.thy ===== *)
theory GoStrings
  imports Comparators
begin

text \<open>
  The part of Go's \<^verbatim>\<open>strings\<close> and \<^verbatim>\<open>strconv\<close> packages the modelled code calls, on byte
  strings. Case folding, white space and character classes are the ASCII ones: a byte of 128
  or more is neither a space nor a letter and is left alone by the case conversions. On ASCII
  text this is what Go computes; on other text Go also folds the case of non-ASCII letters and
  trims non-ASCII spaces.
\<close>

abbreviation byte :: "char \<Rightarrow> nat" where
  "byte c \<equiv> of_char c"

lemma byte_eq_iff: "byte a = byte b \<longleftrightarrow> a = b"
  by simp

lemma byte_less: "byte c < 256"
  by (metis of_char_mod_256 mod_less_divisor zero_less_numeral)

subsection \<open>Bytes\<close>

definition isDigit :: "char \<Rightarrow> bool" where
  "isDigit b \<longleftrightarrow> byte b \<ge> 48 \<and> byte b \<le> 57"

definition isAlpha :: "char \<Rightarrow> bool" where
  "isAlpha b \<longleftrightarrow> (byte b \<ge> 97 \<and> byte b \<le> 122) \<or> (byte b \<ge> 65 \<and> byte b \<le> 90)"

definition isAlnum :: "char \<Rightarrow> bool" where
  "isAlnum b \<longleftrightarrow> isDigit b \<or> isAlpha b"

definition isSpaceByte :: "char \<Rightarrow> bool" where
  "isSpaceByte b \<longleftrightarrow> byte b = 32 \<or> (byte b \<ge> 9 \<and> byte b \<le> 13)"

lemma digit_not_alpha: "isDigit b \<Longrightarrow> \<not> isAlpha b"
  by (auto simp: isDigit_def isAlpha_def)

definition lowerByte :: "char \<Rightarrow> char" where
  "lowerByte c = (if byte c \<ge> 65 \<and> byte c \<le> 90 then char_of (byte c + 32) else c)"

definition upperByte :: "char \<Rightarrow> char" where
  "upperByte c = (if byte c \<ge> 97 \<and> byte c \<le> 122 then char_of (byte c - 32) else c)"

definition digitVal :: "char \<Rightarrow> nat" where
  "digitVal c = byte c - 48"

lemma byte_lowerByte: "byte (lowerByte c) = (if byte c \<ge> 65 \<and> byte c \<le> 90 then byte c + 32 else byte c)"
  by (auto simp: lowerByte_def)

lemma lowerByte_idem [simp]: "lowerByte (lowerByte c) = lowerByte c"
  by (simp add: lowerByte_def)

lemma lowerByte_digit [simp]: "isDigit c \<Longrightarrow> lowerByte c = c"
  by (simp add: lowerByte_def isDigit_def)

subsection \<open>strings\<close>

definition strings_ToLower :: "string \<Rightarrow> string" where
  "strings_ToLower s = map lowerByte s"

definition strings_ToUpper :: "string \<Rightarrow> string" where
  "strings_ToUpper s = map upperByte s"

lemma ToLower_idem [simp]: "strings_ToLower (strings_ToLower s) = strings_ToLower s"
  by (simp add: strings_ToLower_def)

lemma ToLower_append: "strings_ToLower (s @ t) = strings_ToLower s @ strings_ToLower t"
  by (simp add: strings_ToLower_def)

definition trim_left :: "(char \<Rightarrow> bool) \<Rightarrow> string \<Rightarrow> string" where
  "trim_left P s = dropWhile P s"

definition trim_right :: "(char \<Rightarrow> bool) \<Rightarrow> string \<Rightarrow> string" where
  "trim_right P s = rev (dropWhile P (rev s))"

definition trim_both :: "(char \<Rightarrow> bool) \<Rightarrow> string \<Rightarrow> string" where
  "trim_both P s = trim_right P (trim_left P s)"

definition strings_TrimSpace :: "string \<Rightarrow> string" where
  "strings_TrimSpace s = trim_both isSpaceByte s"

definition strings_HasPrefix :: "string \<Rightarrow> string \<Rightarrow> bool" where
  "strings_HasPrefix s p \<longleftrightarrow> take (length p) s = p"

definition strings_HasSuffix :: "string \<Rightarrow> string \<Rightarrow> bool" where
  "strings_HasSuffix s p \<longleftrightarrow> length p \<le> length s \<and> drop (length s - length p) s = p"

definition strings_TrimPrefix :: "string \<Rightarrow> string \<Rightarrow> string" where
  "strings_TrimPrefix s p = (if strings_HasPrefix s p then drop (length p) s else s)"

definition strings_TrimSuffix :: "string \<Rightarrow> string \<Rightarrow> string" where
  "strings_TrimSuffix s p = (if strings_HasSuffix s p then take (length s - length p) s else s)"

text \<open>
  \<^verbatim>\<open>i := strings.IndexByte(s, c)\<close> is used to cut a string around the first or last
  occurrence of a byte: \<open>cut_byte\<close> is the pair \<^verbatim>\<open>s[:i], s[i+1:]\<close>, None when the byte is absent.
\<close>

definition cut_byte :: "char \<Rightarrow> string \<Rightarrow> (string \<times> string) option" where
  "cut_byte c s = (if c \<in> set s
     then Some (takeWhile (\<lambda>x. x \<noteq> c) s, tl (dropWhile (\<lambda>x. x \<noteq> c) s)) else None)"

definition cut_last_byte :: "char \<Rightarrow> string \<Rightarrow> (string \<times> string) option" where
  "cut_last_byte c s = (case cut_byte c (rev s) of None \<Rightarrow> None
     | Some (after, before) \<Rightarrow> Some (rev before, rev after))"

definition strings_Cut :: "string \<Rightarrow> char \<Rightarrow> string \<times> string \<times> bool" where
  "strings_Cut s c = (case cut_byte c s of None \<Rightarrow> (s, [], False) | Some (a, b) \<Rightarrow> (a, b, True))"

lemma cut_byte_Some: "cut_byte c s = Some (a, b) \<Longrightarrow> s = a @ c # b \<and> c \<notin> set a"
proof -
  assume h: "cut_byte c s = Some (a, b)"
  then have "c \<in> set s" and a: "a = takeWhile (\<lambda>x. x \<noteq> c) s"
    and b: "b = tl (dropWhile (\<lambda>x. x \<noteq> c) s)"
    by (auto simp: cut_byte_def split: if_splits)
  then have ne: "dropWhile (\<lambda>x. x \<noteq> c) s \<noteq> []"
    by (auto simp: dropWhile_eq_Nil_conv)
  then have "hd (dropWhile (\<lambda>x. x \<noteq> c) s) = c"
    using hd_dropWhile [OF ne] by simp
  with ne b have d: "dropWhile (\<lambda>x. x \<noteq> c) s = c # b"
    by (cases "dropWhile (\<lambda>x. x \<noteq> c) s") simp_all
  have "s = a @ dropWhile (\<lambda>x. x \<noteq> c) s"
    by (simp add: a)
  moreover have "c \<notin> set a"
    by (auto simp: a dest: set_takeWhileD)
  ultimately show ?thesis by (simp add: d)
qed

lemma cut_byte_append [simp]: "c \<notin> set a \<Longrightarrow> cut_byte c (a @ c # b) = Some (a, b)"
  by (auto simp: cut_byte_def takeWhile_append dropWhile_append)

lemma cut_byte_None: "cut_byte c s = None \<longleftrightarrow> c \<notin> set s"
  by (simp add: cut_byte_def)

lemma cut_last_byte_append [simp]: "c \<notin> set b \<Longrightarrow> cut_last_byte c (a @ c # b) = Some (a, b)"
  by (simp add: cut_last_byte_def)

lemma cut_last_byte_None: "cut_last_byte c s = None \<longleftrightarrow> c \<notin> set s"
  using cut_byte_None [of c "rev s"]
  by (auto simp: cut_last_byte_def split: option.splits dest!: cut_byte_Some)

lemma cut_last_byte_Some: "cut_last_byte c s = Some (a, b) \<Longrightarrow> s = a @ c # b \<and> c \<notin> set b"
  by (auto simp: cut_last_byte_def split: option.splits prod.splits dest!: cut_byte_Some)
     (metis append.assoc append_Cons append_Nil rev.simps(2) rev_append rev_rev_ident)

fun split_byte :: "char \<Rightarrow> string \<Rightarrow> string list" where
  "split_byte c [] = [[]]"
| "split_byte c (x # xs) = (if x = c then [] # split_byte c xs
     else (case split_byte c xs of [] \<Rightarrow> [[x]] | y # ys \<Rightarrow> (x # y) # ys))"

lemma split_byte_ne: "split_byte c s \<noteq> []"
  by (induction s) (auto split: list.splits)

text \<open>\<^verbatim>\<open>strings.Index(s, sub)\<close>: the position of the first occurrence.\<close>

fun strings_Index :: "string \<Rightarrow> string \<Rightarrow> nat option" where
  "strings_Index [] p = (if p = [] then Some 0 else None)"
| "strings_Index (x # xs) p = (if strings_HasPrefix (x # xs) p then Some 0
     else map_option Suc (strings_Index xs p))"

definition strings_LastIndex :: "string \<Rightarrow> string \<Rightarrow> nat option" where
  "strings_LastIndex s p = (case strings_Index (rev s) (rev p) of None \<Rightarrow> None
     | Some j \<Rightarrow> Some (length s - j - length p))"

text \<open>\<^verbatim>\<open>strings.Compare\<close> and \<^verbatim>\<open><\<close> on Go strings: lexicographic on bytes.\<close>

definition byte_cmp :: "char \<Rightarrow> char \<Rightarrow> int" where
  "byte_cmp a b = int_cmp (int (byte a)) (int (byte b))"

definition strings_Compare :: "string \<Rightarrow> string \<Rightarrow> int" where
  "strings_Compare = list_lex byte_cmp"

lemma byte_cmp_order: "order_comparator byte_cmp"
proof -
  have eq: "byte_cmp = cmp_on (\<lambda>c. int (byte c)) int_cmp"
    by (intro ext) (simp add: cmp_on_def byte_cmp_def)
  show ?thesis unfolding eq by (rule order_comparator_on) (rule int_cmp_order)
qed

lemma byte_cmp_zero: "byte_cmp a b = 0 \<longleftrightarrow> a = b"
  by (auto simp: byte_cmp_def int_cmp_def sign_def)

lemma strings_Compare_order [cmp_intros]: "order_comparator strings_Compare"
  unfolding strings_Compare_def by (intro cmp_intros byte_cmp_order)

lemma strings_Compare_comparator [cmp_intros]: "comparator strings_Compare"
  by (rule order_comparator.axioms(1) [OF strings_Compare_order])

lemma strings_Compare_zero: "strings_Compare a b = 0 \<longleftrightarrow> a = b"
  unfolding strings_Compare_def by (rule list_lex_zero) (rule byte_cmp_zero)

interpretation str: order_comparator strings_Compare
  by (rule strings_Compare_order)

definition str_less :: "string \<Rightarrow> string \<Rightarrow> bool" where
  "str_less a b \<longleftrightarrow> strings_Compare a b < 0"

lemma str_less_irrefl [simp]: "\<not> str_less a a"
  by (simp add: str_less_def str.cmp_same)

lemma str_less_trans: "str_less a b \<Longrightarrow> str_less b c \<Longrightarrow> str_less a c"
  unfolding str_less_def by (rule str.cmp_less_le_trans) auto

lemma str_less_linear: "str_less a b \<or> a = b \<or> str_less b a"
  using str.cmp_swap [of a b] strings_Compare_zero [of a b] by (auto simp: str_less_def)

lemma str_less_asym: "str_less a b \<Longrightarrow> \<not> str_less b a"
  using str_less_trans [of a b a] by auto

subsection \<open>strconv\<close>

text \<open>\<^verbatim>\<open>strconv.Itoa\<close> on a length (a natural number).\<close>

fun itoa_nat :: "nat \<Rightarrow> string" where
  "itoa_nat n = (if n < 10 then [char_of (48 + n)]
     else itoa_nat (n div 10) @ [char_of (48 + n mod 10)])"

declare itoa_nat.simps [simp del]

lemma itoa_nat_digits: "\<forall>c \<in> set (itoa_nat n). isDigit c"
proof (induction n rule: itoa_nat.induct)
  case (1 n)
  then show ?case
    by (subst itoa_nat.simps) (auto simp: isDigit_def)
qed

lemma itoa_nat_ne [simp]: "itoa_nat n \<noteq> []"
  by (subst itoa_nat.simps) simp

fun digits_val :: "nat \<Rightarrow> string \<Rightarrow> nat" where
  "digits_val acc [] = acc"
| "digits_val acc (c # cs) = digits_val (10 * acc + digitVal c) cs"

lemma digits_val_append: "digits_val acc (s @ t) = digits_val (digits_val acc s) t"
  by (induction s arbitrary: acc) auto

lemma digits_val_itoa: "digits_val 0 (itoa_nat n) = n"
proof (induction n rule: itoa_nat.induct)
  case (1 n)
  then show ?case
    by (subst itoa_nat.simps) (auto simp: digits_val_append digitVal_def)
qed

lemma itoa_nat_inj: "itoa_nat m = itoa_nat n \<Longrightarrow> m = n"
  by (metis digits_val_itoa)

text \<open>\<^verbatim>\<open>strconv.Itoa\<close> and \<^verbatim>\<open>%d\<close> on an integer; \<^verbatim>\<open>strings.Join\<close>; \<^verbatim>\<open>%v\<close> on a list of strings.\<close>

definition fmt_int :: "int \<Rightarrow> string" where
  "fmt_int n = (if n < 0 then CHR ''-'' # itoa_nat (nat (- n)) else itoa_nat (nat n))"

fun join_with :: "string \<Rightarrow> string list \<Rightarrow> string" where
  "join_with sep [] = []"
| "join_with sep [s] = s"
| "join_with sep (s # t # ss) = s @ sep @ join_with sep (t # ss)"

definition fmt_strings :: "string list \<Rightarrow> string" where
  "fmt_strings ss = ''['' @ join_with '' '' ss @ '']''"

end
