(* ===== verification/VersionCommon.thy ===== *)
theory VersionCommon
  imports GoStrings
begin

text \<open>
  The helpers the per-ecosystem comparators of \<^verbatim>\<open>internal/vulndb/version*.go\<close> share:
  comparison of digit strings by magnitude, digit tests, cutting at a separator, and
  \<^verbatim>\<open>strconv.Atoi\<close> with its clamping.
\<close>

definition allDigits :: "string \<Rightarrow> bool" where
  "allDigits s \<longleftrightarrow> s \<noteq> [] \<and> (\<forall>c \<in> set s. isDigit c)"

definition cutAt :: "string \<Rightarrow> char \<Rightarrow> string" where
  "cutAt s sep = (case cut_byte sep s of Some (a, _) \<Rightarrow> a | None \<Rightarrow> s)"

definition defaultZero :: "string \<Rightarrow> string" where
  "defaultZero s = (if s = [] then ''0'' else s)"

definition compareNumeric :: "string \<Rightarrow> string \<Rightarrow> int" where
  "compareNumeric a b =
     (let a' = trim_left (\<lambda>c. c = CHR ''0'') a;
          b' = trim_left (\<lambda>c. c = CHR ''0'') b
      in if length a' \<noteq> length b' then sign (int (length a') - int (length b'))
         else sign (strings_Compare a' b'))"

lemma sign_strings_Compare [simp]: "sign (strings_Compare a b) = strings_Compare a b"
  by (rule sign_of_cmp) (rule str.cmp_range)

lemma sign_diff_zero: "sign (a - b) = 0 \<longleftrightarrow> a = b"
  by (auto simp: sign_def)

lemma sign_int_cmp [simp]: "sign (int_cmp a b) = int_cmp a b"
  by (simp add: int_cmp_def sign_def)

lemma compareNumeric_key:
  "compareNumeric = cmp_on (trim_left (\<lambda>c. c = CHR ''0''))
     (cmp_then (cmp_on (\<lambda>s. int (length s)) int_cmp) strings_Compare)"
  by (intro ext)
    (simp add: compareNumeric_def cmp_on_def cmp_then_def int_cmp_def sign_diff_zero)

lemma compareNumeric_order [cmp_intros]: "order_comparator compareNumeric"
  unfolding compareNumeric_key
  by (intro order_comparator_on order_comparator_then int_cmp_order strings_Compare_order)

lemma compareNumeric_comparator [cmp_intros]: "comparator compareNumeric"
  by (rule order_comparator.axioms(1) [OF compareNumeric_order])

interpretation num: order_comparator compareNumeric
  by (rule compareNumeric_order)

text \<open>
  On digit strings the comparison is the one of the numbers they denote, leading zeros and
  length included.
\<close>

lemma digitVal_le: "isDigit c \<Longrightarrow> digitVal c \<le> 9"
  unfolding isDigit_def digitVal_def by linarith

lemma digitVal_pos: "isDigit c \<Longrightarrow> byte c \<noteq> 48 \<Longrightarrow> 1 \<le> digitVal c"
  unfolding isDigit_def digitVal_def by linarith

lemma digitVal_less: "byte u < byte v \<Longrightarrow> byte u \<ge> 48 \<Longrightarrow> digitVal u + 1 \<le> digitVal v"
  unfolding digitVal_def by linarith

lemma digits_val_lower: "\<forall>c \<in> set s. isDigit c \<Longrightarrow> acc * 10 ^ length s \<le> digits_val acc s"
proof (induction s arbitrary: acc)
  case (Cons c s)
  then have "(10 * acc + digitVal c) * 10 ^ length s \<le> digits_val (10 * acc + digitVal c) s"
    by simp
  then show ?case by (simp add: algebra_simps)
qed simp

lemma digits_val_upper:
  "\<forall>c \<in> set s. isDigit c \<Longrightarrow> digits_val acc s < (acc + 1) * 10 ^ length s"
proof (induction s arbitrary: acc)
  case (Cons c s)
  then have d: "digitVal c \<le> 9" by (simp add: digitVal_le)
  have "digits_val (10 * acc + digitVal c) s < (10 * acc + digitVal c + 1) * 10 ^ length s"
    using Cons by simp
  also have "\<dots> \<le> (10 * acc + 10) * 10 ^ length s"
    using d by (intro mult_le_mono1) linarith
  finally show ?case by (simp add: algebra_simps)
qed simp

lemma digits_val_trim: "digits_val 0 (trim_left (\<lambda>c. c = CHR ''0'') s) = digits_val 0 s"
  by (induction s) (auto simp: trim_left_def digitVal_def)

lemma digits_val_same_length:
  assumes "length s = length t" and "\<forall>c \<in> set s. isDigit c" and "\<forall>c \<in> set t. isDigit c"
  shows "strings_Compare s t = int_cmp (int (digits_val a s)) (int (digits_val a t))"
  using assms
proof (induction s t arbitrary: a rule: list_induct2)
  case Nil
  then show ?case by (simp add: strings_Compare_def int_cmp_def)
next
  case (Cons x xs y ys)
  have xy: "byte x \<ge> 48" "byte y \<ge> 48" using Cons.prems by (auto simp: isDigit_def)
  have dx: "\<forall>c \<in> set xs. isDigit c" and dy: "\<forall>c \<in> set ys. isDigit c"
    using Cons.prems by simp_all
  have IH: "strings_Compare xs ys = int_cmp (int (digits_val b xs)) (int (digits_val b ys))" for b
    using Cons.IH dx dy by blast
  have gap: "digits_val (10 * a + digitVal u) us < digits_val (10 * a + digitVal v) vs"
    if "byte u < byte v" "byte u \<ge> 48" "length us = length vs"
      "\<forall>c \<in> set us. isDigit c" "\<forall>c \<in> set vs. isDigit c" for u v us vs
  proof -
    have "digits_val (10 * a + digitVal u) us < (10 * a + digitVal u + 1) * 10 ^ length us"
      by (rule digits_val_upper) (use that in blast)
    also have "\<dots> \<le> (10 * a + digitVal v) * 10 ^ length vs"
      using digitVal_less [OF that(1,2)] that(3) by (simp only:) (rule mult_le_mono1, linarith)
    also have "\<dots> \<le> digits_val (10 * a + digitVal v) vs"
      by (rule digits_val_lower) (use that in blast)
    finally show ?thesis .
  qed
  consider "x = y" | "byte x < byte y" | "byte y < byte x"
    using byte_eq_iff [of x y] by linarith
  then show ?case
  proof cases
    case 1
    then show ?thesis using IH [of "10 * a + digitVal y"]
      by (simp add: strings_Compare_def byte_cmp_def int_cmp_def)
  next
    case 2
    then show ?thesis using gap [OF 2 xy(1) Cons.hyps dx dy]
      by (simp add: strings_Compare_def byte_cmp_def int_cmp_def sign_def)
  next
    case 3
    then show ?thesis using gap [OF 3 xy(2) Cons.hyps [symmetric] dy dx]
      by (simp add: strings_Compare_def byte_cmp_def int_cmp_def sign_def)
  qed
qed

lemma digits_val_longer:
  assumes "\<forall>c \<in> set s. isDigit c" and "\<forall>c \<in> set t. isDigit c"
    and "t \<noteq> []" and "hd t \<noteq> CHR ''0''" and "length s < length t"
  shows "digits_val 0 s < digits_val 0 t"
proof (cases t)
  case (Cons c cs)
  have "byte c \<noteq> 48" using assms(4) Cons byte_eq_iff [of c "CHR ''0''"] by auto
  then have d: "1 \<le> digitVal c" using assms(2) Cons digitVal_pos [of c] by simp
  have "digits_val 0 s < 10 ^ length s"
    using digits_val_upper [of s 0] assms(1) by simp
  also have "\<dots> \<le> 10 ^ length cs"
    using assms(5) Cons by simp
  also have "\<dots> \<le> digitVal c * 10 ^ length cs"
    using d by simp
  also have "\<dots> \<le> digits_val 0 t"
    using digits_val_lower [of cs "digitVal c"] assms(2) Cons by simp
  finally show ?thesis .
qed (use assms in simp)

lemma compareNumeric_value:
  assumes "\<forall>c \<in> set a. isDigit c" and "\<forall>c \<in> set b. isDigit c"
  shows "compareNumeric a b = int_cmp (int (digits_val 0 a)) (int (digits_val 0 b))"
proof -
  let ?a = "trim_left (\<lambda>c. c = CHR ''0'') a" and ?b = "trim_left (\<lambda>c. c = CHR ''0'') b"
  have da: "\<forall>c \<in> set ?a. isDigit c" and db: "\<forall>c \<in> set ?b. isDigit c"
    using assms by (auto simp: trim_left_def dest: set_dropWhileD)
  have h: "trim_left (\<lambda>c. c = CHR ''0'') s \<noteq> [] \<Longrightarrow> hd (trim_left (\<lambda>c. c = CHR ''0'') s) \<noteq> CHR ''0''" for s
    using hd_dropWhile [of "\<lambda>c. c = CHR ''0''" s] by (simp add: trim_left_def)
  consider "length ?a = length ?b" | "length ?a < length ?b" | "length ?b < length ?a"
    by linarith
  then show ?thesis
  proof cases
    case 1
    then show ?thesis using digits_val_same_length [OF 1 da db, of 0]
      by (simp add: compareNumeric_def digits_val_trim)
  next
    case 2
    then have "digits_val 0 ?a < digits_val 0 ?b"
      by (intro digits_val_longer da db h) auto
    with 2 show ?thesis by (simp add: compareNumeric_def digits_val_trim int_cmp_def sign_def)
  next
    case 3
    then have "digits_val 0 ?b < digits_val 0 ?a"
      by (intro digits_val_longer da db h) auto
    with 3 show ?thesis by (simp add: compareNumeric_def digits_val_trim int_cmp_def sign_def)
  qed
qed

subsection \<open>strconv.Atoi\<close>

text \<open>
  \<^verbatim>\<open>strconv.Atoi\<close> accepts an optional sign and decimal digits. Its digit loop works on
  an unsigned 64-bit accumulator and stops at the first byte that is no digit (a syntax error)
  or where the accumulator would overflow (a range error); \<^verbatim>\<open>atoiSafe\<close> ignores the error
  and uses the value that comes with it: 0 after a syntax error, the nearest representable
  number after a range error.
\<close>

datatype atoi_err = AtoiSyntax | AtoiRange

fun parseUint_loop :: "int \<Rightarrow> string \<Rightarrow> atoi_err + int" where
  "parseUint_loop n [] = Inr n"
| "parseUint_loop n (c # cs) =
     (if \<not> isDigit c then Inl AtoiSyntax
      else if n \<ge> 1844674407370955162 then Inl AtoiRange
      else if n * 10 + int (digitVal c) > 18446744073709551615 then Inl AtoiRange
      else parseUint_loop (n * 10 + int (digitVal c)) cs)"

definition atoi_digits :: "bool \<Rightarrow> string \<Rightarrow> int" where
  "atoi_digits neg ds =
     (if ds = [] then 0 else case parseUint_loop 0 ds of
        Inl AtoiSyntax \<Rightarrow> 0
      | Inl AtoiRange \<Rightarrow> (if neg then - 9223372036854775808 else 9223372036854775807)
      | Inr n \<Rightarrow> (if \<not> neg \<and> n \<ge> 9223372036854775808 then 9223372036854775807
          else if neg \<and> n > 9223372036854775808 then - 9223372036854775808
          else if neg then - n else n))"

definition atoiSafe :: "string \<Rightarrow> int" where
  "atoiSafe s = (case strings_TrimSpace s of
       [] \<Rightarrow> 0
     | c # cs \<Rightarrow> if c = CHR ''-'' then atoi_digits True cs
         else if c = CHR ''+'' then atoi_digits False cs else atoi_digits False (c # cs))"

lemma parseUint_loop_nonneg: "0 \<le> n \<Longrightarrow> parseUint_loop n ds = Inr m \<Longrightarrow> 0 \<le> m"
  by (induction n ds rule: parseUint_loop.induct) (auto split: if_splits)

lemma atoi_digits_bounds:
  "- 9223372036854775808 \<le> atoi_digits neg ds \<and> atoi_digits neg ds \<le> 9223372036854775807"
  using parseUint_loop_nonneg [of 0 ds]
  by (auto simp: atoi_digits_def split: sum.splits atoi_err.splits)

lemma atoi_digits_pos: "0 \<le> atoi_digits False ds"
  using parseUint_loop_nonneg [of 0 ds]
  by (auto simp: atoi_digits_def split: sum.splits atoi_err.splits)

lemma atoiSafe_bounds: "- 9223372036854775808 \<le> atoiSafe s \<and> atoiSafe s \<le> 9223372036854775807"
  using atoi_digits_bounds by (auto simp: atoiSafe_def split: list.splits)

text \<open>Only a string with a minus sign has a negative value.\<close>

lemma set_TrimSpace: "set (strings_TrimSpace s) \<subseteq> set s"
  by (auto simp: strings_TrimSpace_def trim_both_def trim_left_def trim_right_def
      dest!: set_dropWhileD)

lemma atoiSafe_nonneg: "CHR ''-'' \<notin> set s \<Longrightarrow> 0 \<le> atoiSafe s"
  using set_TrimSpace [of s] atoi_digits_pos
  by (auto simp: atoiSafe_def split: list.splits)

end
