(* ===== verification/VersionSemver.thy ===== *)
theory VersionSemver
  imports VersionCommon
begin

text \<open>
  Semantic-version precedence (\<^verbatim>\<open>internal/vulndb/version_semver.go\<close>) and the Go module scheme
  built on it (\<^verbatim>\<open>version_go.go\<close>). The comparator is antisymmetric on every pair of strings.
  It is transitive when the release fields are digit strings; with other fields the fallback
  to a byte comparison makes cycles.
\<close>

definition compareDottedField :: "string \<Rightarrow> string \<Rightarrow> int" where
  "compareDottedField av bv =
     (if allDigits av \<and> allDigits bv then compareNumeric av bv else sign (strings_Compare av bv))"

definition compareDotted :: "string \<Rightarrow> string \<Rightarrow> int" where
  "compareDotted a b = pad_lex ''0'' compareDottedField
     (map defaultZero (split_byte (CHR ''.'') a)) (map defaultZero (split_byte (CHR ''.'') b))"

definition comparePreReleaseId :: "string \<Rightarrow> string \<Rightarrow> int" where
  "comparePreReleaseId ai bi =
     (if allDigits ai \<and> allDigits bi then compareNumeric ai bi
      else if allDigits ai then -1
      else if allDigits bi then 1
      else sign (strings_Compare ai bi))"

fun comparePreReleaseIds :: "string list \<Rightarrow> string list \<Rightarrow> int" where
  "comparePreReleaseIds (x # xs) (y # ys) =
     (let c = comparePreReleaseId x y in if c \<noteq> 0 then c else comparePreReleaseIds xs ys)"
| "comparePreReleaseIds xs ys = sign (int (length xs) - int (length ys))"

definition comparePreRelease :: "string \<Rightarrow> string \<Rightarrow> int" where
  "comparePreRelease a b =
     comparePreReleaseIds (split_byte (CHR ''.'') a) (split_byte (CHR ''.'') b)"

text \<open>The pre-release step of \<^verbatim>\<open>compareSemver\<close>: an empty pre-release is the release itself.\<close>

definition compareSemverPre :: "string \<Rightarrow> string \<Rightarrow> int" where
  "compareSemverPre aPre bPre =
     (if aPre = [] \<and> bPre = [] then 0
      else if aPre = [] then 1
      else if bPre = [] then -1
      else comparePreRelease aPre bPre)"

definition semverTrim :: "string \<Rightarrow> string" where
  "semverTrim a = cutAt (strings_TrimPrefix (strings_TrimPrefix a ''v'') ''V'') (CHR ''+'')"

definition compareSemver :: "string \<Rightarrow> string \<Rightarrow> int" where
  "compareSemver a b =
     (let a' = semverTrim a; b' = semverTrim b;
          (aCore, aPre, _) = strings_Cut a' (CHR ''-'');
          (bCore, bPre, _) = strings_Cut b' (CHR ''-'');
          c = compareDotted aCore bCore
      in if c \<noteq> 0 then c else compareSemverPre aPre bPre)"

definition normalizeGo :: "string \<Rightarrow> string" where
  "normalizeGo v = strings_TrimSuffix (strings_TrimSpace v) ''+incompatible''"

definition compareGo :: "string \<Rightarrow> string \<Rightarrow> int" where
  "compareGo a b = compareSemver (normalizeGo a) (normalizeGo b)"

subsection \<open>Antisymmetry\<close>

lemma compareDottedField_comparator [cmp_intros]: "comparator compareDottedField"
proof
  fix a b
  show "compareDottedField b a = - compareDottedField a b"
    using num.cmp_swap [of a b] str.cmp_swap [of a b] by (auto simp: compareDottedField_def sign_minus)
  show "compareDottedField a b = -1 \<or> compareDottedField a b = 0 \<or> compareDottedField a b = 1"
    using num.cmp_range [of a b] str.cmp_range [of a b] by (auto simp: compareDottedField_def)
qed

definition dottedKey :: "string \<Rightarrow> string list" where
  "dottedKey a = map defaultZero (split_byte (CHR ''.'') a)"

lemma compareDotted_key: "compareDotted = cmp_on dottedKey (pad_lex ''0'' compareDottedField)"
  by (intro ext) (simp add: compareDotted_def cmp_on_def dottedKey_def)

lemma comparePreReleaseId_order [cmp_intros]: "order_comparator comparePreReleaseId"
proof (rule order_comparatorI)
  show "comparator comparePreReleaseId"
  proof
    fix a b
    show "comparePreReleaseId b a = - comparePreReleaseId a b"
      using num.cmp_swap [of a b] str.cmp_swap [of a b] by (auto simp: comparePreReleaseId_def sign_minus)
    show "comparePreReleaseId a b = -1 \<or> comparePreReleaseId a b = 0 \<or> comparePreReleaseId a b = 1"
      using num.cmp_range [of a b] str.cmp_range [of a b] by (auto simp: comparePreReleaseId_def)
  qed
  fix x y z
  show "comparePreReleaseId x z = -1"
    if "comparePreReleaseId x y = -1" and "comparePreReleaseId y z = -1"
    using that order_comparator_less_trans [OF compareNumeric_order, of x y z]
      order_comparator_less_trans [OF strings_Compare_order, of x y z]
    by (auto simp: comparePreReleaseId_def split: if_splits)
  show "comparePreReleaseId x z = comparePreReleaseId y z" if "comparePreReleaseId x y = 0"
    using that num.cmp_eq_left [of x y z] str.cmp_eq_left [of x y z]
    by (auto simp: comparePreReleaseId_def split: if_splits)
qed

lemma comparePreReleaseIds_lex: "comparePreReleaseIds = list_lex comparePreReleaseId"
proof (intro ext)
  fix xs ys
  show "comparePreReleaseIds xs ys = list_lex comparePreReleaseId xs ys"
  proof (induction xs arbitrary: ys)
    case Nil
    then show ?case by (cases ys) (simp_all add: sign_def)
  next
    case (Cons x xs)
    then show ?case by (cases ys) (simp_all add: sign_def Let_def)
  qed
qed

lemma comparePreRelease_order: "order_comparator comparePreRelease"
proof -
  have eq: "comparePreRelease = cmp_on (split_byte (CHR ''.'')) (list_lex comparePreReleaseId)"
    by (intro ext) (simp add: comparePreRelease_def cmp_on_def comparePreReleaseIds_lex)
  show ?thesis unfolding eq
    by (intro order_comparator_on order_comparator_list_lex comparePreReleaseId_order)
qed

lemma compareSemverPre_order [cmp_intros]: "order_comparator compareSemverPre"
proof (rule order_comparatorI)
  note pre = comparePreRelease_order
  note cmp = order_comparator.axioms(1) [OF pre]
  show "comparator compareSemverPre"
  proof
    fix a b
    show "compareSemverPre b a = - compareSemverPre a b"
      using comparator.cmp_swap [OF cmp, of a b] by (auto simp: compareSemverPre_def)
    show "compareSemverPre a b = -1 \<or> compareSemverPre a b = 0 \<or> compareSemverPre a b = 1"
      using comparator.cmp_range [OF cmp, of a b] by (auto simp: compareSemverPre_def)
  qed
  fix x y z
  show "compareSemverPre x z = -1"
    if "compareSemverPre x y = -1" and "compareSemverPre y z = -1"
    using that order_comparator_less_trans [OF pre, of x y z]
    by (auto simp: compareSemverPre_def split: if_splits)
  show "compareSemverPre x z = compareSemverPre y z" if "compareSemverPre x y = 0"
    using that order_comparator.cmp_eq_left [OF pre, of x y z]
    by (auto simp: compareSemverPre_def split: if_splits)
qed

text \<open>A version's core and pre-release, as \<^verbatim>\<open>compareSemver\<close> reads them.\<close>

definition semverCore :: "string \<Rightarrow> string" where
  "semverCore v = fst (strings_Cut (semverTrim v) (CHR ''-''))"

definition semverPre :: "string \<Rightarrow> string" where
  "semverPre v = fst (snd (strings_Cut (semverTrim v) (CHR ''-'')))"

lemma compareSemver_key:
  "compareSemver = cmp_then (cmp_on semverCore compareDotted) (cmp_on semverPre compareSemverPre)"
  by (intro ext)
    (simp add: compareSemver_def cmp_then_def cmp_on_def semverCore_def semverPre_def Let_def
      case_prod_beta)

lemma compareSemver_comparator [cmp_intros]: "comparator compareSemver"
  unfolding compareSemver_key compareDotted_key
  by (intro comparator_then comparator_on comparator_pad_lex compareDottedField_comparator
      order_comparator.axioms(1) [OF compareSemverPre_order])

lemma compareGo_comparator [cmp_intros]: "comparator compareGo"
proof -
  have eq: "compareGo = cmp_on normalizeGo compareSemver"
    by (intro ext) (simp add: compareGo_def cmp_on_def)
  show ?thesis unfolding eq by (intro comparator_on compareSemver_comparator)
qed

subsection \<open>Transitivity on numeric release fields\<close>

text \<open>
  A version whose release fields are digit strings (or empty). On these the comparator agrees
  with one that reads every field as a number, which is an order.
\<close>

definition semverNumericCore :: "string \<Rightarrow> bool" where
  "semverNumericCore v \<longleftrightarrow> (\<forall>f \<in> set (dottedKey (semverCore v)). allDigits f)"

definition semverNumCmp :: "string \<Rightarrow> string \<Rightarrow> int" where
  "semverNumCmp = cmp_then (cmp_on (\<lambda>v. dottedKey (semverCore v)) (pad_lex ''0'' compareNumeric))
     (cmp_on semverPre compareSemverPre)"

lemma semverNumCmp_order: "order_comparator semverNumCmp"
  unfolding semverNumCmp_def
  by (intro order_comparator_then order_comparator_on order_comparator_pad_lex
      compareNumeric_order compareSemverPre_order)

lemma pad_lex_cong:
  assumes "P z" and "\<And>x y. P x \<Longrightarrow> P y \<Longrightarrow> c x y = d x y"
  shows "list_all P xs \<Longrightarrow> list_all P ys \<Longrightarrow> pad_lex z c xs ys = pad_lex z d xs ys"
proof (induction xs arbitrary: ys)
  case Nil
  then show ?case by (induction ys) (simp_all add: assms Let_def)
next
  case (Cons x xs)
  show ?case
  proof (cases ys)
    case Nil
    then show ?thesis using Cons.IH [of "[]"] Cons.prems by (simp add: assms Let_def)
  next
    case (Cons y ys')
    then show ?thesis using Cons.IH [of ys'] Cons.prems by (simp add: assms Let_def)
  qed
qed

lemma compareSemver_numeric:
  assumes "semverNumericCore a" and "semverNumericCore b"
  shows "compareSemver a b = semverNumCmp a b"
proof -
  have z: "allDigits ''0''" by (simp add: allDigits_def isDigit_def)
  have "pad_lex ''0'' compareDottedField (dottedKey (semverCore a)) (dottedKey (semverCore b)) =
      pad_lex ''0'' compareNumeric (dottedKey (semverCore a)) (dottedKey (semverCore b))"
    by (rule pad_lex_cong [where P = allDigits])
      (use z assms in \<open>simp_all add: compareDottedField_def semverNumericCore_def list_all_iff\<close>)
  then show ?thesis
    by (simp add: compareSemver_key semverNumCmp_def compareDotted_key cmp_then_def cmp_on_def)
qed

lemma compareSemver_trans:
  assumes "semverNumericCore a" and "semverNumericCore b" and "semverNumericCore c"
    and "compareSemver a b \<le> 0" and "compareSemver b c \<le> 0"
  shows "compareSemver a c \<le> 0"
  using assms order_comparator.cmp_trans [OF semverNumCmp_order, of a b c]
  by (simp add: compareSemver_numeric)

end
