(* ===== verification/VersionDeb.thy ===== *)
theory VersionDeb
  imports VersionCommon
begin

text \<open>
  Debian versions (\<^verbatim>\<open>internal/vulndb/version_deb.go\<close>). The index loops of
  \<^verbatim>\<open>debVerRevCmp\<close> are recursions on the unread suffixes of the two strings; an index that
  has run past the end is the empty suffix.
\<close>

definition itoaDefault :: "string \<Rightarrow> string" where
  "itoaDefault s = (if s = [] then ''0'' else s)"

definition splitDebEpoch :: "string \<Rightarrow> string \<times> string" where
  "splitDebEpoch v = (case cut_byte (CHR '':'') v of
       Some (e, rest) \<Rightarrow> if allDigits e then (e, rest) else (''0'', v)
     | None \<Rightarrow> (''0'', v))"

definition splitDeb :: "string \<Rightarrow> string \<times> string \<times> string" where
  "splitDeb v = (let (epoch, v') = splitDebEpoch v in
     case cut_last_byte (CHR ''-'') v' of
       Some (up, revn) \<Rightarrow> (epoch, up, revn)
     | None \<Rightarrow> (epoch, v', ''0''))"

definition debOrder :: "char \<Rightarrow> int" where
  "debOrder c = (if c = CHR ''~'' then -1
     else if isAlpha c then int (byte c) else int (byte c) + 256)"

definition debWeight :: "string \<Rightarrow> int" where
  "debWeight s = (case s of [] \<Rightarrow> 0 | c # _ \<Rightarrow> debOrder c)"

definition digitNext :: "string \<Rightarrow> bool" where
  "digitNext s = (case s of [] \<Rightarrow> False | c # _ \<Rightarrow> isDigit c)"

definition nonDigitNext :: "string \<Rightarrow> bool" where
  "nonDigitNext s = (case s of [] \<Rightarrow> False | c # _ \<Rightarrow> \<not> isDigit c)"

lemma nextSimps [simp]:
  "\<not> digitNext []" "\<not> nonDigitNext []"
  "digitNext (c # s) \<longleftrightarrow> isDigit c" "nonDigitNext (c # s) \<longleftrightarrow> \<not> isDigit c"
  "debWeight [] = 0" "debWeight (c # s) = debOrder c"
  by (simp_all add: digitNext_def nonDigitNext_def debWeight_def)

text \<open>The run of non-digit characters: a verdict, or the suffixes where both runs end.\<close>

function debNonDigits :: "string \<Rightarrow> string \<Rightarrow> int + string \<times> string" where
  "debNonDigits a b =
     (if nonDigitNext a \<or> nonDigitNext b then
        (if debWeight a \<noteq> debWeight b then Inl (sign (debWeight a - debWeight b))
         else debNonDigits (tl a) (tl b))
      else Inr (a, b))"
  by pat_completeness auto
termination
  by (relation "measure (\<lambda>(a, b). length a + length b)")
    (auto simp: nonDigitNext_def split: list.splits)

declare debNonDigits.simps [simp del]

text \<open>The common part of two digit runs, with the first difference seen.\<close>

fun debDigitRun :: "int \<Rightarrow> string \<Rightarrow> string \<Rightarrow> int \<times> string \<times> string" where
  "debDigitRun firstDiff (x # xs) (y # ys) =
     (if isDigit x \<and> isDigit y
      then debDigitRun (if firstDiff = 0 then int (byte x) - int (byte y) else firstDiff) xs ys
      else (firstDiff, x # xs, y # ys))"
| "debDigitRun firstDiff a b = (firstDiff, a, b)"

lemma debNonDigits_suffix:
  "debNonDigits a b = Inr (a', b') \<Longrightarrow>
     (\<exists>n. a' = drop n a \<and> b' = drop n b) \<and> \<not> nonDigitNext a' \<and> \<not> nonDigitNext b'"
proof (induction a b rule: debNonDigits.induct)
  case (1 a b)
  show ?case
  proof (cases "nonDigitNext a \<or> nonDigitNext b")
    case True
    with "1.prems" have eq: "debWeight a = debWeight b"
      and r: "debNonDigits (tl a) (tl b) = Inr (a', b')"
      by (auto simp: debNonDigits.simps [of a b] split: if_splits)
    obtain n where "a' = drop n (tl a)" "b' = drop n (tl b)"
      and "\<not> nonDigitNext a'" "\<not> nonDigitNext b'"
      using "1.IH" [OF True _ r] eq by auto
    then show ?thesis by (auto simp: drop_Suc [symmetric])
  next
    case False
    with "1.prems" show ?thesis
      by (auto simp: debNonDigits.simps [of a b] intro: exI [of _ 0])
  qed
qed

lemma debDigitRun_suffix:
  "debDigitRun f a b = (f', a', b') \<Longrightarrow> \<exists>n. a' = drop n a \<and> b' = drop n b"
proof (induction f a b rule: debDigitRun.induct)
  case (1 f x xs y ys)
  show ?case
  proof (cases "isDigit x \<and> isDigit y")
    case True
    with 1 obtain n where "a' = drop n xs" "b' = drop n ys" by auto
    then have "a' = drop (Suc n) (x # xs) \<and> b' = drop (Suc n) (y # ys)" by simp
    then show ?thesis by blast
  next
    case False
    with "1.prems" show ?thesis by (auto intro: exI [of _ 0])
  qed
qed (auto intro: exI [of _ 0])

text \<open>
  Every round of the outer loop that goes on has read something: a run of non-digits, or a
  digit run up to its end.
\<close>

lemma deb_round_shrinks:
  assumes "debNonDigits a b = Inr (a1, b1)"
    and "debDigitRun 0 (trim_left (\<lambda>c. c = CHR ''0'') a1) (trim_left (\<lambda>c. c = CHR ''0'') b1) = (f, a3, b3)"
    and "\<not> digitNext a3" and "\<not> digitNext b3" and "a \<noteq> [] \<or> b \<noteq> []"
  shows "length a3 + length b3 < length a + length b"
proof -
  let ?z = "\<lambda>c. c = CHR ''0''"
  obtain n where a1: "a1 = drop n a" and b1: "b1 = drop n b"
    and nd: "\<not> nonDigitNext a1" "\<not> nonDigitNext b1"
    using debNonDigits_suffix [OF assms(1)] by blast
  obtain m where a3: "a3 = drop m (trim_left ?z a1)" and b3: "b3 = drop m (trim_left ?z b1)"
    using debDigitRun_suffix [OF assms(2)] by blast
  have less: "length s3 < length s1"
    if "s3 = drop m (trim_left ?z s1)" "\<not> digitNext s3" "s1 \<noteq> []" "\<not> nonDigitNext s1" for s1 s3
  proof -
    have "digitNext s1" using that by (cases s1) auto
    moreover have "length s3 \<le> length (trim_left ?z s1)" using that by simp
    moreover have "length (trim_left ?z s1) \<le> length s1"
      by (simp add: trim_left_def length_dropWhile_le)
    moreover have "length s3 = length s1 \<Longrightarrow> s3 = s1"
    proof -
      assume eq: "length s3 = length s1"
      then have "length (trim_left ?z s1) = length s1"
        using calculation by simp
      then have t: "trim_left ?z s1 = s1"
        using takeWhile_dropWhile_id [of ?z s1] unfolding trim_left_def
        by (metis add_cancel_left_left append_Nil length_0_conv length_append)
      have "length s1 - m = length s1" "0 < length s1" using that eq t by simp_all
      then have "m = 0" by linarith
      with that t show "s3 = s1" by simp
    qed
    ultimately show ?thesis using that(2) by (cases "length s3 = length s1") auto
  qed
  have la: "length a3 \<le> length a" and lb: "length b3 \<le> length b"
    using a1 b1 a3 b3 length_dropWhile_le [of ?z a1] length_dropWhile_le [of ?z b1]
    by (auto simp: trim_left_def)
  show ?thesis
  proof (cases "a1 = [] \<and> b1 = []")
    case True
    with a3 b3 have "a3 = []" "b3 = []" by (simp_all add: trim_left_def)
    with assms(5) show ?thesis by auto
  next
    case False
    then have "length a3 < length a1 \<or> length b3 < length b1"
      using less [OF a3 assms(3) _ nd(1)] less [OF b3 assms(4) _ nd(2)] by blast
    moreover have "length a1 \<le> length a" "length b1 \<le> length b" using a1 b1 by simp_all
    ultimately show ?thesis using la lb by linarith
  qed
qed

function debVerRevCmp :: "string \<Rightarrow> string \<Rightarrow> int" where
  "debVerRevCmp a b =
     (if a = [] \<and> b = [] then 0 else
      case debNonDigits a b of
        Inl r \<Rightarrow> r
      | Inr (a1, b1) \<Rightarrow>
          (case debDigitRun 0 (trim_left (\<lambda>c. c = CHR ''0'') a1) (trim_left (\<lambda>c. c = CHR ''0'') b1) of
             (firstDiff, a3, b3) \<Rightarrow>
               if digitNext a3 then 1
               else if digitNext b3 then -1
               else if firstDiff \<noteq> 0 then sign firstDiff
               else debVerRevCmp a3 b3))"
  by pat_completeness auto
termination
  by (relation "measure (\<lambda>(a, b). length a + length b)")
    (auto intro: deb_round_shrinks [OF _ sym])

declare debVerRevCmp.simps [simp del]

definition compareDeb :: "string \<Rightarrow> string \<Rightarrow> int" where
  "compareDeb a b =
     (let (ae, au, ar) = splitDeb a; (be, bu, br) = splitDeb b;
          c = compareNumeric (itoaDefault ae) (itoaDefault be);
          d = debVerRevCmp au bu
      in if c \<noteq> 0 then c else if d \<noteq> 0 then d else debVerRevCmp ar br)"

subsection \<open>Antisymmetry\<close>

fun swap_verdict :: "int + string \<times> string \<Rightarrow> int + string \<times> string" where
  "swap_verdict (Inl r) = Inl (- r)"
| "swap_verdict (Inr (a, b)) = Inr (b, a)"

lemma debNonDigits_swap: "debNonDigits b a = swap_verdict (debNonDigits a b)"
proof (induction a b rule: debNonDigits.induct)
  case (1 a b)
  show ?case
  proof (cases "(nonDigitNext a \<or> nonDigitNext b) \<and> debWeight a = debWeight b")
    case True
    then show ?thesis
      using "1.IH" by (auto simp: debNonDigits.simps [of a b] debNonDigits.simps [of b a])
  next
    case False
    then show ?thesis
      using sign_minus [of "debWeight a - debWeight b"]
      by (auto simp: debNonDigits.simps [of a b] debNonDigits.simps [of b a])
  qed
qed

lemma debNonDigits_verdict: "debNonDigits a b = Inl r \<Longrightarrow> r = -1 \<or> r = 1"
proof (induction a b rule: debNonDigits.induct)
  case (1 a b)
  then show ?case
    by (auto simp: debNonDigits.simps [of a b] sign_def split: if_splits)
qed

lemma debDigitRun_swap:
  "debDigitRun (- f) b a = (case debDigitRun f a b of (g, a', b') \<Rightarrow> (- g, b', a'))"
proof (induction f a b rule: debDigitRun.induct)
  case (1 f x xs y ys)
  then show ?case
    by (cases "isDigit x \<and> isDigit y"; cases "f = 0") (auto simp: conj_commute)
qed simp_all

lemma debDigitRun_ends:
  "debDigitRun f a b = (g, a', b') \<Longrightarrow> \<not> (digitNext a' \<and> digitNext b')"
  by (induction f a b rule: debDigitRun.induct) (auto split: if_splits)

lemma debVerRevCmp_swap: "debVerRevCmp b a = - debVerRevCmp a b"
proof (induction a b rule: debVerRevCmp.induct)
  case (1 a b)
  show ?case
  proof (cases "a = [] \<and> b = []")
    case True
    then show ?thesis by (simp add: debVerRevCmp.simps)
  next
    case ne: False
    show ?thesis
    proof (cases "debNonDigits a b")
      case (Inl r)
      then have "debNonDigits b a = Inl (- r)" by (simp add: debNonDigits_swap [of b a])
      with ne Inl show ?thesis
        by (auto simp: debVerRevCmp.simps [of a b] debVerRevCmp.simps [of b a])
    next
      case (Inr p)
      then obtain a1 b1 where n: "debNonDigits a b = Inr (a1, b1)" by (cases p) auto
      then have n': "debNonDigits b a = Inr (b1, a1)" by (simp add: debNonDigits_swap [of b a])
      let ?t = "trim_left (\<lambda>c. c = CHR ''0'')"
      obtain g a3 b3 where d: "debDigitRun 0 (?t a1) (?t b1) = (g, a3, b3)"
        by (metis prod_cases3)
      then have d': "debDigitRun 0 (?t b1) (?t a1) = (- g, b3, a3)"
        using debDigitRun_swap [of 0 "?t b1" "?t a1"] by simp
      show ?thesis
        using ne "1.IH" [OF ne n _ d [symmetric]] debDigitRun_ends [OF d] n n' d d'
        by (auto simp: debVerRevCmp.simps [of a b] debVerRevCmp.simps [of b a] sign_minus)
    qed
  qed
qed

lemma debVerRevCmp_range: "debVerRevCmp a b = -1 \<or> debVerRevCmp a b = 0 \<or> debVerRevCmp a b = 1"
proof (induction a b rule: debVerRevCmp.induct)
  case (1 a b)
  show ?case
  proof (cases "a = [] \<and> b = []")
    case True
    then show ?thesis by (simp add: debVerRevCmp.simps)
  next
    case ne: False
    show ?thesis
    proof (cases "debNonDigits a b")
      case (Inl r)
      with ne debNonDigits_verdict [OF Inl] show ?thesis
        by (auto simp: debVerRevCmp.simps [of a b])
    next
      case (Inr p)
      then obtain a1 b1 where n: "debNonDigits a b = Inr (a1, b1)" by (cases p) auto
      let ?t = "trim_left (\<lambda>c. c = CHR ''0'')"
      obtain g a3 b3 where d: "debDigitRun 0 (?t a1) (?t b1) = (g, a3, b3)"
        by (metis prod_cases3)
      show ?thesis
        using ne "1.IH" [OF ne n _ d [symmetric]] sign_range [of g] n d
        by (simp add: debVerRevCmp.simps [of a b])
    qed
  qed
qed

lemma debVerRevCmp_comparator [cmp_intros]: "comparator debVerRevCmp"
  by (rule comparator.intro) (rule debVerRevCmp_swap, rule debVerRevCmp_range)

lemma compareDeb_key:
  "compareDeb = cmp_then (cmp_on (\<lambda>v. itoaDefault (fst (splitDeb v))) compareNumeric)
     (cmp_then (cmp_on (\<lambda>v. fst (snd (splitDeb v))) debVerRevCmp)
               (cmp_on (\<lambda>v. snd (snd (splitDeb v))) debVerRevCmp))"
  by (intro ext) (simp add: compareDeb_def cmp_then_def cmp_on_def Let_def case_prod_beta)

lemma compareDeb_comparator [cmp_intros]: "comparator compareDeb"
  unfolding compareDeb_key
  by (intro comparator_then comparator_on compareNumeric_comparator debVerRevCmp_comparator)

interpretation deb: comparator compareDeb
  by (rule compareDeb_comparator)

end
