(* ===== verification/VersionRpm.thy ===== *)
theory VersionRpm
  imports VersionCommon
begin

text \<open>
  RPM versions (\<^verbatim>\<open>internal/vulndb/version_rpm.go\<close>). As for Debian, the two indices of
  \<^verbatim>\<open>rpmVerCmp\<close> are the unread suffixes of the strings.
\<close>

definition splitEVREpoch :: "string \<Rightarrow> string \<times> string" where
  "splitEVREpoch v = (case cut_byte (CHR '':'') v of
       Some (e, rest) \<Rightarrow> (if allDigits e then e else ''0'', rest)
     | None \<Rightarrow> (''0'', v))"

definition splitEVR :: "string \<Rightarrow> string \<times> string \<times> string" where
  "splitEVR v = (let (epoch, v') = splitEVREpoch v in
     case cut_byte (CHR ''-'') v' of
       Some (ver, rel) \<Rightarrow> (epoch, ver, rel)
     | None \<Rightarrow> (epoch, v', []))"

definition rpmSep :: "char \<Rightarrow> bool" where
  "rpmSep c \<longleftrightarrow> \<not> isAlnum c \<and> c \<noteq> CHR ''~'' \<and> c \<noteq> CHR ''^''"

definition rpmMark :: "char \<Rightarrow> bool" where
  "rpmMark c \<longleftrightarrow> c = CHR ''~'' \<or> c = CHR ''^''"

definition hasMoreRPM :: "string \<Rightarrow> bool" where
  "hasMoreRPM s \<longleftrightarrow> (\<exists>c \<in> set s. isAlnum c \<or> c = CHR ''~'' \<or> c = CHR ''^'')"

text \<open>A maximal run of digits or of letters, whether it is numeric, and what follows.\<close>

definition rpmSegment :: "string \<Rightarrow> string \<times> bool \<times> string" where
  "rpmSegment s =
     (if s \<noteq> [] \<and> isDigit (hd s) then (takeWhile isDigit s, True, dropWhile isDigit s)
      else (takeWhile isAlpha s, False, dropWhile isAlpha s))"

definition tildeNext :: "string \<Rightarrow> bool" where
  "tildeNext s = (case s of [] \<Rightarrow> False | c # _ \<Rightarrow> c = CHR ''~'')"

definition markNext :: "string \<Rightarrow> bool" where
  "markNext s = (case s of [] \<Rightarrow> False | c # _ \<Rightarrow> rpmMark c)"

text \<open>What decides when one side is exhausted.\<close>

definition rpmTail :: "string \<Rightarrow> string \<Rightarrow> int" where
  "rpmTail a b =
     (let aRest = hasMoreRPM a; bRest = hasMoreRPM b
      in if aRest \<and> tildeNext a then -1
         else if bRest \<and> tildeNext b then 1
         else if aRest \<and> \<not> bRest then 1
         else if \<not> aRest \<and> bRest then -1
         else 0)"

text \<open>The comparison of two segments of the same position.\<close>

definition rpmSegCmp :: "string \<times> bool \<Rightarrow> string \<times> bool \<Rightarrow> int" where
  "rpmSegCmp x y =
     (if snd x \<noteq> snd y then (if snd x then 1 else -1)
      else if snd x then compareNumeric (fst x) (fst y)
      else sign (strings_Compare (fst x) (fst y)))"

text \<open>Skip a run of separators.\<close>

definition rpmSkip :: "string \<Rightarrow> string" where
  "rpmSkip s = dropWhile rpmSep s"

lemma rpmSegment_shorter:
  assumes "rpmSegment s = (seg, n, s')" and "s \<noteq> []" and "\<not> rpmSep (hd s)" and "\<not> rpmMark (hd s)"
  shows "length s' < length s"
proof -
  obtain c cs where s: "s = c # cs" using assms(2) by (cases s) auto
  have "isDigit c \<or> isAlpha c" using assms(3,4) s by (auto simp: rpmSep_def rpmMark_def isAlnum_def)
  then show ?thesis
    using assms(1) s length_dropWhile_le [of isDigit cs] length_dropWhile_le [of isAlpha cs]
    by (auto simp: rpmSegment_def split: if_splits)
qed

lemma rpmSkip_hd: "rpmSkip s \<noteq> [] \<Longrightarrow> \<not> rpmSep (hd (rpmSkip s))"
  using hd_dropWhile [of rpmSep s] unfolding rpmSkip_def by simp

lemma length_rpmSkip: "length (rpmSkip s) \<le> length s"
  by (simp add: rpmSkip_def length_dropWhile_le)

lemma rpmSkip_mark: "\<not> markNext s \<Longrightarrow> markNext (rpmSkip s) \<Longrightarrow> length (rpmSkip s) < length s"
proof (cases s)
  case (Cons c cs)
  assume "\<not> markNext s" and "markNext (rpmSkip s)"
  with Cons have "rpmSkip s = rpmSkip cs"
    by (cases "rpmSep c") (simp_all add: rpmSkip_def)
  then show ?thesis using Cons length_rpmSkip [of cs] by simp
qed (simp add: rpmSkip_def)

lemma rpm_round_shrinks:
  assumes "rpmSkip a \<noteq> []" and "rpmSkip b \<noteq> []"
    and "\<not> markNext (rpmSkip a)" and "\<not> markNext (rpmSkip b)"
    and "rpmSegment (rpmSkip a) = (aSeg, aNum, a2)" and "rpmSegment (rpmSkip b) = (bSeg, bNum, b2)"
  shows "length a2 + length b2 < length a + length b"
proof -
  have nm: "\<not> rpmMark (hd (rpmSkip a))" "\<not> rpmMark (hd (rpmSkip b))"
    using assms by (auto simp: markNext_def split: list.splits)
  have "length a2 < length (rpmSkip a)"
    by (rule rpmSegment_shorter) (use assms nm rpmSkip_hd in auto)
  moreover have "length b2 < length (rpmSkip b)"
    by (rule rpmSegment_shorter) (use assms nm rpmSkip_hd in auto)
  ultimately show ?thesis using length_rpmSkip [of a] length_rpmSkip [of b] by linarith
qed

function rpmVerCmp :: "string \<Rightarrow> string \<Rightarrow> int" where
  "rpmVerCmp a b =
     (if a = [] \<or> b = [] then rpmTail a b
      else if tildeNext a \<or> tildeNext b then
        (if tildeNext a \<and> tildeNext b then rpmVerCmp (tl a) (tl b)
         else if tildeNext a then -1 else 1)
      else if markNext a \<or> markNext b then
        (if markNext a \<and> markNext b then rpmVerCmp (tl a) (tl b)
         else if markNext a then 1 else -1)
      else
        (let a1 = rpmSkip a; b1 = rpmSkip b in
         if a1 = [] \<or> b1 = [] then rpmTail a1 b1
         else if markNext a1 \<or> markNext b1 then rpmVerCmp a1 b1
         else (case rpmSegment a1 of (aSeg, aNum, a2) \<Rightarrow>
               case rpmSegment b1 of (bSeg, bNum, b2) \<Rightarrow>
                 let c = rpmSegCmp (aSeg, aNum) (bSeg, bNum)
                 in if c \<noteq> 0 then c else rpmVerCmp a2 b2)))"
  by pat_completeness auto
termination
proof (relation "measure (\<lambda>(a, b). length a + length b)", goal_cases)
  case 1
  show ?case by simp
next
  case (2 a b)
  then show ?case by (cases a; cases b) auto
next
  case (3 a b)
  then show ?case by (cases a; cases b) auto
next
  case (4 a b a1 b1)
  have la: "length a1 \<le> length a" "length b1 \<le> length b"
    using 4 by (simp_all add: length_rpmSkip)
  have "length a1 < length a \<or> length b1 < length b"
    using 4 rpmSkip_mark [of a] rpmSkip_mark [of b] by auto
  then show ?case using la by simp linarith
next
  case 5
  then show ?case by (auto dest!: sym [of "(_, _, _)" "rpmSegment _"] intro: rpm_round_shrinks)
qed

declare rpmVerCmp.simps [simp del]

definition compareRPM :: "string \<Rightarrow> string \<Rightarrow> int" where
  "compareRPM a b =
     (let (ae, av, ar) = splitEVR a; (be, bv, br) = splitEVR b;
          c = compareNumeric ae be; d = rpmVerCmp av bv
      in if c \<noteq> 0 then c else if d \<noteq> 0 then d else rpmVerCmp ar br)"

subsection \<open>Antisymmetry\<close>

lemma rpmSegCmp_comparator: "comparator rpmSegCmp"
proof
  fix a b
  show "rpmSegCmp b a = - rpmSegCmp a b"
    using num.cmp_swap [of "fst a" "fst b"] str.cmp_swap [of "fst a" "fst b"]
    by (auto simp: rpmSegCmp_def sign_minus)
  show "rpmSegCmp a b = -1 \<or> rpmSegCmp a b = 0 \<or> rpmSegCmp a b = 1"
    using num.cmp_range [of "fst a" "fst b"] str.cmp_range [of "fst a" "fst b"]
    by (auto simp: rpmSegCmp_def)
qed

text \<open>The tail decision is antisymmetric because one of the two sides is exhausted.\<close>

lemma rpmTail_swap: "a = [] \<or> b = [] \<Longrightarrow> rpmTail b a = - rpmTail a b"
  by (auto simp: rpmTail_def Let_def tildeNext_def)

lemma rpmTail_range: "rpmTail a b = -1 \<or> rpmTail a b = 0 \<or> rpmTail a b = 1"
  by (auto simp: rpmTail_def Let_def)

lemma rpmVerCmp_swap: "rpmVerCmp b a = - rpmVerCmp a b"
proof (induction a b rule: rpmVerCmp.induct)
  case (1 a b)
  let ?a1 = "rpmSkip a" and ?b1 = "rpmSkip b"
  obtain aSeg aNum a2 where sa: "rpmSegment ?a1 = (aSeg, aNum, a2)" by (metis prod_cases3)
  obtain bSeg bNum b2 where sb: "rpmSegment ?b1 = (bSeg, bNum, b2)" by (metis prod_cases3)
  have c: "rpmSegCmp (bSeg, bNum) (aSeg, aNum) = - rpmSegCmp (aSeg, aNum) (bSeg, bNum)"
    by (rule comparator.cmp_swap [OF rpmSegCmp_comparator])
  consider "a = [] \<or> b = []"
    | "a \<noteq> [] \<and> b \<noteq> []" "tildeNext a \<or> tildeNext b"
    | "a \<noteq> [] \<and> b \<noteq> []" "\<not> (tildeNext a \<or> tildeNext b)" "markNext a \<or> markNext b"
    | "a \<noteq> [] \<and> b \<noteq> []" "\<not> (tildeNext a \<or> tildeNext b)" "\<not> (markNext a \<or> markNext b)"
    by blast
  then show ?case
  proof cases
    case 1
    then show ?thesis
      using rpmTail_swap [of a b] by (auto simp: rpmVerCmp.simps [of a b] rpmVerCmp.simps [of b a])
  next
    case 2
    then show ?thesis
      using "1.IH"(1) by (auto simp: rpmVerCmp.simps [of a b] rpmVerCmp.simps [of b a])
  next
    case 3
    then show ?thesis
      using "1.IH"(2) by (auto simp: rpmVerCmp.simps [of a b] rpmVerCmp.simps [of b a])
  next
    case 4
    consider "?a1 = [] \<or> ?b1 = []" | "\<not> (?a1 = [] \<or> ?b1 = [])" "markNext ?a1 \<or> markNext ?b1"
      | "\<not> (?a1 = [] \<or> ?b1 = [])" "\<not> (markNext ?a1 \<or> markNext ?b1)"
      by blast
    then show ?thesis
    proof cases
      case 1
      then show ?thesis using 4 rpmTail_swap [OF 1]
        by (auto simp: rpmVerCmp.simps [of a b] rpmVerCmp.simps [of b a] Let_def)
    next
      case 2
      have "rpmVerCmp ?b1 ?a1 = - rpmVerCmp ?a1 ?b1"
        using "1.IH"(3) 4 2 by simp
      then show ?thesis using 4 2
        by (auto simp: rpmVerCmp.simps [of a b] rpmVerCmp.simps [of b a] Let_def)
    next
      case 3
      have "rpmSegCmp (aSeg, aNum) (bSeg, bNum) = 0 \<Longrightarrow> rpmVerCmp b2 a2 = - rpmVerCmp a2 b2"
        using "1.IH"(4) [OF _ _ _ refl refl] 4 3 sa sb by simp
      then show ?thesis using 4 3 sa sb c
        by (simp add: rpmVerCmp.simps [of a b] rpmVerCmp.simps [of b a] Let_def)
    qed
  qed
qed

lemma rpmVerCmp_range: "rpmVerCmp a b = -1 \<or> rpmVerCmp a b = 0 \<or> rpmVerCmp a b = 1"
proof (induction a b rule: rpmVerCmp.induct)
  case (1 a b)
  obtain aSeg aNum a2 where sa: "rpmSegment (rpmSkip a) = (aSeg, aNum, a2)"
    by (metis prod_cases3)
  obtain bSeg bNum b2 where sb: "rpmSegment (rpmSkip b) = (bSeg, bNum, b2)"
    by (metis prod_cases3)
  have r: "rpmSegCmp (aSeg, aNum) (bSeg, bNum) = -1 \<or> rpmSegCmp (aSeg, aNum) (bSeg, bNum) = 0
      \<or> rpmSegCmp (aSeg, aNum) (bSeg, bNum) = 1"
    by (rule comparator.cmp_range [OF rpmSegCmp_comparator])
  show ?case
    using 1 sa sb r rpmTail_range by (auto simp: rpmVerCmp.simps [of a b] Let_def)
qed

lemma rpmVerCmp_comparator [cmp_intros]: "comparator rpmVerCmp"
  by (rule comparator.intro) (rule rpmVerCmp_swap, rule rpmVerCmp_range)

lemma compareRPM_key:
  "compareRPM = cmp_then (cmp_on (\<lambda>v. fst (splitEVR v)) compareNumeric)
     (cmp_then (cmp_on (\<lambda>v. fst (snd (splitEVR v))) rpmVerCmp)
               (cmp_on (\<lambda>v. snd (snd (splitEVR v))) rpmVerCmp))"
  by (intro ext) (simp add: compareRPM_def cmp_then_def cmp_on_def Let_def case_prod_beta)

lemma compareRPM_comparator [cmp_intros]: "comparator compareRPM"
  unfolding compareRPM_key
  by (intro comparator_then comparator_on compareNumeric_comparator rpmVerCmp_comparator)

interpretation rpm: comparator compareRPM
  by (rule compareRPM_comparator)

end
