(* ===== verification/VersionApk.thy ===== *)
theory VersionApk
  imports VersionCommon
begin

text \<open>
  Alpine package versions (\<^verbatim>\<open>internal/vulndb/version_apk.go\<close>) and the generic fallback
  (\<^verbatim>\<open>version_generic.go\<close>). Both comparators are total preorders on all strings.
\<close>

subsection \<open>Alpine\<close>

definition apkSuffixRank :: "string \<Rightarrow> int option" where
  "apkSuffixRank name = map_of
     [(''alpha'', 0), (''beta'', 1), (''pre'', 2), (''rc'', 3),
      (''cvs'', 5), (''svn'', 6), (''git'', 7), (''hg'', 8), (''p'', 9)] name"

definition apkReleaseRank :: int where
  "apkReleaseRank = 4"

type_synonym apkSuffix = "int \<times> string"

record apkVersion =
  apkNumbers :: "string list"
  apkLetter :: string
  apkSuffixes :: "apkSuffix list"
  apkRevision :: string

definition parseAPKSuffix :: "string \<Rightarrow> apkSuffix" where
  "parseAPKSuffix part =
     (let name = trim_right isDigit part
      in (case apkSuffixRank name of Some r \<Rightarrow> r | None \<Rightarrow> apkReleaseRank, drop (length name) part))"

definition parseAPKSuffixes :: "string \<Rightarrow> apkSuffix list" where
  "parseAPKSuffixes s = map parseAPKSuffix
     (filter (\<lambda>part. part \<noteq> []) (split_byte (CHR ''_'') (strings_TrimPrefix s ''_'')))"

text \<open>The four steps of \<^verbatim>\<open>parseAPK\<close>, each taking its part off the string.\<close>

definition apkCutRevision :: "string \<Rightarrow> string \<times> string" where
  "apkCutRevision v = (case strings_LastIndex v ''-r'' of
       Some i \<Rightarrow> if allDigits (drop (i + 2) v) then (take i v, drop (i + 2) v) else (v, [])
     | None \<Rightarrow> (v, []))"

definition apkCutSuffixes :: "string \<Rightarrow> string \<times> apkSuffix list" where
  "apkCutSuffixes v = (case cut_byte (CHR ''_'') v of
       Some (main, rest) \<Rightarrow> (main, parseAPKSuffixes (CHR ''_'' # rest))
     | None \<Rightarrow> (v, []))"

definition apkCutLetter :: "string \<Rightarrow> string \<times> string" where
  "apkCutLetter main =
     (let n = length main in
      if n \<ge> 2 \<and> isAlpha (main ! (n - 1)) \<and>
         (isDigit (main ! (n - 2)) \<or> main ! (n - 2) = CHR ''.'')
      then (take (n - 1) main, [main ! (n - 1)]) else (main, []))"

definition parseAPK :: "string \<Rightarrow> apkVersion" where
  "parseAPK v =
     (let (v1, revn) = apkCutRevision v;
          (main, sufs) = apkCutSuffixes v1;
          (main', lt) = apkCutLetter main
      in \<lparr> apkNumbers = split_byte (CHR ''.'') (trim_both (\<lambda>c. c = CHR ''.'') main'),
           apkLetter = lt, apkSuffixes = sufs, apkRevision = revn \<rparr>)"

definition compareAPKSuffix :: "apkSuffix \<Rightarrow> apkSuffix \<Rightarrow> int" where
  "compareAPKSuffix x y =
     (if fst x \<noteq> fst y then sign (fst x - fst y)
      else compareNumeric (defaultZero (snd x)) (defaultZero (snd y)))"

definition compareAPKSuffixes :: "apkSuffix list \<Rightarrow> apkSuffix list \<Rightarrow> int" where
  "compareAPKSuffixes a b = pad_lex (apkReleaseRank, ''0'') compareAPKSuffix a b"

definition compareAPKLetter :: "string \<Rightarrow> string \<Rightarrow> int" where
  "compareAPKLetter a b = (if a \<noteq> b then sign (strings_Compare a b) else 0)"

definition compareAPK :: "string \<Rightarrow> string \<Rightarrow> int" where
  "compareAPK a b =
     (let av = parseAPK a; bv = parseAPK b;
          cn = pad_lex ''0'' compareNumeric (apkNumbers av) (apkNumbers bv);
          cl = compareAPKLetter (apkLetter av) (apkLetter bv);
          cs = compareAPKSuffixes (apkSuffixes av) (apkSuffixes bv)
      in if cn \<noteq> 0 then cn else if cl \<noteq> 0 then cl else if cs \<noteq> 0 then cs
         else compareNumeric (defaultZero (apkRevision av)) (defaultZero (apkRevision bv)))"

lemma compareAPKLetter_eq: "compareAPKLetter = strings_Compare"
  by (intro ext) (simp add: compareAPKLetter_def str.cmp_same)

lemma compareAPKSuffix_key:
  "compareAPKSuffix = cmp_then (cmp_on fst int_cmp) (cmp_on (\<lambda>x. defaultZero (snd x)) compareNumeric)"
  by (intro ext) (simp add: compareAPKSuffix_def cmp_then_def cmp_on_def int_cmp_def sign_diff_zero)

lemma compareAPK_key:
  "compareAPK = cmp_on parseAPK
     (cmp_then (cmp_on apkNumbers (pad_lex ''0'' compareNumeric))
     (cmp_then (cmp_on apkLetter strings_Compare)
     (cmp_then (cmp_on apkSuffixes (pad_lex (apkReleaseRank, ''0'') compareAPKSuffix))
               (cmp_on (\<lambda>v. defaultZero (apkRevision v)) compareNumeric))))"
  by (intro ext)
    (simp add: compareAPK_def cmp_then_def cmp_on_def compareAPKLetter_eq compareAPKSuffixes_def Let_def)

lemma compareAPK_order [cmp_intros]: "order_comparator compareAPK"
  unfolding compareAPK_key compareAPKSuffix_key
  by (intro order_comparator_on order_comparator_then order_comparator_pad_lex
      compareNumeric_order strings_Compare_order int_cmp_order)

interpretation apk: order_comparator compareAPK
  by (rule compareAPK_order)

subsection \<open>The generic fallback\<close>

definition tok_flush :: "string \<Rightarrow> string list" where
  "tok_flush cur = (if cur \<noteq> [] then [cur] else [])"

fun genericTokens_loop :: "string \<Rightarrow> string \<Rightarrow> bool \<Rightarrow> string list" where
  "genericTokens_loop [] cur lastDigit = tok_flush cur"
| "genericTokens_loop (c # v) cur lastDigit =
     (if isAlnum c then
        (if cur \<noteq> [] \<and> isDigit c \<noteq> lastDigit
         then tok_flush cur @ genericTokens_loop v [c] (isDigit c)
         else genericTokens_loop v (cur @ [c]) (isDigit c))
      else tok_flush cur @ genericTokens_loop v [] lastDigit)"

definition genericTokens :: "string \<Rightarrow> string list" where
  "genericTokens v = genericTokens_loop v [] False"

definition compareGenericToken :: "string \<Rightarrow> string \<Rightarrow> int" where
  "compareGenericToken x y =
     (if allDigits x \<and> allDigits y then compareNumeric x y
      else if allDigits x then 1
      else if allDigits y then -1
      else sign (strings_Compare x y))"

definition compareGeneric :: "string \<Rightarrow> string \<Rightarrow> int" where
  "compareGeneric a b = list_lex compareGenericToken (genericTokens a) (genericTokens b)"

lemma compareGenericToken_order [cmp_intros]: "order_comparator compareGenericToken"
proof (rule order_comparatorI)
  show "comparator compareGenericToken"
  proof
    fix a b
    show "compareGenericToken b a = - compareGenericToken a b"
      using num.cmp_swap [of a b] str.cmp_swap [of a b]
      by (auto simp: compareGenericToken_def sign_minus)
    show "compareGenericToken a b = -1 \<or> compareGenericToken a b = 0 \<or> compareGenericToken a b = 1"
      using num.cmp_range [of a b] str.cmp_range [of a b] by (auto simp: compareGenericToken_def)
  qed
  fix x y z
  show "compareGenericToken x z = -1"
    if "compareGenericToken x y = -1" and "compareGenericToken y z = -1"
    using that order_comparator_less_trans [OF compareNumeric_order, of x y z]
      order_comparator_less_trans [OF strings_Compare_order, of x y z]
    by (auto simp: compareGenericToken_def split: if_splits)
  show "compareGenericToken x z = compareGenericToken y z" if "compareGenericToken x y = 0"
    using that num.cmp_eq_left [of x y z] str.cmp_eq_left [of x y z]
    by (auto simp: compareGenericToken_def split: if_splits)
qed

lemma compareGeneric_order [cmp_intros]: "order_comparator compareGeneric"
proof -
  have eq: "compareGeneric = cmp_on genericTokens (list_lex compareGenericToken)"
    by (intro ext) (simp add: compareGeneric_def cmp_on_def)
  show ?thesis unfolding eq
    by (intro order_comparator_on order_comparator_list_lex compareGenericToken_order)
qed

interpretation generic: order_comparator compareGeneric
  by (rule compareGeneric_order)

end
