(* ===== verification/VersionMaven.thy ===== *)
theory VersionMaven
  imports VersionCommon
begin

text \<open>
  Maven versions (\<^verbatim>\<open>internal/vulndb/version_maven.go\<close>): numeric and qualifier tokens, with an
  absent token standing for the neutral element of its counterpart's kind.
\<close>

definition mavenQualifiers :: "string \<Rightarrow> int option" where
  "mavenQualifiers q = map_of
     [(''alpha'', 0), (''beta'', 1), (''milestone'', 2), (''rc'', 3), (''snapshot'', 4),
      ([], 5), (''sp'', 6)] q"

definition mavenUnknownRank :: int where
  "mavenUnknownRank = 7"

record mavenItem =
  mvIsNum :: bool
  mvNum :: string
  mvQual :: string

definition mavenNum :: "string \<Rightarrow> mavenItem" where
  "mavenNum s = \<lparr> mvIsNum = True, mvNum = s, mvQual = [] \<rparr>"

definition mavenQual :: "string \<Rightarrow> mavenItem" where
  "mavenQual q = \<lparr> mvIsNum = False, mvNum = [], mvQual = q \<rparr>"

definition neutralLike :: "mavenItem \<Rightarrow> mavenItem" where
  "neutralLike other = (if mvIsNum other then mavenNum ''0'' else mavenQual [])"

definition compareMavenQual :: "string \<Rightarrow> string \<Rightarrow> int" where
  "compareMavenQual a b =
     (let ra = (case mavenQualifiers a of Some r \<Rightarrow> r | None \<Rightarrow> mavenUnknownRank);
          rb = (case mavenQualifiers b of Some r \<Rightarrow> r | None \<Rightarrow> mavenUnknownRank)
      in if ra \<noteq> rb then sign (ra - rb)
         else if mavenQualifiers a = None \<and> mavenQualifiers b = None
         then sign (strings_Compare a b)
         else 0)"

definition compareMavenPresent :: "mavenItem \<Rightarrow> mavenItem \<Rightarrow> int" where
  "compareMavenPresent x y =
     (if mvIsNum x \<and> mvIsNum y then compareNumeric (mvNum x) (mvNum y)
      else if mvIsNum x then 1
      else if mvIsNum y then -1
      else compareMavenQual (mvQual x) (mvQual y))"

fun compareMavenItem :: "mavenItem option \<Rightarrow> mavenItem option \<Rightarrow> int" where
  "compareMavenItem None None = 0"
| "compareMavenItem None (Some y) = compareMavenPresent (neutralLike y) y"
| "compareMavenItem (Some x) None = compareMavenPresent x (neutralLike x)"
| "compareMavenItem (Some x) (Some y) = compareMavenPresent x y"

definition normalizeMavenQual :: "string \<Rightarrow> string" where
  "normalizeMavenQual q =
     (if q = ''a'' then ''alpha''
      else if q = ''b'' then ''beta''
      else if q = ''m'' then ''milestone''
      else if q = ''cr'' then ''rc''
      else if q \<in> {''ga'', ''final'', ''release''} then []
      else q)"

definition mavenFlush :: "string \<Rightarrow> string list" where
  "mavenFlush cur = (if cur \<noteq> [] then [cur] else [])"

fun tokenizeMaven_loop :: "string \<Rightarrow> string \<Rightarrow> bool \<Rightarrow> string list" where
  "tokenizeMaven_loop [] cur lastDigit = mavenFlush cur"
| "tokenizeMaven_loop (c # v) cur lastDigit =
     (if c = CHR ''.'' \<or> c = CHR ''-'' \<or> c = CHR ''_'' \<or> c = CHR ''+'' then
        mavenFlush cur @ tokenizeMaven_loop v [] lastDigit
      else if isDigit c then
        (if cur \<noteq> [] \<and> \<not> lastDigit then mavenFlush cur @ tokenizeMaven_loop v [c] True
         else tokenizeMaven_loop v (cur @ [c]) True)
      else
        (if cur \<noteq> [] \<and> lastDigit then mavenFlush cur @ tokenizeMaven_loop v [c] False
         else tokenizeMaven_loop v (cur @ [c]) False))"

definition mavenItemOf :: "string \<Rightarrow> mavenItem" where
  "mavenItemOf t = (if allDigits t then mavenNum t else mavenQual (normalizeMavenQual t))"

definition tokenizeMaven :: "string \<Rightarrow> mavenItem list" where
  "tokenizeMaven v =
     map mavenItemOf (tokenizeMaven_loop (strings_ToLower (strings_TrimSpace v)) [] False)"

definition compareMaven :: "string \<Rightarrow> string \<Rightarrow> int" where
  "compareMaven a b =
     pad_lex None compareMavenItem (map Some (tokenizeMaven a)) (map Some (tokenizeMaven b))"

subsection \<open>Antisymmetry\<close>

lemma compareMavenQual_comparator: "comparator compareMavenQual"
proof
  fix a b
  show "compareMavenQual b a = - compareMavenQual a b"
    using str.cmp_swap [of a b]
    by (auto simp: compareMavenQual_def Let_def sign_def split: option.splits)
  show "compareMavenQual a b = -1 \<or> compareMavenQual a b = 0 \<or> compareMavenQual a b = 1"
    using sign_range by (simp add: compareMavenQual_def Let_def del: sign_strings_Compare)
qed

lemma compareMavenPresent_comparator: "comparator compareMavenPresent"
proof
  fix a b
  show "compareMavenPresent b a = - compareMavenPresent a b"
    using num.cmp_swap [of "mvNum a" "mvNum b"]
      comparator.cmp_swap [OF compareMavenQual_comparator, of "mvQual a" "mvQual b"]
    by (auto simp: compareMavenPresent_def)
  show "compareMavenPresent a b = -1 \<or> compareMavenPresent a b = 0 \<or> compareMavenPresent a b = 1"
    using num.cmp_range [of "mvNum a" "mvNum b"]
      comparator.cmp_range [OF compareMavenQual_comparator, of "mvQual a" "mvQual b"]
    by (auto simp: compareMavenPresent_def)
qed

lemma compareMavenItem_comparator: "comparator compareMavenItem"
proof
  note swap = comparator.cmp_swap [OF compareMavenPresent_comparator]
  note range = comparator.cmp_range [OF compareMavenPresent_comparator]
  fix a b
  show "compareMavenItem b a = - compareMavenItem a b"
    by (cases "(a, b)" rule: compareMavenItem.cases) (simp_all, (rule swap)+)
  show "compareMavenItem a b = -1 \<or> compareMavenItem a b = 0 \<or> compareMavenItem a b = 1"
    by (cases "(a, b)" rule: compareMavenItem.cases) (simp_all add: range)
qed

lemma compareMaven_comparator [cmp_intros]: "comparator compareMaven"
proof -
  have eq: "compareMaven = cmp_on (\<lambda>v. map Some (tokenizeMaven v)) (pad_lex None compareMavenItem)"
    by (intro ext) (simp add: compareMaven_def cmp_on_def)
  show ?thesis unfolding eq
    by (intro comparator_on comparator_pad_lex compareMavenItem_comparator)
qed

interpretation maven: comparator compareMaven
  by (rule compareMaven_comparator)

end
