(* ===== verification/VersionPep440.thy ===== *)
theory VersionPep440
  imports VersionCommon
begin

text \<open>
  Python versions (\<^verbatim>\<open>internal/vulndb/version_pep440.go\<close>). Numbers are Go \<^verbatim>\<open>int\<close>s, so the
  differences the comparator takes the sign of wrap around at 64 bits. Only the epoch can be
  negative (every \<^verbatim>\<open>-\<close> after it is turned into a dot), and only then can a difference wrap.
\<close>

record pep440 =
  pepEpoch :: int
  pepRelease :: "int list"
  pepPreKind :: int
  pepPreNum :: int
  pepHasPost :: bool
  pepPostNum :: int
  pepHasDev :: bool
  pepDevNum :: int

definition preA :: int where "preA = 1"
definition preB :: int where "preB = 2"
definition preRC :: int where "preRC = 3"
definition preNone :: int where "preNone = 4"

lemmas pre_defs = preA_def preB_def preRC_def preNone_def

subsection \<open>Parsing\<close>

definition trailingNum :: "string \<Rightarrow> int" where
  "trailingNum s =
     (let ds = takeWhile isDigit (trim_left (\<lambda>c. c = CHR ''.'') s)
      in if ds = [] then 0 else atoiSafe ds)"

definition preBoundary :: "string \<Rightarrow> nat \<Rightarrow> bool" where
  "preBoundary v i \<longleftrightarrow> i = 0 \<or> isDigit (v ! (i - 1)) \<or> v ! (i - 1) = CHR ''.''"

definition trimDots :: "string \<Rightarrow> string" where
  "trimDots s = trim_right (\<lambda>c. c = CHR ''.'') s"

text \<open>
  The steps of \<^verbatim>\<open>parsePEP440\<close>: lower-case and drop the local part, take the epoch, make every
  separator a dot, then take the dev, post and pre-release segments off the end, in that order.
\<close>

definition pepPublic :: "string \<Rightarrow> string" where
  "pepPublic v =
     (let v1 = strings_TrimPrefix (strings_ToLower (strings_TrimSpace v)) ''v''
      in case cut_byte (CHR ''+'') v1 of Some (a, _) \<Rightarrow> a | None \<Rightarrow> v1)"

definition pepCutEpoch :: "string \<Rightarrow> int \<times> string" where
  "pepCutEpoch v = (case cut_byte (CHR ''!'') v of
       Some (e, rest) \<Rightarrow> (atoiSafe e, rest) | None \<Rightarrow> (0, v))"

definition pepDots :: "string \<Rightarrow> string" where
  "pepDots v = map (\<lambda>c. if c = CHR ''-'' \<or> c = CHR ''_'' then CHR ''.'' else c) v"

definition pepCutDev :: "string \<Rightarrow> bool \<times> int \<times> string" where
  "pepCutDev v = (case strings_Index v ''dev'' of
       Some i \<Rightarrow> (True, trailingNum (drop (i + 3) v), trimDots (take i v))
     | None \<Rightarrow> (False, 0, v))"

fun pepCutPost :: "string list \<Rightarrow> string \<Rightarrow> bool \<times> int \<times> string" where
  "pepCutPost [] v = (False, 0, v)"
| "pepCutPost (kw # kws) v = (case strings_Index v kw of
       Some i \<Rightarrow> (True, trailingNum (drop (i + length kw) v), trimDots (take i v))
     | None \<Rightarrow> pepCutPost kws v)"

definition pepPreKeywords :: "(string \<times> int) list" where
  "pepPreKeywords = [(''alpha'', preA), (''beta'', preB), (''preview'', preRC), (''pre'', preRC),
     (''rc'', preRC), (''c'', preRC), (''a'', preA), (''b'', preB)]"

fun pepCutPre :: "(string \<times> int) list \<Rightarrow> string \<Rightarrow> int \<times> int \<times> string" where
  "pepCutPre [] v = (preNone, 0, v)"
| "pepCutPre ((kw, kind) # prs) v =
     (case strings_Index v kw of
        Some i \<Rightarrow> if preBoundary v i
                  then (kind, trailingNum (drop (i + length kw) v), trimDots (take i v))
                  else pepCutPre prs v
      | None \<Rightarrow> pepCutPre prs v)"

definition parsePEP440 :: "string \<Rightarrow> pep440" where
  "parsePEP440 v =
     (let (epoch, v1) = pepCutEpoch (pepPublic v);
          (hasDev, devNum, v2) = pepCutDev (pepDots v1);
          (hasPost, postNum, v3) = pepCutPost [''post'', ''rev''] v2;
          (preKind, preNum, v4) = pepCutPre pepPreKeywords v3
      in \<lparr> pepEpoch = epoch,
           pepRelease = map atoiSafe (filter (\<lambda>seg. seg \<noteq> []) (split_byte (CHR ''.'') v4)),
           pepPreKind = preKind, pepPreNum = preNum,
           pepHasPost = hasPost, pepPostNum = postNum,
           pepHasDev = hasDev, pepDevNum = devNum \<rparr>)"

subsection \<open>Comparison\<close>

definition pep440Phase :: "pep440 \<Rightarrow> int" where
  "pep440Phase p =
     (if pepHasDev p \<and> pepPreKind p = preNone then 0
      else if pepPreKind p \<noteq> preNone then 1 + pepPreKind p
      else 5)"

definition comparePresenceNum :: "bool \<Rightarrow> int \<Rightarrow> bool \<Rightarrow> int \<Rightarrow> bool \<Rightarrow> int" where
  "comparePresenceNum aHas aNum bHas bNum absentIsHigher =
     (if aHas \<and> bHas then sign (wrap64 (aNum - bNum))
      else if \<not> aHas \<and> \<not> bHas then 0
      else if absentIsHigher then (if aHas then -1 else 1)
      else (if aHas then 1 else -1))"

definition compareIntWrap :: "int \<Rightarrow> int \<Rightarrow> int" where
  "compareIntWrap av bv = (if av \<noteq> bv then sign (wrap64 (av - bv)) else 0)"

definition compareIntSlices :: "int list \<Rightarrow> int list \<Rightarrow> int" where
  "compareIntSlices a b = pad_lex 0 compareIntWrap a b"

definition comparePep :: "pep440 \<Rightarrow> pep440 \<Rightarrow> int" where
  "comparePep pa pb =
     (if pepEpoch pa \<noteq> pepEpoch pb then sign (wrap64 (pepEpoch pa - pepEpoch pb)) else
      let c = compareIntSlices (pepRelease pa) (pepRelease pb) in
      if c \<noteq> 0 then c else
      let c = sign (pep440Phase pa - pep440Phase pb) in
      if c \<noteq> 0 then c else
      let c = (if pepPreKind pa \<noteq> preNone \<and> pepPreKind pa = pepPreKind pb
               then sign (wrap64 (pepPreNum pa - pepPreNum pb)) else 0) in
      if c \<noteq> 0 then c else
      let c = comparePresenceNum (pepHasPost pa) (pepPostNum pa) (pepHasPost pb) (pepPostNum pb) False in
      if c \<noteq> 0 then c else
      comparePresenceNum (pepHasDev pa) (pepDevNum pa) (pepHasDev pb) (pepDevNum pb) True)"

definition comparePEP440 :: "string \<Rightarrow> string \<Rightarrow> int" where
  "comparePEP440 a b = comparePep (parsePEP440 a) (parsePEP440 b)"

subsection \<open>The order without wrap-around\<close>

definition pepPreKey :: "pep440 \<Rightarrow> int" where
  "pepPreKey p = (if pepPreKind p \<noteq> preNone then pepPreNum p else 0)"

definition pepPostKey :: "pep440 \<Rightarrow> int option" where
  "pepPostKey p = (if pepHasPost p then Some (pepPostNum p) else None)"

definition pepDevKey :: "pep440 \<Rightarrow> int option" where
  "pepDevKey p = (if pepHasDev p then Some (pepDevNum p) else None)"

text \<open>An absent value above every present one.\<close>

fun top_cmp :: "('a \<Rightarrow> 'a \<Rightarrow> int) \<Rightarrow> 'a option \<Rightarrow> 'a option \<Rightarrow> int" where
  "top_cmp c None None = 0"
| "top_cmp c None (Some _) = 1"
| "top_cmp c (Some _) None = -1"
| "top_cmp c (Some x) (Some y) = c x y"

lemma order_comparator_top_int: "order_comparator (top_cmp int_cmp)"
proof (rule order_comparatorI)
  note int = order_comparator.axioms(1) [OF int_cmp_order]
  show "comparator (top_cmp int_cmp)"
  proof
    fix a b
    show "top_cmp int_cmp b a = - top_cmp int_cmp a b"
      by (cases a; cases b) (auto simp: int_cmp_def sign_def)
    show "top_cmp int_cmp a b = -1 \<or> top_cmp int_cmp a b = 0 \<or> top_cmp int_cmp a b = 1"
      by (cases a; cases b) (auto simp: int_cmp_def sign_def)
  qed
  fix x y z
  show "top_cmp int_cmp x z = -1" if "top_cmp int_cmp x y = -1" and "top_cmp int_cmp y z = -1"
    using that by (cases x; cases y; cases z) (simp_all add: order_comparator_less_trans [OF int_cmp_order])
  show "top_cmp int_cmp x z = top_cmp int_cmp y z" if "top_cmp int_cmp x y = 0"
    using that by (cases x; cases y; cases z) (simp_all add: order_comparator.cmp_eq_left [OF int_cmp_order])
qed

definition pepOrder :: "pep440 \<Rightarrow> pep440 \<Rightarrow> int" where
  "pepOrder = cmp_then (cmp_on pepEpoch int_cmp)
     (cmp_then (cmp_on pepRelease (pad_lex 0 int_cmp))
     (cmp_then (cmp_on pep440Phase int_cmp)
     (cmp_then (cmp_on pepPreKey int_cmp)
     (cmp_then (cmp_on pepPostKey (bot_cmp int_cmp))
               (cmp_on pepDevKey (top_cmp int_cmp))))))"

lemma pepOrder_order: "order_comparator pepOrder"
  unfolding pepOrder_def
  by (intro order_comparator_then order_comparator_on order_comparator_pad_lex
      order_comparator_bot order_comparator_top_int int_cmp_order)

interpretation pep: order_comparator pepOrder
  by (rule pepOrder_order)

text \<open>
  What parsing guarantees: every number but the epoch is non-negative, and the pre-release
  kind is one of the four constants. With a non-negative epoch nothing wraps.
\<close>

definition int64_nat :: "int \<Rightarrow> bool" where
  "int64_nat x \<longleftrightarrow> 0 \<le> x \<and> x \<le> 9223372036854775807"

definition pepParsed :: "pep440 \<Rightarrow> bool" where
  "pepParsed p \<longleftrightarrow> list_all int64_nat (pepRelease p) \<and> pepPreKind p \<in> {1, 2, 3, 4}
     \<and> int64_nat (pepPreNum p) \<and> int64_nat (pepPostNum p) \<and> int64_nat (pepDevNum p)"

lemma wrap64_sign: "int64_nat x \<Longrightarrow> int64_nat y \<Longrightarrow> sign (wrap64 (x - y)) = int_cmp x y"
  by (simp add: int64_nat_def wrap64_id int_cmp_def)

lemma compareIntWrap_nat: "int64_nat x \<Longrightarrow> int64_nat y \<Longrightarrow> compareIntWrap x y = int_cmp x y"
  using wrap64_sign [of x y] by (simp add: compareIntWrap_def int_cmp_def)

lemma compareIntSlices_nat:
  "list_all int64_nat xs \<Longrightarrow> list_all int64_nat ys \<Longrightarrow> compareIntSlices xs ys = pad_lex 0 int_cmp xs ys"
  unfolding compareIntSlices_def
proof (induction xs arbitrary: ys)
  case Nil
  then show ?case
    by (induction ys) (simp_all add: compareIntWrap_nat int64_nat_def Let_def)
next
  case (Cons x xs)
  have z: "int64_nat 0" by (simp add: int64_nat_def)
  show ?case
  proof (cases ys)
    case Nil
    then show ?thesis using Cons.IH [of "[]"] Cons.prems z by (simp add: compareIntWrap_nat Let_def)
  next
    case (Cons y ys')
    then show ?thesis using Cons.IH [of ys'] Cons.prems by (simp add: compareIntWrap_nat Let_def)
  qed
qed

lemma comparePep_order:
  assumes "pepParsed a" and "pepParsed b"
    and "int64_nat (pepEpoch a)" and "int64_nat (pepEpoch b)"
  shows "comparePep a b = pepOrder a b"
proof -
  have e: "sign (wrap64 (pepEpoch a - pepEpoch b)) = int_cmp (pepEpoch a) (pepEpoch b)"
    using assms by (intro wrap64_sign)
  have r: "compareIntSlices (pepRelease a) (pepRelease b) = pad_lex 0 int_cmp (pepRelease a) (pepRelease b)"
    using assms by (intro compareIntSlices_nat) (simp_all add: pepParsed_def)
  have po: "comparePresenceNum (pepHasPost a) (pepPostNum a) (pepHasPost b) (pepPostNum b) False =
      bot_cmp int_cmp (pepPostKey a) (pepPostKey b)"
    using assms by (auto simp: comparePresenceNum_def pepPostKey_def wrap64_sign pepParsed_def)
  have de: "comparePresenceNum (pepHasDev a) (pepDevNum a) (pepHasDev b) (pepDevNum b) True =
      top_cmp int_cmp (pepDevKey a) (pepDevKey b)"
    using assms by (auto simp: comparePresenceNum_def pepDevKey_def wrap64_sign pepParsed_def)
  have pr: "(if pepPreKind a \<noteq> preNone \<and> pepPreKind a = pepPreKind b
        then sign (wrap64 (pepPreNum a - pepPreNum b)) else 0) = int_cmp (pepPreKey a) (pepPreKey b)"
    if "sign (pep440Phase a - pep440Phase b) = 0"
  proof -
    have "pep440Phase a = pep440Phase b" using that by (simp add: sign_diff_zero)
    then have "pepPreKind a \<noteq> preNone \<and> pepPreKind a = pepPreKind b \<or>
        pepPreKind a = preNone \<and> pepPreKind b = preNone"
      using assms(1,2) by (auto simp: pep440Phase_def pepParsed_def pre_defs split: if_splits)
    then show ?thesis
      using assms(1,2) by (auto simp: pepPreKey_def wrap64_sign pepParsed_def int_cmp_def)
  qed
  show ?thesis
    using pr unfolding comparePep_def pepOrder_def
    by (simp add: e r po de cmp_then_def cmp_on_def int_cmp_def Let_def sign_diff_zero)
qed

lemma trailingNum_nat: "int64_nat (trailingNum s)"
proof -
  have "0 \<le> atoiSafe (takeWhile isDigit t)" for t
    by (rule atoiSafe_nonneg) (auto dest!: set_takeWhileD simp: isDigit_def)
  then show ?thesis
    using atoiSafe_bounds by (auto simp: trailingNum_def int64_nat_def Let_def)
qed

lemma set_trimDots: "set (trimDots (take i v)) \<subseteq> set v"
  by (auto simp: trimDots_def trim_right_def dest!: set_dropWhileD dest: in_set_takeD)

lemma pepCutDev_set: "pepCutDev v = (h, n, v') \<Longrightarrow> int64_nat n \<and> set v' \<subseteq> set v"
  using trailingNum_nat set_trimDots [of _ v]
  by (auto simp: pepCutDev_def int64_nat_def split: option.splits)

lemma pepCutPost_set: "pepCutPost kws v = (h, n, v') \<Longrightarrow> int64_nat n \<and> set v' \<subseteq> set v"
proof (induction kws)
  case Nil
  then show ?case by (simp add: int64_nat_def)
next
  case (Cons kw kws)
  then show ?case using trailingNum_nat set_trimDots by (auto split: option.splits)
qed

lemma pepCutPre_set:
  assumes "\<forall>p \<in> set prs. snd p \<in> {1, 2, 3}" and "pepCutPre prs v = (k, n, v')"
  shows "int64_nat n \<and> k \<in> {1, 2, 3, 4} \<and> set v' \<subseteq> set v"
  using assms
proof (induction prs)
  case Nil
  then show ?case by (simp add: int64_nat_def preNone_def)
next
  case (Cons p prs)
  obtain kw kind where p: "p = (kw, kind)" by (cases p)
  show ?case
  proof (cases "\<exists>i. strings_Index v kw = Some i \<and> preBoundary v i")
    case True
    then obtain i where "strings_Index v kw = Some i" "preBoundary v i" by blast
    with Cons.prems p have "kind = k" "trailingNum (drop (i + length kw) v) = n"
        "trimDots (take i v) = v'"
      by simp_all
    then show ?thesis using Cons.prems p trailingNum_nat set_trimDots by fastforce
  next
    case False
    then have "pepCutPre prs v = (k, n, v')"
      using Cons.prems p by (auto split: option.splits if_splits)
    then show ?thesis using Cons.IH Cons.prems(1) by simp
  qed
qed

lemma set_split_byte: "seg \<in> set (split_byte c s) \<Longrightarrow> set seg \<subseteq> set s"
proof (induction s arbitrary: seg)
  case (Cons x s)
  show ?case
  proof (cases "x = c")
    case True
    with Cons show ?thesis by auto
  next
    case False
    obtain y ys where "split_byte c s = y # ys" using split_byte_ne [of c s] by (cases "split_byte c s") auto
    then have "seg = x # y \<or> seg \<in> set ys" "y \<in> set (split_byte c s)"
        "set ys \<subseteq> set (split_byte c s)"
      using Cons.prems False by auto
    then show ?thesis using Cons.IH by fastforce
  qed
qed simp

lemma parsePEP440_parsed: "pepParsed (parsePEP440 v)"
proof -
  obtain e v1 where e: "pepCutEpoch (pepPublic v) = (e, v1)" by (cases "pepCutEpoch (pepPublic v)")
  obtain hd dn v2 where d: "pepCutDev (pepDots v1) = (hd, dn, v2)" by (metis prod_cases3)
  obtain hp pn v3 where p: "pepCutPost [''post'', ''rev''] v2 = (hp, pn, v3)" by (metis prod_cases3)
  obtain pk rn v4 where r: "pepCutPre pepPreKeywords v3 = (pk, rn, v4)" by (metis prod_cases3)
  have kw: "\<forall>p \<in> set pepPreKeywords. snd p \<in> {1, 2, 3}"
    by (simp add: pepPreKeywords_def pre_defs)
  have "CHR ''-'' \<notin> set (pepDots v1)" by (auto simp: pepDots_def)
  then have "CHR ''-'' \<notin> set v4"
    using pepCutDev_set [OF d] pepCutPost_set [OF p] pepCutPre_set [OF kw r] by blast
  then have "0 \<le> atoiSafe seg" if "seg \<in> set (split_byte (CHR ''.'') v4)" for seg
    using atoiSafe_nonneg set_split_byte [OF that] by blast
  then have "list_all int64_nat (map atoiSafe (filter (\<lambda>seg. seg \<noteq> []) (split_byte (CHR ''.'') v4)))"
    using atoiSafe_bounds by (auto simp: list_all_iff int64_nat_def)
  then show ?thesis
    using e d p r pepCutDev_set [OF d] pepCutPost_set [OF p] pepCutPre_set [OF kw r]
    by (simp add: parsePEP440_def pepParsed_def)
qed

text \<open>The epoch of a version is non-negative unless it is written with a minus sign.\<close>

definition pepEpochOK :: "string \<Rightarrow> bool" where
  "pepEpochOK v \<longleftrightarrow> 0 \<le> pepEpoch (parsePEP440 v)"

lemma parsePEP440_epoch: "pepEpochOK v \<Longrightarrow> int64_nat (pepEpoch (parsePEP440 v))"
  using atoiSafe_bounds
  by (auto simp: pepEpochOK_def parsePEP440_def pepCutEpoch_def int64_nat_def Let_def
      split: option.splits prod.splits)

lemma comparePEP440_order:
  "pepEpochOK a \<Longrightarrow> pepEpochOK b \<Longrightarrow> comparePEP440 a b = pepOrder (parsePEP440 a) (parsePEP440 b)"
  unfolding comparePEP440_def
  by (intro comparePep_order parsePEP440_parsed parsePEP440_epoch)

end
