(* ===== verification/VersionCompare.thy ===== *)
theory VersionCompare
  imports VersionSemver VersionDeb VersionRpm VersionApk VersionMaven VersionPep440
begin

text \<open>
  The dispatch of \<^verbatim>\<open>internal/vulndb/version.go\<close> over the eight schemes, and what holds of the
  comparison as a whole: it is antisymmetric (for Python versions as long as the epochs are not
  negative), and a total preorder for the Alpine, generic and Python schemes and for semantic
  versions with numeric release fields. It is not transitive on the other schemes.
\<close>

type_synonym versionScheme = string

definition SchemeSemver :: versionScheme where "SchemeSemver = ''semver''"
definition SchemeDeb :: versionScheme where "SchemeDeb = ''deb''"
definition SchemeRPM :: versionScheme where "SchemeRPM = ''rpm''"
definition SchemeAPK :: versionScheme where "SchemeAPK = ''apk''"
definition SchemePEP440 :: versionScheme where "SchemePEP440 = ''pep440''"
definition SchemeGo :: versionScheme where "SchemeGo = ''go''"
definition SchemeMaven :: versionScheme where "SchemeMaven = ''maven''"
definition SchemeGem :: versionScheme where "SchemeGem = ''gem''"
definition SchemeGeneric :: versionScheme where "SchemeGeneric = ''generic''"

lemmas scheme_defs = SchemeSemver_def SchemeDeb_def SchemeRPM_def SchemeAPK_def SchemePEP440_def
  SchemeGo_def SchemeMaven_def SchemeGem_def SchemeGeneric_def

definition compareScheme :: "versionScheme \<Rightarrow> string \<Rightarrow> string \<Rightarrow> int" where
  "compareScheme sch =
     (if sch = SchemeDeb then compareDeb
      else if sch = SchemeRPM then compareRPM
      else if sch = SchemeAPK then compareAPK
      else if sch = SchemePEP440 then comparePEP440
      else if sch = SchemeGo then compareGo
      else if sch = SchemeMaven then compareMaven
      else if sch = SchemeSemver \<or> sch = SchemeGem then compareSemver
      else compareGeneric)"

definition Compare :: "versionScheme \<Rightarrow> string \<Rightarrow> string \<Rightarrow> int" where
  "Compare sch a b =
     (let a' = strings_TrimSpace a; b' = strings_TrimSpace b
      in if a' = b' then 0 else compareScheme sch a' b')"

subsection \<open>Antisymmetry and range\<close>

lemma compareScheme_comparator: "sch \<noteq> SchemePEP440 \<Longrightarrow> comparator (compareScheme sch)"
  by (simp add: compareScheme_def compareDeb_comparator compareRPM_comparator compareGo_comparator
      compareMaven_comparator compareSemver_comparator compareAPK_order compareGeneric_order
      order_comparator.axioms(1))

text \<open>
  The equality shortcut of \<open>Compare\<close> agrees with the scheme's comparator, since every
  comparator is 0 on equal strings.
\<close>

lemma comparePEP440_same: "comparePEP440 a a = 0"
proof -
  have "pad_lex 0 compareIntWrap xs xs = 0" for xs
    by (induction xs) (simp_all add: compareIntWrap_def)
  then show ?thesis
    by (simp add: comparePEP440_def comparePep_def compareIntSlices_def comparePresenceNum_def
        wrap64_id Let_def)
qed

lemma compareScheme_same: "compareScheme sch a a = 0"
proof (cases "sch = SchemePEP440")
  case True
  then show ?thesis by (simp add: compareScheme_def comparePEP440_same scheme_defs)
next
  case False
  then show ?thesis by (intro comparator.cmp_same compareScheme_comparator)
qed

lemma Compare_trim: "Compare sch a b = compareScheme sch (strings_TrimSpace a) (strings_TrimSpace b)"
  by (auto simp: Compare_def compareScheme_same Let_def)

text \<open>What a pair of versions must satisfy for the comparison to be antisymmetric.\<close>

definition versionOK :: "versionScheme \<Rightarrow> string \<Rightarrow> bool" where
  "versionOK sch v \<longleftrightarrow> sch = SchemePEP440 \<longrightarrow> pepEpochOK (strings_TrimSpace v)"

lemma Compare_pep:
  assumes "versionOK SchemePEP440 a" and "versionOK SchemePEP440 b"
  shows "Compare SchemePEP440 a b =
    pepOrder (parsePEP440 (strings_TrimSpace a)) (parsePEP440 (strings_TrimSpace b))"
proof -
  have "Compare SchemePEP440 a b = comparePEP440 (strings_TrimSpace a) (strings_TrimSpace b)"
    by (simp add: Compare_trim compareScheme_def scheme_defs)
  then show ?thesis
    using assms by (simp add: versionOK_def comparePEP440_order)
qed

lemma Compare_swap:
  assumes "versionOK sch a" and "versionOK sch b"
  shows "Compare sch b a = - Compare sch a b"
proof (cases "sch = SchemePEP440")
  case True
  then show ?thesis
    using assms Compare_pep [of a b] Compare_pep [of b a]
      pep.cmp_swap [of "parsePEP440 (strings_TrimSpace b)" "parsePEP440 (strings_TrimSpace a)"]
    by simp
next
  case False
  then show ?thesis
    unfolding Compare_trim by (intro comparator.cmp_swap compareScheme_comparator)
qed

lemma comparePep_range: "tri (comparePep a b)"
  unfolding comparePep_def compareIntSlices_def comparePresenceNum_def compareIntWrap_def
  by (intro tri_intros)

lemma compareScheme_range:
  "compareScheme sch a b = -1 \<or> compareScheme sch a b = 0 \<or> compareScheme sch a b = 1"
proof (cases "sch = SchemePEP440")
  case True
  then show ?thesis
    using comparePep_range by (simp add: compareScheme_def comparePEP440_def scheme_defs tri_def)
next
  case False
  then show ?thesis by (intro comparator.cmp_range compareScheme_comparator)
qed

text \<open>
  Comparing versions is antisymmetric: swapping the two versions negates the result, under
  every scheme and for every pair of strings, malformed ones included. The only versions left
  out are Python versions with a negative epoch.
\<close>

theorem Compare_antisymmetric:
  assumes "versionOK sch a" and "versionOK sch b"
  shows "Compare sch b a = - Compare sch a b"
  using assms by (rule Compare_swap)

theorem Compare_antisymmetric_witness:
  "Compare SchemeDeb ''1.0~rc1'' ''1.0'' = - Compare SchemeDeb ''1.0'' ''1.0~rc1''
   \<and> Compare SchemePEP440 ''1.0.post1'' ''1!0.5'' = - Compare SchemePEP440 ''1!0.5'' ''1.0.post1''"
proof -
  have "versionOK SchemeDeb v" for v by (simp add: versionOK_def scheme_defs)
  moreover have "versionOK SchemePEP440 ''1.0.post1''" by code_simp
  moreover have "versionOK SchemePEP440 ''1!0.5''" by code_simp
  ultimately show ?thesis by (intro conjI Compare_antisymmetric) simp_all
qed

text \<open>
  The result is always -1, 0 or 1, and a version equals itself, whatever the scheme and
  however malformed the strings.
\<close>

theorem Compare_range:
  "Compare sch a b \<in> {-1, 0, 1} \<and> Compare sch a a = 0"
  using compareScheme_range [of sch] by (auto simp: Compare_trim compareScheme_same)

subsection \<open>Where the comparison is an order\<close>

text \<open>
  The versions on which a scheme's comparison is transitive: all of them for the Alpine and
  generic schemes, non-negative epochs for Python, digit-string release fields for the
  semantic-version schemes. The remaining schemes have no such domain here.
\<close>

definition versionOrdered :: "versionScheme \<Rightarrow> string \<Rightarrow> bool" where
  "versionOrdered sch v =
     (if sch = SchemeDeb \<or> sch = SchemeRPM \<or> sch = SchemeMaven then False
      else if sch = SchemePEP440 then pepEpochOK (strings_TrimSpace v)
      else if sch = SchemeGo then semverNumericCore (normalizeGo (strings_TrimSpace v))
      else if sch = SchemeSemver \<or> sch = SchemeGem then semverNumericCore (strings_TrimSpace v)
      else True)"

lemma versionOrdered_OK: "versionOrdered sch v \<Longrightarrow> versionOK sch v"
  by (auto simp: versionOrdered_def versionOK_def scheme_defs split: if_splits)

lemma Compare_trans:
  assumes "versionOrdered sch a" and "versionOrdered sch b" and "versionOrdered sch c"
    and "Compare sch a b \<le> 0" and "Compare sch b c \<le> 0"
  shows "Compare sch a c \<le> 0"
proof (cases "sch = SchemePEP440")
  case True
  with assms show ?thesis
    using pep.cmp_trans by (simp add: versionOrdered_OK Compare_pep)
next
  case False
  then consider "sch = SchemeGo" | "sch = SchemeSemver \<or> sch = SchemeGem" | "sch = SchemeAPK"
    | "sch \<noteq> SchemeAPK" "compareScheme sch = compareGeneric"
    using assms(1) False
    by (cases "sch = SchemeAPK") (auto simp: versionOrdered_def compareScheme_def split: if_splits)
  then show ?thesis
  proof cases
    case 1
    define f where "f v = normalizeGo (strings_TrimSpace v)" for v
    have "Compare sch x y = compareSemver (f x) (f y)" for x y
      using 1 by (simp add: Compare_trim compareScheme_def compareGo_def f_def scheme_defs)
    moreover have "semverNumericCore (f v)" if "versionOrdered sch v" for v
      using that 1 by (simp add: versionOrdered_def f_def scheme_defs)
    ultimately show ?thesis
      using compareSemver_trans [of "f a" "f b" "f c"] assms by simp
  next
    case 2
    have "Compare sch x y = compareSemver (strings_TrimSpace x) (strings_TrimSpace y)" for x y
      using 2 by (auto simp: Compare_trim compareScheme_def scheme_defs)
    moreover have "semverNumericCore (strings_TrimSpace v)" if "versionOrdered sch v" for v
      using that 2 by (auto simp: versionOrdered_def scheme_defs)
    ultimately show ?thesis
      using compareSemver_trans [of "strings_TrimSpace a" "strings_TrimSpace b" "strings_TrimSpace c"]
        assms by simp
  next
    case 3
    have "Compare sch x y = compareAPK (strings_TrimSpace x) (strings_TrimSpace y)" for x y
      using 3 by (simp add: Compare_trim compareScheme_def scheme_defs)
    then show ?thesis
      using apk.cmp_trans [of "strings_TrimSpace a" "strings_TrimSpace b" "strings_TrimSpace c"]
        assms by simp
  next
    case 4
    then show ?thesis
      using generic.cmp_trans [of "strings_TrimSpace a" "strings_TrimSpace b" "strings_TrimSpace c"]
        assms by (simp add: Compare_trim)
  qed
qed



text \<open>
  On the Debian, RPM, Maven and semantic-version schemes the comparison of arbitrary
  versions is not transitive: each has three versions with \<open>a = b\<close> but \<open>a < c\<close> and
  \<open>c < b\<close>, or a cycle. Debian's character weight puts digits above letters where the end of
  the string counts as 0; RPM's tilde test at the end looks before separators are skipped;
  Maven pads with 0 or with the release depending on the other side's token; semantic versions
  compare a non-numeric field as bytes.
\<close>

theorem Compare_not_transitive:
  "Compare SchemeDeb ''1.'' ''1.0'' = 0 \<and> Compare SchemeDeb ''1.'' ''1.a'' = -1
     \<and> Compare SchemeDeb ''1.a'' ''1.0'' = -1
   \<and> Compare SchemeRPM ''1.'' ''1'' = 0 \<and> Compare SchemeRPM ''1'' ''1.~'' = -1
     \<and> Compare SchemeRPM ''1.~'' ''1.'' = -1
   \<and> Compare SchemeMaven ''1'' ''1.0'' = 0 \<and> Compare SchemeMaven ''1'' ''1-sp'' = -1
     \<and> Compare SchemeMaven ''1-sp'' ''1.0'' = -1
   \<and> Compare SchemeSemver ''2'' ''10'' = -1 \<and> Compare SchemeSemver ''10'' ''1a'' = -1
     \<and> Compare SchemeSemver ''1a'' ''2'' = -1"
  by (intro conjI; code_simp)

text \<open>
  With a negative epoch the 64-bit difference of two Python epochs can wrap around, and then
  each of the two versions is reported older than the other.
\<close>

theorem Compare_epoch_wraps:
  "Compare SchemePEP440 ''9223372036854775807!1'' ''-1!1'' = -1
   \<and> Compare SchemePEP440 ''-1!1'' ''9223372036854775807!1'' = -1"
  by (intro conjI; code_simp)

end
