(* ===== verification/GoFloat.thy ===== *)
theory GoFloat
  imports Complex_Main "HOL-Library.Log_Nat"
begin

text \<open>
  Go's \<^verbatim>\<open>float64\<close>: the IEEE 754 double-precision numbers, as the rational numbers they
  denote, the infinities and NaN. Zero has one representation: nothing in the modelled code
  tells the two signed zeros apart. Arithmetic rounds the exact result to the nearest
  double, ties to even.
\<close>

datatype float64 = Fin rat | PosInf | NegInf | NaN

definition pow2 :: "int \<Rightarrow> rat" where
  "pow2 e = (if 0 \<le> e then 2 ^ nat e else 1 / 2 ^ nat (- e))"

text \<open>The exponent of the leading bit of a positive rational.\<close>

definition ilog2 :: "rat \<Rightarrow> int" where
  "ilog2 a = (let (n, d) = quotient_of a; k = bitlen n - bitlen d
     in if pow2 k \<le> a then k else k - 1)"

definition round_half_even :: "rat \<Rightarrow> int" where
  "round_half_even q = (let f = floor q; r = q - of_int f
     in if r < 1 / 2 then f else if r > 1 / 2 then f + 1 else if even f then f else f + 1)"

definition round64 :: "rat \<Rightarrow> float64" where
  "round64 x =
     (if x = 0 then Fin 0 else
      let a = \<bar>x\<bar>; e = max (ilog2 a - 52) (-1074);
          r = of_int (round_half_even (a / pow2 e)) * pow2 e
      in if r \<ge> pow2 1024 then (if x > 0 then PosInf else NegInf)
         else Fin (if x > 0 then r else - r))"

definition float_of_int :: "int \<Rightarrow> float64" where
  "float_of_int n = round64 (of_int n)"

fun fneg :: "float64 \<Rightarrow> float64" where
  "fneg (Fin a) = Fin (- a)"
| "fneg PosInf = NegInf"
| "fneg NegInf = PosInf"
| "fneg NaN = NaN"

fun fadd :: "float64 \<Rightarrow> float64 \<Rightarrow> float64" where
  "fadd (Fin a) (Fin b) = round64 (a + b)"
| "fadd NaN y = NaN"
| "fadd x NaN = NaN"
| "fadd PosInf NegInf = NaN"
| "fadd NegInf PosInf = NaN"
| "fadd PosInf y = PosInf"
| "fadd NegInf y = NegInf"
| "fadd x PosInf = PosInf"
| "fadd x NegInf = NegInf"

definition fsub :: "float64 \<Rightarrow> float64 \<Rightarrow> float64" where
  "fsub a b = fadd a (fneg b)"

definition fsign :: "float64 \<Rightarrow> int" where
  "fsign x = (case x of Fin a \<Rightarrow> (if a > 0 then 1 else if a < 0 then -1 else 0)
     | PosInf \<Rightarrow> 1 | NegInf \<Rightarrow> -1 | NaN \<Rightarrow> 0)"

definition finf :: "int \<Rightarrow> float64" where
  "finf s = (if s > 0 then PosInf else if s < 0 then NegInf else NaN)"

fun fmul :: "float64 \<Rightarrow> float64 \<Rightarrow> float64" where
  "fmul (Fin a) (Fin b) = round64 (a * b)"
| "fmul NaN y = NaN"
| "fmul x NaN = NaN"
| "fmul x y = finf (fsign x * fsign y)"

text \<open>Division; a zero divisor counts as the positive zero.\<close>

fun fdiv :: "float64 \<Rightarrow> float64 \<Rightarrow> float64" where
  "fdiv (Fin a) (Fin b) = (if b = 0 then finf (fsign (Fin a)) else round64 (a / b))"
| "fdiv NaN y = NaN"
| "fdiv x NaN = NaN"
| "fdiv x (Fin b) = finf (if b < 0 then - fsign x else fsign x)"
| "fdiv (Fin a) y = Fin 0"
| "fdiv x y = NaN"

text \<open>\<^verbatim>\<open>math.Ceil\<close> and \<^verbatim>\<open>math.Min\<close>; the ceiling of a double is a double.\<close>

fun math_Ceil :: "float64 \<Rightarrow> float64" where
  "math_Ceil (Fin a) = Fin (of_int (ceiling a))"
| "math_Ceil x = x"

fun math_Min :: "float64 \<Rightarrow> float64 \<Rightarrow> float64" where
  "math_Min (Fin a) (Fin b) = Fin (min a b)"
| "math_Min NegInf y = NegInf"
| "math_Min x NegInf = NegInf"
| "math_Min NaN y = NaN"
| "math_Min x NaN = NaN"
| "math_Min PosInf y = y"
| "math_Min x PosInf = x"

text \<open>\<^verbatim>\<open>==\<close> and \<^verbatim>\<open><\<close>: NaN is unequal to and unordered with everything, itself included.\<close>

fun feq :: "float64 \<Rightarrow> float64 \<Rightarrow> bool" where
  "feq NaN y = False"
| "feq x NaN = False"
| "feq x y = (x = y)"

fun flt :: "float64 \<Rightarrow> float64 \<Rightarrow> bool" where
  "flt (Fin a) (Fin b) = (a < b)"
| "flt NaN y = False"
| "flt x NaN = False"
| "flt NegInf y = (y \<noteq> NegInf)"
| "flt x PosInf = (x \<noteq> PosInf)"
| "flt x y = False"

lemma feq_iff: "feq x y \<longleftrightarrow> x = y \<and> x \<noteq> NaN"
  by (cases "(x, y)" rule: feq.cases) auto

lemma feq_sym: "feq x y = feq y x"
  by (auto simp: feq_iff)

lemma feq_refl: "x \<noteq> NaN \<Longrightarrow> feq x x"
  by (simp add: feq_iff)

lemma flt_irrefl [simp]: "\<not> flt x x"
  by (cases x) auto

lemma flt_trans: "flt x y \<Longrightarrow> flt y z \<Longrightarrow> flt x z"
  by (cases x; cases y; cases z) auto

lemma flt_asym: "flt x y \<Longrightarrow> \<not> flt y x"
  using flt_trans [of x y x] by auto

lemma round64_zero [simp]: "round64 0 = Fin 0"
  by (simp add: round64_def)

lemma round64_not_NaN [simp]: "round64 x \<noteq> NaN"
  by (simp add: round64_def Let_def)

text \<open>Rounding keeps the sign.\<close>

lemma pow2_pos [simp]: "0 < pow2 e"
  by (simp add: pow2_def)

lemma round_half_even_nonneg: "0 \<le> q \<Longrightarrow> 0 \<le> round_half_even q"
  by (auto simp: round_half_even_def Let_def)

end
