(* ===== verification/Advisory.thy ===== *)
theory Advisory
  imports VersionCompare GoFloat
begin

text \<open>
  The advisory schema of \<^verbatim>\<open>internal/vulndb/advisory.go\<close>, the interval test of
  \<^verbatim>\<open>match.go\<close> and the severity bands of \<^verbatim>\<open>cvss.go\<close>.
\<close>

type_synonym ecosystem = string

definition scheme :: "ecosystem \<Rightarrow> versionScheme" where
  "scheme e =
     (let l = strings_ToLower e in
      if l \<in> {''alpine'', ''wolfi'', ''chainguard''} then SchemeAPK
      else if l \<in> {''debian'', ''ubuntu''} then SchemeDeb
      else if l \<in> {''rhel'', ''redhat'', ''centos'', ''rocky'', ''almalinux'', ''alma'', ''amazon'',
             ''amzn'', ''fedora'', ''opensuse'', ''suse'', ''sles'', ''photon'', ''mariner''} then SchemeRPM
      else if l \<in> {''npm'', ''cargo'', ''crates.io'', ''composer'', ''packagist'', ''nuget''} then SchemeSemver
      else if l \<in> {''pypi'', ''python''} then SchemePEP440
      else if l \<in> {''go'', ''golang''} then SchemeGo
      else if l = ''maven'' then SchemeMaven
      else if l \<in> {''rubygems'', ''gem''} then SchemeGem
      else SchemeGeneric)"

type_synonym sevName = string

definition SevCritical :: sevName where "SevCritical = ''critical''"
definition SevHigh :: sevName where "SevHigh = ''high''"
definition SevMedium :: sevName where "SevMedium = ''medium''"
definition SevLow :: sevName where "SevLow = ''low''"
definition SevNegligible :: sevName where "SevNegligible = ''negligible''"
definition SevUnknown :: sevName where "SevUnknown = ''unknown''"

lemmas sev_defs = SevCritical_def SevHigh_def SevMedium_def SevLow_def SevNegligible_def SevUnknown_def

definition Rank :: "sevName \<Rightarrow> int" where
  "Rank s = (if s = SevCritical then 5 else if s = SevHigh then 4 else if s = SevMedium then 3
     else if s = SevLow then 2 else if s = SevNegligible then 1 else 0)"

text \<open>
  \<^verbatim>\<open>SeverityFromScore\<close> compares the score with the doubles nearest to 9, 7, 4 and 0.1.
\<close>

definition fge :: "float64 \<Rightarrow> float64 \<Rightarrow> bool" where
  "fge x y \<longleftrightarrow> flt y x \<or> feq x y"

definition SeverityFromScore :: "float64 \<Rightarrow> sevName" where
  "SeverityFromScore score =
     (if fge score (round64 9) then SevCritical
      else if fge score (round64 7) then SevHigh
      else if fge score (round64 4) then SevMedium
      else if fge score (round64 (1 / 10)) then SevLow
      else SevNegligible)"

definition NormalizeSeverityWord :: "string \<Rightarrow> sevName" where
  "NormalizeSeverityWord s =
     (let w = strings_ToLower (strings_TrimSpace s) in
      if w = ''critical'' then SevCritical
      else if w = ''high'' \<or> w = ''important'' then SevHigh
      else if w = ''medium'' \<or> w = ''moderate'' then SevMedium
      else if w = ''low'' \<or> w = ''minor'' then SevLow
      else if w = ''negligible'' \<or> w = ''none'' then SevNegligible
      else SevUnknown)"

record cvss =
  cvssVersion :: string
  cvssVector :: string
  cvssScore :: float64

record vrange =
  rScheme :: versionScheme
  rIntroduced :: string
  rFixed :: string
  rLastAffected :: string

record advisory =
  advID :: string
  advAliases :: "string list"
  advSummary :: string
  advEcosystem :: ecosystem
  advPackage :: string
  advRanges :: "vrange list"
  advSeverity :: sevName
  advCVSS :: "cvss option"
  advCWEs :: "string list"
  advSymbols :: "string list"
  advReferences :: "string list"
  advSource :: string
  advPublished :: string
  advModified :: string

definition ids :: "advisory \<Rightarrow> string list" where
  "ids a = (if advID a \<noteq> [] then [advID a] else []) @ advAliases a"

definition rangeScheme :: "vrange \<Rightarrow> versionScheme \<Rightarrow> versionScheme" where
  "rangeScheme r fallback = (if rScheme r \<noteq> [] then rScheme r else fallback)"

definition inRange :: "versionScheme \<Rightarrow> string \<Rightarrow> vrange \<Rightarrow> bool" where
  "inRange sch installed r =
     (if rIntroduced r \<noteq> [] \<and> rIntroduced r \<noteq> ''0'' \<and> Compare sch installed (rIntroduced r) < 0
      then False
      else if rFixed r \<noteq> [] then Compare sch installed (rFixed r) < 0
      else if rLastAffected r \<noteq> [] then Compare sch installed (rLastAffected r) \<le> 0
      else True)"

fun Vulnerable_loop :: "versionScheme \<Rightarrow> string \<Rightarrow> vrange list \<Rightarrow> bool" where
  "Vulnerable_loop sch installed [] = False"
| "Vulnerable_loop sch installed (r # rs) =
     (if inRange (rangeScheme r sch) installed r then True else Vulnerable_loop sch installed rs)"

definition Vulnerable :: "versionScheme \<Rightarrow> string \<Rightarrow> vrange list \<Rightarrow> bool" where
  "Vulnerable sch installed ranges = (if installed = [] then False else Vulnerable_loop sch installed ranges)"

fun FixedVersion_loop :: "versionScheme \<Rightarrow> string \<Rightarrow> vrange list \<Rightarrow> string" where
  "FixedVersion_loop sch best [] = best"
| "FixedVersion_loop sch best (r # rs) =
     (if rFixed r = [] then FixedVersion_loop sch best rs
      else if best = [] \<or> Compare (rangeScheme r sch) (rFixed r) best < 0
      then FixedVersion_loop sch (rFixed r) rs
      else FixedVersion_loop sch best rs)"

definition FixedVersion :: "advisory \<Rightarrow> versionScheme \<Rightarrow> string" where
  "FixedVersion a sch = FixedVersion_loop sch [] (advRanges a)"

lemma Vulnerable_loop_ex:
  "Vulnerable_loop sch v rs \<longleftrightarrow> (\<exists>r \<in> set rs. inRange (rangeScheme r sch) v r)"
  by (induction rs) auto

subsection \<open>The interface the range test needs of a version order\<close>

text \<open>
  A comparison that is a total preorder on a set of valid versions. An interval of such an
  order is convex, and a running minimum over it is a lower bound.
\<close>

locale version_order =
  fixes valid :: "string \<Rightarrow> bool"
    and cmp :: "string \<Rightarrow> string \<Rightarrow> int"
  assumes swap: "valid a \<Longrightarrow> valid b \<Longrightarrow> cmp b a = - cmp a b"
    and trans: "valid a \<Longrightarrow> valid b \<Longrightarrow> valid c \<Longrightarrow> cmp a b \<le> 0 \<Longrightarrow> cmp b c \<le> 0 \<Longrightarrow> cmp a c \<le> 0"
begin

lemma le_less_trans:
  "valid a \<Longrightarrow> valid b \<Longrightarrow> valid c \<Longrightarrow> cmp a b \<le> 0 \<Longrightarrow> cmp b c < 0 \<Longrightarrow> cmp a c < 0"
  using trans [of c a b] swap [of a c] swap [of b c] by force

lemma ge_trans:
  "valid a \<Longrightarrow> valid b \<Longrightarrow> valid c \<Longrightarrow> 0 \<le> cmp a b \<Longrightarrow> cmp a c \<le> 0 \<Longrightarrow> 0 \<le> cmp c b"
  using trans [of b a c] swap [of a b] swap [of b c] by simp

text \<open>The running minimum the fixed-version loop keeps.\<close>

fun min_loop :: "string \<Rightarrow> string list \<Rightarrow> string" where
  "min_loop best [] = best"
| "min_loop best (v # vs) = (if cmp v best < 0 then min_loop v vs else min_loop best vs)"

lemma min_loop_in: "min_loop best vs \<in> insert best (set vs)"
  by (induction vs arbitrary: best) auto

lemma min_loop_le:
  "valid best \<Longrightarrow> (\<And>v. v \<in> set vs \<Longrightarrow> valid v) \<Longrightarrow> w \<in> insert best (set vs) \<Longrightarrow>
     cmp (min_loop best vs) w \<le> 0"
proof (induction vs arbitrary: best w)
  case Nil
  then show ?case using swap [of best best] by simp
next
  case (Cons v vs)
  define b' where "b' = (if cmp v best < 0 then v else best)"
  have vb: "valid b'" using Cons.prems by (simp add: b'_def)
  have step: "min_loop best (v # vs) = min_loop b' vs" by (simp add: b'_def)
  have below: "cmp b' u \<le> 0" if "u = v \<or> u = best" for u
    using that Cons.prems(1) Cons.prems(2) [of v] swap [of v best] swap [of v v] swap [of best best]
    by (auto simp: b'_def)
  have IH: "cmp (min_loop b' vs) u \<le> 0" if "u \<in> insert b' (set vs)" for u
    using Cons.IH [OF vb] Cons.prems(2) that by simp
  have vm: "valid (min_loop b' vs)"
    using min_loop_in [of b' vs] vb Cons.prems(2) by auto
  show ?case
  proof (cases "w \<in> set vs")
    case True
    then show ?thesis using IH step by simp
  next
    case False
    then have w: "w = v \<or> w = best" using Cons.prems(3) by auto
    then have "valid w" using Cons.prems(1) Cons.prems(2) [of v] by auto
    then show ?thesis using trans [OF vm vb _ IH below [OF w]] step by simp
  qed
qed

end

text \<open>
  The code's comparison provides that interface on the ordered versions of every scheme
  (\<open>versionOrdered\<close>), for the Alpine, generic, Python and semantic schemes.
\<close>

lemma Compare_version_order: "version_order (versionOrdered sch) (Compare sch)"
proof
  show "Compare sch b a = - Compare sch a b" if "versionOrdered sch a" "versionOrdered sch b" for a b
    by (rule Compare_swap) (use that in \<open>simp_all add: versionOrdered_OK\<close>)
  show "Compare sch a c \<le> 0"
    if "versionOrdered sch a" "versionOrdered sch b" "versionOrdered sch c"
      "Compare sch a b \<le> 0" "Compare sch b c \<le> 0" for a b c
    using that by (rule Compare_trans)
qed

interpretation vo: version_order "versionOrdered sch" "Compare sch" for sch
  by (rule Compare_version_order)

subsection \<open>The range test\<close>

text \<open>
  The first fixed version of a range is never inside that range, whatever the scheme and
  however odd the version strings: an installation of the recommended upgrade is not reported
  again by the same range.
\<close>

theorem fixed_version_not_in_range:
  assumes "rFixed r \<noteq> []"
  shows "\<not> inRange sch (rFixed r) r"
proof -
  have "Compare sch (rFixed r) (rFixed r) = 0"
    by (simp add: Compare_trim compareScheme_same)
  with assms show ?thesis by (simp add: inRange_def)
qed

theorem fixed_version_not_in_range_witness:
  "\<not> inRange SchemeDeb ''1.2.3-4+deb11u1''
     \<lparr> rScheme = [], rIntroduced = ''0'', rFixed = ''1.2.3-4+deb11u1'', rLastAffected = [] \<rparr>"
proof -
  let ?r = "\<lparr> rScheme = [], rIntroduced = ''0'', rFixed = ''1.2.3-4+deb11u1'', rLastAffected = [] \<rparr>"
  have "rFixed ?r \<noteq> []" by simp
  then have "\<not> inRange SchemeDeb (rFixed ?r) ?r" by (rule fixed_version_not_in_range)
  then show ?thesis by simp
qed

text \<open>The versions a range names are in the ordered domain of the scheme.\<close>

definition rangeOrdered :: "versionScheme \<Rightarrow> vrange \<Rightarrow> bool" where
  "rangeOrdered sch r \<longleftrightarrow> versionOrdered sch (rIntroduced r) \<and> versionOrdered sch (rFixed r)
     \<and> versionOrdered sch (rLastAffected r)"

text \<open>
  A range is an interval of the version order: a version between two affected versions is
  affected.
\<close>

theorem inRange_convex:
  assumes "rangeOrdered sch r"
    and "versionOrdered sch lo" and "versionOrdered sch v" and "versionOrdered sch hi"
    and "inRange sch lo r" and "inRange sch hi r"
    and "Compare sch lo v \<le> 0" and "Compare sch v hi \<le> 0"
  shows "inRange sch v r"
proof -
  have low: "\<not> Compare sch v (rIntroduced r) < 0"
    if "rIntroduced r \<noteq> []" "rIntroduced r \<noteq> ''0''"
  proof
    assume "Compare sch v (rIntroduced r) < 0"
    then have "Compare sch lo (rIntroduced r) < 0"
      using assms vo.le_less_trans [of sch lo v "rIntroduced r"] by (simp add: rangeOrdered_def)
    then show False using assms(5) that by (simp add: inRange_def)
  qed
  have up: "Compare sch v (rFixed r) < 0" if "rFixed r \<noteq> []"
    using assms that vo.le_less_trans [of sch v hi "rFixed r"]
    by (auto simp: rangeOrdered_def inRange_def split: if_splits)
  have la: "Compare sch v (rLastAffected r) \<le> 0" if "rFixed r = []" "rLastAffected r \<noteq> []"
    using assms that vo.trans [of sch v hi "rLastAffected r"]
    by (auto simp: rangeOrdered_def inRange_def split: if_splits)
  show ?thesis
    using low up la by (auto simp: inRange_def)
qed

theorem inRange_convex_witness:
  "inRange SchemeAPK ''1.2.4-r2''
     \<lparr> rScheme = [], rIntroduced = ''1.2.0-r0'', rFixed = ''1.2.5-r0'', rLastAffected = [] \<rparr>"
proof -
  let ?r = "\<lparr> rScheme = [], rIntroduced = ''1.2.0-r0'', rFixed = ''1.2.5-r0'', rLastAffected = [] \<rparr>"
  have o: "versionOrdered SchemeAPK v" for v by (simp add: versionOrdered_def scheme_defs)
  have ro: "rangeOrdered SchemeAPK ?r" by (simp add: rangeOrdered_def o)
  have "inRange SchemeAPK ''1.2.0-r0'' ?r" by code_simp
  moreover have "inRange SchemeAPK ''1.2.4-r9'' ?r" by code_simp
  moreover have "Compare SchemeAPK ''1.2.0-r0'' ''1.2.4-r2'' \<le> 0" by code_simp
  moreover have "Compare SchemeAPK ''1.2.4-r2'' ''1.2.4-r9'' \<le> 0" by code_simp
  ultimately show ?thesis
    by (rule inRange_convex [OF ro o o o])
qed

subsection \<open>The fixed version\<close>

definition fixedVersions :: "advisory \<Rightarrow> string list" where
  "fixedVersions a = filter (\<lambda>v. v \<noteq> []) (map rFixed (advRanges a))"

lemma FixedVersion_loop_min:
  assumes "best \<noteq> []" and "\<And>r. r \<in> set rs \<Longrightarrow> rangeScheme r sch = sch"
  shows "FixedVersion_loop sch best rs = vo.min_loop sch best (filter (\<lambda>v. v \<noteq> []) (map rFixed rs))"
  using assms by (induction rs arbitrary: best) auto

lemma FixedVersion_loop_start:
  assumes "\<forall>r \<in> set rs. rangeScheme r sch = sch"
  shows "FixedVersion_loop sch [] rs =
      (case filter (\<lambda>v. v \<noteq> []) (map rFixed rs) of [] \<Rightarrow> [] | v # vs \<Rightarrow> vo.min_loop sch v vs)"
  using assms
proof (induction rs)
  case Nil
  show ?case by simp
next
  case (Cons r rs)
  show ?case
  proof (cases "rFixed r = []")
    case True
    then show ?thesis using Cons by simp
  next
    case False
    then have "FixedVersion_loop sch (rFixed r) rs =
        vo.min_loop sch (rFixed r) (filter (\<lambda>v. v \<noteq> []) (map rFixed rs))"
      using Cons.prems by (intro FixedVersion_loop_min) simp_all
    then show ?thesis using False by simp
  qed
qed

lemma FixedVersion_eq_min:
  assumes "\<forall>r \<in> set (advRanges a). rangeScheme r sch = sch"
  shows "FixedVersion a sch = (case fixedVersions a of [] \<Rightarrow> [] | v # vs \<Rightarrow> vo.min_loop sch v vs)"
  unfolding FixedVersion_def fixedVersions_def by (rule FixedVersion_loop_start [OF assms])

text \<open>
  When the ranges use the scheme they are compared with, the reported fixed version is one of
  the advisory's fixed versions and none of them is smaller; it is empty exactly when no range
  has a fix.
\<close>

theorem FixedVersion_minimal:
  assumes "\<And>r. r \<in> set (advRanges a) \<Longrightarrow> rangeScheme r sch = sch \<and> versionOrdered sch (rFixed r)"
  shows "(FixedVersion a sch = [] \<longleftrightarrow> fixedVersions a = []) \<and>
    (\<forall>v \<in> set (fixedVersions a).
       FixedVersion a sch \<in> set (fixedVersions a) \<and> Compare sch (FixedVersion a sch) v \<le> 0)"
proof (cases "fixedVersions a")
  case Nil
  then show ?thesis using FixedVersion_eq_min [of a sch] assms by simp
next
  case (Cons v vs)
  have eq: "FixedVersion a sch = vo.min_loop sch v vs"
    using FixedVersion_eq_min [of a sch] assms Cons by simp
  have valid: "versionOrdered sch w" if "w \<in> set (v # vs)" for w
    using that assms unfolding Cons [symmetric] fixedVersions_def by auto
  have "vo.min_loop sch v vs \<in> set (fixedVersions a)"
    using vo.min_loop_in [of sch v vs] Cons by simp
  moreover have "Compare sch (vo.min_loop sch v vs) w \<le> 0" if "w \<in> set (fixedVersions a)" for w
    using that Cons valid by (intro vo.min_loop_le) auto
  moreover have "[] \<notin> set (fixedVersions a)" by (simp add: fixedVersions_def)
  ultimately show ?thesis using eq Cons by auto
qed

theorem FixedVersion_minimal_witness:
  "FixedVersion
     \<lparr> advID = ''CVE-1'', advAliases = [], advSummary = [], advEcosystem = ''alpine'', advPackage = ''zlib'',
       advRanges = [\<lparr> rScheme = [], rIntroduced = ''2.0'', rFixed = ''2.4'', rLastAffected = [] \<rparr>,
                    \<lparr> rScheme = [], rIntroduced = ''0'', rFixed = ''1.12'', rLastAffected = [] \<rparr>],
       advSeverity = SevHigh, advCVSS = None, advCWEs = [], advSymbols = [], advReferences = [],
       advSource = [], advPublished = [], advModified = [] \<rparr> SchemeAPK \<in> {''2.4'', ''1.12''}"
  (is "FixedVersion ?a SchemeAPK \<in> _")
proof -
  have h: "rangeScheme r SchemeAPK = SchemeAPK \<and> versionOrdered SchemeAPK (rFixed r)"
    if "r \<in> set (advRanges ?a)" for r
    using that by (auto simp: rangeScheme_def versionOrdered_def scheme_defs)
  have f: "fixedVersions ?a = [''2.4'', ''1.12'']" by (simp add: fixedVersions_def)
  have "\<forall>v \<in> set (fixedVersions ?a). FixedVersion ?a SchemeAPK \<in> set (fixedVersions ?a)"
    using FixedVersion_minimal [of ?a SchemeAPK] h by blast
  then show ?thesis unfolding f by auto
qed

subsection \<open>Severity bands\<close>

lemma fge_trans: "fge x y \<Longrightarrow> fge y z \<Longrightarrow> fge x z"
  unfolding fge_def feq_iff by (metis flt_trans)

lemma Rank_bands [simp]:
  "Rank SevCritical = 5" "Rank SevHigh = 4" "Rank SevMedium = 3" "Rank SevLow = 2"
  "Rank SevNegligible = 1" "Rank SevUnknown = 0"
  by (simp_all add: Rank_def sev_defs)

text \<open>The severity band of a CVSS score grows with the score.\<close>

theorem SeverityFromScore_mono:
  assumes "fge x y"
  shows "Rank (SeverityFromScore y) \<le> Rank (SeverityFromScore x)"
  using fge_trans [OF assms] by (auto simp: SeverityFromScore_def)

theorem SeverityFromScore_mono_witness:
  "Rank (SeverityFromScore (Fin (13 / 2))) \<le> Rank (SeverityFromScore (Fin (15 / 2)))"
proof -
  have "fge (Fin (15 / 2)) (Fin (13 / 2))" by (simp add: fge_def)
  then show ?thesis by (rule SeverityFromScore_mono)
qed

end
