(* ===== verification/SortSlice.thy ===== *)
theory SortSlice
  imports GoStrings "HOL-Library.Multiset"
begin

text \<open>
  \<^verbatim>\<open>sort.SliceStable\<close> and \<^verbatim>\<open>sort.Strings\<close>. A stable sort by a strict weak order has one
  result, so an insertion sort is a model of the library's: equal elements keep their order.
  \<open>strict_weak\<close> is what the library asks of the less function; the lemmas about the sorted
  slice are proved under it. The code's less functions compare a chain of keys, which
  \<open>key_less\<close> expresses.
\<close>

fun ins_stable :: "('a \<Rightarrow> 'a \<Rightarrow> bool) \<Rightarrow> 'a \<Rightarrow> 'a list \<Rightarrow> 'a list" where
  "ins_stable lt x [] = [x]"
| "ins_stable lt x (y # ys) = (if lt y x then y # ins_stable lt x ys else x # y # ys)"

fun sort_stable :: "('a \<Rightarrow> 'a \<Rightarrow> bool) \<Rightarrow> 'a list \<Rightarrow> 'a list" where
  "sort_stable lt [] = []"
| "sort_stable lt (x # xs) = ins_stable lt x (sort_stable lt xs)"

lemma mset_ins_stable [simp]: "mset (ins_stable lt x xs) = add_mset x (mset xs)"
  by (induction xs) auto

lemma mset_sort_stable [simp]: "mset (sort_stable lt xs) = mset xs"
  by (induction xs) auto

lemma set_ins_stable [simp]: "set (ins_stable lt x xs) = insert x (set xs)"
  by (induction xs) auto

lemma set_sort_stable [simp]: "set (sort_stable lt xs) = set xs"
  by (induction xs) auto

lemma length_sort_stable [simp]: "length (sort_stable lt xs) = length xs"
  using mset_sort_stable [of lt xs] by (rule mset_eq_length)

locale strict_weak =
  fixes lt :: "'a \<Rightarrow> 'a \<Rightarrow> bool"
  assumes irrefl: "\<not> lt x x"
    and less_trans: "lt x y \<Longrightarrow> lt y z \<Longrightarrow> lt x z"
    and incomp_trans: "\<not> lt x y \<Longrightarrow> \<not> lt y z \<Longrightarrow> \<not> lt x z"
begin

lemma asym: "lt x y \<Longrightarrow> \<not> lt y x"
  using irrefl less_trans by blast

lemma ins_sorted:
  "sorted_wrt (\<lambda>a b. \<not> lt b a) xs \<Longrightarrow> sorted_wrt (\<lambda>a b. \<not> lt b a) (ins_stable lt x xs)"
  by (induction xs) (auto dest: asym incomp_trans)

lemma sorted: "sorted_wrt (\<lambda>a b. \<not> lt b a) (sort_stable lt xs)"
  by (induction xs) (auto intro: ins_sorted)

lemma ins_filter_out:
  "\<not> Q x \<Longrightarrow> filter Q (ins_stable lt x xs) = filter Q xs"
  by (induction xs) auto

text \<open>Stability: the elements equal to a given one keep their order.\<close>

lemma ins_filter_in:
  assumes "\<And>y. Q y \<Longrightarrow> \<not> lt y x" and "Q x"
  shows "filter Q (ins_stable lt x xs) = x # filter Q xs"
  using assms by (induction xs) auto

lemma stable:
  "filter (\<lambda>y. \<not> lt y k \<and> \<not> lt k y) (sort_stable lt xs)
     = filter (\<lambda>y. \<not> lt y k \<and> \<not> lt k y) xs"
proof (induction xs)
  case Nil
  show ?case by simp
next
  case (Cons x xs)
  show ?case
  proof (cases "\<not> lt x k \<and> \<not> lt k x")
    case True
    have "filter (\<lambda>y. \<not> lt y k \<and> \<not> lt k y) (ins_stable lt x (sort_stable lt xs))
        = x # filter (\<lambda>y. \<not> lt y k \<and> \<not> lt k y) (sort_stable lt xs)"
      using True by (intro ins_filter_in) (auto dest: incomp_trans)
    then show ?thesis using Cons.IH True by simp
  next
    case False
    then show ?thesis using Cons.IH by (simp add: ins_filter_out)
  qed
qed

text \<open>Filtering before or after sorting is the same.\<close>

lemma ins_front: "(\<And>z. z \<in> set zs \<Longrightarrow> \<not> lt z x) \<Longrightarrow> ins_stable lt x zs = x # zs"
  by (cases zs) auto

lemma ins_filter:
  assumes "sorted_wrt (\<lambda>a b. \<not> lt b a) xs" "Q x"
  shows "filter Q (ins_stable lt x xs) = ins_stable lt x (filter Q xs)"
  using assms(1)
proof (induction xs)
  case (Cons y ys)
  show ?case
  proof (cases "lt y x")
    case True
    then show ?thesis using Cons by simp
  next
    case False
    have "\<not> lt z x" if "z \<in> set (filter Q (y # ys))" for z
      using that Cons.prems False incomp_trans by (auto split: if_splits)
    then show ?thesis using False assms(2) ins_front [of "filter Q (y # ys)" x] by simp
  qed
qed (use assms(2) in simp)

lemma sort_filter: "filter Q (sort_stable lt xs) = sort_stable lt (filter Q xs)"
  by (induction xs) (simp_all add: ins_filter [OF sorted] ins_filter_out)

text \<open>
  When elements that compare equal are equal, the sorted slice depends only on the multiset of
  the elements: a canonical order.
\<close>

lemma canonical:
  assumes tot: "\<And>a b. a \<in> set xs \<Longrightarrow> b \<in> set xs \<Longrightarrow> \<not> lt a b \<Longrightarrow> \<not> lt b a \<Longrightarrow> a = b"
    and m: "mset xs = mset ys"
  shows "sort_stable lt xs = sort_stable lt ys"
proof -
  have uniq: "us = vs"
    if "mset us = mset vs" "sorted_wrt (\<lambda>a b. \<not> lt b a) us" "sorted_wrt (\<lambda>a b. \<not> lt b a) vs"
      "set us \<subseteq> set xs" for us vs
    using that
  proof (induction us arbitrary: vs)
    case Nil
    then show ?case by simp
  next
    case (Cons u us)
    then obtain v vs' where vs: "vs = v # vs'" by (cases vs) auto
    have "v \<in> set (u # us)" and "u \<in> set (v # vs')"
      using Cons.prems(1) vs by (metis list.set_intros(1) mset_eq_setD)+
    then have "\<not> lt v u \<and> \<not> lt u v"
      using Cons.prems(2,3) vs irrefl by auto
    moreover have "v \<in> set xs" using \<open>v \<in> set (u # us)\<close> Cons.prems(4) by auto
    ultimately have "u = v" using tot Cons.prems(4) by auto
    then show ?case using Cons vs by auto
  qed
  show ?thesis
    by (rule uniq) (simp_all add: m sorted)
qed

end

text \<open>Sorting by a projection sorts the projections.\<close>

lemma map_sort_stable:
  assumes "\<And>a b. lt a b = lt' (f a) (f b)"
  shows "map f (sort_stable lt xs) = sort_stable lt' (map f xs)"
proof -
  have "map f (ins_stable lt x ys) = ins_stable lt' (f x) (map f ys)" for x ys
    by (induction ys) (simp_all add: assms)
  then show ?thesis by (induction xs) simp_all
qed

subsection \<open>Less functions of the code\<close>

text \<open>
  A comparison of two elements by a key, as \<^verbatim>\<open>if a.K != b.K { return a.K < b.K }\<close> tests, then by the rest.
\<close>

definition key_less :: "('a \<Rightarrow> string) \<Rightarrow> ('a \<Rightarrow> 'a \<Rightarrow> bool) \<Rightarrow> 'a \<Rightarrow> 'a \<Rightarrow> bool" where
  "key_less k rest a b = (if k a \<noteq> k b then str_less (k a) (k b) else rest a b)"

definition ikey_less :: "('a \<Rightarrow> int) \<Rightarrow> ('a \<Rightarrow> 'a \<Rightarrow> bool) \<Rightarrow> 'a \<Rightarrow> 'a \<Rightarrow> bool" where
  "ikey_less k rest a b = (if k a \<noteq> k b then k a < k b else rest a b)"

lemma strict_weak_str: "strict_weak str_less"
proof
  show "\<not> str_less x x" for x by simp
  show "str_less x z" if "str_less x y" "str_less y z" for x y z
    using that by (rule str_less_trans)
  show "\<not> str_less x z" if "\<not> str_less x y" "\<not> str_less y z" for x y z
    using that str_less_trans str_less_linear by metis
qed

interpretation strs: strict_weak str_less
  by (rule strict_weak_str)

lemma strict_weak_none: "strict_weak (\<lambda>a b. False)"
  by standard auto

lemma strict_weak_key: "strict_weak rest \<Longrightarrow> strict_weak (key_less k rest)"
proof -
  assume w: "strict_weak rest"
  note r = strict_weak.irrefl [OF w] strict_weak.less_trans [OF w] strict_weak.incomp_trans [OF w]
  show ?thesis
  proof
    show "\<not> key_less k rest x x" for x by (simp add: key_less_def r)
    show "key_less k rest x z" if "key_less k rest x y" "key_less k rest y z" for x y z
      using that r(2) [of x y z] str_less_trans [of "k x" "k y" "k z"] str_less_asym [of "k x" "k y"]
      unfolding key_less_def by (auto split: if_splits)
    show "\<not> key_less k rest x z" if "\<not> key_less k rest x y" "\<not> key_less k rest y z" for x y z
      using that r(3) [of x y z] strs.incomp_trans [of "k x" "k y" "k z"]
        str_less_linear [of "k x" "k y"] str_less_asym [of "k x" "k y"]
      unfolding key_less_def by (auto split: if_splits)
  qed
qed

lemma strict_weak_ikey: "strict_weak rest \<Longrightarrow> strict_weak (ikey_less k rest)"
proof -
  assume w: "strict_weak rest"
  note r = strict_weak.irrefl [OF w] strict_weak.less_trans [OF w] strict_weak.incomp_trans [OF w]
  show ?thesis
  proof
    show "\<not> ikey_less k rest x x" for x by (simp add: ikey_less_def r)
    show "ikey_less k rest x z" if "ikey_less k rest x y" "ikey_less k rest y z" for x y z
      using that r(2) [of x y z] unfolding ikey_less_def by (auto split: if_splits)
    show "\<not> ikey_less k rest x z" if "\<not> ikey_less k rest x y" "\<not> ikey_less k rest y z" for x y z
      using that r(3) [of x y z] unfolding ikey_less_def by (auto split: if_splits)
  qed
qed

text \<open>\<^verbatim>\<open>sort.Strings\<close>.\<close>

definition sort_Strings :: "string list \<Rightarrow> string list" where
  "sort_Strings xs = sort_stable str_less xs"

lemma sort_Strings_sorted: "sorted_wrt (\<lambda>a b. \<not> str_less b a) (sort_Strings xs)"
  unfolding sort_Strings_def by (rule strs.sorted)

lemma sort_Strings_canonical: "mset xs = mset ys \<Longrightarrow> sort_Strings xs = sort_Strings ys"
  unfolding sort_Strings_def by (rule strs.canonical) (use str_less_linear in blast)

lemma sort_Strings_set [simp]: "set (sort_Strings xs) = set xs"
  by (simp add: sort_Strings_def)

lemma sort_Strings_mset [simp]: "mset (sort_Strings xs) = mset xs"
  by (simp add: sort_Strings_def)

lemma sort_Strings_distinct: "distinct (sort_Strings xs) = distinct xs"
  using sort_Strings_mset [of xs] mset_eq_imp_distinct_iff by blast

end
