(* ===== verification/VulnPurl.thy ===== *)
theory VulnPurl
  imports Advisory SortSlice
begin

text \<open>
  Package URLs: the encoder of \<^verbatim>\<open>internal/sbom/purl.go\<close> and the decoder of
  \<^verbatim>\<open>internal/vulndb/purl.go\<close>, which turns a component's package URL into the coordinate the
  advisory store is asked for. A Go map of qualifiers is an association list with distinct
  keys: the encoder sorts the keys, so the list's order is not seen.
\<close>

subsection \<open>Percent encoding\<close>

definition upperHex :: string where
  "upperHex = ''0123456789ABCDEF''"

fun pctEncode :: "string \<Rightarrow> string \<Rightarrow> string" where
  "pctEncode [] must = []"
| "pctEncode (c # cs) must =
     (if byte c < 32 \<or> byte c \<ge> 127 \<or> c \<in> set must
      then CHR ''%'' # upperHex ! (byte c div 16) # upperHex ! (byte c mod 16) # pctEncode cs must
      else c # pctEncode cs must)"

definition hexVal :: "char \<Rightarrow> nat option" where
  "hexVal c =
     (if byte c \<ge> 48 \<and> byte c \<le> 57 then Some (byte c - 48)
      else if byte c \<ge> 97 \<and> byte c \<le> 102 then Some (byte c - 97 + 10)
      else if byte c \<ge> 65 \<and> byte c \<le> 70 then Some (byte c - 65 + 10)
      else None)"

fun pctDecode_loop :: "string \<Rightarrow> string" where
  "pctDecode_loop (c # h # l # rest) =
     (if c = CHR ''%'' then
        (case (hexVal h, hexVal l) of
           (Some hi, Some lo) \<Rightarrow> char_of (hi * 16 + lo) # pctDecode_loop rest
         | _ \<Rightarrow> c # pctDecode_loop (h # l # rest))
      else c # pctDecode_loop (h # l # rest))"
| "pctDecode_loop s = s"

definition pctDecode :: "string \<Rightarrow> string" where
  "pctDecode s = (if CHR ''%'' \<notin> set s then s else pctDecode_loop s)"

lemma length_upperHex [simp]: "length upperHex = 16"
  by (simp add: upperHex_def)

lemma byte_nibbles: "byte c div 16 < 16" "byte c mod 16 < 16"
  using byte_less [of c] by (simp_all add: less_mult_imp_div_less)

lemma hexVal_upperHex: "n < 16 \<Longrightarrow> hexVal (upperHex ! n) = Some n"
proof -
  have "\<forall>n \<in> set [0..<16]. hexVal (upperHex ! n) = Some n" by code_simp
  then show "n < 16 \<Longrightarrow> hexVal (upperHex ! n) = Some n" by simp
qed

lemma pctDecode_loop_no_pct: "CHR ''%'' \<notin> set s \<Longrightarrow> pctDecode_loop s = s"
  by (induction s rule: pctDecode_loop.induct) auto

lemma pctDecode_loop_eq: "pctDecode s = pctDecode_loop s"
  by (simp add: pctDecode_def pctDecode_loop_no_pct)

lemma pctDecode_loop_other: "c \<noteq> CHR ''%'' \<Longrightarrow> pctDecode_loop (c # s) = c # pctDecode_loop s"
  by (cases s rule: pctDecode_loop.cases) auto

lemma pctDecode_pctEncode:
  "CHR ''%'' \<in> set must \<Longrightarrow> pctDecode (pctEncode s must) = s"
  unfolding pctDecode_loop_eq
proof (induction s)
  case Nil
  show ?case by simp
next
  case (Cons c cs)
  have nib: "byte c div 16 * 16 + byte c mod 16 = byte c" by simp
  have ch: "char_of (byte c) = c" by simp
  show ?case
  proof (cases "byte c < 32 \<or> byte c \<ge> 127 \<or> c \<in> set must")
    case True
    then show ?thesis
      using Cons by (simp only: pctEncode.simps if_True pctDecode_loop.simps hexVal_upperHex byte_nibbles
          option.case prod.case nib ch refl simp_thms)
  next
    case False
    then have "c \<noteq> CHR ''%''" using Cons.prems by auto
    then show ?thesis using Cons False by (simp add: pctDecode_loop_other)
  qed
qed

lemma pctEncode_avoids:
  assumes "x \<in> set must" and "x \<noteq> CHR ''%''" and "x \<notin> set upperHex"
  shows "x \<notin> set (pctEncode s must)"
proof (induction s)
  case (Cons c cs)
  have "byte c div 16 < length upperHex" "byte c mod 16 < length upperHex"
    using byte_nibbles [of c] by simp_all
  then have "upperHex ! (byte c div 16) \<noteq> x" "upperHex ! (byte c mod 16) \<noteq> x"
    using assms(3) nth_mem by blast+
  then show ?case using assms Cons by auto
qed simp

lemma pctEncode_keeps:
  "x \<notin> set s \<Longrightarrow> x \<noteq> CHR ''%'' \<Longrightarrow> x \<notin> set upperHex \<Longrightarrow> x \<notin> set (pctEncode s must)"
proof (induction s)
  case (Cons c cs)
  have "byte c div 16 < length upperHex" "byte c mod 16 < length upperHex"
    using byte_nibbles [of c] by simp_all
  then have "upperHex ! (byte c div 16) \<noteq> x" "upperHex ! (byte c mod 16) \<noteq> x"
    using Cons.prems(3) nth_mem by blast+
  then show ?case using Cons by auto
qed simp

lemma pctEncode_eq_Nil [simp]: "pctEncode s must = [] \<longleftrightarrow> s = []"
  by (cases s) auto

subsection \<open>The encoder\<close>

definition escapeSegment :: "string \<Rightarrow> string" where
  "escapeSegment s = pctEncode s ''/@?#% ''"

definition escapeNamespace :: "string \<Rightarrow> string" where
  "escapeNamespace s = pctEncode s ''@?#% ''"

definition escapeVersion :: "string \<Rightarrow> string" where
  "escapeVersion s = pctEncode s ''?#% ''"

definition escapeQualifier :: "string \<Rightarrow> string" where
  "escapeQualifier s = pctEncode s ''&=?#% ''"

type_synonym qualifiers = "(string \<times> string) list"

definition qual :: "qualifiers \<Rightarrow> string \<Rightarrow> string" where
  "qual q k = (case map_of q k of None \<Rightarrow> [] | Some v \<Rightarrow> v)"

fun purl_quals :: "qualifiers \<Rightarrow> string list \<Rightarrow> string" where
  "purl_quals q [] = []"
| "purl_quals q [k] = k @ ''='' @ escapeQualifier (qual q k)"
| "purl_quals q (k # k' # ks) =
     k @ ''='' @ escapeQualifier (qual q k) @ ''&'' @ purl_quals q (k' # ks)"

definition purl :: "string \<Rightarrow> string \<Rightarrow> string \<Rightarrow> string \<Rightarrow> qualifiers \<Rightarrow> string" where
  "purl typ namespace name version q =
     (let keys = sort_Strings (filter (\<lambda>k. qual q k \<noteq> []) (map fst q)) in
      ''pkg:'' @ typ
      @ (if namespace \<noteq> [] then ''/'' @ escapeNamespace namespace else [])
      @ ''/'' @ escapeSegment name
      @ (if version \<noteq> [] then ''@'' @ escapeVersion version else [])
      @ (if keys \<noteq> [] then ''?'' @ purl_quals q keys else []))"

definition distroQualifier :: "string \<Rightarrow> string \<Rightarrow> string" where
  "distroQualifier ident versionID =
     (let i = strings_TrimSpace ident; v = strings_TrimSpace versionID in
      if i = [] then [] else if v = [] then i else i @ ''-'' @ v)"

subsection \<open>Names\<close>

fun NormalizePyPI_loop :: "bool \<Rightarrow> string \<Rightarrow> string" where
  "NormalizePyPI_loop prevSep [] = []"
| "NormalizePyPI_loop prevSep (r # rs) =
     (if r = CHR ''-'' \<or> r = CHR ''_'' \<or> r = CHR ''.''
      then (if \<not> prevSep then CHR ''-'' # NormalizePyPI_loop True rs else NormalizePyPI_loop prevSep rs)
      else r # NormalizePyPI_loop False rs)"

definition NormalizePyPI :: "string \<Rightarrow> string" where
  "NormalizePyPI name = trim_both (\<lambda>c. c = CHR ''-'') (NormalizePyPI_loop False (strings_ToLower name))"

definition joinScoped :: "string \<Rightarrow> string \<Rightarrow> string" where
  "joinScoped namespace name = (if namespace = [] then name else namespace @ ''/'' @ name)"

definition joinPath :: "string \<Rightarrow> string \<Rightarrow> string \<Rightarrow> string" where
  "joinPath namespace name sep = (if namespace = [] then name else namespace @ sep @ name)"

definition orDefault :: "string \<Rightarrow> string \<Rightarrow> ecosystem" where
  "orDefault v dflt = (if v = [] then dflt else strings_ToLower v)"

subsection \<open>The decoder\<close>

record coord =
  cEcosystem :: ecosystem
  cPackage :: string
  cVersion :: string
  cScheme :: versionScheme

fun parseQualifiers_loop :: "(string \<Rightarrow> string option) \<Rightarrow> string list \<Rightarrow> (string \<Rightarrow> string option)" where
  "parseQualifiers_loop out [] = out"
| "parseQualifiers_loop out (kv # kvs) =
     (case strings_Cut kv CHR ''='' of
        (k, v, ok) \<Rightarrow> parseQualifiers_loop (if ok then out(strings_ToLower k \<mapsto> pctDecode v) else out) kvs)"

definition parseQualifiers :: "string \<Rightarrow> (string \<Rightarrow> string option)" where
  "parseQualifiers s =
     (if s = [] then Map.empty else parseQualifiers_loop Map.empty (split_byte CHR ''&'' s))"

definition osEcosystem :: "string \<Rightarrow> (string \<Rightarrow> string option) \<Rightarrow> string \<Rightarrow> ecosystem" where
  "osEcosystem namespace quals fallback =
     (if namespace \<noteq> [] then strings_ToLower namespace
      else case quals ''distro'' of
        Some d \<Rightarrow> if d \<noteq> [] then strings_ToLower (cutAt d CHR ''-'') else fallback
      | None \<Rightarrow> fallback)"

text \<open>The part of \<^verbatim>\<open>ParsePURL\<close> that splits the string.\<close>

definition splitPURL ::
    "string \<Rightarrow> (string \<times> (string \<Rightarrow> string option) \<times> string \<times> string \<times> string) option" where
  "splitPURL p =
     (if \<not> strings_HasPrefix p ''pkg:'' then None
      else
        let body = cutAt (strings_TrimPrefix p ''pkg:'') CHR ''#'';
            (coordPart, qualPart) = (case cut_byte CHR ''?'' body of Some ab \<Rightarrow> ab | None \<Rightarrow> (body, []));
            quals = parseQualifiers qualPart
        in case strings_Cut coordPart CHR ''/'' of
          (typ, rest, ok) \<Rightarrow>
            if \<not> ok then None
            else
              let (rest', version) = (case cut_last_byte CHR ''@'' rest of
                     Some (a, b) \<Rightarrow> (a, pctDecode b) | None \<Rightarrow> (rest, []));
                  (namespace, name) = (case cut_last_byte CHR ''/'' rest' of
                     Some ab \<Rightarrow> ab | None \<Rightarrow> ([], rest'))
              in Some (strings_ToLower typ, quals, pctDecode namespace, pctDecode name, version))"

text \<open>The switch of \<^verbatim>\<open>ParsePURL\<close> over the type.\<close>

definition coordOf ::
    "string \<Rightarrow> (string \<Rightarrow> string option) \<Rightarrow> string \<Rightarrow> string \<Rightarrow> string \<Rightarrow> coord" where
  "coordOf typ quals namespace name version =
     (let c = \<lambda>e p s. \<lparr> cEcosystem = e, cPackage = p, cVersion = version, cScheme = s \<rparr> in
      if typ = ''apk'' then c (osEcosystem namespace quals ''alpine'') name SchemeAPK
      else if typ = ''deb'' then c (osEcosystem namespace quals ''debian'') name SchemeDeb
      else if typ = ''rpm'' then c (osEcosystem namespace quals ''redhat'') name SchemeRPM
      else if typ = ''npm'' then c ''npm'' (joinScoped namespace name) SchemeSemver
      else if typ = ''pypi'' then c ''pypi'' (NormalizePyPI name) SchemePEP440
      else if typ = ''golang'' then c ''go'' (joinPath namespace name ''/'') SchemeGo
      else if typ = ''maven'' then c ''maven'' (joinPath namespace name '':'') SchemeMaven
      else if typ = ''cargo'' then c ''cargo'' name SchemeSemver
      else if typ = ''gem'' then c ''rubygems'' name SchemeGem
      else if typ = ''composer'' then c ''composer'' (joinPath namespace name ''/'') SchemeSemver
      else if typ = ''nuget'' then c ''nuget'' name SchemeSemver
      else c typ name SchemeGeneric)"

definition ParsePURL :: "string \<Rightarrow> coord option" where
  "ParsePURL p = (case splitPURL p of None \<Rightarrow> None
     | Some (typ, quals, namespace, name, version) \<Rightarrow>
         (let c = coordOf typ quals namespace name version in
          if cPackage c = [] then None else Some c))"

definition FromCataloger :: "string \<Rightarrow> string \<Rightarrow> string \<Rightarrow> string \<Rightarrow> coord option" where
  "FromCataloger foundBy name version distroID =
     (if name = [] then None
      else
        let c = \<lambda>e p s. Some \<lparr> cEcosystem = e, cPackage = p, cVersion = version, cScheme = s \<rparr> in
        if foundBy = ''apk-db'' then c (orDefault distroID ''alpine'') name SchemeAPK
        else if foundBy = ''dpkg-db'' then c (orDefault distroID ''debian'') name SchemeDeb
        else if foundBy = ''rpm-db'' then c (orDefault distroID ''redhat'') name SchemeRPM
        else if foundBy = ''npm'' then c ''npm'' name SchemeSemver
        else if foundBy = ''python'' then c ''pypi'' (NormalizePyPI name) SchemePEP440
        else if foundBy = ''go-module'' then c ''go'' name SchemeGo
        else None)"

subsection \<open>Round trip\<close>

definition badKey :: string where
  "badKey = ''&=?#''"

text \<open>Qualifier keys the encoder writes verbatim and the decoder reads back.\<close>

definition qualsOK :: "qualifiers \<Rightarrow> bool" where
  "qualsOK q \<longleftrightarrow> (\<forall>k \<in> set (map fst q). strings_ToLower k = k \<and> set k \<inter> set badKey = {})"

definition typOK :: "string \<Rightarrow> bool" where
  "typOK typ \<longleftrightarrow> set typ \<inter> set ''/?#'' = {}"

definition qualsMap :: "qualifiers \<Rightarrow> string \<Rightarrow> string option" where
  "qualsMap q k = (if qual q k \<noteq> [] then Some (qual q k) else None)"

lemma upperHex_set: "set upperHex = set ''0123456789ABCDEF''"
  by (simp add: upperHex_def)

lemma esc_avoids [simp]:
  "CHR ''/'' \<notin> set (escapeSegment s)" "CHR ''@'' \<notin> set (escapeSegment s)"
  "CHR ''?'' \<notin> set (escapeSegment s)" "CHR ''#'' \<notin> set (escapeSegment s)"
  "CHR ''@'' \<notin> set (escapeNamespace s)" "CHR ''?'' \<notin> set (escapeNamespace s)"
  "CHR ''#'' \<notin> set (escapeNamespace s)"
  "CHR ''?'' \<notin> set (escapeVersion s)" "CHR ''#'' \<notin> set (escapeVersion s)"
  "CHR ''&'' \<notin> set (escapeQualifier s)" "CHR ''#'' \<notin> set (escapeQualifier s)"
  unfolding escapeSegment_def escapeNamespace_def escapeVersion_def escapeQualifier_def
  by (rule pctEncode_avoids; simp add: upperHex_set)+

lemma escapeVersion_at: "CHR ''@'' \<notin> set v \<Longrightarrow> CHR ''@'' \<notin> set (escapeVersion v)"
  unfolding escapeVersion_def by (rule pctEncode_keeps) (simp_all add: upperHex_set)

lemma esc_decode [simp]:
  "pctDecode (escapeSegment s) = s" "pctDecode (escapeNamespace s) = s"
  "pctDecode (escapeVersion s) = s" "pctDecode (escapeQualifier s) = s"
  unfolding escapeSegment_def escapeNamespace_def escapeVersion_def escapeQualifier_def
  by (rule pctDecode_pctEncode; simp)+

lemma split_byte_append:
  "c \<notin> set a \<Longrightarrow> split_byte c (a @ c # b) = a # split_byte c b"
  by (induction a) (auto split: list.splits)

lemma split_byte_none: "c \<notin> set a \<Longrightarrow> split_byte c a = [a]"
  by (induction a) (auto split: list.splits)

lemma split_purl_quals:
  assumes "ks \<noteq> []" and "\<forall>k \<in> set ks. CHR ''&'' \<notin> set k"
  shows "split_byte CHR ''&'' (purl_quals q ks) = map (\<lambda>k. k @ ''='' @ escapeQualifier (qual q k)) ks"
  using assms
proof (induction q ks rule: purl_quals.induct)
  case (2 q k)
  then show ?case by (simp add: split_byte_none)
next
  case (3 q k k' ks)
  have "split_byte CHR ''&'' ((k @ ''='' @ escapeQualifier (qual q k)) @ CHR ''&'' # purl_quals q (k' # ks))
      = (k @ ''='' @ escapeQualifier (qual q k)) # split_byte CHR ''&'' (purl_quals q (k' # ks))"
    using 3(3) by (intro split_byte_append) simp
  then show ?case using 3 by simp
qed simp

lemma parseQualifiers_loop_purl:
  assumes "\<forall>k \<in> set ks. strings_ToLower k = k \<and> CHR ''='' \<notin> set k"
  shows "parseQualifiers_loop out (map (\<lambda>k. k @ ''='' @ escapeQualifier (qual q k)) ks)
    = (\<lambda>k. if k \<in> set ks then Some (qual q k) else out k)"
  using assms
proof (induction ks arbitrary: out)
  case (Cons k ks)
  have "strings_Cut (k @ ''='' @ escapeQualifier (qual q k)) CHR ''='' = (k, escapeQualifier (qual q k), True)"
    using Cons.prems by (simp add: strings_Cut_def)
  then show ?case using Cons by (auto simp: fun_eq_iff)
qed simp

lemma purl_quals_ne: "ks \<noteq> [] \<Longrightarrow> purl_quals q ks \<noteq> []"
  by (cases "(q, ks)" rule: purl_quals.cases) auto

lemma qual_dom: "qual q k \<noteq> [] \<Longrightarrow> k \<in> set (map fst q)"
  by (auto simp: qual_def split: option.splits dest!: map_of_SomeD intro: rev_image_eqI)

lemma parseQualifiers_purl:
  assumes "qualsOK q" and ks: "set ks = {k. qual q k \<noteq> []}" and "ks \<noteq> []"
  shows "parseQualifiers (purl_quals q ks) = qualsMap q"
proof -
  have dom: "k \<in> set (map fst q)" if "k \<in> set ks" for k using that ks qual_dom by auto
  have ok: "\<forall>k \<in> set ks. CHR ''&'' \<notin> set k"
    "\<forall>k \<in> set ks. strings_ToLower k = k \<and> CHR ''='' \<notin> set k"
    using assms(1) dom unfolding qualsOK_def badKey_def by force+
  have "parseQualifiers (purl_quals q ks)
      = parseQualifiers_loop Map.empty (map (\<lambda>k. k @ ''='' @ escapeQualifier (qual q k)) ks)"
    using assms(3) by (simp only: parseQualifiers_def purl_quals_ne split_purl_quals [OF _ ok(1)] if_False simp_thms)
  also have "\<dots> = qualsMap q"
    unfolding parseQualifiers_loop_purl [OF ok(2)] using ks by (auto simp: qualsMap_def fun_eq_iff)
  finally show ?thesis .
qed

lemma purl_quals_hash:
  assumes "\<forall>k \<in> set ks. CHR ''#'' \<notin> set k"
  shows "CHR ''#'' \<notin> set (purl_quals q ks)"
  using assms by (induction q ks rule: purl_quals.induct) auto

text \<open>The coordinate part of an encoded URL, and what the decoder reads in it.\<close>

lemma splitPURL_rest:
  assumes "CHR ''@'' \<notin> set v"
    and "r = (if ns \<noteq> [] then escapeNamespace ns @ CHR ''/'' # escapeSegment n else escapeSegment n)"
    and "rest = r @ (if v \<noteq> [] then CHR ''@'' # escapeVersion v else [])"
  shows "(case cut_last_byte CHR ''@'' rest of Some (a, b) \<Rightarrow> (a, pctDecode b) | None \<Rightarrow> (rest, [])) = (r, v)"
    and "(case cut_last_byte CHR ''/'' r of Some ab \<Rightarrow> ab | None \<Rightarrow> ([], r))
      = ((if ns \<noteq> [] then escapeNamespace ns else []), escapeSegment n)"
proof -
  have noat: "CHR ''@'' \<notin> set r" by (simp add: assms(2))
  show "(case cut_last_byte CHR ''@'' rest of Some (a, b) \<Rightarrow> (a, pctDecode b) | None \<Rightarrow> (rest, [])) = (r, v)"
    using noat assms(1) cut_last_byte_None [of "CHR ''@''" r]
    by (cases "v = []") (simp_all add: assms(3) escapeVersion_at)
  show "(case cut_last_byte CHR ''/'' r of Some ab \<Rightarrow> ab | None \<Rightarrow> ([], r))
      = ((if ns \<noteq> [] then escapeNamespace ns else []), escapeSegment n)"
    using cut_last_byte_None [of "CHR ''/''" "escapeSegment n"]
    by (cases "ns = []") (simp_all add: assms(2))
qed

lemma pctDecode_Nil [simp]: "pctDecode [] = []"
  by (simp add: pctDecode_def)

lemma splitPURL_purl:
  assumes ty: "typOK typ" and q: "qualsOK q" and v: "CHR ''@'' \<notin> set v"
  shows "splitPURL (purl typ ns n v q) = Some (strings_ToLower typ, qualsMap q, ns, n, v)"
proof -
  define ks where "ks = sort_Strings (filter (\<lambda>k. qual q k \<noteq> []) (map fst q))"
  define r where "r = (if ns \<noteq> [] then escapeNamespace ns @ CHR ''/'' # escapeSegment n else escapeSegment n)"
  define rest where "rest = r @ (if v \<noteq> [] then CHR ''@'' # escapeVersion v else [])"
  define qs where "qs = (if ks \<noteq> [] then CHR ''?'' # purl_quals q ks else [])"
  have ks: "set ks = {k. qual q k \<noteq> []}" using qual_dom by (auto simp: ks_def)
  have p: "purl typ ns n v q = ''pkg:'' @ (typ @ CHR ''/'' # rest) @ qs"
    by (simp add: purl_def ks_def [symmetric] rest_def r_def qs_def Let_def)
  have hash_ks: "\<forall>k \<in> set ks. CHR ''#'' \<notin> set k"
    using q ks qual_dom unfolding qualsOK_def badKey_def by fastforce
  have rest_av: "CHR ''#'' \<notin> set rest" "CHR ''?'' \<notin> set rest" by (auto simp: rest_def r_def)
  have typ_av: "CHR ''#'' \<notin> set typ" "CHR ''?'' \<notin> set typ" "CHR ''/'' \<notin> set typ"
    using ty by (auto simp: typOK_def)
  have body: "cutAt ((typ @ CHR ''/'' # rest) @ qs) CHR ''#'' = (typ @ CHR ''/'' # rest) @ qs"
  proof -
    have "CHR ''#'' \<notin> set ((typ @ CHR ''/'' # rest) @ qs)"
      using rest_av typ_av purl_quals_hash [OF hash_ks] by (simp add: qs_def)
    then have "cut_byte CHR ''#'' ((typ @ CHR ''/'' # rest) @ qs) = None" by (rule cut_byte_None [THEN iffD2])
    then show ?thesis by (simp add: cutAt_def)
  qed
  have cut: "(case cut_byte CHR ''?'' ((typ @ CHR ''/'' # rest) @ qs) of Some ab \<Rightarrow> ab
      | None \<Rightarrow> ((typ @ CHR ''/'' # rest) @ qs, [])) = (typ @ CHR ''/'' # rest, if ks \<noteq> [] then purl_quals q ks else [])"
    using rest_av typ_av cut_byte_None [of "CHR ''?''" "typ @ CHR ''/'' # rest"]
      cut_byte_append [of "CHR ''?''" "typ @ CHR ''/'' # rest"]
    by (cases "ks = []") (simp_all add: qs_def del: append_Cons append_assoc cut_byte_append)
  have quals: "parseQualifiers (if ks \<noteq> [] then purl_quals q ks else []) = qualsMap q"
    using parseQualifiers_purl [OF q ks] ks
    by (cases "ks = []") (simp_all add: parseQualifiers_def qualsMap_def fun_eq_iff)
  have sep: "strings_Cut (typ @ CHR ''/'' # rest) CHR ''/'' = (typ, rest, True)"
    using typ_av by (simp add: strings_Cut_def)
  have pre: "strings_HasPrefix (''pkg:'' @ x) ''pkg:''" "strings_TrimPrefix (''pkg:'' @ x) ''pkg:'' = x" for x
    by (simp_all add: strings_HasPrefix_def strings_TrimPrefix_def)
  note parts = splitPURL_rest [OF v r_def rest_def]
  show ?thesis
    unfolding splitPURL_def p Let_def
    by (simp only: pre body cut quals sep parts prod.case not_True_eq_False if_False esc_decode) simp
qed



text \<open>
  The encoder leaves an at sign in a version as it is, and the decoder cuts at the last one:
  the version of such a component is truncated and the rest becomes part of its name, so no
  advisory of the real package is found.
\<close>

theorem purl_version_at_sign:
  "ParsePURL (purl ''npm'' [] ''left-pad'' ''npm:other@1.2.0'' [])
   = Some \<lparr> cEcosystem = ''npm'', cPackage = ''left-pad@npm:other'', cVersion = ''1.2.0'', cScheme = SchemeSemver \<rparr>"
  by code_simp

subsection \<open>Python names\<close>

text \<open>
  A normalized name: lower case, single dashes inside as the only separators.
\<close>

definition notDashes :: "char \<Rightarrow> char \<Rightarrow> bool" where
  "notDashes a b \<longleftrightarrow> a \<noteq> CHR ''-'' \<or> b \<noteq> CHR ''-''"

definition pyCanonical :: "string \<Rightarrow> bool" where
  "pyCanonical s \<longleftrightarrow> (\<forall>c \<in> set s. lowerByte c = c \<and> c \<noteq> CHR ''_'' \<and> c \<noteq> CHR ''.'')
     \<and> successively notDashes s
     \<and> (s \<noteq> [] \<longrightarrow> hd s \<noteq> CHR ''-'' \<and> last s \<noteq> CHR ''-'')"

lemma pyloop_chars:
  "c \<in> set (NormalizePyPI_loop p s) \<Longrightarrow> c \<noteq> CHR ''_'' \<and> c \<noteq> CHR ''.'' \<and> (c = CHR ''-'' \<or> c \<in> set s)"
  by (induction p s rule: NormalizePyPI_loop.induct) (auto split: if_splits)

lemma pyloop_hd: "NormalizePyPI_loop True s \<noteq> [] \<Longrightarrow> hd (NormalizePyPI_loop True s) \<noteq> CHR ''-''"
  by (induction s) auto

lemma pyloop_single:
  "successively notDashes (NormalizePyPI_loop p s)"
proof (induction p s rule: NormalizePyPI_loop.induct)
  case (2 p r rs)
  then show ?case using pyloop_hd [of rs] by (auto simp: successively_Cons notDashes_def)
qed simp

lemma pyloop_fix:
  assumes "\<forall>c \<in> set s. c \<noteq> CHR ''_'' \<and> c \<noteq> CHR ''.''"
    and "successively notDashes s"
    and "p \<Longrightarrow> s \<noteq> [] \<Longrightarrow> hd s \<noteq> CHR ''-''"
  shows "NormalizePyPI_loop p s = s"
  using assms
proof (induction s arbitrary: p)
  case (Cons r rs)
  have r: "r \<noteq> CHR ''_''" "r \<noteq> CHR ''.''" and sep: "r = CHR ''-'' \<Longrightarrow> rs \<noteq> [] \<Longrightarrow> hd rs \<noteq> CHR ''-''"
    and tail: "\<forall>c \<in> set rs. c \<noteq> CHR ''_'' \<and> c \<noteq> CHR ''.''"
      "successively notDashes rs"
  proof -
    have succ: "rs = [] \<or> notDashes r (hd rs) \<and> successively notDashes rs"
      using Cons.prems(2) by (simp only: successively_Cons)
    show "r \<noteq> CHR ''_''" "r \<noteq> CHR ''.''" using Cons.prems(1) by simp_all
    show "hd rs \<noteq> CHR ''-''" if "r = CHR ''-''" "rs \<noteq> []"
      using succ that by (simp add: notDashes_def)
    show "\<forall>c \<in> set rs. c \<noteq> CHR ''_'' \<and> c \<noteq> CHR ''.''" using Cons.prems(1) by simp
    show "successively notDashes rs" using succ by (cases "rs = []") simp_all
  qed
  show ?case
  proof (cases "r = CHR ''-''")
    case True
    then have "\<not> p" using Cons.prems(3) by auto
    moreover have "NormalizePyPI_loop True rs = rs" using Cons.IH [OF tail] sep [OF True] by blast
    ultimately show ?thesis using True by simp
  next
    case False
    have "NormalizePyPI_loop False rs = rs" using Cons.IH [OF tail] by blast
    then show ?thesis using False r by simp
  qed
qed simp

lemma successively_dropWhile: "successively P s \<Longrightarrow> successively P (dropWhile Q s)"
  by (induction s) (auto simp: successively_Cons)

lemma trim_both_props:
  "set (trim_both Q s) \<subseteq> set s"
  "successively P s \<Longrightarrow> successively P (trim_both Q s)"
  "trim_both Q s \<noteq> [] \<Longrightarrow> \<not> Q (hd (trim_both Q s)) \<and> \<not> Q (last (trim_both Q s))"
proof -
  show "set (trim_both Q s) \<subseteq> set s"
    unfolding trim_both_def trim_right_def trim_left_def
    by (metis set_dropWhileD set_rev subsetI)
  show "successively P s \<Longrightarrow> successively P (trim_both Q s)"
    by (auto simp: trim_both_def trim_right_def trim_left_def intro!: successively_dropWhile)
  show "\<not> Q (hd (trim_both Q s)) \<and> \<not> Q (last (trim_both Q s))" if "trim_both Q s \<noteq> []"
  proof -
    let ?l = "dropWhile Q s" and ?d = "dropWhile Q (rev (dropWhile Q s))"
    have ne: "?d \<noteq> []" using that by (simp add: trim_both_def trim_right_def trim_left_def)
    then have l: "?l \<noteq> []" by (metis dropWhile.simps(1) rev.simps(1))
    have "last (rev ?d) = hd ?d" using ne by (simp add: last_rev)
    moreover have "\<not> Q (hd ?d)" using hd_dropWhile [OF ne] .
    moreover have "hd (rev ?d) = hd ?l"
    proof -
      obtain pre where "rev ?l = pre @ ?d" by (metis takeWhile_dropWhile_id)
      then have "?l = rev ?d @ rev pre" by (metis rev_append rev_rev_ident)
      then show ?thesis using ne by (metis hd_append2 rev_is_Nil_conv)
    qed
    moreover have "\<not> Q (hd ?l)" using hd_dropWhile [OF l] .
    ultimately show ?thesis by (simp add: trim_both_def trim_right_def trim_left_def)
  qed
qed

lemma trim_both_fix:
  "s = [] \<or> \<not> Q (hd s) \<and> \<not> Q (last s) \<Longrightarrow> trim_both Q s = s"
proof -
  assume h: "s = [] \<or> \<not> Q (hd s) \<and> \<not> Q (last s)"
  have l: "dropWhile Q s = s" using h by (cases s) auto
  have r: "dropWhile Q (rev s) = rev s" using h by (cases s rule: rev_cases) auto
  show ?thesis by (simp add: trim_both_def trim_right_def trim_left_def l r)
qed

lemma NormalizePyPI_canonical: "pyCanonical (NormalizePyPI name)"
proof -
  let ?l = "NormalizePyPI_loop False (strings_ToLower name)"
  have "lowerByte c = c \<and> c \<noteq> CHR ''_'' \<and> c \<noteq> CHR ''.''" if "c \<in> set ?l" for c
    using pyloop_chars [OF that] by (auto simp: strings_ToLower_def lowerByte_def)
  then show ?thesis
    using trim_both_props(1,3) [of "\<lambda>c. c = CHR ''-''" ?l]
      trim_both_props(2) [of _ ?l "\<lambda>c. c = CHR ''-''"] pyloop_single [of False "strings_ToLower name"]
    unfolding pyCanonical_def NormalizePyPI_def by blast
qed

lemma NormalizePyPI_fix: "pyCanonical s \<Longrightarrow> NormalizePyPI s = s"
proof -
  assume h: "pyCanonical s"
  then have "strings_ToLower s = s"
    by (auto simp: pyCanonical_def strings_ToLower_def intro: map_idI)
  moreover have "NormalizePyPI_loop False s = s"
    using h by (intro pyloop_fix) (auto simp: pyCanonical_def)
  ultimately show ?thesis
    using h by (auto simp: NormalizePyPI_def pyCanonical_def intro: trim_both_fix)
qed

text \<open>
  Normalizing a Python name gives a canonical name (lower case, single inner dashes), and the
  canonical names are exactly the fixed points; so normalizing the name of an advisory, of a
  component and of a lookup key agree however often each of them is applied.
\<close>

theorem NormalizePyPI_projection:
  "pyCanonical (NormalizePyPI name) \<and> (pyCanonical name \<longleftrightarrow> NormalizePyPI name = name)
   \<and> NormalizePyPI (NormalizePyPI name) = NormalizePyPI name"
  using NormalizePyPI_canonical NormalizePyPI_fix by metis

end
