(* ===== verification/VulnStore.thy ===== *)
theory VulnStore
  imports VulnPurl
begin

text \<open>
  The advisory store of \<^verbatim>\<open>internal/vulndb/store.go\<close> and the end-of-life table of
  \<^verbatim>\<open>eol.go\<close>. The lookup structures are rebuilt from the advisories by \<open>index\<close>; a query goes
  through them, and the lemmas say that it answers what scanning the advisories would.
  A time is the number of nanoseconds since the start of the year 1 (UTC), so 0 is Go's zero
  time; the EPSS map is keyed as loaded.
\<close>

subsection \<open>The store\<close>

record DB =
  dbSchema :: int
  dbBuiltAt :: int
  dbSource :: string
  dbAdvisories :: "advisory list"
  dbEPSS :: "string \<Rightarrow> float64 option"
  dbKEV :: "string list"
  dbSkipped :: int
  dbByPkg :: "string \<Rightarrow> nat list"
  dbKevSet :: "string \<Rightarrow> bool"

definition currentSchema :: int where
  "currentSchema = 1"

definition indexKey :: "ecosystem \<Rightarrow> string \<Rightarrow> string" where
  "indexKey eco pkg =
     strings_ToLower eco @ ''|'' @ (if scheme eco = SchemePEP440 then NormalizePyPI pkg else pkg)"

fun index_advisories :: "(string \<Rightarrow> nat list) \<Rightarrow> nat \<Rightarrow> advisory list \<Rightarrow> (string \<Rightarrow> nat list)" where
  "index_advisories m i [] = m"
| "index_advisories m i (a # as) =
     (let key = indexKey (advEcosystem a) (advPackage a) in
      index_advisories (m(key := m key @ [i])) (Suc i) as)"

fun index_kev :: "(string \<Rightarrow> bool) \<Rightarrow> string list \<Rightarrow> (string \<Rightarrow> bool)" where
  "index_kev m [] = m"
| "index_kev m (k # ks) = index_kev (m(strings_ToUpper k := True)) ks"

definition db_index :: "DB \<Rightarrow> DB" where
  "db_index db = db\<lparr> dbByPkg := index_advisories (\<lambda>k. []) 0 (dbAdvisories db),
                    dbKevSet := index_kev (\<lambda>k. False) (dbKEV db) \<rparr>"

datatype load_err = ParseErr | SchemaTooNew int

text \<open>\<^verbatim>\<open>LoadJSON\<close>; the JSON decoder of the standard library is a parameter.\<close>

definition LoadJSON :: "(bytes \<Rightarrow> DB option) \<Rightarrow> bytes \<Rightarrow> load_err + DB" where
  "LoadJSON unmarshal data =
     (case unmarshal data of None \<Rightarrow> Inl ParseErr
      | Some db \<Rightarrow> if dbSchema db > currentSchema then Inl (SchemaTooNew (dbSchema db))
          else Inr (db_index db))"

text \<open>The methods accept a nil receiver: None.\<close>

definition IndicesFor :: "DB option \<Rightarrow> coord \<Rightarrow> nat list" where
  "IndicesFor dbo c = (case dbo of None \<Rightarrow> []
     | Some db \<Rightarrow> dbByPkg db (indexKey (cEcosystem c) (cPackage c)))"

definition At :: "DB \<Rightarrow> nat \<Rightarrow> advisory option" where
  "At db i = (if i < length (dbAdvisories db) then Some (dbAdvisories db ! i) else None)"

definition Query :: "DB option \<Rightarrow> coord \<Rightarrow> advisory list" where
  "Query dbo c = (case dbo of None \<Rightarrow> []
     | Some db \<Rightarrow> map (\<lambda>i. dbAdvisories db ! i) (IndicesFor dbo c))"

fun EPSSFor_loop :: "(string \<Rightarrow> float64 option) \<Rightarrow> string list \<Rightarrow> float64 option" where
  "EPSSFor_loop m [] = None"
| "EPSSFor_loop m (i # is) = (case m (strings_ToUpper i) of Some p \<Rightarrow> Some p | None \<Rightarrow> EPSSFor_loop m is)"

definition EPSSFor :: "DB option \<Rightarrow> string list \<Rightarrow> float64 option" where
  "EPSSFor dbo is = (case dbo of None \<Rightarrow> None | Some db \<Rightarrow> EPSSFor_loop (dbEPSS db) is)"

fun IsKEV_loop :: "(string \<Rightarrow> bool) \<Rightarrow> string list \<Rightarrow> bool" where
  "IsKEV_loop m [] = False"
| "IsKEV_loop m (i # is) = (if m (strings_ToUpper i) then True else IsKEV_loop m is)"

definition IsKEV :: "DB option \<Rightarrow> string list \<Rightarrow> bool" where
  "IsKEV dbo is = (case dbo of None \<Rightarrow> False | Some db \<Rightarrow> IsKEV_loop (dbKevSet db) is)"

text \<open>\<^verbatim>\<open>time.Time.Sub\<close> saturates at the bounds of a duration.\<close>

definition time_sub :: "int \<Rightarrow> int \<Rightarrow> int" where
  "time_sub a b = min maxInt64 (max (- maxInt64 - 1) (a - b))"

definition Age :: "DB option \<Rightarrow> int \<Rightarrow> int" where
  "Age dbo now = (case dbo of None \<Rightarrow> 0
     | Some db \<Rightarrow> if dbBuiltAt db = 0 \<or> now = 0 then 0 else time_sub now (dbBuiltAt db))"

definition Stale :: "DB option \<Rightarrow> int \<Rightarrow> int \<Rightarrow> bool" where
  "Stale dbo now maxAge = (case dbo of None \<Rightarrow> False
     | Some db \<Rightarrow> if dbBuiltAt db = 0 \<or> now = 0 \<or> maxAge \<le> 0 then False
         else time_sub now (dbBuiltAt db) > maxAge)"

definition db_Count :: "DB option \<Rightarrow> nat" where
  "db_Count dbo = (case dbo of None \<Rightarrow> 0 | Some db \<Rightarrow> length (dbAdvisories db))"

text \<open>
  \<^verbatim>\<open>Marshal\<close> up to the JSON encoding: the copy of the store that is encoded. The indexes are
  not part of the encoding.
\<close>

definition adv_less :: "advisory \<Rightarrow> advisory \<Rightarrow> bool" where
  "adv_less = key_less advEcosystem (key_less advPackage (key_less advID (\<lambda>a b. False)))"

definition Marshal_view :: "DB \<Rightarrow> DB" where
  "Marshal_view db = db\<lparr> dbAdvisories := sort_stable adv_less (dbAdvisories db),
                        dbKEV := sort_Strings (dbKEV db) \<rparr>"

subsection \<open>The index answers what a scan would\<close>

definition covers :: "coord \<Rightarrow> advisory \<Rightarrow> bool" where
  "covers c a \<longleftrightarrow> indexKey (advEcosystem a) (advPackage a) = indexKey (cEcosystem c) (cPackage c)"

lemma index_advisories_spec:
  "index_advisories m i as k = m k @ map fst (filter (\<lambda>p. indexKey (advEcosystem (snd p)) (advPackage (snd p)) = k)
     (enumerate i as))"
  by (induction as arbitrary: m i) (auto simp: Let_def)

lemma index_kev_spec: "index_kev m ks k \<longleftrightarrow> m k \<or> k \<in> strings_ToUpper ` set ks"
  by (induction ks arbitrary: m) (auto split: if_splits)

lemma enumerate_filter_nth:
  "map (\<lambda>i. as ! (i - n)) (map fst (filter (\<lambda>p. Q (snd p)) (enumerate n as))) = filter Q as"
proof (induction as arbitrary: n)
  case (Cons a as)
  have shift: "map (\<lambda>i. (a # as) ! (i - n)) (map fst (filter (\<lambda>p. Q (snd p)) (enumerate (Suc n) as)))
      = map (\<lambda>i. as ! (i - Suc n)) (map fst (filter (\<lambda>p. Q (snd p)) (enumerate (Suc n) as)))"
    by (auto simp: in_set_enumerate_eq nth_Cons' Suc_diff_le)
  show ?case
    using shift Cons.IH [of "Suc n"] by (cases "Q a") (simp_all only: enumerate_simps filter.simps
        snd_conv fst_conv list.map if_True if_False diff_self_eq_0 nth_Cons_0 simp_thms)
qed simp

lemma Query_scan: "Query (Some (db_index db)) c = filter (covers c) (dbAdvisories db)"
  using enumerate_filter_nth [of "dbAdvisories db" 0 "covers c"]
  by (simp add: Query_def IndicesFor_def db_index_def index_advisories_spec covers_def)

lemma covers_iff: "covers c a \<longleftrightarrow>
    strings_ToLower (advEcosystem a) @ ''|'' @ (if scheme (advEcosystem a) = SchemePEP440 then NormalizePyPI (advPackage a) else advPackage a)
    = strings_ToLower (cEcosystem c) @ ''|'' @ (if scheme (cEcosystem c) = SchemePEP440 then NormalizePyPI (cPackage c) else cPackage c)"
  by (simp add: covers_def indexKey_def)

lemma scheme_lower: "scheme (strings_ToLower e) = scheme e"
  by (simp add: scheme_def)

lemma covers_same_name:
  "\<lbrakk>strings_ToLower (advEcosystem a) = strings_ToLower (cEcosystem c);
    if scheme (cEcosystem c) = SchemePEP440 then NormalizePyPI (advPackage a) = NormalizePyPI (cPackage c)
    else advPackage a = cPackage c\<rbrakk> \<Longrightarrow> covers c a"
  unfolding covers_iff using scheme_lower [of "advEcosystem a"] scheme_lower [of "cEcosystem c"] by auto

text \<open>
  C38: A loaded store answers a query with exactly the advisories of that ecosystem and package,
  in the order of the file, and every index it hands out is a valid one: no advisory of the
  package is missed through the index.
\<close>

theorem Query_complete:
  assumes "LoadJSON unmarshal data = Inr db"
  shows "Query (Some db) c = filter (covers c) (dbAdvisories db)
    \<and> Query (Some db) c = map (\<lambda>i. the (At db i)) (IndicesFor (Some db) c)
    \<and> (\<forall>i \<in> set (IndicesFor (Some db) c). At db i \<noteq> None)"
proof -
  obtain d where db: "db = db_index d" and same: "dbAdvisories db = dbAdvisories d"
    using assms by (auto simp: LoadJSON_def db_index_def split: option.splits if_splits)
  have valid: "i < length (dbAdvisories db)" if "i \<in> set (IndicesFor (Some db) c)" for i
    using that same
    by (auto simp: db IndicesFor_def db_index_def index_advisories_spec in_set_enumerate_eq)
  then have "map (\<lambda>i. the (At db i)) (IndicesFor (Some db) c) = Query (Some db) c"
    by (simp add: Query_def At_def)
  then show ?thesis
    using Query_scan [of d c] same valid by (simp add: db At_def)
qed

definition sampleAdvisory :: "string \<Rightarrow> ecosystem \<Rightarrow> string \<Rightarrow> vrange list \<Rightarrow> advisory" where
  "sampleAdvisory i eco pkg rs = \<lparr> advID = i, advAliases = [], advSummary = [], advEcosystem = eco,
     advPackage = pkg, advRanges = rs, advSeverity = SevHigh, advCVSS = None, advCWEs = [],
     advSymbols = [], advReferences = [], advSource = ''osv'', advPublished = [], advModified = [] \<rparr>"

definition sampleDB :: DB where
  "sampleDB = \<lparr> dbSchema = 1, dbBuiltAt = 0, dbSource = [],
     dbAdvisories = [sampleAdvisory ''CVE-1'' ''PyPI'' ''Foo_Bar'' [], sampleAdvisory ''CVE-2'' ''npm'' ''foo-bar'' []],
     dbEPSS = Map.empty, dbKEV = [''cve-1''], dbSkipped = 0, dbByPkg = (\<lambda>k. []), dbKevSet = (\<lambda>k. False) \<rparr>"

theorem Query_complete_witness:
  "map advID (Query (Some (db_index sampleDB))
     \<lparr> cEcosystem = ''pypi'', cPackage = ''foo.bar'', cVersion = [], cScheme = SchemePEP440 \<rparr>) = [''CVE-1'']"
proof -
  let ?c = "\<lparr> cEcosystem = ''pypi'', cPackage = ''foo.bar'', cVersion = [], cScheme = SchemePEP440 \<rparr>"
  have "LoadJSON (\<lambda>d. Some sampleDB) [] = Inr (db_index sampleDB)"
    by (simp add: LoadJSON_def currentSchema_def sampleDB_def)
  from Query_complete [OF this, of ?c]
  have "Query (Some (db_index sampleDB)) ?c = filter (covers ?c) (dbAdvisories (db_index sampleDB))" by blast
  moreover have "map advID (filter (covers ?c) (dbAdvisories (db_index sampleDB))) = [''CVE-1'']"
    by code_simp
  ultimately show ?thesis by simp
qed

lemma IsKEV_loop_ex: "IsKEV_loop m is \<longleftrightarrow> (\<exists>i \<in> set is. m (strings_ToUpper i))"
  by (induction "is") auto

text \<open>
  An advisory is in the exploited catalog when one of its identifiers is listed there, in any
  case; a nil store knows none.
\<close>

theorem IsKEV_iff:
  "IsKEV (Some (db_index db)) is
     = (\<exists>i \<in> set is. \<exists>k \<in> set (dbKEV db). strings_ToUpper i = strings_ToUpper k)
   \<and> \<not> IsKEV None is"
  by (auto simp: IsKEV_def IsKEV_loop_ex db_index_def index_kev_spec)

subsection \<open>Canonical form\<close>

lemma adv_less_weak: "strict_weak adv_less"
  unfolding adv_less_def by (intro strict_weak_key strict_weak_none)

interpretation advs: strict_weak adv_less
  by (rule adv_less_weak)

definition advKey :: "advisory \<Rightarrow> string \<times> string \<times> string" where
  "advKey a = (advEcosystem a, advPackage a, advID a)"

lemma adv_less_tie: "\<not> adv_less a b \<Longrightarrow> \<not> adv_less b a \<Longrightarrow> advKey a = advKey b"
  using str_less_linear unfolding adv_less_def key_less_def advKey_def by (metis)

text \<open>
  Two stores that hold the same advisories and catalog entries in any order are written as the
  same file, when no two advisories share ecosystem, package and identifier.
\<close>

theorem Marshal_canonical:
  assumes "inj_on advKey (set (dbAdvisories db))"
    and "mset (dbAdvisories db) = mset (dbAdvisories db')" and "mset (dbKEV db) = mset (dbKEV db')"
  shows "dbAdvisories (Marshal_view db) = dbAdvisories (Marshal_view db')
    \<and> dbKEV (Marshal_view db) = dbKEV (Marshal_view db')"
proof -
  have "sort_stable adv_less (dbAdvisories db) = sort_stable adv_less (dbAdvisories db')"
    by (rule advs.canonical [OF _ assms(2)]) (use assms(1) adv_less_tie in \<open>auto dest: inj_onD\<close>)
  then show ?thesis using sort_Strings_canonical [OF assms(3)] by (simp add: Marshal_view_def)
qed

theorem Marshal_canonical_witness:
  "dbAdvisories (Marshal_view sampleDB) = dbAdvisories (Marshal_view (sampleDB\<lparr> dbAdvisories := rev (dbAdvisories sampleDB) \<rparr>))"
proof -
  have "inj_on advKey (set (dbAdvisories sampleDB))"
    by (auto simp: sampleDB_def sampleAdvisory_def advKey_def inj_on_def)
  from Marshal_canonical [OF this, of "sampleDB\<lparr> dbAdvisories := rev (dbAdvisories sampleDB) \<rparr>"]
  show ?thesis by simp
qed

subsection \<open>End of life of a distribution release\<close>

text \<open>Days since 1 January of the year 1 in the Gregorian calendar.\<close>

definition leap :: "int \<Rightarrow> bool" where
  "leap y \<longleftrightarrow> y mod 4 = 0 \<and> (y mod 100 \<noteq> 0 \<or> y mod 400 = 0)"

definition month_days :: "int \<Rightarrow> int list" where
  "month_days y = [31, if leap y then 29 else 28, 31, 30, 31, 30, 31, 31, 30, 31, 30, 31]"

definition date :: "int \<Rightarrow> nat \<Rightarrow> int \<Rightarrow> int" where
  "date y m d = (365 * (y - 1) + (y - 1) div 4 - (y - 1) div 100 + (y - 1) div 400
     + sum_list (take (m - 1) (month_days y)) + (d - 1)) * 86400000000000"

definition eolDates :: "(string \<times> int) list" where
  "eolDates =
    [(''alpine 3.14'', date 2023 5 1), (''alpine 3.15'', date 2023 11 1),
     (''alpine 3.16'', date 2024 5 23), (''alpine 3.17'', date 2024 11 22),
     (''alpine 3.18'', date 2025 5 9), (''alpine 3.19'', date 2025 11 1),
     (''alpine 3.20'', date 2026 4 1), (''alpine 3.21'', date 2026 11 1),
     (''alpine 3.22'', date 2027 5 1),
     (''debian 9'', date 2022 6 30), (''debian 10'', date 2024 6 30),
     (''debian 11'', date 2026 8 31), (''debian 12'', date 2028 6 10),
     (''debian 13'', date 2030 6 10),
     (''ubuntu 16.04'', date 2021 4 30), (''ubuntu 18.04'', date 2023 5 31),
     (''ubuntu 20.04'', date 2025 5 31), (''ubuntu 22.04'', date 2027 6 1),
     (''ubuntu 24.04'', date 2029 5 31),
     (''centos 7'', date 2024 6 30), (''centos 8'', date 2021 12 31),
     (''rhel 7'', date 2024 6 30), (''rhel 8'', date 2029 5 31),
     (''rhel 9'', date 2032 5 31),
     (''rocky 8'', date 2029 5 31), (''rocky 9'', date 2032 5 31),
     (''almalinux 8'', date 2029 5 31), (''almalinux 9'', date 2032 5 31)]"

fun DistroEOL_loop :: "int \<Rightarrow> string list \<Rightarrow> int \<times> bool \<times> bool" where
  "DistroEOL_loop now [] = (0, False, False)"
| "DistroEOL_loop now (k # ks) = (case map_of eolDates k of
     Some d \<Rightarrow> (d, now > d, True) | None \<Rightarrow> DistroEOL_loop now ks)"

definition DistroEOL :: "string \<Rightarrow> string \<Rightarrow> int \<Rightarrow> int \<times> bool \<times> bool" where
  "DistroEOL name version now =
     (let n = strings_ToLower (strings_TrimSpace name);
          parts = split_byte CHR ''.'' version;
          keys = (if length parts \<ge> 2 then [n @ '' '' @ parts ! 0 @ ''.'' @ parts ! 1] else [])
                 @ [n @ '' '' @ parts ! 0]
      in DistroEOL_loop now keys)"

lemma DistroEOL_loop_mono:
  "t \<le> t' \<Longrightarrow> DistroEOL_loop t ks = (d, e, k) \<Longrightarrow> \<exists>e'. DistroEOL_loop t' ks = (d, e', k) \<and> (e \<longrightarrow> e')"
  by (induction ks) (auto split: option.splits)

text \<open>
  The end-of-life answer for a release does not depend on what follows its minor version, and
  once a release is past its end of life it stays so: the date and whether it is known do not
  change with the clock.
\<close>

theorem DistroEOL_stable:
  assumes "CHR ''.'' \<notin> set major" and "CHR ''.'' \<notin> set minor" and "now \<le> later"
  shows "DistroEOL name (major @ ''.'' @ minor @ ''.'' @ patch) now = DistroEOL name (major @ ''.'' @ minor) now
    \<and> (case DistroEOL name version now of (d, e, k) \<Rightarrow>
        case DistroEOL name version later of (d', e', k') \<Rightarrow> d' = d \<and> k' = k \<and> (e \<longrightarrow> e'))"
proof
  have a: "split_byte CHR ''.'' (major @ CHR ''.'' # minor @ CHR ''.'' # patch)
      = major # minor # split_byte CHR ''.'' patch"
    using assms by (simp add: split_byte_append)
  have b: "split_byte CHR ''.'' (major @ CHR ''.'' # minor) = [major, minor]"
    using assms by (simp add: split_byte_append split_byte_none)
  show "DistroEOL name (major @ ''.'' @ minor @ ''.'' @ patch) now = DistroEOL name (major @ ''.'' @ minor) now"
    by (simp add: DistroEOL_def Let_def a b)
  show "case DistroEOL name version now of (d, e, k) \<Rightarrow>
        case DistroEOL name version later of (d', e', k') \<Rightarrow> d' = d \<and> k' = k \<and> (e \<longrightarrow> e')"
    using DistroEOL_loop_mono [OF assms(3)] unfolding DistroEOL_def Let_def
    by (fastforce split: prod.splits)
qed

theorem DistroEOL_stable_witness:
  "DistroEOL '' Alpine'' ''3.16.9'' (date 2025 1 1) = DistroEOL '' Alpine'' ''3.16'' (date 2025 1 1)
   \<and> DistroEOL '' Alpine'' ''3.16'' (date 2025 1 1) = (date 2024 5 23, True, True)"
proof -
  have n: "CHR ''.'' \<notin> set ''3''" "CHR ''.'' \<notin> set ''16''" by simp_all
  have "DistroEOL '' Alpine'' ''3.16.9'' (date 2025 1 1) = DistroEOL '' Alpine'' ''3.16'' (date 2025 1 1)"
    using DistroEOL_stable [OF n order_refl, of "'' Alpine''" "''9''" "date 2025 1 1"] by simp
  moreover have "DistroEOL '' Alpine'' ''3.16'' (date 2025 1 1) = (date 2024 5 23, True, True)"
    by code_simp
  ultimately show ?thesis by blast
qed

end
