(* ===== verification/VulnFeeds.thy ===== *)
theory VulnFeeds
  imports VulnStore
begin

text \<open>
  How feeds become advisories: the base score of \<^verbatim>\<open>cvss.go\<close>, the OSV normalization and the
  alias merge of \<^verbatim>\<open>update.go\<close> and the NVD normalization of \<^verbatim>\<open>nvd.go\<close>. A feed document is
  taken after the standard library's JSON decoder has turned it into the record the code
  decodes into. The fetchers (network and file reads) are not modelled.
\<close>

subsection \<open>CVSS vectors\<close>

definition lit :: "rat \<Rightarrow> float64" where
  "lit q = round64 q"

fun cvss_parts :: "string \<Rightarrow> (string \<Rightarrow> string option) \<Rightarrow> string list \<Rightarrow> string \<times> (string \<Rightarrow> string option)" where
  "cvss_parts version m [] = (version, m)"
| "cvss_parts version m (part # ps) =
     (case strings_Cut part CHR '':'' of (k, val, ok) \<Rightarrow>
        if \<not> ok then cvss_parts version m ps
        else if k = ''CVSS'' then cvss_parts val m ps
        else cvss_parts version (m(k \<mapsto> val)) ps)"

text \<open>Indexing a Go map of strings with a missing key gives the empty string.\<close>

definition get :: "(string \<Rightarrow> string option) \<Rightarrow> string \<Rightarrow> string" where
  "get m k = (case m k of None \<Rightarrow> [] | Some v \<Rightarrow> v)"

definition roundUp1 :: "float64 \<Rightarrow> float64" where
  "roundUp1 x = fdiv (math_Ceil (fsub (fmul x (lit 10)) (lit (1 / 1000000000)))) (lit 10)"

definition cvss3BaseScore ::
    "(float64 \<Rightarrow> float64 \<Rightarrow> float64) \<Rightarrow> (string \<Rightarrow> string option) \<Rightarrow> float64 option" where
  "cvss3BaseScore math_Pow m =
     (let scope = get m ''S''; changed = (scope = ''C'');
          av = map_of [(''N'', lit (85/100)), (''A'', lit (62/100)), (''L'', lit (55/100)), (''P'', lit (2/10))] (get m ''AV'');
          ac = map_of [(''L'', lit (77/100)), (''H'', lit (44/100))] (get m ''AC'');
          ui = map_of [(''N'', lit (85/100)), (''R'', lit (62/100))] (get m ''UI'');
          pr = (if changed
                then map_of [(''N'', lit (85/100)), (''L'', lit (68/100)), (''H'', lit (5/10))] (get m ''PR'')
                else map_of [(''N'', lit (85/100)), (''L'', lit (62/100)), (''H'', lit (27/100))] (get m ''PR''));
          impact = map_of [(''H'', lit (56/100)), (''L'', lit (22/100)), (''N'', lit 0)]
      in case (av, ac, ui, pr, impact (get m ''C''), impact (get m ''I''), impact (get m ''A'')) of
           (Some av', Some ac', Some ui', Some pr', Some c, Some i, Some a) \<Rightarrow>
             if scope \<noteq> ''U'' \<and> scope \<noteq> ''C'' then None
             else
               let iscBase = fsub (lit 1) (fmul (fmul (fsub (lit 1) c) (fsub (lit 1) i)) (fsub (lit 1) a));
                   impactSub = (if changed
                     then fsub (fmul (lit (752/100)) (fsub iscBase (lit (29/1000))))
                            (fmul (lit (325/100)) (math_Pow (fsub iscBase (lit (2/100))) (lit 15)))
                     else fmul (lit (642/100)) iscBase)
               in if fge (lit 0) impactSub then Some (lit 0)
                  else
                    let expl = fmul (fmul (fmul (fmul (lit (822/100)) av') ac') pr') ui';
                        raw = fadd impactSub expl;
                        raw' = (if changed then fmul raw (lit (108/100)) else raw)
                    in Some (roundUp1 (math_Min raw' (lit 10)))
         | _ \<Rightarrow> None)"

definition ParseCVSSVector :: "(float64 \<Rightarrow> float64 \<Rightarrow> float64) \<Rightarrow> string \<Rightarrow> cvss option" where
  "ParseCVSSVector math_Pow vector =
     (let v = strings_TrimSpace vector in
      if \<not> strings_HasPrefix v ''CVSS:3'' then None
      else case cvss_parts ''3.1'' Map.empty (split_byte CHR ''/'' v) of
        (version, m) \<Rightarrow> (case cvss3BaseScore math_Pow m of None \<Rightarrow> None
           | Some score \<Rightarrow> Some \<lparr> cvssVersion = version, cvssVector = v, cvssScore = score \<rparr>))"

subsection \<open>Slices without duplicates\<close>

fun dedup_loop :: "'a list \<Rightarrow> 'a list \<Rightarrow> 'a list" where
  "dedup_loop seen [] = []"
| "dedup_loop seen (s # ss) =
     (if s \<in> set seen then dedup_loop seen ss else s # dedup_loop (s # seen) ss)"

definition dedupRanges :: "vrange list \<Rightarrow> vrange list" where
  "dedupRanges rs = dedup_loop [] rs"

fun dedupStrings_loop :: "string list \<Rightarrow> string list \<Rightarrow> string list" where
  "dedupStrings_loop seen [] = []"
| "dedupStrings_loop seen (s # ss) =
     (if s = [] \<or> s \<in> set seen then dedupStrings_loop seen ss else s # dedupStrings_loop (s # seen) ss)"

definition dedupStrings :: "string list \<Rightarrow> string list" where
  "dedupStrings xs = dedupStrings_loop [] xs"

fun dedupUpper_loop :: "string list \<Rightarrow> string list \<Rightarrow> string list" where
  "dedupUpper_loop seen [] = []"
| "dedupUpper_loop seen (s # ss) =
     (let u = strings_ToUpper (strings_TrimSpace s) in
      if u = [] \<or> u \<in> set seen then dedupUpper_loop seen ss else u # dedupUpper_loop (u # seen) ss)"

definition dedupUpper :: "string list \<Rightarrow> string list" where
  "dedupUpper xs = dedupUpper_loop [] xs"

definition firstNonEmpty :: "string \<Rightarrow> string \<Rightarrow> string" where
  "firstNonEmpty a b = (if a \<noteq> [] then a else b)"

definition truncate_str :: "string \<Rightarrow> nat \<Rightarrow> string" where
  "truncate_str s n = (if length s \<le> n then s else take n s)"

lemma set_dedup_loop: "set (dedup_loop seen xs) = set xs - set seen"
  by (induction seen xs rule: dedup_loop.induct) auto

lemma distinct_dedup_loop: "distinct (dedup_loop seen xs)"
  by (induction seen xs rule: dedup_loop.induct) (auto simp: set_dedup_loop)

lemma dedup_loop_id: "distinct xs \<Longrightarrow> set xs \<inter> set seen = {} \<Longrightarrow> dedup_loop seen xs = xs"
  by (induction seen xs rule: dedup_loop.induct) auto

lemma dedupStrings_loop_eq: "dedupStrings_loop seen xs = dedup_loop seen (filter (\<lambda>s. s \<noteq> []) xs)"
  by (induction seen xs rule: dedupStrings_loop.induct) auto

lemma set_dedupStrings [simp]: "set (dedupStrings xs) = {s \<in> set xs. s \<noteq> []}"
  by (auto simp: dedupStrings_def dedupStrings_loop_eq set_dedup_loop)

lemma set_dedupRanges [simp]: "set (dedupRanges xs) = set xs"
  by (simp add: dedupRanges_def set_dedup_loop)

lemma dedupStrings_idem [simp]: "dedupStrings (dedupStrings xs) = dedupStrings xs"
proof -
  have "distinct (dedupStrings xs)" "filter (\<lambda>s. s \<noteq> []) (dedupStrings xs) = dedupStrings xs"
    by (simp_all add: dedupStrings_def dedupStrings_loop_eq distinct_dedup_loop filter_id_conv set_dedup_loop)
  then show ?thesis by (simp add: dedupStrings_def [of "dedupStrings xs"] dedupStrings_loop_eq dedup_loop_id)
qed

lemma dedupRanges_idem [simp]: "dedupRanges (dedupRanges xs) = dedupRanges xs"
  by (simp add: dedupRanges_def dedup_loop_id distinct_dedup_loop)

subsection \<open>OSV records\<close>

record osvEvent =
  evIntroduced :: string
  evFixed :: string
  evLastAffected :: string

record osvRange =
  orType :: string
  orEvents :: "osvEvent list"

record osvAffected =
  oaEcosystem :: string
  oaName :: string
  oaRanges :: "osvRange list"
  oaSeverity :: string
  oaSymbols :: "string list list"

record osvRecord =
  osvID :: string
  osvAliases :: "string list"
  osvSummary :: string
  osvDetails :: string
  osvModified :: string
  osvPublished :: string
  osvSeverity :: "string list"
  osvAffecteds :: "osvAffected list"
  osvReferences :: "string list"
  osvDBSeverity :: string
  osvCWEIDs :: "string list"

definition mapOSVEcosystem :: "string \<Rightarrow> ecosystem" where
  "mapOSVEcosystem e =
     (let base = strings_ToLower (cutAt e CHR '':'') in
      if base \<in> {''npm'', ''pypi'', ''go'', ''maven''} then base
      else if base = ''crates.io'' then ''cargo''
      else if base = ''rubygems'' then ''rubygems''
      else if base = ''packagist'' then ''composer''
      else if base \<in> {''nuget'', ''alpine'', ''debian'', ''ubuntu''} then base
      else if base \<in> {''red hat'', ''redhat'', ''rocky linux'', ''almalinux'', ''alma''} then ''rhel''
      else if base \<in> {''wolfi'', ''chainguard''} then ''wolfi''
      else base)"

definition emptyRange :: "versionScheme \<Rightarrow> vrange" where
  "emptyRange sch = \<lparr> rScheme = sch, rIntroduced = [], rFixed = [], rLastAffected = [] \<rparr>"

fun convert_events :: "versionScheme \<Rightarrow> vrange \<Rightarrow> bool \<Rightarrow> osvEvent list \<Rightarrow> vrange list" where
  "convert_events sch cur isOpen [] = (if isOpen then [cur] else [])"
| "convert_events sch cur isOpen (ev # evs) =
     (if evIntroduced ev \<noteq> [] then
        (if isOpen then [cur] else [])
        @ convert_events sch ((emptyRange sch)\<lparr> rIntroduced := evIntroduced ev \<rparr>) True evs
      else if evFixed ev \<noteq> [] then
        cur\<lparr> rFixed := evFixed ev \<rparr> # convert_events sch (emptyRange sch) False evs
      else if evLastAffected ev \<noteq> [] then
        cur\<lparr> rLastAffected := evLastAffected ev \<rparr> # convert_events sch (emptyRange sch) False evs
      else convert_events sch cur isOpen evs)"

definition EqualFold :: "string \<Rightarrow> string \<Rightarrow> bool" where
  "EqualFold a b \<longleftrightarrow> strings_ToLower a = strings_ToLower b"

fun convertOSVRanges :: "osvRange list \<Rightarrow> ecosystem \<Rightarrow> vrange list" where
  "convertOSVRanges [] eco = []"
| "convertOSVRanges (r # rs) eco =
     (if EqualFold (orType r) ''GIT'' then convertOSVRanges rs eco
      else
        let override = (if EqualFold (orType r) ''SEMVER'' \<and> scheme eco \<noteq> SchemeSemver
               then SchemeSemver else [])
        in convert_events override (emptyRange override) False (orEvents r) @ convertOSVRanges rs eco)"

fun severityFromOSV_loop ::
    "(float64 \<Rightarrow> float64 \<Rightarrow> float64) \<Rightarrow> cvss option \<Rightarrow> string list \<Rightarrow> cvss option" where
  "severityFromOSV_loop math_Pow best [] = best"
| "severityFromOSV_loop math_Pow best (s # ss) =
     (case ParseCVSSVector math_Pow s of
        Some c \<Rightarrow> (case best of
            None \<Rightarrow> severityFromOSV_loop math_Pow (Some c) ss
          | Some b \<Rightarrow> severityFromOSV_loop math_Pow (if flt (cvssScore b) (cvssScore c) then Some c else Some b) ss)
      | None \<Rightarrow> severityFromOSV_loop math_Pow best ss)"

definition severityFromOSV ::
    "(float64 \<Rightarrow> float64 \<Rightarrow> float64) \<Rightarrow> osvRecord \<Rightarrow> cvss option \<times> sevName" where
  "severityFromOSV math_Pow rec =
     (case severityFromOSV_loop math_Pow None (osvSeverity rec) of
        Some best \<Rightarrow> (Some best, SeverityFromScore (cvssScore best))
      | None \<Rightarrow> (None, NormalizeSeverityWord (osvDBSeverity rec)))"

text \<open>One affected package of a record; None is the loop's \<^verbatim>\<open>continue\<close>.\<close>

definition normalizeOSV_affected ::
    "osvRecord \<Rightarrow> string list \<Rightarrow> cvss option \<Rightarrow> sevName \<Rightarrow> osvAffected \<Rightarrow> advisory option" where
  "normalizeOSV_affected rec refs cv sev aff =
     (let eco = mapOSVEcosystem (oaEcosystem aff) in
      if eco = [] \<or> oaName aff = [] then None
      else
        let ranges = convertOSVRanges (oaRanges aff) eco in
        if ranges = [] then None
        else
          let name = (if scheme eco = SchemePEP440 then NormalizePyPI (oaName aff) else oaName aff);
              w = NormalizeSeverityWord (firstNonEmpty (oaSeverity aff) (osvDBSeverity rec));
              advSev = (if w \<noteq> SevUnknown \<and> sev = SevUnknown then w else sev)
          in Some \<lparr> advID = osvID rec, advAliases = dedupStrings (osvAliases rec),
               advSummary = firstNonEmpty (osvSummary rec) (truncate_str (osvDetails rec) 200),
               advEcosystem = eco, advPackage = name, advRanges = ranges, advSeverity = advSev,
               advCVSS = cv, advCWEs = dedupStrings (osvCWEIDs rec),
               advSymbols = dedupStrings (concat (oaSymbols aff)), advReferences = dedupStrings refs,
               advSource = ''osv'', advPublished = osvPublished rec, advModified = osvModified rec \<rparr>)"

datatype feed_err = FeedParse | FeedMissingID

definition normalizeOSV ::
    "(float64 \<Rightarrow> float64 \<Rightarrow> float64) \<Rightarrow> (bytes \<Rightarrow> osvRecord option) \<Rightarrow> bytes \<Rightarrow> feed_err + advisory list" where
  "normalizeOSV math_Pow unmarshal doc =
     (case unmarshal doc of
        None \<Rightarrow> Inl FeedParse
      | Some rec \<Rightarrow>
          if osvID rec = [] then Inl FeedMissingID
          else
            let refs = filter (\<lambda>r. r \<noteq> []) (osvReferences rec) in
            case severityFromOSV math_Pow rec of
              (cv, sev) \<Rightarrow> Inr (List.map_filter (normalizeOSV_affected rec refs cv sev) (osvAffecteds rec)))"

subsection \<open>Merging by alias\<close>

definition isCVE :: "string \<Rightarrow> bool" where
  "isCVE i \<longleftrightarrow> strings_HasPrefix (strings_ToUpper i) ''CVE-''"

definition canonicalID :: "string list \<Rightarrow> string" where
  "canonicalID is = (case List.find isCVE is of
      Some i \<Rightarrow> strings_ToUpper i
    | None \<Rightarrow> (case is of i # _ \<Rightarrow> i | [] \<Rightarrow> []))"

definition merge_cvss :: "cvss option \<Rightarrow> cvss option \<Rightarrow> cvss option" where
  "merge_cvss d s = (case (d, s) of
      (None, Some c) \<Rightarrow> Some c
    | (Some b, Some c) \<Rightarrow> (if flt (cvssScore b) (cvssScore c) then Some c else Some b)
    | (_, None) \<Rightarrow> d)"

definition mergeAdvisory :: "advisory \<Rightarrow> advisory \<Rightarrow> advisory" where
  "mergeAdvisory dst src =
     (let swapID = (\<not> isCVE (advID dst) \<and> isCVE (advID src)) in
      dst\<lparr> advRanges := advRanges dst @ advRanges src,
           advAliases := advAliases dst @ [advID src] @ advAliases src
             @ (if swapID then [advID dst] else []),
           advReferences := advReferences dst @ advReferences src,
           advCWEs := dedupStrings (advCWEs dst @ advCWEs src),
           advSymbols := dedupStrings (advSymbols dst @ advSymbols src),
           advSeverity := (if Rank (advSeverity src) > Rank (advSeverity dst)
             then advSeverity src else advSeverity dst),
           advCVSS := merge_cvss (advCVSS dst) (advCVSS src),
           advSummary := (if advSummary dst = [] then advSummary src else advSummary dst),
           advID := (if swapID then advID src else advID dst) \<rparr>)"

definition mergeKey :: "advisory \<Rightarrow> string" where
  "mergeKey a = advEcosystem a @ ''|'' @ advPackage a @ ''|'' @ canonicalID (ids a)"

fun merge_loop ::
    "string list \<Rightarrow> (string \<Rightarrow> advisory option) \<Rightarrow> advisory list \<Rightarrow> string list \<times> (string \<Rightarrow> advisory option)" where
  "merge_loop order groups [] = (order, groups)"
| "merge_loop order groups (a # as) =
     (case groups (mergeKey a) of
        None \<Rightarrow> merge_loop (order @ [mergeKey a]) (groups(mergeKey a \<mapsto> a)) as
      | Some g \<Rightarrow> merge_loop order (groups(mergeKey a \<mapsto> mergeAdvisory g a)) as)"

definition merge_finish :: "advisory \<Rightarrow> advisory" where
  "merge_finish g = g\<lparr> advAliases := dedupStrings (advAliases g),
     advReferences := dedupStrings (advReferences g), advRanges := dedupRanges (advRanges g) \<rparr>"

definition mergeByAlias :: "advisory list \<Rightarrow> advisory list" where
  "mergeByAlias as = (case merge_loop [] Map.empty as of
     (order, groups) \<Rightarrow> map (\<lambda>k. merge_finish (the (groups k))) order)"

subsection \<open>OSV ranges\<close>

text \<open>The event list OSV writes for a range: where it starts, and how it ends if it does.\<close>

definition ev :: "string \<Rightarrow> string \<Rightarrow> string \<Rightarrow> osvEvent" where
  "ev i f l = \<lparr> evIntroduced = i, evFixed = f, evLastAffected = l \<rparr>"

definition range_events :: "vrange \<Rightarrow> osvEvent list" where
  "range_events r = [ev (rIntroduced r) [] []]
     @ (if rFixed r \<noteq> [] then [ev [] (rFixed r) []]
        else if rLastAffected r \<noteq> [] then [ev [] [] (rLastAffected r)] else [])"

definition intervalOK :: "versionScheme \<Rightarrow> vrange \<Rightarrow> bool" where
  "intervalOK sch r \<longleftrightarrow> rScheme r = sch \<and> rIntroduced r \<noteq> [] \<and> (rFixed r = [] \<or> rLastAffected r = [])"

lemma convert_events_interval:
  assumes "intervalOK sch r"
  shows "convert_events sch cur isOpen (range_events r @ evs)
    = (if isOpen then [cur] else [])
      @ (if rFixed r \<noteq> [] \<or> rLastAffected r \<noteq> [] then r # convert_events sch (emptyRange sch) False evs
         else convert_events sch r True evs)"
  using assms by (cases r) (auto simp: range_events_def ev_def emptyRange_def intervalOK_def)

lemma convert_events_intervals:
  assumes "\<forall>r \<in> set rs. intervalOK sch r"
  shows "convert_events sch cur isOpen (concat (map range_events rs)) = (if isOpen then [cur] else []) @ rs"
  using assms
  by (induction rs arbitrary: cur isOpen) (simp_all add: convert_events_interval)

text \<open>
  The ranges of an OSV record come back exactly: from the event list of any sequence of
  intervals (introduced, then fixed, last affected or still open) the normalization rebuilds
  the intervals, in order, under the scheme the range type selects.
\<close>

theorem convertOSVRanges_exact:
  assumes "\<forall>r \<in> set rs. intervalOK sch r" and "\<not> EqualFold t ''GIT''"
    and "sch = (if EqualFold t ''SEMVER'' \<and> scheme eco \<noteq> SchemeSemver then SchemeSemver else [])"
  shows "convertOSVRanges [\<lparr> orType = t, orEvents = concat (map range_events rs) \<rparr>] eco = rs"
  using assms by (simp add: convert_events_intervals)

theorem convertOSVRanges_exact_witness:
  "convertOSVRanges [\<lparr> orType = ''ECOSYSTEM'', orEvents =
       [ev ''0'' [] [], ev [] ''1.2.13'' [], ev ''2.0'' [] [], ev [] [] ''2.0.4''] \<rparr>] ''debian''
   = [(emptyRange [])\<lparr> rIntroduced := ''0'', rFixed := ''1.2.13'' \<rparr>,
      (emptyRange [])\<lparr> rIntroduced := ''2.0'', rLastAffected := ''2.0.4'' \<rparr>]"
proof -
  let ?rs = "[(emptyRange [])\<lparr> rIntroduced := ''0'', rFixed := ''1.2.13'' \<rparr>,
      (emptyRange [])\<lparr> rIntroduced := ''2.0'', rLastAffected := ''2.0.4'' \<rparr>]"
  have ok: "\<forall>r \<in> set ?rs. intervalOK [] r" by (simp add: intervalOK_def emptyRange_def)
  have t: "\<not> EqualFold ''ECOSYSTEM'' ''GIT''" and
    s: "[] = (if EqualFold ''ECOSYSTEM'' ''SEMVER'' \<and> scheme ''debian'' \<noteq> SchemeSemver then SchemeSemver else [])"
    by code_simp+
  show ?thesis
    using convertOSVRanges_exact [OF ok t s] by (simp add: range_events_def emptyRange_def)
qed

lemma severityFromOSV_loop_NaN:
  "severityFromOSV_loop pw (Some d) ss = Some b \<Longrightarrow> cvssScore d = NaN \<Longrightarrow> b = d"
  by (induction ss) (auto split: option.splits)

lemma flt_best: "flt b c \<Longrightarrow> \<not> flt d c \<Longrightarrow> \<not> flt b d \<Longrightarrow> d = NaN"
  by (cases b; cases c; cases d) (auto split: if_splits)

lemma severityFromOSV_loop_max:
  assumes "severityFromOSV_loop pw best ss = Some b"
  shows "(best = Some b \<or> (\<exists>s \<in> set ss. ParseCVSSVector pw s = Some b))
    \<and> (\<forall>c. best = Some c \<or> (\<exists>s \<in> set ss. ParseCVSSVector pw s = Some c) \<longrightarrow> \<not> flt (cvssScore b) (cvssScore c))"
  using assms
proof (induction ss arbitrary: best)
  case (Cons s ss)
  show ?case
  proof (cases "ParseCVSSVector pw s")
    case None
    then show ?thesis using Cons by simp
  next
    case (Some c)
    show ?thesis
    proof (cases best)
      case None
      then show ?thesis using Cons.IH [of "Some c"] Cons.prems Some by auto
    next
      case (Some d)
      let ?n = "if flt (cvssScore d) (cvssScore c) then Some c else Some d"
      have "severityFromOSV_loop pw ?n ss = Some b"
        using Cons.prems Some \<open>ParseCVSSVector pw s = Some c\<close> by simp
      note IH = Cons.IH [OF this]
      have up: "\<not> flt (cvssScore b) (cvssScore c)" "\<not> flt (cvssScore b) (cvssScore d)"
      proof -
        show "\<not> flt (cvssScore b) (cvssScore d)"
          using IH flt_trans [of "cvssScore b" "cvssScore d" "cvssScore c"] by (auto split: if_splits)
        then show "\<not> flt (cvssScore b) (cvssScore c)"
          using IH \<open>severityFromOSV_loop pw ?n ss = Some b\<close> flt_best [of "cvssScore b" "cvssScore c" "cvssScore d"]
            severityFromOSV_loop_NaN [of pw d ss b]
          by (cases "flt (cvssScore d) (cvssScore c)") auto
      qed
      then show ?thesis using IH Some \<open>ParseCVSSVector pw s = Some c\<close> up by (auto split: if_splits)
    qed
  qed
qed simp

lemma severityFromOSV_loop_None:
  "severityFromOSV_loop pw best ss = None \<longleftrightarrow> best = None \<and> (\<forall>s \<in> set ss. ParseCVSSVector pw s = None)"
  by (induction ss arbitrary: best) (auto split: option.splits)

text \<open>
  The highest-scoring CVSS vector of a record decides: the metric kept is one of the parsed
  vectors, none scores more, and the severity is the band of its score; the severity word is
  used only when no vector parses.
\<close>

theorem severityFromOSV_highest:
  "case severityFromOSV pw rec of
     (Some b, sev) \<Rightarrow> (\<exists>s \<in> set (osvSeverity rec). ParseCVSSVector pw s = Some b)
        \<and> \<not> (\<exists>s \<in> set (osvSeverity rec). \<exists>c. ParseCVSSVector pw s = Some c \<and> flt (cvssScore b) (cvssScore c))
        \<and> sev = SeverityFromScore (cvssScore b)
   | (None, sev) \<Rightarrow> (\<forall>s \<in> set (osvSeverity rec). ParseCVSSVector pw s = None)
        \<and> sev = NormalizeSeverityWord (osvDBSeverity rec)"
proof (cases "severityFromOSV_loop pw None (osvSeverity rec)")
  case None
  then have "severityFromOSV pw rec = (None, NormalizeSeverityWord (osvDBSeverity rec))"
    by (simp add: severityFromOSV_def)
  then show ?thesis using None by (simp add: severityFromOSV_loop_None)
next
  case (Some b)
  with severityFromOSV_loop_max [OF Some] show ?thesis by (auto simp: severityFromOSV_def)
qed

definition wordOnly :: osvRecord where
  "wordOnly = \<lparr> osvID = ''X'', osvAliases = [], osvSummary = [], osvDetails = [], osvModified = [],
     osvPublished = [], osvSeverity = [''CVSS:2/AV:N''], osvAffecteds = [], osvReferences = [],
     osvDBSeverity = ''Moderate'', osvCWEIDs = [] \<rparr>"

theorem severityFromOSV_highest_witness:
  "severityFromOSV (\<lambda>x y. Fin 0) wordOnly = (None, SevMedium)"
proof -
  have none: "ParseCVSSVector (\<lambda>x y. Fin 0) ''CVSS:2/AV:N'' = None" by code_simp
  have w: "NormalizeSeverityWord (osvDBSeverity wordOnly) = SevMedium" by code_simp
  obtain c sev where cs: "severityFromOSV (\<lambda>x y. Fin 0) wordOnly = (c, sev)" by fastforce
  with severityFromOSV_highest [of wordOnly "\<lambda>x y. Fin 0"] none w
  show ?thesis by (auto simp: wordOnly_def split: option.splits)
qed

text \<open>
  Advisories of Rocky Linux and AlmaLinux are stored under \<open>rhel\<close>, but a package of such an
  image asks for its own distribution: the store's advisories never match it. The same holds
  for Chainguard images, whose advisories are stored under \<open>wolfi\<close>.
\<close>

theorem distro_ecosystem_mismatch:
  "\<not> covers (the (ParsePURL (purl ''rpm'' ''rocky'' ''openssl'' ''3.0.7-1.el9'' [])))
       (sampleAdvisory ''RLSA-1'' (mapOSVEcosystem ''Rocky Linux:9'') ''openssl'' [])
   \<and> \<not> covers (the (ParsePURL (purl ''rpm'' ''almalinux'' ''openssl'' ''3.0.7-1.el9'' [])))
       (sampleAdvisory ''ALSA-1'' (mapOSVEcosystem ''AlmaLinux:9'') ''openssl'' [])
   \<and> \<not> covers (the (ParsePURL (purl ''apk'' ''chainguard'' ''openssl'' ''3.0.7-r0'' [])))
       (sampleAdvisory ''CGA-1'' (mapOSVEcosystem ''Chainguard'') ''openssl'' [])"
  by (intro conjI; code_simp)

subsection \<open>The alias merge\<close>

lemma upper_upper [simp]: "strings_ToUpper (strings_ToUpper s) = strings_ToUpper s"
  by (auto simp: strings_ToUpper_def upperByte_def)

lemma isCVE_upper [simp]: "isCVE (strings_ToUpper i) = isCVE i"
  by (simp add: isCVE_def)

lemma isCVE_Nil [simp]: "\<not> isCVE []"
  by (simp add: isCVE_def strings_HasPrefix_def strings_ToUpper_def)

lemma find_append: "List.find P (xs @ ys) = (case List.find P xs of Some x \<Rightarrow> Some x | None \<Rightarrow> List.find P ys)"
  by (induction xs) auto

lemma find_dedup_loop:
  "(\<forall>x \<in> set seen. \<not> P x) \<Longrightarrow> List.find P (dedup_loop seen xs) = List.find P xs"
  by (induction seen xs rule: dedup_loop.induct) auto

lemma find_dedupStrings: "\<not> P [] \<Longrightarrow> List.find P (dedupStrings xs) = List.find P xs"
proof -
  assume n: "\<not> P []"
  have "List.find P (filter (\<lambda>s. s \<noteq> []) xs) = List.find P xs"
    using n by (induction xs) auto
  then show ?thesis by (simp add: dedupStrings_def dedupStrings_loop_eq find_dedup_loop)
qed

text \<open>The group key survives merging and the final clean-up.\<close>

lemma canonicalID_cve: "isCVE (canonicalID is) \<longleftrightarrow> List.find isCVE is \<noteq> None"
proof (cases "List.find isCVE is")
  case None
  then show ?thesis by (cases "is") (auto simp: canonicalID_def split: if_splits)
next
  case (Some i)
  then have "isCVE i" by (auto simp: find_Some_iff)
  then show ?thesis using Some by (simp add: canonicalID_def)
qed

lemma mergeKey_merge:
  assumes "canonicalID (ids src) = canonicalID (ids dst)" and "advID dst \<noteq> []" and "advID src \<noteq> []"
  shows "mergeKey (mergeAdvisory dst src) = mergeKey dst"
proof -
  have "canonicalID (ids (mergeAdvisory dst src)) = canonicalID (ids dst)"
  proof (cases "isCVE (advID dst)")
    case True
    then show ?thesis using assms by (simp add: mergeAdvisory_def ids_def canonicalID_def Let_def)
  next
    case False
    note dst = False
    show ?thesis
    proof (cases "isCVE (advID src)")
      case True
      then show ?thesis using assms dst by (simp add: mergeAdvisory_def ids_def canonicalID_def Let_def)
    next
      case False
      have "(List.find isCVE (advAliases src) = None) = (List.find isCVE (advAliases dst) = None)"
        using canonicalID_cve [of "ids src"] canonicalID_cve [of "ids dst"] assms dst False
        by (cases "List.find isCVE (advAliases src)"; cases "List.find isCVE (advAliases dst)")
          (auto simp: ids_def)
      then show ?thesis
        using assms dst False
        by (cases "List.find isCVE (advAliases dst)")
          (simp_all add: mergeAdvisory_def ids_def canonicalID_def Let_def find_append)
    qed
  qed
  then show ?thesis by (simp add: mergeKey_def) (simp add: mergeAdvisory_def Let_def)
qed

lemma mergeKey_finish: "advID g \<noteq> [] \<Longrightarrow> mergeKey (merge_finish g) = mergeKey g"
  by (simp add: mergeKey_def merge_finish_def ids_def canonicalID_def find_dedupStrings split: option.splits)

text \<open>
  Records the merge can tell apart by their key: an identifier, and no bar in the ecosystem or
  package name.
\<close>

definition advOK :: "advisory \<Rightarrow> bool" where
  "advOK a \<longleftrightarrow> advID a \<noteq> [] \<and> CHR ''|'' \<notin> set (advEcosystem a) \<and> CHR ''|'' \<notin> set (advPackage a)"

definition samePackage :: "advisory \<Rightarrow> advisory \<Rightarrow> bool" where
  "samePackage a g \<longleftrightarrow> advEcosystem a = advEcosystem g \<and> advPackage a = advPackage g"

text \<open>\<open>g\<close> says at least what \<open>a\<close> says.\<close>

definition absorbs :: "advisory \<Rightarrow> advisory \<Rightarrow> bool" where
  "absorbs g a \<longleftrightarrow> samePackage a g \<and> set (advRanges a) \<subseteq> set (advRanges g)
     \<and> Rank (advSeverity a) \<le> Rank (advSeverity g) \<and> set (ids a) - {[]} \<subseteq> set (ids g)"

lemma bar_split:
  "a @ CHR ''|'' # b = a' @ CHR ''|'' # b' \<Longrightarrow> CHR ''|'' \<notin> set a \<Longrightarrow> CHR ''|'' \<notin> set a' \<Longrightarrow> a = a' \<and> b = b'"
  by (metis cut_byte_append option.inject prod.inject)

lemma mergeKey_eq:
  assumes "advOK a" and "advOK g" and "mergeKey a = mergeKey g"
  shows "samePackage a g \<and> canonicalID (ids a) = canonicalID (ids g)"
proof -
  have k: "advEcosystem a @ CHR ''|'' # (advPackage a @ CHR ''|'' # canonicalID (ids a))
      = advEcosystem g @ CHR ''|'' # (advPackage g @ CHR ''|'' # canonicalID (ids g))"
    using assms(3) by (simp add: mergeKey_def)
  have "advEcosystem a = advEcosystem g \<and> advPackage a @ CHR ''|'' # canonicalID (ids a)
      = advPackage g @ CHR ''|'' # canonicalID (ids g)"
    using bar_split [OF k] assms(1,2) by (simp add: advOK_def)
  then show ?thesis
    using bar_split [of "advPackage a" "canonicalID (ids a)" "advPackage g" "canonicalID (ids g)"] assms(1,2)
    by (simp add: advOK_def samePackage_def)
qed

lemma merge_fields [simp]:
  "advEcosystem (mergeAdvisory g a) = advEcosystem g" "advPackage (mergeAdvisory g a) = advPackage g"
  "advRanges (mergeAdvisory g a) = advRanges g @ advRanges a"
  by (simp_all add: mergeAdvisory_def Let_def)

lemma absorbs_refl: "absorbs a a"
  by (simp add: absorbs_def samePackage_def)

lemma absorbs_dst: "absorbs g a \<Longrightarrow> absorbs (mergeAdvisory g b) a"
  by (auto simp: absorbs_def samePackage_def mergeAdvisory_def ids_def Let_def split: if_splits)

lemma absorbs_src: "samePackage a g \<Longrightarrow> absorbs (mergeAdvisory g a) a"
  by (auto simp: absorbs_def samePackage_def mergeAdvisory_def ids_def Let_def)

lemma absorbs_finish: "absorbs g a \<Longrightarrow> absorbs (merge_finish g) a"
  by (auto simp: absorbs_def samePackage_def merge_finish_def ids_def split: if_splits)

definition merge_inv ::
    "string list \<Rightarrow> (string \<Rightarrow> advisory option) \<Rightarrow> advisory set \<Rightarrow> bool" where
  "merge_inv order groups seen \<longleftrightarrow> distinct order \<and> set order = dom groups
     \<and> (\<forall>k g. groups k = Some g \<longrightarrow> mergeKey g = k \<and> advOK g
          \<and> (\<forall>r \<in> set (advRanges g). \<exists>a \<in> seen. samePackage a g \<and> r \<in> set (advRanges a)))
     \<and> (\<forall>a \<in> seen. \<exists>g. groups (mergeKey a) = Some g \<and> absorbs g a)"

lemma merge_inv_new:
  assumes "merge_inv order groups seen" and "advOK a" and "groups (mergeKey a) = None"
  shows "merge_inv (order @ [mergeKey a]) (groups(mergeKey a \<mapsto> a)) (insert a seen)"
  using assms absorbs_refl [of a] unfolding merge_inv_def
  by (auto simp: samePackage_def domIff)

lemma merge_inv_merge:
  assumes "merge_inv order groups seen" and "advOK a" and g: "groups (mergeKey a) = Some g"
  shows "merge_inv order (groups(mergeKey a \<mapsto> mergeAdvisory g a)) (insert a seen)"
proof -
  have ok: "advOK g" and key: "mergeKey g = mergeKey a"
    using assms(1) g by (auto simp: merge_inv_def)
  note same = mergeKey_eq [OF assms(2) ok key [symmetric]]
  have key': "mergeKey (mergeAdvisory g a) = mergeKey a"
    using mergeKey_merge [of a g] same ok assms(2) key by (simp add: advOK_def)
  have ok': "advOK (mergeAdvisory g a)"
    using ok assms(2) by (simp add: advOK_def mergeAdvisory_def Let_def)
  have ranges: "\<forall>r \<in> set (advRanges (mergeAdvisory g a)).
      \<exists>b \<in> insert a seen. samePackage b (mergeAdvisory g a) \<and> r \<in> set (advRanges b)"
    using assms(1) g same unfolding merge_inv_def by (auto simp: samePackage_def)
  have seen: "\<exists>h. (groups(mergeKey a \<mapsto> mergeAdvisory g a)) (mergeKey b) = Some h \<and> absorbs h b"
    if "b \<in> insert a seen" for b
    using that assms(1) g same absorbs_src [of a g] absorbs_dst [of g b a]
    unfolding merge_inv_def by (cases "mergeKey b = mergeKey a") auto
  have dom: "set order = dom (groups(mergeKey a \<mapsto> mergeAdvisory g a))" "distinct order"
    using assms(1) g by (auto simp: merge_inv_def)
  have rest: "mergeKey h = k \<and> advOK h \<and> (\<forall>r \<in> set (advRanges h). \<exists>b \<in> insert a seen. samePackage b h \<and> r \<in> set (advRanges b))"
    if "(groups(mergeKey a \<mapsto> mergeAdvisory g a)) k = Some h" for k h
  proof (cases "k = mergeKey a")
    case True
    then show ?thesis using that key' ok' ranges by simp
  next
    case False
    then have "groups k = Some h" using that by simp
    then show ?thesis using assms(1) unfolding merge_inv_def by blast
  qed
  show ?thesis unfolding merge_inv_def using dom rest seen by blast
qed

lemma merge_loop_inv:
  "merge_inv order groups seen \<Longrightarrow> \<forall>a \<in> set as. advOK a \<Longrightarrow> merge_loop order groups as = (order', groups')
    \<Longrightarrow> merge_inv order' groups' (seen \<union> set as)"
proof (induction as arbitrary: order groups seen)
  case (Cons a as)
  show ?case
  proof (cases "groups (mergeKey a)")
    case None
    then show ?thesis
      using Cons.IH [OF merge_inv_new [OF Cons.prems(1) _ None]] Cons.prems by (simp del: fun_upd_apply)
  next
    case (Some g)
    then show ?thesis
      using Cons.IH [OF merge_inv_merge [OF Cons.prems(1) _ Some]] Cons.prems by (simp del: fun_upd_apply)
  qed
qed simp


definition ghsa :: advisory where
  "ghsa = (sampleAdvisory ''GHSA-x'' ''npm'' ''left-pad'' [])\<lparr> advAliases := [''CVE-2020-1''], advSeverity := SevMedium \<rparr>"

definition nvdAdv :: advisory where
  "nvdAdv = sampleAdvisory ''CVE-2020-1'' ''npm'' ''left-pad'' [(emptyRange [])\<lparr> rFixed := ''1.3'' \<rparr>]"


end
