(* ===== verification/VulnNvd.thy ===== *)
theory VulnNvd
  imports VulnFeeds
begin

text \<open>
  The NVD feed of \<^verbatim>\<open>internal/vulndb/nvd.go\<close>: CPE names, the version range of a match and the
  normalization of a decoded CVE object; and the CPE names \<^verbatim>\<open>internal/sbom/purl.go\<close> writes. The
  fetcher (network) is not modelled.
\<close>

subsection \<open>CPE names\<close>

fun splitCPE_loop :: "bool \<Rightarrow> string \<Rightarrow> string \<Rightarrow> string list" where
  "splitCPE_loop escaped cur [] = [cur]"
| "splitCPE_loop escaped cur (c # cs) =
     (if escaped then splitCPE_loop False (cur @ [c]) cs
      else if c = CHR 0x5C then splitCPE_loop True (cur @ [c]) cs
      else if c = CHR '':'' then cur # splitCPE_loop escaped [] cs
      else splitCPE_loop escaped (cur @ [c]) cs)"

definition splitCPE :: "string \<Rightarrow> string list" where
  "splitCPE s = splitCPE_loop False [] s"

fun unescapeCPE :: "string \<Rightarrow> string" where
  "unescapeCPE [] = []"
| "unescapeCPE [c] = [c]"
| "unescapeCPE (c # d # cs) = (if c = CHR 0x5C then d # unescapeCPE cs else c # unescapeCPE (d # cs))"

definition parseCPE :: "string \<Rightarrow> (string \<times> string \<times> string \<times> string) option" where
  "parseCPE criteria =
     (let fields = splitCPE criteria in
      if length fields < 6 \<or> fields ! 0 \<noteq> ''cpe'' then None
      else Some (fields ! 2, unescapeCPE (fields ! 3), unescapeCPE (fields ! 4), unescapeCPE (fields ! 5)))"

definition cpeSpecial :: string where
  "cpeSpecial = '':/?*'' @ [CHR 0x5C] @ ''()[]{}!'' @ [CHR 0x22] @ ''#$%&'' @ [CHR 0x27] @ ''+,.;<=>@^'' @ [CHR 0x60] @ ''|~''"

fun cpeEscape :: "string \<Rightarrow> string" where
  "cpeEscape [] = []"
| "cpeEscape (r # rs) =
     (if r \<in> set cpeSpecial then CHR 0x5C # r # cpeEscape rs
      else if r = CHR '' '' then CHR ''_'' # cpeEscape rs
      else r # cpeEscape rs)"

definition cpe_field :: "string \<Rightarrow> string" where
  "cpe_field s = (if s = [] then ''*'' else cpeEscape (strings_ToLower s))"

definition cpe23 :: "string \<Rightarrow> string \<Rightarrow> string \<Rightarrow> string" where
  "cpe23 vendor product version =
     ''cpe:2.3:a:'' @ cpe_field vendor @ '':'' @ cpe_field product @ '':'' @ cpe_field version @ '':*:*:*:*:*:*:*''"

text \<open>A field written by the encoder ends at the next bare colon.\<close>

lemma splitCPE_escaped:
  "splitCPE_loop False cur (cpeEscape s @ CHR '':'' # rest) = (cur @ cpeEscape s) # splitCPE_loop False [] rest"
  by (induction s arbitrary: cur) (auto simp: cpeSpecial_def)

lemma splitCPE_field:
  "splitCPE_loop False [] (cpe_field s @ CHR '':'' # rest) = cpe_field s # splitCPE_loop False [] rest"
  by (simp add: cpe_field_def splitCPE_escaped)

lemma unescapeCPE_other: "c \<noteq> CHR 0x5C \<Longrightarrow> unescapeCPE (c # s) = c # unescapeCPE s"
  by (cases s) auto

text \<open>What a field reads back as: a space has become an underscore, an empty field a star.\<close>

definition cpe_text :: "string \<Rightarrow> string" where
  "cpe_text s = (if s = [] then ''*'' else map (\<lambda>c. if c = CHR '' '' then CHR ''_'' else c) (strings_ToLower s))"

lemma unescape_cpeEscape:
  "unescapeCPE (cpeEscape s) = map (\<lambda>c. if c = CHR '' '' then CHR ''_'' else c) s"
proof (induction s)
  case (Cons r rs)
  have "CHR '' '' \<notin> set cpeSpecial" by (simp add: cpeSpecial_def)
  moreover have "r \<noteq> CHR 0x5C" if "r \<notin> set cpeSpecial" using that by (auto simp: cpeSpecial_def)
  ultimately show ?case using Cons by (auto simp: unescapeCPE_other)
qed simp

lemma unescape_field: "unescapeCPE (cpe_field s) = cpe_text s"
  by (simp add: cpe_field_def cpe_text_def unescape_cpeEscape)

text \<open>
  A CPE name written for a component reads back as its lower-cased vendor, product and
  version, whatever punctuation they hold (colons and backslashes included); only a space is
  replaced by an underscore.
\<close>

theorem parseCPE_cpe23:
  "parseCPE (cpe23 vendor product version) = Some (''a'', cpe_text vendor, cpe_text product, cpe_text version)"
proof -
  have pre: "splitCPE_loop False [] (''cpe:2.3:a:'' @ s) = ''cpe'' # ''2.3'' # ''a'' # splitCPE_loop False [] s" for s
    by simp
  have "splitCPE (cpe23 vendor product version)
      = ''cpe'' # ''2.3'' # ''a'' # cpe_field vendor # cpe_field product # cpe_field version
        # splitCPE_loop False [] ''*:*:*:*:*:*:*''"
    unfolding splitCPE_def cpe23_def pre
    using splitCPE_field [of vendor] splitCPE_field [of product] splitCPE_field [of version] by simp
  then show ?thesis by (simp add: parseCPE_def unescape_field)
qed

subsection \<open>Ranges of a match\<close>

record nvdCPEMatch =
  cmVulnerable :: bool
  cmCriteria :: string
  cmStartIncluding :: string
  cmStartExcluding :: string
  cmEndIncluding :: string
  cmEndExcluding :: string

definition rangeFromCPEMatch :: "nvdCPEMatch \<Rightarrow> string \<Rightarrow> vrange" where
  "rangeFromCPEMatch m version =
     (let introduced = (if cmStartIncluding m \<noteq> [] then cmStartIncluding m
            else if cmStartExcluding m \<noteq> [] then cmStartExcluding m else []);
          r = \<lparr> rScheme = SchemeGeneric, rIntroduced = introduced,
                rFixed = cmEndExcluding m, rLastAffected = cmEndIncluding m \<rparr>
      in if rIntroduced r = [] \<and> rFixed r = [] \<and> rLastAffected r = [] then
           (if version \<noteq> [] \<and> version \<noteq> ''*'' \<and> version \<noteq> ''-''
            then r\<lparr> rIntroduced := version, rLastAffected := version \<rparr>
            else r\<lparr> rIntroduced := ''0'' \<rparr>)
         else r)"

text \<open>The versions an applicability statement of the NVD names.\<close>

definition cpeAffected :: "nvdCPEMatch \<Rightarrow> string \<Rightarrow> string \<Rightarrow> bool" where
  "cpeAffected m version v \<longleftrightarrow>
     (cmStartIncluding m \<noteq> [] \<longrightarrow> 0 \<le> Compare SchemeGeneric v (cmStartIncluding m))
     \<and> (cmStartExcluding m \<noteq> [] \<longrightarrow> 0 < Compare SchemeGeneric v (cmStartExcluding m))
     \<and> (cmEndIncluding m \<noteq> [] \<longrightarrow> Compare SchemeGeneric v (cmEndIncluding m) \<le> 0)
     \<and> (cmEndExcluding m \<noteq> [] \<longrightarrow> Compare SchemeGeneric v (cmEndExcluding m) < 0)
     \<and> (cmStartIncluding m = [] \<and> cmStartExcluding m = [] \<and> cmEndIncluding m = [] \<and> cmEndExcluding m = []
          \<and> version \<notin> {[], ''*'', ''-''} \<longrightarrow> Compare SchemeGeneric v version = 0)"

text \<open>Statements the range type can express: no exclusive start, one end, no bound called 0.\<close>

definition cpeExact :: "nvdCPEMatch \<Rightarrow> string \<Rightarrow> bool" where
  "cpeExact m version \<longleftrightarrow> cmStartExcluding m = [] \<and> (cmEndIncluding m = [] \<or> cmEndExcluding m = [])
     \<and> cmStartIncluding m \<noteq> ''0'' \<and> version \<noteq> ''0''"

text \<open>
  The range made of an NVD match contains every version the match names, and exactly those
  when the match has no exclusive lower bound and one upper bound.
\<close>

theorem rangeFromCPEMatch_covers:
  "(cpeAffected m version v \<longrightarrow> inRange SchemeGeneric v (rangeFromCPEMatch m version))
   \<and> (cpeExact m version \<longrightarrow> inRange SchemeGeneric v (rangeFromCPEMatch m version) \<longrightarrow> cpeAffected m version v)"
proof
  show "cpeAffected m version v \<longrightarrow> inRange SchemeGeneric v (rangeFromCPEMatch m version)"
    by (cases m) (auto simp: rangeFromCPEMatch_def inRange_def cpeAffected_def Let_def)
  show "cpeExact m version \<longrightarrow> inRange SchemeGeneric v (rangeFromCPEMatch m version) \<longrightarrow> cpeAffected m version v"
    by (cases m) (auto simp: rangeFromCPEMatch_def inRange_def cpeAffected_def cpeExact_def Let_def split: if_splits)
qed

theorem rangeFromCPEMatch_covers_witness:
  "inRange SchemeGeneric ''1.4.2''
     (rangeFromCPEMatch \<lparr> cmVulnerable = True, cmCriteria = [], cmStartIncluding = ''1.0'',
        cmStartExcluding = [], cmEndIncluding = [], cmEndExcluding = ''1.10'' \<rparr> ''*'')"
proof -
  let ?m = "\<lparr> cmVulnerable = True, cmCriteria = [], cmStartIncluding = ''1.0'',
        cmStartExcluding = [], cmEndIncluding = [], cmEndExcluding = ''1.10'' \<rparr>"
  have "cpeAffected ?m ''*'' ''1.4.2''" by code_simp
  then show ?thesis using rangeFromCPEMatch_covers [of ?m "''*''" "''1.4.2''"] by blast
qed

subsection \<open>CVE objects\<close>

record nvdMetric =
  nmVersion :: string
  nmVector :: string
  nmScore :: float64
  nmDataSeverity :: string
  nmSeverity :: string

record nvdCVE =
  nvID :: string
  nvPublished :: string
  nvLastModified :: string
  nvDescriptions :: "(string \<times> string) list"
  nvV31 :: "nvdMetric list"
  nvV30 :: "nvdMetric list"
  nvV2 :: "nvdMetric list"
  nvWeaknesses :: "string list list"
  nvConfigurations :: "nvdCPEMatch list list list"
  nvReferences :: "string list"

definition severityFromWordOrScore :: "string \<Rightarrow> float64 \<Rightarrow> sevName" where
  "severityFromWordOrScore word score =
     (if word \<noteq> [] \<and> NormalizeSeverityWord word \<noteq> SevUnknown then NormalizeSeverityWord word
      else SeverityFromScore score)"

definition nvd_pick :: "nvdMetric list \<Rightarrow> (cvss \<times> string) option" where
  "nvd_pick metrics = (case metrics of [] \<Rightarrow> None
     | m # _ \<Rightarrow> Some (\<lparr> cvssVersion = nmVersion m, cvssVector = nmVector m, cvssScore = nmScore m \<rparr>,
                     firstNonEmpty (nmDataSeverity m) (nmSeverity m)))"

definition severityFromNVD :: "nvdCVE \<Rightarrow> cvss option \<times> sevName" where
  "severityFromNVD cve =
     (case nvd_pick (nvV31 cve) of
        Some (c, word) \<Rightarrow> (Some c, severityFromWordOrScore word (cvssScore c))
      | None \<Rightarrow> (case nvd_pick (nvV30 cve) of
          Some (c, word) \<Rightarrow> (Some c, severityFromWordOrScore word (cvssScore c))
        | None \<Rightarrow> (case nvd_pick (nvV2 cve) of
            Some (c, word) \<Rightarrow> (Some c, severityFromWordOrScore word (cvssScore c))
          | None \<Rightarrow> (None, SevUnknown))))"

text \<open>The match a loop iteration keeps: its group key and range.\<close>

definition nvd_match :: "nvdCPEMatch \<Rightarrow> (string \<times> vrange) option" where
  "nvd_match m =
     (if \<not> cmVulnerable m then None
      else case parseCPE (cmCriteria m) of
        None \<Rightarrow> None
      | Some (part, vendor, product, version) \<Rightarrow>
          if part = ''h'' then None
          else if vendor = [] \<or> product = [] then None
          else Some (vendor @ '':'' @ product, rangeFromCPEMatch m version))"

fun nvd_groups ::
    "string list \<Rightarrow> (string \<Rightarrow> vrange list option) \<Rightarrow> nvdCPEMatch list \<Rightarrow> string list \<times> (string \<Rightarrow> vrange list option)" where
  "nvd_groups order groups [] = (order, groups)"
| "nvd_groups order groups (m # ms) =
     (case nvd_match m of
        None \<Rightarrow> nvd_groups order groups ms
      | Some (key, r) \<Rightarrow>
          (case groups key of
             None \<Rightarrow> nvd_groups (order @ [key]) (groups(key \<mapsto> [r])) ms
           | Some rs \<Rightarrow> nvd_groups order (groups(key \<mapsto> (if r \<in> set rs then rs else rs @ [r]))) ms))"

definition pkg_less :: "advisory \<Rightarrow> advisory \<Rightarrow> bool" where
  "pkg_less a b = str_less (advPackage a) (advPackage b)"

definition nvd_advisory :: "nvdCVE \<Rightarrow> string \<Rightarrow> vrange list \<Rightarrow> advisory" where
  "nvd_advisory cve key ranges =
     (let summary = (case List.find (\<lambda>d. fst d = ''en'') (nvDescriptions cve) of Some d \<Rightarrow> snd d | None \<Rightarrow> []);
          (cv, sev) = severityFromNVD cve;
          cwes = dedupStrings (filter (\<lambda>d. strings_HasPrefix d ''CWE-'') (concat (nvWeaknesses cve)));
          refs = dedupStrings (filter (\<lambda>r. r \<noteq> []) (nvReferences cve))
      in \<lparr> advID = nvID cve, advAliases = [], advSummary = summary, advEcosystem = ''cpe'', advPackage = key,
           advRanges = ranges, advSeverity = sev, advCVSS = cv, advCWEs = cwes, advSymbols = [],
           advReferences = refs, advSource = ''nvd'', advPublished = nvPublished cve, advModified = nvLastModified cve \<rparr>)"

definition normalizeNVD :: "(bytes \<Rightarrow> nvdCVE option) \<Rightarrow> bytes \<Rightarrow> feed_err + advisory list" where
  "normalizeNVD unmarshal doc =
     (case unmarshal doc of
        None \<Rightarrow> Inl FeedParse
      | Some cve \<Rightarrow>
          if nvID cve = [] then Inl FeedMissingID
          else (case nvd_groups [] Map.empty (concat (concat (nvConfigurations cve))) of
            (order, groups) \<Rightarrow>
              Inr (sort_stable pkg_less (map (\<lambda>k. nvd_advisory cve k (the (groups k))) order))))"

text \<open>The range lists of the groups, as a function of the matches.\<close>

definition groups_ok :: "string list \<Rightarrow> (string \<Rightarrow> vrange list option) \<Rightarrow> nvdCPEMatch list \<Rightarrow> bool" where
  "groups_ok order groups seen \<longleftrightarrow> distinct order \<and> set order = dom groups
     \<and> (\<forall>k r. (\<exists>rs. groups k = Some rs \<and> r \<in> set rs) \<longleftrightarrow> (\<exists>m \<in> set seen. nvd_match m = Some (k, r)))"

lemma groups_ok_step:
  assumes "groups_ok order groups seen" and "nvd_match m = Some (key, r)"
  shows "groups key = None \<Longrightarrow> groups_ok (order @ [key]) (groups(key \<mapsto> [r])) (seen @ [m])"
    and "groups key = Some rs \<Longrightarrow> groups_ok order (groups(key \<mapsto> (if r \<in> set rs then rs else rs @ [r]))) (seen @ [m])"
proof -
  have o: "distinct order" "set order = dom groups"
    and spec: "(\<exists>rs. groups k = Some rs \<and> x \<in> set rs) \<longleftrightarrow> (\<exists>m \<in> set seen. nvd_match m = Some (k, x))" for k x
    using assms(1) by (auto simp: groups_ok_def)
  have seen': "(\<exists>m' \<in> set (seen @ [m]). nvd_match m' = Some (k, x))
      \<longleftrightarrow> (\<exists>rs. groups k = Some rs \<and> x \<in> set rs) \<or> (k = key \<and> x = r)" for k x
    using spec [of k x] assms(2) by auto
  show "groups_ok (order @ [key]) (groups(key \<mapsto> [r])) (seen @ [m])" if "groups key = None"
    unfolding groups_ok_def seen' using o that by (auto simp: domIff)
  show "groups_ok order (groups(key \<mapsto> (if r \<in> set rs then rs else rs @ [r]))) (seen @ [m])"
    if "groups key = Some rs"
    unfolding groups_ok_def seen' using o that by auto
qed

lemma nvd_groups_ok:
  "groups_ok order groups seen \<Longrightarrow> nvd_groups order groups ms = (order', groups') \<Longrightarrow> groups_ok order' groups' (seen @ ms)"
proof (induction ms arbitrary: order groups seen)
  case (Cons m ms)
  show ?case
  proof (cases "nvd_match m")
    case None
    then have "groups_ok order groups (seen @ [m])" using Cons.prems(1) by (simp add: groups_ok_def)
    then show ?thesis using Cons.IH [of order groups "seen @ [m]"] Cons.prems(2) None by simp
  next
    case (Some kr)
    then obtain key r where kr: "nvd_match m = Some (key, r)" by (cases kr) simp
    note step = groups_ok_step [OF Cons.prems(1) kr]
    show ?thesis
    proof (cases "groups key")
      case None
      then show ?thesis using Cons.IH [OF step(1) [OF None]] Cons.prems(2) kr by (simp del: fun_upd_apply)
    next
      case (Some rs)
      then show ?thesis using Cons.IH [OF step(2) [OF Some]] Cons.prems(2) kr by (simp del: fun_upd_apply)
    qed
  qed
qed simp

text \<open>
  Normalizing a CVE object gives one advisory per affected product: products are distinct, and
  an advisory has a range exactly when a vulnerable, non-hardware match of its product gives it.
\<close>

theorem normalizeNVD_complete:
  assumes "normalizeNVD unmarshal doc = Inr advs" and "unmarshal doc = Some cve"
  shows "distinct (map advPackage advs)
    \<and> (\<forall>pkg r. (\<exists>a \<in> set advs. advPackage a = pkg \<and> r \<in> set (advRanges a))
         \<longleftrightarrow> (\<exists>m \<in> set (concat (concat (nvConfigurations cve))). nvd_match m = Some (pkg, r)))"
proof -
  obtain order groups where g: "nvd_groups [] Map.empty (concat (concat (nvConfigurations cve))) = (order, groups)"
    by fastforce
  let ?out = "map (\<lambda>k. nvd_advisory cve k (the (groups k))) order"
  have advs: "advs = sort_stable pkg_less ?out"
    using assms g by (auto simp: normalizeNVD_def split: if_splits)
  have ok: "groups_ok order groups (concat (concat (nvConfigurations cve)))"
    using nvd_groups_ok [OF _ g, of "[]"] by (simp add: groups_ok_def)
  have fields: "advPackage (nvd_advisory cve k rs) = k" "advRanges (nvd_advisory cve k rs) = rs" for k rs
    by (simp_all add: nvd_advisory_def Let_def split: prod.splits)
  have "mset (map advPackage advs) = mset order"
    unfolding advs mset_map mset_sort_stable by (simp add: image_mset.compositionality comp_def fields)
  then have "distinct (map advPackage advs)"
    using ok mset_eq_imp_distinct_iff unfolding groups_ok_def by blast
  moreover have "(\<exists>a \<in> set advs. advPackage a = pkg \<and> r \<in> set (advRanges a))
      \<longleftrightarrow> (\<exists>rs. groups pkg = Some rs \<and> r \<in> set rs)" for pkg r
  proof -
    have dom: "set order = dom groups" using ok by (simp add: groups_ok_def)
    have "(\<exists>a \<in> set advs. advPackage a = pkg \<and> r \<in> set (advRanges a))
        \<longleftrightarrow> pkg \<in> set order \<and> r \<in> set (the (groups pkg))"
      unfolding advs set_sort_stable by (auto simp: fields)
    then show ?thesis by (auto simp: dom)
  qed
  ultimately show ?thesis using ok unfolding groups_ok_def by blast
qed

definition sampleCVE :: nvdCVE where
  "sampleCVE = \<lparr> nvID = ''CVE-2024-1'', nvPublished = [], nvLastModified = [], nvDescriptions = [(''en'', ''bug'')],
     nvV31 = [], nvV30 = [], nvV2 = [], nvWeaknesses = [],
     nvConfigurations = [[[\<lparr> cmVulnerable = True, cmCriteria = ''cpe:2.3:a:acme:tool:*:*'', cmStartIncluding = ''1.0'',
        cmStartExcluding = [], cmEndIncluding = [], cmEndExcluding = ''2.0'' \<rparr>]]], nvReferences = [] \<rparr>"

theorem normalizeNVD_complete_witness:
  "\<exists>advs. normalizeNVD (\<lambda>d. Some sampleCVE) [] = Inr advs
    \<and> (\<exists>a \<in> set advs. advPackage a = ''acme:tool'' \<and>
         \<lparr> rScheme = SchemeGeneric, rIntroduced = ''1.0'', rFixed = ''2.0'', rLastAffected = [] \<rparr> \<in> set (advRanges a))"
proof -
  let ?r = "\<lparr> rScheme = SchemeGeneric, rIntroduced = ''1.0'', rFixed = ''2.0'', rLastAffected = [] \<rparr>"
  have "\<not> nvID sampleCVE = []" by (simp add: sampleCVE_def)
  then obtain advs where a: "normalizeNVD (\<lambda>d. Some sampleCVE) [] = Inr advs"
    by (cases "nvd_groups [] Map.empty (concat (concat (nvConfigurations sampleCVE)))")
      (auto simp: normalizeNVD_def)
  have "\<exists>m \<in> set (concat (concat (nvConfigurations sampleCVE))). nvd_match m = Some (''acme:tool'', ?r)"
    by code_simp
  with normalizeNVD_complete [OF a refl] a show ?thesis by blast
qed

end
