(* ===== verification/GoEncoding.thy ===== *)
theory GoEncoding
  imports GoStrings "HOL-Library.Word"
begin

unbundle bit_operations_syntax

text \<open>
  The encodings of Go's standard library the signing code uses: \<^verbatim>\<open>encoding/hex\<close>,
  \<^verbatim>\<open>encoding/base64\<close> (standard alphabet, padded) and \<^verbatim>\<open>crypto/sha256\<close>, the latter as
  FIPS 180-4 defines it on 32-bit words.
\<close>

subsection \<open>Hexadecimal\<close>

definition hexChar :: "nat \<Rightarrow> char" where
  "hexChar n = (if n < 10 then char_of (48 + n) else char_of (87 + n))"

definition hexDigitVal :: "char \<Rightarrow> nat option" where
  "hexDigitVal c = (let b = byte c in
     if b \<ge> 48 \<and> b \<le> 57 then Some (b - 48)
     else if b \<ge> 97 \<and> b \<le> 102 then Some (b - 87)
     else if b \<ge> 65 \<and> b \<le> 70 then Some (b - 55)
     else None)"

fun hex_encode :: "bytes \<Rightarrow> string" where
  "hex_encode [] = []"
| "hex_encode (c # cs) = hexChar (byte c div 16) # hexChar (byte c mod 16) # hex_encode cs"

fun hex_decode :: "string \<Rightarrow> bytes option" where
  "hex_decode [] = Some []"
| "hex_decode [c] = None"
| "hex_decode (a # b # cs) =
     (case (hexDigitVal a, hexDigitVal b, hex_decode cs) of
        (Some x, Some y, Some r) \<Rightarrow> Some (char_of (16 * x + y) # r)
      | _ \<Rightarrow> None)"

lemma hexDigitVal_hexChar: "n < 16 \<Longrightarrow> hexDigitVal (hexChar n) = Some n"
  by (auto simp: hexDigitVal_def hexChar_def Let_def)

lemma hex_roundtrip [simp]: "hex_decode (hex_encode bs) = Some bs"
proof (induction bs)
  case (Cons c bs)
  have "byte c div 16 < 16" using byte_less [of c] by linarith
  moreover have "char_of (16 * (byte c div 16) + byte c mod 16) = c" by (simp add: mult.commute)
  ultimately show ?case using Cons by (simp add: hexDigitVal_hexChar)
qed simp

lemma hex_encode_inj: "hex_encode a = hex_encode b \<Longrightarrow> a = b"
  by (metis hex_roundtrip option.inject)

subsection \<open>Base64\<close>

definition b64_alphabet :: string where
  "b64_alphabet = ''ABCDEFGHIJKLMNOPQRSTUVWXYZabcdefghijklmnopqrstuvwxyz0123456789+/''"

definition b64char :: "nat \<Rightarrow> char" where
  "b64char n = b64_alphabet ! n"

definition b64val :: "char \<Rightarrow> nat option" where
  "b64val c = map_of (zip b64_alphabet [0..<64]) c"

fun b64_encode :: "bytes \<Rightarrow> string" where
  "b64_encode [] = []"
| "b64_encode [a] = [b64char (byte a div 4), b64char (byte a mod 4 * 16), CHR ''='', CHR ''='']"
| "b64_encode [a, b] = [b64char (byte a div 4), b64char (byte a mod 4 * 16 + byte b div 16),
     b64char (byte b mod 16 * 4), CHR ''='']"
| "b64_encode (a # b # c # cs) = b64char (byte a div 4) # b64char (byte a mod 4 * 16 + byte b div 16)
     # b64char (byte b mod 16 * 4 + byte c div 64) # b64char (byte c mod 64) # b64_encode cs"

text \<open>
  The decoder skips carriage returns and line feeds, takes padding only at the end, and does
  not look at the bits the padding leaves unused.
\<close>

fun b64_quads :: "string \<Rightarrow> bytes option" where
  "b64_quads [] = Some []"
| "b64_quads (p # q # r # s # cs) =
     (case (b64val p, b64val q) of
        (Some v, Some w) \<Rightarrow>
          let a = char_of (4 * v + w div 16) in
          if r = CHR ''='' then (if s = CHR ''='' \<and> cs = [] then Some [a] else None)
          else (case b64val r of
              None \<Rightarrow> None
            | Some x \<Rightarrow>
                let b = char_of (w mod 16 * 16 + x div 4) in
                if s = CHR ''='' then (if cs = [] then Some [a, b] else None)
                else (case (b64val s, b64_quads cs) of
                    (Some y, Some rest) \<Rightarrow> Some (a # b # char_of (x mod 4 * 64 + y) # rest)
                  | _ \<Rightarrow> None))
      | _ \<Rightarrow> None)"
| "b64_quads cs = None"

definition b64_decode :: "string \<Rightarrow> bytes option" where
  "b64_decode s = b64_quads (filter (\<lambda>c. c \<noteq> CHR 0x0D \<and> c \<noteq> CHR 0x0A) s)"

lemma b64val_b64char [simp]: "n < 64 \<Longrightarrow> b64val (b64char n) = Some n"
proof -
  assume n: "n < 64"
  have "distinct b64_alphabet" "length b64_alphabet = length [0..<64]" by code_simp+
  then have "map_of (zip b64_alphabet [0..<64]) (b64_alphabet ! n) = Some ([0..<64] ! n)"
    using n by (intro map_of_zip_nth) auto
  then show ?thesis using n by (simp add: b64val_def b64char_def)
qed

lemma b64char_plain [simp]:
  "n < 64 \<Longrightarrow> b64char n \<noteq> CHR ''=''" "n < 64 \<Longrightarrow> b64char n \<noteq> CHR 0x0D" "n < 64 \<Longrightarrow> b64char n \<noteq> CHR 0x0A"
proof -
  assume n: "n < 64"
  have "length b64_alphabet = 64" by code_simp
  then have "b64char n \<in> set b64_alphabet" using n by (simp add: b64char_def)
  moreover have "CHR ''='' \<notin> set b64_alphabet" "CHR 0x0D \<notin> set b64_alphabet" "CHR 0x0A \<notin> set b64_alphabet"
    by code_simp+
  ultimately show "b64char n \<noteq> CHR ''=''" "b64char n \<noteq> CHR 0x0D" "b64char n \<noteq> CHR 0x0A" by metis+
qed

lemma b64_sextets:
  fixes a b c :: char
  shows "byte a div 4 < 64" "byte a mod 4 * 16 + byte b div 16 < 64" "byte a mod 4 * 16 < 64"
    "byte b mod 16 * 4 + byte c div 64 < 64" "byte b mod 16 * 4 < 64" "byte c mod 64 < 64"
  using byte_less [of a] byte_less [of b] byte_less [of c] by linarith+

lemma b64_carries:
  fixes c :: char
  shows "byte c div 16 div 16 = 0" "byte c div 16 mod 16 = byte c div 16"
    "byte c div 64 div 4 = 0" "byte c div 64 mod 4 = byte c div 64"
proof -
  have "byte c div 16 < 16" "byte c div 64 < 4" using byte_less [of c] by linarith+
  then show "byte c div 16 div 16 = 0" "byte c div 16 mod 16 = byte c div 16"
    "byte c div 64 div 4 = 0" "byte c div 64 mod 4 = byte c div 64" by simp_all
qed

lemma b64_quads_encode: "b64_quads (b64_encode bs) = Some bs"
  by (induction bs rule: b64_encode.induct) (simp_all add: b64_sextets b64_carries Let_def)

lemma b64_encode_plain: "c \<in> set (b64_encode bs) \<Longrightarrow> c \<noteq> CHR 0x0D \<and> c \<noteq> CHR 0x0A"
  by (induction bs rule: b64_encode.induct) (auto simp: b64_sextets)

lemma b64_roundtrip [simp]: "b64_decode (b64_encode bs) = Some bs"
proof -
  have "filter (\<lambda>c. c \<noteq> CHR 0x0D \<and> c \<noteq> CHR 0x0A) (b64_encode bs) = b64_encode bs"
    using b64_encode_plain by (intro filter_True) blast
  then show ?thesis by (simp add: b64_decode_def b64_quads_encode)
qed

subsection \<open>SHA-256\<close>

type_synonym word32 = "32 word"

definition sha_k :: "word32 list" where
  "sha_k =
    [1116352408, 1899447441, 3049323471, 3921009573, 961987163, 1508970993, 2453635748, 2870763221,
     3624381080, 310598401, 607225278, 1426881987, 1925078388, 2162078206, 2614888103, 3248222580,
     3835390401, 4022224774, 264347078, 604807628, 770255983, 1249150122, 1555081692, 1996064986,
     2554220882, 2821834349, 2952996808, 3210313671, 3336571891, 3584528711, 113926993, 338241895,
     666307205, 773529912, 1294757372, 1396182291, 1695183700, 1986661051, 2177026350, 2456956037,
     2730485921, 2820302411, 3259730800, 3345764771, 3516065817, 3600352804, 4094571909, 275423344,
     430227734, 506948616, 659060556, 883997877, 958139571, 1322822218, 1537002063, 1747873779,
     1955562222, 2024104815, 2227730452, 2361852424, 2428436474, 2756734187, 3204031479, 3329325298]"

definition sha_init :: "word32 list" where
  "sha_init = [1779033703, 3144134277, 1013904242, 2773480762, 1359893119, 2600822924, 528734635, 1541459225]"

definition be_bytes :: "nat \<Rightarrow> nat \<Rightarrow> bytes" where
  "be_bytes k n = map (\<lambda>i. char_of (n div 256 ^ i mod 256)) (rev [0..<k])"

definition be_val :: "bytes \<Rightarrow> nat" where
  "be_val bs = foldl (\<lambda>a c. a * 256 + byte c) 0 bs"

definition sha_pad :: "bytes \<Rightarrow> bytes" where
  "sha_pad msg = msg @ [CHR 0x80] @ replicate ((119 - length msg mod 64) mod 64) (CHR 0x00)
     @ be_bytes 8 (8 * length msg mod 2 ^ 64)"

function chunks :: "nat \<Rightarrow> 'a list \<Rightarrow> 'a list list" where
  "chunks n xs = (if xs = [] \<or> n = 0 then [] else take n xs # chunks n (drop n xs))"
  by pat_completeness auto
termination by (relation "measure (length \<circ> snd)") auto

declare chunks.simps [simp del]

fun schedule :: "nat \<Rightarrow> word32 list \<Rightarrow> word32 list" where
  "schedule 0 ws = ws"
| "schedule (Suc k) ws =
     (let i = length ws;
          w15 = ws ! (i - 15); w2 = ws ! (i - 2);
          s0 = word_rotr 7 w15 XOR word_rotr 18 w15 XOR drop_bit 3 w15;
          s1 = word_rotr 17 w2 XOR word_rotr 19 w2 XOR drop_bit 10 w2
      in schedule k (ws @ [ws ! (i - 16) + s0 + ws ! (i - 7) + s1]))"

fun sha_round :: "word32 list \<Rightarrow> word32 \<times> word32 \<Rightarrow> word32 list" where
  "sha_round [a, b, c, d, e, f, g, h] (k, w) =
     (let s1 = word_rotr 6 e XOR word_rotr 11 e XOR word_rotr 25 e;
          ch = (e AND f) XOR (NOT e AND g);
          t1 = h + s1 + ch + k + w;
          s0 = word_rotr 2 a XOR word_rotr 13 a XOR word_rotr 22 a;
          maj = (a AND b) XOR (a AND c) XOR (b AND c);
          t2 = s0 + maj
      in [t1 + t2, a, b, c, d + t1, e, f, g])"
| "sha_round st kw = st"

definition sha_block :: "word32 list \<Rightarrow> bytes \<Rightarrow> word32 list" where
  "sha_block st blk =
     map2 (+) st (foldl sha_round st (zip sha_k (schedule 48 (map (word_of_nat \<circ> be_val) (chunks 4 blk)))))"

definition sha256 :: "bytes \<Rightarrow> bytes" where
  "sha256 msg = concat (map (be_bytes 4 \<circ> unat) (foldl sha_block sha_init (chunks 64 (sha_pad msg))))"

lemma sha_round_length: "length (sha_round st kw) = length st"
  by (cases "(st, kw)" rule: sha_round.cases) (auto simp: Let_def)

lemma sha_rounds_length: "length (foldl sha_round st kws) = length st"
  by (induction kws arbitrary: st) (auto simp: sha_round_length)

lemma sha_blocks_length: "length (foldl sha_block st blks) = length st"
  by (induction blks arbitrary: st) (auto simp: sha_block_def sha_rounds_length)

lemma sha256_length [simp]: "length (sha256 msg) = 32"
proof -
  have "length (foldl sha_block sha_init (chunks 64 (sha_pad msg))) = 8"
    by (simp add: sha_blocks_length sha_init_def)
  moreover have "length (concat (map (be_bytes 4 \<circ> unat) ws)) = 4 * length ws" for ws :: "word32 list"
    by (induction ws) (auto simp: be_bytes_def)
  ultimately show ?thesis by (simp add: sha256_def)
qed

end
