(* ===== verification/SigKeys.thy ===== *)
theory SigKeys
  imports GoEncoding
begin

text \<open>
  Keys, signers and verifiers of \<^verbatim>\<open>internal/sig\<close> (\<^verbatim>\<open>sig.go\<close>, \<^verbatim>\<open>keys.go\<close>). The primitives of
  Go's cryptography packages (signing and checking under a key, the PEM, PKIX and PKCS8 codecs)
  are the fields of the record \<open>crypto\<close>; what the standard library documents about them is
  \<open>crypto_ok\<close>. Keys are their encoded bytes; an ECDSA key carries the name of its curve. ECDSA
  draws randomness: its \<open>crEcSign\<close> is one such draw.
\<close>

type_synonym algorithm = string

definition AlgEd25519 :: algorithm where "AlgEd25519 = ''ed25519''"
definition AlgECDSAP256 :: algorithm where "AlgECDSAP256 = ''ecdsa-p256''"

datatype pubKey = Ed25519Pub bytes | ECDSAPub string bytes | OtherPub bytes

datatype privKey = Ed25519Priv bytes | ECDSAPriv string bytes | OtherPriv bytes

record crypto =
  crEdPublic :: "bytes \<Rightarrow> bytes"
  crEdSign :: "bytes \<Rightarrow> bytes \<Rightarrow> bytes"
  crEdVerify :: "bytes \<Rightarrow> bytes \<Rightarrow> bytes \<Rightarrow> bool"
  crEcPublic :: "bytes \<Rightarrow> bytes"
  crEcSign :: "bytes \<Rightarrow> bytes \<Rightarrow> bytes option"
  crEcVerify :: "bytes \<Rightarrow> bytes \<Rightarrow> bytes \<Rightarrow> bool"
  crMarshalPKIX :: "pubKey \<Rightarrow> bytes option"
  crParsePKIX :: "bytes \<Rightarrow> pubKey option"
  crMarshalPKCS8 :: "privKey \<Rightarrow> bytes option"
  crParsePKCS8 :: "bytes \<Rightarrow> privKey option"
  crPemEncode :: "string \<Rightarrow> bytes \<Rightarrow> bytes"
  crPemDecode :: "bytes \<Rightarrow> (string \<times> bytes) option"

definition crypto_ok :: "crypto \<Rightarrow> bool" where
  "crypto_ok cr \<longleftrightarrow>
     (\<forall>k m. crEdVerify cr (crEdPublic cr k) m (crEdSign cr k m)) \<and>
     (\<forall>k d s. crEcSign cr k d = Some s \<longrightarrow> crEcVerify cr (crEcPublic cr k) d s) \<and>
     (\<forall>t b. crPemDecode cr (crPemEncode cr t b) = Some (t, b)) \<and>
     (\<forall>k der. crMarshalPKCS8 cr k = Some der \<longrightarrow> crParsePKCS8 cr der = Some k) \<and>
     (\<forall>k der. crMarshalPKIX cr k = Some der \<longrightarrow> crParsePKIX cr der = Some k)"

datatype sig_err =
    NoSigners
  | SignFailed string
  | MarshalFailed
  | BadCurve string
  | BadKeyType
  | NoPEMBlock
  | ParseFailed
  | UnknownAlgorithm algorithm
  | GenerateFailed
  | NilVerifier
  | DecodeFailed
  | MissingPayloadType
  | NoSignatures
  | MalformedDigest string
  | MissingSubject
  | MissingEnvelope nat
  | ErrVerify
  | ErrUntrusted
  | ErrPolicy

definition KeyID :: "crypto \<Rightarrow> pubKey \<Rightarrow> sig_err + string" where
  "KeyID cr pub = (case crMarshalPKIX cr pub of None \<Rightarrow> Inl MarshalFailed | Some der \<Rightarrow> Inr (hex_encode (sha256 der)))"

definition algorithmFor :: "pubKey \<Rightarrow> sig_err + algorithm" where
  "algorithmFor pub = (case pub of
      Ed25519Pub k \<Rightarrow> Inr AlgEd25519
    | ECDSAPub curve k \<Rightarrow> if curve = ''P-256'' then Inr AlgECDSAP256 else Inl (BadCurve curve)
    | OtherPub k \<Rightarrow> Inl BadKeyType)"

subsection \<open>Signers and verifiers\<close>

datatype signer = Ed25519Signer (sgPriv: bytes) (sgKeyID: string) | EcdsaSigner (sgPriv: bytes) (sgKeyID: string)

datatype verifier = Ed25519Verifier (vfPub: bytes) (vfKeyID: string) | EcdsaVerifier (vfPub: bytes) (vfKeyID: string)

fun signer_Sign :: "crypto \<Rightarrow> signer \<Rightarrow> bytes \<Rightarrow> sig_err + bytes" where
  "signer_Sign cr (Ed25519Signer priv kid) msg = Inr (crEdSign cr priv msg)"
| "signer_Sign cr (EcdsaSigner priv kid) msg =
     (case crEcSign cr priv (sha256 msg) of None \<Rightarrow> Inl (SignFailed kid) | Some s \<Rightarrow> Inr s)"

fun signer_Verifier :: "crypto \<Rightarrow> signer \<Rightarrow> verifier" where
  "signer_Verifier cr (Ed25519Signer priv kid) = Ed25519Verifier (crEdPublic cr priv) kid"
| "signer_Verifier cr (EcdsaSigner priv kid) = EcdsaVerifier (crEcPublic cr priv) kid"

fun signer_Algorithm :: "signer \<Rightarrow> algorithm" where
  "signer_Algorithm (Ed25519Signer priv kid) = AlgEd25519"
| "signer_Algorithm (EcdsaSigner priv kid) = AlgECDSAP256"

text \<open>\<open>None\<close> is success: \<^verbatim>\<open>Verify\<close> returns nil.\<close>

fun verifier_Verify :: "crypto \<Rightarrow> verifier \<Rightarrow> bytes \<Rightarrow> bytes \<Rightarrow> sig_err option" where
  "verifier_Verify cr (Ed25519Verifier pub kid) msg sg = (if \<not> crEdVerify cr pub msg sg then Some ErrVerify else None)"
| "verifier_Verify cr (EcdsaVerifier pub kid) msg sg =
     (if \<not> crEcVerify cr pub (sha256 msg) sg then Some ErrVerify else None)"

fun verifier_Algorithm :: "verifier \<Rightarrow> algorithm" where
  "verifier_Algorithm (Ed25519Verifier pub kid) = AlgEd25519"
| "verifier_Algorithm (EcdsaVerifier pub kid) = AlgECDSAP256"

fun verifier_PublicKey :: "verifier \<Rightarrow> pubKey" where
  "verifier_PublicKey (Ed25519Verifier pub kid) = Ed25519Pub pub"
| "verifier_PublicKey (EcdsaVerifier pub kid) = ECDSAPub ''P-256'' pub"

lemma signer_Verifier_KeyID [simp]: "vfKeyID (signer_Verifier cr s) = sgKeyID s"
  by (cases s) auto

lemma sign_verify:
  "crypto_ok cr \<Longrightarrow> signer_Sign cr s msg = Inr sg \<Longrightarrow> verifier_Verify cr (signer_Verifier cr s) msg sg = None"
  by (cases s) (auto simp: crypto_ok_def split: option.splits)

subsection \<open>Making keys\<close>

text \<open>The entropy the generators read has given them a key, or has failed.\<close>

definition GenerateKey :: "crypto \<Rightarrow> algorithm \<Rightarrow> bytes option \<Rightarrow> sig_err + signer" where
  "GenerateKey cr alg drawn =
     (if alg = AlgEd25519 then
        (case drawn of None \<Rightarrow> Inl GenerateFailed
         | Some priv \<Rightarrow> (case KeyID cr (Ed25519Pub (crEdPublic cr priv)) of Inl e \<Rightarrow> Inl e
             | Inr kid \<Rightarrow> Inr (Ed25519Signer priv kid)))
      else if alg = AlgECDSAP256 then
        (case drawn of None \<Rightarrow> Inl GenerateFailed
         | Some priv \<Rightarrow> (case KeyID cr (ECDSAPub ''P-256'' (crEcPublic cr priv)) of Inl e \<Rightarrow> Inl e
             | Inr kid \<Rightarrow> Inr (EcdsaSigner priv kid)))
      else Inl (UnknownAlgorithm alg))"

definition signerFromECDSA :: "crypto \<Rightarrow> string \<Rightarrow> bytes \<Rightarrow> sig_err + signer" where
  "signerFromECDSA cr curve priv =
     (if curve \<noteq> ''P-256'' then Inl (BadCurve curve)
      else case KeyID cr (ECDSAPub curve (crEcPublic cr priv)) of Inl e \<Rightarrow> Inl e
        | Inr kid \<Rightarrow> Inr (EcdsaSigner priv kid))"

fun signer_privKey :: "signer \<Rightarrow> privKey" where
  "signer_privKey (Ed25519Signer priv kid) = Ed25519Priv priv"
| "signer_privKey (EcdsaSigner priv kid) = ECDSAPriv ''P-256'' priv"

definition MarshalPrivateKeyPEM :: "crypto \<Rightarrow> signer \<Rightarrow> sig_err + bytes" where
  "MarshalPrivateKeyPEM cr s =
     (case crMarshalPKCS8 cr (signer_privKey s) of None \<Rightarrow> Inl MarshalFailed
      | Some der \<Rightarrow> Inr (crPemEncode cr ''PRIVATE KEY'' der))"

definition MarshalPublicKeyPEM :: "crypto \<Rightarrow> verifier \<Rightarrow> sig_err + bytes" where
  "MarshalPublicKeyPEM cr v =
     (case crMarshalPKIX cr (verifier_PublicKey v) of None \<Rightarrow> Inl MarshalFailed
      | Some der \<Rightarrow> Inr (crPemEncode cr ''PUBLIC KEY'' der))"

definition LoadSignerPEM :: "crypto \<Rightarrow> bytes \<Rightarrow> sig_err + signer" where
  "LoadSignerPEM cr pemBytes =
     (case crPemDecode cr pemBytes of None \<Rightarrow> Inl NoPEMBlock
      | Some (t, der) \<Rightarrow> (case crParsePKCS8 cr der of
          None \<Rightarrow> Inl ParseFailed
        | Some (Ed25519Priv priv) \<Rightarrow> (case KeyID cr (Ed25519Pub (crEdPublic cr priv)) of
              Inl e \<Rightarrow> Inl e | Inr kid \<Rightarrow> Inr (Ed25519Signer priv kid))
        | Some (ECDSAPriv curve priv) \<Rightarrow>
            if curve \<noteq> ''P-256'' then Inl (BadCurve curve)
            else (case KeyID cr (ECDSAPub curve (crEcPublic cr priv)) of
              Inl e \<Rightarrow> Inl e | Inr kid \<Rightarrow> Inr (EcdsaSigner priv kid))
        | Some (OtherPriv priv) \<Rightarrow> Inl BadKeyType))"

definition VerifierFromPublicKey :: "crypto \<Rightarrow> pubKey \<Rightarrow> sig_err + verifier" where
  "VerifierFromPublicKey cr pub =
     (case algorithmFor pub of Inl e \<Rightarrow> Inl e
      | Inr alg \<Rightarrow> (case KeyID cr pub of Inl e \<Rightarrow> Inl e
          | Inr kid \<Rightarrow> (case pub of
              Ed25519Pub k \<Rightarrow> Inr (Ed25519Verifier k kid)
            | ECDSAPub curve k \<Rightarrow> Inr (EcdsaVerifier k kid)
            | OtherPub k \<Rightarrow> Inl (UnknownAlgorithm alg))))"

definition LoadVerifierPEM :: "crypto \<Rightarrow> bytes \<Rightarrow> sig_err + verifier" where
  "LoadVerifierPEM cr pemBytes =
     (case crPemDecode cr pemBytes of None \<Rightarrow> Inl NoPEMBlock
      | Some (t, der) \<Rightarrow> (case crParsePKIX cr der of None \<Rightarrow> Inl ParseFailed
          | Some pub \<Rightarrow> VerifierFromPublicKey cr pub))"

definition short :: "string \<Rightarrow> string" where
  "short kid = (if length kid > 12 then take 12 kid else kid)"

text \<open>The key ID of a signer or verifier is the one its public key has.\<close>

definition signer_wf :: "crypto \<Rightarrow> signer \<Rightarrow> bool" where
  "signer_wf cr s \<longleftrightarrow> KeyID cr (verifier_PublicKey (signer_Verifier cr s)) = Inr (sgKeyID s)"

definition verifier_wf :: "crypto \<Rightarrow> verifier \<Rightarrow> bool" where
  "verifier_wf cr v \<longleftrightarrow> KeyID cr (verifier_PublicKey v) = Inr (vfKeyID v)"

lemma signers_wf:
  "GenerateKey cr alg drawn = Inr s \<Longrightarrow> signer_wf cr s"
  "LoadSignerPEM cr pem = Inr s \<Longrightarrow> signer_wf cr s"
  "signerFromECDSA cr curve priv = Inr s \<Longrightarrow> signer_wf cr s"
  by (auto simp: GenerateKey_def LoadSignerPEM_def signerFromECDSA_def signer_wf_def
      split: if_splits option.splits sum.splits privKey.splits)

lemma verifiers_wf: "LoadVerifierPEM cr pem = Inr v \<Longrightarrow> verifier_wf cr v"
  by (auto simp: LoadVerifierPEM_def VerifierFromPublicKey_def verifier_wf_def algorithmFor_def
      split: if_splits option.splits sum.splits pubKey.splits)

lemma signer_pem:
  assumes "crypto_ok cr" and "signer_wf cr s" and "MarshalPrivateKeyPEM cr s = Inr pem"
  shows "LoadSignerPEM cr pem = Inr s"
  using assms
  by (cases s) (auto simp: MarshalPrivateKeyPEM_def LoadSignerPEM_def crypto_ok_def signer_wf_def split: option.splits)

lemma verifier_pem:
  assumes "crypto_ok cr" and "verifier_wf cr v" and "MarshalPublicKeyPEM cr v = Inr pem"
  shows "LoadVerifierPEM cr pem = Inr v"
  using assms
  by (cases v) (auto simp: MarshalPublicKeyPEM_def LoadVerifierPEM_def VerifierFromPublicKey_def algorithmFor_def
      crypto_ok_def verifier_wf_def split: option.splits)

end
