(* ===== verification/SigEnvelope.thy ===== *)
theory SigEnvelope
  imports SigKeys
begin

text \<open>
  DSSE envelopes (\<^verbatim>\<open>internal/sig/dsse.go\<close>), the simple-signing payload (\<^verbatim>\<open>payload.go\<close>), the
  trust root with its policy (\<^verbatim>\<open>trust.go\<close>) and the keyless policy check (\<^verbatim>\<open>cosign.go\<close>). Go's JSON
  codec is a parameter: a decoder is a function that gives the decoded record or nothing, an
  encoder gives the text.
\<close>

subsection \<open>Envelopes\<close>

record signature =
  sigKeyID :: string
  sigSig :: string

record envelope =
  envPayload :: string
  envPayloadType :: string
  envSignatures :: "signature list"

definition pae :: "string \<Rightarrow> bytes \<Rightarrow> bytes" where
  "pae payloadType payload =
     ''DSSEv1 '' @ itoa_nat (length payloadType) @ '' '' @ payloadType @ '' '' @
     itoa_nat (length payload) @ '' '' @ payload"

fun sign_loop :: "crypto \<Rightarrow> bytes \<Rightarrow> signer list \<Rightarrow> sig_err + signature list" where
  "sign_loop cr msg [] = Inr []"
| "sign_loop cr msg (s # ss) =
     (case signer_Sign cr s msg of
        Inl e \<Rightarrow> Inl (SignFailed (short (sgKeyID s)))
      | Inr raw \<Rightarrow> (case sign_loop cr msg ss of
          Inl e \<Rightarrow> Inl e
        | Inr sigs \<Rightarrow> Inr (\<lparr> sigKeyID = sgKeyID s, sigSig = b64_encode raw \<rparr> # sigs)))"

definition SignEnvelope :: "crypto \<Rightarrow> string \<Rightarrow> bytes \<Rightarrow> signer list \<Rightarrow> sig_err + envelope" where
  "SignEnvelope cr payloadType payload signers =
     (if signers = [] then Inl NoSigners
      else case sign_loop cr (pae payloadType payload) signers of
        Inl e \<Rightarrow> Inl e
      | Inr sigs \<Rightarrow> Inr \<lparr> envPayload = b64_encode payload, envPayloadType = payloadType, envSignatures = sigs \<rparr>)"

definition DecodePayload :: "envelope \<Rightarrow> sig_err + bytes" where
  "DecodePayload e = (case b64_decode (envPayload e) of None \<Rightarrow> Inl DecodeFailed | Some raw \<Rightarrow> Inr raw)"

fun verify_loop :: "crypto \<Rightarrow> verifier \<Rightarrow> bytes \<Rightarrow> signature list \<Rightarrow> bool" where
  "verify_loop cr v msg [] = False"
| "verify_loop cr v msg (s # ss) =
     (if sigKeyID s \<noteq> [] \<and> sigKeyID s \<noteq> vfKeyID v then verify_loop cr v msg ss
      else case b64_decode (sigSig s) of
        None \<Rightarrow> verify_loop cr v msg ss
      | Some raw \<Rightarrow> if verifier_Verify cr v msg raw = None then True else verify_loop cr v msg ss)"

definition VerifyWith :: "crypto \<Rightarrow> envelope \<Rightarrow> verifier \<Rightarrow> sig_err option" where
  "VerifyWith cr e v =
     (case DecodePayload e of
        Inl err \<Rightarrow> Some err
      | Inr payload \<Rightarrow> if verify_loop cr v (pae (envPayloadType e) payload) (envSignatures e) then None else Some ErrVerify)"

text \<open>\<open>strict\<close> and \<open>lenient\<close> are the two JSON decodings tried in turn.\<close>

definition ParseEnvelope :: "(bytes \<Rightarrow> envelope option) \<Rightarrow> (bytes \<Rightarrow> envelope option) \<Rightarrow> bytes \<Rightarrow> sig_err + envelope" where
  "ParseEnvelope strict lenient data =
     (case (case strict data of Some e \<Rightarrow> Some e | None \<Rightarrow> lenient data) of
        None \<Rightarrow> Inl ParseFailed
      | Some e \<Rightarrow>
          if envPayloadType e = [] then Inl MissingPayloadType
          else if envSignatures e = [] then Inl NoSignatures
          else (case DecodePayload e of Inl err \<Rightarrow> Inl err | Inr raw \<Rightarrow> Inr e))"

lemma space_not_digit: "\<not> isDigit CHR '' ''"
  by code_simp

lemma digits_cut:
  assumes "\<forall>c \<in> set a. isDigit c" and "\<forall>c \<in> set b. isDigit c" and "a @ CHR '' '' # x = b @ CHR '' '' # y"
  shows "a = b \<and> x = y"
proof -
  have sp: "CHR '' '' \<notin> set a" "CHR '' '' \<notin> set b"
    using assms(1,2) space_not_digit by blast+
  have "cut_byte CHR '' '' (a @ CHR '' '' # x) = Some (a, x)" "cut_byte CHR '' '' (b @ CHR '' '' # y) = Some (b, y)"
    using sp by simp_all
  then show ?thesis using assms(3) by (metis option.inject prod.inject)
qed

lemma pae_inj: "pae t p = pae t' p' \<Longrightarrow> t = t' \<and> p = p'"
proof -
  assume "pae t p = pae t' p'"
  then have "itoa_nat (length t) @ CHR '' '' # (t @ '' '' @ itoa_nat (length p) @ '' '' @ p)
      = itoa_nat (length t') @ CHR '' '' # (t' @ '' '' @ itoa_nat (length p') @ '' '' @ p')"
    by (simp add: pae_def)
  from digits_cut [OF itoa_nat_digits itoa_nat_digits this]
  have "length t = length t'" "t @ CHR '' '' # (itoa_nat (length p) @ CHR '' '' # p)
      = t' @ CHR '' '' # (itoa_nat (length p') @ CHR '' '' # p')"
    by (auto dest: itoa_nat_inj)
  then have "t = t'" "itoa_nat (length p) @ CHR '' '' # p = itoa_nat (length p') @ CHR '' '' # p'"
    by simp_all
  with digits_cut [OF itoa_nat_digits itoa_nat_digits] show ?thesis by blast
qed

lemma verify_loop_iff:
  "verify_loop cr v msg sigs \<longleftrightarrow> (\<exists>s \<in> set sigs. (sigKeyID s = [] \<or> sigKeyID s = vfKeyID v)
     \<and> (\<exists>raw. b64_decode (sigSig s) = Some raw \<and> verifier_Verify cr v msg raw = None))"
  by (induction sigs) (auto split: option.splits)

text \<open>What a verifier has checked: one of the signatures is this key's, over the type and the payload.\<close>

definition signed_by :: "crypto \<Rightarrow> envelope \<Rightarrow> verifier \<Rightarrow> bytes \<Rightarrow> bool" where
  "signed_by cr e v payload \<longleftrightarrow> DecodePayload e = Inr payload \<and>
     (\<exists>s raw. s \<in> set (envSignatures e) \<and> (sigKeyID s = [] \<or> sigKeyID s = vfKeyID v) \<and> b64_decode (sigSig s) = Some raw
       \<and> verifier_Verify cr v (pae (envPayloadType e) payload) raw = None)"

lemma VerifyWith_iff: "VerifyWith cr e v = None \<longleftrightarrow> (\<exists>payload. signed_by cr e v payload)"
  by (auto simp: VerifyWith_def verify_loop_iff signed_by_def split: sum.splits)

lemma sign_loop_sigs:
  "sign_loop cr msg ss = Inr sigs \<Longrightarrow>
     list_all2 (\<lambda>s g. \<exists>raw. signer_Sign cr s msg = Inr raw \<and> g = \<lparr> sigKeyID = sgKeyID s, sigSig = b64_encode raw \<rparr>) ss sigs"
  by (induction ss arbitrary: sigs) (auto split: sum.splits)

lemma SignEnvelope_verifies:
  assumes cr: "crypto_ok cr" and env: "SignEnvelope cr t p ss = Inr e" and s: "s \<in> set ss"
  shows "signed_by cr e (signer_Verifier cr s) p"
proof -
  obtain sigs where sigs: "sign_loop cr (pae t p) ss = Inr sigs"
    "e = \<lparr> envPayload = b64_encode p, envPayloadType = t, envSignatures = sigs \<rparr>"
    using env by (auto simp: SignEnvelope_def split: if_splits sum.splits)
  obtain i where i: "i < length ss" "s = ss ! i" using s by (auto simp: in_set_conv_nth)
  let ?g = "sigs ! i"
  have l: "i < length sigs" using sign_loop_sigs [OF sigs(1)] i by (simp add: list_all2_lengthD [symmetric])
  obtain raw where raw: "signer_Sign cr s (pae t p) = Inr raw" "?g = \<lparr> sigKeyID = sgKeyID s, sigSig = b64_encode raw \<rparr>"
    using list_all2_nthD [OF sign_loop_sigs [OF sigs(1)] i(1)] i(2) by auto
  then have "verifier_Verify cr (signer_Verifier cr s) (pae t p) raw = None"
    using sign_verify [OF cr] by auto
  moreover have "?g \<in> set sigs" using l by (rule nth_mem)
  ultimately show ?thesis using raw sigs(2)
    by (auto simp: signed_by_def DecodePayload_def intro!: exI [of _ ?g] exI [of _ raw])
qed

subsection \<open>Image payloads\<close>

definition SimpleSigningMediaType :: string where
  "SimpleSigningMediaType = ''application/vnd.dev.cosign.simplesigning.v1+json''"

definition criticalTypeImageSig :: string where
  "criticalTypeImageSig = ''cosign container image signature''"

record simpleSigning =
  ssDockerReference :: string
  ssDockerManifestDigest :: string
  ssType :: string
  ssOptional :: "(string \<times> string) list"

definition isLowerHex :: "char \<Rightarrow> bool" where
  "isLowerHex c \<longleftrightarrow> (byte c \<ge> 48 \<and> byte c \<le> 57) \<or> (byte c \<ge> 97 \<and> byte c \<le> 102)"

definition validateDigest :: "string \<Rightarrow> sig_err option" where
  "validateDigest d =
     (case strings_Cut d CHR '':'' of (alg, hex, ok) \<Rightarrow>
        if \<not> ok then Some (MalformedDigest d)
        else if alg \<noteq> ''sha256'' then Some (MalformedDigest d)
        else if length hex \<noteq> 64 then Some (MalformedDigest d)
        else if \<not> list_all isLowerHex hex then Some (MalformedDigest d)
        else None)"

definition NewImagePayload ::
    "(simpleSigning \<Rightarrow> bytes) \<Rightarrow> string \<Rightarrow> string \<Rightarrow> (string \<times> string) list \<Rightarrow> sig_err + bytes" where
  "NewImagePayload encode dockerRef manifestDigest optional =
     (case validateDigest manifestDigest of
        Some e \<Rightarrow> Inl e
      | None \<Rightarrow> Inr (encode \<lparr> ssDockerReference = dockerRef, ssDockerManifestDigest = manifestDigest,
          ssType = criticalTypeImageSig, ssOptional = optional \<rparr>))"

definition ParseImagePayload :: "(bytes \<Rightarrow> simpleSigning option) \<Rightarrow> bytes \<Rightarrow> sig_err + simpleSigning" where
  "ParseImagePayload decode data =
     (case decode data of
        None \<Rightarrow> Inl ParseFailed
      | Some p \<Rightarrow> (case validateDigest (ssDockerManifestDigest p) of Some e \<Rightarrow> Inl e | None \<Rightarrow> Inr p))"

definition SignedDigest :: "simpleSigning \<Rightarrow> string" where
  "SignedDigest p = ssDockerManifestDigest p"

subsection \<open>Trust\<close>

record trustedKey =
  tkVerifier :: "verifier option"
  tkIdentity :: string
  tkIssuer :: string

type_synonym trustRoot = "string \<rightharpoonup> trustedKey"

definition NewTrustRoot :: trustRoot where
  "NewTrustRoot = Map.empty"

definition trust_Add :: "trustRoot \<Rightarrow> trustedKey \<Rightarrow> sig_err + trustRoot" where
  "trust_Add t k = (case tkVerifier k of None \<Rightarrow> Inl NilVerifier | Some v \<Rightarrow> Inr (t(vfKeyID v \<mapsto> k)))"

definition AddVerifier :: "trustRoot \<Rightarrow> verifier option \<Rightarrow> string \<Rightarrow> sig_err + trustRoot" where
  "AddVerifier t v ident = trust_Add t \<lparr> tkVerifier = v, tkIdentity = ident, tkIssuer = [] \<rparr>"

record sigPolicy =
  poIdentities :: "string list"
  poIssuers :: "string list"

record verifyResult =
  vrKeyID :: string
  vrIdentity :: string
  vrIssuer :: string

definition policy_allows :: "sigPolicy \<Rightarrow> trustedKey \<Rightarrow> bool" where
  "policy_allows p tk =
     (if poIdentities p \<noteq> [] \<and> \<not> (tkIdentity tk \<in> set (poIdentities p)) then False
      else if poIssuers p \<noteq> [] \<and> \<not> (tkIssuer tk \<in> set (poIssuers p)) then False
      else True)"

text \<open>
  A map is ranged over in an order the language leaves open: \<open>ks\<close> is the list of trusted keys in
  the order this run visits them. \<open>blocked\<close> is \<^verbatim>\<open>trustedButBlocked\<close>.
\<close>

fun trust_loop :: "crypto \<Rightarrow> envelope \<Rightarrow> sigPolicy \<Rightarrow> bool \<Rightarrow> trustedKey list \<Rightarrow> sig_err + verifyResult" where
  "trust_loop cr env p blocked [] = Inl (if blocked then ErrPolicy else ErrUntrusted)"
| "trust_loop cr env p blocked (tk # tks) =
     (case tkVerifier tk of
        None \<Rightarrow> trust_loop cr env p blocked tks
      | Some v \<Rightarrow>
          if VerifyWith cr env v \<noteq> None then trust_loop cr env p blocked tks
          else if policy_allows p tk then Inr \<lparr> vrKeyID = vfKeyID v, vrIdentity = tkIdentity tk, vrIssuer = tkIssuer tk \<rparr>
          else trust_loop cr env p True tks)"

definition trust_Verify :: "crypto \<Rightarrow> trustedKey list \<Rightarrow> envelope \<Rightarrow> sigPolicy \<Rightarrow> sig_err + verifyResult" where
  "trust_Verify cr ks env p = (if ks = [] then Inl ErrUntrusted else trust_loop cr env p False ks)"

definition ranges :: "trustRoot \<Rightarrow> trustedKey list \<Rightarrow> bool" where
  "ranges t ks \<longleftrightarrow> (\<exists>ids. distinct ids \<and> set ids = dom t \<and> ks = map (\<lambda>i. the (t i)) ids)"

record trustConfigKey =
  tckPublicKeyPEM :: bytes
  tckIdentity :: string
  tckIssuer :: string

record trustConfig =
  tcKeys :: "trustConfigKey list"
  tcPolicy :: sigPolicy

fun build_keys :: "crypto \<Rightarrow> trustRoot \<Rightarrow> trustConfigKey list \<Rightarrow> sig_err + trustRoot" where
  "build_keys cr t [] = Inr t"
| "build_keys cr t (k # ks) =
     (case LoadVerifierPEM cr (tckPublicKeyPEM k) of
        Inl e \<Rightarrow> Inl e
      | Inr v \<Rightarrow>
          (case trust_Add t \<lparr> tkVerifier = Some v, tkIdentity = tckIdentity k, tkIssuer = tckIssuer k \<rparr> of
             Inl e \<Rightarrow> Inl e
           | Inr t' \<Rightarrow> build_keys cr t' ks))"

definition trustConfig_Build :: "crypto \<Rightarrow> trustConfig \<Rightarrow> sig_err + trustRoot \<times> sigPolicy" where
  "trustConfig_Build cr cfg =
     (case build_keys cr NewTrustRoot (tcKeys cfg) of Inl e \<Rightarrow> Inl e | Inr t \<Rightarrow> Inr (t, tcPolicy cfg))"

definition LoadTrustConfig :: "crypto \<Rightarrow> (bytes \<Rightarrow> trustConfig option) \<Rightarrow> bytes \<Rightarrow> sig_err + trustRoot \<times> sigPolicy" where
  "LoadTrustConfig cr decode data = (case decode data of None \<Rightarrow> Inl ParseFailed | Some cfg \<Rightarrow> trustConfig_Build cr cfg)"

text \<open>A trust root holds, under each key ID, a key with a verifier of that ID.\<close>

definition trust_wf :: "trustRoot \<Rightarrow> bool" where
  "trust_wf t \<longleftrightarrow> (\<forall>i tk. t i = Some tk \<longrightarrow> (\<exists>v. tkVerifier tk = Some v \<and> vfKeyID v = i))"

lemma trust_Add_wf: "trust_wf t \<Longrightarrow> trust_Add t k = Inr t' \<Longrightarrow> trust_wf t'"
  by (auto simp: trust_Add_def trust_wf_def split: option.splits if_splits)

lemma build_keys_wf: "trust_wf t \<Longrightarrow> build_keys cr t ks = Inr t' \<Longrightarrow> trust_wf t'"
  by (induction ks arbitrary: t) (auto split: sum.splits dest: trust_Add_wf)

lemma Build_wf: "trustConfig_Build cr cfg = Inr (t, p) \<Longrightarrow> trust_wf t"
  using build_keys_wf [of NewTrustRoot]
  by (auto simp: trustConfig_Build_def trust_wf_def NewTrustRoot_def split: sum.splits)

definition accepts :: "crypto \<Rightarrow> envelope \<Rightarrow> trustedKey \<Rightarrow> bool" where
  "accepts cr env tk \<longleftrightarrow> (\<exists>v. tkVerifier tk = Some v \<and> VerifyWith cr env v = None)"

lemma trust_loop_spec:
  "case trust_loop cr env p blocked ks of
     Inr r \<Rightarrow> \<exists>tk v. tk \<in> set ks \<and> accepts cr env tk \<and> policy_allows p tk \<and> tkVerifier tk = Some v
        \<and> r = \<lparr> vrKeyID = vfKeyID v, vrIdentity = tkIdentity tk, vrIssuer = tkIssuer tk \<rparr>
   | Inl e \<Rightarrow> (\<forall>tk \<in> set ks. accepts cr env tk \<longrightarrow> \<not> policy_allows p tk)
        \<and> e = (if blocked \<or> (\<exists>tk \<in> set ks. accepts cr env tk) then ErrPolicy else ErrUntrusted)"
proof (induction ks arbitrary: blocked)
  case (Cons tk ks)
  show ?case
  proof (cases "accepts cr env tk")
    case True
    then obtain v where v: "tkVerifier tk = Some v" "VerifyWith cr env v = None" by (auto simp: accepts_def)
    show ?thesis
    proof (cases "policy_allows p tk")
      case True
      then show ?thesis using v \<open>accepts cr env tk\<close> by auto
    next
      case False
      then show ?thesis using v Cons.IH [of True] \<open>accepts cr env tk\<close> by (auto split: sum.splits)
    qed
  next
    case False
    then have "trust_loop cr env p blocked (tk # ks) = trust_loop cr env p blocked ks"
      by (auto simp: accepts_def split: option.splits)
    then show ?thesis using Cons.IH [of blocked] False by (auto split: sum.splits)
  qed
qed simp

lemma ranges_set: "ranges t ks \<Longrightarrow> set ks = ran t"
  by (force simp: ranges_def ran_def dom_def)

lemma trust_Verify_spec:
  assumes "ranges t ks"
  shows "case trust_Verify cr ks env p of
     Inr r \<Rightarrow> \<exists>tk v. tk \<in> ran t \<and> accepts cr env tk \<and> policy_allows p tk \<and> tkVerifier tk = Some v
        \<and> r = \<lparr> vrKeyID = vfKeyID v, vrIdentity = tkIdentity tk, vrIssuer = tkIssuer tk \<rparr>
   | Inl e \<Rightarrow> (\<forall>tk \<in> ran t. accepts cr env tk \<longrightarrow> \<not> policy_allows p tk)
        \<and> e = (if \<exists>tk \<in> ran t. accepts cr env tk then ErrPolicy else ErrUntrusted)"
  using trust_loop_spec [where cr = cr and env = env and p = p and blocked = False and ks = ks] ranges_set [OF assms]
  by (auto simp: trust_Verify_def split: sum.splits if_splits)

subsection \<open>Keyless identities\<close>

record cosignIdentity =
  ciSubjectID :: string
  ciIssuer :: string

record cosignPolicy =
  cpCertificateIdentity :: string
  cpCertificateOIDCIssuer :: string

definition cosign_check :: "cosignPolicy \<Rightarrow> cosignIdentity \<Rightarrow> sig_err option" where
  "cosign_check p ident =
     (let want = cpCertificateIdentity p in
      if cpCertificateOIDCIssuer p \<noteq> [] \<and> strings_ToLower (cpCertificateOIDCIssuer p) \<noteq> strings_ToLower (ciIssuer ident)
      then Some ErrPolicy
      else if want \<noteq> [] then
        (if strings_HasSuffix want ''*'' then
           (if \<not> strings_HasPrefix (ciSubjectID ident) (strings_TrimSuffix want ''*'') then Some ErrPolicy else None)
         else if ciSubjectID ident \<noteq> want then Some ErrPolicy else None)
      else None)"

end
