(* ===== verification/SigMerkle.thy ===== *)
theory SigMerkle
  imports GoEncoding
begin

text \<open>
  The Merkle tree of the transparency log (\<^verbatim>\<open>internal/sig/merkle.go\<close>): the tree hash, the
  audit path, and the verifier's loop that walks a path from a leaf. The loop works bottom-up on
  the bits of the index; it is proved equal to the top-down definition of RFC 6962, from which
  completeness and soundness follow by induction on the tree.
\<close>

subsection \<open>Hashes\<close>

definition leafPrefix :: char where "leafPrefix = CHR 0x00"
definition nodePrefix :: char where "nodePrefix = CHR 0x01"

definition hashLeaf :: "bytes \<Rightarrow> bytes" where
  "hashLeaf entry = sha256 (leafPrefix # entry)"

definition hashChildren :: "bytes \<Rightarrow> bytes \<Rightarrow> bytes" where
  "hashChildren left right = sha256 (nodePrefix # left @ right)"

lemma hash_length [simp]: "length (hashLeaf e) = 32" "length (hashChildren l r) = 32"
  by (simp_all add: hashLeaf_def hashChildren_def)

subsection \<open>The tree\<close>

function splitLoop :: "nat \<Rightarrow> nat \<Rightarrow> nat" where
  "splitLoop k n = (if k = 0 then 0 else if 2 * k < n then splitLoop (2 * k) n else k)"
  by pat_completeness auto
termination by (relation "measure (\<lambda>(k, n). n - k)") auto

declare splitLoop.simps [simp del]

definition largestPowerOfTwoLessThan :: "nat \<Rightarrow> nat" where
  "largestPowerOfTwoLessThan n = splitLoop 1 n"

lemma splitLoop_spec:
  "k = 2 ^ a \<Longrightarrow> k < n \<Longrightarrow> \<exists>b. splitLoop k n = 2 ^ b \<and> 2 ^ b < n \<and> n \<le> 2 * 2 ^ b"
proof (induction k n arbitrary: a rule: splitLoop.induct)
  case (1 k n)
  show ?case
  proof (cases "2 * k < n")
    case True
    then show ?thesis using 1(1) [of "Suc a"] 1(2) by (simp add: splitLoop.simps)
  next
    case False
    then show ?thesis using 1(2,3) by (intro exI [of _ a]) (simp add: splitLoop.simps [of "2 ^ a"])
  qed
qed

lemma split_spec:
  assumes "1 < n"
  obtains b where "largestPowerOfTwoLessThan n = 2 ^ b" "2 ^ b < n" "n \<le> 2 * 2 ^ b"
  using splitLoop_spec [of 1 0 n] assms by (auto simp: largestPowerOfTwoLessThan_def)

lemma split_bounds: "1 < n \<Longrightarrow> 0 < largestPowerOfTwoLessThan n \<and> largestPowerOfTwoLessThan n < n"
  by (elim split_spec) auto

function merkleRoot :: "bytes list \<Rightarrow> bytes" where
  "merkleRoot entries =
     (if entries = [] then sha256 []
      else if length entries = 1 then hashLeaf (entries ! 0)
      else let k = largestPowerOfTwoLessThan (length entries)
           in hashChildren (merkleRoot (take k entries)) (merkleRoot (drop k entries)))"
  by pat_completeness auto
termination
proof (relation "measure length", goal_cases)
  case (2 entries k)
  then have "1 < length entries" by (cases entries) auto
  with 2(3) split_bounds [of "length entries"] show ?case by (auto intro: diff_less)
next
  case (3 entries k)
  then have "1 < length entries" by (cases entries) auto
  with 3(3) split_bounds [of "length entries"] show ?case by (auto intro: diff_less)
qed simp

declare merkleRoot.simps [simp del]

lemma merkle_single: "merkleRoot [e] = hashLeaf e"
  by (simp add: merkleRoot.simps)

lemma merkle_split:
  "1 < length es \<Longrightarrow> merkleRoot es =
     hashChildren (merkleRoot (take (largestPowerOfTwoLessThan (length es)) es))
       (merkleRoot (drop (largestPowerOfTwoLessThan (length es)) es))"
  by (subst merkleRoot.simps) (auto simp: Let_def)

function inclusionProof_at :: "bytes list \<Rightarrow> nat \<Rightarrow> bytes list" where
  "inclusionProof_at entries index =
     (if index \<ge> length entries then []
      else if length entries = 1 then []
      else let k = largestPowerOfTwoLessThan (length entries) in
        if index < k then inclusionProof_at (take k entries) index @ [merkleRoot (drop k entries)]
        else inclusionProof_at (drop k entries) (index - k) @ [merkleRoot (take k entries)])"
  by pat_completeness auto
termination
proof (relation "measure (length \<circ> fst)", goal_cases)
  case (2 entries index k)
  then have "1 < length entries" by linarith
  with 2(3) split_bounds [of "length entries"] show ?case by (auto intro: diff_less)
next
  case (3 entries index k)
  then have "1 < length entries" by linarith
  with 3(3) split_bounds [of "length entries"] show ?case by (auto intro: diff_less)
qed simp

declare inclusionProof_at.simps [simp del]

definition inclusionProof :: "bytes list \<Rightarrow> int \<Rightarrow> bytes list" where
  "inclusionProof entries index = (if index < 0 then [] else inclusionProof_at entries (nat index))"

subsection \<open>The verifier\<close>

text \<open>
  The inner loop: ascend until a right child, or the top. \<open>fn\<close> and \<open>sn\<close> are not negative here, so
  they are natural numbers, \<^verbatim>\<open>&1\<close> is parity and \<^verbatim>\<open>>>1\<close> is division by two.
\<close>

function ascend :: "nat \<Rightarrow> nat \<Rightarrow> nat \<times> nat" where
  "ascend fn sn = (if odd (fn div 2) \<or> sn div 2 = 0 then (fn div 2, sn div 2) else ascend (fn div 2) (sn div 2))"
  by pat_completeness auto
termination by (relation "measure snd") auto

declare ascend.simps [simp del]

fun walk :: "bytes \<Rightarrow> nat \<Rightarrow> nat \<Rightarrow> bytes list \<Rightarrow> bytes option" where
  "walk r fn sn [] = (if sn \<noteq> 0 then None else Some r)"
| "walk r fn sn (p # proof') =
     (if sn = 0 then None
      else if odd fn \<or> fn = sn then
        (let (fn', sn') = (if even fn then ascend fn sn else (fn, sn))
         in walk (hashChildren p r) (fn' div 2) (sn' div 2) proof')
      else walk (hashChildren r p) (fn div 2) (sn div 2) proof')"

definition recomputeRoot :: "bytes \<Rightarrow> nat \<Rightarrow> nat \<Rightarrow> bytes list \<Rightarrow> bytes option" where
  "recomputeRoot leafHash index tsize proof' =
     (if index \<ge> tsize then None else walk leafHash index (tsize - 1) proof')"

fun equalBytes_loop :: "bytes \<Rightarrow> bytes \<Rightarrow> bool" where
  "equalBytes_loop (a # as) (b # bs) = (if a \<noteq> b then False else equalBytes_loop as bs)"
| "equalBytes_loop as bs = True"

definition equalBytes :: "bytes \<Rightarrow> bytes \<Rightarrow> bool" where
  "equalBytes a b = (if length a \<noteq> length b then False else equalBytes_loop a b)"

lemma equalBytes_iff [simp]: "equalBytes a b \<longleftrightarrow> a = b"
proof -
  have "length a = length b \<Longrightarrow> equalBytes_loop a b \<longleftrightarrow> a = b"
    by (induction a b rule: list_induct2) auto
  then show ?thesis by (auto simp: equalBytes_def)
qed

definition verifyInclusion :: "bytes \<Rightarrow> int \<Rightarrow> int \<Rightarrow> bytes list \<Rightarrow> bytes \<Rightarrow> bool" where
  "verifyInclusion entry index tsize proof' root =
     (if index < 0 \<or> index \<ge> tsize then False
      else case recomputeRoot (hashLeaf entry) (nat index) (nat tsize) proof' of
        None \<Rightarrow> False
      | Some computed \<Rightarrow> equalBytes computed root)"

subsection \<open>The loop is the recursive definition\<close>

text \<open>
  RFC 6962, 2.1.1, read top-down: the last element of the path is the sibling of the subtree
  the leaf is in.
\<close>

function rootFrom :: "bytes \<Rightarrow> nat \<Rightarrow> nat \<Rightarrow> bytes list \<Rightarrow> bytes option" where
  "rootFrom leaf i n path =
     (if n \<le> 1 then (if path = [] then Some leaf else None)
      else if path = [] then None
      else let k = largestPowerOfTwoLessThan n in
        if i < k then map_option (\<lambda>r. hashChildren r (last path)) (rootFrom leaf i k (butlast path))
        else map_option (\<lambda>r. hashChildren (last path) r) (rootFrom leaf (i - k) (n - k) (butlast path)))"
  by pat_completeness auto
termination by (relation "measure (\<lambda>(leaf, i, n, path). n)") (use split_bounds in auto)

declare rootFrom.simps [simp del]

lemma walk_left:
  "fn < 2 ^ a \<Longrightarrow> 2 ^ a \<le> sn \<Longrightarrow> sn < 2 * 2 ^ a \<Longrightarrow>
     walk r fn sn (q @ [p]) = map_option (\<lambda>r. hashChildren r p) (walk r fn (2 ^ a - 1) q)"
proof (induction q arbitrary: r fn a sn)
  case Nil
  show ?case
  proof (cases a)
    case 0
    then show ?thesis using Nil by (simp add: Suc_le_eq)
  next
    case (Suc b)
    have "2 ^ b \<ge> (1::nat)" by simp
    with Suc Nil have "2 \<le> sn" "2 \<le> (2::nat) ^ a" by (simp_all, linarith)
    then have "sn div 2 \<noteq> 0" "sn \<noteq> 0" "2 ^ a - 1 \<noteq> (0::nat)" by auto
    moreover have "fn \<noteq> sn" using Nil by simp
    ultimately show ?thesis by (auto simp del: power_Suc)
  qed
next
  case (Cons x q)
  show ?case
  proof (cases a)
    case 0
    then have "fn = 0" "sn = 1" using Cons by auto
    then show ?thesis using 0 by (cases q) auto
  next
    case (Suc b)
    have e: "(2 ^ Suc b - 1) div 2 = 2 ^ b - (1::nat)" by (simp add: diff_mult_distrib2)
    have "1 \<le> (2::nat) ^ b" by simp
    then have nz: "2 ^ Suc b - 1 \<noteq> (0::nat)" "sn \<noteq> 0"
      using Cons.prems Suc by (simp_all add: Suc_le_eq, linarith+)
    have ne: "fn \<noteq> sn" using Cons.prems by simp
    have top: "fn = 2 ^ Suc b - 1 \<Longrightarrow> odd fn" by simp
    have b: "fn div 2 < 2 ^ b" "2 ^ b \<le> sn div 2" "sn div 2 < 2 * 2 ^ b" using Cons.prems Suc by auto
    show ?thesis using Cons.IH [OF b] nz ne top Suc e by (auto simp del: power_Suc)
  qed
qed

lemma ascend_shift:
  "even m \<Longrightarrow> 0 < m \<Longrightarrow> m < 2 ^ j \<Longrightarrow>
     \<exists>l x. ascend m m = (x, x) \<and> odd x \<and> l < j \<and> x < 2 ^ (j - l) \<and> ascend (m + 2 ^ j) (m + 2 ^ j) = (x + 2 ^ (j - l), x + 2 ^ (j - l))"
proof (induction m arbitrary: j rule: less_induct)
  case (less m)
  then obtain i where j: "j = Suc i" by (cases j) auto
  let ?h = "m div 2"
  have h: "0 < ?h" "?h < 2 ^ i" "(m + 2 ^ j) div 2 = ?h + 2 ^ i" using less.prems j by auto
  show ?case
  proof (cases "odd ?h")
    case True
    have i: "i \<noteq> 0" using h by (cases i) auto
    then have "odd (?h + 2 ^ i)" using True by simp
    then have "ascend m m = (?h, ?h) \<and> odd ?h \<and> 1 < j \<and> ?h < 2 ^ (j - 1)
        \<and> ascend (m + 2 ^ j) (m + 2 ^ j) = (?h + 2 ^ (j - 1), ?h + 2 ^ (j - 1))"
      using True h j i ascend.simps [of m m] ascend.simps [of "m + 2 ^ j" "m + 2 ^ j"] by (simp del: power_Suc)
    then show ?thesis by blast
  next
    case False
    then obtain l x where x: "ascend ?h ?h = (x, x)" "odd x" "l < i" "x < 2 ^ (i - l)"
      "ascend (?h + 2 ^ i) (?h + 2 ^ i) = (x + 2 ^ (i - l), x + 2 ^ (i - l))"
      using less.IH [of ?h i] h less.prems by auto
    have "even (?h + 2 ^ i)" using False x(3) by simp
    then have "ascend (m + 2 ^ j) (m + 2 ^ j) = ascend (?h + 2 ^ i) (?h + 2 ^ i)" "ascend m m = ascend ?h ?h"
      using False h ascend.simps [of m m] ascend.simps [of "m + 2 ^ j" "m + 2 ^ j"] by simp_all
    then have "ascend m m = (x, x) \<and> odd x \<and> Suc l < j \<and> x < 2 ^ (j - Suc l)
        \<and> ascend (m + 2 ^ j) (m + 2 ^ j) = (x + 2 ^ (j - Suc l), x + 2 ^ (j - Suc l))"
      using x j by simp
    then show ?thesis by blast
  qed
qed

lemma ascend_power: "0 < j \<Longrightarrow> ascend (2 ^ j) (2 ^ j) = (1, 1)"
proof (induction j)
  case (Suc j)
  show ?case
  proof (cases "j = 0")
    case False
    then have "ascend (2 ^ Suc j) (2 ^ Suc j) = ascend (2 ^ j) (2 ^ j)"
      by (subst ascend.simps) simp
    then show ?thesis using Suc False by simp
  qed (simp add: ascend.simps)
qed simp

lemma walk_top: "walk r fn 0 (q @ [p]) = None"
  by (cases q) auto

lemma walk_right:
  "fn \<le> sn \<Longrightarrow> sn < 2 ^ j \<Longrightarrow>
     walk r (fn + 2 ^ j) (sn + 2 ^ j) (q @ [p]) = map_option (\<lambda>r. hashChildren p r) (walk r fn sn q)"
proof (induction q arbitrary: r fn sn j)
  case Nil
  show ?case
  proof (cases "sn = 0")
    case True
    then show ?thesis using Nil by (cases j) (auto simp: ascend_power simp del: power_Suc)
  next
    case False
    then obtain i where j: "j = Suc i" using Nil by (cases j) auto
    have "sn + 2 ^ j \<noteq> 0" "(sn + 2 ^ j) div 2 \<noteq> 0" using j by auto
    moreover have "snd (ascend (sn + 2 ^ j) (sn + 2 ^ j)) div 2 \<noteq> 0" if ev: "even sn"
    proof -
      obtain l x where x: "odd x" "ascend (sn + 2 ^ j) (sn + 2 ^ j) = (x + 2 ^ (j - l), x + 2 ^ (j - l))"
        using ascend_shift [of sn j] ev False Nil by auto
      have "1 \<le> x" "1 \<le> (2::nat) ^ (j - l)" using x(1) by (auto intro: Suc_leI simp: odd_pos)
      then have "(x + 2 ^ (j - l)) div 2 \<noteq> 0" by linarith
      then show ?thesis using x(2) by simp
    qed
    ultimately show ?thesis using False j Nil
      by (cases "ascend (sn + 2 ^ j) (sn + 2 ^ j)") (auto simp del: power_Suc)
  qed
next
  case (Cons x q)
  show ?case
  proof (cases "sn = 0")
    case True
    then show ?thesis using Cons.prems
      by (cases j) (auto simp: ascend_power walk_top simp del: power_Suc)
  next
    case False
    then obtain i where j: "j = Suc i" using Cons.prems by (cases j) auto
    have halve: "(n + 2 ^ j) div 2 = n div 2 + 2 ^ i" for n :: nat using j by simp
    have par: "odd (fn + 2 ^ j) = odd fn" using j by simp
    show ?thesis
    proof (cases "even fn \<and> fn = sn")
      case True
      then obtain l y where y: "ascend fn sn = (y, y)" "y < 2 ^ (j - l)" "l < j"
        "ascend (fn + 2 ^ j) (sn + 2 ^ j) = (y + 2 ^ (j - l), y + 2 ^ (j - l))"
        using ascend_shift [of sn j] False Cons.prems by auto
      then obtain k where k: "j - l = Suc k" by (metis Suc_diff_Suc)
      have "(y + 2 ^ (j - l)) div 2 = y div 2 + 2 ^ k" "y div 2 < 2 ^ k" using k y(2) by auto
      moreover have "fn = sn" "even sn" using True by auto
      ultimately show ?thesis using Cons.IH [of "y div 2" "y div 2" k] False y j
        by (simp del: power_Suc)
    next
      case nb: False
      have "fn div 2 \<le> sn div 2" "sn div 2 < 2 ^ i" using Cons.prems j by auto
      from Cons.IH [OF this] show ?thesis using nb False par halve by auto
    qed
  qed
qed

lemma walk_rootFrom: "i < n \<Longrightarrow> walk leaf i (n - 1) path = rootFrom leaf i n path"
proof (induction n arbitrary: i path rule: less_induct)
  case (less n)
  show ?case
  proof (cases "n \<le> 1")
    case True
    then have "n = 1" "i = 0" using less.prems by auto
    then show ?thesis by (cases path) (auto simp: rootFrom.simps)
  next
    case big: False
    then obtain b where b: "largestPowerOfTwoLessThan n = 2 ^ b" "2 ^ b < n" "n \<le> 2 * 2 ^ b"
      by (metis linorder_not_le split_spec)
    show ?thesis
    proof (cases path rule: rev_cases)
      case Nil
      then show ?thesis using big by (simp add: rootFrom.simps)
    next
      case (snoc q p)
      have p0: "0 < (2::nat) ^ b" by simp
      show ?thesis
      proof (cases "i < 2 ^ b")
        case True
        have "walk leaf i (n - 1) (q @ [p]) = map_option (\<lambda>r. hashChildren r p) (walk leaf i (2 ^ b - 1) q)"
          using True b by (intro walk_left) auto
        then show ?thesis using less.IH [of "2 ^ b" i q] True b big snoc
          by (simp add: rootFrom.simps [of leaf i n])
      next
        case False
        have "walk leaf ((i - 2 ^ b) + 2 ^ b) ((n - 2 ^ b - 1) + 2 ^ b) (q @ [p])
            = map_option (\<lambda>r. hashChildren p r) (walk leaf (i - 2 ^ b) (n - 2 ^ b - 1) q)"
          using b less.prems False by (intro walk_right) auto
        moreover have "(i - 2 ^ b) + 2 ^ b = i" "(n - 2 ^ b - 1) + 2 ^ b = n - 1" using False b by auto
        moreover have "walk leaf (i - 2 ^ b) (n - 2 ^ b - 1) q = rootFrom leaf (i - 2 ^ b) (n - 2 ^ b) q"
          using less.prems False b p0 by (intro less.IH) auto
        ultimately show ?thesis using False b big snoc by (simp add: rootFrom.simps [of leaf i n] Let_def)
      qed
    qed
  qed
qed

lemma recomputeRoot_rootFrom:
  "recomputeRoot leaf i n path = (if i < n then rootFrom leaf i n path else None)"
  using walk_rootFrom [of i n leaf path] by (simp add: recomputeRoot_def)

text \<open>
  C9: the verifier's loop on the bits of the index computes, for every path, index and tree
  size, what the recursive definition of RFC 6962 does, and it rejects a path of a wrong
  length.
\<close>

theorem recomputeRoot_rfc6962:
  "recomputeRoot leaf i n path = (if i < n then rootFrom leaf i n path else None)"
  by (rule recomputeRoot_rootFrom)

subsection \<open>Completeness\<close>

lemma rootFrom_inclusionProof:
  "i < length es \<Longrightarrow> rootFrom (hashLeaf (es ! i)) i (length es) (inclusionProof_at es i) = Some (merkleRoot es)"
proof (induction es i rule: inclusionProof_at.induct)
  case (1 es i)
  show ?case
  proof (cases "length es = 1")
    case True
    then obtain e where "es = [e]" by (metis One_nat_def length_0_conv length_Suc_conv)
    then show ?thesis using 1(3) by (simp add: rootFrom.simps inclusionProof_at.simps merkle_single)
  next
    case False
    then have big: "1 < length es" using 1(3) by linarith
    let ?k = "largestPowerOfTwoLessThan (length es)"
    have k: "0 < ?k" "?k < length es" using split_bounds [OF big] by auto
    show ?thesis
    proof (cases "i < ?k")
      case True
      have "rootFrom (hashLeaf (take ?k es ! i)) i (length (take ?k es)) (inclusionProof_at (take ?k es) i)
          = Some (merkleRoot (take ?k es))"
        using 1(1) True False 1(3) k by simp
      then show ?thesis using True False 1(3) k big
        by (simp add: rootFrom.simps [of _ i "length es"] inclusionProof_at.simps [of es] Let_def merkle_split)
    next
      case f: False
      have "rootFrom (hashLeaf (drop ?k es ! (i - ?k))) (i - ?k) (length (drop ?k es)) (inclusionProof_at (drop ?k es) (i - ?k))
          = Some (merkleRoot (drop ?k es))"
        using 1(2) f False 1(3) k by simp
      then show ?thesis using f False 1(3) k big
        by (simp add: rootFrom.simps [of _ i "length es"] inclusionProof_at.simps [of es] Let_def merkle_split)
    qed
  qed
qed

lemma inclusion_complete:
  assumes "0 \<le> i" and "i < int (length es)"
  shows "verifyInclusion (es ! nat i) i (int (length es)) (inclusionProof es i) (merkleRoot es)"
proof -
  have "nat i < length es" using assms by linarith
  then show ?thesis using assms rootFrom_inclusionProof [of "nat i" es]
    by (simp add: verifyInclusion_def recomputeRoot_rootFrom inclusionProof_def)
qed

text \<open>
  every entry of a log has a proof the verifier accepts: the audit path computed for an
  index recomputes, from the entry, the index and the size alone, to the root of the tree.
\<close>

theorem verifyInclusion_complete:
  assumes "0 \<le> i" and "i < int (length es)"
  shows "verifyInclusion (es ! nat i) i (int (length es)) (inclusionProof es i) (merkleRoot es)"
  by (rule inclusion_complete [OF assms])

theorem verifyInclusion_complete_witness:
  "verifyInclusion ''c'' 2 5 (inclusionProof [''a'', ''b'', ''c'', ''d'', ''e''] 2) (merkleRoot [''a'', ''b'', ''c'', ''d'', ''e''])"
  using verifyInclusion_complete [of 2 "[''a'', ''b'', ''c'', ''d'', ''e'']"] by (simp add: numeral_2_eq_2)

subsection \<open>Soundness\<close>

text \<open>The strings hashed by \<^verbatim>\<open>merkleRoot\<close>, and those hashed along a path.\<close>

function treeInputs :: "bytes list \<Rightarrow> bytes set" where
  "treeInputs es =
     (if length es \<le> 1 then (\<lambda>e. leafPrefix # e) ` set es
      else let k = largestPowerOfTwoLessThan (length es); l = take k es; r = drop k es
        in insert (nodePrefix # merkleRoot l @ merkleRoot r) (treeInputs l \<union> treeInputs r))"
  by pat_completeness auto
termination
proof (relation "measure length", goal_cases)
  case (2 es k l r)
  then show ?case using split_bounds [of "length es"] by simp
next
  case (3 es k l r)
  then show ?case using split_bounds [of "length es"] by (auto intro: diff_less)
qed simp

declare treeInputs.simps [simp del]

function pathInputs :: "bytes \<Rightarrow> nat \<Rightarrow> nat \<Rightarrow> bytes list \<Rightarrow> bytes set" where
  "pathInputs entry i n path =
     (if n \<le> 1 \<or> path = [] then {leafPrefix # entry}
      else let k = largestPowerOfTwoLessThan n; q = butlast path; p = last path in
        if i < k then (\<lambda>r. nodePrefix # r @ p) ` set_option (rootFrom (hashLeaf entry) i k q) \<union> pathInputs entry i k q
        else (\<lambda>r. nodePrefix # p @ r) ` set_option (rootFrom (hashLeaf entry) (i - k) (n - k) q)
          \<union> pathInputs entry (i - k) (n - k) q)"
  by pat_completeness auto
termination
proof (relation "measure (\<lambda>(e, i, n, p). n)", goal_cases)
  case (2 entry i n path k q p)
  then show ?case using split_bounds [of n] by simp
next
  case (3 entry i n path k q p)
  then show ?case using split_bounds [of n] by (auto intro: diff_less)
qed simp

declare pathInputs.simps [simp del]

definition collide :: "bytes set \<Rightarrow> bytes set \<Rightarrow> bool" where
  "collide A B \<longleftrightarrow> (\<exists>x \<in> A. \<exists>y \<in> B. x \<noteq> y \<and> sha256 x = sha256 y)"

lemma collide_mono: "collide A B \<Longrightarrow> A \<subseteq> A' \<Longrightarrow> B \<subseteq> B' \<Longrightarrow> collide A' B'"
  by (auto simp: collide_def)

lemma rootFrom_length: "rootFrom (hashLeaf e) i n path = Some r \<Longrightarrow> length r = 32"
  by (subst (asm) rootFrom.simps) (auto simp: Let_def split: if_splits)

lemma merkleRoot_length: "length (merkleRoot es) = 32"
  by (subst merkleRoot.simps) (simp add: Let_def)

lemma rootFrom_sound:
  assumes "rootFrom (hashLeaf entry) i (length es) path = Some (merkleRoot es)" and "i < length es"
  shows "entry = es ! i \<or> collide (treeInputs es) (pathInputs entry i (length es) path)"
  using assms
proof (induction es arbitrary: i path rule: length_induct)
  case (1 es)
  show ?case
  proof (cases "length es = 1")
    case True
    then obtain e where e: "es = [e]" by (metis One_nat_def length_0_conv length_Suc_conv)
    then have "hashLeaf entry = hashLeaf e" "i = 0" "path = []"
      using 1(2,3) by (auto simp: rootFrom.simps merkle_single split: if_splits)
    then show ?thesis using e
      by (auto simp: collide_def treeInputs.simps pathInputs.simps hashLeaf_def)
  next
    case False
    then have big: "1 < length es" using 1(3) by linarith
    let ?k = "largestPowerOfTwoLessThan (length es)"
    let ?l = "take ?k es" and ?r = "drop ?k es" and ?q = "butlast path" and ?p = "last path"
    have k: "0 < ?k" "?k < length es" using split_bounds [OF big] by auto
    have ne: "path \<noteq> []" using 1(2) big by (auto simp: rootFrom.simps)
    have tree: "treeInputs es = insert (nodePrefix # merkleRoot ?l @ merkleRoot ?r) (treeInputs ?l \<union> treeInputs ?r)"
      using big by (subst treeInputs.simps) (simp add: Let_def)
    have root: "merkleRoot es = sha256 (nodePrefix # merkleRoot ?l @ merkleRoot ?r)"
      using merkle_split [OF big] by (simp add: hashChildren_def)
    show ?thesis
    proof (cases "i < ?k")
      case True
      obtain r where r: "rootFrom (hashLeaf entry) i ?k ?q = Some r" "merkleRoot es = sha256 (nodePrefix # r @ ?p)"
        using 1(2) True big ne by (auto simp: rootFrom.simps [of _ i "length es"] Let_def hashChildren_def)
      have path: "pathInputs entry i (length es) path = insert (nodePrefix # r @ ?p) (pathInputs entry i ?k ?q)"
        using True big ne r(1) by (subst pathInputs.simps) (simp add: Let_def)
      show ?thesis
      proof (cases "r @ ?p = merkleRoot ?l @ merkleRoot ?r")
        case same: True
        then have "r = merkleRoot ?l" using rootFrom_length [OF r(1)] merkleRoot_length by simp
        then have "entry = ?l ! i \<or> collide (treeInputs ?l) (pathInputs entry i (length ?l) ?q)"
          using 1(1) r(1) True k by (metis length_take min.absorb4)
        then show ?thesis
        proof
          assume "collide (treeInputs ?l) (pathInputs entry i (length ?l) ?q)"
          then show ?thesis unfolding tree path using k by (intro disjI2, elim collide_mono) auto
        qed (use True in simp)
      next
        case False
        then show ?thesis using r(2) root unfolding tree path by (auto simp: collide_def)
      qed
    next
      case f: False
      obtain r where r: "rootFrom (hashLeaf entry) (i - ?k) (length es - ?k) ?q = Some r"
          "merkleRoot es = sha256 (nodePrefix # ?p @ r)"
        using 1(2) f big ne by (auto simp: rootFrom.simps [of _ i "length es"] Let_def hashChildren_def)
      have path: "pathInputs entry i (length es) path
          = insert (nodePrefix # ?p @ r) (pathInputs entry (i - ?k) (length es - ?k) ?q)"
        using f big ne r(1) by (subst pathInputs.simps) (simp add: Let_def)
      show ?thesis
      proof (cases "?p @ r = merkleRoot ?l @ merkleRoot ?r")
        case same: True
        then have "r = merkleRoot ?r" using rootFrom_length [OF r(1)] merkleRoot_length by simp
        moreover have "i - ?k < length ?r" "length ?r < length es" using f k 1(3) by auto
        ultimately have "entry = ?r ! (i - ?k) \<or> collide (treeInputs ?r) (pathInputs entry (i - ?k) (length ?r) ?q)"
          using r(1) by (intro 1(1) [rule_format]) auto
        then show ?thesis
        proof
          assume "collide (treeInputs ?r) (pathInputs entry (i - ?k) (length ?r) ?q)"
          then show ?thesis unfolding tree path by (intro disjI2, elim collide_mono) auto
        qed (use f k in simp)
      next
        case False
        then show ?thesis using r(2) root unfolding tree path by (auto simp: collide_def)
      qed
    qed
  qed
qed

lemma inclusion_sound:
  assumes "verifyInclusion entry i (int (length es)) path (merkleRoot es)"
  shows "entry = es ! nat i \<or> collide (treeInputs es) (pathInputs entry (nat i) (length es) path)"
proof (rule rootFrom_sound)
  have i: "0 \<le> i" "i < int (length es)" using assms by (auto simp: verifyInclusion_def split: if_splits)
  then show "nat i < length es" by linarith
  then show "rootFrom (hashLeaf entry) (nat i) (length es) path = Some (merkleRoot es)"
    using assms by (auto simp: verifyInclusion_def recomputeRoot_rootFrom split: if_splits option.splits)
qed

text \<open>
  C8: an accepted proof is for the entry at that index. If the verifier accepts an entry
  against the root of a log, then the entry is the one the log has there, or the strings hashed
  on the two sides exhibit a collision of SHA-256. No assumption is made on the path, which the
  prover chooses.
\<close>

theorem verifyInclusion_sound:
  assumes "verifyInclusion entry i (int (length es)) path (merkleRoot es)"
  shows "entry = es ! nat i \<or> collide (treeInputs es) (pathInputs entry (nat i) (length es) path)"
  by (rule inclusion_sound [OF assms])

theorem verifyInclusion_sound_witness:
  "collide (treeInputs [''a'', ''b'', ''c'']) (pathInputs ''b'' 1 3 (inclusionProof [''a'', ''b'', ''c''] 1))
     \<or> ''b'' = [''a'', ''b'', ''c''] ! nat 1"
  using verifyInclusion_sound [of "[''a'', ''b'', ''c''] ! nat 1" 1 "[''a'', ''b'', ''c'']" "inclusionProof [''a'', ''b'', ''c''] 1"]
    inclusion_complete [of 1 "[''a'', ''b'', ''c'']"] by simp

end
