(* ===== verification/SigLog.thy ===== *)
theory SigLog
  imports SigEnvelope SigMerkle
begin

text \<open>
  The transparency log (\<^verbatim>\<open>internal/sig/translog.go\<close>) on the Merkle tree of SigMerkle, and the
  bundles that carry envelopes with their proofs (\<^verbatim>\<open>bundle.go\<close>). A method of a log returns
  the log after it; the mutex is not modelled, each call is one step.
\<close>

record logEntry =
  leIndex :: int
  leHash :: string

record checkpoint =
  cpLogID :: string
  cpSize :: int
  cpRootHash :: string
  cpSignature :: string

record inclusionRecord =
  irEntry :: logEntry
  irCheckpoint :: checkpoint
  irProof :: "string list"

record transLog =
  tlSigner :: signer
  tlLogID :: string
  tlEntries :: "bytes list"

definition NewTransLog :: "signer \<Rightarrow> transLog" where
  "NewTransLog logKey = \<lparr> tlSigner = logKey, tlLogID = sgKeyID logKey, tlEntries = [] \<rparr>"

definition checkpointBody :: "checkpoint \<Rightarrow> bytes" where
  "checkpointBody cp =
     ''transparency-log-checkpoint'' @ [CHR 0x0A] @ ''log:'' @ cpLogID cp @ [CHR 0x0A] @
     ''size:'' @ fmt_int (cpSize cp) @ [CHR 0x0A] @ ''root:'' @ cpRootHash cp @ [CHR 0x0A]"

definition signCheckpoint :: "crypto \<Rightarrow> transLog \<Rightarrow> int \<Rightarrow> bytes \<Rightarrow> sig_err + checkpoint" where
  "signCheckpoint cr l tsize root =
     (let cp = \<lparr> cpLogID = tlLogID l, cpSize = tsize, cpRootHash = hex_encode root, cpSignature = [] \<rparr>
      in case signer_Sign cr (tlSigner l) (checkpointBody cp) of
           Inl e \<Rightarrow> Inl e
         | Inr raw \<Rightarrow> Inr (cp\<lparr> cpSignature := b64_encode raw \<rparr>))"

definition encodeProof :: "bytes list \<Rightarrow> string list" where
  "encodeProof path = map hex_encode path"

definition decodeProof :: "string list \<Rightarrow> sig_err + bytes list" where
  "decodeProof hexes = mapM_result (\<lambda>h. case hex_decode h of None \<Rightarrow> Inl ErrVerify | Some b \<Rightarrow> Inr b) hexes"

definition log_Append :: "crypto \<Rightarrow> transLog \<Rightarrow> bytes \<Rightarrow> transLog \<times> (sig_err + inclusionRecord)" where
  "log_Append cr l data =
     (let index = int (length (tlEntries l));
          l' = l\<lparr> tlEntries := tlEntries l @ [data] \<rparr>;
          tsize = int (length (tlEntries l'));
          root = merkleRoot (tlEntries l')
      in case signCheckpoint cr l' tsize root of
           Inl e \<Rightarrow> (l', Inl e)
         | Inr cp \<Rightarrow> (l', Inr \<lparr> irEntry = \<lparr> leIndex = index, leHash = hex_encode (sha256 data) \<rparr>,
             irCheckpoint = cp, irProof = encodeProof (inclusionProof (tlEntries l') index) \<rparr>))"

definition log_Checkpoint :: "crypto \<Rightarrow> transLog \<Rightarrow> sig_err + checkpoint" where
  "log_Checkpoint cr l = signCheckpoint cr l (int (length (tlEntries l))) (merkleRoot (tlEntries l))"

definition VerifyInclusion :: "crypto \<Rightarrow> inclusionRecord \<Rightarrow> bytes \<Rightarrow> verifier \<Rightarrow> sig_err option" where
  "VerifyInclusion cr rec loggedBytes logVerifier =
     (let cp = irCheckpoint rec in
      if cpLogID cp \<noteq> vfKeyID logVerifier then Some ErrUntrusted
      else case b64_decode (cpSignature cp) of
        None \<Rightarrow> Some ErrVerify
      | Some sigBytes \<Rightarrow>
          (case verifier_Verify cr logVerifier (checkpointBody cp) sigBytes of
             Some e \<Rightarrow> Some e
           | None \<Rightarrow>
               if hex_encode (sha256 loggedBytes) \<noteq> leHash (irEntry rec) then Some ErrVerify
               else case hex_decode (cpRootHash cp) of
                 None \<Rightarrow> Some ErrVerify
               | Some root \<Rightarrow>
                   (case decodeProof (irProof rec) of
                      Inl e \<Rightarrow> Some e
                    | Inr path \<Rightarrow>
                        if \<not> verifyInclusion loggedBytes (leIndex (irEntry rec)) (cpSize cp) path root
                        then Some ErrVerify else None)))"

subsection \<open>Bundles\<close>

definition BundleMediaType :: string where
  "BundleMediaType = ''application/vnd.docker-security.bundle.v1+json''"

definition KindSignature :: string where "KindSignature = ''signature''"
definition KindAttestation :: string where "KindAttestation = ''attestation''"

record bundleEntry =
  beKind :: string
  beEnvelope :: "envelope option"
  beInclusion :: "inclusionRecord option"

record sigBundle =
  buMediaType :: string
  buSubjectDigest :: string
  buEntries :: "bundleEntry list"

definition NewBundle :: "string \<Rightarrow> sig_err + sigBundle" where
  "NewBundle subjectDigest =
     (case validateDigest subjectDigest of
        Some e \<Rightarrow> Inl e
      | None \<Rightarrow> Inr \<lparr> buMediaType = BundleMediaType, buSubjectDigest = subjectDigest, buEntries = [] \<rparr>)"

definition AddSignature :: "sigBundle \<Rightarrow> envelope option \<Rightarrow> inclusionRecord option \<Rightarrow> sigBundle" where
  "AddSignature b env inc =
     b\<lparr> buEntries := buEntries b @ [\<lparr> beKind = KindSignature, beEnvelope = env, beInclusion = inc \<rparr>] \<rparr>"

definition AddAttestation :: "sigBundle \<Rightarrow> envelope option \<Rightarrow> inclusionRecord option \<Rightarrow> sigBundle" where
  "AddAttestation b env inc =
     b\<lparr> buEntries := buEntries b @ [\<lparr> beKind = KindAttestation, beEnvelope = env, beInclusion = inc \<rparr>] \<rparr>"

fun missing_envelope :: "nat \<Rightarrow> bundleEntry list \<Rightarrow> sig_err option" where
  "missing_envelope i [] = None"
| "missing_envelope i (e # es) = (if beEnvelope e = None then Some (MissingEnvelope i) else missing_envelope (Suc i) es)"

definition ParseBundle :: "(bytes \<Rightarrow> sigBundle option) \<Rightarrow> bytes \<Rightarrow> sig_err + sigBundle" where
  "ParseBundle decode data =
     (case decode data of
        None \<Rightarrow> Inl ParseFailed
      | Some b \<Rightarrow>
          if buSubjectDigest b = [] then Inl MissingSubject
          else (case validateDigest (buSubjectDigest b) of
              Some e \<Rightarrow> Inl e
            | None \<Rightarrow> (case missing_envelope 0 (buEntries b) of Some e \<Rightarrow> Inl e | None \<Rightarrow> Inr b)))"

subsection \<open>Histories of a log\<close>

lemma decode_encodeProof [simp]: "decodeProof (encodeProof path) = Inr path"
  by (induction path) (simp_all add: decodeProof_def encodeProof_def)

lemma signCheckpoint_spec:
  assumes "crypto_ok cr" and "signCheckpoint cr l n root = Inr cp"
  shows "cpLogID cp = tlLogID l" "cpSize cp = n" "cpRootHash cp = hex_encode root"
    "\<exists>raw. b64_decode (cpSignature cp) = Some raw
       \<and> verifier_Verify cr (signer_Verifier cr (tlSigner l)) (checkpointBody cp) raw = None"
proof -
  let ?c = "\<lparr> cpLogID = tlLogID l, cpSize = n, cpRootHash = hex_encode root, cpSignature = [] \<rparr>"
  obtain raw where raw: "signer_Sign cr (tlSigner l) (checkpointBody ?c) = Inr raw" "cp = ?c\<lparr> cpSignature := b64_encode raw \<rparr>"
    using assms(2) by (auto simp: signCheckpoint_def Let_def split: sum.splits)
  moreover have "checkpointBody cp = checkpointBody ?c" using raw(2) by (simp add: checkpointBody_def)
  ultimately show "\<exists>raw. b64_decode (cpSignature cp) = Some raw
       \<and> verifier_Verify cr (signer_Verifier cr (tlSigner l)) (checkpointBody cp) raw = None"
    using sign_verify [OF assms(1)] by auto
  show "cpLogID cp = tlLogID l" "cpSize cp = n" "cpRootHash cp = hex_encode root" using raw(2) by auto
qed

lemma Append_verifies:
  assumes cr: "crypto_ok cr" and ident: "tlLogID l = sgKeyID (tlSigner l)" and app: "log_Append cr l data = (l', Inr rec)"
  shows "VerifyInclusion cr rec data (signer_Verifier cr (tlSigner l)) = None"
    and "leIndex (irEntry rec) = int (length (tlEntries l))"
    and "cpSize (irCheckpoint rec) = int (Suc (length (tlEntries l)))"
    and "cpRootHash (irCheckpoint rec) = hex_encode (merkleRoot (tlEntries l @ [data]))"
proof -
  let ?l = "l\<lparr> tlEntries := tlEntries l @ [data] \<rparr>" and ?n = "int (length (tlEntries l))"
  obtain cp where cp: "signCheckpoint cr ?l (?n + 1) (merkleRoot (tlEntries l @ [data])) = Inr cp"
    and r: "rec = \<lparr> irEntry = \<lparr> leIndex = ?n, leHash = hex_encode (sha256 data) \<rparr>, irCheckpoint = cp,
        irProof = encodeProof (inclusionProof (tlEntries l @ [data]) ?n) \<rparr>"
    using app by (auto simp: log_Append_def Let_def add.commute split: sum.splits)
  note spec = signCheckpoint_spec [OF cr cp]
  have "verifyInclusion data ?n (?n + 1) (inclusionProof (tlEntries l @ [data]) ?n) (merkleRoot (tlEntries l @ [data]))"
    using inclusion_complete [of ?n "tlEntries l @ [data]"] by (simp add: add.commute)
  then show "VerifyInclusion cr rec data (signer_Verifier cr (tlSigner l)) = None"
    using spec ident r by (auto simp: VerifyInclusion_def Let_def)
  show "leIndex (irEntry rec) = ?n" "cpSize (irCheckpoint rec) = int (Suc (length (tlEntries l)))"
    "cpRootHash (irCheckpoint rec) = hex_encode (merkleRoot (tlEntries l @ [data]))"
    using r spec by auto
qed

lemma Append_frame [simp]:
  "tlEntries (fst (log_Append cr l data)) = tlEntries l @ [data]"
  "tlSigner (fst (log_Append cr l data)) = tlSigner l"
  "tlLogID (fst (log_Append cr l data)) = tlLogID l"
  by (simp_all add: log_Append_def Let_def split: sum.splits)

text \<open>A run of appends: the logs in between are threaded, the results collected.\<close>

fun log_run :: "crypto \<Rightarrow> transLog \<Rightarrow> bytes list \<Rightarrow> (sig_err + inclusionRecord) list" where
  "log_run cr l [] = []"
| "log_run cr l (d # ds) = snd (log_Append cr l d) # log_run cr (fst (log_Append cr l d)) ds"

lemma log_run_length [simp]: "length (log_run cr l ds) = length ds"
  by (induction ds arbitrary: l) auto

lemma log_run_spec:
  assumes "crypto_ok cr" and "tlLogID l = sgKeyID (tlSigner l)" and "i < length ds" and "log_run cr l ds ! i = Inr rec"
  shows "VerifyInclusion cr rec (ds ! i) (signer_Verifier cr (tlSigner l)) = None
    \<and> leIndex (irEntry rec) = int (length (tlEntries l) + i)
    \<and> cpRootHash (irCheckpoint rec) = hex_encode (merkleRoot (tlEntries l @ take (Suc i) ds))"
  using assms
proof (induction ds arbitrary: l i)
  case (Cons d ds)
  show ?case
  proof (cases i)
    case 0
    then have "log_Append cr l d = (fst (log_Append cr l d), Inr rec)" using Cons.prems(4) by (simp add: prod_eq_iff)
    from Append_verifies [OF Cons.prems(1,2) this] show ?thesis using 0 by simp
  next
    case (Suc j)
    then show ?thesis using Cons.IH [of "fst (log_Append cr l d)" j] Cons.prems by simp
  qed
qed simp

text \<open>
  C10: a log is honest about its history. In a run of appends on a new log, the record returned
  for each append is accepted by the log's verifier for the bytes that were appended, names the
  position of the append, and its checkpoint is the root of exactly the prefix of the history up
  to it.
\<close>

theorem log_history:
  assumes "crypto_ok cr" and "i < length ds" and "log_run cr (NewTransLog s) ds ! i = Inr rec"
  shows "VerifyInclusion cr rec (ds ! i) (signer_Verifier cr s) = None
    \<and> leIndex (irEntry rec) = int i
    \<and> cpRootHash (irCheckpoint rec) = hex_encode (merkleRoot (take (Suc i) ds))"
  using log_run_spec [OF assms(1) _ assms(2,3)] by (simp add: NewTransLog_def)

text \<open>
  Primitives for examples: signing prefixes the key, checking compares, the codecs tag their
  input.
\<close>

definition crypto0 :: crypto where
  "crypto0 = \<lparr> crEdPublic = (\<lambda>k. k), crEdSign = (\<lambda>k m. k @ m), crEdVerify = (\<lambda>k m s. s = k @ m),
     crEcPublic = (\<lambda>k. k), crEcSign = (\<lambda>k d. None), crEcVerify = (\<lambda>k d s. False),
     crMarshalPKIX = (\<lambda>k. case k of Ed25519Pub b \<Rightarrow> Some b | _ \<Rightarrow> None), crParsePKIX = (\<lambda>b. Some (Ed25519Pub b)),
     crMarshalPKCS8 = (\<lambda>k. case k of Ed25519Priv b \<Rightarrow> Some b | _ \<Rightarrow> None), crParsePKCS8 = (\<lambda>b. Some (Ed25519Priv b)),
     crPemEncode = (\<lambda>t b. itoa_nat (length t) @ CHR '' '' # t @ b),
     crPemDecode = (\<lambda>s. map_option (\<lambda>(n, r). (take (digits_val 0 n) r, drop (digits_val 0 n) r)) (cut_byte CHR '' '' s)) \<rparr>"

lemma crypto0_ok: "crypto_ok crypto0"
proof -
  have "CHR '' '' \<notin> set (itoa_nat n)" for n using itoa_nat_digits space_not_digit by blast
  then show ?thesis
    by (auto simp: crypto_ok_def crypto0_def digits_val_itoa split: pubKey.splits privKey.splits)
qed

theorem log_history_witness:
  "\<exists>rec. log_run crypto0 (NewTransLog (Ed25519Signer ''k'' ''id'')) [''a'', ''b'', ''c''] ! 1 = Inr rec
     \<and> VerifyInclusion crypto0 rec ''b'' (Ed25519Verifier ''k'' ''id'') = None \<and> leIndex (irEntry rec) = 1"
proof -
  let ?l = "NewTransLog (Ed25519Signer ''k'' ''id'')"
  have "log_run crypto0 ?l [''a'', ''b'', ''c''] ! 1 = snd (log_Append crypto0 (fst (log_Append crypto0 ?l ''a'')) ''b'')"
    by simp
  then obtain rec where r: "log_run crypto0 ?l [''a'', ''b'', ''c''] ! 1 = Inr rec"
    by (simp add: log_Append_def signCheckpoint_def crypto0_def NewTransLog_def Let_def)
  have "crEdPublic crypto0 k = k" for k by (simp add: crypto0_def)
  with log_history [OF crypto0_ok _ r] r show ?thesis by simp
qed

text \<open>
  what an accepted record proves. If a verifier accepts a record for some bytes, the
  checkpoint names that verifier's key and is signed by it, the entry hash is the hash of the
  bytes, and against any log whose size and root the checkpoint states, the bytes are the log's
  entry at the recorded index unless SHA-256 collides on the hashed strings.
\<close>

theorem VerifyInclusion_sound:
  assumes "VerifyInclusion cr rec data v = None"
  shows "cpLogID (irCheckpoint rec) = vfKeyID v
    \<and> (\<exists>raw. b64_decode (cpSignature (irCheckpoint rec)) = Some raw
         \<and> verifier_Verify cr v (checkpointBody (irCheckpoint rec)) raw = None)
    \<and> leHash (irEntry rec) = hex_encode (sha256 data)
    \<and> (\<exists>path. decodeProof (irProof rec) = Inr path
         \<and> (\<forall>es. hex_decode (cpRootHash (irCheckpoint rec)) = Some (merkleRoot es) \<and> cpSize (irCheckpoint rec) = int (length es)
             \<longrightarrow> data = es ! nat (leIndex (irEntry rec))
               \<or> collide (treeInputs es) (pathInputs data (nat (leIndex (irEntry rec))) (length es) path)))"
proof -
  obtain raw root path where
    "cpLogID (irCheckpoint rec) = vfKeyID v" "b64_decode (cpSignature (irCheckpoint rec)) = Some raw"
    "verifier_Verify cr v (checkpointBody (irCheckpoint rec)) raw = None"
    "hex_encode (sha256 data) = leHash (irEntry rec)" "hex_decode (cpRootHash (irCheckpoint rec)) = Some root"
    "decodeProof (irProof rec) = Inr path"
    and inc: "verifyInclusion data (leIndex (irEntry rec)) (cpSize (irCheckpoint rec)) path root"
    using assms by (auto simp: VerifyInclusion_def Let_def split: if_splits option.splits sum.splits)
  moreover have "data = es ! nat (leIndex (irEntry rec))
      \<or> collide (treeInputs es) (pathInputs data (nat (leIndex (irEntry rec))) (length es) path)"
    if "root = merkleRoot es" "cpSize (irCheckpoint rec) = int (length es)" for es
    using inc that by (intro inclusion_sound) simp
  ultimately show ?thesis by auto
qed

theorem VerifyInclusion_sound_witness:
  "\<exists>rec. VerifyInclusion crypto0 rec ''a'' (Ed25519Verifier ''k'' ''id'') = None
     \<and> leHash (irEntry rec) = hex_encode (sha256 ''a'')"
proof -
  let ?l = "NewTransLog (Ed25519Signer ''k'' ''id'')"
  obtain rec where r: "log_run crypto0 ?l [''a''] ! 0 = Inr rec"
    by (simp add: log_Append_def signCheckpoint_def crypto0_def NewTransLog_def Let_def)
  have pub: "crEdPublic crypto0 k = k" for k by (simp add: crypto0_def)
  have "VerifyInclusion crypto0 rec ''a'' (Ed25519Verifier ''k'' ''id'') = None"
    using log_run_spec [OF crypto0_ok _ _ r] pub by (simp add: NewTransLog_def)
  from this VerifyInclusion_sound [OF this] show ?thesis by blast
qed

end
