(* ===== verification/SigAttest.thy ===== *)
theory SigAttest
  imports SigLog
begin

text \<open>
  In-toto statements and their verification (\<^verbatim>\<open>internal/attest\<close>). The JSON codec is a
  parameter: \<open>encode\<close> and \<open>decode\<close> of a statement, and \<^verbatim>\<open>json.Valid\<close>.
\<close>

definition InTotoStatementType :: string where
  "InTotoStatementType = ''https://in-toto.io/Statement/v1''"

definition InTotoPayloadType :: string where
  "InTotoPayloadType = ''application/vnd.in-toto+json''"

definition PredicateSLSAProvenance :: string where "PredicateSLSAProvenance = ''https://slsa.dev/provenance/v1''"
definition PredicateVSA :: string where "PredicateVSA = ''https://slsa.dev/verification_summary/v1''"
definition PredicateOpenVEX :: string where "PredicateOpenVEX = ''https://openvex.dev/ns/v0.2.0''"
definition PredicateCycloneDX :: string where "PredicateCycloneDX = ''https://cyclonedx.org/bom''"
definition PredicateSPDX :: string where "PredicateSPDX = ''https://spdx.dev/Document''"
definition PredicateAgentAction :: string where
  "PredicateAgentAction = ''https://docker-security.dev/attestations/agent-action/v0.1''"

record statementSubject =
  suName :: string
  suDigest :: "string \<rightharpoonup> string"

record statement =
  stType :: string
  stSubject :: "statementSubject list"
  stPredicateType :: string
  stPredicate :: bytes

datatype attest_err =
    AttestSig sig_err
  | NoExpectedDigest
  | PromptLength
  | PromptNotHex
  | NoAgentID
  | InvalidSBOM
  | StatementMalformed
  | StatementType string
  | StatementNoSubject
  | NoPredicate

fun splitDigest :: "string \<Rightarrow> string \<times> string" where
  "splitDigest d = (case cut_byte CHR '':'' d of Some (a, h) \<Rightarrow> (a, h) | None \<Rightarrow> (''sha256'', d))"

declare splitDigest.simps [simp del]

definition NewStatement :: "string \<Rightarrow> string \<Rightarrow> string \<Rightarrow> bytes \<Rightarrow> attest_err + statement" where
  "NewStatement subjectName subjectDigest predicateType predicate =
     (case validateDigest subjectDigest of
        Some e \<Rightarrow> Inl (AttestSig e)
      | None \<Rightarrow> (case splitDigest subjectDigest of (alg, hexDigest) \<Rightarrow>
          Inr \<lparr> stType = InTotoStatementType,
            stSubject = [\<lparr> suName = subjectName, suDigest = [alg \<mapsto> hexDigest] \<rparr>],
            stPredicateType = predicateType, stPredicate = predicate \<rparr>))"

definition ParseStatement :: "(bytes \<Rightarrow> statement option) \<Rightarrow> bytes \<Rightarrow> attest_err + statement" where
  "ParseStatement decode data =
     (case decode data of
        None \<Rightarrow> Inl StatementMalformed
      | Some s \<Rightarrow>
          if stType s \<noteq> InTotoStatementType then Inl (StatementType (stType s))
          else if stSubject s = [] then Inl StatementNoSubject
          else Inr s)"

fun SubjectDigest_loop :: "statementSubject list \<Rightarrow> string" where
  "SubjectDigest_loop [] = []"
| "SubjectDigest_loop (u # us) =
     (case suDigest u ''sha256'' of Some h \<Rightarrow> ''sha256:'' @ h | None \<Rightarrow> SubjectDigest_loop us)"

definition SubjectDigest :: "statement \<Rightarrow> string" where
  "SubjectDigest s = SubjectDigest_loop (stSubject s)"

definition attest_Sign ::
    "crypto \<Rightarrow> (statement \<Rightarrow> bytes option) \<Rightarrow> statement \<Rightarrow> signer list \<Rightarrow> attest_err + envelope" where
  "attest_Sign cr encode st signers =
     (case encode st of
        None \<Rightarrow> Inl (AttestSig MarshalFailed)
      | Some body \<Rightarrow> (case SignEnvelope cr InTotoPayloadType body signers of
          Inl e \<Rightarrow> Inl (AttestSig e) | Inr env \<Rightarrow> Inr env))"

subsection \<open>Predicates\<close>

definition SBOMPredicateType :: "string \<Rightarrow> string" where
  "SBOMPredicateType format = (if format = ''spdx'' then PredicateSPDX else PredicateCycloneDX)"

definition NewSBOMStatement :: "(bytes \<Rightarrow> bool) \<Rightarrow> string \<Rightarrow> string \<Rightarrow> string \<Rightarrow> bytes \<Rightarrow> attest_err + statement" where
  "NewSBOMStatement valid subjectName subjectDigest format sbomJSON =
     (if \<not> valid sbomJSON then Inl InvalidSBOM
      else NewStatement subjectName subjectDigest (SBOMPredicateType format) sbomJSON)"

record agentAction =
  aaAgentID :: string
  aaAgentModel :: string
  aaAgentVersion :: string
  aaPromptSHA256 :: string
  aaPromptSummary :: string
  aaActionType :: string
  aaActionTool :: string
  aaActionTarget :: string

definition HashPrompt :: "bytes \<Rightarrow> string" where
  "HashPrompt prompt = hex_encode (sha256 prompt)"

definition NewAgentActionStatement ::
    "(agentAction \<Rightarrow> bytes) \<Rightarrow> string \<Rightarrow> string \<Rightarrow> agentAction \<Rightarrow> attest_err + statement" where
  "NewAgentActionStatement encode subjectName subjectDigest action =
     (if length (aaPromptSHA256 action) \<noteq> 64 then Inl PromptLength
      else if hex_decode (aaPromptSHA256 action) = None then Inl PromptNotHex
      else if aaAgentID action = [] then Inl NoAgentID
      else NewStatement subjectName subjectDigest PredicateAgentAction (encode action))"

subsection \<open>Verification\<close>

record requirement =
  rqExpectedDigest :: string
  rqPredicateType :: string
  rqPolicy :: sigPolicy

record attestResult =
  arSigner :: verifyResult
  arStatement :: statement

fun hasSubject_loop :: "string \<Rightarrow> string \<Rightarrow> statementSubject list \<Rightarrow> bool" where
  "hasSubject_loop alg h [] = False"
| "hasSubject_loop alg h (u # us) = (if suDigest u alg = Some h then True else hasSubject_loop alg h us)"

definition hasSubjectDigest :: "statement \<Rightarrow> string \<Rightarrow> bool" where
  "hasSubjectDigest s want = (case splitDigest want of (alg, h) \<Rightarrow> hasSubject_loop alg h (stSubject s))"

definition attest_Verify ::
    "crypto \<Rightarrow> (bytes \<Rightarrow> statement option) \<Rightarrow> trustedKey list \<Rightarrow> envelope \<Rightarrow> requirement \<Rightarrow> attest_err + attestResult" where
  "attest_Verify cr decode ks env req =
     (if rqExpectedDigest req = [] then Inl NoExpectedDigest
      else case validateDigest (rqExpectedDigest req) of
        Some e \<Rightarrow> Inl (AttestSig e)
      | None \<Rightarrow> (case trust_Verify cr ks env (rqPolicy req) of
          Inl e \<Rightarrow> Inl (AttestSig e)
        | Inr who \<Rightarrow>
            if envPayloadType env \<noteq> InTotoPayloadType then Inl (AttestSig ErrVerify)
            else (case DecodePayload env of
              Inl e \<Rightarrow> Inl (AttestSig e)
            | Inr payload \<Rightarrow> (case ParseStatement decode payload of
                Inl e \<Rightarrow> Inl e
              | Inr st \<Rightarrow>
                  if \<not> hasSubjectDigest st (rqExpectedDigest req) then Inl (AttestSig ErrVerify)
                  else if rqPredicateType req \<noteq> [] \<and> stPredicateType st \<noteq> rqPredicateType req then Inl (AttestSig ErrVerify)
                  else Inr \<lparr> arSigner = who, arStatement = st \<rparr>))))"

lemma hasSubjectDigest_iff:
  "hasSubjectDigest s want \<longleftrightarrow>
     (\<exists>u \<in> set (stSubject s). suDigest u (fst (splitDigest want)) = Some (snd (splitDigest want)))"
proof -
  have "hasSubject_loop alg h us \<longleftrightarrow> (\<exists>u \<in> set us. suDigest u alg = Some h)" for alg h us
    by (induction us) auto
  then show ?thesis by (simp add: hasSubjectDigest_def split: prod.splits)
qed

text \<open>
  What an accepted attestation is: the payload of the envelope is a statement about the digest,
  of the type asked for, and a trusted key the policy allows has signed that payload as an
  in-toto payload.
\<close>

definition attested ::
    "crypto \<Rightarrow> (bytes \<Rightarrow> statement option) \<Rightarrow> trustRoot \<Rightarrow> sigPolicy \<Rightarrow> envelope \<Rightarrow> string \<Rightarrow> statement \<Rightarrow> bool" where
  "attested cr decode t p env digest st \<longleftrightarrow>
     (\<exists>payload tk v. DecodePayload env = Inr payload \<and> decode payload = Some st \<and> stType st = InTotoStatementType
       \<and> envPayloadType env = InTotoPayloadType \<and> hasSubjectDigest st digest
       \<and> tk \<in> ran t \<and> policy_allows p tk \<and> tkVerifier tk = Some v \<and> signed_by cr env v payload)"

lemma accepts_signed:
  "accepts cr env tk \<longleftrightarrow> (\<exists>v payload. tkVerifier tk = Some v \<and> signed_by cr env v payload)"
  by (auto simp: accepts_def VerifyWith_iff)

lemma trust_Verify_Inr:
  assumes "ranges t ks" and "trust_Verify cr ks env p = Inr r" and "DecodePayload env = Inr payload"
  shows "\<exists>tk v. tk \<in> ran t \<and> policy_allows p tk \<and> tkVerifier tk = Some v \<and> signed_by cr env v payload
    \<and> r = \<lparr> vrKeyID = vfKeyID v, vrIdentity = tkIdentity tk, vrIssuer = tkIssuer tk \<rparr>"
proof -
  obtain tk v where tk: "tk \<in> ran t" "accepts cr env tk" "policy_allows p tk" "tkVerifier tk = Some v"
    "r = \<lparr> vrKeyID = vfKeyID v, vrIdentity = tkIdentity tk, vrIssuer = tkIssuer tk \<rparr>"
    using trust_Verify_spec [OF assms(1), of cr env p] assms(2) by auto
  then obtain payload' where s: "signed_by cr env v payload'" by (auto simp: accepts_signed)
  then have "payload' = payload" using assms(3) by (simp add: signed_by_def)
  then show ?thesis using tk s by blast
qed

lemma attest_Verify_attested:
  assumes "ranges t ks" and "attest_Verify cr decode ks env req = Inr r"
  shows "attested cr decode t (rqPolicy req) env (rqExpectedDigest req) (arStatement r)"
    and "rqPredicateType req \<noteq> [] \<longrightarrow> stPredicateType (arStatement r) = rqPredicateType req"
proof -
  obtain who payload st where v: "trust_Verify cr ks env (rqPolicy req) = Inr who" "envPayloadType env = InTotoPayloadType"
    "DecodePayload env = Inr payload" "ParseStatement decode payload = Inr st" "hasSubjectDigest st (rqExpectedDigest req)"
    "r = \<lparr> arSigner = who, arStatement = st \<rparr>" "rqPredicateType req \<noteq> [] \<longrightarrow> stPredicateType st = rqPredicateType req"
    using assms(2) by (auto simp: attest_Verify_def split: if_splits option.splits sum.splits)
  have "decode payload = Some st" "stType st = InTotoStatementType"
    using v(4) by (auto simp: ParseStatement_def split: option.splits if_splits)
  then show "attested cr decode t (rqPolicy req) env (rqExpectedDigest req) (arStatement r)"
    using v trust_Verify_Inr [OF assms(1) v(1) v(3)] unfolding attested_def by auto
  show "rqPredicateType req \<noteq> [] \<longrightarrow> stPredicateType (arStatement r) = rqPredicateType req" using v by simp
qed

end
