(* ===== verification/EngineModel.thy ===== *)
theory EngineModel
  imports SortSlice
begin

text \<open>
  The core of \<^verbatim>\<open>internal/engine\<close>: severities and findings (\<^verbatim>\<open>finding.go\<close>), the report
  (\<^verbatim>\<open>report.go\<close>), the module registry (\<^verbatim>\<open>module.go\<close>), a run of the engine
  (\<^verbatim>\<open>engine.go\<close>) and the classification of a target (\<^verbatim>\<open>target.go\<close>). A module is what
  the interface shows of it: its name, the targets it supports and what one call of its
  analysis does, a panic included. The context is the answer of \<^verbatim>\<open>ctx.Err()\<close> at each
  iteration of the loop, a Go map an association list or a function.
\<close>

subsection \<open>Severities and findings\<close>

type_synonym severity = int

definition SeverityUnknown :: severity where "SeverityUnknown = 0"
definition SeverityInfo :: severity where "SeverityInfo = 1"
definition SeverityLow :: severity where "SeverityLow = 2"
definition SeverityMedium :: severity where "SeverityMedium = 3"
definition SeverityHigh :: severity where "SeverityHigh = 4"
definition SeverityCritical :: severity where "SeverityCritical = 5"

lemmas severity_defs = SeverityUnknown_def SeverityInfo_def SeverityLow_def SeverityMedium_def
  SeverityHigh_def SeverityCritical_def

definition Severity_String :: "severity \<Rightarrow> string" where
  "Severity_String s =
     (if s = SeverityCritical then ''CRITICAL'' else if s = SeverityHigh then ''HIGH''
      else if s = SeverityMedium then ''MEDIUM'' else if s = SeverityLow then ''LOW''
      else if s = SeverityInfo then ''INFO'' else ''UNKNOWN'')"

definition ParseSeverity :: "string \<Rightarrow> severity" where
  "ParseSeverity s =
     (let u = strings_ToUpper (strings_TrimSpace s) in
      if u = ''CRITICAL'' then SeverityCritical else if u = ''HIGH'' then SeverityHigh
      else if u = ''MEDIUM'' then SeverityMedium else if u = ''LOW'' then SeverityLow
      else if u = ''INFO'' then SeverityInfo else SeverityUnknown)"

definition quote :: string where
  "quote = [CHR 0x22]"

definition Severity_MarshalJSON :: "severity \<Rightarrow> bytes" where
  "Severity_MarshalJSON s = quote @ Severity_String s @ quote"

definition Severity_UnmarshalJSON :: "bytes \<Rightarrow> severity" where
  "Severity_UnmarshalJSON data = ParseSeverity (trim_both (\<lambda>c. c = CHR 0x22) data)"

record location =
  locPath :: string
  locStartLine :: int
  locEndLine :: int

record finding =
  fRuleID :: string
  fModule :: string
  fSeverity :: severity
  fTitle :: string
  fDescription :: string
  fResource :: string
  fLocation :: "location option"
  fRemediation :: string
  fReferences :: "string list"
  fMetadata :: "(string \<times> string) list"

subsection \<open>Reports\<close>

record moduleRun =
  mrModule :: string
  mrError :: string

record report =
  rTool :: string
  rTargetType :: string
  rTarget :: string
  rGeneratedAt :: int
  rFindings :: "finding list"
  rModuleRuns :: "moduleRun list"

definition report_Add :: "report \<Rightarrow> finding list \<Rightarrow> report" where
  "report_Add r fs = r\<lparr> rFindings := rFindings r @ fs \<rparr>"

fun Counts_loop :: "(severity \<Rightarrow> int) \<Rightarrow> finding list \<Rightarrow> (severity \<Rightarrow> int)" where
  "Counts_loop m [] = m"
| "Counts_loop m (f # fs) = Counts_loop (m(fSeverity f := m (fSeverity f) + 1)) fs"

definition Counts :: "report \<Rightarrow> severity \<Rightarrow> int" where
  "Counts r = Counts_loop (\<lambda>s. 0) (rFindings r)"

fun Highest_loop :: "severity \<Rightarrow> finding list \<Rightarrow> severity" where
  "Highest_loop h [] = h"
| "Highest_loop h (f # fs) = Highest_loop (if fSeverity f > h then fSeverity f else h) fs"

definition Highest :: "report \<Rightarrow> severity" where
  "Highest r = Highest_loop SeverityUnknown (rFindings r)"

fun FailsAt_loop :: "severity \<Rightarrow> finding list \<Rightarrow> bool" where
  "FailsAt_loop t [] = False"
| "FailsAt_loop t (f # fs) = (if fSeverity f \<ge> t then True else FailsAt_loop t fs)"

definition FailsAt :: "report \<Rightarrow> severity \<Rightarrow> bool" where
  "FailsAt r threshold = (if threshold = SeverityUnknown then False else FailsAt_loop threshold (rFindings r))"

subsection \<open>Modules and the registry\<close>

text \<open>What \<^verbatim>\<open>Analyze\<close> does: it returns findings and an error (empty for none), or panics with a value.\<close>

datatype outcome = Returned "finding list" string | Panicked string

record engine_module =
  mName :: string
  mSupports :: "string \<Rightarrow> bool"
  mAnalyze :: "string \<Rightarrow> outcome"

record registry =
  regModules :: "string \<Rightarrow> engine_module option"
  regOrder :: "string list"

definition NewRegistry :: registry where
  "NewRegistry = \<lparr> regModules = Map.empty, regOrder = [] \<rparr>"

definition Register :: "registry \<Rightarrow> engine_module \<Rightarrow> registry" where
  "Register r m =
     r\<lparr> regOrder := (if regModules r (mName m) = None then regOrder r @ [mName m] else regOrder r),
        regModules := (regModules r)(mName m \<mapsto> m) \<rparr>"

definition reg_Get :: "registry \<Rightarrow> string \<Rightarrow> engine_module option" where
  "reg_Get r name = regModules r name"

definition reg_All :: "registry \<Rightarrow> engine_module list" where
  "reg_All r = map (\<lambda>n. the (regModules r n)) (regOrder r)"

definition reg_Names :: "registry \<Rightarrow> string list" where
  "reg_Names r = regOrder r"

subsection \<open>A run\<close>

record target =
  tType :: string
  tLocation :: string

definition runModule :: "engine_module \<Rightarrow> target \<Rightarrow> finding list \<times> string" where
  "runModule m t = (case mAnalyze m (tLocation t) of
      Returned fs e \<Rightarrow> (fs, e)
    | Panicked v \<Rightarrow> ([], ''panic: '' @ v))"

definition find_line :: "finding \<Rightarrow> int" where
  "find_line f = (case fLocation f of Some l \<Rightarrow> locStartLine l | None \<Rightarrow> 0)"

definition finding_less :: "finding \<Rightarrow> finding \<Rightarrow> bool" where
  "finding_less = ikey_less (\<lambda>f. - fSeverity f)
     (key_less fResource (ikey_less find_line (\<lambda>a b. False)))"

definition sortFindings :: "finding list \<Rightarrow> finding list" where
  "sortFindings fs = sort_stable finding_less fs"

text \<open>
  The loop: \<open>ctxErr i\<close> is the error of the context at iteration \<open>i\<close>, None while it is live. When
  it is over, every remaining supported module is recorded as not run.
\<close>

fun run_loop ::
    "(nat \<Rightarrow> string option) \<Rightarrow> target \<Rightarrow> nat \<Rightarrow> engine_module list \<Rightarrow> finding list \<times> moduleRun list" where
  "run_loop ctxErr t i [] = ([], [])"
| "run_loop ctxErr t i (m # ms) =
     (if \<not> mSupports m (tType t) then run_loop ctxErr t (Suc i) ms
      else case ctxErr i of
        Some err \<Rightarrow> ([], map (\<lambda>r. \<lparr> mrModule = mName r, mrError = ''not run: '' @ err \<rparr>)
                          (filter (\<lambda>r. mSupports r (tType t)) (m # ms)))
      | None \<Rightarrow>
          (case runModule m t of (fs, e) \<Rightarrow>
            case run_loop ctxErr t (Suc i) ms of (fs', runs) \<Rightarrow>
              (fs @ fs', \<lparr> mrModule = mName m, mrError = e \<rparr> # runs)))"

definition selectModules :: "registry \<Rightarrow> string list \<Rightarrow> engine_module list" where
  "selectModules r names = (if names \<noteq> [] then List.map_filter (reg_Get r) names else reg_All r)"

definition Run :: "registry \<Rightarrow> (nat \<Rightarrow> string option) \<Rightarrow> int \<Rightarrow> target \<Rightarrow> string list \<Rightarrow> report" where
  "Run r ctxErr stamp t names =
     (case run_loop ctxErr t 0 (selectModules r names) of (fs, runs) \<Rightarrow>
        \<lparr> rTool = ''docker-security'', rTargetType = tType t, rTarget = tLocation t, rGeneratedAt = stamp,
          rFindings = sortFindings fs, rModuleRuns = runs \<rparr>)"

subsection \<open>Targets\<close>

definition isImageArchive :: "string \<Rightarrow> bool" where
  "isImageArchive base \<longleftrightarrow> (\<exists>ext \<in> {''.tar'', ''.tar.gz'', ''.tgz'', ''.oci''}. strings_HasSuffix base ext)"

text \<open>\<^verbatim>\<open>os.Stat\<close>: None is an error, Some True a directory.\<close>

definition DetectType :: "(string \<Rightarrow> string) \<Rightarrow> (string \<Rightarrow> string \<Rightarrow> string) \<Rightarrow> (string \<Rightarrow> bool option) \<Rightarrow> string \<Rightarrow> string" where
  "DetectType filepath_Base filepath_Join os_Stat ref =
     (let base = strings_ToLower (filepath_Base ref) in
      if base = ''dockerfile'' \<or> strings_HasPrefix base ''dockerfile.'' \<or> strings_HasSuffix base ''.dockerfile''
      then ''dockerfile''
      else case os_Stat ref of
        None \<Rightarrow> ''image''
      | Some isDir \<Rightarrow>
          if isDir then
            (if os_Stat (filepath_Join ref ''oci-layout'') \<noteq> None \<or> os_Stat (filepath_Join ref ''index.json'') \<noteq> None
             then ''image'' else ''filesystem'')
          else if isImageArchive base then ''image'' else ''filesystem'')"

subsection \<open>Severities are read back as written\<close>

text \<open>
  A severity survives being written to a report and read back; a value outside the five named
  levels is read back as unknown.
\<close>

theorem Severity_JSON_roundtrip:
  "Severity_UnmarshalJSON (Severity_MarshalJSON s) = (if 1 \<le> s \<and> s \<le> 5 then s else SeverityUnknown)"
proof -
  have lv: "Severity_UnmarshalJSON (quote @ ''CRITICAL'' @ quote) = 5"
    "Severity_UnmarshalJSON (quote @ ''HIGH'' @ quote) = 4"
    "Severity_UnmarshalJSON (quote @ ''MEDIUM'' @ quote) = 3"
    "Severity_UnmarshalJSON (quote @ ''LOW'' @ quote) = 2"
    "Severity_UnmarshalJSON (quote @ ''INFO'' @ quote) = 1"
    "Severity_UnmarshalJSON (quote @ ''UNKNOWN'' @ quote) = 0"
    by code_simp+
  consider "s = 5" | "s = 4" | "s = 3" | "s = 2" | "s = 1" | "s < 1 \<or> s > 5" by linarith
  then show ?thesis
    unfolding Severity_MarshalJSON_def Severity_String_def severity_defs
    by cases (auto simp: lv [unfolded append_Cons append_Nil])
qed

subsection \<open>The gate\<close>

lemma Highest_loop_max:
  "Highest_loop h fs \<ge> t \<longleftrightarrow> h \<ge> t \<or> (\<exists>f \<in> set fs. fSeverity f \<ge> t)"
  by (induction fs arbitrary: h) auto

lemma FailsAt_loop_ex: "FailsAt_loop t fs \<longleftrightarrow> (\<exists>f \<in> set fs. fSeverity f \<ge> t)"
  by (induction fs) auto

lemma Counts_loop_filter:
  "Counts_loop m fs s = m s + int (length (filter (\<lambda>f. fSeverity f = s) fs))"
  by (induction fs arbitrary: m) auto

text \<open>
  A build fails at a threshold exactly when the highest severity of the report reaches it, that
  is when some finding counted at or above it exists; the unknown threshold disables the gate.
\<close>

theorem FailsAt_iff_Highest:
  "FailsAt r SeverityUnknown = False
   \<and> (t > SeverityUnknown \<longrightarrow> (FailsAt r t \<longleftrightarrow> Highest r \<ge> t) \<and> (FailsAt r t \<longleftrightarrow> (\<exists>s \<ge> t. Counts r s > 0)))"
proof -
  have "Counts r s > 0 \<longleftrightarrow> (\<exists>f \<in> set (rFindings r). fSeverity f = s)" for s
    by (auto simp: Counts_def Counts_loop_filter filter_empty_conv)
  then show ?thesis
    by (auto simp: FailsAt_def FailsAt_loop_ex Highest_def Highest_loop_max)
qed

theorem FailsAt_iff_Highest_witness:
  "\<not> FailsAt (Run NewRegistry (\<lambda>i. None) 0 \<lparr> tType = ''image'', tLocation = ''x'' \<rparr> []) SeverityLow"
proof -
  let ?r = "Run NewRegistry (\<lambda>i. None) 0 \<lparr> tType = ''image'', tLocation = ''x'' \<rparr> []"
  have "SeverityLow > SeverityUnknown" by (simp add: severity_defs)
  then have "FailsAt ?r SeverityLow \<longleftrightarrow> Highest ?r \<ge> SeverityLow" using FailsAt_iff_Highest by blast
  moreover have "Highest ?r = SeverityUnknown"
    by (simp add: Run_def selectModules_def reg_All_def NewRegistry_def Highest_def sortFindings_def)
  ultimately show ?thesis by (simp add: severity_defs)
qed

subsection \<open>The registry\<close>

text \<open>
  What the engine and its frontends rely on: a registration is found under its name and disturbs
  no other, and the names are listed in the order they were first seen.
\<close>

locale name_registry =
  fixes empty :: 's
    and register :: "'s \<Rightarrow> 'm \<Rightarrow> 's"
    and lookup :: "'s \<Rightarrow> string \<Rightarrow> 'm option"
    and names :: "'s \<Rightarrow> string list"
    and nameOf :: "'m \<Rightarrow> string"
  assumes lookup_empty: "lookup empty n = None"
    and names_empty: "names empty = []"
    and lookup_register: "lookup (register s m) n = (if n = nameOf m then Some m else lookup s n)"
    and names_register: "names (register s m) =
          (if lookup s (nameOf m) = None then names s @ [nameOf m] else names s)"
begin

definition loaded :: "'m list \<Rightarrow> 's" where
  "loaded ms = foldl register empty ms"

lemma lookup_loaded: "lookup (foldl register s ms) n =
    (case List.find (\<lambda>m. nameOf m = n) (rev ms) of Some m \<Rightarrow> Some m | None \<Rightarrow> lookup s n)"
  by (induction ms rule: rev_induct) (auto simp: lookup_register)

lemma find_rev_None: "List.find P (rev xs) = None \<longleftrightarrow> (\<forall>x \<in> set xs. \<not> P x)"
  by (auto simp: find_None_iff)

lemma names_loaded:
  assumes "distinct (names s)" and "\<And>n. n \<in> set (names s) \<longleftrightarrow> lookup s n \<noteq> None"
  shows "distinct (names (foldl register s ms))
    \<and> (\<forall>n. n \<in> set (names (foldl register s ms)) \<longleftrightarrow> lookup (foldl register s ms) n \<noteq> None)"
  using assms
proof (induction ms rule: rev_induct)
  case (snoc m ms)
  then show ?case by (auto simp: lookup_register names_register)
qed simp

lemma loaded_names:
  "distinct (names (loaded ms)) \<and> set (names (loaded ms)) = nameOf ` set ms"
proof
  have d: "distinct (names (loaded ms))
      \<and> (\<forall>n. n \<in> set (names (loaded ms)) \<longleftrightarrow> lookup (loaded ms) n \<noteq> None)"
    unfolding loaded_def by (rule names_loaded) (simp_all add: names_empty lookup_empty)
  then show "distinct (names (loaded ms))" by blast
  have "lookup (loaded ms) n \<noteq> None \<longleftrightarrow> n \<in> nameOf ` set ms" for n
    using find_rev_None [of "\<lambda>m. nameOf m = n" ms]
    by (auto simp: loaded_def lookup_loaded lookup_empty split: option.splits)
  then show "set (names (loaded ms)) = nameOf ` set ms" using d by blast
qed

lemma loaded_last: "ms = pre @ m # post \<Longrightarrow> \<forall>x \<in> set post. nameOf x \<noteq> nameOf m \<Longrightarrow>
    lookup (loaded ms) (nameOf m) = Some m"
proof -
  assume ms: "ms = pre @ m # post" and no: "\<forall>x \<in> set post. nameOf x \<noteq> nameOf m"
  have "lookup (foldl register s post) (nameOf m) = lookup s (nameOf m)" for s
    using no by (induction post arbitrary: s) (auto simp: lookup_register)
  then show ?thesis by (simp add: ms loaded_def lookup_register)
qed

end

interpretation reg: name_registry NewRegistry Register reg_Get reg_Names mName
proof
  show "reg_Get NewRegistry n = None" for n by (simp add: reg_Get_def NewRegistry_def)
  show "reg_Names NewRegistry = []" by (simp add: reg_Names_def NewRegistry_def)
  show "reg_Get (Register s m) n = (if n = mName m then Some m else reg_Get s n)" for s m n
    by (simp add: reg_Get_def Register_def)
  show "reg_Names (Register s m) =
      (if reg_Get s (mName m) = None then reg_Names s @ [mName m] else reg_Names s)" for s m
    by (simp add: reg_Names_def reg_Get_def Register_def)
qed

text \<open>
  After registering any modules, the registry lists each name once, finds under a name the
  module registered last, and returns one module per name, each under its own name.
\<close>

theorem registry_consistent:
  "distinct (reg_Names (foldl Register NewRegistry ms))
   \<and> set (reg_Names (foldl Register NewRegistry ms)) = mName ` set ms
   \<and> map mName (reg_All (foldl Register NewRegistry ms)) = reg_Names (foldl Register NewRegistry ms)
   \<and> (\<forall>pre m post. ms = pre @ m # post \<and> mName m \<notin> mName ` set post
        \<longrightarrow> reg_Get (foldl Register NewRegistry ms) (mName m) = Some m)"
proof -
  let ?r = "foldl Register NewRegistry ms"
  have names: "distinct (reg_Names ?r)" "set (reg_Names ?r) = mName ` set ms"
    using reg.loaded_names [of ms] by (simp_all add: reg.loaded_def)
  have own: "mName (the (reg_Get ?r n)) = n" if "n \<in> set (reg_Names ?r)" for n
    using that names(2) reg.lookup_loaded [of NewRegistry ms n] reg.find_rev_None [of "\<lambda>m. mName m = n" ms]
    by (auto split: option.splits simp: find_Some_iff)
  have "map mName (reg_All ?r) = reg_Names ?r"
    using own by (auto simp: reg_All_def reg_Names_def reg_Get_def intro!: map_idI)
  moreover have "reg_Get ?r (mName m) = Some m"
    if "ms = pre @ m # post" and "mName m \<notin> mName ` set post" for pre m post
  proof -
    have "\<forall>x \<in> set post. mName x \<noteq> mName m" using that(2) by (metis image_eqI)
    then show ?thesis using reg.loaded_last [OF that(1)] by (simp add: reg.loaded_def)
  qed
  ultimately show ?thesis using names by blast
qed

theorem registry_consistent_witness:
  "reg_Get (foldl Register NewRegistry
     [\<lparr> mName = ''a'', mSupports = (\<lambda>t. True), mAnalyze = (\<lambda>l. Returned [] []) \<rparr>,
      \<lparr> mName = ''a'', mSupports = (\<lambda>t. False), mAnalyze = (\<lambda>l. Panicked ''x'') \<rparr>]) ''a''
   = Some \<lparr> mName = ''a'', mSupports = (\<lambda>t. False), mAnalyze = (\<lambda>l. Panicked ''x'') \<rparr>"
proof -
  let ?m = "\<lparr> mName = ''a'', mSupports = (\<lambda>t. False), mAnalyze = (\<lambda>l. Panicked ''x'') \<rparr>"
  let ?pre = "[\<lparr> mName = ''a'', mSupports = (\<lambda>t. True), mAnalyze = (\<lambda>l. Returned [] []) \<rparr>]"
  have "?pre @ ?m # [] = ?pre @ ?m # [] \<and> mName ?m \<notin> mName ` set []" by simp
  with registry_consistent [of "?pre @ ?m # []"]
  have "reg_Get (foldl Register NewRegistry (?pre @ ?m # [])) (mName ?m) = Some ?m" by blast
  then show ?thesis by simp
qed

subsection \<open>A run reports every module and every finding\<close>

definition live :: "(nat \<Rightarrow> string option) \<Rightarrow> bool" where
  "live ctxErr \<longleftrightarrow> (\<forall>i. ctxErr i = None)"

definition moduleFindings :: "engine_module \<Rightarrow> target \<Rightarrow> finding list" where
  "moduleFindings m t = (case mAnalyze m (tLocation t) of Returned fs e \<Rightarrow> fs | Panicked v \<Rightarrow> [])"

definition moduleError :: "engine_module \<Rightarrow> target \<Rightarrow> string" where
  "moduleError m t = (case mAnalyze m (tLocation t) of Returned fs e \<Rightarrow> e | Panicked v \<Rightarrow> ''panic: '' @ v)"

lemma runModule_spec: "runModule m t = (moduleFindings m t, moduleError m t)"
  by (simp add: runModule_def moduleFindings_def moduleError_def split: outcome.splits)

lemma run_loop_modules:
  "run_loop ctxErr t i ms = (fs, runs) \<Longrightarrow> map mrModule runs = map mName (filter (\<lambda>m. mSupports m (tType t)) ms)"
  by (induction ctxErr t i ms arbitrary: fs runs rule: run_loop.induct)
    (auto split: if_splits option.splits prod.splits)

lemma run_loop_live:
  assumes "live ctxErr"
  shows "run_loop ctxErr t i ms =
    (concat (map (\<lambda>m. moduleFindings m t) (filter (\<lambda>m. mSupports m (tType t)) ms)),
     map (\<lambda>m. \<lparr> mrModule = mName m, mrError = moduleError m t \<rparr>) (filter (\<lambda>m. mSupports m (tType t)) ms))"
  using assms by (induction ctxErr t i ms rule: run_loop.induct) (auto simp: live_def runModule_spec)

lemma run_loop_prefix:
  "run_loop ctxErr t i ms = (fs, runs) \<Longrightarrow>
    \<exists>k \<le> length ms. fs = concat (map (\<lambda>m. moduleFindings m t) (filter (\<lambda>m. mSupports m (tType t)) (take k ms)))
      \<and> (\<exists>ran rest. runs = ran @ rest
          \<and> ran = map (\<lambda>m. \<lparr> mrModule = mName m, mrError = moduleError m t \<rparr>) (filter (\<lambda>m. mSupports m (tType t)) (take k ms))
          \<and> map mrModule rest = map mName (filter (\<lambda>m. mSupports m (tType t)) (drop k ms))
          \<and> (\<forall>r \<in> set rest. strings_HasPrefix (mrError r) ''not run: ''))"
proof (induction ms arbitrary: i fs runs)
  case (Cons m ms)
  show ?case
  proof (cases "mSupports m (tType t)")
    case False
    then have "run_loop ctxErr t (Suc i) ms = (fs, runs)" using Cons.prems by simp
    from Cons.IH [OF this] obtain k where k: "k \<le> length ms"
      "fs = concat (map (\<lambda>m. moduleFindings m t) (filter (\<lambda>m. mSupports m (tType t)) (take k ms)))"
      "\<exists>ran rest. runs = ran @ rest
          \<and> ran = map (\<lambda>m. \<lparr> mrModule = mName m, mrError = moduleError m t \<rparr>) (filter (\<lambda>m. mSupports m (tType t)) (take k ms))
          \<and> map mrModule rest = map mName (filter (\<lambda>m. mSupports m (tType t)) (drop k ms))
          \<and> (\<forall>r \<in> set rest. strings_HasPrefix (mrError r) ''not run: '')" by blast
    show ?thesis by (rule exI [of _ "Suc k"]) (use k False in simp)
  next
    case True
    note sup = True
    show ?thesis
    proof (cases "ctxErr i")
      case (Some err)
      then have "fs = []" and "runs = map (\<lambda>r. \<lparr> mrModule = mName r, mrError = ''not run: '' @ err \<rparr>)
                          (filter (\<lambda>r. mSupports r (tType t)) (m # ms))"
        using Cons.prems sup by auto
      then show ?thesis
        by (intro exI [of _ 0]) (auto simp: strings_HasPrefix_def)
    next
      case None
      obtain fs' runs' where rl: "run_loop ctxErr t (Suc i) ms = (fs', runs')" by fastforce
      have fs: "fs = moduleFindings m t @ fs'" "runs = \<lparr> mrModule = mName m, mrError = moduleError m t \<rparr> # runs'"
        using Cons.prems sup None rl by (auto simp: runModule_spec)
      from Cons.IH [OF rl] obtain k ran rest where k: "k \<le> length ms"
        "fs' = concat (map (\<lambda>m. moduleFindings m t) (filter (\<lambda>m. mSupports m (tType t)) (take k ms)))"
        "runs' = ran @ rest"
        "ran = map (\<lambda>m. \<lparr> mrModule = mName m, mrError = moduleError m t \<rparr>) (filter (\<lambda>m. mSupports m (tType t)) (take k ms))"
        "map mrModule rest = map mName (filter (\<lambda>m. mSupports m (tType t)) (drop k ms))"
        "\<forall>r \<in> set rest. strings_HasPrefix (mrError r) ''not run: ''" by blast
      show ?thesis
        by (rule exI [of _ "Suc k"]) (use k fs sup in \<open>simp add: exI [of _ rest]\<close>)
    qed
  qed
qed simp


definition crashing :: engine_module where
  "crashing = \<lparr> mName = ''crash'', mSupports = (\<lambda>t. True), mAnalyze = (\<lambda>l. Panicked ''boom'') \<rparr>"


lemma finding_less_weak: "strict_weak finding_less"
  unfolding finding_less_def by (intro strict_weak_ikey strict_weak_key strict_weak_none)

interpretation findings: strict_weak finding_less
  by (rule finding_less_weak)

text \<open>
  Sorting the findings of a report loses and duplicates none, puts more severe findings
  first, and keeps the order of findings with the same severity, resource and line.
\<close>

theorem sortFindings_correct:
  "mset (sortFindings fs) = mset fs
   \<and> sorted_wrt (\<lambda>a b. fSeverity a \<ge> fSeverity b) (sortFindings fs)
   \<and> filter (\<lambda>f. (fSeverity f, fResource f, find_line f) = (fSeverity g, fResource g, find_line g)) (sortFindings fs)
     = filter (\<lambda>f. (fSeverity f, fResource f, find_line f) = (fSeverity g, fResource g, find_line g)) fs"
proof (intro conjI)
  show "mset (sortFindings fs) = mset fs" by (simp add: sortFindings_def)
  have "\<not> finding_less b a \<Longrightarrow> fSeverity a \<ge> fSeverity b" for a b
    by (auto simp: finding_less_def ikey_less_def split: if_splits)
  then show "sorted_wrt (\<lambda>a b. fSeverity a \<ge> fSeverity b) (sortFindings fs)"
    unfolding sortFindings_def by (rule sorted_wrt_mono_rel [OF _ findings.sorted]) 
  have tie: "(\<not> finding_less f g \<and> \<not> finding_less g f)
      \<longleftrightarrow> (fSeverity f, fResource f, find_line f) = (fSeverity g, fResource g, find_line g)" for f
    using str_less_linear [of "fResource f" "fResource g"]
    by (auto simp: finding_less_def ikey_less_def key_less_def)
  show "filter (\<lambda>f. (fSeverity f, fResource f, find_line f) = (fSeverity g, fResource g, find_line g)) (sortFindings fs)
     = filter (\<lambda>f. (fSeverity f, fResource f, find_line f) = (fSeverity g, fResource g, find_line g)) fs"
    using findings.stable [of g fs] unfolding sortFindings_def tie .
qed

end
