(* ===== verification/VerifyModule.thy ===== *)
theory VerifyModule
  imports SigAttest EngineModel
begin

text \<open>
  The supply-chain verification module (\<^verbatim>\<open>internal/modules/verify\<close>): \<^verbatim>\<open>verifier.go\<close>, the
  configuration (\<^verbatim>\<open>config.go\<close>) and the core of \<^verbatim>\<open>Analyze\<close> (\<^verbatim>\<open>module.go\<close>), after the files it
  names have been read. What comes from the standard library is the record \<open>venv\<close>: the
  cryptographic primitives, the JSON codec, the text of an error, Go's quoting (\<^verbatim>\<open>%q\<close>), and
  the order in which a range over the trusted keys visits them when an envelope is checked.
\<close>

definition ruleNotConfigured :: string where "ruleNotConfigured = ''DS-RAT-SUP-010''"
definition ruleUnsigned :: string where "ruleUnsigned = ''DS-RAT-SUP-001''"
definition ruleSigInvalid :: string where "ruleSigInvalid = ''DS-RAT-SUP-002''"
definition rulePolicyViolation :: string where "rulePolicyViolation = ''DS-RAT-SUP-003''"
definition ruleDigestMismatch :: string where "ruleDigestMismatch = ''DS-RAT-SUP-004''"
definition ruleAttestMissing :: string where "ruleAttestMissing = ''DS-RAT-SUP-005''"
definition ruleTlogMissing :: string where "ruleTlogMissing = ''DS-RAT-SUP-006''"
definition ruleSigVerified :: string where "ruleSigVerified = ''DS-RAT-SUP-100''"
definition ruleAttestVerified :: string where "ruleAttestVerified = ''DS-RAT-SUP-101''"
definition ruleAgentAction :: string where "ruleAgentAction = ''DS-RAT-SUP-030''"
definition ruleVerdict :: string where "ruleVerdict = ''DS-RAT-SUP-200''"

definition moduleName :: string where "moduleName = ''verify''"

record verifyConfig =
  vcTrust :: trustConfig
  vcLogPublicKeyPEM :: bytes
  vcRequireAttestations :: "string list"
  vcRequireTransparencyLog :: bool
  vcEnableAgentActions :: bool

record resolved =
  reTrust :: trustRoot
  rePolicy :: sigPolicy
  reLogVer :: "verifier option"
  reCfg :: verifyConfig

definition config_build :: "crypto \<Rightarrow> verifyConfig \<Rightarrow> sig_err + resolved" where
  "config_build cr c =
     (case trustConfig_Build cr (vcTrust c) of
        Inl e \<Rightarrow> Inl e
      | Inr (tr, pol) \<Rightarrow>
          if vcLogPublicKeyPEM c \<noteq> [] then
            (case LoadVerifierPEM cr (vcLogPublicKeyPEM c) of
               Inl e \<Rightarrow> Inl e
             | Inr v \<Rightarrow> Inr \<lparr> reTrust = tr, rePolicy = pol, reLogVer = Some v, reCfg = c \<rparr>)
          else Inr \<lparr> reTrust = tr, rePolicy = pol, reLogVer = None, reCfg = c \<rparr>)"

record venv =
  veCrypto :: crypto
  veOrder :: "envelope \<Rightarrow> trustedKey list"
  veMarshalEnvelope :: "envelope \<Rightarrow> bytes"
  veDecodeImagePayload :: "bytes \<Rightarrow> simpleSigning option"
  veDecodeStatement :: "bytes \<Rightarrow> statement option"
  veDecodeAction :: "bytes \<Rightarrow> agentAction"
  veErrText :: "attest_err \<Rightarrow> string"
  veQuote :: "string \<Rightarrow> string"

subsection \<open>Findings and the verdict\<close>

definition findingWithMeta ::
    "string \<Rightarrow> severity \<Rightarrow> string \<Rightarrow> string \<Rightarrow> string \<Rightarrow> string \<Rightarrow> (string \<times> string) list \<Rightarrow> finding" where
  "findingWithMeta rl sev ttl desc resource remediation meta =
     \<lparr> fRuleID = rl, fModule = moduleName, fSeverity = sev, fTitle = ttl, fDescription = desc, fResource = resource,
       fLocation = None, fRemediation = remediation,
       fReferences = [''https://slsa.dev/spec/v1.0/'', ''https://github.com/secure-systems-lab/dsse''],
       fMetadata = meta \<rparr>"

definition mkFinding :: "string \<Rightarrow> severity \<Rightarrow> string \<Rightarrow> string \<Rightarrow> string \<Rightarrow> string \<Rightarrow> finding" where
  "mkFinding rl sev ttl desc resource remediation = findingWithMeta rl sev ttl desc resource remediation []"

record verdict =
  vFindings :: "finding list"
  vLevels :: "string list"
  vFailed :: bool

definition v_add :: "verdict \<Rightarrow> finding \<Rightarrow> verdict" where
  "v_add v f =
     (let v' = (if fSeverity f \<ge> SeverityHigh then v\<lparr> vFailed := True \<rparr> else v)
      in v'\<lparr> vFindings := vFindings v @ [f] \<rparr>)"

definition v_level :: "verdict \<Rightarrow> string \<Rightarrow> verdict" where
  "v_level v l = v\<lparr> vLevels := vLevels v @ [l] \<rparr>"

definition v0 :: verdict where
  "v0 = \<lparr> vFindings = [], vLevels = [], vFailed = False \<rparr>"

definition predicateLabel :: "string \<Rightarrow> string" where
  "predicateLabel pt =
     (if pt = PredicateSLSAProvenance then ''SLSA provenance''
      else if pt = PredicateCycloneDX \<or> pt = PredicateSPDX then ''SBOM''
      else if pt = PredicateOpenVEX then ''VEX''
      else if pt = PredicateAgentAction then ''agent-action''
      else if pt = PredicateVSA then ''verification-summary''
      else pt)"

definition predicateLevel :: "string \<Rightarrow> string" where
  "predicateLevel pt =
     (if pt = PredicateSLSAProvenance then ''SLSA_PROVENANCE''
      else if pt = PredicateCycloneDX \<or> pt = PredicateSPDX then ''SBOM_PRESENT''
      else if pt = PredicateOpenVEX then ''VEX_PRESENT''
      else ''ATTESTED'')"

definition shortID :: "string \<Rightarrow> string" where
  "shortID i = (if length i > 12 then take 12 i else i)"

definition sortedLevels :: "string list \<Rightarrow> string list" where
  "sortedLevels levels = sort_Strings (rev (remdups (rev levels)))"

definition signatureError :: "venv \<Rightarrow> sig_err \<Rightarrow> string \<Rightarrow> finding" where
  "signatureError ev err resource =
     (if err = ErrPolicy then
        mkFinding rulePolicyViolation SeverityHigh ''Signature signer not allowed by policy''
          (veErrText ev (AttestSig err)) resource ''Sign with an identity on the policy allow-list.''
      else if err = ErrUntrusted then
        mkFinding ruleSigInvalid SeverityCritical ''Signature not made by a trusted key''
          (veErrText ev (AttestSig err)) resource ''Reject the image or add the signer to the trust root if legitimate.''
      else
        mkFinding ruleSigInvalid SeverityCritical ''Signature verification failed''
          (veErrText ev (AttestSig err)) resource ''Reject the image.'')"

definition attestationError :: "venv \<Rightarrow> attest_err \<Rightarrow> string \<Rightarrow> finding" where
  "attestationError ev err resource =
     (if err = AttestSig ErrPolicy then
        mkFinding rulePolicyViolation SeverityHigh ''Attestation signer not allowed by policy''
          (veErrText ev err) resource ''Sign attestations with an allowed identity.''
      else if err = AttestSig ErrUntrusted then
        mkFinding ruleSigInvalid SeverityHigh ''Attestation not made by a trusted key''
          (veErrText ev err) resource ''Reject or add the signer if legitimate.''
      else
        mkFinding ruleSigInvalid SeverityHigh ''Attestation verification failed''
          (veErrText ev err) resource ''Investigate the attestation.'')"

definition agentActionFinding :: "venv \<Rightarrow> attestResult \<Rightarrow> string \<Rightarrow> finding" where
  "agentActionFinding ev r resource =
     (let action = veDecodeAction ev (stPredicate (arStatement r)) in
      findingWithMeta ruleAgentAction SeverityInfo ''AI-agent action attestation verified''
        (''Agent '' @ veQuote ev (aaAgentID action) @ '' (model '' @ veQuote ev (aaAgentModel action) @ '') performed ''
          @ veQuote ev (aaActionType action) @ '' via '' @ veQuote ev (aaActionTool action) @ ''; prompt sha256 ''
          @ shortID (aaPromptSHA256 action) @ ''.'')
        resource []
        [(''agent_id'', aaAgentID action), (''agent_model'', aaAgentModel action),
         (''action_type'', aaActionType action), (''prompt_hash'', aaPromptSHA256 action),
         (''identity'', vrIdentity (arSigner r))])"

text \<open>The findings the checks below add, each where the code builds it.\<close>

definition f_noProof :: "string \<Rightarrow> finding" where
  "f_noProof resource =
     mkFinding ruleTlogMissing SeverityMedium ''Signature lacks a transparency-log proof''
     ''Policy requires a transparency-log inclusion proof, but this signature carries none.''
     resource ''Record signatures in the transparency log (dsecrat sign --tlog).''"

definition f_noLogKey :: "string \<Rightarrow> finding" where
  "f_noLogKey resource =
     mkFinding ruleTlogMissing SeverityInfo ''Transparency-log proof present but no log key configured''
     ''An inclusion proof is attached but no transparency-log public key is configured to verify it.''
     resource ''Configure log_public_key_pem to verify inclusion proofs.''"

definition f_proofFailed :: "venv \<Rightarrow> sig_err \<Rightarrow> string \<Rightarrow> finding" where
  "f_proofFailed ev err resource =
     mkFinding ruleTlogMissing SeverityHigh ''Transparency-log inclusion proof failed''
     (veErrText ev (AttestSig err)) resource ''The signing record cannot be verified; investigate the log.''"

definition f_unreadable :: "venv \<Rightarrow> sig_err \<Rightarrow> string \<Rightarrow> finding" where
  "f_unreadable ev err resource =
     mkFinding ruleSigInvalid SeverityHigh ''Signature payload unreadable''
     (veErrText ev (AttestSig err)) resource ''Re-sign the image.''"

definition f_malformed :: "venv \<Rightarrow> sig_err \<Rightarrow> string \<Rightarrow> finding" where
  "f_malformed ev err resource =
     mkFinding ruleSigInvalid SeverityHigh ''Signature payload malformed''
     (veErrText ev (AttestSig err)) resource ''Re-sign the image.''"

definition f_otherDigest :: "simpleSigning \<Rightarrow> string \<Rightarrow> string \<Rightarrow> finding" where
  "f_otherDigest ss subj resource =
     mkFinding ruleDigestMismatch SeverityCritical ''Signature binds to a different digest''
     (''Signature payload commits to '' @ SignedDigest ss @ '', not the image under test ('' @ subj @ '').'')
     resource ''Reject this image; the signature does not cover its content.''"

definition f_sigVerified :: "venv \<Rightarrow> verifyResult \<Rightarrow> string \<Rightarrow> string \<Rightarrow> finding" where
  "f_sigVerified ev who subj resource =
     findingWithMeta ruleSigVerified SeverityInfo ''Image signature verified''
     (''Signed by trusted key '' @ shortID (vrKeyID who) @ '' (identity '' @ veQuote ev (vrIdentity who) @ '').'')
     resource [] [(''keyid'', vrKeyID who), (''identity'', vrIdentity who), (''digest'', subj)]"

definition f_attestVerified :: "venv \<Rightarrow> attestResult \<Rightarrow> string \<Rightarrow> string \<Rightarrow> finding" where
  "f_attestVerified ev r pt resource =
     findingWithMeta ruleAttestVerified SeverityInfo ''Attestation verified''
     (predicateLabel pt @ '' attestation signed by '' @ veQuote ev (vrIdentity (arSigner r)) @ ''.'')
     resource [] [(''predicate_type'', pt), (''identity'', vrIdentity (arSigner r))]"

definition f_attestMissing :: "string \<Rightarrow> string \<Rightarrow> finding" where
  "f_attestMissing want resource =
     mkFinding ruleAttestMissing SeverityHigh ''Required attestation missing''
     (''Policy requires a '' @ predicateLabel want @ '' attestation, but none was found or verified.'')
     resource ''Attach and sign the required attestation (dsecrat attest).''"

definition f_noKeys :: "string \<Rightarrow> finding" where
  "f_noKeys resource =
     mkFinding ruleNotConfigured SeverityInfo ''Supply-chain verification not configured''
     ''No trusted signing keys are configured, so image signatures and attestations cannot be verified. Provide a trust config to enable enforcement.''
     resource ''Configure a trust root (trusted public keys + signer policy) for this target.''"

definition f_noInput :: "string \<Rightarrow> finding" where
  "f_noInput resource =
     mkFinding ruleNotConfigured SeverityInfo ''Supply-chain verification not configured''
     ''No trust config or signature bundle was provided for this target; skipping verification.''
     resource ''Provide verify.trust/verify.config and a signature bundle, or use `dsecrat verify`.''"

definition f_otherBundle :: "sigBundle \<Rightarrow> string \<Rightarrow> string \<Rightarrow> finding" where
  "f_otherBundle b imageDigest resource =
     mkFinding ruleDigestMismatch SeverityCritical ''Signature bundle targets a different image digest''
     (''Bundle subject digest '' @ buSubjectDigest b @ '' does not match the image under verification ('' @ imageDigest
     @ ''). This is a sign of a replayed or swapped signature.'')
     resource ''Reject this image: obtain signatures produced for this exact digest.''"

definition f_unsigned :: "string \<Rightarrow> finding" where
  "f_unsigned resource =
     mkFinding ruleUnsigned SeverityHigh ''Image is not signed''
     ''No verifiable signature was found for this image. Unsigned images have no provenance guarantee.''
     resource ''Sign the image by digest with a trusted key (dsecrat sign).''"

subsection \<open>Signatures\<close>

definition checkInclusion :: "venv \<Rightarrow> resolved \<Rightarrow> bundleEntry \<Rightarrow> envelope \<Rightarrow> string \<Rightarrow> verdict \<Rightarrow> verdict \<times> bool" where
  "checkInclusion ev re e env resource v =
     (case beInclusion e of
        None \<Rightarrow>
          if vcRequireTransparencyLog (reCfg re) then
            (v_add v (f_noProof resource), False)
          else (v, True)
      | Some rec \<Rightarrow>
          (case reLogVer re of
             None \<Rightarrow>
               (v_add v (f_noLogKey resource), True)
           | Some lv \<Rightarrow>
               (case VerifyInclusion (veCrypto ev) rec (veMarshalEnvelope ev env) lv of
                  Some err \<Rightarrow>
                    (v_add v (f_proofFailed ev err resource),
                     \<not> vcRequireTransparencyLog (reCfg re))
                | None \<Rightarrow> (v_level v ''TRANSPARENCY_LOG'', True))))"

definition verify_signature ::
    "venv \<Rightarrow> resolved \<Rightarrow> string \<Rightarrow> string \<Rightarrow> verdict \<Rightarrow> bundleEntry \<Rightarrow> envelope \<Rightarrow> verdict \<times> bool" where
  "verify_signature ev re subj resource v e env =
     (case trust_Verify (veCrypto ev) (veOrder ev env) env (rePolicy re) of
        Inl err \<Rightarrow> (v_add v (signatureError ev err resource), False)
      | Inr who \<Rightarrow>
          (case DecodePayload env of
             Inl err \<Rightarrow> (v_add v (f_unreadable ev err resource), False)
           | Inr payload \<Rightarrow>
               (case ParseImagePayload (veDecodeImagePayload ev) payload of
                  Inl err \<Rightarrow> (v_add v (f_malformed ev err resource), False)
                | Inr ss \<Rightarrow>
                    if SignedDigest ss \<noteq> subj then
                      (v_add v (f_otherDigest ss subj resource), False)
                    else (case checkInclusion ev re e env resource v of
                        (v', False) \<Rightarrow> (v', False)
                      | (v', True) \<Rightarrow>
                          (v_add v' (f_sigVerified ev who subj resource), True)))))"

fun verifySignatures ::
    "venv \<Rightarrow> resolved \<Rightarrow> string \<Rightarrow> string \<Rightarrow> verdict \<Rightarrow> nat \<Rightarrow> bundleEntry list \<Rightarrow> verdict \<times> nat" where
  "verifySignatures ev re subj resource v n [] = (v, n)"
| "verifySignatures ev re subj resource v n (e # es) =
     (case beEnvelope e of
        None \<Rightarrow> verifySignatures ev re subj resource v n es
      | Some env \<Rightarrow>
          if beKind e \<noteq> KindSignature \<or> envPayloadType env \<noteq> SimpleSigningMediaType
          then verifySignatures ev re subj resource v n es
          else (case verify_signature ev re subj resource v e env of
            (v', ok) \<Rightarrow> verifySignatures ev re subj resource v' (if ok then Suc n else n) es))"

subsection \<open>Attestations\<close>

definition verify_attestation ::
    "venv \<Rightarrow> resolved \<Rightarrow> string \<Rightarrow> string \<Rightarrow> verdict \<times> string list \<Rightarrow> envelope \<Rightarrow> verdict \<times> string list" where
  "verify_attestation ev re subj resource vs env =
     (case vs of (v, seen) \<Rightarrow>
       (case attest_Verify (veCrypto ev) (veDecodeStatement ev) (veOrder ev env) env
           \<lparr> rqExpectedDigest = subj, rqPredicateType = [], rqPolicy = rePolicy re \<rparr> of
          Inl err \<Rightarrow> (v_add v (attestationError ev err resource), seen)
        | Inr r \<Rightarrow>
            (let pt = stPredicateType (arStatement r) in
             if pt = PredicateAgentAction then
               (if \<not> vcEnableAgentActions (reCfg re) then (v, pt # seen)
                else (v_add (v_level v ''AGENT_ATTESTED'') (agentActionFinding ev r resource), pt # seen))
             else (v_add (v_level v (predicateLevel pt))
               (f_attestVerified ev r pt resource), pt # seen))))"

fun attestation_loop ::
    "venv \<Rightarrow> resolved \<Rightarrow> string \<Rightarrow> string \<Rightarrow> verdict \<times> string list \<Rightarrow> bundleEntry list \<Rightarrow> verdict \<times> string list" where
  "attestation_loop ev re subj resource vs [] = vs"
| "attestation_loop ev re subj resource vs (e # es) =
     (case beEnvelope e of
        None \<Rightarrow> attestation_loop ev re subj resource vs es
      | Some env \<Rightarrow>
          if beKind e \<noteq> KindAttestation then attestation_loop ev re subj resource vs es
          else attestation_loop ev re subj resource (verify_attestation ev re subj resource vs env) es)"

fun require_loop :: "string \<Rightarrow> string list \<Rightarrow> verdict \<Rightarrow> string list \<Rightarrow> verdict" where
  "require_loop resource seen v [] = v"
| "require_loop resource seen v (want # wants) =
     require_loop resource seen
       (if want \<notin> set seen then
          v_add v (f_attestMissing want resource)
        else v) wants"

definition verifyAttestations ::
    "venv \<Rightarrow> resolved \<Rightarrow> string \<Rightarrow> string \<Rightarrow> verdict \<Rightarrow> bundleEntry list \<Rightarrow> verdict" where
  "verifyAttestations ev re subj resource v es =
     (case attestation_loop ev re subj resource (v, []) es of
        (v', seen) \<Rightarrow> require_loop resource seen v' (vcRequireAttestations (reCfg re)))"

subsection \<open>The bundle and the module\<close>

definition verifyBundle :: "venv \<Rightarrow> resolved \<Rightarrow> sigBundle \<Rightarrow> string \<Rightarrow> string \<Rightarrow> verdict" where
  "verifyBundle ev re b imageDigest resource =
     (if dom (reTrust re) = {} then
        v_add v0 (f_noKeys resource)
      else
        let v1 = (if imageDigest \<noteq> [] \<and> buSubjectDigest b \<noteq> imageDigest then
              v_add v0 (f_otherBundle b imageDigest resource)
            else v0);
            subj = (if imageDigest = [] then buSubjectDigest b else imageDigest)
        in case verifySignatures ev re subj resource v1 0 (buEntries b) of
          (v2, sigCount) \<Rightarrow>
            verifyAttestations ev re subj resource
              (if sigCount = 0 then
                 v_add v2 (f_unsigned resource)
               else v_level v2 ''SIGNED'')
              (buEntries b))"

definition verdictFinding :: "verdict \<Rightarrow> string \<Rightarrow> string \<Rightarrow> finding" where
  "verdictFinding v resource digest =
     (let res = (if vFailed v then ''FAILED'' else ''PASSED'');
          levels = sortedLevels (vLevels v)
      in findingWithMeta ruleVerdict SeverityInfo (''Supply-chain verification verdict: '' @ res)
           (''Verified levels: '' @ join_with '', '' levels @ ''.'') resource []
           [(''verdict'', res), (''verified_levels'', join_with '','' levels), (''digest'', digest)])"

text \<open>
  \<^verbatim>\<open>Analyze\<close> from the point where the configuration, the digest and the bundle are at hand.
  \<open>BundlePanic\<close> is the nil pointer a bundle for a malformed digest would be; the digest has been
  validated before (\<^verbatim>\<open>resolveImageDigest\<close>), so it does not occur.
\<close>

definition zeroDigest :: string where
  "zeroDigest = ''sha256:'' @ replicate 64 (CHR ''0'')"

definition Analyze :: "venv \<Rightarrow> bool \<Rightarrow> resolved \<Rightarrow> sigBundle option \<Rightarrow> string \<Rightarrow> string \<Rightarrow> finding list option" where
  "Analyze ev haveCfg re b imageDigest loc =
     (let resource = (if imageDigest \<noteq> [] then loc @ ''@'' @ imageDigest else loc) in
      case b of
        None \<Rightarrow>
          if \<not> haveCfg then
            Some [f_noInput resource]
          else let dg = (if imageDigest = [] then zeroDigest else imageDigest) in
            (case NewBundle dg of
               Inl e \<Rightarrow> None
             | Inr bu \<Rightarrow>
                 (let v = verifyBundle ev re bu dg resource in Some (vFindings (v_add v (verdictFinding v resource dg)))))
      | Some bu \<Rightarrow>
          (let v = verifyBundle ev re bu imageDigest resource in
           Some (vFindings (v_add v (verdictFinding v resource imageDigest)))))"

subsection \<open>Severities\<close>

lemma finding_severity [simp]:
  "fSeverity (findingWithMeta rl sev ttl desc res rem md) = sev"
  "fSeverity (mkFinding rl sev ttl desc res rem) = sev"
  by (simp_all add: mkFinding_def findingWithMeta_def)

lemma finding_severities [simp]:
  "fSeverity (f_noProof res) = SeverityMedium" "fSeverity (f_noLogKey res) = SeverityInfo"
  "fSeverity (f_proofFailed ev e res) = SeverityHigh" "fSeverity (f_unreadable ev e res) = SeverityHigh"
  "fSeverity (f_malformed ev e res) = SeverityHigh" "fSeverity (f_otherDigest ss d res) = SeverityCritical"
  "fSeverity (f_sigVerified ev who d res) = SeverityInfo" "fSeverity (f_attestVerified ev r pt res) = SeverityInfo"
  "fSeverity (f_attestMissing pt res) = SeverityHigh" "fSeverity (f_noKeys res) = SeverityInfo"
  "fSeverity (f_otherBundle b d res) = SeverityCritical" "fSeverity (f_unsigned res) = SeverityHigh"
  "fSeverity (agentActionFinding ev r res) = SeverityInfo"
  by (simp_all only: f_noProof_def f_noLogKey_def f_proofFailed_def f_unreadable_def f_malformed_def f_otherDigest_def
      f_sigVerified_def f_attestVerified_def f_attestMissing_def f_noKeys_def f_otherBundle_def f_unsigned_def
      agentActionFinding_def Let_def finding_severity)

lemma high_severities [simp]:
  "SeverityHigh \<le> SeverityCritical" "\<not> SeverityHigh \<le> SeverityMedium" "\<not> SeverityHigh \<le> SeverityInfo"
  by (simp_all add: SeverityHigh_def SeverityCritical_def SeverityMedium_def SeverityInfo_def)

lemma error_findings [simp]:
  "SeverityHigh \<le> fSeverity (signatureError ev err res)" "SeverityHigh \<le> fSeverity (attestationError ev aerr res)"
  by (simp_all only: signatureError_def attestationError_def finding_severity high_severities order_refl split: if_split) simp_all

end
