(* ===== verification/PolicyEval.thy ===== *)
theory PolicyEval
  imports EngineModel GoFloat
begin

text \<open>
  The expression language of \<^verbatim>\<open>internal/policy\<close>: values (\<^verbatim>\<open>value.go\<close>), the evaluation
  input (\<^verbatim>\<open>input.go\<close>), the builtin vocabulary (\<^verbatim>\<open>builtins.go\<close>) and the syntax tree
  with its evaluation (\<^verbatim>\<open>ast.go\<close>). An error is a value of \<open>perr\<close>, one constructor per error the
  code formats; \<open>Panicked_index\<close> is the run-time panic of an argument that is not there. The
  regular expressions of the standard library are a parameter: compiling a pattern gives
  a matcher or fails.
\<close>

subsection \<open>Values\<close>

datatype kind = KindBool | KindNum | KindStr | KindList

datatype val = VBool bool | VNum float64 | VStr string | VList "val list"

fun Kind :: "val \<Rightarrow> kind" where
  "Kind (VBool b) = KindBool"
| "Kind (VNum n) = KindNum"
| "Kind (VStr s) = KindStr"
| "Kind (VList vs) = KindList"

datatype tokenKind = TokEOF | TokNumber | TokString | TokIdent | TokLParen | TokRParen | TokLBracket
  | TokRBracket | TokComma | TokAnd | TokOr | TokNot | TokEq | TokNe | TokLt | TokLe | TokGt | TokGe
  | TokPlus | TokMinus | TokTrue | TokFalse

datatype perr =
    ExpectedBool kind
  | CannotOrder kind kind
  | CannotOrderKind kind
  | InNeedsList kind
  | UnknownIdent string
  | UnknownFunc string
  | WrongArity string nat nat
  | OperatorErr tokenKind perr
  | MinusNeedsNum kind
  | ArithNeedsNum kind kind
  | UnknownUnary | UnknownBinary | UnknownOrdering
  | NeedsString string kind
  | InvalidRegexp string
  | Panicked_index

fun AsBool :: "val \<Rightarrow> perr + bool" where
  "AsBool (VBool b) = Inr b"
| "AsBool v = Inl (ExpectedBool (Kind v))"

fun Equal :: "val \<Rightarrow> val \<Rightarrow> bool" and Equal_list :: "val list \<Rightarrow> val list \<Rightarrow> bool" where
  "Equal (VBool a) (VBool b) = (a = b)"
| "Equal (VNum a) (VNum b) = feq a b"
| "Equal (VStr a) (VStr b) = (a = b)"
| "Equal (VList a) (VList b) = (length a = length b \<and> Equal_list a b)"
| "Equal v w = False"
| "Equal_list [] bs = True"
| "Equal_list (a # as) [] = False"
| "Equal_list (a # as) (b # bs) = (if \<not> Equal a b then False else Equal_list as bs)"

text \<open>The result is the answer and the error, as the Go function returns both.\<close>

definition Less :: "val \<Rightarrow> val \<Rightarrow> bool \<times> perr option" where
  "Less v w =
     (if Kind v \<noteq> Kind w then (False, Some (CannotOrder (Kind v) (Kind w)))
      else case (v, w) of
        (VNum a, VNum b) \<Rightarrow> (flt a b, None)
      | (VStr a, VStr b) \<Rightarrow> (str_less a b, None)
      | _ \<Rightarrow> (False, Some (CannotOrderKind (Kind v))))"

fun Contains_loop :: "val list \<Rightarrow> val \<Rightarrow> bool" where
  "Contains_loop [] x = False"
| "Contains_loop (e # es) x = (if Equal e x then True else Contains_loop es x)"

definition Contains :: "val \<Rightarrow> val \<Rightarrow> bool \<times> perr option" where
  "Contains v x = (case v of VList es \<Rightarrow> (Contains_loop es x, None)
     | _ \<Rightarrow> (False, Some (InNeedsList (Kind v))))"

subsection \<open>The input\<close>

record image =
  imgReference :: string
  imgRegistry :: string
  imgRepository :: string
  imgTag :: string
  imgDigest :: string

record workload =
  wPresent :: bool
  wPrivileged :: bool
  wRunAsRoot :: bool
  wHostNetwork :: bool
  wHostPID :: bool
  wHostIPC :: bool
  wReadOnlyRootFS :: bool
  wAllowPrivilegeEscalation :: bool
  wUsesHostPath :: bool
  wCapabilities :: "string list"
  wImages :: "string list"

text \<open>The attestation interface: a record of its methods.\<close>

record attestationState =
  asSigned :: bool
  asVerified :: "string \<Rightarrow> bool"
  asVerifiedPredicates :: "string list"

record staticAttestation =
  saIsSigned :: bool
  saPredicates :: "string list"

fun contains :: "string list \<Rightarrow> string \<Rightarrow> bool" where
  "contains [] want = False"
| "contains (s # ss) want = (if s = want then True else contains ss want)"

fun containsFold :: "string list \<Rightarrow> string \<Rightarrow> bool" where
  "containsFold [] want = False"
| "containsFold (s # ss) want =
     (if strings_ToLower s = strings_ToLower want then True else containsFold ss want)"

definition Static_Signed :: "staticAttestation \<Rightarrow> bool" where
  "Static_Signed s = saIsSigned s"

definition Static_Verified :: "staticAttestation \<Rightarrow> string \<Rightarrow> bool" where
  "Static_Verified s predicateType = contains (saPredicates s) predicateType"

definition Static_VerifiedPredicates :: "staticAttestation \<Rightarrow> string list" where
  "Static_VerifiedPredicates s = saPredicates s"

definition staticState :: "staticAttestation \<Rightarrow> attestationState" where
  "staticState s = \<lparr> asSigned = Static_Signed s, asVerified = Static_Verified s,
     asVerifiedPredicates = Static_VerifiedPredicates s \<rparr>"

record policyInput =
  inFindings :: "finding list"
  inImage :: image
  inWorkload :: workload
  inAttest :: "attestationState option"
  inLicenses :: "string list"
  inPackages :: "string list"

definition attestOf :: "policyInput \<Rightarrow> attestationState" where
  "attestOf i = (case inAttest i of
      None \<Rightarrow> staticState \<lparr> saIsSigned = False, saPredicates = [] \<rparr>
    | Some a \<Rightarrow> a)"

subsection \<open>The environment\<close>

type_synonym matcher = "string \<Rightarrow> bool"
type_synonym regexps = "string \<Rightarrow> matcher option"

text \<open>
  The environment caches compiled patterns. \<open>compileRegexp_cached\<close> is the code with its cache;
  as a cached pattern is what compiling it again would give (lemma below), the evaluation uses
  the cacheless \<open>compileRegexp\<close>.
\<close>

definition compileRegexp_cached ::
    "regexps \<Rightarrow> regexps \<Rightarrow> string \<Rightarrow> (perr + matcher) \<times> regexps" where
  "compileRegexp_cached compile cache pattern =
     (case cache pattern of
        Some re \<Rightarrow> (Inr re, cache)
      | None \<Rightarrow> (case compile pattern of
          None \<Rightarrow> (Inl (InvalidRegexp pattern), cache)
        | Some re \<Rightarrow> (Inr re, cache(pattern \<mapsto> re))))"

definition compileRegexp :: "regexps \<Rightarrow> string \<Rightarrow> perr + matcher" where
  "compileRegexp compile pattern =
     (case compile pattern of None \<Rightarrow> Inl (InvalidRegexp pattern) | Some re \<Rightarrow> Inr re)"

lemma compileRegexp_cache:
  assumes "cache \<subseteq>\<^sub>m compile"
  shows "fst (compileRegexp_cached compile cache pattern) = compileRegexp compile pattern"
    and "snd (compileRegexp_cached compile cache pattern) \<subseteq>\<^sub>m compile"
  using assms
  by (auto simp: compileRegexp_cached_def compileRegexp_def map_le_def dom_def split: option.splits)

subsection \<open>Builtins\<close>

fun countSeverity_loop :: "finding list \<Rightarrow> severity \<Rightarrow> bool \<Rightarrow> int" where
  "countSeverity_loop [] sev orAbove = 0"
| "countSeverity_loop (f # fs) sev orAbove =
     (if (orAbove \<and> fSeverity f \<ge> sev) \<or> (\<not> orAbove \<and> fSeverity f = sev) then 1 else 0)
     + countSeverity_loop fs sev orAbove"

definition countSeverity :: "finding list \<Rightarrow> severity \<Rightarrow> bool \<Rightarrow> int" where
  "countSeverity fs sev orAbove = (if sev = SeverityUnknown then 0 else countSeverity_loop fs sev orAbove)"

definition maxSeverity :: "finding list \<Rightarrow> string" where
  "maxSeverity fs = Severity_String (Highest_loop SeverityUnknown fs)"

definition strArg :: "string \<Rightarrow> val \<Rightarrow> perr + string" where
  "strArg fn v = (case v of VStr s \<Rightarrow> Inr s | _ \<Rightarrow> Inl (NeedsString fn (Kind v)))"

definition variables :: "string \<Rightarrow> (policyInput \<Rightarrow> val) option" where
  "variables = map_of
    [(''signed'', \<lambda>i. VBool (asSigned (attestOf i))),
     (''digest_pinned'', \<lambda>i. VBool (imgDigest (inImage i) \<noteq> [])),
     (''registry'', \<lambda>i. VStr (imgRegistry (inImage i))),
     (''repository'', \<lambda>i. VStr (imgRepository (inImage i))),
     (''tag'', \<lambda>i. VStr (imgTag (inImage i))),
     (''digest'', \<lambda>i. VStr (imgDigest (inImage i))),
     (''image_ref'', \<lambda>i. VStr (imgReference (inImage i))),
     (''finding_count'', \<lambda>i. VNum (float_of_int (int (length (inFindings i))))),
     (''max_severity'', \<lambda>i. VStr (maxSeverity (inFindings i))),
     (''workload_present'', \<lambda>i. VBool (wPresent (inWorkload i))),
     (''privileged'', \<lambda>i. VBool (wPrivileged (inWorkload i))),
     (''runs_as_root'', \<lambda>i. VBool (wRunAsRoot (inWorkload i))),
     (''host_network'', \<lambda>i. VBool (wHostNetwork (inWorkload i))),
     (''host_pid'', \<lambda>i. VBool (wHostPID (inWorkload i))),
     (''host_ipc'', \<lambda>i. VBool (wHostIPC (inWorkload i))),
     (''read_only_root_fs'', \<lambda>i. VBool (wReadOnlyRootFS (inWorkload i))),
     (''allow_privilege_escalation'', \<lambda>i. VBool (wAllowPrivilegeEscalation (inWorkload i))),
     (''uses_host_path'', \<lambda>i. VBool (wUsesHostPath (inWorkload i)))]"

text \<open>Argument \<open>k\<close> of a builtin; reading past the arguments panics.\<close>

definition argAt :: "val list \<Rightarrow> nat \<Rightarrow> perr + val" where
  "argAt a k = (if k < length a then Inr (a ! k) else Inl Panicked_index)"

definition sarg :: "string \<Rightarrow> val list \<Rightarrow> nat \<Rightarrow> perr + string" where
  "sarg fn a k = (case argAt a k of Inl e \<Rightarrow> Inl e | Inr v \<Rightarrow> strArg fn v)"

text \<open>A builtin of one string argument, and one of two.\<close>

definition fn1 :: "string \<Rightarrow> (string \<Rightarrow> perr + val) \<Rightarrow> val list \<Rightarrow> perr + val" where
  "fn1 fn g a = (case sarg fn a 0 of Inl e \<Rightarrow> Inl e | Inr s \<Rightarrow> g s)"

definition fn2 :: "string \<Rightarrow> (string \<Rightarrow> string \<Rightarrow> perr + val) \<Rightarrow> val list \<Rightarrow> perr + val" where
  "fn2 fn g a = (case sarg fn a 0 of Inl e \<Rightarrow> Inl e
     | Inr s \<Rightarrow> (case sarg fn a 1 of Inl e \<Rightarrow> Inl e | Inr t \<Rightarrow> g s t))"

definition fn_in :: "val list \<Rightarrow> perr + val" where
  "fn_in a = (case argAt a 1 of Inl e \<Rightarrow> Inl e
     | Inr l \<Rightarrow> (case argAt a 0 of Inl e \<Rightarrow> Inl e
         | Inr x \<Rightarrow> (case Contains l x of (b, None) \<Rightarrow> Inr (VBool b) | (b, Some e) \<Rightarrow> Inl e)))"

type_synonym builtin = "nat \<times> (regexps \<Rightarrow> policyInput \<Rightarrow> val list \<Rightarrow> perr + val)"

definition builtins :: "string \<Rightarrow> builtin option" where
  "builtins = map_of
    [(''severity_count'', 1, \<lambda>re i. fn1 ''severity_count''
        (\<lambda>s. Inr (VNum (float_of_int (countSeverity (inFindings i) (ParseSeverity s) False))))),
     (''severity_atleast'', 1, \<lambda>re i. fn1 ''severity_atleast''
        (\<lambda>s. Inr (VNum (float_of_int (countSeverity (inFindings i) (ParseSeverity s) True))))),
     (''has_rule'', 1, \<lambda>re i. fn1 ''has_rule''
        (\<lambda>s. Inr (VBool (list_ex (\<lambda>f. fRuleID f = s) (inFindings i))))),
     (''module_count'', 1, \<lambda>re i. fn1 ''module_count''
        (\<lambda>s. Inr (VNum (float_of_int (int (length (filter (\<lambda>f. fModule f = s) (inFindings i)))))))),
     (''resource_matches'', 1, \<lambda>re i. fn1 ''resource_matches''
        (\<lambda>p. case compileRegexp re p of Inl e \<Rightarrow> Inl e
           | Inr m \<Rightarrow> Inr (VBool (list_ex (\<lambda>f. m (fResource f)) (inFindings i))))),
     (''verified'', 1, \<lambda>re i. fn1 ''verified'' (\<lambda>s. Inr (VBool (asVerified (attestOf i) s)))),
     (''has_license'', 1, \<lambda>re i. fn1 ''has_license'' (\<lambda>s. Inr (VBool (containsFold (inLicenses i) s)))),
     (''has_package'', 1, \<lambda>re i. fn1 ''has_package'' (\<lambda>s. Inr (VBool (contains (inPackages i) s)))),
     (''has_capability'', 1, \<lambda>re i. fn1 ''has_capability''
        (\<lambda>s. Inr (VBool (containsFold (wCapabilities (inWorkload i)) s)))),
     (''in'', 2, \<lambda>re i. fn_in),
     (''matches'', 2, \<lambda>re i. fn2 ''matches''
        (\<lambda>s p. case compileRegexp re p of Inl e \<Rightarrow> Inl e | Inr m \<Rightarrow> Inr (VBool (m s)))),
     (''lower'', 1, \<lambda>re i. fn1 ''lower'' (\<lambda>s. Inr (VStr (strings_ToLower s)))),
     (''startswith'', 2, \<lambda>re i. fn2 ''startswith'' (\<lambda>s p. Inr (VBool (strings_HasPrefix s p)))),
     (''endswith'', 2, \<lambda>re i. fn2 ''endswith'' (\<lambda>s p. Inr (VBool (strings_HasSuffix s p))))]"

subsection \<open>Expressions\<close>

datatype node =
    LitNode val
  | ListNode "node list"
  | IdentNode string
  | CallNode string "node list"
  | UnaryNode tokenKind node
  | BinaryNode tokenKind node node

definition evalUnary :: "tokenKind \<Rightarrow> val \<Rightarrow> perr + val" where
  "evalUnary op v =
     (if op = TokNot then
        (case AsBool v of Inl e \<Rightarrow> Inl (OperatorErr TokNot e) | Inr b \<Rightarrow> Inr (VBool (\<not> b)))
      else if op = TokMinus then
        (case v of VNum n \<Rightarrow> Inr (VNum (fneg n)) | _ \<Rightarrow> Inl (MinusNeedsNum (Kind v)))
      else Inl UnknownUnary)"

text \<open>A builtin that returns a value together with an error gives the error.\<close>

definition withErr :: "bool \<times> perr option \<Rightarrow> (bool \<Rightarrow> bool) \<Rightarrow> perr + val" where
  "withErr r g = (case r of (b, None) \<Rightarrow> Inr (VBool (g b)) | (b, Some e) \<Rightarrow> Inl e)"

definition evalOrder :: "tokenKind \<Rightarrow> val \<Rightarrow> val \<Rightarrow> perr + val" where
  "evalOrder op lv rv =
     (if op = TokLt then withErr (Less lv rv) (\<lambda>b. b)
      else if op = TokGt then withErr (Less rv lv) (\<lambda>b. b)
      else if op = TokLe then withErr (Less rv lv) Not
      else if op = TokGe then withErr (Less lv rv) Not
      else Inl UnknownOrdering)"

definition evalBinary :: "tokenKind \<Rightarrow> val \<Rightarrow> val \<Rightarrow> perr + val" where
  "evalBinary op lv rv =
     (if op = TokEq then Inr (VBool (Equal lv rv))
      else if op = TokNe then Inr (VBool (\<not> Equal lv rv))
      else if op \<in> {TokLt, TokLe, TokGt, TokGe} then evalOrder op lv rv
      else if op \<in> {TokPlus, TokMinus} then
        (case (lv, rv) of
           (VNum a, VNum b) \<Rightarrow> Inr (VNum (if op = TokPlus then fadd a b else fsub a b))
         | _ \<Rightarrow> Inl (ArithNeedsNum (Kind lv) (Kind rv)))
      else Inl UnknownBinary)"

fun eval :: "regexps \<Rightarrow> policyInput \<Rightarrow> node \<Rightarrow> perr + val" where
  "eval re i (LitNode v) = Inr v"
| "eval re i (ListNode elems) =
     (case mapM_result (eval re i) elems of Inl e \<Rightarrow> Inl e | Inr vs \<Rightarrow> Inr (VList vs))"
| "eval re i (IdentNode name) =
     (case variables name of None \<Rightarrow> Inl (UnknownIdent name) | Some f \<Rightarrow> Inr (f i))"
| "eval re i (CallNode name args) =
     (case builtins name of
        None \<Rightarrow> Inl (UnknownFunc name)
      | Some (arity, f) \<Rightarrow>
          (case mapM_result (eval re i) args of Inl e \<Rightarrow> Inl e | Inr vs \<Rightarrow> f re i vs))"
| "eval re i (UnaryNode op x) =
     (case eval re i x of Inl e \<Rightarrow> Inl e | Inr v \<Rightarrow> evalUnary op v)"
| "eval re i (BinaryNode op l r) =
     (if op = TokAnd \<or> op = TokOr then
        (case eval re i l of Inl e \<Rightarrow> Inl e
         | Inr lv \<Rightarrow> (case AsBool lv of Inl e \<Rightarrow> Inl (OperatorErr op e)
             | Inr lb \<Rightarrow>
                 if op = TokAnd \<and> \<not> lb then Inr (VBool False)
                 else if op = TokOr \<and> lb then Inr (VBool True)
                 else (case eval re i r of Inl e \<Rightarrow> Inl e
                   | Inr rv \<Rightarrow> (case AsBool rv of Inl e \<Rightarrow> Inl (OperatorErr op e) | Inr rb \<Rightarrow> Inr (VBool rb)))))
      else
        (case eval re i l of Inl e \<Rightarrow> Inl e
         | Inr lv \<Rightarrow> (case eval re i r of Inl e \<Rightarrow> Inl e | Inr rv \<Rightarrow> evalBinary op lv rv)))"

subsection \<open>Static validation\<close>

text \<open>\<^verbatim>\<open>checkRegexpLiteral\<close> and \<^verbatim>\<open>validateSemantics\<close> of \<^verbatim>\<open>engine.go\<close>; None is no error.\<close>

definition patIdx :: "string \<Rightarrow> nat option" where
  "patIdx name = (if name = ''resource_matches'' then Some 0 else if name = ''matches'' then Some 1 else None)"

definition checkRegexpLiteral :: "regexps \<Rightarrow> string \<Rightarrow> node list \<Rightarrow> perr option" where
  "checkRegexpLiteral re name args =
     (case patIdx name of
        None \<Rightarrow> None
      | Some k \<Rightarrow>
          if k \<ge> length args then None
          else case args ! k of
            LitNode (VStr p) \<Rightarrow> (case compileRegexp re p of Inl e \<Rightarrow> Some e | Inr m \<Rightarrow> None)
          | _ \<Rightarrow> None)"

fun first_err :: "('a \<Rightarrow> 'e option) \<Rightarrow> 'a list \<Rightarrow> 'e option" where
  "first_err f [] = None"
| "first_err f (x # xs) = (case f x of Some e \<Rightarrow> Some e | None \<Rightarrow> first_err f xs)"

lemma first_err_cong [fundef_cong]:
  assumes "xs = ys" and "\<And>x. x \<in> set ys \<Longrightarrow> f x = g x"
  shows "first_err f xs = first_err g ys"
  using assms by (induction ys arbitrary: xs) (auto split: option.splits)

lemma first_err_None: "first_err f xs = None \<longleftrightarrow> (\<forall>x \<in> set xs. f x = None)"
  by (induction xs) (auto split: option.splits)

fun validateSemantics :: "regexps \<Rightarrow> node \<Rightarrow> perr option" where
  "validateSemantics re (LitNode v) = None"
| "validateSemantics re (ListNode elems) = first_err (validateSemantics re) elems"
| "validateSemantics re (IdentNode name) =
     (if variables name = None then Some (UnknownIdent name) else None)"
| "validateSemantics re (CallNode name args) =
     (case builtins name of
        None \<Rightarrow> Some (UnknownFunc name)
      | Some (arity, f) \<Rightarrow>
          if length args \<noteq> arity then Some (WrongArity name arity (length args))
          else case checkRegexpLiteral re name args of
            Some e \<Rightarrow> Some e
          | None \<Rightarrow> first_err (validateSemantics re) args)"
| "validateSemantics re (UnaryNode op x) = validateSemantics re x"
| "validateSemantics re (BinaryNode op l r) =
     (case validateSemantics re l of Some e \<Rightarrow> Some e | None \<Rightarrow> validateSemantics re r)"

subsection \<open>A validated expression has no static errors\<close>

text \<open>The operators the parser builds nodes with.\<close>

definition unaryOps :: "tokenKind set" where
  "unaryOps = {TokNot, TokMinus}"

definition binaryOps :: "tokenKind set" where
  "binaryOps = {TokAnd, TokOr, TokEq, TokNe, TokLt, TokLe, TokGt, TokGe, TokPlus, TokMinus}"

fun opsOK :: "node \<Rightarrow> bool" where
  "opsOK (LitNode v) = True"
| "opsOK (ListNode es) = list_all opsOK es"
| "opsOK (IdentNode n) = True"
| "opsOK (CallNode n as) = list_all opsOK as"
| "opsOK (UnaryNode op x) = (op \<in> unaryOps \<and> opsOK x)"
| "opsOK (BinaryNode op l r) = (op \<in> binaryOps \<and> opsOK l \<and> opsOK r)"

text \<open>Every pattern handed to a regular-expression builtin is a literal.\<close>

fun patternsLiteral :: "node \<Rightarrow> bool" where
  "patternsLiteral (LitNode v) = True"
| "patternsLiteral (ListNode es) = list_all patternsLiteral es"
| "patternsLiteral (IdentNode n) = True"
| "patternsLiteral (CallNode n as) =
     (list_all patternsLiteral as \<and>
      (case patIdx n of None \<Rightarrow> True | Some k \<Rightarrow> k < length as \<longrightarrow> (\<exists>p. as ! k = LitNode (VStr p))))"
| "patternsLiteral (UnaryNode op x) = patternsLiteral x"
| "patternsLiteral (BinaryNode op l r) = (patternsLiteral l \<and> patternsLiteral r)"

text \<open>The errors validation promises to exclude; \<open>lits\<close> says that patterns are literals.\<close>

fun static_err :: "bool \<Rightarrow> perr \<Rightarrow> bool" where
  "static_err lits (UnknownIdent s) = True"
| "static_err lits (UnknownFunc s) = True"
| "static_err lits (WrongArity s n m) = True"
| "static_err lits Panicked_index = True"
| "static_err lits UnknownUnary = True"
| "static_err lits UnknownBinary = True"
| "static_err lits UnknownOrdering = True"
| "static_err lits (InvalidRegexp p) = lits"
| "static_err lits (OperatorErr k e) = static_err lits e"
| "static_err lits e = False"

lemma AsBool_err: "AsBool v = Inl e \<Longrightarrow> \<not> static_err b e"
  by (cases v) auto

lemma strArg_err: "strArg fn v = Inl e \<Longrightarrow> \<not> static_err b e"
  by (cases v) (auto simp: strArg_def)

lemma sarg_err: "sarg fn a k = Inl e \<Longrightarrow> k < length a \<Longrightarrow> \<not> static_err b e"
  by (auto simp: sarg_def argAt_def dest: strArg_err)

lemma Less_err: "Less v w = (b, Some e) \<Longrightarrow> \<not> static_err l e"
  by (cases v; cases w) (auto simp: Less_def)

lemma withErr_err: "withErr (Less v w) g = Inl e \<Longrightarrow> \<not> static_err l e"
  by (auto simp: withErr_def split: prod.splits option.splits dest: Less_err)

lemma evalUnary_err: "op \<in> unaryOps \<Longrightarrow> evalUnary op v = Inl e \<Longrightarrow> \<not> static_err b e"
  by (auto simp: evalUnary_def unaryOps_def split: if_splits sum.splits val.splits dest: AsBool_err)

lemma evalBinary_err:
  "op \<in> binaryOps - {TokAnd, TokOr} \<Longrightarrow> evalBinary op v w = Inl e \<Longrightarrow> \<not> static_err b e"
  by (auto simp: evalBinary_def evalOrder_def binaryOps_def split: if_splits val.splits dest: withErr_err)

lemma fn1_err:
  "fn1 fn g a = Inl e \<Longrightarrow> length a = 1 \<Longrightarrow> (\<And>s e. g s = Inl e \<Longrightarrow> \<not> static_err b e) \<Longrightarrow> \<not> static_err b e"
  by (auto simp: fn1_def split: sum.splits dest: sarg_err [where b = b])

lemma fn2_err:
  "fn2 fn g a = Inl e \<Longrightarrow> length a = 2 \<Longrightarrow> (\<And>s t e. g s t = Inl e \<Longrightarrow> \<not> static_err b e) \<Longrightarrow> \<not> static_err b e"
  by (auto simp: fn2_def split: sum.splits dest: sarg_err [where b = b])

lemma fn_in_err: "fn_in a = Inl e \<Longrightarrow> length a = 2 \<Longrightarrow> \<not> static_err b e"
  by (auto simp: fn_in_def argAt_def Contains_def split: sum.splits prod.splits option.splits val.splits if_splits)

lemma regexp_err:
  "(case compileRegexp re p of Inl e \<Rightarrow> Inl e | Inr m \<Rightarrow> Inr (h m)) = Inl e \<Longrightarrow> (b \<Longrightarrow> re p \<noteq> None) \<Longrightarrow> \<not> static_err b e"
  by (auto simp: compileRegexp_def split: option.splits sum.splits)

lemma sarg_val: "sarg fn a k = Inr s \<Longrightarrow> k < length a \<and> a ! k = VStr s"
  by (auto simp: sarg_def argAt_def strArg_def split: if_splits sum.splits val.splits)

lemma fn1_regexp_err:
  assumes "fn1 fn (\<lambda>p. case compileRegexp re p of Inl e \<Rightarrow> Inl e | Inr m \<Rightarrow> Inr (h m)) a = Inl e" and "length a = 1"
    and "\<And>p. b \<Longrightarrow> a ! 0 = VStr p \<Longrightarrow> re p \<noteq> None"
  shows "\<not> static_err b e"
proof (cases "sarg fn a 0")
  case (Inl x)
  then show ?thesis using assms by (auto simp: fn1_def dest: sarg_err [where b = b])
next
  case (Inr p)
  then have "(case compileRegexp re p of Inl e \<Rightarrow> Inl e | Inr m \<Rightarrow> Inr (h m)) = Inl e" "a ! 0 = VStr p"
    using assms(1) sarg_val [OF Inr] by (simp_all add: fn1_def)
  then show ?thesis using regexp_err [where re = re and p = p and h = h and e = e and b = b] assms(3) by blast
qed

lemma fn2_regexp_err:
  assumes "fn2 fn (\<lambda>s p. case compileRegexp re p of Inl e \<Rightarrow> Inl e | Inr m \<Rightarrow> Inr (h s m)) a = Inl e" and "length a = 2"
    and "\<And>p. b \<Longrightarrow> a ! 1 = VStr p \<Longrightarrow> re p \<noteq> None"
  shows "\<not> static_err b e"
proof (cases "sarg fn a 0")
  case (Inl x)
  then show ?thesis using assms by (auto simp: fn2_def dest: sarg_err [where b = b])
next
  case (Inr s)
  show ?thesis
  proof (cases "sarg fn a 1")
    case (Inl x)
    then show ?thesis using assms Inr by (auto simp: fn2_def dest: sarg_err [where b = b])
  next
    case (Inr p)
    then have "(case compileRegexp re p of Inl e \<Rightarrow> Inl e | Inr m \<Rightarrow> Inr (h s m)) = Inl e" "a ! 1 = VStr p"
      using assms(1) \<open>sarg fn a 0 = Inr s\<close> sarg_val [OF Inr] by (simp_all add: fn2_def)
    then show ?thesis using regexp_err [where re = re and p = p and h = "h s" and e = e and b = b] assms(3) by blast
  qed
qed

lemma builtin_err:
  assumes f: "builtins name = Some (k, f)" and len: "length vs = k" and err: "f re i vs = Inl e"
    and pat: "\<And>j p. patIdx name = Some j \<Longrightarrow> vs ! j = VStr p \<Longrightarrow> b \<Longrightarrow> re p \<noteq> None"
  shows "\<not> static_err b e"
proof (cases "patIdx name")
  case None
  then show ?thesis
    using f len err fn1_err [where a = vs and e = e and b = b] fn2_err [where a = vs and e = e and b = b]
      fn_in_err [of vs e b]
    by (auto simp: builtins_def patIdx_def split: if_splits)
next
  case (Some j)
  then consider "name = ''resource_matches''" "j = 0" | "name = ''matches''" "j = 1"
    by (auto simp: patIdx_def split: if_splits)
  then show ?thesis
  proof cases
    case 1
    then have e1: "fn1 ''resource_matches'' (\<lambda>p. case compileRegexp re p of Inl e \<Rightarrow> Inl e
        | Inr m \<Rightarrow> Inr (VBool (list_ex (\<lambda>f. m (fResource f)) (inFindings i)))) vs = Inl e" and l1: "length vs = 1"
      using f len err by (auto simp: builtins_def)
    show ?thesis by (rule fn1_regexp_err [OF e1 l1]) (use pat [of 0] Some 1 in blast)
  next
    case 2
    then have e2: "fn2 ''matches'' (\<lambda>s p. case compileRegexp re p of Inl e \<Rightarrow> Inl e
        | Inr m \<Rightarrow> Inr (VBool (m s))) vs = Inl e" and l2: "length vs = 2"
      using f len err by (auto simp: builtins_def)
    show ?thesis by (rule fn2_regexp_err [OF e2 l2]) (use pat [of 1] Some 2 in blast)
  qed
qed

lemma eval_no_static_error:
  assumes "validateSemantics re n = None" and "opsOK n" and "b \<longrightarrow> patternsLiteral n" and "eval re i n = Inl e"
  shows "\<not> static_err b e"
  using assms
proof (induction re i n arbitrary: e rule: eval.induct)
  case (2 re i elems)
  then obtain x where "x \<in> set elems" "eval re i x = Inl e"
    by (auto split: sum.splits dest: mapM_result_Inl)
  then show ?case using 2 by (auto simp: first_err_None list_all_iff)
next
  case (4 re i name args)
  obtain k f where f: "builtins name = Some (k, f)" and len: "length args = k"
    and chk: "checkRegexpLiteral re name args = None" and sub: "\<forall>a \<in> set args. validateSemantics re a = None"
    using 4(2) by (auto simp: first_err_None split: option.splits if_splits)
  show ?case
  proof (cases "mapM_result (eval re i) args")
    case (Inl x)
    then have "x = e" using 4(5) f by simp
    obtain a where a: "a \<in> set args" "eval re i a = Inl e"
      using mapM_result_Inl [OF Inl] \<open>x = e\<close> by blast
    have "opsOK a" "b \<longrightarrow> patternsLiteral a" using 4(3,4) a(1) by (auto simp: list_all_iff)
    then show ?thesis using 4(1) [OF f refl a(1)] sub a by blast
  next
    case (Inr vs)
    have vl: "length vs = k" using mapM_result_length [OF Inr] len by simp
    have err: "f re i vs = Inl e" using 4(5) f Inr by simp
    show ?thesis
    proof (rule builtin_err [OF f vl err])
      fix j p
      assume j: "patIdx name = Some j" and v: "vs ! j = VStr p" and b
      have "j < k" using j f by (auto simp: patIdx_def builtins_def split: if_splits)
      then obtain q where q: "args ! j = LitNode (VStr q)"
        using 4(4) \<open>b\<close> j len by auto
      have "eval re i (args ! j) = Inr (vs ! j)"
        using mapM_result_Inr [OF Inr] \<open>j < k\<close> len by (simp add: list_all2_conv_all_nth)
      then have "q = p" using q v by simp
      then show "re p \<noteq> None"
        using chk j q \<open>j < k\<close> len by (auto simp: checkRegexpLiteral_def compileRegexp_def split: option.splits)
    qed
  qed
next
  case (5 re i op x)
  then show ?case by (auto split: sum.splits dest: evalUnary_err)
next
  case (6 re i op l r)
  have sub: "validateSemantics re l = None" "validateSemantics re r = None"
    using "6.prems"(1) by (auto split: option.splits)
  have ops: "opsOK l" "opsOK r" "op \<in> binaryOps" "b \<longrightarrow> patternsLiteral l" "b \<longrightarrow> patternsLiteral r"
    using "6.prems"(2,3) by auto
  have no_l: "\<not> static_err b x" if "eval re i l = Inl x" for x
    using "6.IH"(1) [OF _ sub(1) ops(1,4) that] "6.IH"(3) [OF _ sub(1) ops(1,4) that] by blast
  show ?case
  proof (cases "op = TokAnd \<or> op = TokOr")
    case True
    show ?thesis
    proof (cases "eval re i l")
      case (Inl x)
      then show ?thesis using no_l True "6.prems"(4) by simp
    next
      case (Inr lv)
      show ?thesis
      proof (cases "AsBool lv")
        case (Inl x)
        then show ?thesis using AsBool_err [OF Inl] True \<open>eval re i l = Inr lv\<close> "6.prems"(4) by auto
      next
        case (Inr lb)
        then show ?thesis
          using "6.IH"(2) [OF True \<open>eval re i l = Inr lv\<close> Inr _ _ sub(2) ops(2,5)] True
            \<open>eval re i l = Inr lv\<close> "6.prems"(4)
          by (auto split: if_splits sum.splits dest: AsBool_err [where b = b])
      qed
    qed
  next
    case False
    show ?thesis
    proof (cases "eval re i l")
      case (Inl x)
      then show ?thesis using no_l False "6.prems"(4) by simp
    next
      case (Inr lv)
      then show ?thesis
        using "6.IH"(4) [OF False Inr sub(2) ops(2,5)] False "6.prems"(4) ops(3) evalBinary_err [of op lv _ e b]
        by (auto split: sum.splits)
    qed
  qed
qed (auto split: option.splits)

text \<open>
  An expression that passes validation cannot fail at a gate with an unknown identifier, an
  unknown function, a wrong number of arguments, an unknown operator or a panic, whatever it is
  evaluated on; and when its patterns are literals, not with an invalid pattern either. Only
  type errors of values are left.
\<close>

theorem validated_no_static_error:
  assumes "validateSemantics re n = None" and "opsOK n" and "eval re i n = Inl e"
  shows "\<not> static_err (patternsLiteral n) e"
  using eval_no_static_error [OF assms(1,2) _ assms(3), of "patternsLiteral n"] by simp

definition emptyInput :: policyInput where
  "emptyInput = \<lparr> inFindings = [], inImage = \<lparr> imgReference = [], imgRegistry = [], imgRepository = [], imgTag = [], imgDigest = [] \<rparr>,
     inWorkload = \<lparr> wPresent = False, wPrivileged = False, wRunAsRoot = False, wHostNetwork = False, wHostPID = False,
       wHostIPC = False, wReadOnlyRootFS = False, wAllowPrivilegeEscalation = False, wUsesHostPath = False,
       wCapabilities = [], wImages = [] \<rparr>,
     inAttest = None, inLicenses = [], inPackages = [] \<rparr>"

theorem validated_no_static_error_witness:
  "\<not> static_err (patternsLiteral (CallNode ''severity_count'' [IdentNode ''signed''])) (NeedsString ''severity_count'' KindBool)"
proof -
  let ?n = "CallNode ''severity_count'' [IdentNode ''signed'']" and ?re = "\<lambda>p. Some (\<lambda>s. True)"
  have v: "validateSemantics ?re ?n = None" by code_simp
  have o: "opsOK ?n" by simp
  have e: "eval ?re emptyInput ?n = Inl (NeedsString ''severity_count'' KindBool)" by code_simp
  show ?thesis by (rule validated_no_static_error [OF v o e])
qed

end
