(* ===== verification/PolicyLexer.thy ===== *)
theory PolicyLexer
  imports PolicyEval
begin

text \<open>
  The lexer of \<^verbatim>\<open>internal/policy/lexer.go\<close> on ASCII input: a byte of 128 or more outside a string
  is rejected, where the code also accepts non-ASCII letters and spaces. The scanner works on
  the rest of the input and its column; \<^verbatim>\<open>strconv.ParseFloat\<close> on digits with at most one
  dot is the rounded value of the decimal, an error when it overflows.
\<close>

record token =
  tkKind :: tokenKind
  tkText :: string
  tkStr :: string
  tkNum :: float64
  tkCol :: int

definition tok :: "tokenKind \<Rightarrow> int \<Rightarrow> token" where
  "tok k col = \<lparr> tkKind = k, tkText = [], tkStr = [], tkNum = Fin 0, tkCol = col \<rparr>"

datatype lex_err =
    UnexpectedChar char int
  | UnexpectedOperator char int
  | InvalidEscape char int
  | UnterminatedString int
  | InvalidNumber string int
  | TooManyTokens

definition maxTokens :: int where
  "maxTokens = 4096"

definition isIdentStart :: "char \<Rightarrow> bool" where
  "isIdentStart r \<longleftrightarrow> r = CHR ''_'' \<or> isAlpha r"

definition isIdentPart :: "char \<Rightarrow> bool" where
  "isIdentPart r \<longleftrightarrow> r = CHR ''_'' \<or> isAlpha r \<or> isDigit r"

text \<open>The rest after the token is part of the result.\<close>

definition two_ops :: "(string \<times> tokenKind) list" where
  "two_ops = [(''&&'', TokAnd), (''||'', TokOr), (''=='', TokEq), (''!='', TokNe), (''<='', TokLe), (''>='', TokGe)]"

definition lexOperator :: "string \<Rightarrow> int \<Rightarrow> lex_err + (token \<times> string)" where
  "lexOperator s i =
     (case map_of two_ops (if length s \<ge> 2 then take 2 s else []) of
        Some k \<Rightarrow> Inr (tok k i, drop 2 s)
      | None \<Rightarrow>
          (let c = hd s in
           if c = CHR ''!'' then Inr (tok TokNot i, tl s)
           else if c = CHR ''<'' then Inr (tok TokLt i, tl s)
           else if c = CHR ''>'' then Inr (tok TokGt i, tl s)
           else Inl (UnexpectedOperator c i)))"

definition unescape :: "char \<Rightarrow> char option" where
  "unescape c =
     (if c = CHR ''n'' then Some (CHR 0x0A) else if c = CHR ''t'' then Some (CHR 0x09)
      else if c = CHR 0x5C then Some c else if c = CHR 0x22 then Some c
      else if c = CHR 0x27 then Some c else None)"

fun lexString_loop :: "int \<Rightarrow> char \<Rightarrow> string \<Rightarrow> string \<Rightarrow> int \<Rightarrow> lex_err + (string \<times> string)" where
  "lexString_loop start q sb [] i = Inl (UnterminatedString start)"
| "lexString_loop start q sb [c] i =
     (if c = q then Inr (sb, [])
      else if c = CHR 0x5C then Inl (UnterminatedString start)
      else lexString_loop start q (sb @ [c]) [] (i + 1))"
| "lexString_loop start q sb (c # d # cs) i =
     (if c = q then Inr (sb, d # cs)
      else if c = CHR 0x5C then
        (case unescape d of
           Some x \<Rightarrow> lexString_loop start q (sb @ [x]) cs (i + 2)
         | None \<Rightarrow> Inl (InvalidEscape d i))
      else lexString_loop start q (sb @ [c]) (d # cs) (i + 1))"

definition lexString :: "string \<Rightarrow> int \<Rightarrow> lex_err + (token \<times> string)" where
  "lexString s start =
     (case lexString_loop start (hd s) [] (tl s) (start + 1) of
        Inl e \<Rightarrow> Inl e
      | Inr (str, rest) \<Rightarrow> Inr ((tok TokString start)\<lparr> tkStr := str \<rparr>, rest))"

fun number_span :: "bool \<Rightarrow> string \<Rightarrow> string \<times> string" where
  "number_span seenDot [] = ([], [])"
| "number_span seenDot (c # cs) =
     (if isDigit c then (case number_span seenDot cs of (t, r) \<Rightarrow> (c # t, r))
      else if c = CHR ''.'' \<and> \<not> seenDot then (case number_span True cs of (t, r) \<Rightarrow> (c # t, r))
      else ([], c # cs))"

fun decimal_value :: "rat \<Rightarrow> string \<Rightarrow> rat" where
  "decimal_value acc [] = acc"
| "decimal_value acc (c # cs) = decimal_value (10 * acc + of_nat (digitVal c)) cs"

text \<open>\<^verbatim>\<open>strconv.ParseFloat(text, 64)\<close> on such a text; None is the range error.\<close>

definition ParseFloat :: "string \<Rightarrow> float64 option" where
  "ParseFloat text =
     (let (ip, fp) = (case cut_byte CHR ''.'' text of Some ab \<Rightarrow> ab | None \<Rightarrow> (text, []));
          x = round64 (decimal_value 0 (ip @ fp) / 10 ^ length fp)
      in if x = PosInf then None else Some x)"

definition lexNumber :: "string \<Rightarrow> int \<Rightarrow> lex_err + (token \<times> string)" where
  "lexNumber s start =
     (case number_span False s of (text, rest) \<Rightarrow>
        (case ParseFloat text of
           None \<Rightarrow> Inl (InvalidNumber text start)
         | Some n \<Rightarrow> Inr ((tok TokNumber start)\<lparr> tkText := text, tkNum := n \<rparr>, rest)))"

definition lexIdent :: "string \<Rightarrow> int \<Rightarrow> token \<times> string" where
  "lexIdent s start =
     (let text = takeWhile isIdentPart s; rest = dropWhile isIdentPart s in
      ((tok (if text = ''true'' then TokTrue else if text = ''false'' then TokFalse else TokIdent) start)
         \<lparr> tkText := text \<rparr>, rest))"

definition single_toks :: "(char \<times> tokenKind) list" where
  "single_toks = [(CHR ''('', TokLParen), (CHR '')'', TokRParen), (CHR ''['', TokLBracket), (CHR '']'', TokRBracket),
     (CHR '','', TokComma), (CHR ''+'', TokPlus), (CHR ''-'', TokMinus)]"

text \<open>One iteration at a character that is not a space.\<close>

definition lex_token :: "string \<Rightarrow> int \<Rightarrow> lex_err + (token \<times> string)" where
  "lex_token s i =
     (let r = hd s in
      case map_of single_toks r of
        Some k \<Rightarrow> Inr (tok k i, tl s)
      | None \<Rightarrow>
          if r = CHR 0x22 \<or> r = CHR 0x27 then lexString s i
          else if r \<in> {CHR ''&'', CHR ''|'', CHR ''='', CHR ''!'', CHR ''<'', CHR ''>''} then lexOperator s i
          else if isDigit r then lexNumber s i
          else if isIdentStart r then Inr (lexIdent s i)
          else Inl (UnexpectedChar r i))"

lemma lexString_loop_shorter:
  "lexString_loop st q sb s i = Inr (x, rest) \<Longrightarrow> length rest < length s"
  by (induction st q sb s i rule: lexString_loop.induct) (auto split: if_splits option.splits)

lemma number_span_append: "number_span d s = (t, r) \<Longrightarrow> s = t @ r"
  by (induction d s arbitrary: t r rule: number_span.induct) (auto split: if_splits prod.splits)

declare number_span.simps [simp del]

lemma lex_token_shorter:
  assumes "lex_token (c # cs) i = Inr (t, rest)"
  shows "length rest < length (c # cs)"
proof -
  have str: "length rest < length (c # cs)" if "lexString (c # cs) i = Inr (t, rest)"
    using that lexString_loop_shorter by (fastforce simp: lexString_def split: sum.splits prod.splits)
  have oper: "length rest < length (c # cs)" if "lexOperator (c # cs) i = Inr (t, rest)"
    using that by (auto simp: lexOperator_def Let_def split: option.splits if_splits)
  have num: "length rest < length (c # cs)" if "lexNumber (c # cs) i = Inr (t, rest)" "isDigit c"
  proof -
    obtain ds where sp: "number_span False (c # cs) = (ds, rest)"
      using \<open>lexNumber (c # cs) i = Inr (t, rest)\<close>
      by (auto simp: lexNumber_def split: prod.splits option.splits)
    then have "c # cs = ds @ rest" by (rule number_span_append)
    moreover have "ds \<noteq> []" using sp \<open>isDigit c\<close> by (auto simp: number_span.simps split: prod.splits)
    ultimately show ?thesis by (cases ds) auto
  qed
  have identf: "length (dropWhile isIdentPart (c # cs)) < length (c # cs)" if "isIdentStart c"
    using that by (intro length_dropWhile_less) (auto simp: isIdentStart_def isIdentPart_def)
  show ?thesis
    using assms str oper num identf
    by (auto simp: lex_token_def lexIdent_def Let_def split: option.splits if_splits)
qed

text \<open>The loop: \<open>n\<close> counts the tokens so far. The bound is tested after every token.\<close>

function (sequential) lex_loop :: "int \<Rightarrow> string \<Rightarrow> int \<Rightarrow> lex_err + token list" where
  "lex_loop n [] i = Inr [tok TokEOF i]"
| "lex_loop n (c # cs) i =
     (if isSpaceByte c then lex_loop n cs (i + 1)
      else case lex_token (c # cs) i of
        Inl e \<Rightarrow> Inl e
      | Inr (t, rest) \<Rightarrow>
          if n + 1 > maxTokens then Inl TooManyTokens
          else (case lex_loop (n + 1) rest (i + int (length (c # cs) - length rest)) of
             Inl e \<Rightarrow> Inl e | Inr ts \<Rightarrow> Inr (t # ts)))"
  by pat_completeness auto
termination
  by (relation "measure (\<lambda>(n, s, i). length s)") (auto dest: lex_token_shorter)

definition lex :: "string \<Rightarrow> lex_err + token list" where
  "lex input = lex_loop 0 input 0"

subsection \<open>What the lexer guarantees\<close>

lemma tok_fields [simp]: "tkKind (tok k i) = k" "tkCol (tok k i) = i"
  by (simp_all add: tok_def)

lemma lexOperator_tok: "lexOperator s i = Inr (t, rest) \<Longrightarrow> tkKind t \<noteq> TokEOF \<and> tkCol t = i"
  by (auto simp: lexOperator_def two_ops_def Let_def split: if_splits)

lemma lexString_tok: "lexString s i = Inr (t, rest) \<Longrightarrow> tkKind t \<noteq> TokEOF \<and> tkCol t = i"
  by (auto simp: lexString_def split: sum.splits prod.splits)

lemma lexNumber_tok: "lexNumber s i = Inr (t, rest) \<Longrightarrow> tkKind t \<noteq> TokEOF \<and> tkCol t = i"
  by (auto simp: lexNumber_def split: option.splits prod.splits)

lemma lexIdent_tok: "lexIdent s i = (t, rest) \<Longrightarrow> tkKind t \<noteq> TokEOF \<and> tkCol t = i"
  by (auto simp: lexIdent_def Let_def split: if_splits)

lemma single_toks_tok: "map_of single_toks c = Some k \<Longrightarrow> k \<noteq> TokEOF"
  by (auto simp: single_toks_def split: if_splits)

lemma lex_token_tok:
  assumes "lex_token s i = Inr (t, rest)"
  shows "tkKind t \<noteq> TokEOF \<and> tkCol t = i"
  using assms lexOperator_tok [of s i t rest] lexString_tok [of s i t rest] lexNumber_tok [of s i t rest]
    lexIdent_tok [of s i t rest] single_toks_tok [of "hd s"]
  by (auto simp: lex_token_def Let_def split: option.splits if_splits)

lemma lex_loop_shape:
  "lex_loop n s i = Inr ts \<Longrightarrow> n \<le> maxTokens \<Longrightarrow>
    \<exists>us. ts = us @ [tok TokEOF (i + int (length s))] \<and> n + int (length us) \<le> maxTokens
      \<and> (\<forall>t \<in> set us. tkKind t \<noteq> TokEOF \<and> i \<le> tkCol t \<and> tkCol t < i + int (length s))
      \<and> sorted_wrt (\<lambda>a b. tkCol a < tkCol b) us"
proof (induction n s i arbitrary: ts rule: lex_loop.induct)
  case (1 n i)
  then show ?case by simp
next
  case (2 n c cs i)
  show ?case
  proof (cases "isSpaceByte c")
    case True
    have "lex_loop n cs (i + 1) = Inr ts" using "2.prems"(1) True by simp
    from "2.IH"(1) [OF True this "2.prems"(2)] obtain us where
      "ts = us @ [tok TokEOF (i + 1 + int (length cs))]" "n + int (length us) \<le> maxTokens"
      "\<forall>t \<in> set us. tkKind t \<noteq> TokEOF \<and> i + 1 \<le> tkCol t \<and> tkCol t < i + 1 + int (length cs)"
      "sorted_wrt (\<lambda>a b. tkCol a < tkCol b) us" by blast
    then show ?thesis by (intro exI [of _ us]) (auto simp: add.assoc)
  next
    case False
    obtain t rest where t: "lex_token (c # cs) i = Inr (t, rest)"
      using "2.prems"(1) False by (auto split: sum.splits)
    define j where "j = i + int (length (c # cs) - length rest)"
    have shorter: "length rest < length (c # cs)" by (rule lex_token_shorter [OF t])
    have j: "i < j" "j + int (length rest) = i + int (length (c # cs))"
      using shorter unfolding j_def by linarith+
    have bound: "\<not> n + 1 > maxTokens" using "2.prems"(1) False t by (auto split: if_splits)
    obtain vs where vs: "lex_loop (n + 1) rest j = Inr vs" and ts: "ts = t # vs"
      using "2.prems"(1) False t bound by (auto simp: j_def split: sum.splits)
    have "n + 1 \<le> maxTokens" using bound by simp
    from "2.IH"(2) [OF False t _ bound vs [unfolded j_def] this] obtain us where us:
      "vs = us @ [tok TokEOF (j + int (length rest))]" "n + 1 + int (length us) \<le> maxTokens"
      "\<forall>u \<in> set us. tkKind u \<noteq> TokEOF \<and> j \<le> tkCol u \<and> tkCol u < j + int (length rest)"
      "sorted_wrt (\<lambda>a b. tkCol a < tkCol b) us" unfolding j_def [symmetric] by blast
    have tk: "tkKind t \<noteq> TokEOF" "tkCol t = i" using lex_token_tok [OF t] by simp_all
    show ?thesis
      by (rule exI [of _ "t # us"]) (use us ts tk j in auto)
  qed
qed

subsection \<open>Printed tokens are read back\<close>

definition escChar :: "char \<Rightarrow> string" where
  "escChar c = (if c = CHR 0x5C \<or> c = CHR 0x22 then [CHR 0x5C, c] else [c])"

definition opText :: "tokenKind \<Rightarrow> string" where
  "opText k = (case map_of
     [(TokLParen, ''(''), (TokRParen, '')''), (TokLBracket, ''[''), (TokRBracket, '']''), (TokComma, '',''),
      (TokAnd, ''&&''), (TokOr, ''||''), (TokNot, ''!''), (TokEq, ''==''), (TokNe, ''!=''), (TokLt, ''<''),
      (TokLe, ''<=''), (TokGt, ''>''), (TokGe, ''>=''), (TokPlus, ''+''), (TokMinus, ''-'')] k of
     Some s \<Rightarrow> s | None \<Rightarrow> [])"

definition printTok :: "token \<Rightarrow> string" where
  "printTok t =
     (if tkKind t = TokString then [CHR 0x22] @ concat (map escChar (tkStr t)) @ [CHR 0x22]
      else if tkKind t \<in> {TokNumber, TokIdent, TokTrue, TokFalse} then tkText t
      else opText (tkKind t))"

text \<open>The tokens the language has: any string, names, decimal numbers, keywords and operators.\<close>

definition identText :: "string \<Rightarrow> bool" where
  "identText s \<longleftrightarrow> s \<noteq> [] \<and> isIdentStart (hd s) \<and> (\<forall>c \<in> set s. isIdentPart c)"

definition numText :: "string \<Rightarrow> bool" where
  "numText s \<longleftrightarrow> (\<exists>ip fp. ip \<noteq> [] \<and> (\<forall>c \<in> set (ip @ fp). isDigit c) \<and> (s = ip \<or> s = ip @ ''.'' @ fp))"

definition tokOK :: "token \<Rightarrow> bool" where
  "tokOK t \<longleftrightarrow>
     (case tkKind t of
        TokEOF \<Rightarrow> False
      | TokString \<Rightarrow> t = (tok TokString (tkCol t))\<lparr> tkStr := tkStr t \<rparr>
      | TokNumber \<Rightarrow> numText (tkText t) \<and> ParseFloat (tkText t) = Some (tkNum t)
          \<and> t = (tok TokNumber (tkCol t))\<lparr> tkText := tkText t, tkNum := tkNum t \<rparr>
      | TokIdent \<Rightarrow> identText (tkText t) \<and> tkText t \<noteq> ''true'' \<and> tkText t \<noteq> ''false''
          \<and> t = (tok TokIdent (tkCol t))\<lparr> tkText := tkText t \<rparr>
      | TokTrue \<Rightarrow> t = (tok TokTrue (tkCol t))\<lparr> tkText := ''true'' \<rparr>
      | TokFalse \<Rightarrow> t = (tok TokFalse (tkCol t))\<lparr> tkText := ''false'' \<rparr>
      | k \<Rightarrow> t = tok k (tkCol t))"

lemma lexString_loop_plain:
  "c \<noteq> q \<Longrightarrow> c \<noteq> CHR 0x5C \<Longrightarrow> xs \<noteq> [] \<Longrightarrow>
    lexString_loop st q sb (c # xs) i = lexString_loop st q (sb @ [c]) xs (i + 1)"
  by (cases xs) auto

lemma lexString_loop_quoted:
  "lexString_loop st (CHR 0x22) sb (concat (map escChar s) @ CHR 0x22 # CHR '' '' # rest) i = Inr (sb @ s, CHR '' '' # rest)"
proof (induction s arbitrary: sb i)
  case (Cons c s)
  show ?case
  proof (cases "c = CHR 0x5C \<or> c = CHR 0x22")
    case True
    then have "unescape c = Some c" by (auto simp: unescape_def)
    then show ?thesis using True Cons by (auto simp: escChar_def)
  next
    case False
    then show ?thesis using Cons by (simp add: escChar_def lexString_loop_plain)
  qed
qed simp

lemma number_span_digits:
  "(\<forall>c \<in> set ds. isDigit c) \<Longrightarrow> number_span d (ds @ CHR '' '' # rest) = (ds, CHR '' '' # rest)"
  by (induction ds) (auto simp: number_span.simps isDigit_def)

lemma number_span_decimal:
  "(\<forall>c \<in> set ip. isDigit c) \<Longrightarrow> (\<forall>c \<in> set fp. isDigit c) \<Longrightarrow>
    number_span False (ip @ CHR ''.'' # fp @ CHR '' '' # rest) = (ip @ CHR ''.'' # fp, CHR '' '' # rest)"
proof (induction ip)
  case Nil
  have "\<not> isDigit (CHR ''.'')" by (simp add: isDigit_def)
  then show ?case using Nil number_span_digits [of fp True rest] by (simp add: number_span.simps)
qed (simp add: number_span.simps)

lemma span_ident:
  "(\<forall>c \<in> set s. isIdentPart c) \<Longrightarrow> takeWhile isIdentPart (s @ CHR '' '' # rest) = s
    \<and> dropWhile isIdentPart (s @ CHR '' '' # rest) = CHR '' '' # rest"
  by (induction s) (auto simp: isIdentPart_def isAlpha_def isDigit_def)

definition punctuation :: string where
  "punctuation = ''()[],+-&|=!<>'' @ [CHR 0x22, CHR 0x27]"

lemma not_punctuation:
  assumes "c \<notin> set punctuation"
  shows "map_of single_toks c = None" "c \<noteq> CHR 0x22" "c \<noteq> CHR 0x27"
    "c \<notin> {CHR ''&'', CHR ''|'', CHR ''='', CHR ''!'', CHR ''<'', CHR ''>''}"
  using assms by (simp_all add: punctuation_def single_toks_def)

lemma identStart_class:
  assumes "isIdentStart c"
  shows "c \<notin> set punctuation" "\<not> isDigit c" "\<not> isSpaceByte c"
proof -
  have "\<forall>x \<in> set punctuation. \<not> isIdentStart x" by code_simp
  then show "c \<notin> set punctuation" using assms by blast
  have u: "\<not> isDigit (CHR ''_'')" "\<not> isSpaceByte (CHR ''_'')" by code_simp+
  show "\<not> isDigit c" using assms u(1) digit_not_alpha unfolding isIdentStart_def by blast
  have "isAlpha c \<Longrightarrow> \<not> isSpaceByte c" by (auto simp: isAlpha_def isSpaceByte_def)
  then show "\<not> isSpaceByte c" using assms u(2) unfolding isIdentStart_def by blast
qed

lemma digit_class:
  assumes "isDigit c"
  shows "c \<notin> set punctuation" "\<not> isSpaceByte c"
proof -
  have "\<forall>x \<in> set punctuation. \<not> isDigit x" by code_simp
  then show "c \<notin> set punctuation" using assms by blast
  show "\<not> isSpaceByte c" using assms by (auto simp: isDigit_def isSpaceByte_def)
qed

text \<open>One printed token, read at column \<open>i\<close>.\<close>

definition reads :: "token \<Rightarrow> bool" where
  "reads t \<longleftrightarrow> (\<exists>c cs. printTok t = c # cs \<and> \<not> isSpaceByte c)
     \<and> (\<forall>rest i. lex_token (printTok t @ CHR '' '' # rest) i = Inr (t\<lparr> tkCol := i \<rparr>, CHR '' '' # rest))"

lemma reads_string: "t = (tok TokString j)\<lparr> tkStr := str \<rparr> \<Longrightarrow> reads t"
  by (simp add: reads_def printTok_def tok_def lex_token_def lexString_def lexString_loop_quoted single_toks_def isSpaceByte_def)

lemma reads_ident:
  assumes "identText s" and "k = (if s = ''true'' then TokTrue else if s = ''false'' then TokFalse else TokIdent)"
  shows "reads ((tok k j)\<lparr> tkText := s \<rparr>)"
proof -
  obtain c cs where s: "s = c # cs" and st: "isIdentStart c" and parts: "\<forall>x \<in> set s. isIdentPart x"
    using assms(1) by (cases s) (auto simp: identText_def)
  note cl = identStart_class [OF st] 
  have p: "printTok ((tok k j)\<lparr> tkText := s \<rparr>) = s" using assms(2) by (simp add: printTok_def tok_def)
  have "lex_token (s @ CHR '' '' # rest) i = Inr ((tok k i)\<lparr> tkText := s \<rparr>, CHR '' '' # rest)" for rest i
  proof -
    have "lex_token (s @ CHR '' '' # rest) i = Inr (lexIdent (s @ CHR '' '' # rest) i)"
      using s st cl not_punctuation [OF cl(1)] by (simp add: lex_token_def Let_def)
    then show ?thesis using span_ident [OF parts, of rest] assms(2) by (simp add: lexIdent_def Let_def)
  qed
  then show ?thesis unfolding reads_def p using s cl(3) by (simp add: tok_def)
qed

lemma reads_number:
  assumes "numText s" and "ParseFloat s = Some n"
  shows "reads ((tok TokNumber j)\<lparr> tkText := s, tkNum := n \<rparr>)"
proof -
  obtain ip fp where ip: "ip \<noteq> []" "\<forall>c \<in> set ip. isDigit c" "\<forall>c \<in> set fp. isDigit c"
    and s: "s = ip \<or> s = ip @ ''.'' @ fp"
    using assms(1) by (auto simp: numText_def)
  obtain c cs where c: "s = c # cs" "isDigit c" using ip s by (cases ip) auto
  note cl = digit_class [OF c(2)]
  have p: "printTok ((tok TokNumber j)\<lparr> tkText := s, tkNum := n \<rparr>) = s" by (simp add: printTok_def tok_def)
  have sp: "number_span False (s @ CHR '' '' # rest) = (s, CHR '' '' # rest)" for rest
    using s number_span_digits [OF ip(2)] number_span_decimal [OF ip(2,3)] by auto
  have "lex_token (s @ CHR '' '' # rest) i = Inr ((tok TokNumber i)\<lparr> tkText := s, tkNum := n \<rparr>, CHR '' '' # rest)" for rest i
  proof -
    have "lex_token (s @ CHR '' '' # rest) i = lexNumber (s @ CHR '' '' # rest) i"
      using c not_punctuation [OF cl(1)] by (simp add: lex_token_def Let_def)
    then show ?thesis using sp assms(2) by (simp add: lexNumber_def)
  qed
  then show ?thesis unfolding reads_def p using c(1) cl(2) by (simp add: tok_def)
qed

lemma reads_op:
  assumes "opText k \<noteq> []"
  shows "reads (tok k j)"
  using assms
  by (cases k) (simp_all add: reads_def printTok_def opText_def tok_def lex_token_def lexOperator_def two_ops_def
      single_toks_def isSpaceByte_def)

lemma tokOK_reads: "tokOK t \<Longrightarrow> reads t"
proof (cases "tkKind t")
  case TokString
  then show "tokOK t \<Longrightarrow> reads t" using reads_string [of t "tkStr t" "tkCol t"] by (simp add: tokOK_def)
next
  case TokNumber
  then show "tokOK t \<Longrightarrow> reads t" using reads_number [of "tkText t" "tkNum t" "tkCol t"] by (simp add: tokOK_def)
next
  case TokIdent
  then show "tokOK t \<Longrightarrow> reads t" using reads_ident [of "tkText t" TokIdent "tkCol t"] by (simp add: tokOK_def)
next
  case TokTrue
  have "identText ''true''" by code_simp
  then show "tokOK t \<Longrightarrow> reads t" using TokTrue reads_ident [of "''true''" TokTrue "tkCol t"] by (simp add: tokOK_def)
next
  case TokFalse
  have "identText ''false''" by code_simp
  then show "tokOK t \<Longrightarrow> reads t" using TokFalse reads_ident [of "''false''" TokFalse "tkCol t"] by (simp add: tokOK_def)
qed (use reads_op [of "tkKind t" "tkCol t"] in \<open>auto simp: tokOK_def opText_def\<close>)

text \<open>A token without its column.\<close>

definition uncol :: "token \<Rightarrow> token" where
  "uncol t = t\<lparr> tkCol := 0 \<rparr>"

definition printToks :: "token list \<Rightarrow> string" where
  "printToks ts = concat (map (\<lambda>t. printTok t @ '' '') ts)"

lemma lex_loop_print:
  assumes "\<forall>t \<in> set ts. tokOK t" and "n + int (length ts) \<le> maxTokens"
  shows "\<exists>us. lex_loop n (printToks ts) i = Inr us \<and> map uncol us = map uncol ts @ [tok TokEOF 0]"
  using assms
proof (induction ts arbitrary: n i)
  case Nil
  then show ?case by (simp add: printToks_def uncol_def tok_def)
next
  case (Cons t ts)
  have r: "reads t" using Cons.prems(1) by (simp add: tokOK_reads)
  obtain c cs where c: "printTok t = c # cs" "\<not> isSpaceByte c" using r by (auto simp: reads_def)
  have split: "printToks (t # ts) = c # (cs @ CHR '' '' # printToks ts)" by (simp add: printToks_def c)
  have lt: "lex_token (c # (cs @ CHR '' '' # printToks ts)) i = Inr (t\<lparr> tkCol := i \<rparr>, CHR '' '' # printToks ts)"
    using r unfolding reads_def c(1) by simp
  have spb: "isSpaceByte (CHR '' '')" by (simp add: isSpaceByte_def)
  then have sp: "lex_loop m (CHR '' '' # printToks ts) j = lex_loop m (printToks ts) (j + 1)" for m j by simp
  define j where "j = i + int (length (c # (cs @ CHR '' '' # printToks ts)) - length (CHR '' '' # printToks ts)) + 1"
  have "n + 1 + int (length ts) \<le> maxTokens" using Cons.prems(2) by simp
  from Cons.IH [OF _ this, of j] Cons.prems(1) obtain us where
    us: "lex_loop (n + 1) (printToks ts) j = Inr us" "map uncol us = map uncol ts @ [tok TokEOF 0]" by auto
  have "lex_loop n (printToks (t # ts)) i = Inr (t\<lparr> tkCol := i \<rparr> # us)"
    unfolding split lex_loop.simps(2) lt sum.case prod.case sp j_def [symmetric] us(1)
    using c(2) Cons.prems(2) by (simp add: spb)
  moreover have "uncol (t\<lparr> tkCol := i \<rparr>) = uncol t" by (simp add: uncol_def)
  ultimately show ?case using us(2) by simp
qed

text \<open>
  Printing tokens (any string literal, escaped; names, numbers, keywords, operators) and
  lexing the text gives the same tokens back, followed by the end marker, for up to the 4096
  tokens the lexer accepts.
\<close>

theorem lex_printToks:
  assumes "\<forall>t \<in> set ts. tokOK t" and "int (length ts) \<le> maxTokens"
  shows "\<exists>us. lex (printToks ts) = Inr us \<and> map uncol us = map uncol ts @ [tok TokEOF 0]"
  using lex_loop_print [OF assms(1), of 0 0] assms(2) by (simp add: lex_def)

theorem lex_printToks_witness:
  "\<exists>us. lex (printToks [(tok TokIdent 0)\<lparr> tkText := ''tag'' \<rparr>, tok TokEq 0,
        (tok TokString 0)\<lparr> tkStr := [CHR 0x22, CHR 0x5C, CHR ''a''] \<rparr>]) = Inr us
      \<and> map tkStr us = [[], [], [CHR 0x22, CHR 0x5C, CHR ''a''], []]"
proof -
  let ?ts = "[(tok TokIdent 0)\<lparr> tkText := ''tag'' \<rparr>, tok TokEq 0,
        (tok TokString 0)\<lparr> tkStr := [CHR 0x22, CHR 0x5C, CHR ''a''] \<rparr>]"
  have "identText ''tag''" by code_simp
  then have ok: "\<forall>t \<in> set ?ts. tokOK t" by (simp add: tokOK_def)
  have n: "int (length ?ts) \<le> maxTokens" by (simp add: maxTokens_def)
  from lex_printToks [OF ok n] obtain us where
    us: "lex (printToks ?ts) = Inr us" "map uncol us = map uncol ?ts @ [tok TokEOF 0]" by (elim exE conjE)
  have "tkStr (uncol t) = tkStr t" for t by (simp add: uncol_def)
  then have "map tkStr us = map tkStr (map uncol us)" by simp
  also have "\<dots> = [[], [], [CHR 0x22, CHR 0x5C, CHR ''a''], []]" unfolding us(2) by (simp add: uncol_def tok_def)
  finally show ?thesis using us(1) by (intro exI conjI)
qed

text \<open>
  A token stream ends with the one end marker, holds at most 4096 other tokens, and gives every
  token a column inside the expression, in strictly rising order.
\<close>

theorem lex_bounded:
  assumes "lex input = Inr ts"
  shows "\<exists>us. ts = us @ [tok TokEOF (int (length input))] \<and> int (length us) \<le> maxTokens
    \<and> (\<forall>t \<in> set us. tkKind t \<noteq> TokEOF \<and> 0 \<le> tkCol t \<and> tkCol t < int (length input))
    \<and> sorted_wrt (\<lambda>a b. tkCol a < tkCol b) us"
  using lex_loop_shape [OF assms [unfolded lex_def]] by (simp add: maxTokens_def)

theorem lex_bounded_witness:
  "\<exists>us. int (length us) \<le> maxTokens \<and> lex ''signed && !privileged'' = Inr (us @ [tok TokEOF 21])"
proof -
  have "\<not> (case lex ''signed && !privileged'' of Inl e \<Rightarrow> True | Inr ts \<Rightarrow> False)" by code_simp
  then obtain ts where ts: "lex ''signed && !privileged'' = Inr ts" by (auto split: sum.splits)
  from lex_bounded [OF ts] show ?thesis using ts by auto
qed

end
