(* ===== verification/PolicyParser.thy ===== *)
theory PolicyParser
  imports PolicyLexer
begin

text \<open>
  The recursive-descent parser of \<^verbatim>\<open>internal/policy/parser.go\<close>. Its state is the rest of the
  tokens (the end marker included, which is never consumed) and the nesting depth. The depth
  is restored on return and bounded by \<open>maxDepth\<close>, so the levels that are left are an
  argument, on which the parser recurses: entering with none left is the error. A level of
  binary operators takes the parser of its operands; its loop is bounded by the number
  of tokens, which it cannot exhaust (\<open>binLoop_good\<close>). The grammar in the header comment of the
  file is the inductive relation \<open>gOr\<close> and its companions.
\<close>

definition maxDepth :: nat where
  "maxDepth = 128"

datatype parse_err =
    OutOfFuel
  | LexErr lex_err
  | TooDeep
  | UnexpectedToken int
  | ExpectedClose tokenKind int
  | TrailingInput int

definition peekKind :: "token list \<Rightarrow> tokenKind" where
  "peekKind ts = (case ts of [] \<Rightarrow> TokEOF | t # _ \<Rightarrow> tkKind t)"

definition peekCol :: "token list \<Rightarrow> int" where
  "peekCol ts = (case ts of [] \<Rightarrow> 0 | t # _ \<Rightarrow> tkCol t)"

definition next_tok :: "token list \<Rightarrow> token list" where
  "next_tok ts = (if length ts > 1 then tl ts else ts)"

definition cmpOps :: "tokenKind set" where
  "cmpOps = {TokEq, TokNe, TokLt, TokLe, TokGt, TokGe}"

type_synonym parse_result = "parse_err + node \<times> token list"

text \<open>Go on with a result.\<close>

definition andThen :: "parse_err + 'a \<times> token list \<Rightarrow> ('a \<Rightarrow> token list \<Rightarrow> parse_err + 'b) \<Rightarrow> parse_err + 'b" where
  "andThen r k = (case r of Inl e \<Rightarrow> Inl e | Inr (n, ts) \<Rightarrow> k n ts)"

fun binLoop :: "tokenKind set \<Rightarrow> (token list \<Rightarrow> parse_result) \<Rightarrow> nat \<Rightarrow> node \<Rightarrow> token list \<Rightarrow> parse_result" where
  "binLoop ops operand 0 left ts = Inl OutOfFuel"
| "binLoop ops operand (Suc f) left ts =
     (if peekKind ts \<in> ops
      then andThen (operand (next_tok ts)) (\<lambda>right ts'. binLoop ops operand f (BinaryNode (peekKind ts) left right) ts')
      else Inr (left, ts))"

definition parseAdditive :: "(token list \<Rightarrow> parse_result) \<Rightarrow> token list \<Rightarrow> parse_result" where
  "parseAdditive unary ts =
     andThen (unary ts) (\<lambda>left ts'. binLoop {TokPlus, TokMinus} unary (length ts') left ts')"

definition parseComparison :: "(token list \<Rightarrow> parse_result) \<Rightarrow> token list \<Rightarrow> parse_result" where
  "parseComparison unary ts =
     andThen (parseAdditive unary ts) (\<lambda>left ts'.
       if peekKind ts' \<in> cmpOps
       then andThen (parseAdditive unary (next_tok ts')) (\<lambda>right ts''. Inr (BinaryNode (peekKind ts') left right, ts''))
       else Inr (left, ts'))"

definition parseAnd :: "(token list \<Rightarrow> parse_result) \<Rightarrow> token list \<Rightarrow> parse_result" where
  "parseAnd unary ts =
     andThen (parseComparison unary ts) (\<lambda>left ts'. binLoop {TokAnd} (parseComparison unary) (length ts') left ts')"

definition parseOr_body :: "(token list \<Rightarrow> parse_result) \<Rightarrow> token list \<Rightarrow> parse_result" where
  "parseOr_body unary ts =
     andThen (parseAnd unary ts) (\<lambda>left ts'. binLoop {TokOr} (parseAnd unary) (length ts') left ts')"

text \<open>The elements of a list or the arguments of a call, up to the closing token.\<close>

fun argsLoop :: "(token list \<Rightarrow> parse_result) \<Rightarrow> nat \<Rightarrow> node list \<Rightarrow> token list \<Rightarrow> parse_err + node list \<times> token list" where
  "argsLoop expr 0 acc ts = Inl OutOfFuel"
| "argsLoop expr (Suc f) acc ts =
     andThen (expr ts) (\<lambda>e ts'.
       if peekKind ts' = TokComma then argsLoop expr f (acc @ [e]) (next_tok ts')
       else Inr (acc @ [e], ts'))"

definition parseArgs ::
    "(token list \<Rightarrow> parse_result) \<Rightarrow> tokenKind \<Rightarrow> token list \<Rightarrow> parse_err + node list \<times> token list" where
  "parseArgs expr close ts =
     andThen (if peekKind ts = close then Inr ([], ts) else argsLoop expr (length ts) [] ts)
       (\<lambda>es ts'. if peekKind ts' \<noteq> close then Inl (ExpectedClose close (peekCol ts'))
          else Inr (es, next_tok ts'))"

definition parseList :: "(token list \<Rightarrow> parse_result) \<Rightarrow> token list \<Rightarrow> parse_result" where
  "parseList expr ts = andThen (parseArgs expr TokRBracket (next_tok ts)) (\<lambda>es ts'. Inr (ListNode es, ts'))"

definition parseIdentOrCall :: "(token list \<Rightarrow> parse_result) \<Rightarrow> token list \<Rightarrow> parse_result" where
  "parseIdentOrCall expr ts =
     (let name = tkText (hd ts); ts' = next_tok ts in
      if peekKind ts' \<noteq> TokLParen then Inr (IdentNode name, ts')
      else andThen (parseArgs expr TokRParen (next_tok ts')) (\<lambda>args ts''. Inr (CallNode name args, ts'')))"

text \<open>\<open>expr\<close> is the parser of an expression one level deeper.\<close>

definition parsePrimary :: "(token list \<Rightarrow> parse_result) \<Rightarrow> token list \<Rightarrow> parse_result" where
  "parsePrimary expr ts =
     (case peekKind ts of
        TokNumber \<Rightarrow> Inr (LitNode (VNum (tkNum (hd ts))), next_tok ts)
      | TokString \<Rightarrow> Inr (LitNode (VStr (tkStr (hd ts))), next_tok ts)
      | TokTrue \<Rightarrow> Inr (LitNode (VBool True), next_tok ts)
      | TokFalse \<Rightarrow> Inr (LitNode (VBool False), next_tok ts)
      | TokLBracket \<Rightarrow> parseList expr ts
      | TokLParen \<Rightarrow>
          andThen (expr (next_tok ts))
            (\<lambda>inner ts'. if peekKind ts' \<noteq> TokRParen then Inl (ExpectedClose TokRParen (peekCol ts'))
               else Inr (inner, next_tok ts'))
      | TokIdent \<Rightarrow> parseIdentOrCall expr ts
      | _ \<Rightarrow> Inl (UnexpectedToken (peekCol ts)))"

text \<open>
  The first argument is the number of levels left. Both branches of \<^verbatim>\<open>parseUnary\<close> enter a level
  before anything else, so with none left it is the depth error.
\<close>

fun parseOr :: "nat \<Rightarrow> token list \<Rightarrow> parse_result"
  and parseUnary :: "nat \<Rightarrow> token list \<Rightarrow> parse_result"
where
  "parseOr 0 ts = Inl TooDeep"
| "parseOr (Suc r) ts = parseOr_body (\<lambda>us. parseUnary r us) ts"
| "parseUnary 0 ts = Inl TooDeep"
| "parseUnary (Suc r) ts =
     (if peekKind ts = TokNot \<or> peekKind ts = TokMinus
      then andThen (parseUnary r (next_tok ts)) (\<lambda>x ts'. Inr (UnaryNode (peekKind ts) x, ts'))
      else parsePrimary (\<lambda>us. parseOr r us) ts)"

definition parseExpr :: "string \<Rightarrow> parse_err + node" where
  "parseExpr input =
     (case lex input of
        Inl e \<Rightarrow> Inl (LexErr e)
      | Inr toks \<Rightarrow>
          andThen (parseOr maxDepth toks)
            (\<lambda>n rest. if peekKind rest \<noteq> TokEOF then Inl (TrailingInput (peekCol rest)) else Inr n))"

subsection \<open>The grammar\<close>

inductive gOr :: "token list \<Rightarrow> node \<Rightarrow> bool"
  and gAnd :: "token list \<Rightarrow> node \<Rightarrow> bool"
  and gCmp :: "token list \<Rightarrow> node \<Rightarrow> bool"
  and gAdd :: "token list \<Rightarrow> node \<Rightarrow> bool"
  and gUnary :: "token list \<Rightarrow> node \<Rightarrow> bool"
  and gPrimary :: "token list \<Rightarrow> node \<Rightarrow> bool"
  and gArgs :: "token list \<Rightarrow> node list \<Rightarrow> bool"
where
  or_base: "gAnd us n \<Longrightarrow> gOr us n"
| or_more: "gOr us l \<Longrightarrow> tkKind t = TokOr \<Longrightarrow> gAnd vs r \<Longrightarrow> gOr (us @ t # vs) (BinaryNode TokOr l r)"
| and_base: "gCmp us n \<Longrightarrow> gAnd us n"
| and_more: "gAnd us l \<Longrightarrow> tkKind t = TokAnd \<Longrightarrow> gCmp vs r \<Longrightarrow> gAnd (us @ t # vs) (BinaryNode TokAnd l r)"
| cmp_base: "gAdd us n \<Longrightarrow> gCmp us n"
| cmp_op: "gAdd us l \<Longrightarrow> tkKind t \<in> cmpOps \<Longrightarrow> gAdd vs r \<Longrightarrow> gCmp (us @ t # vs) (BinaryNode (tkKind t) l r)"
| add_base: "gUnary us n \<Longrightarrow> gAdd us n"
| add_more: "gAdd us l \<Longrightarrow> tkKind t = TokPlus \<or> tkKind t = TokMinus \<Longrightarrow> gUnary vs r \<Longrightarrow>
    gAdd (us @ t # vs) (BinaryNode (tkKind t) l r)"
| un_base: "gPrimary us n \<Longrightarrow> gUnary us n"
| un_op: "tkKind t = TokNot \<or> tkKind t = TokMinus \<Longrightarrow> gUnary us x \<Longrightarrow> gUnary (t # us) (UnaryNode (tkKind t) x)"
| p_num: "tkKind t = TokNumber \<Longrightarrow> gPrimary [t] (LitNode (VNum (tkNum t)))"
| p_str: "tkKind t = TokString \<Longrightarrow> gPrimary [t] (LitNode (VStr (tkStr t)))"
| p_true: "tkKind t = TokTrue \<Longrightarrow> gPrimary [t] (LitNode (VBool True))"
| p_false: "tkKind t = TokFalse \<Longrightarrow> gPrimary [t] (LitNode (VBool False))"
| p_nil: "tkKind t = TokLBracket \<Longrightarrow> tkKind t' = TokRBracket \<Longrightarrow> gPrimary [t, t'] (ListNode [])"
| p_list: "tkKind t = TokLBracket \<Longrightarrow> gArgs us es \<Longrightarrow> tkKind t' = TokRBracket \<Longrightarrow> gPrimary (t # us @ [t']) (ListNode es)"
| p_ident: "tkKind t = TokIdent \<Longrightarrow> gPrimary [t] (IdentNode (tkText t))"
| p_call0: "tkKind t = TokIdent \<Longrightarrow> tkKind p = TokLParen \<Longrightarrow> tkKind t' = TokRParen \<Longrightarrow>
    gPrimary [t, p, t'] (CallNode (tkText t) [])"
| p_call: "tkKind t = TokIdent \<Longrightarrow> tkKind p = TokLParen \<Longrightarrow> gArgs us es \<Longrightarrow> tkKind t' = TokRParen \<Longrightarrow>
    gPrimary (t # p # us @ [t']) (CallNode (tkText t) es)"
| p_paren: "tkKind t = TokLParen \<Longrightarrow> gOr us n \<Longrightarrow> tkKind t' = TokRParen \<Longrightarrow> gPrimary (t # us @ [t']) n"
| a_one: "gOr us n \<Longrightarrow> gArgs us [n]"
| a_more: "gArgs us es \<Longrightarrow> tkKind t = TokComma \<Longrightarrow> gOr vs n \<Longrightarrow> gArgs (us @ t # vs) (es @ [n])"

subsection \<open>The parser follows the grammar and never runs out of fuel\<close>

text \<open>A token stream: only the last token is the end marker.\<close>

definition stream :: "token list \<Rightarrow> bool" where
  "stream ts \<longleftrightarrow> (\<exists>us e. ts = us @ [e] \<and> tkKind e = TokEOF \<and> (\<forall>t \<in> set us. tkKind t \<noteq> TokEOF))"

text \<open>
  A parser of phrases \<open>P\<close>: on a stream it fails for a reason of the input, or it consumes a
  nonempty phrase and leaves a stream.
\<close>

definition consumed :: "(token list \<Rightarrow> 'a \<Rightarrow> bool) \<Rightarrow> token list \<Rightarrow> token list \<Rightarrow> parse_err + 'a \<times> token list \<Rightarrow> bool" where
  "consumed P pre ts r = (case r of Inl e \<Rightarrow> e \<noteq> OutOfFuel
     | Inr (n, ts') \<Rightarrow> (\<exists>us. ts = us @ ts' \<and> stream ts' \<and> P (pre @ us) n))"

definition parses :: "(token list \<Rightarrow> node \<Rightarrow> bool) \<Rightarrow> (token list \<Rightarrow> parse_result) \<Rightarrow> bool" where
  "parses P p \<longleftrightarrow> (\<forall>ts. stream ts \<longrightarrow> consumed P [] ts (p ts))"

lemma next_stream:
  assumes "stream ts" and "peekKind ts \<noteq> TokEOF"
  obtains t ts' where "ts = t # ts'" and "tkKind t = peekKind ts" and "next_tok ts = ts'" and "stream ts'"
proof -
  obtain us e where ts: "ts = us @ [e]" "tkKind e = TokEOF" "\<forall>t \<in> set us. tkKind t \<noteq> TokEOF"
    using assms(1) by (auto simp: stream_def)
  then obtain t us' where us: "us = t # us'" using assms(2) by (cases us) (auto simp: peekKind_def)
  have "stream (us' @ [e])" using ts us by (auto simp: stream_def)
  then show ?thesis using that [of t "us' @ [e]"] ts us by (simp add: peekKind_def next_tok_def)
qed

lemma stream_ne: "stream ts \<Longrightarrow> ts \<noteq> []"
  by (auto simp: stream_def)

lemma parses_err: "parses P p \<Longrightarrow> stream ts \<Longrightarrow> p ts \<noteq> Inl OutOfFuel"
  by (auto simp: parses_def consumed_def)

lemma andThen_Inr: "andThen r k = Inr x \<longleftrightarrow> (\<exists>n ts. r = Inr (n, ts) \<and> k n ts = Inr x)"
  by (cases r) (auto simp: andThen_def)

lemma andThen_Inl: "andThen r k = Inl e \<longleftrightarrow> r = Inl e \<or> (\<exists>n ts. r = Inr (n, ts) \<and> k n ts = Inl e)"
  by (cases r) (auto simp: andThen_def)

lemma consumed_andThen:
  assumes "consumed Q pre ts r"
    and "\<And>n ts' us. r = Inr (n, ts') \<Longrightarrow> ts = us @ ts' \<Longrightarrow> stream ts' \<Longrightarrow> Q (pre @ us) n \<Longrightarrow> consumed P (pre @ us) ts' (k n ts')"
  shows "consumed P pre ts (andThen r k)"
proof (cases r)
  case (Inl e)
  then show ?thesis using assms(1) by (simp add: consumed_def andThen_def)
next
  case (Inr x)
  obtain n ts' where x: "x = (n, ts')" by (cases x)
  obtain us where us: "ts = us @ ts'" "stream ts'" "Q (pre @ us) n"
    using assms(1) Inr x by (auto simp: consumed_def)
  from assms(2) [OF _ us] Inr x have "consumed P (pre @ us) ts' (k n ts')" by simp
  then show ?thesis using Inr x us(1) by (auto simp: consumed_def andThen_def split: sum.splits)
qed

lemma consumed_pre: "consumed P [] ts r \<Longrightarrow> consumed (\<lambda>vs n. \<exists>us. vs = pre @ us \<and> P us n) pre ts r"
  by (auto simp: consumed_def split: sum.splits)

lemma consumed_cons:
  "ts = t # ts' \<Longrightarrow> consumed P (pre @ [t]) ts' r \<Longrightarrow> consumed P pre ts r"
  by (auto simp: consumed_def split: sum.splits)

lemma consumed_Inr: "stream ts \<Longrightarrow> P pre n \<Longrightarrow> consumed P pre ts (Inr (n, ts))"
  by (auto simp: consumed_def)

text \<open>The loop of a level of binary operators.\<close>

lemma binLoop_good:
  assumes operand: "parses Q p" and eof: "TokEOF \<notin> ops"
    and step: "\<And>us l t vs r. P us l \<Longrightarrow> tkKind t \<in> ops \<Longrightarrow> Q vs r \<Longrightarrow> P (us @ t # vs) (BinaryNode (tkKind t) l r)"
  shows "P pre left \<Longrightarrow> stream ts \<Longrightarrow> length ts \<le> f \<Longrightarrow> consumed P pre ts (binLoop ops p f left ts)"
proof (induction f arbitrary: pre left ts)
  case 0
  then show ?case using stream_ne [of ts] by simp
next
  case (Suc f)
  show ?case
  proof (cases "peekKind ts \<in> ops")
    case False
    then show ?thesis using Suc.prems by (simp add: consumed_Inr)
  next
    case True
    obtain t ts' where t: "ts = t # ts'" "tkKind t = peekKind ts" "next_tok ts = ts'" "stream ts'"
      using next_stream [OF Suc.prems(2)] True eof by metis
    have "consumed P (pre @ [t]) ts' (andThen (p ts') (\<lambda>right ts''. binLoop ops p f (BinaryNode (peekKind ts) left right) ts''))"
    proof (rule consumed_andThen)
      show "consumed (\<lambda>vs n. \<exists>us. vs = (pre @ [t]) @ us \<and> Q us n) (pre @ [t]) ts' (p ts')"
        using operand t(4) by (intro consumed_pre) (simp add: parses_def)
      fix n ts'' us
      assume rest: "ts' = us @ ts''" "stream ts''" and q: "\<exists>ws. (pre @ [t]) @ us = (pre @ [t]) @ ws \<and> Q ws n"
      have "P (pre @ t # us) (BinaryNode (peekKind ts) left n)"
        using step [OF Suc.prems(1), of t us n] True t(2) q by simp
      then have "P ((pre @ [t]) @ us) (BinaryNode (peekKind ts) left n)" by simp
      then show "consumed P ((pre @ [t]) @ us) ts'' (binLoop ops p f (BinaryNode (peekKind ts) left n) ts'')"
        using Suc.IH rest Suc.prems(3) t(1) by simp
    qed
    then have "consumed P pre ts (andThen (p ts') (\<lambda>right ts''. binLoop ops p f (BinaryNode (peekKind ts) left right) ts''))"
      by (rule consumed_cons [OF t(1)])
    then show ?thesis using True t(3) by simp
  qed
qed

text \<open>A level: one operand, then the loop.\<close>

lemma level_good:
  assumes "parses Q p" and "TokEOF \<notin> ops" and base: "\<And>us n. Q us n \<Longrightarrow> P us n"
    and step: "\<And>us l t vs r. P us l \<Longrightarrow> tkKind t \<in> ops \<Longrightarrow> Q vs r \<Longrightarrow> P (us @ t # vs) (BinaryNode (tkKind t) l r)"
  shows "parses P (\<lambda>ts. andThen (p ts) (\<lambda>left ts'. binLoop ops p (length ts') left ts'))"
  unfolding parses_def
proof (intro allI impI)
  fix ts
  assume s: "stream ts"
  show "consumed P [] ts (andThen (p ts) (\<lambda>left ts'. binLoop ops p (length ts') left ts'))"
  proof (rule consumed_andThen)
    show "consumed Q [] ts (p ts)" using assms(1) s by (simp add: parses_def)
    show "consumed P ([] @ us) ts' (binLoop ops p (length ts') n ts')"
      if "stream ts'" "Q ([] @ us) n" for n ts' us
      using that base step by (intro binLoop_good [where P = P and Q = Q, OF assms(1,2)]) auto
  qed
qed

lemma parseAdditive_good: "parses gUnary u \<Longrightarrow> parses gAdd (parseAdditive u)"
  unfolding parseAdditive_def [abs_def]
  by (rule level_good [where Q = gUnary]) (auto intro: add_base add_more)

lemma parseComparison_good:
  assumes "parses gUnary u"
  shows "parses gCmp (parseComparison u)"
  unfolding parses_def parseComparison_def
proof (intro allI impI)
  fix ts
  assume s: "stream ts"
  let ?second = "\<lambda>left ts'. if peekKind ts' \<in> cmpOps
       then andThen (parseAdditive u (next_tok ts')) (\<lambda>right ts''. Inr (BinaryNode (peekKind ts') left right, ts''))
       else Inr (left, ts')"
  show "consumed gCmp [] ts (andThen (parseAdditive u ts) ?second)"
  proof (rule consumed_andThen)
    show "consumed gAdd [] ts (parseAdditive u ts)"
      using parseAdditive_good [OF assms] s by (simp add: parses_def)
    fix left ts' us
    assume s': "stream ts'" and l: "gAdd ([] @ us) left"
    show "consumed gCmp ([] @ us) ts' (?second left ts')"
    proof (cases "peekKind ts' \<in> cmpOps")
      case False
      then show ?thesis using s' l by (auto intro: consumed_Inr cmp_base)
    next
      case True
      then have "peekKind ts' \<noteq> TokEOF" by (auto simp: cmpOps_def)
      then obtain t ts1 where t: "ts' = t # ts1" "tkKind t = peekKind ts'" "next_tok ts' = ts1" "stream ts1"
        using next_stream [OF s'] by metis
      have "consumed gCmp (us @ [t]) ts1 (andThen (parseAdditive u ts1) (\<lambda>right ts''. Inr (BinaryNode (peekKind ts') left right, ts'')))"
      proof (rule consumed_andThen)
        show "consumed (\<lambda>vs n. \<exists>ws. vs = (us @ [t]) @ ws \<and> gAdd ws n) (us @ [t]) ts1 (parseAdditive u ts1)"
          using parseAdditive_good [OF assms] t(4) by (intro consumed_pre) (simp add: parses_def)
        show "consumed gCmp ((us @ [t]) @ vs) ts2 (Inr (BinaryNode (peekKind ts') left n, ts2))"
          if "stream ts2" "\<exists>ws. (us @ [t]) @ vs = (us @ [t]) @ ws \<and> gAdd ws n" for n ts2 vs
          using that True l t(2) cmp_op [of us left t vs n] by (intro consumed_Inr) auto
      qed
      then have "consumed gCmp us ts' (andThen (parseAdditive u ts1) (\<lambda>right ts''. Inr (BinaryNode (peekKind ts') left right, ts'')))"
        by (rule consumed_cons [OF t(1)])
      then show ?thesis using True t(3) by simp
    qed
  qed
qed

lemma parseAnd_good: "parses gUnary u \<Longrightarrow> parses gAnd (parseAnd u)"
  unfolding parseAnd_def [abs_def]
  by (rule level_good [where P = gAnd, OF parseComparison_good]) (auto intro: and_base dest: and_more)

lemma parseOr_body_good: "parses gUnary u \<Longrightarrow> parses gOr (parseOr_body u)"
  unfolding parseOr_body_def [abs_def]
  by (rule level_good [where P = gOr, OF parseAnd_good]) (auto intro: or_base dest: or_more)

text \<open>What \<open>argsLoop\<close> has read: nothing, or elements and a comma.\<close>

definition argsRead :: "token list \<Rightarrow> node list \<Rightarrow> bool" where
  "argsRead pre acc \<longleftrightarrow> pre = [] \<and> acc = [] \<or> (\<exists>us t. pre = us @ [t] \<and> tkKind t = TokComma \<and> gArgs us acc)"

lemma argsRead_snoc: "argsRead pre acc \<Longrightarrow> gOr us n \<Longrightarrow> gArgs (pre @ us) (acc @ [n])"
  using a_more [of _ acc _ us n] by (auto simp: argsRead_def intro: a_one)

lemma gArgs_ne: "gArgs us es \<Longrightarrow> us \<noteq> []"
  and gOr_ne: "gOr us n \<Longrightarrow> us \<noteq> []"
proof -
  have "(gOr us n \<longrightarrow> us \<noteq> []) \<and> (gAnd us n \<longrightarrow> us \<noteq> []) \<and> (gCmp us n \<longrightarrow> us \<noteq> []) \<and> (gAdd us n \<longrightarrow> us \<noteq> [])
    \<and> (gUnary us n \<longrightarrow> us \<noteq> []) \<and> (gPrimary us n \<longrightarrow> us \<noteq> []) \<and> (gArgs us es \<longrightarrow> us \<noteq> [])" for us n es
    by (rule gOr_gAnd_gCmp_gAdd_gUnary_gPrimary_gArgs.induct) auto
  then show "gArgs us es \<Longrightarrow> us \<noteq> []" "gOr us n \<Longrightarrow> us \<noteq> []" by blast+
qed

lemma argsLoop_good:
  assumes "parses gOr p"
  shows "argsRead pre acc \<Longrightarrow> stream ts \<Longrightarrow> length ts \<le> f \<Longrightarrow> consumed gArgs pre ts (argsLoop p f acc ts)"
proof (induction f arbitrary: pre acc ts)
  case 0
  then show ?case using stream_ne [of ts] by simp
next
  case (Suc f)
  let ?k = "\<lambda>e ts'. if peekKind ts' = TokComma then argsLoop p f (acc @ [e]) (next_tok ts') else Inr (acc @ [e], ts')"
  have "consumed gArgs pre ts (andThen (p ts) ?k)"
  proof (rule consumed_andThen)
    show "consumed (\<lambda>vs n. \<exists>us. vs = pre @ us \<and> gOr us n) pre ts (p ts)"
      using assms Suc.prems(2) by (intro consumed_pre) (simp add: parses_def)
    fix n ts' us
    assume ts: "ts = us @ ts'" and s: "stream ts'" and g: "\<exists>vs. pre @ us = pre @ vs \<and> gOr vs n"
    have read: "gArgs (pre @ us) (acc @ [n])" using argsRead_snoc [OF Suc.prems(1)] g by auto
    show "consumed gArgs (pre @ us) ts' (?k n ts')"
    proof (cases "peekKind ts' = TokComma")
      case False
      then show ?thesis using s read by (simp add: consumed_Inr)
    next
      case True
      then obtain t ts1 where t: "ts' = t # ts1" "tkKind t = peekKind ts'" "next_tok ts' = ts1" "stream ts1"
        using next_stream [OF s] by (metis tokenKind.distinct(15))
      have "argsRead ((pre @ us) @ [t]) (acc @ [n])"
        using read t(2) True by (auto simp: argsRead_def)
      then have "consumed gArgs ((pre @ us) @ [t]) ts1 (argsLoop p f (acc @ [n]) ts1)"
        using Suc.IH t(1,4) ts Suc.prems(3) by simp
      from consumed_cons [OF t(1) this] show ?thesis using True t(3) by simp
    qed
  qed
  then show ?case by simp
qed

text \<open>A bracketed sequence after its opening token \<open>pre\<close>, closing token included.\<close>

definition gClosed :: "tokenKind \<Rightarrow> token list \<Rightarrow> token list \<Rightarrow> node list \<Rightarrow> bool" where
  "gClosed close pre vs es \<longleftrightarrow> (\<exists>us t. vs = pre @ us @ [t] \<and> tkKind t = close \<and> (us = [] \<and> es = [] \<or> gArgs us es))"

lemma parseArgs_good:
  assumes "parses gOr p" and close: "close \<noteq> TokEOF" and s: "stream ts"
  shows "consumed (gClosed close pre) pre ts (parseArgs p close ts)"
  unfolding parseArgs_def
proof (rule consumed_andThen)
  let ?Q = "\<lambda>vs es. \<exists>us. vs = pre @ us \<and> (us = [] \<and> es = [] \<or> gArgs us es)"
  show "consumed ?Q pre ts (if peekKind ts = close then Inr ([], ts) else argsLoop p (length ts) [] ts)"
  proof (cases "peekKind ts = close")
    case True
    then show ?thesis using s by (simp add: consumed_Inr)
  next
    case False
    have "consumed gArgs [] ts (argsLoop p (length ts) [] ts)"
      by (rule argsLoop_good [OF assms(1) _ s]) (simp_all add: argsRead_def)
    then show ?thesis using False by (auto simp: consumed_def split: sum.splits)
  qed
  fix es ts' us
  assume s': "stream ts'" and q: "?Q (pre @ us) es"
  show "consumed (gClosed close pre) (pre @ us) ts'
      (if peekKind ts' \<noteq> close then Inl (ExpectedClose close (peekCol ts')) else Inr (es, next_tok ts'))"
  proof (cases "peekKind ts' = close")
    case False
    then show ?thesis by (simp add: consumed_def)
  next
    case True
    then obtain t ts1 where t: "ts' = t # ts1" "tkKind t = peekKind ts'" "next_tok ts' = ts1" "stream ts1"
      using next_stream [OF s'] close by metis
    have "gClosed close pre ((pre @ us) @ [t]) es"
      using q t(2) True by (auto simp: gClosed_def)
    then have "consumed (gClosed close pre) ((pre @ us) @ [t]) ts1 (Inr (es, ts1))"
      using t(4) by (simp add: consumed_Inr)
    from consumed_cons [OF t(1) this] show ?thesis using True t(3) by simp
  qed
qed

lemma parsePrimary_single:
  assumes "stream ts" and "peekKind ts \<noteq> TokEOF" and "\<And>t. hd ts = t \<Longrightarrow> tkKind t = peekKind ts \<Longrightarrow> gPrimary [t] n"
  shows "consumed gPrimary [] ts (Inr (n, next_tok ts))"
proof -
  obtain t ts' where t: "ts = t # ts'" "tkKind t = peekKind ts" "next_tok ts = ts'" "stream ts'"
    using next_stream [OF assms(1,2)] by metis
  then show ?thesis using assms(3) [of t] by (auto simp: consumed_def)
qed

lemma parseList_good:
  assumes "parses gOr p" and "stream ts" and k: "peekKind ts = TokLBracket"
  shows "consumed gPrimary [] ts (parseList p ts)"
proof -
  obtain t ts' where t: "ts = t # ts'" "tkKind t = peekKind ts" "next_tok ts = ts'" "stream ts'"
    using next_stream [OF assms(2)] k by (metis tokenKind.distinct(11))
  have "consumed gPrimary ([] @ [t]) ts' (parseList p ts)"
    unfolding parseList_def t(3)
  proof (rule consumed_andThen)
    show "consumed (gClosed TokRBracket ([] @ [t])) ([] @ [t]) ts' (parseArgs p TokRBracket ts')"
      by (rule parseArgs_good [OF assms(1) _ t(4)]) simp
    show "consumed gPrimary (([] @ [t]) @ us) ts'' (Inr (ListNode es, ts''))"
      if "stream ts''" "gClosed TokRBracket ([] @ [t]) (([] @ [t]) @ us) es" for es ts'' us
      using that k t(2) by (intro consumed_Inr) (auto simp: gClosed_def intro: p_nil p_list)
  qed
  then show ?thesis using consumed_cons [OF t(1)] by blast
qed

lemma parseIdentOrCall_good:
  assumes "parses gOr p" and "stream ts" and k: "peekKind ts = TokIdent"
  shows "consumed gPrimary [] ts (parseIdentOrCall p ts)"
proof -
  obtain t ts' where t: "ts = t # ts'" "tkKind t = peekKind ts" "next_tok ts = ts'" "stream ts'"
    using next_stream [OF assms(2)] k by (metis tokenKind.distinct(5))
  have "consumed gPrimary ([] @ [t]) ts' (parseIdentOrCall p ts)"
  proof (cases "peekKind ts' = TokLParen")
    case False
    then show ?thesis
      using t k by (auto simp: parseIdentOrCall_def Let_def intro!: consumed_Inr p_ident)
  next
    case True
    then obtain lp ts1 where lp: "ts' = lp # ts1" "tkKind lp = peekKind ts'" "next_tok ts' = ts1" "stream ts1"
      using next_stream [OF t(4)] by (metis tokenKind.distinct(7))
    have "consumed gPrimary (([] @ [t]) @ [lp]) ts1 (andThen (parseArgs p TokRParen ts1) (\<lambda>args ts''. Inr (CallNode (tkText t) args, ts'')))"
    proof (rule consumed_andThen)
      show "consumed (gClosed TokRParen (([] @ [t]) @ [lp])) (([] @ [t]) @ [lp]) ts1 (parseArgs p TokRParen ts1)"
        by (rule parseArgs_good [OF assms(1) _ lp(4)]) simp
      show "consumed gPrimary ((([] @ [t]) @ [lp]) @ us) ts'' (Inr (CallNode (tkText t) es, ts''))"
        if "stream ts''" "gClosed TokRParen (([] @ [t]) @ [lp]) ((([] @ [t]) @ [lp]) @ us) es" for es ts'' us
        using that k t(2) lp(2) True by (intro consumed_Inr) (auto simp: gClosed_def intro: p_call0 p_call)
    qed
    then have "consumed gPrimary ([] @ [t]) ts' (andThen (parseArgs p TokRParen ts1) (\<lambda>args ts''. Inr (CallNode (tkText t) args, ts'')))"
      using consumed_cons [OF lp(1)] by blast
    then show ?thesis using True t(1,3) lp(3) by (simp add: parseIdentOrCall_def)
  qed
  then show ?thesis using consumed_cons [OF t(1)] by blast
qed

lemma parseParen_good:
  assumes "parses gOr p" and "stream ts" and k: "peekKind ts = TokLParen"
  shows "consumed gPrimary [] ts (andThen (p (next_tok ts))
    (\<lambda>inner ts'. if peekKind ts' \<noteq> TokRParen then Inl (ExpectedClose TokRParen (peekCol ts')) else Inr (inner, next_tok ts')))"
    (is "consumed gPrimary [] ts (andThen (p (next_tok ts)) ?k)")
proof -
  obtain t ts' where t: "ts = t # ts'" "tkKind t = peekKind ts" "next_tok ts = ts'" "stream ts'"
    using next_stream [OF assms(2)] k by (metis tokenKind.distinct(7))
  have "consumed gPrimary ([] @ [t]) ts' (andThen (p ts') ?k)"
  proof (rule consumed_andThen)
    show "consumed (\<lambda>vs n. \<exists>us. vs = ([] @ [t]) @ us \<and> gOr us n) ([] @ [t]) ts' (p ts')"
      using assms(1) t(4) by (intro consumed_pre) (simp add: parses_def)
    fix n ts1 us
    assume s1: "stream ts1" and g: "\<exists>vs. ([] @ [t]) @ us = ([] @ [t]) @ vs \<and> gOr vs n"
    show "consumed gPrimary (([] @ [t]) @ us) ts1 (?k n ts1)"
    proof (cases "peekKind ts1 = TokRParen")
      case False
      then show ?thesis by (simp add: consumed_def)
    next
      case True
      then obtain c ts2 where c: "ts1 = c # ts2" "tkKind c = peekKind ts1" "next_tok ts1 = ts2" "stream ts2"
        using next_stream [OF s1] by (metis tokenKind.distinct(9))
      have "gPrimary ((([] @ [t]) @ us) @ [c]) n"
        using p_paren [of t us n c] g k t(2) c(2) True by simp
      then have "consumed gPrimary ((([] @ [t]) @ us) @ [c]) ts2 (Inr (n, ts2))"
        using c(4) by (simp add: consumed_Inr)
      from consumed_cons [OF c(1) this] show ?thesis using True c(3) by simp
    qed
  qed
  from consumed_cons [OF t(1) this] show ?thesis unfolding t(3) .
qed

lemma parsePrimary_good:
  assumes "parses gOr p"
  shows "parses gPrimary (parsePrimary p)"
  unfolding parses_def
proof (intro allI impI)
  fix ts
  assume s: "stream ts"
  show "consumed gPrimary [] ts (parsePrimary p ts)"
    using parsePrimary_single [OF s] parseList_good [OF assms s] parseIdentOrCall_good [OF assms s]
      parseParen_good [OF assms s]
    by (cases "peekKind ts") (auto simp: parsePrimary_def consumed_def [of _ _ _ "Inl _"] intro: p_num p_str p_true p_false)
qed

lemma too_deep_parses: "parses P (\<lambda>ts. Inl TooDeep)"
  by (simp add: parses_def consumed_def)

lemma parseUnary_step:
  assumes "parses gUnary (parseUnary r)" and "parses gOr (parseOr r)"
  shows "parses gUnary (parseUnary (Suc r))"
  unfolding parses_def
proof (intro allI impI)
  fix ts
  assume s: "stream ts"
  show "consumed gUnary [] ts (parseUnary (Suc r) ts)"
  proof (cases "peekKind ts = TokNot \<or> peekKind ts = TokMinus")
    case False
    have "consumed gPrimary [] ts (parsePrimary (parseOr r) ts)"
      using parsePrimary_good [OF assms(2)] s by (simp add: parses_def)
    then show ?thesis using False by (auto simp: consumed_def split: sum.splits intro: un_base)
  next
    case True
    then have "peekKind ts \<noteq> TokEOF" by auto
    then obtain t ts' where t: "ts = t # ts'" "tkKind t = peekKind ts" "next_tok ts = ts'" "stream ts'"
      using next_stream [OF s] by metis
    have "consumed gUnary ([] @ [t]) ts' (andThen (parseUnary r ts') (\<lambda>x ts''. Inr (UnaryNode (peekKind ts) x, ts'')))"
    proof (rule consumed_andThen)
      show "consumed (\<lambda>vs n. \<exists>us. vs = ([] @ [t]) @ us \<and> gUnary us n) ([] @ [t]) ts' (parseUnary r ts')"
        using assms(1) t(4) by (intro consumed_pre) (simp add: parses_def)
      show "consumed gUnary (([] @ [t]) @ us) ts'' (Inr (UnaryNode (peekKind ts) n, ts''))"
        if "stream ts''" "\<exists>vs. ([] @ [t]) @ us = ([] @ [t]) @ vs \<and> gUnary vs n" for n ts'' us
        using that True t(2) un_op [of t us n] by (intro consumed_Inr) auto
    qed
    from consumed_cons [OF t(1) this] show ?thesis using True t(3) by simp
  qed
qed

lemma parse_good: "parses gOr (parseOr r) \<and> parses gUnary (parseUnary r)"
proof (induction r)
  case 0
  have "parseOr 0 = (\<lambda>ts. Inl TooDeep)" "parseUnary 0 = (\<lambda>ts. Inl TooDeep)" by (intro ext, simp)+
  then show ?case using too_deep_parses by simp
next
  case (Suc r)
  have "parseOr (Suc r) = parseOr_body (parseUnary r)" by (intro ext) simp
  then show ?case using Suc.IH parseOr_body_good parseUnary_step by metis
qed

lemma grammar_opsOK: "gOr us n \<Longrightarrow> opsOK n"
proof -
  have "(gOr us n \<longrightarrow> opsOK n) \<and> (gAnd us n \<longrightarrow> opsOK n) \<and> (gCmp us n \<longrightarrow> opsOK n) \<and> (gAdd us n \<longrightarrow> opsOK n)
    \<and> (gUnary us n \<longrightarrow> opsOK n) \<and> (gPrimary us n \<longrightarrow> opsOK n) \<and> (gArgs us es \<longrightarrow> list_all opsOK es)" for us n es
    by (rule gOr_gAnd_gCmp_gAdd_gUnary_gPrimary_gArgs.induct) (auto simp: binaryOps_def unaryOps_def cmpOps_def)
  then show "gOr us n \<Longrightarrow> opsOK n" by blast
qed

lemma lex_stream: "lex input = Inr ts \<Longrightarrow> stream ts"
  using lex_loop_shape [of 0 input 0 ts] by (auto simp: lex_def stream_def maxTokens_def)

lemma parseExpr_cases:
  "parseExpr input \<noteq> Inl OutOfFuel
   \<and> (parseExpr input = Inr n \<longrightarrow> (\<exists>us e. lex input = Inr (us @ [e]) \<and> gOr us n))"
proof (cases "lex input")
  case (Inl e)
  then show ?thesis by (simp add: parseExpr_def)
next
  case (Inr ts)
  have c: "consumed gOr [] ts (parseOr maxDepth ts)"
    using parse_good lex_stream [OF Inr] by (simp add: parses_def)
  have nf: "parseExpr input \<noteq> Inl OutOfFuel"
    using c Inr by (auto simp: parseExpr_def andThen_Inl consumed_def split: if_splits)
  have "\<exists>us e. lex input = Inr (us @ [e]) \<and> gOr us n" if p: "parseExpr input = Inr n"
  proof -
    obtain rest where r: "parseOr maxDepth ts = Inr (n, rest)" "peekKind rest = TokEOF"
      using p Inr by (auto simp: parseExpr_def andThen_Inr split: if_splits)
    obtain us where us: "ts = us @ rest" "stream rest" "gOr us n"
      using c r(1) by (auto simp: consumed_def)
    obtain ws e where w: "rest = ws @ [e]" "\<forall>t \<in> set ws. tkKind t \<noteq> TokEOF"
      using us(2) by (auto simp: stream_def)
    then have "ws = []" using r(2) by (cases ws) (auto simp: peekKind_def)
    then show ?thesis using us w(1) Inr by auto
  qed
  then show ?thesis using nf by blast
qed

text \<open>
  C15: Parsing an expression always comes to an end with a tree or a reported error, and a tree is
  only returned for an expression the grammar derives, all of whose tokens it accounts for,
  with the precedence and associativity of the grammar; its operators are those the evaluator
  knows.
\<close>

theorem parseExpr_sound:
  "parseExpr input \<noteq> Inl OutOfFuel
   \<and> (parseExpr input = Inr n \<longrightarrow> (\<exists>us e. lex input = Inr (us @ [e]) \<and> gOr us n) \<and> opsOK n)"
  using parseExpr_cases [of input n] grammar_opsOK by blast

theorem parseExpr_sound_witness:
  "\<exists>us e. lex ''!a && b || c'' = Inr (us @ [e]) \<and>
     gOr us (BinaryNode TokOr (BinaryNode TokAnd (UnaryNode TokNot (IdentNode ''a'')) (IdentNode ''b'')) (IdentNode ''c''))"
proof -
  have "parseExpr ''!a && b || c'' =
      Inr (BinaryNode TokOr (BinaryNode TokAnd (UnaryNode TokNot (IdentNode ''a'')) (IdentNode ''b'')) (IdentNode ''c''))"
    by code_simp
  with parseExpr_sound show ?thesis by blast
qed

end
