(* ===== verification/PolicyEngine.thy ===== *)
theory PolicyEngine
  imports PolicyParser
begin

text \<open>
  The policy document (\<^verbatim>\<open>policy.go\<close>), compilation and evaluation (\<^verbatim>\<open>engine.go\<close>), the decision
  and its views (\<^verbatim>\<open>decision.go\<close>) and waivers (\<^verbatim>\<open>waiver.go\<close>) of \<^verbatim>\<open>internal/policy\<close>. A time is a
  number of nanoseconds since the year 1, 0 the zero time. What the code takes from the
  standard library is the record \<open>lib\<close>: regular expressions and the two date parsers. An
  error text is the error value; the code only ever tests whether there is one.
\<close>

record lib =
  libRegexp :: regexps
  libRFC3339 :: "string \<Rightarrow> int option"
  libDate :: "string \<Rightarrow> int option"

subsection \<open>The document\<close>

type_synonym effect = string

definition EffectDeny :: effect where "EffectDeny = ''deny''"
definition EffectWarn :: effect where "EffectWarn = ''warn''"
definition EffectAllow :: effect where "EffectAllow = ''allow''"

lemmas effect_defs = EffectDeny_def EffectWarn_def EffectAllow_def

lemma effects_distinct [simp]:
  "EffectDeny \<noteq> EffectWarn" "EffectDeny \<noteq> EffectAllow" "EffectWarn \<noteq> EffectAllow"
  "EffectWarn \<noteq> EffectDeny" "EffectAllow \<noteq> EffectDeny" "EffectAllow \<noteq> EffectWarn"
  by (simp_all add: effect_defs)

definition effect_valid :: "effect \<Rightarrow> bool" where
  "effect_valid e \<longleftrightarrow> e = EffectDeny \<or> e = EffectWarn \<or> e = EffectAllow"

type_synonym mode = string

definition ModeEnforce :: mode where "ModeEnforce = ''enforce''"
definition ModeAudit :: mode where "ModeAudit = ''audit''"

record rule =
  rlID :: string
  rlDescription :: string
  rlMatch :: string
  rlEffect :: effect
  rlSeverity :: string
  rlMessage :: string
  rlRemediation :: string
  rlReferences :: "string list"

definition rule_severity :: "rule \<Rightarrow> severity" where
  "rule_severity r =
     (if ParseSeverity (rlSeverity r) \<noteq> SeverityUnknown then ParseSeverity (rlSeverity r)
      else if rlEffect r = EffectDeny then SeverityHigh
      else if rlEffect r = EffectWarn then SeverityMedium
      else SeverityInfo)"

record scope =
  scImagePattern :: string
  scRegistry :: string

record waiver =
  wvRuleID :: string
  wvReason :: string
  wvOwner :: string
  wvExpires :: string
  wvScope :: scope

record policy =
  plVersion :: string
  plName :: string
  plDescription :: string
  plMode :: mode
  plRules :: "rule list"
  plWaivers :: "waiver list"

definition policy_mode :: "policy \<Rightarrow> mode" where
  "policy_mode p = (if plMode p = ModeAudit then ModeAudit else ModeEnforce)"

subsection \<open>Waivers\<close>

definition expiryTime :: "lib \<Rightarrow> waiver \<Rightarrow> int" where
  "expiryTime lb w =
     (if wvExpires w = [] then 0
      else case libRFC3339 lb (wvExpires w) of
        Some t \<Rightarrow> t
      | None \<Rightarrow> (case libDate lb (wvExpires w) of
          Some t \<Rightarrow> t + (24 * 3600 - 1) * 1000000000
        | None \<Rightarrow> 0))"

datatype waiver_err = WaiverNoRule | WaiverNoReason string | WaiverNoExpiry string | WaiverBadPattern string

definition waiver_validate :: "lib \<Rightarrow> waiver \<Rightarrow> waiver_err option" where
  "waiver_validate lb w =
     (if wvRuleID w = [] then Some WaiverNoRule
      else if wvReason w = [] then Some (WaiverNoReason (wvRuleID w))
      else if expiryTime lb w = 0 then Some (WaiverNoExpiry (wvRuleID w))
      else if scImagePattern (wvScope w) \<noteq> [] \<and> libRegexp lb (scImagePattern (wvScope w)) = None
      then Some (WaiverBadPattern (wvRuleID w))
      else None)"

definition waiver_active :: "lib \<Rightarrow> waiver \<Rightarrow> int \<Rightarrow> bool" where
  "waiver_active lb w now =
     (if now = 0 then False else expiryTime lb w \<noteq> 0 \<and> now < expiryTime lb w)"

definition waiver_applies :: "lib \<Rightarrow> waiver \<Rightarrow> policyInput \<Rightarrow> bool" where
  "waiver_applies lb w i =
     (if scRegistry (wvScope w) \<noteq> [] \<and> scRegistry (wvScope w) \<noteq> imgRegistry (inImage i) then False
      else if scImagePattern (wvScope w) \<noteq> [] then
        (case libRegexp lb (scImagePattern (wvScope w)) of
           None \<Rightarrow> False | Some m \<Rightarrow> m (imgReference (inImage i)))
      else True)"

definition orNone :: "string \<Rightarrow> string" where
  "orNone s = (if s = [] then ''unspecified'' else s)"

subsection \<open>Results\<close>

type_synonym decisionType = string

definition DecisionAllow :: decisionType where "DecisionAllow = ''allow''"
definition DecisionWarn :: decisionType where "DecisionWarn = ''warn''"
definition DecisionDeny :: decisionType where "DecisionDeny = ''deny''"

lemmas decision_defs = DecisionAllow_def DecisionWarn_def DecisionDeny_def

lemma decisions_distinct [simp]:
  "DecisionDeny \<noteq> DecisionWarn" "DecisionDeny \<noteq> DecisionAllow" "DecisionWarn \<noteq> DecisionAllow"
  "DecisionWarn \<noteq> DecisionDeny" "DecisionAllow \<noteq> DecisionDeny" "DecisionAllow \<noteq> DecisionWarn"
  by (simp_all add: decision_defs)

definition Blocks :: "decisionType \<Rightarrow> bool" where
  "Blocks d \<longleftrightarrow> d = DecisionDeny"

datatype rule_err = EvalErr perr | MatchNotBool perr

record ruleResult =
  rrRuleID :: string
  rrDescription :: string
  rrEffect :: effect
  rrMatched :: bool
  rrMessage :: string
  rrRemediation :: string
  rrReferences :: "string list"
  rrSeverity :: string
  rrWaived :: bool
  rrWaiverReason :: string
  rrError :: "rule_err option"

definition blocking :: "ruleResult \<Rightarrow> bool" where
  "blocking rr =
     (if rrWaived rr then False
      else if rrError rr \<noteq> None then True
      else rrMatched rr \<and> rrEffect rr = EffectDeny)"

record result =
  rsPolicy :: string
  rsMode :: mode
  rsDecision :: decisionType
  rsRules :: "ruleResult list"
  rsEvaluatedAt :: int

definition Firing :: "result \<Rightarrow> bool \<Rightarrow> ruleResult list" where
  "Firing r includeWaived =
     filter (\<lambda>rr. (rrMatched rr \<or> rrError rr \<noteq> None) \<and> (\<not> rrWaived rr \<or> includeWaived)) (rsRules r)"

definition Denials :: "result \<Rightarrow> ruleResult list" where
  "Denials r = (if rsDecision r \<noteq> DecisionDeny then [] else filter blocking (rsRules r))"

definition Warnings :: "result \<Rightarrow> ruleResult list" where
  "Warnings r = filter (\<lambda>rr. \<not> rrWaived rr \<and>
     (rrMatched rr \<and> rrEffect rr = EffectWarn \<or> blocking rr \<and> rsDecision r \<noteq> DecisionDeny)) (rsRules r)"

definition WaivedRules :: "result \<Rightarrow> ruleResult list" where
  "WaivedRules r = filter rrWaived (rsRules r)"

subsection \<open>Applying waivers\<close>

definition waiver_matches :: "lib \<Rightarrow> policyInput \<Rightarrow> int \<Rightarrow> ruleResult \<Rightarrow> waiver \<Rightarrow> bool" where
  "waiver_matches lb i now rr w \<longleftrightarrow>
     \<not> (wvRuleID w \<noteq> rrRuleID rr \<or> \<not> waiver_active lb w now \<or> \<not> waiver_applies lb w i)"

definition apply_rule :: "lib \<Rightarrow> waiver list \<Rightarrow> policyInput \<Rightarrow> int \<Rightarrow> ruleResult \<Rightarrow> ruleResult" where
  "apply_rule lb ws i now rr =
     (if \<not> rrMatched rr \<or> (rrEffect rr \<noteq> EffectDeny \<and> rrEffect rr \<noteq> EffectWarn) then rr
      else case List.find (waiver_matches lb i now rr) ws of
        None \<Rightarrow> rr
      | Some w \<Rightarrow> rr\<lparr> rrWaived := True,
          rrWaiverReason := wvReason w @ '' (owner: '' @ orNone (wvOwner w) @ '', expires '' @ wvExpires w @ '')'' \<rparr>)"

definition waivers_apply :: "lib \<Rightarrow> waiver list \<Rightarrow> result \<Rightarrow> policyInput \<Rightarrow> int \<Rightarrow> result" where
  "waivers_apply lb ws res i now =
     (if ws = [] then res else res\<lparr> rsRules := map (apply_rule lb ws i now) (rsRules res) \<rparr>)"

definition expiring_less :: "lib \<Rightarrow> waiver \<Rightarrow> waiver \<Rightarrow> bool" where
  "expiring_less lb = ikey_less (expiryTime lb) (key_less wvRuleID (\<lambda>a b. False))"

definition Expiring :: "lib \<Rightarrow> waiver list \<Rightarrow> int \<Rightarrow> int \<Rightarrow> waiver list" where
  "Expiring lb ws window now =
     sort_stable (expiring_less lb)
       (filter (\<lambda>w. expiryTime lb w \<noteq> 0 \<and> now \<le> expiryTime lb w \<and> expiryTime lb w < now + window) ws)"

subsection \<open>Validation and compilation\<close>

datatype policy_err =
    PolicyNoVersion
  | PolicyVersion string
  | PolicyNoName
  | PolicyMode mode
  | PolicyNoRules
  | RuleNoID nat
  | RuleDuplicate string
  | RuleNoMatch string
  | RuleEffect string effect
  | PolicyWaiver waiver_err
  | CompileErrs "(string \<times> (parse_err + perr)) list"

fun validate_rules :: "string list \<Rightarrow> nat \<Rightarrow> rule list \<Rightarrow> policy_err option" where
  "validate_rules seen i [] = None"
| "validate_rules seen i (r # rs) =
     (if rlID r = [] then Some (RuleNoID i)
      else if rlID r \<in> set seen then Some (RuleDuplicate (rlID r))
      else if strings_TrimSpace (rlMatch r) = [] then Some (RuleNoMatch (rlID r))
      else if \<not> effect_valid (rlEffect r) then Some (RuleEffect (rlID r) (rlEffect r))
      else validate_rules (rlID r # seen) (Suc i) rs)"

definition policy_validate :: "lib \<Rightarrow> policy \<Rightarrow> policy_err option" where
  "policy_validate lb p =
     (if plVersion p = [] then Some PolicyNoVersion
      else if plVersion p \<noteq> ''1'' then Some (PolicyVersion (plVersion p))
      else if plName p = [] then Some PolicyNoName
      else if plMode p \<noteq> [] \<and> plMode p \<noteq> ModeEnforce \<and> plMode p \<noteq> ModeAudit then Some (PolicyMode (plMode p))
      else if plRules p = [] then Some PolicyNoRules
      else case validate_rules [] 0 (plRules p) of
        Some e \<Rightarrow> Some e
      | None \<Rightarrow> map_option PolicyWaiver (first_err (waiver_validate lb) (plWaivers p)))"

record compiledRule =
  crRule :: rule
  crAst :: node

record policyEngine =
  enPolicy :: policy
  enRules :: "compiledRule list"
  enWaivers :: "waiver list"

fun compile_rules ::
    "lib \<Rightarrow> compiledRule list \<Rightarrow> (string \<times> (parse_err + perr)) list \<Rightarrow> rule list
      \<Rightarrow> compiledRule list \<times> (string \<times> (parse_err + perr)) list" where
  "compile_rules lb compiled errs [] = (compiled, errs)"
| "compile_rules lb compiled errs (r # rs) =
     (case parseExpr (rlMatch r) of
        Inl e \<Rightarrow> compile_rules lb compiled (errs @ [(rlID r, Inl e)]) rs
      | Inr ast \<Rightarrow>
          (case validateSemantics (libRegexp lb) ast of
             Some e \<Rightarrow> compile_rules lb compiled (errs @ [(rlID r, Inr e)]) rs
           | None \<Rightarrow> compile_rules lb (compiled @ [\<lparr> crRule = r, crAst = ast \<rparr>]) errs rs))"

definition Compile :: "lib \<Rightarrow> policy \<Rightarrow> policy_err + policyEngine" where
  "Compile lb p =
     (case policy_validate lb p of
        Some e \<Rightarrow> Inl e
      | None \<Rightarrow>
          (case compile_rules lb [] [] (plRules p) of
             (compiled, errs) \<Rightarrow>
               if errs \<noteq> [] then Inl (CompileErrs errs)
               else Inr \<lparr> enPolicy = p, enRules = compiled, enWaivers = plWaivers p \<rparr>))"

subsection \<open>Evaluation\<close>

definition evalRule :: "lib \<Rightarrow> policyInput \<Rightarrow> compiledRule \<Rightarrow> ruleResult" where
  "evalRule lb i cr =
     (let r = crRule cr;
          rr = \<lparr> rrRuleID = rlID r, rrDescription = rlDescription r, rrEffect = rlEffect r, rrMatched = False,
                 rrMessage = [], rrRemediation = rlRemediation r, rrReferences = rlReferences r, rrSeverity = [],
                 rrWaived = False, rrWaiverReason = [], rrError = None \<rparr>
      in case eval (libRegexp lb) i (crAst cr) of
           Inl e \<Rightarrow> rr\<lparr> rrError := Some (EvalErr e) \<rparr>
         | Inr v \<Rightarrow>
             (case AsBool v of
                Inl e \<Rightarrow> rr\<lparr> rrError := Some (MatchNotBool e) \<rparr>
              | Inr matched \<Rightarrow>
                  if matched
                  then rr\<lparr> rrMatched := True, rrMessage := rlMessage r, rrSeverity := Severity_String (rule_severity r) \<rparr>
                  else rr))"

text \<open>The flags \<^verbatim>\<open>decide\<close> collects over the rule results: error, denied, allow override, warned.\<close>

record flags =
  flError :: bool
  flDenied :: bool
  flAllow :: bool
  flWarned :: bool

definition flag_step :: "flags \<Rightarrow> ruleResult \<Rightarrow> flags" where
  "flag_step f rr =
     (if rrWaived rr then f
      else if rrError rr \<noteq> None then f\<lparr> flError := True \<rparr>
      else if \<not> rrMatched rr then f
      else if rrEffect rr = EffectDeny then f\<lparr> flDenied := True \<rparr>
      else if rrEffect rr = EffectAllow then f\<lparr> flAllow := True \<rparr>
      else if rrEffect rr = EffectWarn then f\<lparr> flWarned := True \<rparr>
      else f)"

definition decide :: "result \<Rightarrow> decisionType" where
  "decide res =
     (let enforce = (rsMode res \<noteq> ModeAudit);
          f = foldl flag_step \<lparr> flError = False, flDenied = False, flAllow = False, flWarned = False \<rparr> (rsRules res)
      in if flError f then (if enforce then DecisionDeny else DecisionWarn)
         else if flAllow f then (if flWarned f then DecisionWarn else DecisionAllow)
         else if enforce \<and> flDenied f then DecisionDeny
         else if flWarned f \<or> flDenied f then DecisionWarn
         else DecisionAllow)"

definition Evaluate :: "lib \<Rightarrow> policyEngine \<Rightarrow> policyInput \<Rightarrow> int \<Rightarrow> result" where
  "Evaluate lb e i now =
     (let res = \<lparr> rsPolicy = plName (enPolicy e), rsMode = policy_mode (enPolicy e), rsDecision = [],
                  rsRules = map (evalRule lb i) (enRules e), rsEvaluatedAt = now \<rparr>;
          res' = waivers_apply lb (enWaivers e) res i now
      in res'\<lparr> rsDecision := decide res' \<rparr>)"

end
