(* ===== verification/PolicyGate.thy ===== *)
theory PolicyGate
  imports PolicyEngine
begin

text \<open>
  What the policy gate guarantees, over the definitions of PolicyEngine: the verdict of
  \<^verbatim>\<open>decide\<close> as a function of the set of rule results, fail-closed evaluation, the reach of a
  waiver, the agreement of the views of a result with its decision, and what compiling a
  policy promises its evaluation.
\<close>

subsection \<open>The verdict\<close>

text \<open>
  The specification of \<^verbatim>\<open>decide\<close>: which kinds of outcome occur, and the precedence of the
  comment above the function.
\<close>

definition errored :: "ruleResult set \<Rightarrow> bool" where
  "errored R \<longleftrightarrow> (\<exists>rr \<in> R. \<not> rrWaived rr \<and> rrError rr \<noteq> None)"

definition fires :: "ruleResult set \<Rightarrow> effect \<Rightarrow> bool" where
  "fires R e \<longleftrightarrow> (\<exists>rr \<in> R. \<not> rrWaived rr \<and> rrError rr = None \<and> rrMatched rr \<and> rrEffect rr = e)"

definition verdict :: "mode \<Rightarrow> ruleResult set \<Rightarrow> decisionType" where
  "verdict m R =
     (if errored R then (if m = ModeAudit then DecisionWarn else DecisionDeny)
      else if fires R EffectAllow then (if fires R EffectWarn then DecisionWarn else DecisionAllow)
      else if m \<noteq> ModeAudit \<and> fires R EffectDeny then DecisionDeny
      else if fires R EffectWarn \<or> fires R EffectDeny then DecisionWarn
      else DecisionAllow)"

lemma errored_simps [simp]:
  "errored {} = False"
  "errored (insert rr R) \<longleftrightarrow> (\<not> rrWaived rr \<and> rrError rr \<noteq> None) \<or> errored R"
  by (auto simp: errored_def)

lemma fires_simps [simp]:
  "fires {} e = False"
  "fires (insert rr R) e \<longleftrightarrow> (\<not> rrWaived rr \<and> rrError rr = None \<and> rrMatched rr \<and> rrEffect rr = e) \<or> fires R e"
  by (auto simp: fires_def)

lemma foldl_flag_step:
  "foldl flag_step f rrs =
     \<lparr> flError = flError f \<or> errored (set rrs), flDenied = flDenied f \<or> fires (set rrs) EffectDeny,
       flAllow = flAllow f \<or> fires (set rrs) EffectAllow, flWarned = flWarned f \<or> fires (set rrs) EffectWarn \<rparr>"
  by (induction rrs arbitrary: f) (auto simp: flag_step_def)

lemma decide_verdict: "decide res = verdict (rsMode res) (set (rsRules res))"
  by (simp add: decide_def foldl_flag_step verdict_def)


lemma verdict_audit: "verdict ModeAudit R \<noteq> DecisionDeny"
  by (simp add: verdict_def)

subsection \<open>Evaluation\<close>

lemma waivers_apply_rules:
  "rsRules (waivers_apply lb ws res i now) = map (apply_rule lb ws i now) (rsRules res)"
  by (auto simp: waivers_apply_def apply_rule_def intro!: map_idI [symmetric])

lemma waivers_apply_frame [frame_simps]:
  "rsMode (waivers_apply lb ws res i now) = rsMode res"
  "rsPolicy (waivers_apply lb ws res i now) = rsPolicy res"
  "rsEvaluatedAt (waivers_apply lb ws res i now) = rsEvaluatedAt res"
  "rsDecision (waivers_apply lb ws res i now) = rsDecision res"
  by (simp_all add: waivers_apply_def)

lemma Evaluate_rules:
  "rsRules (Evaluate lb e i now) = map (\<lambda>cr. apply_rule lb (enWaivers e) i now (evalRule lb i cr)) (enRules e)"
  by (simp add: Evaluate_def Let_def waivers_apply_rules)

lemma Evaluate_decision:
  "rsDecision (Evaluate lb e i now)
     = verdict (policy_mode (enPolicy e)) (set (rsRules (Evaluate lb e i now)))"
  by (simp add: Evaluate_def Let_def decide_verdict frame_simps)

lemma evalRule_frame [simp]:
  "rrRuleID (evalRule lb i cr) = rlID (crRule cr)"
  "rrEffect (evalRule lb i cr) = rlEffect (crRule cr)"
  "rrWaived (evalRule lb i cr) = False"
  "rrWaiverReason (evalRule lb i cr) = []"
  "rrRemediation (evalRule lb i cr) = rlRemediation (crRule cr)"
  by (simp_all add: evalRule_def Let_def split: sum.splits)

lemma evalRule_outcome:
  "rrError (evalRule lb i cr) =
     (case eval (libRegexp lb) i (crAst cr) of Inl e \<Rightarrow> Some (EvalErr e)
      | Inr v \<Rightarrow> (case AsBool v of Inl e \<Rightarrow> Some (MatchNotBool e) | Inr b \<Rightarrow> None))"
  "rrMatched (evalRule lb i cr) \<longleftrightarrow> eval (libRegexp lb) i (crAst cr) = Inr (VBool True)"
  by (auto simp: evalRule_def Let_def split: sum.splits elim!: AsBool.elims)

lemma evalRule_error_unmatched: "rrError (evalRule lb i cr) \<noteq> None \<Longrightarrow> \<not> rrMatched (evalRule lb i cr)"
  by (auto simp: evalRule_outcome split: sum.splits)

lemma apply_rule_frame [simp]:
  "rrRuleID (apply_rule lb ws i now rr) = rrRuleID rr"
  "rrEffect (apply_rule lb ws i now rr) = rrEffect rr"
  "rrMatched (apply_rule lb ws i now rr) = rrMatched rr"
  "rrError (apply_rule lb ws i now rr) = rrError rr"
  by (simp_all add: apply_rule_def split: option.splits)

definition waivable :: "lib \<Rightarrow> waiver list \<Rightarrow> policyInput \<Rightarrow> int \<Rightarrow> ruleResult \<Rightarrow> bool" where
  "waivable lb ws i now rr \<longleftrightarrow>
     rrMatched rr \<and> (rrEffect rr = EffectDeny \<or> rrEffect rr = EffectWarn) \<and>
     (\<exists>w \<in> set ws. wvRuleID w = rrRuleID rr \<and> waiver_active lb w now \<and> waiver_applies lb w i)"

lemma apply_rule_waived:
  "rrWaived (apply_rule lb ws i now rr) \<longleftrightarrow> rrWaived rr \<or> waivable lb ws i now rr"
proof (cases "List.find (waiver_matches lb i now rr) ws")
  case None
  then have "\<not> waivable lb ws i now rr"
    by (auto simp: find_None_iff waivable_def waiver_matches_def)
  then show ?thesis using None by (simp add: apply_rule_def)
next
  case (Some w)
  then have "w \<in> set ws" "waiver_matches lb i now rr w"
    by (auto simp: find_Some_iff)
  then show ?thesis using Some by (auto simp: apply_rule_def waivable_def waiver_matches_def)
qed

lemma apply_rule_unwaived:
  "\<not> rrWaived rr \<Longrightarrow> rrWaiverReason rr = [] \<Longrightarrow>
     (apply_rule lb ws i now rr)\<lparr> rrWaived := False, rrWaiverReason := [] \<rparr> = rr"
  by (cases rr) (auto simp: apply_rule_def split: option.splits)

text \<open>
  C11: evaluation fails closed. A rule whose match expression fails to evaluate, or is not
  boolean, denies in enforce mode and warns in audit mode, whatever the other rules say,
  allow rules included, and whatever waivers the policy has.
\<close>

theorem Evaluate_fail_closed:
  assumes "cr \<in> set (enRules e)" and "\<And>b. eval (libRegexp lb) i (crAst cr) \<noteq> Inr (VBool b)"
  shows "rsDecision (Evaluate lb e i now) =
           (if policy_mode (enPolicy e) = ModeAudit then DecisionWarn else DecisionDeny)"
proof -
  let ?rr = "apply_rule lb (enWaivers e) i now (evalRule lb i cr)"
  have err: "rrError (evalRule lb i cr) \<noteq> None"
    using assms(2) by (auto simp: evalRule_outcome split: sum.splits elim!: AsBool.elims)
  then have "\<not> rrWaived ?rr"
    using evalRule_error_unmatched by (simp add: apply_rule_waived waivable_def)
  moreover have "?rr \<in> set (rsRules (Evaluate lb e i now))"
    using assms(1) by (simp add: Evaluate_rules)
  ultimately have "errored (set (rsRules (Evaluate lb e i now)))"
    using err unfolding errored_def by auto
  then show ?thesis by (simp add: Evaluate_decision verdict_def)
qed

definition lib0 :: lib where
  "lib0 = \<lparr> libRegexp = (\<lambda>p. Some (\<lambda>s. s = p)), libRFC3339 = (\<lambda>s. None),
     libDate = (\<lambda>s. if s = ''2030-01-01'' then Some 100 else None) \<rparr>"

definition rule0 :: "string \<Rightarrow> string \<Rightarrow> effect \<Rightarrow> rule" where
  "rule0 n m e = \<lparr> rlID = n, rlDescription = [], rlMatch = m, rlEffect = e, rlSeverity = [], rlMessage = [],
     rlRemediation = [], rlReferences = [] \<rparr>"

definition policy0 :: "rule list \<Rightarrow> waiver list \<Rightarrow> policy" where
  "policy0 rs ws = \<lparr> plVersion = ''1'', plName = ''p'', plDescription = [], plMode = [], plRules = rs, plWaivers = ws \<rparr>"

definition engine0 :: "policyEngine" where
  "engine0 = \<lparr> enPolicy = policy0 [] [],
     enRules = [\<lparr> crRule = rule0 ''a'' ''true'' EffectAllow, crAst = LitNode (VBool True) \<rparr>,
       \<lparr> crRule = rule0 ''b'' ''has_rule(true)'' EffectDeny, crAst = CallNode ''has_rule'' [LitNode (VBool True)] \<rparr>],
     enWaivers = [] \<rparr>"

theorem Evaluate_fail_closed_witness:
  "rsDecision (Evaluate lib0 engine0 emptyInput 1) = DecisionDeny"
proof -
  let ?cr = "\<lparr> crRule = rule0 ''b'' ''has_rule(true)'' EffectDeny, crAst = CallNode ''has_rule'' [LitNode (VBool True)] \<rparr>"
  have m: "?cr \<in> set (enRules engine0)" by (simp add: engine0_def)
  have n: "eval (libRegexp lib0) emptyInput (crAst ?cr) \<noteq> Inr (VBool b)" for b
    by (simp add: builtins_def fn1_def sarg_def argAt_def strArg_def)
  have "policy_mode (enPolicy engine0) \<noteq> ModeAudit" by code_simp
  with Evaluate_fail_closed [OF m n] show ?thesis by simp
qed

subsection \<open>Waivers\<close>

definition strictness :: "decisionType \<Rightarrow> nat" where
  "strictness d = (if d = DecisionDeny then 2 else if d = DecisionWarn then 1 else 0)"

lemma verdict_relax:
  assumes "errored R = errored S" and "\<And>e. fires R e \<Longrightarrow> fires S e"
    and "fires R EffectAllow = fires S EffectAllow"
  shows "strictness (verdict m R) \<le> strictness (verdict m S)"
  using assms(1,3) assms(2) [of EffectDeny] assms(2) [of EffectWarn]
  by (auto simp: verdict_def strictness_def)

lemma no_waivers_rule [simp]: "apply_rule lb [] i now rr = rr"
  by (simp add: apply_rule_def)

lemma Evaluate_waived:
  "rrWaived (apply_rule lb ws i now (evalRule lb i cr)) \<longleftrightarrow> waivable lb ws i now (evalRule lb i cr)"
  by (simp add: apply_rule_waived)

lemma error_not_waivable:
  "rrError (evalRule lb i cr) = Some y \<Longrightarrow> \<not> waivable lb ws i now (evalRule lb i cr)"
  using evalRule_error_unmatched [of lb i cr] by (simp add: waivable_def)

lemma allow_not_waivable:
  "rlEffect (crRule cr) = EffectAllow \<Longrightarrow> \<not> waivable lb ws i now (evalRule lb i cr)"
  by (simp add: waivable_def)

lemma Evaluate_relaxed:
  "strictness (rsDecision (Evaluate lb e i now))
     \<le> strictness (rsDecision (Evaluate lb (e\<lparr> enWaivers := [] \<rparr>) i now))"
proof -
  let ?f = "\<lambda>ws cr. apply_rule lb ws i now (evalRule lb i cr)"
  let ?R = "?f (enWaivers e) ` set (enRules e)" and ?S = "?f [] ` set (enRules e)"
  have E: "errored (?f ws ` set (enRules e)) \<longleftrightarrow> (\<exists>cr \<in> set (enRules e). rrError (evalRule lb i cr) \<noteq> None)" for ws
    using error_not_waivable by (simp add: errored_def Evaluate_waived) blast
  have "errored ?R = errored ?S" by (simp only: E)
  moreover have "fires ?R e' \<Longrightarrow> fires ?S e'" for e'
    by (auto simp: fires_def)
  moreover
  have F: "fires (?f ws ` set (enRules e)) EffectAllow \<longleftrightarrow>
      (\<exists>cr \<in> set (enRules e). rrError (evalRule lb i cr) = None \<and> rrMatched (evalRule lb i cr)
         \<and> rlEffect (crRule cr) = EffectAllow)" for ws
    using allow_not_waivable by (simp add: fires_def Evaluate_waived) blast
  have "fires ?R EffectAllow = fires ?S EffectAllow" by (simp only: F)
  ultimately have "strictness (verdict m ?R) \<le> strictness (verdict m ?S)" for m
    by (rule verdict_relax)
  then show ?thesis by (simp add: Evaluate_decision Evaluate_rules)
qed

text \<open>
  C14: a waiver reaches exactly what it is for. A rule is waived precisely when it matched, is
  a deny or warn rule, and some waiver for its id is unexpired and in scope; every other field
  of the result is what the rule gave without waivers. Waivers never make the decision
  stricter, and without an evaluation time they change nothing.
\<close>

theorem waiver_reach:
  "map rrWaived (rsRules (Evaluate lb e i now))
     = map (\<lambda>cr. waivable lb (enWaivers e) i now (evalRule lb i cr)) (enRules e)
   \<and> map (\<lambda>rr. rr\<lparr> rrWaived := False, rrWaiverReason := [] \<rparr>) (rsRules (Evaluate lb e i now))
     = map (evalRule lb i) (enRules e)
   \<and> strictness (rsDecision (Evaluate lb e i now))
     \<le> strictness (rsDecision (Evaluate lb (e\<lparr> enWaivers := [] \<rparr>) i now))
   \<and> rsDecision (Evaluate lb e i 0) = rsDecision (Evaluate lb (e\<lparr> enWaivers := [] \<rparr>) i 0)"
proof (intro conjI)
  have "waiver_active lb w 0 = False" for w by (simp add: waiver_active_def)
  then have "apply_rule lb ws i 0 rr = rr" for ws rr
    by (auto simp: apply_rule_def waiver_matches_def find_Some_iff split: option.splits)
  then show "rsDecision (Evaluate lb e i 0) = rsDecision (Evaluate lb (e\<lparr> enWaivers := [] \<rparr>) i 0)"
    by (simp add: Evaluate_decision Evaluate_rules)
qed (simp_all add: Evaluate_rules Evaluate_waived apply_rule_unwaived Evaluate_relaxed)

subsection \<open>Compilation\<close>

lemma compile_rules_spec:
  "compile_rules lb compiled errs rs = (compiled', []) \<Longrightarrow>
     errs = [] \<and> (\<exists>crs. compiled' = compiled @ crs \<and> map crRule crs = rs \<and>
       (\<forall>cr \<in> set crs. parseExpr (rlMatch (crRule cr)) = Inr (crAst cr)
          \<and> validateSemantics (libRegexp lb) (crAst cr) = None))"
proof (induction rs arbitrary: compiled errs)
  case (Cons r rs)
  show ?case
  proof (cases "parseExpr (rlMatch r)")
    case (Inl e)
    then show ?thesis using Cons.prems Cons.IH [of compiled "errs @ [(rlID r, Inl e)]"] by simp
  next
    case (Inr ast)
    show ?thesis
    proof (cases "validateSemantics (libRegexp lb) ast")
      case None
      let ?c = "\<lparr> crRule = r, crAst = ast \<rparr>"
      obtain crs where "errs = []" "compiled' = (compiled @ [?c]) @ crs" "map crRule crs = rs"
        "\<forall>cr \<in> set crs. parseExpr (rlMatch (crRule cr)) = Inr (crAst cr) \<and> validateSemantics (libRegexp lb) (crAst cr) = None"
        using Cons.prems Cons.IH [of "compiled @ [?c]" errs] Inr None by auto
      then show ?thesis using Inr None by (intro conjI exI [of _ "?c # crs"]) auto
    next
      case (Some e)
      then show ?thesis using Cons.prems Cons.IH [of compiled "errs @ [(rlID r, Inr e)]"] Inr by simp
    qed
  qed
qed simp

lemma validate_rules_spec:
  "validate_rules seen k rs = None \<Longrightarrow>
     distinct (map rlID rs) \<and> set seen \<inter> rlID ` set rs = {} \<and> (\<forall>r \<in> set rs. rlID r \<noteq> [] \<and> effect_valid (rlEffect r))"
  by (induction rs arbitrary: seen k) (fastforce split: if_splits)+

lemma Compile_shape:
  assumes "Compile lb p = Inr e"
  shows "enPolicy e = p" "enWaivers e = plWaivers p" "map crRule (enRules e) = plRules p"
    and "policy_validate lb p = None"
    and "\<And>cr. cr \<in> set (enRules e) \<Longrightarrow> parseExpr (rlMatch (crRule cr)) = Inr (crAst cr)
           \<and> validateSemantics (libRegexp lb) (crAst cr) = None"
  using assms compile_rules_spec [of lb "[]" "[]" "plRules p"]
  by (auto simp: Compile_def split: option.splits prod.splits if_splits)

lemma Compile_valid:
  assumes "Compile lb p = Inr e"
  shows "distinct (map rlID (plRules p))" and "\<And>r. r \<in> set (plRules p) \<Longrightarrow> effect_valid (rlEffect r)"
    and "\<And>w. w \<in> set (plWaivers p) \<Longrightarrow> waiver_validate lb w = None"
    and "plRules p \<noteq> []"
  using Compile_shape(4) [OF assms] validate_rules_spec [of "[]" 0 "plRules p"]
  by (auto simp: policy_validate_def first_err_None split: if_splits option.splits)

text \<open>
  C12: what compiling promises. The engine has the rules of the document in order, with
  distinct ids and valid effects, and only waivers with a justification and an expiry; and no
  rule ever fails at evaluation with an error the compiler is meant to catch: an unknown
  identifier or function, a wrong number of arguments, an argument read out of range, an
  operator that is none, or (when every pattern of the rule is a literal) a malformed regular
  expression.
\<close>

theorem Compile_guarantee:
  assumes "Compile lb p = Inr e"
  shows "map crRule (enRules e) = plRules p \<and> distinct (map rlID (plRules p))
    \<and> (\<forall>r \<in> set (plRules p). effect_valid (rlEffect r))
    \<and> (\<forall>w \<in> set (enWaivers e). wvReason w \<noteq> [] \<and> expiryTime lb w \<noteq> 0)
    \<and> (\<forall>cr \<in> set (enRules e). \<forall>i err. rrError (evalRule lb i cr) = Some (EvalErr err)
         \<longrightarrow> \<not> static_err (patternsLiteral (crAst cr)) err)"
proof (intro conjI ballI allI impI)
  fix cr i err
  assume cr: "cr \<in> set (enRules e)" and err: "rrError (evalRule lb i cr) = Some (EvalErr err)"
  have "eval (libRegexp lb) i (crAst cr) = Inl err"
    using err by (auto simp: evalRule_outcome split: sum.splits)
  moreover have "opsOK (crAst cr)"
    using Compile_shape(5) [OF assms cr] parseExpr_cases grammar_opsOK by blast
  ultimately show "\<not> static_err (patternsLiteral (crAst cr)) err"
    using Compile_shape(5) [OF assms cr] eval_no_static_error by blast
next
  fix w
  assume "w \<in> set (enWaivers e)"
  then have "waiver_validate lb w = None"
    using Compile_shape(2) [OF assms] Compile_valid(3) [OF assms] by simp
  then show "wvReason w \<noteq> []" "expiryTime lb w \<noteq> 0" by (auto simp: waiver_validate_def split: if_splits)
qed (use Compile_shape(3) [OF assms] Compile_valid(1,2) [OF assms] in auto)

theorem Compile_guarantee_witness:
  "\<exists>e. Compile lib0 (policy0 [rule0 ''a'' ''true'' EffectAllow, rule0 ''b'' ''has_rule(tag)'' EffectDeny] []) = Inr e
     \<and> distinct (map rlID (map crRule (enRules e)))
     \<and> (\<forall>cr \<in> set (enRules e). \<forall>i err. rrError (evalRule lib0 i cr) = Some (EvalErr err)
         \<longrightarrow> \<not> static_err (patternsLiteral (crAst cr)) err)"
proof -
  let ?p = "policy0 [rule0 ''a'' ''true'' EffectAllow, rule0 ''b'' ''has_rule(tag)'' EffectDeny] []"
  have "case Compile lib0 ?p of Inl _ \<Rightarrow> False | Inr _ \<Rightarrow> True" by code_simp
  then obtain e where e: "Compile lib0 ?p = Inr e" by (auto split: sum.splits)
  show ?thesis using Compile_guarantee [OF e] e by (intro exI [of _ e]) simp
qed

subsection \<open>The views of a result\<close>

text \<open>
  the views agree with the decision. For a compiled policy, something is listed under
  denials exactly when the decision is deny, nothing is listed both as denial and as warning,
  and every rule that fired unwaived is an allow rule, a denial or a warning.
\<close>

theorem views_agree:
  assumes "Compile lb p = Inr e"
  shows "(Denials (Evaluate lb e i now) \<noteq> [] \<longleftrightarrow> Blocks (rsDecision (Evaluate lb e i now)))
    \<and> set (Denials (Evaluate lb e i now)) \<inter> set (Warnings (Evaluate lb e i now)) = {}
    \<and> set (Firing (Evaluate lb e i now) False) =
        set (Denials (Evaluate lb e i now)) \<union> set (Warnings (Evaluate lb e i now))
        \<union> {rr \<in> set (Firing (Evaluate lb e i now) False). rrMatched rr \<and> rrEffect rr = EffectAllow}"
proof (intro conjI)
  let ?r = "Evaluate lb e i now"
  have mx: "\<not> rrMatched rr" if "rr \<in> set (rsRules ?r)" "rrError rr \<noteq> None" for rr
    using that evalRule_error_unmatched by (auto simp: Evaluate_rules)
  have eff: "rrEffect rr = EffectDeny \<or> rrEffect rr = EffectWarn \<or> rrEffect rr = EffectAllow"
    if "rr \<in> set (rsRules ?r)" for rr
  proof -
    from that obtain cr where cr: "cr \<in> set (enRules e)" "rrEffect rr = rlEffect (crRule cr)"
      by (auto simp: Evaluate_rules)
    then have "crRule cr \<in> set (plRules p)" using Compile_shape(3) [OF assms] by (metis image_eqI set_map)
    then show ?thesis using Compile_valid(2) [OF assms] cr(2) by (simp add: effect_valid_def)
  qed
  show "Denials ?r \<noteq> [] \<longleftrightarrow> Blocks (rsDecision ?r)"
    by (auto simp: Denials_def Blocks_def Evaluate_decision verdict_def errored_def fires_def blocking_def
        filter_empty_conv split: if_splits)
  show "set (Denials ?r) \<inter> set (Warnings ?r) = {}"
    using mx by (auto simp: Denials_def Warnings_def blocking_def)
  show "set (Firing ?r False) = set (Denials ?r) \<union> set (Warnings ?r)
      \<union> {rr \<in> set (Firing ?r False). rrMatched rr \<and> rrEffect rr = EffectAllow}"
    using eff by (auto simp: Firing_def Denials_def Warnings_def blocking_def)
qed

theorem views_agree_witness:
  "\<exists>e. Compile lib0 (policy0 [rule0 ''a'' ''true'' EffectDeny] []) = Inr e
     \<and> (Denials (Evaluate lib0 e emptyInput 1) \<noteq> [] \<longleftrightarrow> Blocks (rsDecision (Evaluate lib0 e emptyInput 1)))"
proof -
  let ?p = "policy0 [rule0 ''a'' ''true'' EffectDeny] []"
  have "case Compile lib0 ?p of Inl _ \<Rightarrow> False | Inr _ \<Rightarrow> True" by code_simp
  then obtain e where e: "Compile lib0 ?p = Inr e" by (auto split: sum.splits)
  show ?thesis using views_agree [OF e] e by blast
qed

end
