(* ===== verification/PolicySuite.thy ===== *)
theory PolicySuite
  imports PolicyGate
begin

text \<open>
  Around the policy gate: reading a scan report as input (\<^verbatim>\<open>report.go\<close>), the policy test
  harness (\<^verbatim>\<open>testsuite.go\<close>) and explanations (\<^verbatim>\<open>explain.go\<close>). The JSON decoder is outside the
  model: the documents are the decoded records. \<open>fmtFloat\<close> is \<^verbatim>\<open>strconv.FormatFloat\<close>, used for
  numbers that are not 64-bit integers, and \<open>errText\<close> the text of an evaluation error.
\<close>

subsection \<open>Reports\<close>

record findingJSON =
  fjRuleID :: string
  fjModule :: string
  fjSeverity :: string
  fjTitle :: string
  fjDescription :: string
  fjResource :: string
  fjRemediation :: string
  fjReferences :: "string list"
  fjMetadata :: "(string \<times> string) list"

definition toFinding :: "findingJSON \<Rightarrow> finding" where
  "toFinding f =
     \<lparr> fRuleID = fjRuleID f, fModule = fjModule f, fSeverity = ParseSeverity (fjSeverity f), fTitle = fjTitle f,
       fDescription = fjDescription f, fResource = fjResource f, fLocation = None, fRemediation = fjRemediation f,
       fReferences = fjReferences f, fMetadata = fjMetadata f \<rparr>"

record reportJSON =
  rjTargetType :: string
  rjTarget :: string
  rjFindings :: "findingJSON list"

definition EngineFindings :: "reportJSON \<Rightarrow> finding list" where
  "EngineFindings r = map toFinding (rjFindings r)"

text \<open>Reading a map: the zero value when the key is not there.\<close>

definition md_get :: "(string \<times> string) list \<Rightarrow> string \<Rightarrow> string" where
  "md_get m k = (case map_of m k of None \<Rightarrow> [] | Some v \<Rightarrow> v)"

fun add_levels :: "string list \<Rightarrow> string list \<Rightarrow> string list" where
  "add_levels ps [] = ps"
| "add_levels ps (p # rest) =
     add_levels
       (if strings_TrimSpace p \<noteq> [] \<and> \<not> contains ps (strings_TrimSpace p) then ps @ [strings_TrimSpace p] else ps) rest"

fun InferAttestation_loop :: "staticAttestation \<Rightarrow> finding list \<Rightarrow> staticAttestation" where
  "InferAttestation_loop att [] = att"
| "InferAttestation_loop att (f # fs) =
     (if \<not> strings_HasPrefix (fRuleID f) ''DS-RAT-SUP-'' then InferAttestation_loop att fs
      else
        let att1 = (if md_get (fMetadata f) ''verdict'' = ''PASSED'' then att\<lparr> saIsSigned := True \<rparr> else att);
            lv = md_get (fMetadata f) ''verified_levels'';
            att2 = (if lv \<noteq> [] then att1\<lparr> saPredicates := add_levels (saPredicates att1) (split_byte CHR '','' lv) \<rparr> else att1)
        in InferAttestation_loop att2 fs)"

definition InferAttestation :: "finding list \<Rightarrow> staticAttestation" where
  "InferAttestation fs = InferAttestation_loop \<lparr> saIsSigned = False, saPredicates = [] \<rparr> fs"

definition passes :: "finding \<Rightarrow> bool" where
  "passes f \<longleftrightarrow> strings_HasPrefix (fRuleID f) ''DS-RAT-SUP-'' \<and> md_get (fMetadata f) ''verdict'' = ''PASSED''"

lemma InferAttestation_loop_signed:
  "saIsSigned (InferAttestation_loop att fs) \<longleftrightarrow> saIsSigned att \<or> (\<exists>f \<in> set fs. passes f)"
  by (induction fs arbitrary: att) (auto simp: passes_def Let_def)

lemma InferAttestation_signed: "saIsSigned (InferAttestation fs) \<longleftrightarrow> (\<exists>f \<in> set fs. passes f)"
  by (simp add: InferAttestation_def InferAttestation_loop_signed)

subsection \<open>The test harness\<close>

record caseInput =
  ciFindings :: "findingJSON list"
  ciImage :: image
  ciWorkload :: workload
  ciAttest :: staticAttestation
  ciLicenses :: "string list"
  ciPackages :: "string list"

definition toInput :: "caseInput \<Rightarrow> policyInput" where
  "toInput c = \<lparr> inFindings = map toFinding (ciFindings c), inImage = ciImage c, inWorkload = ciWorkload c,
     inAttest = Some (staticState (ciAttest c)), inLicenses = ciLicenses c, inPackages = ciPackages c \<rparr>"

record testCase =
  csName :: string
  csNow :: string
  csInput :: caseInput
  csExpect :: decisionType
  csExpectFiring :: "string list option"

record suite =
  suPolicy :: string
  suCases :: "testCase list"

definition ParseSuite :: "(bytes \<Rightarrow> suite option) \<Rightarrow> bytes \<Rightarrow> suite option" where
  "ParseSuite decode data =
     (case decode data of None \<Rightarrow> None | Some s \<Rightarrow> if suCases s = [] then None else Some s)"

record caseResult =
  crName :: string
  crPass :: bool
  crWant :: decisionType
  crGot :: decisionType
  crDetail :: string

record suiteResult =
  srResults :: "caseResult list"
  srPassed :: int
  srFailed :: int

definition suite_OK :: "suiteResult \<Rightarrow> bool" where
  "suite_OK s \<longleftrightarrow> srFailed s = 0"

definition firingDiff :: "result \<Rightarrow> string list \<Rightarrow> string" where
  "firingDiff res want =
     (let got = map rrRuleID (Firing res False);
          missing = filter (\<lambda>i. i \<notin> set got) (remdups want);
          extra = filter (\<lambda>i. i \<notin> set want) (remdups got)
      in if missing = [] \<and> extra = [] then []
         else ''firing mismatch: missing '' @ fmt_strings (sort_Strings missing) @ '', unexpected ''
           @ fmt_strings (sort_Strings extra))"

definition case_now :: "lib \<Rightarrow> testCase \<Rightarrow> int \<Rightarrow> int" where
  "case_now lb c defaultNow =
     (if csNow c \<noteq> [] then (case libRFC3339 lb (csNow c) of Some t \<Rightarrow> t | None \<Rightarrow> defaultNow) else defaultNow)"

definition run_case :: "lib \<Rightarrow> policyEngine \<Rightarrow> int \<Rightarrow> testCase \<Rightarrow> caseResult" where
  "run_case lb e defaultNow c =
     (let res = Evaluate lb e (toInput (csInput c)) (case_now lb c defaultNow);
          cr = \<lparr> crName = csName c, crPass = True, crWant = csExpect c, crGot = rsDecision res, crDetail = [] \<rparr>
      in if rsDecision res \<noteq> csExpect c then
           cr\<lparr> crPass := False, crDetail := ''decision = '' @ rsDecision res @ '', want '' @ csExpect c \<rparr>
         else case csExpectFiring c of
           None \<Rightarrow> cr
         | Some want \<Rightarrow>
             if firingDiff res want \<noteq> [] then cr\<lparr> crPass := False, crDetail := firingDiff res want \<rparr> else cr)"

fun RunSuite_loop :: "lib \<Rightarrow> policyEngine \<Rightarrow> int \<Rightarrow> suiteResult \<Rightarrow> testCase list \<Rightarrow> suiteResult" where
  "RunSuite_loop lb e now sr [] = sr"
| "RunSuite_loop lb e now sr (c # cs) =
     (let cr = run_case lb e now c;
          sr1 = (if crPass cr then sr\<lparr> srPassed := srPassed sr + 1 \<rparr> else sr\<lparr> srFailed := srFailed sr + 1 \<rparr>)
      in RunSuite_loop lb e now (sr1\<lparr> srResults := srResults sr1 @ [cr] \<rparr>) cs)"

definition RunSuite :: "lib \<Rightarrow> policyEngine \<Rightarrow> testCase list \<Rightarrow> int \<Rightarrow> suiteResult" where
  "RunSuite lb e cases defaultNow =
     RunSuite_loop lb e defaultNow \<lparr> srResults = [], srPassed = 0, srFailed = 0 \<rparr> cases"

lemma firingDiff_empty: "firingDiff res want = [] \<longleftrightarrow> rrRuleID ` set (Firing res False) = set want"
  by (auto simp: firingDiff_def Let_def filter_empty_conv)

lemma run_case_pass:
  "crPass (run_case lb e now c) \<longleftrightarrow>
     (let res = Evaluate lb e (toInput (csInput c)) (case_now lb c now) in
      rsDecision res = csExpect c \<and>
      (\<forall>want. csExpectFiring c = Some want \<longrightarrow> rrRuleID ` set (Firing res False) = set want))"
  by (auto simp: run_case_def Let_def firingDiff_empty split: option.splits)

lemma RunSuite_loop_spec:
  "srResults (RunSuite_loop lb e now sr cs) = srResults sr @ map (run_case lb e now) cs
   \<and> srPassed (RunSuite_loop lb e now sr cs) = srPassed sr + int (length (filter crPass (map (run_case lb e now) cs)))
   \<and> srFailed (RunSuite_loop lb e now sr cs)
      = srFailed sr + int (length (filter (\<lambda>r. \<not> crPass r) (map (run_case lb e now) cs)))"
  by (induction cs arbitrary: sr) (auto simp: Let_def)

text \<open>
  a suite is green exactly when, for every case, the policy decides as expected at the
  case's time and, where the case lists them, exactly the expected rules fire; the results are
  reported in order and the counters add up.
\<close>

theorem suite_green_iff:
  "suite_OK (RunSuite lb e cs now) \<longleftrightarrow>
     list_all (\<lambda>c. let res = Evaluate lb e (toInput (csInput c)) (case_now lb c now) in
        rsDecision res = csExpect c \<and>
        (case csExpectFiring c of None \<Rightarrow> True
         | Some want \<Rightarrow> rrRuleID ` set (Firing res False) = set want)) cs"
  using RunSuite_loop_spec [of lb e now "\<lparr> srResults = [], srPassed = 0, srFailed = 0 \<rparr>" cs]
  by (auto simp: suite_OK_def RunSuite_def filter_empty_conv list_all_iff run_case_pass Let_def split: option.splits)

subsection \<open>Explanations\<close>

fun Display :: "(float64 \<Rightarrow> string) \<Rightarrow> val \<Rightarrow> string" where
  "Display fmtFloat (VBool b) = (if b then ''true'' else ''false'')"
| "Display fmtFloat (VNum n) =
     (case n of Fin q \<Rightarrow>
        if q = of_int (floor q) \<and> - (2 ^ 63) \<le> q \<and> q < 2 ^ 63 then fmt_int (floor q) else fmtFloat n
      | _ \<Rightarrow> fmtFloat n)"
| "Display fmtFloat (VStr s) = s"
| "Display fmtFloat (VList vs) = ''['' @ join_with '', '' (map (Display fmtFloat) vs) @ '']''"

definition evalToString :: "lib \<Rightarrow> (float64 \<Rightarrow> string) \<Rightarrow> (perr \<Rightarrow> string) \<Rightarrow> policyInput \<Rightarrow> node \<Rightarrow> string" where
  "evalToString lb fmtFloat errText i n =
     (case eval (libRegexp lb) i n of Inl e \<Rightarrow> ''error: '' @ errText e | Inr v \<Rightarrow> Display fmtFloat v)"

text \<open>The three bytes of the ellipsis that stands for an argument which is no literal.\<close>

definition ellipsis :: string where
  "ellipsis = [CHR 0xE2, CHR 0x80, CHR 0xA6]"

definition argLabel :: "(float64 \<Rightarrow> string) \<Rightarrow> node \<Rightarrow> string" where
  "argLabel fmtFloat a = (case a of
      LitNode (VStr s) \<Rightarrow> [CHR 0x22] @ s @ [CHR 0x22]
    | LitNode v \<Rightarrow> Display fmtFloat v
    | _ \<Rightarrow> ellipsis)"

definition factLabel :: "(float64 \<Rightarrow> string) \<Rightarrow> string \<Rightarrow> node list \<Rightarrow> string" where
  "factLabel fmtFloat name args = name @ ''('' @ join_with '', '' (map (argLabel fmtFloat) args) @ '')''"

text \<open>The facts in the order they are written; a later entry for a key replaces an earlier one.\<close>

fun facts_visit :: "lib \<Rightarrow> (float64 \<Rightarrow> string) \<Rightarrow> (perr \<Rightarrow> string) \<Rightarrow> policyInput \<Rightarrow> node \<Rightarrow> (string \<times> string) list" where
  "facts_visit lb ff et i (LitNode v) = []"
| "facts_visit lb ff et i (ListNode es) = concat (map (facts_visit lb ff et i) es)"
| "facts_visit lb ff et i (IdentNode name) = [(name, evalToString lb ff et i (IdentNode name))]"
| "facts_visit lb ff et i (CallNode name args) =
     (factLabel ff name args, evalToString lb ff et i (CallNode name args)) # concat (map (facts_visit lb ff et i) args)"
| "facts_visit lb ff et i (UnaryNode op x) = facts_visit lb ff et i x"
| "facts_visit lb ff et i (BinaryNode op l r) = facts_visit lb ff et i l @ facts_visit lb ff et i r"

definition collectFacts :: "lib \<Rightarrow> (float64 \<Rightarrow> string) \<Rightarrow> (perr \<Rightarrow> string) \<Rightarrow> policyInput \<Rightarrow> node \<Rightarrow> string \<rightharpoonup> string" where
  "collectFacts lb ff et i n = map_of (rev (facts_visit lb ff et i n))"

record ruleExplanation =
  reRuleID :: string
  reEffect :: effect
  reSeverity :: string
  reReason :: string
  reCondition :: string
  reFacts :: "string \<rightharpoonup> string"
  reRemediation :: string
  reReferences :: "string list"
  reWaived :: bool
  reWaiverReason :: string

record explanation =
  exPolicy :: string
  exDecision :: decisionType
  exSummary :: string
  exDenials :: "ruleExplanation list"
  exWarnings :: "ruleExplanation list"
  exWaived :: "ruleExplanation list"
  exRemediation :: "string list"
  exEvaluatedAt :: int

definition reasonOf :: "(rule_err \<Rightarrow> string) \<Rightarrow> ruleResult \<Rightarrow> rule \<Rightarrow> string" where
  "reasonOf rt rr r =
     (case rrError rr of
        Some e \<Rightarrow> ''rule evaluation failed (fail-closed): '' @ rt e
      | None \<Rightarrow> if rlMessage r \<noteq> [] then rlMessage r else rlDescription r)"

definition summarize :: "(string \<Rightarrow> string) \<Rightarrow> explanation \<Rightarrow> string" where
  "summarize qt ex =
     (if exDecision ex = DecisionDeny then
        ''DENIED by policy '' @ qt (exPolicy ex) @ '': '' @ fmt_int (int (length (exDenials ex))) @ '' rule(s) blocked admission''
      else if exDecision ex = DecisionWarn then
        ''ALLOWED WITH WARNINGS by policy '' @ qt (exPolicy ex) @ '': '' @ fmt_int (int (length (exWarnings ex))) @ '' warning(s)''
      else ''ALLOWED by policy '' @ qt (exPolicy ex))"

text \<open>
  The texts of the standard library an explanation prints: a float, an error of the evaluation
  and of a rule, a quoted string.
\<close>

record texts =
  txFloat :: "float64 \<Rightarrow> string"
  txErr :: "perr \<Rightarrow> string"
  txRuleErr :: "rule_err \<Rightarrow> string"
  txQuote :: "string \<Rightarrow> string"

text \<open>
  The rule of an id: the last compiled one, as the loop that fills the map leaves it. An id the
  engine does not have gives a rule without a tree, on which collecting the facts panics; that is
  \<open>None\<close>.
\<close>

definition byID :: "policyEngine \<Rightarrow> string \<rightharpoonup> compiledRule" where
  "byID e = map_of (rev (map (\<lambda>cr. (rlID (crRule cr), cr)) (enRules e)))"

definition explainRule :: "lib \<Rightarrow> texts \<Rightarrow> policyEngine \<Rightarrow> policyInput \<Rightarrow> ruleResult \<Rightarrow> ruleExplanation option" where
  "explainRule lb tx e i rr =
     (case byID e (rrRuleID rr) of
        None \<Rightarrow> None
      | Some cr \<Rightarrow> Some
          \<lparr> reRuleID = rrRuleID rr, reEffect = rrEffect rr, reSeverity = rrSeverity rr,
            reReason = reasonOf (txRuleErr tx) rr (crRule cr), reCondition = rlMatch (crRule cr),
            reFacts = collectFacts lb (txFloat tx) (txErr tx) i (crAst cr), reRemediation = rrRemediation rr,
            reReferences = rrReferences rr, reWaived = rrWaived rr, reWaiverReason = rrWaiverReason rr \<rparr>)"

fun map_option_list :: "('a \<Rightarrow> 'b option) \<Rightarrow> 'a list \<Rightarrow> 'b list option" where
  "map_option_list f [] = Some []"
| "map_option_list f (x # xs) =
     (case f x of None \<Rightarrow> None | Some y \<Rightarrow> (case map_option_list f xs of None \<Rightarrow> None | Some ys \<Rightarrow> Some (y # ys)))"

definition Explain :: "lib \<Rightarrow> texts \<Rightarrow> policyEngine \<Rightarrow> result \<Rightarrow> policyInput \<Rightarrow> explanation option" where
  "Explain lb tx e res i =
     (case (map_option_list (explainRule lb tx e i) (Denials res),
            map_option_list (explainRule lb tx e i) (Warnings res),
            map_option_list (explainRule lb tx e i) (WaivedRules res)) of
        (Some ds, Some ws, Some vs) \<Rightarrow>
          (let ex = \<lparr> exPolicy = rsPolicy res, exDecision = rsDecision res, exSummary = [], exDenials = ds,
                exWarnings = ws, exWaived = vs,
                exRemediation = sort_Strings (remdups (filter (\<lambda>r. r \<noteq> []) (map rrRemediation (Denials res)))),
                exEvaluatedAt = rsEvaluatedAt res \<rparr>
           in Some (ex\<lparr> exSummary := summarize (txQuote tx) ex \<rparr>))
      | _ \<Rightarrow> None)"

lemma map_option_list_total:
  "(\<And>x. x \<in> set xs \<Longrightarrow> \<exists>y. f x = Some y \<and> g y = h x) \<Longrightarrow>
     \<exists>ys. map_option_list f xs = Some ys \<and> map g ys = map h xs"
proof (induction xs)
  case (Cons x xs)
  obtain y where "f x = Some y" "g y = h x" using Cons.prems by force
  moreover obtain ys where "map_option_list f xs = Some ys" "map g ys = map h xs"
    using Cons.IH Cons.prems by auto
  ultimately show ?case by simp
qed simp

lemma byID_own:
  assumes "cr \<in> set (enRules e)"
  shows "\<exists>cr'. byID e (rlID (crRule cr)) = Some cr'"
proof (cases "byID e (rlID (crRule cr))")
  case None
  then show ?thesis using assms by (force simp: byID_def map_of_eq_None_iff)
qed simp

lemma explainRule_own:
  assumes "rr \<in> set (rsRules (Evaluate lb e i now))"
  shows "\<exists>x. explainRule lb tx e i rr = Some x \<and> (reRuleID x, reEffect x) = (rrRuleID rr, rrEffect rr)"
proof -
  obtain cr where cr: "cr \<in> set (enRules e)" "rrRuleID rr = rlID (crRule cr)"
    using assms by (auto simp: Evaluate_rules)
  from byID_own [OF cr(1)] obtain cr' where "byID e (rrRuleID rr) = Some cr'" using cr(2) by auto
  then show ?thesis by (simp add: explainRule_def)
qed

text \<open>
  explaining a decision never fails and never disagrees with it. For the result of an
  evaluation of the same engine there is an explanation; it carries the decision, and lists as
  denials, warnings and waived rules exactly those of the result, in order, so that it names a
  denial only when the decision blocks.
\<close>

theorem Explain_agrees:
  "\<exists>ex. Explain lb tx e (Evaluate lb e i now) i = Some ex
     \<and> exDecision ex = rsDecision (Evaluate lb e i now)
     \<and> map reRuleID (exDenials ex) = map rrRuleID (Denials (Evaluate lb e i now))
     \<and> map reRuleID (exWarnings ex) = map rrRuleID (Warnings (Evaluate lb e i now))
     \<and> map reRuleID (exWaived ex) = map rrRuleID (WaivedRules (Evaluate lb e i now))
     \<and> (exDenials ex = [] \<or> Blocks (exDecision ex))"
proof -
  let ?res = "Evaluate lb e i now" and ?f = "explainRule lb tx e i"
  have own: "\<exists>x. ?f rr = Some x \<and> reRuleID x = rrRuleID rr" if "rr \<in> set (rsRules ?res)" for rr
    using explainRule_own [OF that, of tx] by auto
  have sub: "set (Denials ?res) \<subseteq> set (rsRules ?res)" "set (Warnings ?res) \<subseteq> set (rsRules ?res)"
    "set (WaivedRules ?res) \<subseteq> set (rsRules ?res)"
    by (auto simp: Denials_def Warnings_def WaivedRules_def)
  obtain ds where ds: "map_option_list ?f (Denials ?res) = Some ds" "map reRuleID ds = map rrRuleID (Denials ?res)"
    using map_option_list_total [of "Denials ?res" ?f reRuleID rrRuleID] own sub by blast
  obtain ws where ws: "map_option_list ?f (Warnings ?res) = Some ws" "map reRuleID ws = map rrRuleID (Warnings ?res)"
    using map_option_list_total [of "Warnings ?res" ?f reRuleID rrRuleID] own sub by blast
  obtain vs where vs: "map_option_list ?f (WaivedRules ?res) = Some vs" "map reRuleID vs = map rrRuleID (WaivedRules ?res)"
    using map_option_list_total [of "WaivedRules ?res" ?f reRuleID rrRuleID] own sub by blast
  have "ds = [] \<or> Blocks (rsDecision ?res)"
    using ds(2) by (auto simp: Denials_def Blocks_def split: if_splits)
  then show ?thesis using ds ws vs by (simp add: Explain_def Let_def)
qed

end
