(* ===== verification/SupplyChain.thy ===== *)
theory SupplyChain
  imports VerifyModule PolicySuite
begin

text \<open>
  What a passing verdict of the verification module means, and how it reaches the policy
  gate: the findings of the module are the report from which \<^verbatim>\<open>InferAttestation\<close> derives the
  predicate \<^verbatim>\<open>signed\<close> of the policy language.
\<close>

subsection \<open>The verdict only fails\<close>

lemma v_add_failed [simp]: "vFailed (v_add v f) \<longleftrightarrow> vFailed v \<or> SeverityHigh \<le> fSeverity f"
  by (simp add: v_add_def Let_def)

lemma v_level_failed [simp]: "vFailed (v_level v l) = vFailed v"
  by (simp add: v_level_def)

lemma v_findings [simp]:
  "vFindings (v_add v f) = vFindings v @ [f]" "vFindings (v_level v l) = vFindings v"
  by (simp_all add: v_add_def v_level_def Let_def)

subsection \<open>Signatures\<close>

text \<open>The envelope is a trusted, allowed signature over a payload that commits to the digest.\<close>

definition image_signed :: "venv \<Rightarrow> resolved \<Rightarrow> string \<Rightarrow> envelope \<Rightarrow> bool" where
  "image_signed ev re digest env \<longleftrightarrow>
     (\<exists>payload ss tk v. DecodePayload env = Inr payload \<and> veDecodeImagePayload ev payload = Some ss
       \<and> SignedDigest ss = digest \<and> tk \<in> ran (reTrust re) \<and> policy_allows (rePolicy re) tk
       \<and> tkVerifier tk = Some v \<and> signed_by (veCrypto ev) env v payload)"

text \<open>What is known of the log: a proof is there when one is required, and it holds when there is a key to check it.\<close>

definition logged :: "venv \<Rightarrow> resolved \<Rightarrow> bundleEntry \<Rightarrow> envelope \<Rightarrow> bool" where
  "logged ev re e env \<longleftrightarrow> vcRequireTransparencyLog (reCfg re) \<longrightarrow>
     (\<exists>rec. beInclusion e = Some rec \<and>
       (\<forall>lv. reLogVer re = Some lv \<longrightarrow> VerifyInclusion (veCrypto ev) rec (veMarshalEnvelope ev env) lv = None))"

definition orders :: "venv \<Rightarrow> resolved \<Rightarrow> bool" where
  "orders ev re \<longleftrightarrow> (\<forall>env. ranges (reTrust re) (veOrder ev env))"

lemma checkInclusion_spec:
  assumes "checkInclusion ev re e env res v = (v', ok)"
  shows "vFailed v \<Longrightarrow> vFailed v'" and "ok \<Longrightarrow> logged ev re e env"
  using assms by (auto simp: checkInclusion_def logged_def split: option.splits if_splits)

lemma verify_signature_spec:
  assumes o: "orders ev re" and v: "verify_signature ev re digest res v e env = (v', ok)"
  shows "vFailed v \<Longrightarrow> vFailed v'" and "\<not> vFailed v' \<Longrightarrow> image_signed ev re digest env" and "ok \<Longrightarrow> logged ev re e env"
proof -
  obtain w logok where c: "checkInclusion ev re e env res v = (w, logok)"
    by (cases "checkInclusion ev re e env res v")
  note log = checkInclusion_spec [OF c]
  show "vFailed v \<Longrightarrow> vFailed v'" "ok \<Longrightarrow> logged ev re e env"
    using v c log by (cases logok; auto simp: verify_signature_def split: sum.splits if_splits)+
  assume nf: "\<not> vFailed v'"
  then obtain who payload ss where t: "trust_Verify (veCrypto ev) (veOrder ev env) env (rePolicy re) = Inr who"
    "DecodePayload env = Inr payload" "ParseImagePayload (veDecodeImagePayload ev) payload = Inr ss" "SignedDigest ss = digest"
    using v by (auto simp: verify_signature_def split: sum.splits if_splits)
  then have "veDecodeImagePayload ev payload = Some ss"
    by (auto simp: ParseImagePayload_def split: option.splits)
  moreover have "ranges (reTrust re) (veOrder ev env)" using o by (simp add: orders_def)
  ultimately show "image_signed ev re digest env"
    using t trust_Verify_Inr [OF _ t(1,2)] unfolding image_signed_def by blast
qed

definition sig_entry :: "bundleEntry \<Rightarrow> envelope \<Rightarrow> bool" where
  "sig_entry e env \<longleftrightarrow> beEnvelope e = Some env \<and> beKind e = KindSignature \<and> envPayloadType env = SimpleSigningMediaType"

lemma verifySignatures_spec:
  assumes "orders ev re" and "verifySignatures ev re digest res v n es = (v', n')"
  shows "(vFailed v \<longrightarrow> vFailed v') \<and> n \<le> n'
    \<and> (\<not> vFailed v' \<longrightarrow> (\<forall>e env. e \<in> set es \<and> sig_entry e env \<longrightarrow> image_signed ev re digest env))
    \<and> (n < n' \<longrightarrow> (\<exists>e env. e \<in> set es \<and> sig_entry e env \<and> logged ev re e env))"
  using assms(2)
proof (induction es arbitrary: v n)
  case (Cons e es)
  show ?case
  proof (cases "\<exists>env. sig_entry e env")
    case False
    then have "verifySignatures ev re digest res v n es = (v', n')"
      using Cons.prems by (auto simp: sig_entry_def split: option.splits if_splits)
    from Cons.IH [OF this] False show ?thesis by auto
  next
    case True
    then obtain env where env: "sig_entry e env" by blast
    obtain w ok where w: "verify_signature ev re digest res v e env = (w, ok)" by (cases "verify_signature ev re digest res v e env")
    have rest: "verifySignatures ev re digest res w (if ok then Suc n else n) es = (v', n')"
      using Cons.prems env w by (simp add: sig_entry_def)
    have uniq: "sig_entry e env' \<Longrightarrow> env' = env" for env' using env by (simp add: sig_entry_def)
    note IH = Cons.IH [OF rest] and step = verify_signature_spec [OF assms(1) w]
    have "\<not> vFailed v' \<longrightarrow> image_signed ev re digest env" using IH step(2) by blast
    moreover have "n < n' \<longrightarrow> (\<exists>e' env'. e' \<in> set (e # es) \<and> sig_entry e' env' \<and> logged ev re e' env')"
      using IH step(3) env by (cases ok) auto
    moreover have "n \<le> n'" using IH by (cases ok) auto
    ultimately show ?thesis using IH step(1) uniq by (metis set_ConsD)
  qed
qed simp

subsection \<open>Attestations\<close>

definition attest_entry :: "bundleEntry \<Rightarrow> envelope \<Rightarrow> bool" where
  "attest_entry e env \<longleftrightarrow> beEnvelope e = Some env \<and> beKind e = KindAttestation"

definition about :: "venv \<Rightarrow> resolved \<Rightarrow> string \<Rightarrow> envelope \<Rightarrow> string \<Rightarrow> bool" where
  "about ev re digest env pt \<longleftrightarrow>
     (\<exists>st. attested (veCrypto ev) (veDecodeStatement ev) (reTrust re) (rePolicy re) env digest st \<and> stPredicateType st = pt)"

lemma verify_attestation_spec:
  assumes o: "orders ev re" and v: "verify_attestation ev re digest res (v, seen) env = (v', seen')"
  shows "(vFailed v \<longrightarrow> vFailed v') \<and> (\<not> vFailed v' \<longrightarrow> (\<exists>pt. about ev re digest env pt))
    \<and> (\<forall>pt \<in> set seen'. pt \<in> set seen \<or> about ev re digest env pt)"
proof (cases "attest_Verify (veCrypto ev) (veDecodeStatement ev) (veOrder ev env) env
           \<lparr> rqExpectedDigest = digest, rqPredicateType = [], rqPolicy = rePolicy re \<rparr>")
  case (Inl err)
  then show ?thesis using v by (auto simp: verify_attestation_def)
next
  case (Inr r)
  have "ranges (reTrust re) (veOrder ev env)" using o by (simp add: orders_def)
  from attest_Verify_attested(1) [OF this Inr] have "about ev re digest env (stPredicateType (arStatement r))"
    unfolding about_def by auto
  then show ?thesis using v Inr by (auto simp: verify_attestation_def Let_def split: if_splits)
qed

lemma attestation_loop_spec:
  assumes "orders ev re" and "attestation_loop ev re digest res (v, seen) es = (v', seen')"
  shows "(vFailed v \<longrightarrow> vFailed v')
    \<and> (\<not> vFailed v' \<longrightarrow> (\<forall>e env. e \<in> set es \<and> attest_entry e env \<longrightarrow> (\<exists>pt. about ev re digest env pt)))
    \<and> (\<forall>pt \<in> set seen'. pt \<in> set seen \<or> (\<exists>e env. e \<in> set es \<and> attest_entry e env \<and> about ev re digest env pt))"
  using assms(2)
proof (induction es arbitrary: v seen)
  case (Cons e es)
  show ?case
  proof (cases "\<exists>env. attest_entry e env")
    case False
    then have "attestation_loop ev re digest res (v, seen) es = (v', seen')"
      using Cons.prems by (auto simp: attest_entry_def split: option.splits if_splits)
    from Cons.IH [OF this] False show ?thesis by (metis list.set_intros(2) set_ConsD)
  next
    case True
    then obtain env where env: "attest_entry e env" by blast
    obtain w s where w: "verify_attestation ev re digest res (v, seen) env = (w, s)"
      by (cases "verify_attestation ev re digest res (v, seen) env")
    have rest: "attestation_loop ev re digest res (w, s) es = (v', seen')"
      using Cons.prems env w by (simp add: attest_entry_def)
    have uniq: "attest_entry e env' \<Longrightarrow> env' = env" for env' using env by (simp add: attest_entry_def)
    note IH = Cons.IH [OF rest] and step = verify_attestation_spec [OF assms(1) w]
    have "\<not> vFailed v' \<longrightarrow> (\<exists>pt. about ev re digest env pt)" using IH step by blast
    moreover have "\<forall>pt \<in> set seen'. pt \<in> set seen \<or> (\<exists>e' env'. e' \<in> set (e # es) \<and> attest_entry e' env' \<and> about ev re digest env' pt)"
      using IH step env by (metis list.set_intros)
    ultimately show ?thesis using IH step uniq by (metis set_ConsD)
  qed
qed simp

lemma require_loop_spec:
  "\<not> vFailed (require_loop res seen v wants) \<Longrightarrow> \<not> vFailed v \<and> set wants \<subseteq> set seen"
proof (induction wants arbitrary: v)
  case (Cons w wants)
  show ?case
  proof (cases "w \<in> set seen")
    case False
    then have "\<not> vFailed (v_add v (f_attestMissing w res))"
      using Cons.prems Cons.IH [of "v_add v (f_attestMissing w res)"] by simp
    then show ?thesis by simp
  qed (use Cons in simp)
qed simp

subsection \<open>Soundness of a passing verdict\<close>

text \<open>The digest the checks are bound to.\<close>

definition subject_of :: "sigBundle \<Rightarrow> string \<Rightarrow> string" where
  "subject_of b imageDigest = (if imageDigest = [] then buSubjectDigest b else imageDigest)"

definition well_signed :: "venv \<Rightarrow> resolved \<Rightarrow> sigBundle \<Rightarrow> string \<Rightarrow> bool" where
  "well_signed ev re b imageDigest \<longleftrightarrow>
     (imageDigest = [] \<or> buSubjectDigest b = imageDigest)
   \<and> (\<exists>e env. e \<in> set (buEntries b) \<and> sig_entry e env \<and> logged ev re e env)
   \<and> (\<forall>e env. e \<in> set (buEntries b) \<and> sig_entry e env \<longrightarrow> image_signed ev re (subject_of b imageDigest) env)
   \<and> (\<forall>e env. e \<in> set (buEntries b) \<and> attest_entry e env \<longrightarrow> (\<exists>pt. about ev re (subject_of b imageDigest) env pt))
   \<and> (\<forall>pt \<in> set (vcRequireAttestations (reCfg re)).
        \<exists>e env. e \<in> set (buEntries b) \<and> attest_entry e env \<and> about ev re (subject_of b imageDigest) env pt)"

lemma verifyBundle_well_signed:
  assumes o: "orders ev re" and ne: "dom (reTrust re) \<noteq> {}" and nf: "\<not> vFailed (verifyBundle ev re b imageDigest res)"
  shows "well_signed ev re b imageDigest"
proof -
  let ?d = "subject_of b imageDigest"
  let ?v1 = "if imageDigest \<noteq> [] \<and> buSubjectDigest b \<noteq> imageDigest then v_add v0 (f_otherBundle b imageDigest res) else v0"
  obtain v2 n where v2: "verifySignatures ev re ?d res ?v1 0 (buEntries b) = (v2, n)"
    by (cases "verifySignatures ev re ?d res ?v1 0 (buEntries b)")
  let ?v3 = "if n = 0 then v_add v2 (f_unsigned res) else v_level v2 ''SIGNED''"
  obtain v4 seen where v4: "attestation_loop ev re ?d res (?v3, []) (buEntries b) = (v4, seen)"
    by (cases "attestation_loop ev re ?d res (?v3, []) (buEntries b)")
  have "verifyBundle ev re b imageDigest res = require_loop res seen v4 (vcRequireAttestations (reCfg re))"
    using ne v2 v4 unfolding verifyBundle_def verifyAttestations_def subject_of_def Let_def by simp
  then have r: "\<not> vFailed v4" "set (vcRequireAttestations (reCfg re)) \<subseteq> set seen"
    using require_loop_spec nf by metis+
  note al = attestation_loop_spec [OF o v4] and sl = verifySignatures_spec [OF o v2]
  have "\<not> vFailed ?v3" using al r(1) by blast
  then have n: "\<not> vFailed v2" "0 < n" by (auto split: if_splits)
  then have "\<not> vFailed ?v1" using sl by blast
  then have "imageDigest = [] \<or> buSubjectDigest b = imageDigest" by (auto split: if_splits)
  moreover have "\<forall>pt \<in> set (vcRequireAttestations (reCfg re)).
      \<exists>e env. e \<in> set (buEntries b) \<and> attest_entry e env \<and> about ev re ?d env pt"
    using al r(2) by auto
  ultimately show ?thesis unfolding well_signed_def using sl al r(1) n by auto
qed

text \<open>
  C2: what a passing verdict means. With a trust root that is not empty, if the verification of
  a bundle does not fail then the bundle is about the image under test; it has at least one
  signature, logged as required; every signature entry in it is made by a trusted key the policy
  allows, over a payload that commits to this image's digest; every attestation in it is a
  trusted statement about this digest; and every attestation type the configuration requires is
  among them.
\<close>

theorem verifyBundle_sound:
  assumes "orders ev re" and "dom (reTrust re) \<noteq> {}" and "\<not> vFailed (verifyBundle ev re b imageDigest res)"
  shows "well_signed ev re b imageDigest"
  by (rule verifyBundle_well_signed [OF assms])

definition key1 :: trustedKey where
  "key1 = \<lparr> tkVerifier = Some (Ed25519Verifier ''k'' ''id''), tkIdentity = ''ci'', tkIssuer = [] \<rparr>"

definition payload1 :: simpleSigning where
  "payload1 = \<lparr> ssDockerReference = ''app'', ssDockerManifestDigest = zeroDigest, ssType = criticalTypeImageSig, ssOptional = [] \<rparr>"

definition env1 :: envelope where
  "env1 = \<lparr> envPayload = b64_encode ''p'', envPayloadType = SimpleSigningMediaType,
     envSignatures = [\<lparr> sigKeyID = ''id'', sigSig = b64_encode (''k'' @ pae SimpleSigningMediaType ''p'') \<rparr>] \<rparr>"

definition ev1 :: venv where
  "ev1 = \<lparr> veCrypto = crypto0, veOrder = (\<lambda>e. [key1]), veMarshalEnvelope = envPayload,
     veDecodeImagePayload = (\<lambda>b. Some payload1), veDecodeStatement = (\<lambda>b. None),
     veDecodeAction = (\<lambda>b. \<lparr> aaAgentID = [], aaAgentModel = [], aaAgentVersion = [], aaPromptSHA256 = [],
       aaPromptSummary = [], aaActionType = [], aaActionTool = [], aaActionTarget = [] \<rparr>),
     veErrText = (\<lambda>e. []), veQuote = (\<lambda>s. s) \<rparr>"

definition cfg1 :: verifyConfig where
  "cfg1 = \<lparr> vcTrust = \<lparr> tcKeys = [], tcPolicy = \<lparr> poIdentities = [], poIssuers = [] \<rparr> \<rparr>, vcLogPublicKeyPEM = [],
     vcRequireAttestations = [], vcRequireTransparencyLog = False, vcEnableAgentActions = False \<rparr>"

definition re1 :: resolved where
  "re1 = \<lparr> reTrust = [''id'' \<mapsto> key1], rePolicy = \<lparr> poIdentities = [''ci''], poIssuers = [] \<rparr>, reLogVer = None, reCfg = cfg1 \<rparr>"

definition bundle1 :: sigBundle where
  "bundle1 = \<lparr> buMediaType = BundleMediaType, buSubjectDigest = zeroDigest,
     buEntries = [\<lparr> beKind = KindSignature, beEnvelope = Some env1, beInclusion = None \<rparr>] \<rparr>"

lemma bundle1_passes: "orders ev1 re1" "dom (reTrust re1) \<noteq> {}" "\<not> vFailed (verifyBundle ev1 re1 bundle1 zeroDigest res)"
proof -
  show "orders ev1 re1"
    by (auto simp: orders_def ranges_def ev1_def re1_def intro!: exI [of _ "[''id'']"])
  show ne: "dom (reTrust re1) \<noteq> {}" by (simp add: re1_def)
  have pl: "DecodePayload env1 = Inr ''p''"
    by (simp only: DecodePayload_def env1_def envelope.simps b64_roundtrip option.case)
  have "VerifyWith crypto0 env1 (Ed25519Verifier ''k'' ''id'') = None"
    using pl by (simp add: VerifyWith_def) (simp add: env1_def crypto0_def)
  then have tv: "trust_Verify crypto0 [key1] env1 (rePolicy re1) = Inr \<lparr> vrKeyID = ''id'', vrIdentity = ''ci'', vrIssuer = [] \<rparr>"
    by (simp add: trust_Verify_def key1_def re1_def policy_allows_def)
  have vd: "validateDigest zeroDigest = None" by code_simp
  have inc: "checkInclusion ev1 re1 \<lparr> beKind = KindSignature, beEnvelope = Some env1, beInclusion = None \<rparr> env1 res v0 = (v0, True)"
    by (simp add: checkInclusion_def re1_def cfg1_def)
  have "\<exists>w. verify_signature ev1 re1 zeroDigest res v0 \<lparr> beKind = KindSignature, beEnvelope = Some env1, beInclusion = None \<rparr> env1 = (w, True)
      \<and> \<not> vFailed w"
    using tv pl vd inc by (simp add: verify_signature_def ParseImagePayload_def SignedDigest_def ev1_def payload1_def) (simp add: v0_def)
  moreover have "KindSignature \<noteq> KindAttestation" by code_simp
  moreover have "envPayloadType env1 = SimpleSigningMediaType" by (simp add: env1_def)
  moreover have "zeroDigest \<noteq> []" by (simp add: zeroDigest_def)
  ultimately show "\<not> vFailed (verifyBundle ev1 re1 bundle1 zeroDigest res)"
    using ne by (auto simp: verifyBundle_def bundle1_def verifyAttestations_def re1_def cfg1_def)
qed

theorem verifyBundle_sound_witness: "well_signed ev1 re1 bundle1 zeroDigest"
  by (rule verifyBundle_sound [OF bundle1_passes])

subsection \<open>From the verdict to the policy\<close>

lemma finding_metadata [simp]:
  "fMetadata (findingWithMeta rl sev ttl desc res rem md) = md"
  "fMetadata (mkFinding rl sev ttl desc res rem) = []"
  by (simp_all add: mkFinding_def findingWithMeta_def)

lemma findings_metadata:
  "fMetadata (f_noProof res) = []" "fMetadata (f_noLogKey res) = []"
  "fMetadata (f_proofFailed ev e res) = []" "fMetadata (f_unreadable ev e res) = []"
  "fMetadata (f_malformed ev e res) = []" "fMetadata (f_otherDigest ss d res) = []"
  "fMetadata (f_sigVerified ev who d res) = [(''keyid'', vrKeyID who), (''identity'', vrIdentity who), (''digest'', d)]"
  "fMetadata (f_attestVerified ev r pt res) = [(''predicate_type'', pt), (''identity'', vrIdentity (arSigner r))]"
  "fMetadata (f_attestMissing pt res) = []" "fMetadata (f_noKeys res) = []"
  "fMetadata (f_otherBundle b d res) = []" "fMetadata (f_unsigned res) = []"
  "fMetadata (signatureError ev err res) = []" "fMetadata (attestationError ev aerr res) = []"
  by (simp_all only: f_noProof_def f_noLogKey_def f_proofFailed_def f_unreadable_def f_malformed_def f_otherDigest_def
      f_sigVerified_def f_attestVerified_def f_attestMissing_def f_noKeys_def f_otherBundle_def f_unsigned_def
      signatureError_def attestationError_def finding_metadata if_distrib [of fMetadata] if_cancel)

lemma passes_metadata: "passes f \<Longrightarrow> map_of (fMetadata f) ''verdict'' = Some ''PASSED''"
  by (auto simp: passes_def md_get_def split: option.splits)

lemma not_passing [simp]:
  "\<not> passes (f_noProof res)" "\<not> passes (f_noLogKey res)" "\<not> passes (f_proofFailed ev e res)" "\<not> passes (f_unreadable ev e res)"
  "\<not> passes (f_malformed ev e res)" "\<not> passes (f_otherDigest ss d res)" "\<not> passes (f_sigVerified ev who d res)"
  "\<not> passes (f_attestVerified ev r pt res)" "\<not> passes (f_attestMissing pt res)" "\<not> passes (f_noKeys res)"
  "\<not> passes (f_otherBundle b d res)" "\<not> passes (f_unsigned res)" "\<not> passes (signatureError ev err res)"
  "\<not> passes (attestationError ev aerr res)"
  by (auto simp: findings_metadata dest!: passes_metadata)

lemma agent_not_passing [simp]: "\<not> passes (agentActionFinding ev r res)"
proof
  assume "passes (agentActionFinding ev r res)"
  from passes_metadata [OF this] show False by (simp only: agentActionFinding_def Let_def finding_metadata) simp
qed

definition quiet :: "verdict \<Rightarrow> bool" where
  "quiet v \<longleftrightarrow> (\<forall>f \<in> set (vFindings v). \<not> passes f)"

lemma quiet_simps [simp]:
  "quiet v0" "quiet (v_add v f) \<longleftrightarrow> quiet v \<and> \<not> passes f" "quiet (v_level v l) = quiet v"
  by (auto simp: quiet_def v0_def)

lemma checkInclusion_quiet: "quiet v \<Longrightarrow> quiet (fst (checkInclusion ev re e env res v))"
  by (auto simp: checkInclusion_def split: option.splits)

lemma verify_signature_quiet: "quiet v \<Longrightarrow> quiet (fst (verify_signature ev re d res v e env))"
  using checkInclusion_quiet [of v ev re e env res]
  by (cases "checkInclusion ev re e env res v"; cases "snd (checkInclusion ev re e env res v)")
    (auto simp: verify_signature_def split: sum.splits)

lemma verifySignatures_quiet: "quiet v \<Longrightarrow> quiet (fst (verifySignatures ev re d res v n es))"
proof (induction es arbitrary: v n)
  case (Cons e es)
  show ?case
    using Cons.IH Cons.prems verify_signature_quiet
    by (auto split: option.splits prod.splits) (metis fst_conv)+
qed simp

lemma verify_attestation_quiet: "quiet (fst vs) \<Longrightarrow> quiet (fst (verify_attestation ev re d res vs env))"
  by (auto simp: verify_attestation_def Let_def split: sum.splits prod.splits)

lemma attestation_loop_quiet: "quiet (fst vs) \<Longrightarrow> quiet (fst (attestation_loop ev re d res vs es))"
  by (induction es arbitrary: vs) (auto split: option.splits simp: verify_attestation_quiet)

lemma require_loop_quiet: "quiet v \<Longrightarrow> quiet (require_loop res seen v wants)"
  by (induction wants arbitrary: v) auto

lemma verifyAttestations_quiet: "quiet v \<Longrightarrow> quiet (verifyAttestations ev re d res v es)"
  using attestation_loop_quiet [of "(v, [])" ev re d res es]
  by (auto simp: verifyAttestations_def require_loop_quiet split: prod.splits)

lemma verifyBundle_quiet: "quiet (verifyBundle ev re b dg res)"
proof -
  let ?v1 = "if dg \<noteq> [] \<and> buSubjectDigest b \<noteq> dg then v_add v0 (f_otherBundle b dg res) else v0"
  let ?d = "if dg = [] then buSubjectDigest b else dg"
  have "quiet (fst (verifySignatures ev re ?d res ?v1 0 (buEntries b)))"
    by (intro verifySignatures_quiet) simp
  then have "quiet (verifyAttestations ev re ?d res
      (if n = 0 then v_add v2 (f_unsigned res) else v_level v2 ''SIGNED'') (buEntries b))"
    if "verifySignatures ev re ?d res ?v1 0 (buEntries b) = (v2, n)" for v2 n
    using that by (intro verifyAttestations_quiet) simp
  note att = this
  show ?thesis
  proof (cases "dom (reTrust re) = {}")
    case True
    then show ?thesis unfolding verifyBundle_def by (simp only: if_True) simp
  next
    case False
    obtain v2 n where vs: "verifySignatures ev re ?d res ?v1 0 (buEntries b) = (v2, n)" by (rule prod.exhaust)
    show ?thesis unfolding verifyBundle_def Let_def vs prod.case using att [OF vs] False by (simp only: if_False)
  qed
qed

lemma verdict_passes: "passes (verdictFinding v res dg) \<longleftrightarrow> \<not> vFailed v"
proof -
  have r: "fRuleID (verdictFinding v res dg) = ruleVerdict" by (simp add: verdictFinding_def findingWithMeta_def Let_def)
  have m: "md_get (fMetadata (verdictFinding v res dg)) ''verdict'' = (if vFailed v then ''FAILED'' else ''PASSED'')"
    unfolding verdictFinding_def Let_def finding_metadata by (simp add: md_get_def)
  have p: "strings_HasPrefix ruleVerdict ''DS-RAT-SUP-''" by code_simp
  show ?thesis using p unfolding passes_def r m by simp
qed

lemma verdict_signed:
  "saIsSigned (InferAttestation (vFindings (v_add (verifyBundle ev re b dg res) (verdictFinding (verifyBundle ev re b dg res) res' dg'))))
     \<longleftrightarrow> \<not> vFailed (verifyBundle ev re b dg res)"
  using verifyBundle_quiet [of ev re b dg res] by (auto simp: InferAttestation_signed verdict_passes quiet_def)

lemma signed_variable:
  "eval rx (i\<lparr> inAttest := Some (staticState att) \<rparr>) (IdentNode ''signed'') = Inr (VBool (saIsSigned att))"
  by (simp add: variables_def attestOf_def staticState_def Static_Signed_def)

lemma notConfigured_quiet: "\<not> saIsSigned (InferAttestation [f_noInput res])"
proof -
  have "fMetadata (f_noInput res) = []" by (simp only: f_noInput_def finding_metadata)
  then have "\<not> passes (f_noInput res)" by (auto dest!: passes_metadata)
  then show ?thesis by (simp add: InferAttestation_signed)
qed

text \<open>
  C3: the predicate \<open>signed\<close> of the policy language is earned. Take the findings of the
  verification module, with a trust root that is not empty, as the report the gate infers the
  attestation state from: if \<open>signed\<close> then evaluates to true, there was a bundle and it is well
  signed for the image under test.
\<close>

theorem policy_signed_sound:
  assumes "orders ev re" and "dom (reTrust re) \<noteq> {}"
    and "Analyze ev haveCfg re bo dg loc = Some fs"
    and "eval rx (i\<lparr> inAttest := Some (staticState (InferAttestation fs)) \<rparr>) (IdentNode ''signed'') = Inr (VBool True)"
  shows "\<exists>b. bo = Some b \<and> well_signed ev re b dg"
proof -
  have sgd: "saIsSigned (InferAttestation fs)" using assms(4) by (simp only: signed_variable) simp
  show ?thesis
  proof (cases bo)
    case (Some b)
    have "\<exists>res. fs = vFindings (v_add (verifyBundle ev re b dg res) (verdictFinding (verifyBundle ev re b dg res) res dg))"
      using assms(3) Some unfolding Analyze_def Let_def by auto
    then obtain res where "\<not> vFailed (verifyBundle ev re b dg res)" using sgd by (metis verdict_signed)
    then show ?thesis using verifyBundle_well_signed [OF assms(1,2)] Some by blast
  next
    case None
    show ?thesis
    proof (cases haveCfg)
      case False
      then have "\<exists>res. fs = [f_noInput res]"
        using assms(3) None unfolding Analyze_def Let_def by (auto split del: if_split)
      then show ?thesis using sgd notConfigured_quiet by blast
    next
      case True
      let ?dg = "if dg = [] then zeroDigest else dg"
      obtain bu where bu: "NewBundle ?dg = Inr bu"
        using assms(3) None True unfolding Analyze_def Let_def by (auto split: sum.splits)
      then have "\<exists>res. fs = vFindings (v_add (verifyBundle ev re bu ?dg res) (verdictFinding (verifyBundle ev re bu ?dg res) res ?dg))"
        using assms(3) None True unfolding Analyze_def Let_def by auto
      then obtain res where "\<not> vFailed (verifyBundle ev re bu ?dg res)" using sgd by (metis verdict_signed)
      then have "well_signed ev re bu ?dg" by (rule verifyBundle_well_signed [OF assms(1,2)])
      moreover have "buEntries bu = []" using bu by (auto simp: NewBundle_def split: option.splits)
      ultimately show ?thesis by (simp add: well_signed_def)
    qed
  qed
qed

theorem policy_signed_sound_witness:
  "\<exists>fs. Analyze ev1 True re1 (Some bundle1) zeroDigest ''app'' = Some fs
     \<and> eval (\<lambda>p. None) (emptyInput\<lparr> inAttest := Some (staticState (InferAttestation fs)) \<rparr>) (IdentNode ''signed'') = Inr (VBool True)
     \<and> well_signed ev1 re1 bundle1 zeroDigest"
proof -
  obtain fs res where fs: "Analyze ev1 True re1 (Some bundle1) zeroDigest ''app'' = Some fs"
    "fs = vFindings (v_add (verifyBundle ev1 re1 bundle1 zeroDigest res)
       (verdictFinding (verifyBundle ev1 re1 bundle1 zeroDigest res) res zeroDigest))"
    unfolding Analyze_def Let_def by auto
  then have "saIsSigned (InferAttestation fs)" using bundle1_passes(3) by (metis verdict_signed)
  then have s: "eval (\<lambda>p. None) (emptyInput\<lparr> inAttest := Some (staticState (InferAttestation fs)) \<rparr>) (IdentNode ''signed'') = Inr (VBool True)"
    by (simp only: signed_variable)
  from policy_signed_sound [OF bundle1_passes(1,2) fs(1) s] show ?thesis using fs(1) s by auto
qed

text \<open>
  without trusted keys the predicate is not earned. With an empty trust root the module
  verifies nothing, yet its verdict is PASSED, so for every bundle whatsoever the policy
  predicate \<open>signed\<close> is true.
\<close>

theorem empty_trust_signed:
  assumes "dom (reTrust re) = {}"
  shows "\<exists>fs. Analyze ev haveCfg re (Some b) dg loc = Some fs
    \<and> eval rx (i\<lparr> inAttest := Some (staticState (InferAttestation fs)) \<rparr>) (IdentNode ''signed'') = Inr (VBool True)"
proof -
  have "\<not> vFailed (verifyBundle ev re b dg res)" for res
    using assms by (simp add: verifyBundle_def v0_def)
  then show ?thesis unfolding Analyze_def Let_def signed_variable by (auto simp only: option.case simp_thms verdict_signed intro!: exI)
qed

theorem empty_trust_signed_witness:
  "\<exists>fs. Analyze ev1 False (re1\<lparr> reTrust := NewTrustRoot \<rparr>) (Some (bundle1\<lparr> buEntries := [] \<rparr>)) zeroDigest ''app'' = Some fs
     \<and> eval (\<lambda>p. None) (emptyInput\<lparr> inAttest := Some (staticState (InferAttestation fs)) \<rparr>) (IdentNode ''signed'') = Inr (VBool True)"
  by (rule empty_trust_signed) (simp add: NewTrustRoot_def)

text \<open>
  A required inclusion proof is not checked when no log key is configured: any record lets the
  signature count.
\<close>

theorem unchecked_proof_counts:
  "reLogVer re = None \<Longrightarrow> beInclusion e = Some rec \<Longrightarrow> snd (checkInclusion ev re e env res v)"
  by (simp add: checkInclusion_def)

end
