(* ===== verification/GoData.thy ===== *)
theory GoData
  imports SortSlice
begin

text \<open>
  Go maps, sets and formatting, as the analysis packages use them. A map that is iterated is an
  association list with distinct keys whose order stands for the iteration order, which Go
  leaves open: \<open>kv_put\<close> is an assignment, \<open>map_of\<close> a read. A \<^verbatim>\<open>map[string]struct{}\<close> or
  \<^verbatim>\<open>map[string]bool\<close> that only grows is a list without repetitions. \<open>dedupe_by\<close> is the loop over a
  \<^verbatim>\<open>seen\<close> set that the code writes wherever it removes duplicates. \<open>fmt_q\<close> is \<^verbatim>\<open>%q\<close> on ASCII text;
  bytes of 128 and more are taken as parts of printable characters and left alone.
\<close>

subsection \<open>Maps\<close>

fun kv_put :: "'k \<Rightarrow> 'v \<Rightarrow> ('k \<times> 'v) list \<Rightarrow> ('k \<times> 'v) list" where
  "kv_put k v [] = [(k, v)]"
| "kv_put k v ((k', v') # m) = (if k' = k then (k, v) # m else (k', v') # kv_put k v m)"

lemma map_of_kv_put [simp]: "map_of (kv_put k v m) = (map_of m)(k \<mapsto> v)"
  by (induction m) auto

lemma fst_kv_put [simp]: "fst ` set (kv_put k v m) = insert k (fst ` set m)"
  by (induction k v m rule: kv_put.induct) (simp_all add: insert_commute)

lemma distinct_kv_put [simp]: "distinct (map fst m) \<Longrightarrow> distinct (map fst (kv_put k v m))"
  by (induction m) auto

text \<open>
  What a client needs of a map: an assignment is read back, does not touch the other keys and
  keeps the keys apart.
\<close>

locale go_map =
  fixes get :: "'m \<Rightarrow> 'k \<Rightarrow> 'v option"
    and put :: "'k \<Rightarrow> 'v \<Rightarrow> 'm \<Rightarrow> 'm"
    and nil :: 'm
  assumes get_nil: "get nil k = None"
    and get_put: "get (put k v m) k' = (if k' = k then Some v else get m k')"
begin

fun put_all :: "('a \<Rightarrow> 'k) \<Rightarrow> ('a \<Rightarrow> 'v) \<Rightarrow> 'a list \<Rightarrow> 'm \<Rightarrow> 'm" where
  "put_all kf vf [] m = m"
| "put_all kf vf (x # xs) m = put_all kf vf xs (put (kf x) (vf x) m)"

text \<open>After a loop of assignments a key holds what the last one wrote to it.\<close>

lemma get_put_all:
  "get (put_all kf vf xs m) k
     = (case filter (\<lambda>x. kf x = k) (rev xs) of [] \<Rightarrow> get m k | x # _ \<Rightarrow> Some (vf x))"
proof (induction xs arbitrary: m)
  case Nil
  then show ?case by simp
next
  case (Cons x xs)
  then show ?case by (cases "filter (\<lambda>x. kf x = k) (rev xs)") (auto simp: get_put)
qed

lemma get_put_all_dom:
  "get (put_all kf vf xs nil) k \<noteq> None \<longleftrightarrow> (\<exists>x \<in> set xs. kf x = k)"
proof -
  have "get (put_all kf vf xs nil) k \<noteq> None \<longleftrightarrow> filter (\<lambda>x. kf x = k) (rev xs) \<noteq> []"
    by (simp add: get_put_all get_nil split: list.splits)
  then show ?thesis by (auto simp: filter_empty_conv)
qed

end

interpretation kv: go_map map_of kv_put "[]"
  by unfold_locales auto

lemma keys_put_all: "fst ` set (kv.put_all kf vf xs m) = fst ` set m \<union> kf ` set xs"
  by (induction xs arbitrary: m) auto

lemma distinct_put_all: "distinct (map fst m) \<Longrightarrow> distinct (map fst (kv.put_all kf vf xs m))"
  by (induction xs arbitrary: m) auto

lemma set_kv_put: "set (kv_put k v m) \<subseteq> insert (k, v) (set m)"
  by (induction k v m rule: kv_put.induct) auto

lemma set_put_all: "set (kv.put_all kf vf xs m) \<subseteq> set m \<union> (\<lambda>x. (kf x, vf x)) ` set xs"
proof (induction xs arbitrary: m)
  case (Cons x xs)
  then show ?case using set_kv_put [of "kf x" "vf x" m] by fastforce
qed simp

text \<open>Reading a map of strings: the zero value when the key is not there.\<close>

definition kv_str :: "('k \<times> string) list \<Rightarrow> 'k \<Rightarrow> string" where
  "kv_str m k = (case map_of m k of None \<Rightarrow> [] | Some v \<Rightarrow> v)"

subsection \<open>Sets and duplicates\<close>

definition set_put :: "'a \<Rightarrow> 'a list \<Rightarrow> 'a list" where
  "set_put x xs = (if x \<in> set xs then xs else xs @ [x])"

lemma set_set_put [simp]: "set (set_put x xs) = insert x (set xs)"
  by (auto simp: set_put_def)

lemma distinct_set_put [simp]: "distinct (set_put x xs) = distinct xs"
  by (auto simp: set_put_def)

definition set_puts :: "'a list \<Rightarrow> 'a list \<Rightarrow> 'a list" where
  "set_puts ys xs = fold set_put ys xs"

lemma set_set_puts [simp]: "set (set_puts ys xs) = set ys \<union> set xs"
  unfolding set_puts_def by (induction ys arbitrary: xs) auto

lemma distinct_set_puts [simp]: "distinct (set_puts ys xs) = distinct xs"
  unfolding set_puts_def by (induction ys arbitrary: xs) auto

fun dedupe_by :: "('a \<Rightarrow> 'k) \<Rightarrow> 'k list \<Rightarrow> 'a list \<Rightarrow> 'a list" where
  "dedupe_by f seen [] = []"
| "dedupe_by f seen (x # xs) = (if f x \<in> set seen then dedupe_by f seen xs else x # dedupe_by f (f x # seen) xs)"

lemma dedupe_by_subset: "set (dedupe_by f seen xs) \<subseteq> set xs"
  by (induction f seen xs rule: dedupe_by.induct) auto

lemma dedupe_by_keys: "f ` set (dedupe_by f seen xs) = f ` set xs - set seen"
  by (induction f seen xs rule: dedupe_by.induct) auto

lemma dedupe_by_distinct: "distinct (map f (dedupe_by f seen xs))"
proof (induction f seen xs rule: dedupe_by.induct)
  case (2 f seen x xs)
  have "f x \<notin> f ` set (dedupe_by f (f x # seen) xs)"
    by (simp add: dedupe_by_keys)
  with 2 show ?case by simp
qed simp

lemma dedupe_by_id: "set (dedupe_by id seen xs) = set xs - set seen"
  using dedupe_by_keys [of id seen xs] by simp

lemma dedupe_by_represented: "x \<in> set xs \<Longrightarrow> \<exists>y \<in> set (dedupe_by f [] xs). f y = f x"
  using dedupe_by_keys [of f "[]" xs] by (metis Diff_empty imageE image_eqI list.set(1))

subsection \<open>Sorted sets of strings\<close>

text \<open>Collecting the keys of a map and sorting them.\<close>

definition sorted_set :: "string list \<Rightarrow> string list" where
  "sorted_set xs = sort_Strings (dedupe_by id [] xs)"

lemma set_sorted_set [simp]: "set (sorted_set xs) = set xs"
  by (simp add: sorted_set_def dedupe_by_id)

lemma distinct_sorted_set [simp]: "distinct (sorted_set xs)"
  using dedupe_by_distinct [of id "[]" xs] by (simp add: sorted_set_def sort_Strings_distinct)

lemma sorted_set_cong: "set xs = set ys \<Longrightarrow> sorted_set xs = sorted_set ys"
proof -
  assume "set xs = set ys"
  then have "set (dedupe_by id [] xs) = set (dedupe_by id [] ys)"
    by (simp add: dedupe_by_id)
  moreover have "distinct (dedupe_by id [] zs)" for zs :: "string list"
    using dedupe_by_distinct [of id "[]" zs] by simp
  ultimately have "mset (dedupe_by id [] xs) = mset (dedupe_by id [] ys)"
    using set_eq_iff_mset_eq_distinct by blast
  then show ?thesis unfolding sorted_set_def by (rule sort_Strings_canonical)
qed

subsection \<open>Formatting\<close>

definition hexDigitLower :: "nat \<Rightarrow> char" where
  "hexDigitLower n = (if n < 10 then char_of (48 + n) else char_of (87 + n))"

definition quoteByte :: "char \<Rightarrow> string" where
  "quoteByte c =
     (if byte c = 34 then [CHR 0x5C, CHR 0x22] else if byte c = 92 then [CHR 0x5C, CHR 0x5C]
      else if byte c = 7 then [CHR 0x5C, CHR ''a''] else if byte c = 8 then [CHR 0x5C, CHR ''b'']
      else if byte c = 12 then [CHR 0x5C, CHR ''f''] else if byte c = 10 then [CHR 0x5C, CHR ''n'']
      else if byte c = 13 then [CHR 0x5C, CHR ''r''] else if byte c = 9 then [CHR 0x5C, CHR ''t'']
      else if byte c = 11 then [CHR 0x5C, CHR ''v'']
      else if byte c < 32 \<or> byte c = 127
        then [CHR 0x5C, CHR ''x'', hexDigitLower (byte c div 16), hexDigitLower (byte c mod 16)]
      else [c])"

definition fmt_q :: "string \<Rightarrow> string" where
  "fmt_q s = CHR 0x22 # concat (map quoteByte s) @ [CHR 0x22]"

definition fmt_t :: "bool \<Rightarrow> string" where
  "fmt_t b = (if b then ''true'' else ''false'')"

text \<open>UTF-8 of the arrows, the section sign and the dashes in the messages.\<close>

definition arrow :: string where "arrow = [CHR 0xE2, CHR 0x86, CHR 0x92]"
definition darrow :: string where "darrow = [CHR 0xE2, CHR 0x87, CHR 0x92]"
definition emdash :: string where "emdash = [CHR 0xE2, CHR 0x80, CHR 0x94]"
definition section_sign :: string where "section_sign = [CHR 0xC2, CHR 0xA7]"

end
