(* ===== verification/RbacGraph.thy ===== *)
theory RbacGraph
  imports GoData EngineModel
begin

text \<open>
  The RBAC model and permission graph of \<^verbatim>\<open>internal/rbac\<close>: \<^verbatim>\<open>model.go\<close> and \<^verbatim>\<open>graph.go\<close>. A
  pointer to a role or service account that is shared is the record itself, as nothing
  is written after parsing; nil is \<open>None\<close>. The graph's back pointer to the cluster, which nothing reads, is left out. \<^verbatim>\<open>sort.Slice\<close>, which is not stable, is modelled by the
  stable sort: where it is used on keys that can repeat, no lemma depends on the order of equal
  elements.
\<close>

subsection \<open>The model\<close>

record policyRule =
  prAPIGroups :: "string list"
  prResources :: "string list"
  prResourceNames :: "string list"
  prVerbs :: "string list"
  prNonResourceURLs :: "string list"

record role =
  roName :: string
  roNamespace :: string
  roClusterScoped :: bool
  roRules :: "policyRule list"
  roLabels :: "(string \<times> string) list"
  roAggregates :: bool

record subject =
  suKind :: string
  suName :: string
  suNamespace :: string

definition subject_key :: "subject \<Rightarrow> string" where
  "subject_key s = (if suKind s = ''ServiceAccount'' then ''ServiceAccount/'' @ suNamespace s @ ''/'' @ suName s
     else suKind s @ ''/'' @ suName s)"

record roleRef =
  rfKind :: string
  rfName :: string

record binding =
  bdName :: string
  bdNamespace :: string
  bdClusterScoped :: bool
  bdSubjects :: "subject list"
  bdRoleRef :: roleRef

record cloudIdentity =
  ciProvider :: string
  ciRole :: string
  ciPrivilege :: string
  ciTrustAny :: bool

definition CloudAWS :: string where "CloudAWS = ''aws''"
definition CloudGCP :: string where "CloudGCP = ''gcp''"
definition CloudAzure :: string where "CloudAzure = ''azure''"

record serviceAccount =
  saName :: string
  saNamespace :: string
  saAutomount :: "bool option"
  saLabels :: "(string \<times> string) list"
  saLastUsed :: int
  saCloud :: "cloudIdentity option"

definition automounts :: "serviceAccount \<Rightarrow> bool" where
  "automounts sa = (case saAutomount sa of None \<Rightarrow> True | Some b \<Rightarrow> b)"

record pod =
  pdName :: string
  pdNamespace :: string
  pdServiceAccountName :: string
  pdAutomount :: "bool option"
  pdPrivileged :: bool
  pdHostPID :: bool
  pdHostNetwork :: bool
  pdHostPathMounts :: "string list"
  pdAddedCapabilities :: "string list"

definition effectiveSA :: "pod \<Rightarrow> string" where
  "effectiveSA p = (if pdServiceAccountName p = [] then ''default'' else pdServiceAccountName p)"

record socketMount =
  smContainer :: string
  smPath :: string

record dockerHost =
  dhName :: string
  dhGroupMembers :: "string list"
  dhRootless :: bool
  dhSocketMounts :: "socketMount list"

record permission =
  pmVerb :: string
  pmAPIGroup :: string
  pmResource :: string
  pmNamespace :: string

record cluster =
  clRoles :: "(string \<times> role) list"
  clBindings :: "binding list"
  clServiceAccounts :: "(string \<times> serviceAccount) list"
  clPods :: "pod list"
  clDockerHosts :: "dockerHost list"
  clObservedUsage :: "(string \<times> permission list) list"

definition newCluster :: cluster where
  "newCluster = \<lparr> clRoles = [], clBindings = [], clServiceAccounts = [], clPods = [], clDockerHosts = [],
     clObservedUsage = [] \<rparr>"

definition cluster_empty :: "cluster \<Rightarrow> bool" where
  "cluster_empty c \<longleftrightarrow> clRoles c = [] \<and> clBindings c = [] \<and> clServiceAccounts c = [] \<and> clPods c = []
     \<and> clDockerHosts c = []"

definition roleKey :: "bool \<Rightarrow> string \<Rightarrow> string \<Rightarrow> string" where
  "roleKey clusterScoped ns name = (if clusterScoped then ''ClusterRole/'' @ name
     else ''Role/'' @ ns @ ''/'' @ name)"

subsection \<open>The graph\<close>

definition Permission_String :: "permission \<Rightarrow> string" where
  "Permission_String p =
     (let grp = (if pmAPIGroup p = [] then ''core'' else pmAPIGroup p);
          scope = (if pmNamespace p \<noteq> [] then ''in '' @ pmNamespace p else ''cluster-wide'')
      in pmVerb p @ '' '' @ pmResource p @ ''.'' @ grp @ '' '' @ scope)"

record grant =
  grSubject :: subject
  grRole :: role
  grBinding :: binding
  grNamespace :: string
  grClusterWide :: bool

record graph =
  gGrants :: "grant list"
  gDangling :: "binding list"

definition resolveRole :: "cluster \<Rightarrow> binding \<Rightarrow> role option" where
  "resolveRole c b =
     (let name = rfName (bdRoleRef b); kind = rfKind (bdRoleRef b) in
      if kind = ''ClusterRole'' then map_of (clRoles c) (roleKey True [] name)
      else if kind = ''Role'' then map_of (clRoles c) (roleKey False (bdNamespace b) name)
      else (case map_of (clRoles c) (roleKey False (bdNamespace b) name) of
              Some r \<Rightarrow> Some r
            | None \<Rightarrow> map_of (clRoles c) (roleKey True [] name)))"

definition grantScope :: "binding \<Rightarrow> string" where
  "grantScope b = (if bdClusterScoped b then [] else bdNamespace b)"

fun build_loop :: "cluster \<Rightarrow> graph \<Rightarrow> binding list \<Rightarrow> graph" where
  "build_loop c g [] = g"
| "build_loop c g (b # bs) =
     (case resolveRole c b of
        None \<Rightarrow> build_loop c (g\<lparr> gDangling := gDangling g @ [b] \<rparr>) bs
      | Some r \<Rightarrow> build_loop c (g\<lparr> gGrants := gGrants g @ map (\<lambda>s. \<lparr> grSubject = s, grRole = r, grBinding = b,
            grNamespace = grantScope b, grClusterWide = bdClusterScoped b \<rparr>) (bdSubjects b) \<rparr>) bs)"

definition grant_less :: "grant \<Rightarrow> grant \<Rightarrow> bool" where
  "grant_less = key_less (\<lambda>g. subject_key (grSubject g)) (key_less (\<lambda>g. roName (grRole g)) (\<lambda>a b. False))"

definition buildGraph :: "cluster \<Rightarrow> graph" where
  "buildGraph c =
     (let g = build_loop c \<lparr> gGrants = [], gDangling = [] \<rparr> (clBindings c)
      in g\<lparr> gGrants := sort_stable grant_less (gGrants g) \<rparr>)"

subsection \<open>Effective permissions\<close>

definition defaulted :: "string list \<Rightarrow> string list" where
  "defaulted xs = (if length xs = 0 then [[]] else xs)"

definition expandRule :: "policyRule \<Rightarrow> string \<Rightarrow> permission list" where
  "expandRule r ns = concat (map (\<lambda>v.
       concat (map (\<lambda>grp. map (\<lambda>res. \<lparr> pmVerb = v, pmAPIGroup = grp, pmResource = res, pmNamespace = ns \<rparr>)
         (defaulted (prResources r))) (defaulted (prAPIGroups r)))
       @ map (\<lambda>u. \<lparr> pmVerb = v, pmAPIGroup = ''nonResourceURL'', pmResource = u, pmNamespace = ns \<rparr>)
         (prNonResourceURLs r)) (prVerbs r))"

definition sortPermissions :: "permission list \<Rightarrow> permission list" where
  "sortPermissions ps = sort_stable (key_less Permission_String (\<lambda>a b. False)) ps"

definition SubjectPermissions :: "graph \<Rightarrow> string \<Rightarrow> permission list" where
  "SubjectPermissions g key =
     sortPermissions (dedupe_by id []
       (concat (map (\<lambda>gr. concat (map (\<lambda>rule. expandRule rule (grNamespace gr)) (roRules (grRole gr))))
          (filter (\<lambda>gr. subject_key (grSubject gr) = key) (gGrants g)))))"

subsection \<open>Reverse queries\<close>

fun contains_wild :: "string list \<Rightarrow> string \<Rightarrow> bool" where
  "contains_wild [] want = False"
| "contains_wild (s # ss) want = (if s = ''*'' \<or> s = want then True else contains_wild ss want)"

definition ruleMatches :: "policyRule \<Rightarrow> string \<Rightarrow> string \<Rightarrow> string \<Rightarrow> bool" where
  "ruleMatches r verb apiGroup resource \<longleftrightarrow>
     contains_wild (prVerbs r) verb \<and> contains_wild (defaulted (prAPIGroups r)) apiGroup
     \<and> contains_wild (defaulted (prResources r)) resource"

fun who_loop ::
  "string \<Rightarrow> string \<Rightarrow> string \<Rightarrow> string \<Rightarrow> (string \<times> subject) list \<Rightarrow> grant list \<Rightarrow> (string \<times> subject) list" where
  "who_loop v grp res ns seen [] = seen"
| "who_loop v grp res ns seen (gr # grs) =
     (if ns \<noteq> [] \<and> grNamespace gr \<noteq> [] \<and> grNamespace gr \<noteq> ns then who_loop v grp res ns seen grs
      else if list_ex (\<lambda>rule. ruleMatches rule v grp res) (roRules (grRole gr))
        then who_loop v grp res ns (kv_put (subject_key (grSubject gr)) (grSubject gr) seen) grs
      else who_loop v grp res ns seen grs)"

definition WhoCan :: "graph \<Rightarrow> string \<Rightarrow> string \<Rightarrow> string \<Rightarrow> string \<Rightarrow> subject list" where
  "WhoCan g v grp res ns =
     sort_stable (key_less subject_key (\<lambda>a b. False)) (map snd (who_loop v grp res ns [] (gGrants g)))"

definition subjectKeys :: "graph \<Rightarrow> string list" where
  "subjectKeys g = sorted_set (map (\<lambda>gr. subject_key (grSubject gr)) (gGrants g))"

fun subject_by_loop :: "string \<Rightarrow> grant list \<Rightarrow> subject" where
  "subject_by_loop key [] = \<lparr> suKind = [], suName = strings_TrimPrefix key ''User/'', suNamespace = [] \<rparr>"
| "subject_by_loop key (gr # grs) =
     (if subject_key (grSubject gr) = key then grSubject gr else subject_by_loop key grs)"

definition subjectByKey :: "graph \<Rightarrow> string \<Rightarrow> subject" where
  "subjectByKey g key = subject_by_loop key (gGrants g)"

subsection \<open>What the graph holds\<close>

definition mkGrant :: "binding \<Rightarrow> role \<Rightarrow> subject \<Rightarrow> grant" where
  "mkGrant b r s = \<lparr> grSubject = s, grRole = r, grBinding = b, grNamespace = grantScope b,
     grClusterWide = bdClusterScoped b \<rparr>"

lemma build_loop_grants:
  "set (gGrants (build_loop c g bs)) = set (gGrants g)
     \<union> {mkGrant b r s | b r s. b \<in> set bs \<and> resolveRole c b = Some r \<and> s \<in> set (bdSubjects b)}"
proof (induction c g bs rule: build_loop.induct)
  case (2 c g b bs)
  then show ?case by (cases "resolveRole c b") (auto simp: mkGrant_def)
qed simp

lemma build_loop_dangling:
  "gDangling (build_loop c g bs) = gDangling g @ filter (\<lambda>b. resolveRole c b = None) bs"
  by (induction c g bs rule: build_loop.induct) (auto split: option.splits)

lemma set_gGrants:
  "set (gGrants (buildGraph c))
     = {mkGrant b r s | b r s. b \<in> set (clBindings c) \<and> resolveRole c b = Some r \<and> s \<in> set (bdSubjects b)}"
  by (simp add: buildGraph_def Let_def build_loop_grants)

lemma gDangling_buildGraph: "gDangling (buildGraph c) = filter (\<lambda>b. resolveRole c b = None) (clBindings c)"
  by (simp add: buildGraph_def Let_def build_loop_dangling)

lemma contains_wild_iff: "contains_wild ss want \<longleftrightarrow> ''*'' \<in> set ss \<or> want \<in> set ss"
  by (induction ss) auto

lemma defaulted_ne: "defaulted xs \<noteq> []"
  by (auto simp: defaulted_def)

text \<open>When a permission allows a verb on a resource of a group in a namespace, as a query reads it.\<close>

definition permits :: "permission \<Rightarrow> string \<Rightarrow> string \<Rightarrow> string \<Rightarrow> string \<Rightarrow> bool" where
  "permits p v grp res ns \<longleftrightarrow> pmVerb p \<in> {''*'', v} \<and> pmAPIGroup p \<in> {''*'', grp} \<and> pmResource p \<in> {''*'', res}
     \<and> (ns = [] \<or> pmNamespace p = [] \<or> pmNamespace p = ns)"

definition in_scope :: "string \<Rightarrow> grant \<Rightarrow> bool" where
  "in_scope ns gr \<longleftrightarrow> ns = [] \<or> grNamespace gr = [] \<or> grNamespace gr = ns"

lemma set_expandRule:
  "set (expandRule r ns) =
     {p. pmVerb p \<in> set (prVerbs r) \<and> pmNamespace p = ns
        \<and> (pmAPIGroup p \<in> set (defaulted (prAPIGroups r)) \<and> pmResource p \<in> set (defaulted (prResources r))
           \<or> pmAPIGroup p = ''nonResourceURL'' \<and> pmResource p \<in> set (prNonResourceURLs r))}"
  (is "?L = ?R")
proof
  show "?L \<subseteq> ?R" by (auto simp: expandRule_def)
  show "?R \<subseteq> ?L"
  proof
    fix p assume h: "p \<in> ?R"
    have e: "p = \<lparr> pmVerb = pmVerb p, pmAPIGroup = pmAPIGroup p, pmResource = pmResource p, pmNamespace = pmNamespace p \<rparr>"
      by simp
    show "p \<in> ?L"
      using h by (subst e) (auto simp del: permission.surjective simp: expandRule_def)
  qed
qed

lemma ruleMatches_expand:
  assumes "grp \<noteq> ''nonResourceURL''"
  shows "ruleMatches r v grp res \<and> (ns = [] \<or> sc = [] \<or> sc = ns)
    \<longleftrightarrow> (\<exists>p \<in> set (expandRule r sc). permits p v grp res ns)"
proof
  assume h: "ruleMatches r v grp res \<and> (ns = [] \<or> sc = [] \<or> sc = ns)"
  then obtain v' g' r' where "v' \<in> set (prVerbs r)" "v' \<in> {''*'', v}"
    "g' \<in> set (defaulted (prAPIGroups r))" "g' \<in> {''*'', grp}"
    "r' \<in> set (defaulted (prResources r))" "r' \<in> {''*'', res}"
    by (auto simp: ruleMatches_def contains_wild_iff)
  then have "\<lparr> pmVerb = v', pmAPIGroup = g', pmResource = r', pmNamespace = sc \<rparr> \<in> set (expandRule r sc)"
    "permits \<lparr> pmVerb = v', pmAPIGroup = g', pmResource = r', pmNamespace = sc \<rparr> v grp res ns"
    using h by (auto simp: set_expandRule permits_def)
  then show "\<exists>p \<in> set (expandRule r sc). permits p v grp res ns" by blast
next
  assume "\<exists>p \<in> set (expandRule r sc). permits p v grp res ns"
  then show "ruleMatches r v grp res \<and> (ns = [] \<or> sc = [] \<or> sc = ns)"
    using assms by (auto simp: set_expandRule permits_def ruleMatches_def contains_wild_iff)
qed

lemma set_SubjectPermissions:
  "p \<in> set (SubjectPermissions g k) \<longleftrightarrow>
     (\<exists>gr \<in> set (gGrants g). subject_key (grSubject gr) = k
        \<and> (\<exists>rule \<in> set (roRules (grRole gr)). p \<in> set (expandRule rule (grNamespace gr))))"
  by (auto simp: SubjectPermissions_def sortPermissions_def dedupe_by_id)

subsection \<open>Who can\<close>

definition hit :: "string \<Rightarrow> string \<Rightarrow> string \<Rightarrow> string \<Rightarrow> grant \<Rightarrow> bool" where
  "hit v grp res ns gr \<longleftrightarrow> in_scope ns gr \<and> (\<exists>rule \<in> set (roRules (grRole gr)). ruleMatches rule v grp res)"

lemma who_loop_put_all:
  "who_loop v grp res ns seen grs
     = kv.put_all (\<lambda>gr. subject_key (grSubject gr)) grSubject (filter (hit v grp res ns) grs) seen"
  by (induction grs arbitrary: seen) (auto simp: hit_def in_scope_def list_ex_iff)

lemma who_keys: "map subject_key (map snd (who_loop v grp res ns [] grs)) = map fst (who_loop v grp res ns [] grs)"
  using set_put_all [of "\<lambda>gr. subject_key (grSubject gr)" grSubject "filter (hit v grp res ns) grs" "[]"]
  by (auto simp: who_loop_put_all)

lemma WhoCan_grants:
  "k \<in> subject_key ` set (WhoCan g v grp res ns) \<longleftrightarrow>
     (\<exists>gr \<in> set (gGrants g). subject_key (grSubject gr) = k \<and> hit v grp res ns gr)"
proof -
  have "subject_key ` set (WhoCan g v grp res ns) = fst ` set (who_loop v grp res ns [] (gGrants g))"
    using arg_cong [OF who_keys [of v grp res ns "gGrants g"], of set] by (simp add: WhoCan_def image_image)
  then show ?thesis by (auto simp: who_loop_put_all keys_put_all)
qed

lemma WhoCan_distinct: "distinct (map subject_key (WhoCan g v grp res ns))"
proof -
  have "mset (map subject_key (WhoCan g v grp res ns))
      = mset (map subject_key (map snd (who_loop v grp res ns [] (gGrants g))))"
    by (simp only: WhoCan_def mset_map mset_sort_stable)
  moreover have "distinct (map fst (who_loop v grp res ns [] (gGrants g)))"
    by (simp add: who_loop_put_all distinct_put_all)
  ultimately show ?thesis using mset_eq_imp_distinct_iff who_keys by metis
qed

lemma WhoCan_perms:
  assumes "grp \<noteq> ''nonResourceURL''"
  shows "k \<in> subject_key ` set (WhoCan g v grp res ns) \<longleftrightarrow>
     (\<exists>p \<in> set (SubjectPermissions g k). permits p v grp res ns)"
proof -
  have "hit v grp res ns gr \<longleftrightarrow>
      (\<exists>rule \<in> set (roRules (grRole gr)). \<exists>p \<in> set (expandRule rule (grNamespace gr)). permits p v grp res ns)" for gr
    using ruleMatches_expand [OF assms, of _ v res ns "grNamespace gr"] unfolding hit_def in_scope_def by blast
  then show ?thesis
    unfolding WhoCan_grants Bex_def set_SubjectPermissions by blast
qed

lemma WhoCan_bindings:
  "k \<in> subject_key ` set (WhoCan (buildGraph c) v grp res ns) \<longleftrightarrow>
     (\<exists>b r s rule. b \<in> set (clBindings c) \<and> resolveRole c b = Some r \<and> s \<in> set (bdSubjects b) \<and> subject_key s = k
        \<and> (ns = [] \<or> grantScope b = [] \<or> grantScope b = ns)
        \<and> rule \<in> set (roRules r) \<and> ruleMatches rule v grp res)"
proof -
  have "hit v grp res ns (mkGrant b r s) \<longleftrightarrow> (ns = [] \<or> grantScope b = [] \<or> grantScope b = ns)
      \<and> (\<exists>rule \<in> set (roRules r). ruleMatches rule v grp res)" for b r s
    by (simp add: hit_def in_scope_def mkGrant_def)
  moreover have "grSubject (mkGrant b r s) = s" for b r s
    by (simp add: mkGrant_def)
  moreover have "(\<exists>gr \<in> set (gGrants (buildGraph c)). subject_key (grSubject gr) = k \<and> hit v grp res ns gr)
      \<longleftrightarrow> (\<exists>b r s. b \<in> set (clBindings c) \<and> resolveRole c b = Some r \<and> s \<in> set (bdSubjects b)
            \<and> subject_key (grSubject (mkGrant b r s)) = k \<and> hit v grp res ns (mkGrant b r s))"
    unfolding set_gGrants by blast
  ultimately show ?thesis
    unfolding WhoCan_grants by (simp add: Bex_def)
qed

text \<open>
  C36: Who can: the subjects listed for a verb on a resource are exactly those that a
  binding whose role resolves grants a matching rule in the queried namespace, each once, and
  exactly those whose flattened permissions allow it: the two directions of an access review
  agree. The group nonResourceURL, which the flattening invents, is left out.
\<close>

theorem WhoCan_exact:
  assumes "grp \<noteq> ''nonResourceURL''"
  shows "(k \<in> subject_key ` set (WhoCan (buildGraph c) v grp res ns)) =
       (\<exists>b r s rule. b \<in> set (clBindings c) \<and> resolveRole c b = Some r \<and> s \<in> set (bdSubjects b) \<and> subject_key s = k
          \<and> (ns = [] \<or> grantScope b = [] \<or> grantScope b = ns)
          \<and> rule \<in> set (roRules r) \<and> ruleMatches rule v grp res)
     \<and> (k \<in> subject_key ` set (WhoCan (buildGraph c) v grp res ns)) =
       (\<exists>p \<in> set (SubjectPermissions (buildGraph c) k). permits p v grp res ns)
     \<and> distinct (map subject_key (WhoCan (buildGraph c) v grp res ns))"
  by (intro conjI WhoCan_bindings WhoCan_perms [OF assms] WhoCan_distinct)

definition cluster0 :: cluster where
  "cluster0 = newCluster
     \<lparr> clRoles := [(''ClusterRole/ops'', \<lparr> roName = ''ops'', roNamespace = [], roClusterScoped = True,
         roRules = [\<lparr> prAPIGroups = [''*''], prResources = [''*''], prResourceNames = [], prVerbs = [''*''], prNonResourceURLs = [] \<rparr>],
         roLabels = [], roAggregates = False \<rparr>)],
       clBindings := [\<lparr> bdName = ''ops'', bdNamespace = [], bdClusterScoped = True,
         bdSubjects = [\<lparr> suKind = ''ServiceAccount'', suName = ''bot'', suNamespace = ''ci'' \<rparr>],
         bdRoleRef = \<lparr> rfKind = ''ClusterRole'', rfName = ''ops'' \<rparr> \<rparr>],
       clPods := [\<lparr> pdName = ''p'', pdNamespace = ''ci'', pdServiceAccountName = ''bot'', pdAutomount = None,
         pdPrivileged = False, pdHostPID = False, pdHostNetwork = False, pdHostPathMounts = [], pdAddedCapabilities = [] \<rparr>] \<rparr>"

theorem WhoCan_exact_witness:
  "(''ServiceAccount/ci/bot'' \<in> subject_key ` set (WhoCan (buildGraph cluster0) ''get'' [] ''secrets'' ''dev''))
     = (\<exists>p \<in> set (SubjectPermissions (buildGraph cluster0) ''ServiceAccount/ci/bot''). permits p ''get'' [] ''secrets'' ''dev'')"
proof -
  have "([] :: string) \<noteq> ''nonResourceURL''" by simp
  from conjunct1 [OF conjunct2 [OF WhoCan_exact [OF this, of "''ServiceAccount/ci/bot''" cluster0 "''get''" "''secrets''" "''dev''"]]]
  show ?thesis .
qed

end
