(* ===== verification/GoTime.thy ===== *)
theory GoTime
  imports GoStrings
begin

text \<open>
  The part of Go's \<^verbatim>\<open>time\<close> package the code calls. A time is a number of nanoseconds since the
  start of the year 1 (UTC), so 0 is the zero time; a duration is a signed 64-bit number of
  nanoseconds.
\<close>

type_synonym gotime = int
type_synonym duration = int

definition Second :: duration where "Second = 1000000000"
definition Minute :: duration where "Minute = 60000000000"
definition Hour :: duration where "Hour = 3600000000000"

definition minInt64 :: int where
  "minInt64 = - 9223372036854775808"

definition time_Unix :: "int \<Rightarrow> gotime" where
  "time_Unix sec = wrap64 (sec + 62135596800) * 1000000000"

text \<open>A difference of two times saturates.\<close>

definition time_Sub :: "gotime \<Rightarrow> gotime \<Rightarrow> duration" where
  "time_Sub t u = (if t - u > maxInt64 then maxInt64 else if t - u < minInt64 then minInt64 else t - u)"

lemma time_Sub_exact: "minInt64 \<le> t - u \<Longrightarrow> t - u \<le> maxInt64 \<Longrightarrow> time_Sub t u = t - u"
  by (simp add: time_Sub_def)

lemma time_Sub_mono: "t \<le> t' \<Longrightarrow> time_Sub t u \<le> time_Sub t' u"
  by (auto simp: time_Sub_def maxInt64_def minInt64_def)

lemma time_Sub_antimono: "u \<le> u' \<Longrightarrow> time_Sub t u' \<le> time_Sub t u"
  by (auto simp: time_Sub_def maxInt64_def minInt64_def)

text \<open>Go's integer division and remainder truncate towards zero.\<close>

definition quot :: "int \<Rightarrow> int \<Rightarrow> int" where
  "quot a b = (if (a < 0) = (b < 0) then abs a div abs b else - (abs a div abs b))"

definition remt :: "int \<Rightarrow> int \<Rightarrow> int" where
  "remt a b = a - b * quot a b"

definition dur_Round :: "duration \<Rightarrow> duration \<Rightarrow> duration" where
  "dur_Round d m =
     (if m \<le> 0 then d
      else let r = remt d m in
        if d < 0 then
          (let r' = - r in
           if r' + r' < m then d + r'
           else (let d1 = wrap64 (d - m + r') in if d1 < d then d1 else minInt64))
        else if r + r < m then d - r
        else (let d1 = wrap64 (d + m - r) in if d1 > d then d1 else maxInt64))"

text \<open>\<open>fmtFrac\<close> prints the last \<open>prec\<close> digits as a fraction without trailing zeros.\<close>

fun fracDigits :: "nat \<Rightarrow> nat \<Rightarrow> string" where
  "fracDigits 0 v = []"
| "fracDigits (Suc n) v = fracDigits n (v div 10) @ [char_of (48 + v mod 10)]"

definition fmtFrac :: "nat \<Rightarrow> nat \<Rightarrow> string \<times> nat" where
  "fmtFrac v prec =
     (let ds = trim_right (\<lambda>c. c = CHR ''0'') (fracDigits prec v)
      in ((if ds = [] then [] else CHR ''.'' # ds), v div 10 ^ prec))"

definition dur_String :: "duration \<Rightarrow> string" where
  "dur_String d =
     (let u = nat (abs d); sg = (if d < 0 then ''-'' else []) in
      if u < 1000000000 then
        (if u = 0 then ''0s''
         else if u < 1000 then sg @ itoa_nat u @ ''ns''
         else if u < 1000000 then
           (let (f, i) = fmtFrac u 3 in sg @ itoa_nat i @ f @ [CHR 0xC2, CHR 0xB5] @ ''s'')
         else (let (f, i) = fmtFrac u 6 in sg @ itoa_nat i @ f @ ''ms''))
      else
        (let (f, s) = fmtFrac u 9; m = s div 60; h = m div 60 in
         sg @ (if h > 0 then itoa_nat h @ ''h'' else []) @ (if m > 0 then itoa_nat (m mod 60) @ ''m'' else [])
         @ itoa_nat (s mod 60) @ f @ ''s''))"


end
