(* ===== verification/RbacEscalation.thy ===== *)
theory RbacEscalation
  imports RbacGraph GoTime GoFloat
begin

text \<open>
  Escalation analysis: \<^verbatim>\<open>risk.go\<close>, \<^verbatim>\<open>escalation.go\<close> and \<^verbatim>\<open>nhi.go\<close> of \<^verbatim>\<open>internal/rbac\<close>. The adjacency
  map is an association list; the breadth-first searches are functions on the visited set and
  the queue, whose termination is that of the code: a vertex is queued once.
\<close>

subsection \<open>Risks\<close>

record risk =
  rkRuleID :: string
  rkSeverity :: severity
  rkTitle :: string
  rkDescription :: string
  rkSubject :: string
  rkResource :: string
  rkRemediation :: string
  rkReferences :: "string list"
  rkPath :: "string list"
  rkMeta :: "(string \<times> string) list"

definition risk_less :: "risk \<Rightarrow> risk \<Rightarrow> bool" where
  "risk_less = key_less rkRuleID (key_less rkSubject (key_less rkResource (key_less rkTitle (\<lambda>a b. False))))"

definition sortRisks :: "risk list \<Rightarrow> risk list" where
  "sortRisks rs = sort_stable risk_less rs"

definition risk_key :: "risk \<Rightarrow> string" where
  "risk_key r = rkRuleID r @ ''|'' @ rkSubject r @ ''|'' @ rkResource r @ ''|'' @ rkTitle r"

definition dedupe :: "risk list \<Rightarrow> risk list" where
  "dedupe rs = dedupe_by risk_key [] rs"

definition refK8sRBAC :: string where
  "refK8sRBAC = ''https://kubernetes.io/docs/reference/access-authn-authz/rbac/''"
definition refK8sHarden :: string where
  "refK8sHarden = ''https://kubernetes.io/docs/concepts/security/rbac-good-practices/''"
definition refMitrePrivEsc :: string where
  "refMitrePrivEsc = ''https://attack.mitre.org/tactics/TA0004/''"
definition refMitreEscape :: string where
  "refMitreEscape = ''https://attack.mitre.org/techniques/T1611/''"
definition refNISTac6 :: string where
  "refNISTac6 = ''https://csrc.nist.gov/projects/risk-management/sp800-53-controls (AC-6 Least Privilege)''"
definition refDockerSock :: string where
  "refDockerSock = ''https://docs.docker.com/engine/security/#docker-daemon-attack-surface''"

subsection \<open>The index of a subject's permissions\<close>

record permIndex =
  ixVR :: "string list"
  ixVerbs :: "string list"

definition indexPerms :: "permission list \<Rightarrow> permIndex" where
  "indexPerms ps = \<lparr> ixVR = set_puts (map (\<lambda>p. pmVerb p @ ''|'' @ pmResource p) ps) [],
     ixVerbs = set_puts (map pmVerb ps) [] \<rparr>"

definition has :: "permIndex \<Rightarrow> string \<Rightarrow> string \<Rightarrow> bool" where
  "has ix verb resource \<longleftrightarrow> verb @ ''|'' @ resource \<in> set (ixVR ix)"

definition hasVerb :: "permIndex \<Rightarrow> string \<Rightarrow> bool" where
  "hasVerb ix verb \<longleftrightarrow> verb \<in> set (ixVerbs ix)"

definition hasAnyResource :: "permIndex \<Rightarrow> string \<Rightarrow> string list \<Rightarrow> bool" where
  "hasAnyResource ix verb resources \<longleftrightarrow> list_ex (has ix verb) resources"

definition is_theft :: "permission \<Rightarrow> bool" where
  "is_theft p \<longleftrightarrow>
     (if (pmVerb p = ''get'' \<or> pmVerb p = ''list'' \<or> pmVerb p = ''watch'' \<or> pmVerb p = ''*'')
          \<and> (pmResource p = ''secrets'' \<or> pmResource p = ''*'') then True
      else if pmVerb p = ''create'' \<and> (pmResource p = ''serviceaccounts/token'' \<or> pmResource p = ''tokenrequests'') then True
      else pmVerb p = ''*'' \<and> (pmResource p = ''serviceaccounts/token'' \<or> pmResource p = ''tokenrequests''))"

fun identityTheftScope_loop :: "bool \<Rightarrow> string list \<Rightarrow> permission list \<Rightarrow> bool \<times> string list" where
  "identityTheftScope_loop cw nss [] = (cw, nss)"
| "identityTheftScope_loop cw nss (p # ps) =
     (if \<not> is_theft p then identityTheftScope_loop cw nss ps
      else if pmNamespace p = [] then identityTheftScope_loop True nss ps
      else identityTheftScope_loop cw (set_put (pmNamespace p) nss) ps)"

definition identityTheftScope :: "permission list \<Rightarrow> bool \<times> string list" where
  "identityTheftScope ps = identityTheftScope_loop False [] ps"

definition subjectNamespace :: "string \<Rightarrow> string" where
  "subjectNamespace key = (case split_byte CHR ''/'' key of
       [a, b, c] \<Rightarrow> if a = ''ServiceAccount'' then b else []
     | _ \<Rightarrow> [])"

fun bound_loop :: "string \<Rightarrow> grant list \<Rightarrow> bool" where
  "bound_loop key [] = False"
| "bound_loop key (gr # grs) =
     (if subject_key (grSubject gr) \<noteq> key then bound_loop key grs
      else if roClusterScoped (grRole gr) \<and> roName (grRole gr) = ''cluster-admin'' then True
      else if suKind (grSubject gr) = ''Group'' \<and> suName (grSubject gr) = ''system:masters'' then True
      else bound_loop key grs)"

definition boundToClusterAdmin :: "graph \<Rightarrow> string \<Rightarrow> bool" where
  "boundToClusterAdmin g key = bound_loop key (gGrants g)"

definition serviceAccountSubjectKeys :: "graph \<Rightarrow> string list" where
  "serviceAccountSubjectKeys g = sorted_set (map (\<lambda>gr. subject_key (grSubject gr))
     (filter (\<lambda>gr. suKind (grSubject gr) = ''ServiceAccount'') (gGrants g)))"

subsection \<open>The escalation graph\<close>

definition targetClusterAdmin :: string where "targetClusterAdmin = ''target:cluster-admin''"
definition targetNodeRoot :: string where "targetNodeRoot = ''target:node-root''"

record escEdge =
  eTo :: string
  eReason :: string

definition edge :: "bool \<Rightarrow> string \<Rightarrow> string \<Rightarrow> escEdge list" where
  "edge cond t why = (if cond then [\<lparr> eTo = t, eReason = why \<rparr>] else [])"

definition csrPower :: "permIndex \<Rightarrow> bool" where
  "csrPower ix \<longleftrightarrow>
     (has ix ''create'' ''certificatesigningrequests'' \<or> has ix ''*'' ''certificatesigningrequests'')
     \<and> (has ix ''update'' ''certificatesigningrequests/approval'' \<or> has ix ''*'' ''signers''
        \<or> has ix ''*'' ''certificatesigningrequests/approval'')"

definition theftEdges :: "permission list \<Rightarrow> string \<Rightarrow> string list \<Rightarrow> escEdge list" where
  "theftEdges perms sk saKeys =
     (let (clusterSteal, stealNS) = identityTheftScope perms in
      if clusterSteal \<or> length stealNS > 0 then
        concat (map (\<lambda>other. if other = sk then []
          else edge (clusterSteal \<or> subjectNamespace other \<in> set stealNS) other
            (''can read Secrets / mint tokens '' @ emdash @ '' assume identity '' @ strings_TrimPrefix other ''ServiceAccount/'')) saKeys)
      else [])"

definition edgesFrom :: "graph \<Rightarrow> string list \<Rightarrow> string \<Rightarrow> escEdge list" where
  "edgesFrom g saKeys sk =
     (let permList = SubjectPermissions g sk; ix = indexPerms permList in
      edge (boundToClusterAdmin g sk) targetClusterAdmin ''bound directly to cluster-admin/system:masters''
      @ edge (has ix ''escalate'' ''roles'' \<or> has ix ''escalate'' ''clusterroles'' \<or> has ix ''escalate'' ''*'') targetClusterAdmin
          (''holds 'escalate' '' @ emdash @ '' can self-grant any permission'')
      @ edge (has ix ''bind'' ''clusterroles'' \<or> has ix ''bind'' ''*'') targetClusterAdmin
          (''holds 'bind' '' @ emdash @ '' can bind cluster-admin to itself'')
      @ edge (hasVerb ix ''impersonate'') targetClusterAdmin
          (''holds 'impersonate' '' @ emdash @ '' can impersonate system:masters'')
      @ edge (csrPower ix) targetClusterAdmin
          (''can create and approve CSRs '' @ emdash @ '' forge a system:masters client cert'')
      @ edge (hasAnyResource ix ''create'' [''pods'', ''deployments'', ''daemonsets'', ''statefulsets'', ''jobs''] \<or> has ix ''*'' ''pods'')
          targetNodeRoot (''can create workloads '' @ emdash @ '' schedule a privileged pod to gain host root'')
      @ edge (has ix ''get'' ''nodes/proxy'' \<or> has ix ''*'' ''nodes/proxy'' \<or> hasAnyResource ix ''get'' [''nodes''])
          targetNodeRoot (''has node/kubelet access '' @ emdash @ '' reach every pod on a node'')
      @ theftEdges permList sk saKeys)"

type_synonym adjacency = "(string \<times> escEdge list) list"

definition edge_less :: "escEdge \<Rightarrow> escEdge \<Rightarrow> bool" where
  "edge_less = key_less eTo (key_less eReason (\<lambda>a b. False))"

definition buildEscalationEdges :: "graph \<Rightarrow> adjacency" where
  "buildEscalationEdges g =
     map (\<lambda>(k, es). (k, sort_stable edge_less es))
       (filter (\<lambda>(k, es). es \<noteq> [])
         (map (\<lambda>sk. (sk, edgesFrom g (serviceAccountSubjectKeys g) sk)) (subjectKeys g)))"

definition adj_get :: "adjacency \<Rightarrow> string \<Rightarrow> escEdge list" where
  "adj_get adj k = (case map_of adj k of None \<Rightarrow> [] | Some es \<Rightarrow> es)"

definition isTarget :: "string \<Rightarrow> bool" where
  "isTarget t \<longleftrightarrow> t = targetClusterAdmin \<or> t = targetNodeRoot"

definition prettyTarget :: "string \<Rightarrow> string" where
  "prettyTarget t = (if t = targetClusterAdmin then ''cluster-admin'' else if t = targetNodeRoot then ''node-root''
     else strings_TrimPrefix t ''ServiceAccount/'')"

subsection \<open>The search for a target\<close>

type_synonym bfs_node = "string \<times> string list"

definition lastHop :: "escEdge \<Rightarrow> string" where
  "lastHop e = eReason e @ '' '' @ darrow @ '' '' @ prettyTarget (eTo e)"

definition hop :: "escEdge \<Rightarrow> string" where
  "hop e = strings_TrimPrefix (eTo e) ''ServiceAccount/'' @ '' ('' @ eReason e @ '')''"

fun bfs_edges ::
  "string list \<Rightarrow> escEdge list \<Rightarrow> string list \<Rightarrow> bfs_node list \<Rightarrow> (string list \<times> string) + (string list \<times> bfs_node list)" where
  "bfs_edges path [] visited queue = Inr (visited, queue)"
| "bfs_edges path (e # es) visited queue =
     (if isTarget (eTo e) then Inl (path @ [lastHop e], eTo e)
      else if eTo e \<in> set visited then bfs_edges path es visited queue
      else bfs_edges path es (eTo e # visited) (queue @ [(eTo e, path @ [hop e])]))"

text \<open>The vertices that have an incoming edge.\<close>

definition heads :: "adjacency \<Rightarrow> string set" where
  "heads adj = (\<Union>(k, es) \<in> set adj. eTo ` set es)"

lemma finite_heads [simp]: "finite (heads adj)"
  by (auto simp: heads_def)

lemma adj_get_heads: "e \<in> set (adj_get adj k) \<Longrightarrow> eTo e \<in> heads adj"
  by (cases "map_of adj k") (force simp: adj_get_def heads_def dest: map_of_SomeD)+

text \<open>One vertex: the unvisited heads and the queue together do not grow.\<close>

lemma bfs_edges_measure:
  "bfs_edges path es visited queue = Inr (v', q') \<Longrightarrow> (\<And>e. e \<in> set es \<Longrightarrow> eTo e \<in> H) \<Longrightarrow> finite H \<Longrightarrow>
   card (H - set v') + length q' \<le> card (H - set visited) + length queue"
proof (induction path es visited queue rule: bfs_edges.induct)
  case (2 path e es visited queue)
  show ?case
  proof (cases "eTo e \<in> set visited")
    case True
    with 2 show ?thesis by (auto split: if_splits)
  next
    case False
    then have "eTo e \<in> H - set visited" using "2.prems"(2) by simp
    moreover have "H - set (eTo e # visited) = (H - set visited) - {eTo e}" by auto
    ultimately have "Suc (card (H - set (eTo e # visited))) = card (H - set visited)"
      using "2.prems"(3) by (metis card_Suc_Diff1 finite_Diff)
    then show ?thesis using 2 False by (auto split: if_splits)
  qed
qed simp

function bfs_loop :: "adjacency \<Rightarrow> string list \<Rightarrow> bfs_node list \<Rightarrow> string list \<times> string" where
  "bfs_loop adj visited [] = ([], [])"
| "bfs_loop adj visited ((key, path) # queue) =
     (case bfs_edges path (adj_get adj key) visited queue of
        Inl found \<Rightarrow> found
      | Inr (visited', queue') \<Rightarrow> bfs_loop adj visited' queue')"
  by pat_completeness auto

termination
proof (relation "measure (\<lambda>(adj, visited, queue). card (heads adj - set visited) + length queue)")
  fix adj visited key path queue x v' q'
  assume "bfs_edges path (adj_get adj key) visited queue = Inr x" "(v', q') = x"
  then show "((adj, v', q'), adj, visited, (key, path) # queue)
      \<in> measure (\<lambda>(adj, visited, queue). card (heads adj - set visited) + length queue)"
    using bfs_edges_measure [of path "adj_get adj key" visited queue v' q' "heads adj"] adj_get_heads by force
qed simp

definition bfsToTarget :: "adjacency \<Rightarrow> string \<Rightarrow> string list \<times> string" where
  "bfsToTarget adj start = bfs_loop adj [start] [(start, [])]"

subsection \<open>Trails\<close>

text \<open>
  A trail is a list of edges each of which leaves the vertex the last one entered. It escapes
  when its last edge, and no other, enters a target.
\<close>

fun trail :: "adjacency \<Rightarrow> string \<Rightarrow> escEdge list \<Rightarrow> bool" where
  "trail adj s [] \<longleftrightarrow> True"
| "trail adj s (e # es) \<longleftrightarrow> e \<in> set (adj_get adj s) \<and> trail adj (eTo e) es"

definition trail_end :: "string \<Rightarrow> escEdge list \<Rightarrow> string" where
  "trail_end s es = (if es = [] then s else eTo (last es))"

definition calm :: "escEdge list \<Rightarrow> bool" where
  "calm es \<longleftrightarrow> (\<forall>e \<in> set es. \<not> isTarget (eTo e))"

definition escape :: "adjacency \<Rightarrow> string \<Rightarrow> escEdge list \<Rightarrow> bool" where
  "escape adj s es \<longleftrightarrow> es \<noteq> [] \<and> trail adj s es \<and> calm (butlast es) \<and> isTarget (eTo (last es))"

lemma trail_snoc: "trail adj s (es @ [e]) \<longleftrightarrow> trail adj s es \<and> e \<in> set (adj_get adj (trail_end s es))"
  by (induction es arbitrary: s) (auto simp: trail_end_def)

lemma trail_end_snoc [simp]: "trail_end s (es @ [e]) = eTo e"
  by (simp add: trail_end_def)

lemma trail_end_Nil [simp]: "trail_end s [] = s"
  by (simp add: trail_end_def)

lemma calm_snoc [simp]: "calm (es @ [e]) \<longleftrightarrow> calm es \<and> \<not> isTarget (eTo e)"
  by (auto simp: calm_def)

lemma calm_Nil [simp]: "calm []"
  by (simp add: calm_def)

lemma escape_snoc:
  "escape adj s es \<longleftrightarrow> (\<exists>es' e. es = es' @ [e] \<and> trail adj s es' \<and> calm es'
     \<and> e \<in> set (adj_get adj (trail_end s es')) \<and> isTarget (eTo e))"
  by (cases es rule: rev_cases) (auto simp: escape_def trail_snoc)

subsection \<open>What one vertex does\<close>

text \<open>
  When no edge enters a target, the unvisited heads are visited and queued, in order, with
  the path extended by the edge.
\<close>

lemma bfs_edges_Inl:
  "bfs_edges path es visited queue = Inl (p, t) \<Longrightarrow>
   \<exists>e \<in> set es. isTarget (eTo e) \<and> t = eTo e \<and> p = path @ [lastHop e]"
  by (induction path es visited queue rule: bfs_edges.induct) (auto split: if_splits)

lemma bfs_edges_Inr:
  assumes "bfs_edges path es visited queue = Inr (v', q')"
  obtains new where "q' = queue @ map (\<lambda>e. (eTo e, path @ [hop e])) new" "set new \<subseteq> set es"
    "distinct (map eTo new)" "eTo ` set new \<inter> set visited = {}"
    "set v' = set visited \<union> eTo ` set es" "set v' = set visited \<union> eTo ` set new" "calm es"
  using assms
proof (induction path es visited queue arbitrary: thesis rule: bfs_edges.induct)
  case (1 path visited queue)
  then show ?case by (auto intro: "1.prems"(1) [of "[]"])
next
  case (2 path e es visited queue)
  have nt: "\<not> isTarget (eTo e)" using "2.prems"(2) by (auto split: if_splits)
  show ?case
  proof (cases "eTo e \<in> set visited")
    case True
    then have "bfs_edges path es visited queue = Inr (v', q')" using "2.prems"(2) nt by simp
    from "2.IH"(1) [OF nt True _ this] obtain new where new:
      "q' = queue @ map (\<lambda>e. (eTo e, path @ [hop e])) new" "set new \<subseteq> set es"
      "distinct (map eTo new)" "eTo ` set new \<inter> set visited = {}"
      "set v' = set visited \<union> eTo ` set es" "set v' = set visited \<union> eTo ` set new" "calm es"
      by blast
    show ?thesis
      by (rule "2.prems"(1) [of new]) (use new True nt in \<open>auto simp: calm_def\<close>)
  next
    case False
    then have "bfs_edges path es (eTo e # visited) (queue @ [(eTo e, path @ [hop e])]) = Inr (v', q')"
      using "2.prems"(2) nt by simp
    from "2.IH"(2) [OF nt False _ this] obtain new where new:
      "q' = (queue @ [(eTo e, path @ [hop e])]) @ map (\<lambda>e. (eTo e, path @ [hop e])) new" "set new \<subseteq> set es"
      "distinct (map eTo new)" "eTo ` set new \<inter> set (eTo e # visited) = {}"
      "set v' = set (eTo e # visited) \<union> eTo ` set es" "set v' = set (eTo e # visited) \<union> eTo ` set new" "calm es"
      by blast
    show ?thesis
      by (rule "2.prems"(1) [of "e # new"]) (use new False nt in \<open>auto simp: calm_def\<close>)
  qed
qed

subsection \<open>The invariant of the search\<close>

text \<open>
  A visited vertex that is no longer queued is done: its edges enter visited vertices and no
  target. The queue holds each vertex once, with a shortest trail to it, in the order of the
  lengths, which differ by at most one; every vertex closer than the front of the queue is done.
\<close>

definition done_at :: "string list \<Rightarrow> bfs_node list \<Rightarrow> string set" where
  "done_at visited queue = set visited - fst ` set queue"

definition queued :: "adjacency \<Rightarrow> string \<Rightarrow> bfs_node \<Rightarrow> bool" where
  "queued adj s = (\<lambda>(k, path). (\<exists>es. trail adj s es \<and> calm es \<and> trail_end s es = k \<and> path = map hop es)
     \<and> (\<forall>es. trail adj s es \<and> calm es \<and> trail_end s es = k \<longrightarrow> length path \<le> length es))"

definition bfs_inv :: "adjacency \<Rightarrow> string \<Rightarrow> string list \<Rightarrow> bfs_node list \<Rightarrow> bool" where
  "bfs_inv adj s visited queue \<longleftrightarrow>
     s \<in> set visited \<and> distinct (map fst queue) \<and> fst ` set queue \<subseteq> set visited
     \<and> (\<forall>u \<in> done_at visited queue. \<forall>e \<in> set (adj_get adj u). eTo e \<in> set visited \<and> \<not> isTarget (eTo e))
     \<and> (\<forall>n \<in> set queue. queued adj s n)
     \<and> sorted (map (length \<circ> snd) queue)
     \<and> (queue \<noteq> [] \<longrightarrow> (\<forall>n \<in> set queue. length (snd n) \<le> Suc (length (snd (hd queue)))))
     \<and> (queue \<noteq> [] \<longrightarrow> (\<forall>es. trail adj s es \<and> calm es \<and> length es < length (snd (hd queue))
          \<longrightarrow> trail_end s es \<in> done_at visited queue))"

lemma bfs_inv_close:
  assumes inv: "bfs_inv adj s visited ((k, path) # q)" and t: "trail adj s es" "calm es"
    and short: "length es \<le> length path"
  shows "trail_end s es \<in> set visited"
proof (cases es rule: rev_cases)
  case Nil
  then show ?thesis using inv by (simp add: bfs_inv_def)
next
  case (snoc es' e)
  then have "trail_end s es' \<in> done_at visited ((k, path) # q)"
    using inv t short by (simp add: bfs_inv_def trail_snoc)
  then show ?thesis using inv t snoc by (auto simp: bfs_inv_def trail_snoc)
qed

lemma bfs_inv_new:
  assumes inv: "bfs_inv adj s visited ((k, path) # q)"
    and e: "e \<in> set (adj_get adj k)" "eTo e \<notin> set visited" "\<not> isTarget (eTo e)"
  shows "queued adj s (eTo e, path @ [hop e])"
proof -
  obtain es0 where es0: "trail adj s es0" "calm es0" "trail_end s es0 = k" "path = map hop es0"
    using inv by (auto simp: bfs_inv_def queued_def)
  have "trail adj s (es0 @ [e]) \<and> calm (es0 @ [e]) \<and> trail_end s (es0 @ [e]) = eTo e \<and> path @ [hop e] = map hop (es0 @ [e])"
    using es0 e by (simp add: trail_snoc)
  moreover have "length (path @ [hop e]) \<le> length es"
    if "trail adj s es" "calm es" "trail_end s es = eTo e" for es
    using bfs_inv_close [OF inv that(1,2)] that(3) e(2) by fastforce
  ultimately show ?thesis unfolding queued_def by blast
qed

lemma bfs_step_done:
  assumes inv: "bfs_inv adj s visited ((k, path) # q)"
    and q': "q' = q @ map (\<lambda>e. (eTo e, path @ [hop e])) new"
    and new: "eTo ` set new \<inter> set visited = {}" and v': "set v' = set visited \<union> eTo ` set new"
  shows "done_at v' q' = insert k (done_at visited ((k, path) # q))"
proof -
  have "k \<in> set visited" "k \<notin> fst ` set q" "fst ` set q \<subseteq> set visited"
    using inv by (auto simp: bfs_inv_def)
  then show ?thesis using new unfolding done_at_def q' v' by (auto simp: image_Un image_image)
qed

lemma bfs_step_queue:
  assumes inv: "bfs_inv adj s visited ((k, path) # q)"
    and q': "q' = q @ map (\<lambda>e. (eTo e, path @ [hop e])) new"
  shows "sorted (map (length \<circ> snd) q')" "n \<in> set q' \<Longrightarrow> length path \<le> length (snd n)"
    "n \<in> set q' \<Longrightarrow> length (snd n) \<le> Suc (length path)"
  using inv unfolding q' bfs_inv_def by (auto simp: sorted_append comp_def map_replicate_const)

lemma bfs_inv_step:
  assumes inv: "bfs_inv adj s visited ((k, path) # q)"
    and st: "bfs_edges path (adj_get adj k) visited q = Inr (v', q')"
  shows "bfs_inv adj s v' q'"
proof -
  obtain new where q': "q' = q @ map (\<lambda>e. (eTo e, path @ [hop e])) new" and sub: "set new \<subseteq> set (adj_get adj k)"
    and dist: "distinct (map eTo new)" and fresh: "eTo ` set new \<inter> set visited = {}"
    and all: "set v' = set visited \<union> eTo ` set (adj_get adj k)"
    and v': "set v' = set visited \<union> eTo ` set new" and quiet: "calm (adj_get adj k)"
    using bfs_edges_Inr [OF st] by blast
  note dn = bfs_step_done [OF inv q' fresh v'] and qs = bfs_step_queue [OF inv q']
  have keys: "distinct (map fst q)" "fst ` set q \<subseteq> set visited" "s \<in> set visited"
    using inv by (auto simp: bfs_inv_def)
  have que: "queued adj s n" if mem: "n \<in> set q'" for n
  proof (cases "n \<in> set q")
    case True
    then show ?thesis using inv by (auto simp: bfs_inv_def)
  next
    case False
    then obtain e where e: "e \<in> set new" "n = (eTo e, path @ [hop e])" using mem q' by auto
    then have "e \<in> set (adj_get adj k)" "eTo e \<notin> set visited" "\<not> isTarget (eTo e)"
      using sub fresh quiet by (auto simp: calm_def)
    then show ?thesis using bfs_inv_new [OF inv] e by blast
  qed
  have near: "trail_end s es \<in> done_at v' q'"
    if "q' \<noteq> []" "trail adj s es" "calm es" "length es < length (snd (hd q'))" for es
  proof (cases "length es < length path")
    case True
    then have "trail_end s es \<in> done_at visited ((k, path) # q)"
      using inv that by (simp add: bfs_inv_def)
    then show ?thesis by (simp add: dn)
  next
    case False
    have "length (snd (hd q')) \<le> Suc (length path)" using qs(3) that(1) by simp
    then have len: "length es \<le> length path" "length (snd (hd q')) = Suc (length es)"
      using that(4) False by auto
    have "trail_end s es \<in> set v'"
      using bfs_inv_close [OF inv that(2,3) len(1)] v' by auto
    moreover have "trail_end s es \<notin> fst ` set q'"
    proof
      assume "trail_end s es \<in> fst ` set q'"
      then obtain p where n: "(trail_end s es, p) \<in> set q'" by auto
      have "length (snd (hd q')) \<le> length p"
        using qs(1) n by (cases q') fastforce+
      moreover have "length p \<le> length es" using que [OF n] that(2,3) by (auto simp: queued_def)
      ultimately show False using len by simp
    qed
    ultimately show ?thesis by (simp add: done_at_def)
  qed
  show ?thesis
    unfolding bfs_inv_def
  proof (intro conjI ballI impI allI)
    show "s \<in> set v'" using keys v' by auto
    show "distinct (map fst q')" using keys dist fresh unfolding q' by (auto simp: comp_def)
    show "fst ` set q' \<subseteq> set v'" using keys v' unfolding q' by auto
    show "eTo e \<in> set v'" if "u \<in> done_at v' q'" "e \<in> set (adj_get adj u)" for u e
      using that inv v' all unfolding dn bfs_inv_def by auto
    show "\<not> isTarget (eTo e)" if "u \<in> done_at v' q'" "e \<in> set (adj_get adj u)" for u e
      using that inv quiet unfolding dn bfs_inv_def calm_def by auto
    show "sorted (map (length \<circ> snd) q')" by (rule qs)
    show "length (snd n) \<le> Suc (length (snd (hd q')))" if "q' \<noteq> []" "n \<in> set q'" for n
      using qs(3) [OF that(2)] qs(2) [of "hd q'"] that(1) by simp
  qed (use que near in \<open>auto\<close>)
qed

lemma bfs_inv_found:
  assumes inv: "bfs_inv adj s visited ((k, path) # q)"
    and st: "bfs_edges path (adj_get adj k) visited q = Inl (p, t)"
  shows "\<exists>es. escape adj s es \<and> t = eTo (last es) \<and> p = map hop (butlast es) @ [lastHop (last es)]
     \<and> (\<forall>es'. escape adj s es' \<longrightarrow> length es \<le> length es')"
proof -
  obtain e where e: "e \<in> set (adj_get adj k)" "isTarget (eTo e)" "t = eTo e" "p = path @ [lastHop e]"
    using bfs_edges_Inl [OF st] by blast
  obtain es0 where es0: "trail adj s es0" "calm es0" "trail_end s es0 = k" "path = map hop es0"
    using inv by (auto simp: bfs_inv_def queued_def)
  have "escape adj s (es0 @ [e])" using e es0 by (auto simp: escape_snoc)
  moreover have "length (es0 @ [e]) \<le> length es'" if esc: "escape adj s es'" for es'
  proof (rule ccontr)
    assume "\<not> length (es0 @ [e]) \<le> length es'"
    moreover obtain es2 e2 where es': "es' = es2 @ [e2]" "trail adj s es2" "calm es2"
      "e2 \<in> set (adj_get adj (trail_end s es2))" "isTarget (eTo e2)"
      using esc unfolding escape_snoc by blast
    ultimately have "length es2 < length path" using es0(4) by simp
    then have "trail_end s es2 \<in> done_at visited ((k, path) # q)"
      using inv es' by (simp add: bfs_inv_def)
    then show False using inv es' by (auto simp: bfs_inv_def)
  qed
  ultimately show ?thesis using e es0(4) by (intro exI [of _ "es0 @ [e]"]) simp
qed

lemma bfs_inv_empty:
  assumes inv: "bfs_inv adj s visited []"
  shows "\<not> escape adj s es"
proof
  assume "escape adj s es"
  then obtain es2 e2 where es': "trail adj s es2" "calm es2"
    "e2 \<in> set (adj_get adj (trail_end s es2))" "isTarget (eTo e2)"
    by (auto simp: escape_snoc)
  have "trail_end s es2 \<in> set visited"
    using es'(1)
  proof (induction es2 rule: rev_induct)
    case Nil
    then show ?case using inv by (simp add: bfs_inv_def)
  next
    case (snoc e es)
    then show ?case using inv by (auto simp: trail_snoc bfs_inv_def done_at_def)
  qed
  then show False using inv es' by (auto simp: bfs_inv_def done_at_def)
qed

lemma bfs_loop_correct:
  assumes "bfs_inv adj s visited queue" and "bfs_loop adj visited queue = (p, t)"
  shows "t = [] \<and> p = [] \<and> (\<forall>es. \<not> escape adj s es)
    \<or> (\<exists>es. escape adj s es \<and> t = eTo (last es) \<and> p = map hop (butlast es) @ [lastHop (last es)]
         \<and> (\<forall>es'. escape adj s es' \<longrightarrow> length es \<le> length es'))"
  using assms
proof (induction adj visited queue rule: bfs_loop.induct)
  case (1 adj visited)
  then show ?case using bfs_inv_empty by auto
next
  case (2 adj visited key path queue)
  show ?case
  proof (cases "bfs_edges path (adj_get adj key) visited queue")
    case (Inl a)
    then show ?thesis using "2.prems" bfs_inv_found by (cases a) fastforce
  next
    case (Inr b)
    then show ?thesis
      using "2.prems" "2.IH" [of b "fst b" "snd b"] bfs_inv_step [of adj s visited key path queue "fst b" "snd b"]
      by (cases b) simp
  qed
qed

lemma bfs_inv_start: "bfs_inv adj s [s] [(s, [])]"
proof -
  have "queued adj s (s, [])"
    unfolding queued_def by (auto intro!: exI [of _ "[]"])
  then show ?thesis by (simp add: bfs_inv_def done_at_def)
qed

text \<open>
  C33: The search returns the target of a shortest escalation, with the hops of that very trail as
  the narration; it returns no target exactly when the principal cannot escalate at all.
\<close>

theorem bfsToTarget_shortest:
  "case bfsToTarget adj s of (p, t) \<Rightarrow>
     (if t = [] then p = [] \<and> \<not> (\<exists>es. escape adj s es)
      else (\<exists>es. escape adj s es \<and> t = eTo (last es) \<and> p = map hop (butlast es) @ [lastHop (last es)]
              \<and> \<not> (\<exists>es'. escape adj s es' \<and> length es' < length es)))"
proof -
  obtain p t where pt: "bfsToTarget adj s = (p, t)" by fastforce
  have ne: "eTo (last es) \<noteq> []" if "escape adj s es" for es
    using that by (auto simp: escape_def isTarget_def targetClusterAdmin_def targetNodeRoot_def)
  show ?thesis
    using bfs_loop_correct [OF bfs_inv_start pt [unfolded bfsToTarget_def]] ne
    by (auto simp: pt not_less)
qed

lemma bfsToTarget_none: "snd (bfsToTarget adj s) = [] \<longleftrightarrow> \<not> (\<exists>es. escape adj s es)"
  using bfs_loop_correct [OF bfs_inv_start, of adj s] unfolding bfsToTarget_def
  by (cases "bfs_loop adj [s] [(s, [])]")
     (auto simp: escape_def isTarget_def targetClusterAdmin_def targetNodeRoot_def)

lemma bfsToTarget_target: "snd (bfsToTarget adj s) \<noteq> [] \<Longrightarrow> isTarget (snd (bfsToTarget adj s))"
  using bfs_loop_correct [OF bfs_inv_start, of adj s] unfolding bfsToTarget_def
  by (cases "bfs_loop adj [s] [(s, [])]") (auto simp: escape_def)

end
