(* ===== verification/RbacPaths.thy ===== *)
theory RbacPaths
  imports RbacEscalation
begin

text \<open>
  The rest of \<^verbatim>\<open>escalation.go\<close> and \<^verbatim>\<open>nhi.go\<close> of \<^verbatim>\<open>internal/rbac\<close>: what the escalation edges mean,
  the report of escalation paths, the generated least-privilege roles and the blast radius of
  machine identities.
\<close>

subsection \<open>The edges\<close>

definition held :: "permission list \<Rightarrow> string \<Rightarrow> string \<Rightarrow> bool" where
  "held ps v r \<longleftrightarrow> (\<exists>p \<in> set ps. pmVerb p = v \<and> pmResource p = r)"

lemma vr_bar_split:
  assumes "CHR ''|'' \<notin> set v" "CHR ''|'' \<notin> set r" "a @ ''|'' @ b = v @ ''|'' @ r"
  shows "a = v \<and> b = r"
proof -
  have "count_list (a @ ''|'' @ b) CHR ''|'' = count_list (v @ ''|'' @ r) CHR ''|''"
    using assms(3) by simp
  then have "count_list a CHR ''|'' + count_list b CHR ''|'' = 0"
    using assms(1,2) by (simp add: count_list_0_iff)
  then have "CHR ''|'' \<notin> set a"
    by (simp add: count_list_0_iff)
  then show ?thesis
    using arg_cong [OF assms(3), of "cut_byte CHR ''|''"] assms(1) by simp
qed

lemma has_held:
  assumes "CHR ''|'' \<notin> set v" "CHR ''|'' \<notin> set r"
  shows "has (indexPerms ps) v r \<longleftrightarrow> held ps v r"
  using vr_bar_split [OF assms] by (auto simp: has_def indexPerms_def held_def image_iff)

lemma hasVerb_iff: "hasVerb (indexPerms ps) v \<longleftrightarrow> (\<exists>p \<in> set ps. pmVerb p = v)"
  by (auto simp: hasVerb_def indexPerms_def)

lemma identityTheftScope_loop_iff:
  "identityTheftScope_loop cw nss ps = (cw', nss') \<Longrightarrow>
     (cw' \<longleftrightarrow> cw \<or> (\<exists>p \<in> set ps. is_theft p \<and> pmNamespace p = []))
     \<and> set nss' = set nss \<union> {pmNamespace p | p. p \<in> set ps \<and> is_theft p \<and> pmNamespace p \<noteq> []}"
  by (induction cw nss ps rule: identityTheftScope_loop.induct) (auto split: if_splits)

text \<open>What lets a subject take over the cluster, a node, or another identity.\<close>

definition adminPower :: "graph \<Rightarrow> string \<Rightarrow> bool" where
  "adminPower g k \<longleftrightarrow>
     (let ps = SubjectPermissions g k in
      boundToClusterAdmin g k
      \<or> held ps ''escalate'' ''roles'' \<or> held ps ''escalate'' ''clusterroles'' \<or> held ps ''escalate'' ''*''
      \<or> held ps ''bind'' ''clusterroles'' \<or> held ps ''bind'' ''*''
      \<or> (\<exists>p \<in> set ps. pmVerb p = ''impersonate'')
      \<or> (held ps ''create'' ''certificatesigningrequests'' \<or> held ps ''*'' ''certificatesigningrequests'')
        \<and> (held ps ''update'' ''certificatesigningrequests/approval'' \<or> held ps ''*'' ''signers''
           \<or> held ps ''*'' ''certificatesigningrequests/approval''))"

definition nodePower :: "graph \<Rightarrow> string \<Rightarrow> bool" where
  "nodePower g k \<longleftrightarrow>
     (let ps = SubjectPermissions g k in
      (\<exists>r \<in> {''pods'', ''deployments'', ''daemonsets'', ''statefulsets'', ''jobs''}. held ps ''create'' r)
      \<or> held ps ''*'' ''pods'' \<or> held ps ''get'' ''nodes/proxy'' \<or> held ps ''*'' ''nodes/proxy''
      \<or> held ps ''get'' ''nodes'')"

definition steals :: "graph \<Rightarrow> string \<Rightarrow> string \<Rightarrow> bool" where
  "steals g k other \<longleftrightarrow> other \<in> set (serviceAccountSubjectKeys g) \<and> other \<noteq> k
     \<and> (\<exists>p \<in> set (SubjectPermissions g k). is_theft p
          \<and> (pmNamespace p = [] \<or> pmNamespace p = subjectNamespace other))"

lemma edge_heads [simp]: "eTo ` set (edge cond t why) = (if cond then {t} else {})"
  by (simp add: edge_def)

lemma theftEdges_heads:
  "eTo ` set (theftEdges perms sk keys) = {other \<in> set keys. other \<noteq> sk
     \<and> (\<exists>p \<in> set perms. is_theft p \<and> (pmNamespace p = [] \<or> pmNamespace p = subjectNamespace other))}"
proof -
  obtain cw nss where sc: "identityTheftScope perms = (cw, nss)" by fastforce
  note iff = identityTheftScope_loop_iff [OF sc [unfolded identityTheftScope_def]]
  have "eTo ` set (concat (map (\<lambda>t. if t = sk then [] else edge (P t) t (why t)) ks)) = {t \<in> set ks. t \<noteq> sk \<and> P t}"
    for P why and ks :: "string list"
    by (induction ks) (auto simp: image_Un)
  then have "eTo ` set (theftEdges perms sk keys) = {other \<in> set keys. other \<noteq> sk \<and> (cw \<or> subjectNamespace other \<in> set nss)}"
    unfolding theftEdges_def sc by (cases "cw \<or> length nss > 0") auto
  moreover have "(cw \<or> ns \<in> set nss) \<longleftrightarrow> (\<exists>p \<in> set perms. is_theft p \<and> (pmNamespace p = [] \<or> pmNamespace p = ns))" for ns
    using iff by auto
  ultimately show ?thesis by simp
qed

lemma adminPower_index:
  "adminPower g k \<longleftrightarrow> (let ix = indexPerms (SubjectPermissions g k) in
     boundToClusterAdmin g k
     \<or> (has ix ''escalate'' ''roles'' \<or> has ix ''escalate'' ''clusterroles'' \<or> has ix ''escalate'' ''*'')
     \<or> (has ix ''bind'' ''clusterroles'' \<or> has ix ''bind'' ''*'') \<or> hasVerb ix ''impersonate'' \<or> csrPower ix)"
  by (simp add: adminPower_def Let_def has_held hasVerb_iff csrPower_def)

lemma nodePower_index:
  "nodePower g k \<longleftrightarrow> (let ix = indexPerms (SubjectPermissions g k) in
     (hasAnyResource ix ''create'' [''pods'', ''deployments'', ''daemonsets'', ''statefulsets'', ''jobs''] \<or> has ix ''*'' ''pods'')
     \<or> (has ix ''get'' ''nodes/proxy'' \<or> has ix ''*'' ''nodes/proxy'' \<or> hasAnyResource ix ''get'' [''nodes'']))"
  by (simp add: nodePower_def Let_def has_held hasAnyResource_def disj_assoc)

lemma union_ifs:
  "(if a1 then {s} else {}) \<union> ((if a2 then {s} else {}) \<union> ((if a3 then {s} else {}) \<union> ((if a4 then {s} else {})
     \<union> ((if a5 then {s} else {}) \<union> ((if b1 then {t} else {}) \<union> ((if b2 then {t} else {}) \<union> X))))))
   = (if a1 \<or> a2 \<or> a3 \<or> a4 \<or> a5 then {s} else {}) \<union> (if b1 \<or> b2 then {t} else {}) \<union> X"
  by (cases a1; cases a2; cases a3; cases a4; cases a5; cases b1; cases b2; simp)

lemma edgesFrom_heads:
  "eTo ` set (edgesFrom g (serviceAccountSubjectKeys g) k)
     = (if adminPower g k then {targetClusterAdmin} else {}) \<union> (if nodePower g k then {targetNodeRoot} else {})
       \<union> {other. steals g k other}"
  unfolding edgesFrom_def Let_def set_append image_Un edge_heads theftEdges_heads steals_def
    adminPower_index nodePower_index union_ifs by simp

lemma adj_get_build:
  "adj_get (buildEscalationEdges g) k
     = (if k \<in> set (subjectKeys g) then sort_stable edge_less (edgesFrom g (serviceAccountSubjectKeys g) k) else [])"
proof -
  have "map_of (map (\<lambda>(k, es). (k, s es)) (filter (\<lambda>(k, es). es \<noteq> []) (map (\<lambda>sk. (sk, f sk)) ks))) k
      = (if k \<in> set ks \<and> f k \<noteq> [] then Some (s (f k)) else None)"
    for ks :: "string list" and f :: "string \<Rightarrow> escEdge list" and s :: "escEdge list \<Rightarrow> escEdge list"
    by (induction ks) auto
  then show ?thesis
    unfolding adj_get_def buildEscalationEdges_def by simp
qed

lemma escalation_step:
  "(\<exists>e \<in> set (adj_get (buildEscalationEdges g) k). eTo e = t) \<longleftrightarrow>
     k \<in> set (subjectKeys g)
     \<and> (t = targetClusterAdmin \<and> adminPower g k \<or> t = targetNodeRoot \<and> nodePower g k \<or> steals g k t)"
proof -
  have "(\<exists>e \<in> set (adj_get (buildEscalationEdges g) k). eTo e = t)
      \<longleftrightarrow> t \<in> eTo ` set (adj_get (buildEscalationEdges g) k)"
    by auto
  also have "\<dots> \<longleftrightarrow> k \<in> set (subjectKeys g) \<and> t \<in> eTo ` set (edgesFrom g (serviceAccountSubjectKeys g) k)"
    by (cases "k \<in> set (subjectKeys g)") (simp_all add: adj_get_build)
  finally show ?thesis by (auto simp: edgesFrom_heads)
qed

subsection \<open>Reported paths\<close>

record startPoint =
  spOrigin :: string
  spSubjectKey :: string

definition start_less :: "startPoint \<Rightarrow> startPoint \<Rightarrow> bool" where
  "start_less = key_less spOrigin (\<lambda>a b. False)"

definition pod_start :: "pod \<Rightarrow> startPoint" where
  "pod_start p =
     (let sk = subject_key \<lparr> suKind = ''ServiceAccount'', suName = effectiveSA p, suNamespace = pdNamespace p \<rparr>
      in \<lparr> spOrigin = ''Pod '' @ pdNamespace p @ ''/'' @ pdName p @ '' (as '' @ sk @ '')'', spSubjectKey = sk \<rparr>)"

definition podStarts :: "cluster \<Rightarrow> startPoint list" where
  "podStarts c = sort_stable start_less (map pod_start (clPods c))"

definition saStarts :: "graph \<Rightarrow> startPoint list" where
  "saStarts g = map (\<lambda>sk. \<lparr> spOrigin = strings_TrimPrefix sk ''ServiceAccount/'', spSubjectKey = sk \<rparr>)
     (serviceAccountSubjectKeys g)"

fun add_starts :: "string list \<Rightarrow> startPoint list \<Rightarrow> startPoint list \<Rightarrow> startPoint list" where
  "add_starts covered starts [] = starts"
| "add_starts covered starts (s # ss) =
     (if spSubjectKey s \<in> set covered then add_starts covered starts ss
      else add_starts (spSubjectKey s # covered) (starts @ [s]) ss)"

definition escStarts :: "cluster \<Rightarrow> graph \<Rightarrow> startPoint list" where
  "escStarts c g = sort_stable start_less
     (add_starts (map spSubjectKey (podStarts c)) (podStarts c) (saStarts g))"

definition pathRisk :: "startPoint \<Rightarrow> string list \<Rightarrow> string \<Rightarrow> risk" where
  "pathRisk st path t =
     (let narration = spOrigin st # path in
      \<lparr> rkRuleID = ''DS-RAT-RBAC-014'', rkSeverity = SeverityCritical,
        rkTitle = ''Privilege-escalation path from '' @ spOrigin st @ '' to '' @ prettyTarget t,
        rkDescription = join_with (''  '' @ arrow @ ''  '') narration,
        rkSubject = spSubjectKey st, rkResource = prettyTarget t,
        rkRemediation = ''Break the chain: remove the escalation primitive named in the first hop, or block privileged pod creation at admission (Phase 4).'',
        rkReferences = [refMitrePrivEsc, refMitreEscape, refK8sHarden], rkPath = narration,
        rkMeta = [(''target'', prettyTarget t), (''hops'', itoa_nat (length path))] \<rparr>)"

definition checkEscalationPaths :: "cluster \<Rightarrow> graph \<Rightarrow> risk list" where
  "checkEscalationPaths c g =
     (let adj = buildEscalationEdges g in
      dedupe (concat (map (\<lambda>st. let (path, t) = bfsToTarget adj (spSubjectKey st) in
        if t = [] then [] else [pathRisk st path t]) (escStarts c g))))"

subsection \<open>Least privilege\<close>

definition setToSorted :: "string list \<Rightarrow> string list" where
  "setToSorted m = sort_Strings m"

definition replaceKeyByte :: "char \<Rightarrow> string" where
  "replaceKeyByte ch = (if ch = CHR ''/'' \<or> ch = CHR '':'' then ''-'' else if ch = CHR ''*'' then ''wildcard'' else [ch])"

definition leastPrivName :: "string \<Rightarrow> string" where
  "leastPrivName key = ''least-privilege-'' @ strings_ToLower (concat (map replaceKeyByte key))"

definition sortedKeys :: "(string \<times> 'v) list \<Rightarrow> string list" where
  "sortedKeys m = sort_Strings (map fst m)"

type_synonym bucket = "string list \<times> string list"

fun bucket_loop :: "(string \<times> bucket) list \<Rightarrow> permission list \<Rightarrow> (string \<times> bucket) list" where
  "bucket_loop groups [] = groups"
| "bucket_loop groups (p # ps) =
     (let (verbs, resources) = (case map_of groups (pmAPIGroup p) of None \<Rightarrow> ([], []) | Some b \<Rightarrow> b)
      in bucket_loop (kv_put (pmAPIGroup p) (set_put (pmVerb p) verbs, set_put (pmResource p) resources) groups) ps)"

definition GenerateLeastPrivilege :: "string \<Rightarrow> permission list \<Rightarrow> role" where
  "GenerateLeastPrivilege key observed =
     (let groups = bucket_loop [] observed in
      \<lparr> roName = leastPrivName key, roNamespace = [], roClusterScoped = False,
        roRules = map (\<lambda>grp. let (verbs, resources) = (case map_of groups grp of None \<Rightarrow> ([], []) | Some b \<Rightarrow> b) in
          \<lparr> prAPIGroups = [grp], prResources = setToSorted resources, prResourceNames = [],
            prVerbs = setToSorted verbs, prNonResourceURLs = [] \<rparr>) (sortedKeys groups),
        roLabels = [], roAggregates = False \<rparr>)"

subsection \<open>Machine identities\<close>

record nhiScore =
  nsSubjectKey :: string
  nsReachesTarget :: string
  nsReachCount :: int
  nsNamespaces :: "string list"
  nsDormant :: bool
  nsLastUsed :: int

record options =
  opEnableNHI :: bool
  opNow :: gotime
  opDormantAfter :: duration
  opBroadThreshold :: int

definition op_now :: "options \<Rightarrow> gotime" where
  "op_now opts = (if opNow opts = 0 then time_Unix 0 else opNow opts)"

definition op_dormantAfter :: "options \<Rightarrow> duration" where
  "op_dormantAfter opts = (if opDormantAfter opts \<le> 0 then 90 * 24 * Hour else opDormantAfter opts)"

definition op_broadThreshold :: "options \<Rightarrow> int" where
  "op_broadThreshold opts = (if opBroadThreshold opts \<le> 0 then 3 else opBroadThreshold opts)"

fun reach_edges :: "escEdge list \<Rightarrow> string list \<times> string list \<times> string \<times> int \<Rightarrow> string list \<times> string list \<times> string \<times> int" where
  "reach_edges [] st = st"
| "reach_edges (e # es) (visited, queue, target, n) =
     (if isTarget (eTo e) then
        reach_edges es (visited, queue,
          (if target = [] \<or> eTo e = targetClusterAdmin then prettyTarget (eTo e) else target), n)
      else if eTo e \<in> set visited then reach_edges es (visited, queue, target, n)
      else reach_edges es (eTo e # visited, queue @ [eTo e], target, n + 1))"

lemma reach_edges_measure:
  "reach_edges es (visited, queue, target, n) = (v', q', t', n') \<Longrightarrow> (\<And>e. e \<in> set es \<Longrightarrow> eTo e \<in> H) \<Longrightarrow> finite H \<Longrightarrow>
   card (H - set v') + length q' \<le> card (H - set visited) + length queue"
proof (induction es arbitrary: visited queue target n)
  case (Cons e es)
  show ?case
  proof (cases "isTarget (eTo e) \<or> eTo e \<in> set visited")
    case True
    with Cons show ?thesis by (auto split: if_splits)
  next
    case False
    then have "eTo e \<in> H - set visited" using Cons.prems(2) by simp
    moreover have "H - set (eTo e # visited) = (H - set visited) - {eTo e}" by auto
    ultimately have "Suc (card (H - set (eTo e # visited))) = card (H - set visited)"
      using Cons.prems(3) by (metis card_Suc_Diff1 finite_Diff)
    then show ?thesis
      using Cons.IH [of "eTo e # visited" "queue @ [eTo e]" target "n + 1"] Cons.prems False by simp
  qed
qed simp

function reach_loop :: "adjacency \<Rightarrow> string list \<Rightarrow> string list \<Rightarrow> string \<Rightarrow> int \<Rightarrow> string \<times> int" where
  "reach_loop adj visited [] target n = (target, n)"
| "reach_loop adj visited (cur # queue) target n =
     (let (visited', queue', target', n') = reach_edges (adj_get adj cur) (visited, queue, target, n)
      in reach_loop adj visited' queue' target' n')"
  by pat_completeness auto

termination
proof (relation "measure (\<lambda>(adj, visited, queue, target, n). card (heads adj - set visited) + length queue)")
  fix adj visited cur queue target n x v' y q' z t' n'
  assume "x = reach_edges (adj_get adj cur) (visited, queue, target, n)" "(v', y) = x" "(q', z) = y" "(t', n') = z"
  then have "reach_edges (adj_get adj cur) (visited, queue, target, n) = (v', q', t', n')"
    by simp
  then have "card (heads adj - set v') + length q' \<le> card (heads adj - set visited) + length queue"
    by (rule reach_edges_measure) (auto intro: adj_get_heads)
  then show "((adj, v', q', t', n'), adj, visited, cur # queue, target, n)
      \<in> measure (\<lambda>(adj, visited, queue, target, n). card (heads adj - set visited) + length queue)"
    by simp
qed simp

fun lookupSA_loop :: "string \<Rightarrow> (string \<times> serviceAccount) list \<Rightarrow> serviceAccount option" where
  "lookupSA_loop key [] = None"
| "lookupSA_loop key ((k, sa) # rest) =
     (if subject_key \<lparr> suKind = ''ServiceAccount'', suName = saName sa, suNamespace = saNamespace sa \<rparr> = key then Some sa
      else lookupSA_loop key rest)"

definition lookupSA :: "cluster \<Rightarrow> string \<Rightarrow> serviceAccount option" where
  "lookupSA c key = lookupSA_loop key (clServiceAccounts c)"

definition scoreIdentity :: "cluster \<Rightarrow> graph \<Rightarrow> adjacency \<Rightarrow> string \<Rightarrow> gotime \<Rightarrow> duration \<Rightarrow> nhiScore" where
  "scoreIdentity c g adj sk now dormantAfter =
     (let (target, n) = reach_loop adj [sk] [sk] [] 0;
          nss = set_puts (map (\<lambda>gr. if grNamespace gr = [] then ''*cluster*'' else grNamespace gr)
            (filter (\<lambda>gr. subject_key (grSubject gr) = sk) (gGrants g))) [];
          used = (case lookupSA c sk of None \<Rightarrow> 0 | Some sa \<Rightarrow> if saLastUsed sa > 0 then saLastUsed sa else 0)
      in \<lparr> nsSubjectKey = sk, nsReachesTarget = target, nsReachCount = (if target \<noteq> [] then n + 1 else n),
           nsNamespaces = nss, nsDormant = (used > 0 \<and> time_Sub now (time_Unix used) > dormantAfter),
           nsLastUsed = used \<rparr>)"

definition float_trunc :: "float64 \<Rightarrow> int" where
  "float_trunc x = (case x of Fin q \<Rightarrow> (if q < 0 then \<lceil>q\<rceil> else \<lfloor>q\<rfloor>) | _ \<Rightarrow> 0)"

definition dur_Hours :: "duration \<Rightarrow> float64" where
  "dur_Hours d = fadd (float_of_int (quot d Hour)) (fdiv (float_of_int (remt d Hour)) (Fin 3600000000000))"

definition dormancyDesc :: "nhiScore \<Rightarrow> gotime \<Rightarrow> string" where
  "dormancyDesc s now =
     (let idle = time_Sub now (time_Unix (nsLastUsed s));
          reach = (if nsReachesTarget s \<noteq> [] then ''reaches '' @ nsReachesTarget s else ''no terminal target'')
      in ''last used '' @ dur_String (dur_Round idle Hour) @ '' ago ('' @ fmt_int (float_trunc (fdiv (dur_Hours idle) (Fin 24)))
         @ '' days); blast radius '' @ fmt_int (nsReachCount s) @ '', '' @ reach @ '' across ''
         @ itoa_nat (length (nsNamespaces s)) @ '' namespace(s)'')"

definition blastDesc :: "nhiScore \<Rightarrow> string" where
  "blastDesc s =
     (let reach = (if nsReachesTarget s \<noteq> [] then ''can escalate to '' @ nsReachesTarget s else ''no terminal target'')
      in ''blast radius '' @ fmt_int (nsReachCount s) @ '' principals across '' @ itoa_nat (length (nsNamespaces s))
         @ '' namespace(s); '' @ reach)"

definition nhiMeta :: "nhiScore \<Rightarrow> (string \<times> string) list" where
  "nhiMeta s =
     [(''blastRadius'', fmt_int (nsReachCount s)), (''namespaces'', itoa_nat (length (nsNamespaces s))),
      (''dormant'', fmt_t (nsDormant s))]
     @ (if nsReachesTarget s \<noteq> [] then [(''reachesTarget'', nsReachesTarget s)] else [])
     @ (if nsLastUsed s > 0 then [(''lastUsedUnix'', fmt_int (nsLastUsed s))] else [])"

definition dormantRisk :: "nhiScore \<Rightarrow> gotime \<Rightarrow> risk" where
  "dormantRisk s now =
     \<lparr> rkRuleID = ''DS-RAT-RBAC-018'', rkSeverity = SeverityHigh,
       rkTitle = ''Dormant automation identity '' @ nsSubjectKey s @ '' still holds broad access'',
       rkDescription = dormancyDesc s now, rkSubject = nsSubjectKey s, rkResource = [],
       rkRemediation = ''Disable or delete unused ServiceAccounts; rotate their tokens. An unused identity with cluster reach is pure attack surface.'',
       rkReferences = [refK8sHarden, refNISTac6], rkPath = [], rkMeta = nhiMeta s \<rparr>"

definition broadRisk :: "nhiScore \<Rightarrow> risk" where
  "broadRisk s =
     \<lparr> rkRuleID = ''DS-RAT-RBAC-018'',
       rkSeverity = (if nsReachesTarget s = ''cluster-admin'' then SeverityCritical
         else if nsReachesTarget s \<noteq> [] then SeverityHigh else SeverityMedium),
       rkTitle = ''Over-broad automation identity '' @ nsSubjectKey s @ '' (blast radius '' @ fmt_int (nsReachCount s) @ '')'',
       rkDescription = blastDesc s, rkSubject = nsSubjectKey s, rkResource = [],
       rkRemediation = ''Split this identity per task and scope each with the least-privilege role (see generated role); if an AI agent holds this token, constrain what it can do when prompt-injected.'',
       rkReferences = [refK8sHarden, refNISTac6], rkPath = [], rkMeta = nhiMeta s \<rparr>"

definition checkNHI :: "cluster \<Rightarrow> graph \<Rightarrow> options \<Rightarrow> risk list" where
  "checkNHI c g opts =
     (let adj = buildEscalationEdges g; now = op_now opts in
      dedupe (concat (map (\<lambda>sk.
        let s = scoreIdentity c g adj sk now (op_dormantAfter opts);
            broad = (nsReachesTarget s \<noteq> [] \<or> nsReachCount s \<ge> op_broadThreshold opts)
        in if nsDormant s \<and> broad then [dormantRisk s now] else if broad then [broadRisk s] else [])
        (serviceAccountSubjectKeys g))))"

subsection \<open>The reported paths are the escalations\<close>

lemma add_starts_keys:
  "spSubjectKey ` set (add_starts covered starts ss)
     = spSubjectKey ` set starts \<union> (spSubjectKey ` set ss - set covered)"
proof (induction covered starts ss rule: add_starts.induct)
  case (2 covered starts s ss)
  then show ?case by (cases "spSubjectKey s \<in> set covered") auto
qed simp

definition start_keys :: "cluster \<Rightarrow> graph \<Rightarrow> string set" where
  "start_keys c g = (\<lambda>p. subject_key \<lparr> suKind = ''ServiceAccount'', suName = effectiveSA p, suNamespace = pdNamespace p \<rparr>) ` set (clPods c)
     \<union> set (serviceAccountSubjectKeys g)"

lemma escStarts_keys: "spSubjectKey ` set (escStarts c g) = start_keys c g"
proof -
  have "spSubjectKey ` set (podStarts c)
      = (\<lambda>p. subject_key \<lparr> suKind = ''ServiceAccount'', suName = effectiveSA p, suNamespace = pdNamespace p \<rparr>) ` set (clPods c)"
    by (simp add: podStarts_def pod_start_def Let_def image_image)
  moreover have "spSubjectKey ` set (saStarts g) = set (serviceAccountSubjectKeys g)"
    by (simp add: saStarts_def image_image)
  ultimately show ?thesis
    by (simp add: escStarts_def start_keys_def add_starts_keys Un_Diff_cancel)
qed

text \<open>Two risks that share the key of the duplicate filter are about the same subject.\<close>

lemma risk_key_subject:
  assumes "risk_key r = risk_key r'" "rkRuleID r = rkRuleID r'"
    and "CHR ''|'' \<notin> set (rkSubject r)" "CHR ''|'' \<notin> set (rkSubject r')"
  shows "rkSubject r = rkSubject r'"
proof -
  have "rkSubject r @ CHR ''|'' # rkResource r @ ''|'' @ rkTitle r
      = rkSubject r' @ CHR ''|'' # rkResource r' @ ''|'' @ rkTitle r'"
    using assms(1,2) by (simp add: risk_key_def)
  from arg_cong [OF this, of "cut_byte CHR ''|''"] show ?thesis
    using assms(3,4) by simp
qed

lemma dedupe_subjects:
  assumes "\<And>r. r \<in> set rs \<Longrightarrow> rkRuleID r = rid \<and> CHR ''|'' \<notin> set (rkSubject r)"
  shows "rkSubject ` set (dedupe rs) = rkSubject ` set rs"
proof
  show "rkSubject ` set (dedupe rs) \<subseteq> rkSubject ` set rs"
    using dedupe_by_subset [of risk_key "[]" rs] by (auto simp: dedupe_def)
  show "rkSubject ` set rs \<subseteq> rkSubject ` set (dedupe rs)"
  proof
    fix k assume "k \<in> rkSubject ` set rs"
    then obtain r where r: "r \<in> set rs" "k = rkSubject r" by auto
    then obtain r' where r': "r' \<in> set (dedupe rs)" "risk_key r' = risk_key r"
      using dedupe_by_represented [of r rs risk_key] by (auto simp: dedupe_def)
    then have "r' \<in> set rs" using dedupe_by_subset [of risk_key "[]" rs] by (auto simp: dedupe_def)
    then have "rkSubject r' = rkSubject r"
      using risk_key_subject [OF r'(2)] assms r(1) by metis
    then show "k \<in> rkSubject ` set (dedupe rs)" using r(2) r'(1) by (metis imageI)
  qed
qed

lemma pathRisk_simps [simp]: "rkRuleID (pathRisk st path t) = ''DS-RAT-RBAC-014''" "rkSubject (pathRisk st path t) = spSubjectKey st"
  by (simp_all add: pathRisk_def Let_def)

definition path_risks :: "adjacency \<Rightarrow> startPoint list \<Rightarrow> risk list" where
  "path_risks adj sts = concat (map (\<lambda>st. let (path, t) = bfsToTarget adj (spSubjectKey st) in
     if t = [] then [] else [pathRisk st path t]) sts)"

lemma checkEscalationPaths_alt:
  "checkEscalationPaths c g = dedupe (path_risks (buildEscalationEdges g) (escStarts c g))"
  by (simp add: checkEscalationPaths_def path_risks_def Let_def)

lemma path_risks_set:
  "r \<in> set (path_risks adj sts) \<longleftrightarrow> (\<exists>st \<in> set sts. snd (bfsToTarget adj (spSubjectKey st)) \<noteq> []
     \<and> r = pathRisk st (fst (bfsToTarget adj (spSubjectKey st))) (snd (bfsToTarget adj (spSubjectKey st))))"
  by (auto simp: path_risks_def split_beta Let_def split: if_splits)

lemma path_risks_subjects:
  "rkSubject ` set (path_risks adj sts)
     = {k \<in> spSubjectKey ` set sts. \<exists>es. escape adj k es}"
proof -
  have "k \<in> rkSubject ` set (path_risks adj sts) \<longleftrightarrow>
      (\<exists>st \<in> set sts. spSubjectKey st = k \<and> snd (bfsToTarget adj (spSubjectKey st)) \<noteq> [])" for k
    unfolding image_iff Bex_def path_risks_set by auto
  then show ?thesis
    by (intro set_eqI) (simp only: bfsToTarget_none mem_Collect_eq not_not image_iff Bex_def, metis)
qed


lemma start_keys0: "start_keys cluster0 (buildGraph cluster0) = {''ServiceAccount/ci/bot''}"
proof -
  have "map (\<lambda>p. subject_key \<lparr> suKind = ''ServiceAccount'', suName = effectiveSA p, suNamespace = pdNamespace p \<rparr>) (clPods cluster0)
      = [''ServiceAccount/ci/bot'']"
    "serviceAccountSubjectKeys (buildGraph cluster0) = [''ServiceAccount/ci/bot'']"
    by code_simp+
  then show ?thesis unfolding start_keys_def set_map [symmetric] by simp
qed


text \<open>
  The wildcards of the index: the index of the permissions is read without wildcards, so a pod
  whose service account may do everything to everything, through a role that is not named
  cluster-admin, is not reported, although the reverse query says it can escalate.
\<close>

theorem wildcard_admin_unreported:
  "checkEscalationPaths cluster0 (buildGraph cluster0) = []
   \<and> map subject_key (WhoCan (buildGraph cluster0) ''escalate'' ''rbac.authorization.k8s.io'' ''clusterroles'' []) = [''ServiceAccount/ci/bot'']
   \<and> map subject_key (WhoCan (buildGraph cluster0) ''create'' [] ''pods'' []) = [''ServiceAccount/ci/bot'']"
  by code_simp

subsection \<open>Least privilege\<close>

text \<open>The buckets hold what was observed in each group.\<close>

definition bucket_of :: "(string \<times> bucket) list \<Rightarrow> string \<Rightarrow> string set \<times> string set" where
  "bucket_of groups grp = (case map_of groups grp of None \<Rightarrow> ({}, {}) | Some (vs, rs) \<Rightarrow> (set vs, set rs))"

lemma bucket_loop_of:
  "bucket_of (bucket_loop groups ps) grp
     = (fst (bucket_of groups grp) \<union> {pmVerb p | p. p \<in> set ps \<and> pmAPIGroup p = grp},
        snd (bucket_of groups grp) \<union> {pmResource p | p. p \<in> set ps \<and> pmAPIGroup p = grp})"
proof (induction groups ps rule: bucket_loop.induct)
  case (2 groups p ps)
  obtain vs rs where b: "(case map_of groups (pmAPIGroup p) of None \<Rightarrow> ([], []) | Some b \<Rightarrow> b) = (vs, rs)"
    by fastforce
  have "bucket_of (kv_put (pmAPIGroup p) (set_put (pmVerb p) vs, set_put (pmResource p) rs) groups) grp
      = (if grp = pmAPIGroup p then (insert (pmVerb p) (fst (bucket_of groups grp)), insert (pmResource p) (snd (bucket_of groups grp)))
         else bucket_of groups grp)"
    using b by (auto simp: bucket_of_def split: option.splits)
  then show ?case
    using "2.IH" [OF b [symmetric] refl] b by auto
qed (simp add: prod_eq_iff)

lemma bucket_loop_keys:
  "fst ` set (bucket_loop groups ps) = fst ` set groups \<union> pmAPIGroup ` set ps"
  by (induction groups ps rule: bucket_loop.induct) (auto simp: split_beta)

definition observedIn :: "permission list \<Rightarrow> string \<Rightarrow> (permission \<Rightarrow> string) \<Rightarrow> string set" where
  "observedIn ps grp f = {f p | p. p \<in> set ps \<and> pmAPIGroup p = grp}"

lemma leastPrivilege_rules:
  assumes "rule \<in> set (roRules (GenerateLeastPrivilege key ps))"
  shows "\<exists>grp \<in> pmAPIGroup ` set ps. prAPIGroups rule = [grp] \<and> prResourceNames rule = [] \<and> prNonResourceURLs rule = []
        \<and> set (prVerbs rule) = observedIn ps grp pmVerb \<and> set (prResources rule) = observedIn ps grp pmResource"
proof -
  have b: "(case (case map_of (bucket_loop [] ps) grp of None \<Rightarrow> ([], []) | Some b \<Rightarrow> b) of (vs, rs) \<Rightarrow> (set vs, set rs))
      = (observedIn ps grp pmVerb, observedIn ps grp pmResource)" for grp
    using bucket_loop_of [of "[]" ps grp] by (auto simp: bucket_of_def observedIn_def split: option.splits)
  show ?thesis
    using assms b by (auto simp: GenerateLeastPrivilege_def Let_def sortedKeys_def setToSorted_def bucket_loop_keys split_beta)
qed

lemma leastPrivilege_group:
  "grp \<in> pmAPIGroup ` set ps \<Longrightarrow>
   \<exists>rule \<in> set (roRules (GenerateLeastPrivilege key ps)). prAPIGroups rule = [grp]"
  by (force simp: GenerateLeastPrivilege_def Let_def sortedKeys_def bucket_loop_keys split_beta)

text \<open>
  The generated role: it allows a verb on a resource of a group exactly when the
  verb and the resource were each observed in that group. So it covers everything observed; it
  also covers pairs that were never observed together.
\<close>

theorem least_privilege_exact:
  "(\<exists>rule \<in> set (roRules (GenerateLeastPrivilege key ps)). ruleMatches rule v grp res) =
   (\<exists>p q. p \<in> set ps \<and> q \<in> set ps \<and> pmAPIGroup p = pmAPIGroup q \<and> pmAPIGroup p \<in> {''*'', grp}
      \<and> pmVerb p \<in> {''*'', v} \<and> pmResource q \<in> {''*'', res})"
  (is "?L = ?R")
proof
  assume ?L
  then obtain rule where r: "rule \<in> set (roRules (GenerateLeastPrivilege key ps))" "ruleMatches rule v grp res" by blast
  then obtain g where g: "g \<in> pmAPIGroup ` set ps" "prAPIGroups rule = [g]" "set (prVerbs rule) = observedIn ps g pmVerb"
    "set (prResources rule) = observedIn ps g pmResource"
    using leastPrivilege_rules [OF r(1)] by blast
  then have "prResources rule \<noteq> []" by (auto simp: observedIn_def)
  then have "defaulted (prAPIGroups rule) = [g]" "defaulted (prResources rule) = prResources rule"
    using g(2) by (simp_all add: defaulted_def)
  then have w: "''*'' \<in> observedIn ps g pmVerb \<or> v \<in> observedIn ps g pmVerb" "''*'' = g \<or> grp = g"
    "''*'' \<in> observedIn ps g pmResource \<or> res \<in> observedIn ps g pmResource"
    using r(2) g(3,4) by (simp_all add: ruleMatches_def contains_wild_iff)
  obtain v' where v': "v' \<in> observedIn ps g pmVerb" "v' = ''*'' \<or> v' = v" using w(1) by blast
  obtain r' where r': "r' \<in> observedIn ps g pmResource" "r' = ''*'' \<or> r' = res" using w(3) by blast
  obtain p where p: "p \<in> set ps" "pmAPIGroup p = g" "pmVerb p = v'" using v'(1) unfolding observedIn_def by blast
  obtain q where q: "q \<in> set ps" "pmAPIGroup q = g" "pmResource q = r'" using r'(1) unfolding observedIn_def by blast
  have "p \<in> set ps \<and> q \<in> set ps \<and> pmAPIGroup p = pmAPIGroup q \<and> pmAPIGroup p \<in> {''*'', grp}
      \<and> pmVerb p \<in> {''*'', v} \<and> pmResource q \<in> {''*'', res}"
    using p q v'(2) r'(2) w(2) by auto
  then show ?R by (intro exI)
next
  assume ?R
  then obtain p q where pq: "p \<in> set ps" "q \<in> set ps" "pmAPIGroup q = pmAPIGroup p" "pmAPIGroup p \<in> {''*'', grp}"
    "pmVerb p \<in> {''*'', v}" "pmResource q \<in> {''*'', res}" by auto
  then obtain rule where r: "rule \<in> set (roRules (GenerateLeastPrivilege key ps))" "prAPIGroups rule = [pmAPIGroup p]"
    using leastPrivilege_group by blast
  then have "set (prVerbs rule) = observedIn ps (pmAPIGroup p) pmVerb"
    "set (prResources rule) = observedIn ps (pmAPIGroup p) pmResource"
    using leastPrivilege_rules [OF r(1)] by auto
  then have "pmVerb p \<in> set (prVerbs rule)" "pmResource q \<in> set (prResources rule)"
    using pq by (auto simp: observedIn_def)
  then have "ruleMatches rule v grp res"
    using pq r(2) by (auto simp: ruleMatches_def contains_wild_iff defaulted_def)
  then show ?L using r(1) by blast
qed

subsection \<open>Blast radius\<close>

lemma reach_edges_spec:
  assumes "reach_edges es (visited, queue, target, n) = (v', q', t', n')"
  shows "set v' = set visited \<union> {eTo e | e. e \<in> set es \<and> \<not> isTarget (eTo e)}
    \<and> (\<exists>new. q' = queue @ new \<and> distinct new \<and> set new = set v' - set visited \<and> n' = n + int (length new)
          \<and> set visited \<inter> set new = {})
    \<and> (t' \<noteq> [] \<longleftrightarrow> target \<noteq> [] \<or> (\<exists>e \<in> set es. isTarget (eTo e)))
    \<and> (t' = ''cluster-admin'' \<longleftrightarrow> target = ''cluster-admin'' \<or> (\<exists>e \<in> set es. eTo e = targetClusterAdmin))"
  using assms
proof (induction es arbitrary: visited queue target n)
  case Nil
  then show ?case by auto
next
  case (Cons e es)
  have ne: "prettyTarget targetClusterAdmin = ''cluster-admin''" "prettyTarget targetNodeRoot = ''node-root''"
    "targetNodeRoot \<noteq> targetClusterAdmin"
    by (simp_all add: prettyTarget_def targetClusterAdmin_def targetNodeRoot_def)
  consider (target) "isTarget (eTo e)" | (seen) "\<not> isTarget (eTo e)" "eTo e \<in> set visited"
    | (new) "\<not> isTarget (eTo e)" "eTo e \<notin> set visited" by blast
  then show ?case
  proof cases
    case target
    then have "reach_edges es (visited, queue, (if target = [] \<or> eTo e = targetClusterAdmin then prettyTarget (eTo e) else target), n)
        = (v', q', t', n')"
      using Cons.prems by simp
    note IH = Cons.IH [OF this]
    have "(if target = [] \<or> eTo e = targetClusterAdmin then prettyTarget (eTo e) else target) \<noteq> []
        \<and> ((if target = [] \<or> eTo e = targetClusterAdmin then prettyTarget (eTo e) else target) = ''cluster-admin''
             \<longleftrightarrow> target = ''cluster-admin'' \<or> eTo e = targetClusterAdmin)"
      using target ne by (auto simp: isTarget_def)
    then show ?thesis using IH target by (auto simp: Collect_disj_eq)
  next
    case seen
    then have "reach_edges es (visited, queue, target, n) = (v', q', t', n')"
      using Cons.prems by simp
    from Cons.IH [OF this] show ?thesis using seen by (auto simp: isTarget_def)
  next
    case new
    then have "reach_edges es (eTo e # visited, queue @ [eTo e], target, n + 1) = (v', q', t', n')"
      using Cons.prems by simp
    note IH = Cons.IH [OF this]
    then obtain nw where nw: "q' = queue @ [eTo e] @ nw" "distinct nw" "set nw = set v' - set (eTo e # visited)"
      "n' = n + 1 + int (length nw)" by auto
    have v': "set v' = set visited \<union> {eTo e' | e'. e' \<in> set (e # es) \<and> \<not> isTarget (eTo e')}"
      using IH new by auto
    have "q' = queue @ (eTo e # nw) \<and> distinct (eTo e # nw) \<and> set (eTo e # nw) = set v' - set visited
        \<and> n' = n + int (length (eTo e # nw)) \<and> set visited \<inter> set (eTo e # nw) = {}"
      using nw new v' by auto
    moreover have "t' \<noteq> [] \<longleftrightarrow> target \<noteq> [] \<or> (\<exists>e' \<in> set (e # es). isTarget (eTo e'))"
      "t' = ''cluster-admin'' \<longleftrightarrow> target = ''cluster-admin'' \<or> (\<exists>e' \<in> set (e # es). eTo e' = targetClusterAdmin)"
      using conjunct1 [OF conjunct2 [OF conjunct2 [OF IH]]] conjunct2 [OF conjunct2 [OF conjunct2 [OF IH]]] new(1)
      by (simp_all add: isTarget_def)
    ultimately show ?thesis using v' by blast
  qed
qed

text \<open>
  The invariant: a visited vertex that is not queued has its neighbours visited and its
  target recorded; the counter counts the visited vertices but the start.
\<close>

definition reach_inv :: "adjacency \<Rightarrow> string \<Rightarrow> string list \<Rightarrow> string list \<Rightarrow> string \<Rightarrow> int \<Rightarrow> bool" where
  "reach_inv adj s visited queue target n \<longleftrightarrow>
     s \<in> set visited \<and> distinct queue \<and> set queue \<subseteq> set visited
     \<and> (\<forall>u \<in> set visited - set queue. \<forall>e \<in> set (adj_get adj u). \<not> isTarget (eTo e) \<longrightarrow> eTo e \<in> set visited)
     \<and> (\<forall>u \<in> set visited. \<exists>es. trail adj s es \<and> calm es \<and> trail_end s es = u)
     \<and> (target \<noteq> [] \<longleftrightarrow> (\<exists>u \<in> set visited - set queue. \<exists>e \<in> set (adj_get adj u). isTarget (eTo e)))
     \<and> (target = ''cluster-admin'' \<longleftrightarrow> (\<exists>u \<in> set visited - set queue. \<exists>e \<in> set (adj_get adj u). eTo e = targetClusterAdmin))
     \<and> n = int (card (set visited)) - 1"

lemma reach_inv_step:
  assumes inv: "reach_inv adj s visited (cur # queue) target n"
    and st: "reach_edges (adj_get adj cur) (visited, queue, target, n) = (v', q', t', n')"
  shows "reach_inv adj s v' q' t' n'"
proof -
  from reach_edges_spec [OF st] obtain new where
    v': "set v' = set visited \<union> {eTo e | e. e \<in> set (adj_get adj cur) \<and> \<not> isTarget (eTo e)}"
    and new: "q' = queue @ new" "distinct new" "set new = set v' - set visited" "n' = n + int (length new)" "set visited \<inter> set new = {}"
    and t': "t' \<noteq> [] \<longleftrightarrow> target \<noteq> [] \<or> (\<exists>e \<in> set (adj_get adj cur). isTarget (eTo e))"
    and ca: "t' = ''cluster-admin'' \<longleftrightarrow> target = ''cluster-admin'' \<or> (\<exists>e \<in> set (adj_get adj cur). eTo e = targetClusterAdmin)"
    by blast
  have cur: "cur \<in> set visited" "cur \<notin> set queue" "set queue \<subseteq> set visited" "distinct queue" "s \<in> set visited"
    using inv by (auto simp: reach_inv_def)
  have dn: "set v' - set q' = insert cur (set visited - set (cur # queue))"
    using new cur v' by auto
  obtain es0 where es0: "trail adj s es0" "calm es0" "trail_end s es0 = cur"
    using inv cur(1) unfolding reach_inv_def by blast
  have tr: "\<exists>es. trail adj s es \<and> calm es \<and> trail_end s es = u" if u: "u \<in> set v'" for u
  proof (cases "u \<in> set visited")
    case True
    then show ?thesis using inv unfolding reach_inv_def by blast
  next
    case False
    then obtain e where e: "e \<in> set (adj_get adj cur)" "\<not> isTarget (eTo e)" "u = eTo e"
      using u v' by auto
    then have "trail adj s (es0 @ [e]) \<and> calm (es0 @ [e]) \<and> trail_end s (es0 @ [e]) = u"
      using es0 by (simp add: trail_snoc)
    then show ?thesis by blast
  qed
  have "card (set v') = card (set visited) + length new"
  proof -
    have "set v' = set visited \<union> set new" using new(3) v' by auto
    then show ?thesis using new(2,5) by (simp add: card_Un_disjoint distinct_card)
  qed
  then have n': "n' = int (card (set v')) - 1"
    using inv new(4) by (simp add: reach_inv_def)
  have closed: "eTo e \<in> set v'" if "u \<in> set v' - set q'" "e \<in> set (adj_get adj u)" "\<not> isTarget (eTo e)" for u e
    using that inv v' unfolding dn reach_inv_def by auto
  have tg: "t' \<noteq> [] \<longleftrightarrow> (\<exists>u \<in> set v' - set q'. \<exists>e \<in> set (adj_get adj u). isTarget (eTo e))"
    using inv t' unfolding dn reach_inv_def by (simp add: disj_commute)
  have tc: "t' = ''cluster-admin'' \<longleftrightarrow> (\<exists>u \<in> set v' - set q'. \<exists>e \<in> set (adj_get adj u). eTo e = targetClusterAdmin)"
    using inv ca unfolding dn reach_inv_def by (simp add: disj_commute)
  have "s \<in> set v'" "distinct q'" "set q' \<subseteq> set v'"
    using cur new v' by auto
  then show ?thesis unfolding reach_inv_def using closed tr tg tc n' by blast
qed

definition calmReach :: "adjacency \<Rightarrow> string \<Rightarrow> string set" where
  "calmReach adj s = {trail_end s es | es. trail adj s es \<and> calm es}"

lemma reach_inv_end:
  assumes "reach_inv adj s visited [] target n"
  shows "set visited = calmReach adj s
    \<and> (target \<noteq> [] \<longleftrightarrow> (\<exists>es. escape adj s es))
    \<and> (target = ''cluster-admin'' \<longleftrightarrow> (\<exists>es. escape adj s es \<and> eTo (last es) = targetClusterAdmin))
    \<and> n = int (card (calmReach adj s)) - 1"
proof -
  have "trail_end s es \<in> set visited" if "trail adj s es" "calm es" for es
    using that
  proof (induction es rule: rev_induct)
    case (snoc e es)
    then show ?case using assms by (auto simp: trail_snoc reach_inv_def)
  qed (use assms in \<open>simp add: reach_inv_def\<close>)
  moreover have "\<exists>es. trail adj s es \<and> calm es \<and> trail_end s es = u" if "u \<in> set visited" for u
    using assms that unfolding reach_inv_def by blast
  ultimately have v: "set visited = calmReach adj s"
    unfolding calmReach_def by blast
  have esc: "(\<exists>es. escape adj s es \<and> Q (eTo (last es))) \<longleftrightarrow>
      (\<exists>u \<in> calmReach adj s. \<exists>e \<in> set (adj_get adj u). isTarget (eTo e) \<and> Q (eTo e))" for Q
    unfolding escape_snoc calmReach_def by fastforce
  have "target \<noteq> [] \<longleftrightarrow> (\<exists>u \<in> calmReach adj s. \<exists>e \<in> set (adj_get adj u). isTarget (eTo e))"
    "target = ''cluster-admin'' \<longleftrightarrow> (\<exists>u \<in> calmReach adj s. \<exists>e \<in> set (adj_get adj u). eTo e = targetClusterAdmin)"
    "n = int (card (calmReach adj s)) - 1"
    using assms unfolding reach_inv_def v by simp_all
  moreover have "(isTarget t \<and> t = targetClusterAdmin) = (t = targetClusterAdmin)" for t
    by (auto simp: isTarget_def)
  ultimately show ?thesis
    using v esc [of "\<lambda>_. True"] esc [of "\<lambda>t. t = targetClusterAdmin"] by simp
qed

lemma reach_loop_correct:
  "reach_inv adj s visited queue target n \<Longrightarrow> reach_loop adj visited queue target n = (t', n') \<Longrightarrow>
     (t' \<noteq> [] \<longleftrightarrow> (\<exists>es. escape adj s es))
     \<and> (t' = ''cluster-admin'' \<longleftrightarrow> (\<exists>es. escape adj s es \<and> eTo (last es) = targetClusterAdmin))
     \<and> n' = int (card (calmReach adj s)) - 1"
proof (induction adj visited queue target n rule: reach_loop.induct)
  case (1 adj visited target n)
  then show ?case using reach_inv_end [of adj s visited target n] by auto
next
  case (2 adj visited cur queue target n)
  obtain v1 q1 t1 n1 where st: "reach_edges (adj_get adj cur) (visited, queue, target, n) = (v1, q1, t1, n1)"
    by (cases "reach_edges (adj_get adj cur) (visited, queue, target, n)") auto
  show ?case
    by (rule "2.IH" [OF st [symmetric] refl refl refl reach_inv_step [OF "2.prems"(1) st]])
       (use "2.prems"(2) st in simp)
qed

text \<open>
  The blast radius of a machine identity: the score says that a target is reached
  exactly when the path analysis finds an escalation, names cluster-admin exactly when some
  escalation ends there, and counts the other principals within reach, and the target once.
\<close>

theorem nhi_blast_radius:
  "(nsReachesTarget (scoreIdentity c g adj sk now d) \<noteq> []) = (\<exists>es. escape adj sk es)
   \<and> (nsReachesTarget (scoreIdentity c g adj sk now d) \<noteq> []) = (snd (bfsToTarget adj sk) \<noteq> [])
   \<and> (nsReachesTarget (scoreIdentity c g adj sk now d) = ''cluster-admin'')
       = (\<exists>es. escape adj sk es \<and> eTo (last es) = targetClusterAdmin)
   \<and> nsReachCount (scoreIdentity c g adj sk now d)
       = int (card (calmReach adj sk)) - 1 + (if \<exists>es. escape adj sk es then 1 else 0)"
proof -
  have "reach_inv adj sk [sk] [sk] [] 0"
    by (auto simp: reach_inv_def intro!: exI [of _ "[]"])
  moreover obtain t n where st: "reach_loop adj [sk] [sk] [] 0 = (t, n)" by fastforce
  ultimately have "(t \<noteq> []) = (\<exists>es. escape adj sk es)"
    "(t = ''cluster-admin'') = (\<exists>es. escape adj sk es \<and> eTo (last es) = targetClusterAdmin)"
    "n = int (card (calmReach adj sk)) - 1"
    using reach_loop_correct by blast+
  moreover have "nsReachesTarget (scoreIdentity c g adj sk now d) = t"
    "nsReachCount (scoreIdentity c g adj sk now d) = (if t \<noteq> [] then n + 1 else n)"
    unfolding scoreIdentity_def st Let_def by simp_all
  ultimately show ?thesis using bfsToTarget_none [of adj sk] by simp
qed

end
