(* ===== verification/RbacChecks.thy ===== *)
theory RbacChecks
  imports RbacPaths
begin

text \<open>
  The risk checks of \<^verbatim>\<open>internal/rbac\<close>: \<^verbatim>\<open>checks.go\<close>, \<^verbatim>\<open>cloud.go\<close> and the analysis of \<^verbatim>\<open>rbac.go\<close>.
  A loop over a Go map runs in the order of the association list.
\<close>

subsection \<open>Predicates and labels\<close>

definition hasWildcard :: "string list \<Rightarrow> bool" where
  "hasWildcard xs \<longleftrightarrow> contains_wild xs ''*'' \<and> length xs > 0"

definition wildcardSeverity :: "string list \<Rightarrow> severity" where
  "wildcardSeverity dims = (if length dims \<ge> 2 then SeverityHigh else SeverityMedium)"

definition anyVerb :: "policyRule \<Rightarrow> string list \<Rightarrow> bool" where
  "anyVerb r verbs \<longleftrightarrow> list_ex (\<lambda>v. contains_wild (prVerbs r) v) verbs"

definition resourceMatches :: "policyRule \<Rightarrow> string \<Rightarrow> bool" where
  "resourceMatches r resource \<longleftrightarrow> list_ex (\<lambda>res. res = ''*'' \<or> res = resource) (prResources r)"

definition roleKind :: "role \<Rightarrow> string" where
  "roleKind r = (if roClusterScoped r then ''ClusterRole'' else ''Role'')"

definition roleLabel :: "role \<Rightarrow> string" where
  "roleLabel r = (if roClusterScoped r then ''ClusterRole/'' @ roName r else ''Role/'' @ roNamespace r @ ''/'' @ roName r)"

definition bindingLabel :: "binding \<Rightarrow> string" where
  "bindingLabel b = (if bdClusterScoped b then ''ClusterRoleBinding/'' @ bdName b
     else ''RoleBinding/'' @ bdNamespace b @ ''/'' @ bdName b)"

definition subjectLabel :: "subject \<Rightarrow> string" where
  "subjectLabel s = (if suKind s = ''ServiceAccount'' then ''ServiceAccount '' @ suNamespace s @ ''/'' @ suName s
     else suKind s @ '' '' @ fmt_q (suName s))"

definition sortedRoleKeys :: "cluster \<Rightarrow> string list" where
  "sortedRoleKeys c = sort_Strings (map fst (clRoles c))"

definition sa_less :: "serviceAccount \<Rightarrow> serviceAccount \<Rightarrow> bool" where
  "sa_less = key_less saNamespace (key_less saName (\<lambda>a b. False))"

definition sortedSAs :: "cluster \<Rightarrow> serviceAccount list" where
  "sortedSAs c = sort_stable sa_less (map snd (clServiceAccounts c))"

definition sortedStrings :: "string list \<Rightarrow> string list" where
  "sortedStrings xs = sort_Strings xs"

subsection \<open>Role-level checks\<close>

definition wildDims :: "policyRule \<Rightarrow> string list" where
  "wildDims r = (if hasWildcard (prVerbs r) then [''verbs''] else [])
     @ (if hasWildcard (prResources r) then [''resources''] else [])
     @ (if hasWildcard (prAPIGroups r) then [''apiGroups''] else [])"

definition wildcardRisk :: "role \<Rightarrow> nat \<Rightarrow> string list \<Rightarrow> risk" where
  "wildcardRisk ro i dims =
     \<lparr> rkRuleID = ''DS-RAT-RBAC-001'', rkSeverity = wildcardSeverity dims,
       rkTitle = ''Wildcard grant in '' @ roleLabel ro,
       rkDescription = ''rule '' @ itoa_nat i @ '' uses '' @ [CHR 0x27, CHR ''*'', CHR 0x27] @ '' for '' @ join_with '', '' dims,
       rkSubject = [], rkResource = roleLabel ro,
       rkRemediation = ''Replace '' @ [CHR 0x27, CHR ''*'', CHR 0x27] @ '' with the specific verbs/resources/apiGroups actually required (see least-privilege report).'',
       rkReferences = [refK8sHarden, refNISTac6], rkPath = [],
       rkMeta = [(''wildcardDimensions'', join_with '','' dims), (''role'', roName ro)] \<rparr>"

definition checkWildcards :: "cluster \<Rightarrow> risk list" where
  "checkWildcards c = concat (map (\<lambda>key. case map_of (clRoles c) key of None \<Rightarrow> []
     | Some ro \<Rightarrow> concat (map (\<lambda>(i, rule). if length (wildDims rule) = 0 then [] else [wildcardRisk ro i (wildDims rule)])
         (enumerate 0 (roRules ro)))) (sortedRoleKeys c))"

subsection \<open>Grant-level checks\<close>

definition subjectRisk ::
  "grant \<Rightarrow> string \<Rightarrow> severity \<Rightarrow> string \<Rightarrow> string \<Rightarrow> (string \<times> string) list \<Rightarrow> risk" where
  "subjectRisk gr ruleID sev title remediation meta =
     (let scope = (if grNamespace gr \<noteq> [] then ''namespace '' @ grNamespace gr else ''cluster-wide'') in
      \<lparr> rkRuleID = ruleID, rkSeverity = sev, rkTitle = title,
        rkDescription = ''via binding '' @ fmt_q (bdName (grBinding gr)) @ '' '' @ arrow @ '' '' @ roleKind (grRole gr) @ '' ''
          @ fmt_q (roName (grRole gr)) @ '' ('' @ scope @ '')'',
        rkSubject = subject_key (grSubject gr), rkResource = roName (grRole gr), rkRemediation = remediation,
        rkReferences = [refK8sHarden, refMitrePrivEsc], rkPath = [],
        rkMeta = kv_put ''binding'' (bdName (grBinding gr)) (kv_put ''scope'' scope meta) \<rparr>)"

definition riskyVerbs :: "(string \<times> string \<times> severity \<times> string) list" where
  "riskyVerbs =
     [(''escalate'', ''DS-RAT-RBAC-003'', SeverityHigh, ''can grant permissions it does not itself hold (escalate)''),
      (''bind'', ''DS-RAT-RBAC-004'', SeverityHigh, ''can bind any role to any subject (bind), including cluster-admin''),
      (''impersonate'', ''DS-RAT-RBAC-005'', SeverityHigh, ''can act as other users/groups/service accounts (impersonate)'')]"

definition checkRiskyVerbs :: "graph \<Rightarrow> risk list" where
  "checkRiskyVerbs g = dedupe (concat (map (\<lambda>gr. concat (map (\<lambda>rule.
     concat (map (\<lambda>(verb, rid, sev, why). if contains_wild (prVerbs rule) verb then
         [subjectRisk gr rid sev (subjectLabel (grSubject gr) @ '' '' @ why)
           (''Remove the '' @ [CHR 0x27] @ verb @ [CHR 0x27] @ '' verb unless this identity is a trusted controller; prefer a narrowly scoped role.'')
           [(''verb'', verb), (''role'', roName (grRole gr))]] else []) riskyVerbs))
     (roRules (grRole gr)))) (gGrants g)))"

definition adminByRole :: "grant \<Rightarrow> bool" where
  "adminByRole gr \<longleftrightarrow> roClusterScoped (grRole gr) \<and> roName (grRole gr) = ''cluster-admin''"

definition adminByMaster :: "grant \<Rightarrow> bool" where
  "adminByMaster gr \<longleftrightarrow> suKind (grSubject gr) = ''Group'' \<and> suName (grSubject gr) = ''system:masters''"

definition adminRisk :: "grant \<Rightarrow> risk" where
  "adminRisk gr = subjectRisk gr ''DS-RAT-RBAC-002'' SeverityCritical
     (subjectLabel (grSubject gr) @ '' is ''
       @ (if adminByMaster gr then ''member of system:masters (bypasses RBAC entirely)'' else ''bound to cluster-admin''))
     ''Grant a scoped role instead of cluster-admin; reserve cluster-admin for break-glass with time-boxed, audited elevation.''
     [(''role'', roName (grRole gr))]"

definition checkClusterAdmin :: "graph \<Rightarrow> risk list" where
  "checkClusterAdmin g = dedupe (concat (map (\<lambda>gr.
     if \<not> adminByRole gr \<and> \<not> adminByMaster gr then [] else [adminRisk gr]) (gGrants g)))"

definition verbResourceRisk :: "grant \<Rightarrow> string \<Rightarrow> severity \<Rightarrow> string \<Rightarrow> string \<Rightarrow> string \<Rightarrow> risk" where
  "verbResourceRisk gr ruleID sev resource why remediation =
     subjectRisk gr ruleID sev (subjectLabel (grSubject gr) @ '' '' @ why) remediation
       [(''resource'', resource), (''role'', roName (grRole gr))]"

definition verbResourceCheck ::
  "graph \<Rightarrow> string \<Rightarrow> severity \<Rightarrow> string list \<Rightarrow> string \<Rightarrow> string \<Rightarrow> string \<Rightarrow> risk list" where
  "verbResourceCheck g ruleID sev verbs resource why remediation =
     dedupe (concat (map (\<lambda>gr.
       if list_ex (\<lambda>rule. resourceMatches rule resource \<and> anyVerb rule verbs) (roRules (grRole gr))
       then [verbResourceRisk gr ruleID sev resource why remediation] else []) (gGrants g)))"

definition checkSecretReaders :: "graph \<Rightarrow> risk list" where
  "checkSecretReaders g = verbResourceCheck g ''DS-RAT-RBAC-006'' SeverityHigh [''get'', ''list'', ''watch''] ''secrets''
     ''can read Secrets (including ServiceAccount tokens)''
     ''Scope secret access to named secrets (resourceNames) or remove it; treat secret read as token theft.''"

definition checkExec :: "graph \<Rightarrow> risk list" where
  "checkExec g = dedupe
     (verbResourceCheck g ''DS-RAT-RBAC-007'' SeverityHigh [''create'', ''*''] ''pods/exec''
        ''can exec into running pods (code execution as the pod)''
        ''Remove pods/exec unless required for support tooling; audit and time-box it.''
      @ verbResourceCheck g ''DS-RAT-RBAC-007'' SeverityHigh [''create'', ''*''] ''pods/attach''
        ''can attach to running pods (code execution as the pod)''
        ''Remove pods/attach unless required; audit and time-box it.'')"

definition checkProxyAndNodes :: "graph \<Rightarrow> risk list" where
  "checkProxyAndNodes g = dedupe (concat (map (\<lambda>res.
     verbResourceCheck g ''DS-RAT-RBAC-008'' SeverityHigh [''get'', ''create'', ''*''] res
       (''has proxy/node access ('' @ res @ ''), which can reach the kubelet and node-level resources'')
       ''Remove proxy/node access from workload identities; restrict to the control plane.'')
     [''nodes/proxy'', ''pods/proxy'', ''services/proxy'', ''nodes'']))"

definition checkTokenMint :: "graph \<Rightarrow> risk list" where
  "checkTokenMint g = dedupe (concat (map (\<lambda>res.
     verbResourceCheck g ''DS-RAT-RBAC-009'' SeverityHigh [''create'', ''*''] res
       (''can mint ServiceAccount tokens ('' @ res @ '')'')
       ''Restrict token minting to controllers that require it; it is equivalent to holding every SA's credentials.'')
     [''serviceaccounts/token'', ''tokenrequests'']))"

definition checkCSRSigning :: "graph \<Rightarrow> risk list" where
  "checkCSRSigning g = dedupe
     (verbResourceCheck g ''DS-RAT-RBAC-010'' SeverityHigh [''create'', ''*''] ''certificatesigningrequests'' ''can create CSRs''
        ''Only allow CSR creation where required; combined with approve/sign it forges arbitrary client certificates.''
      @ verbResourceCheck g ''DS-RAT-RBAC-010'' SeverityHigh [''update'', ''*''] ''certificatesigningrequests/approval'' ''can approve CSRs''
        ''Restrict CSR approval to the control plane.''
      @ verbResourceCheck g ''DS-RAT-RBAC-010'' SeverityHigh [''create'', ''*''] ''signers'' ''can act as a CSR signer''
        ''Restrict signer access to the control plane.'')"

definition checkWorkloadCreation :: "graph \<Rightarrow> risk list" where
  "checkWorkloadCreation g = dedupe (concat (map (\<lambda>res.
     verbResourceCheck g ''DS-RAT-RBAC-013'' SeverityMedium [''create'', ''*''] res
       (''can create workloads ('' @ res @ ''), and thus choose the ServiceAccount and securityContext they run with'')
       ''Pair workload-create access with a Phase 4 admission policy that blocks privileged/hostPath/hostNetwork pods.'')
     [''pods'', ''deployments'', ''daemonsets'', ''statefulsets'', ''replicasets'', ''jobs'', ''cronjobs'']))"

definition broadGroups :: "string list" where
  "broadGroups = [''system:authenticated'', ''system:anonymous'', ''system:unauthenticated'', ''*'']"

definition broadSubjectRisk :: "grant \<Rightarrow> risk" where
  "broadSubjectRisk gr = subjectRisk gr ''DS-RAT-RBAC-019'' SeverityHigh
     (''Role '' @ fmt_q (roName (grRole gr)) @ '' granted to broad group '' @ fmt_q (suName (grSubject gr)))
     ''Never bind roles to system:authenticated/anonymous; scope to specific ServiceAccounts or groups.''
     [(''group'', suName (grSubject gr)), (''role'', roName (grRole gr))]"

definition checkBroadSubjects :: "graph \<Rightarrow> risk list" where
  "checkBroadSubjects g = dedupe (concat (map (\<lambda>gr.
     if suKind (grSubject gr) = ''Group'' \<and> suName (grSubject gr) \<in> set broadGroups then [broadSubjectRisk gr] else [])
     (gGrants g)))"

definition danglingRisk :: "binding \<Rightarrow> risk" where
  "danglingRisk b =
     \<lparr> rkRuleID = ''DS-RAT-RBAC-011'', rkSeverity = SeverityLow,
       rkTitle = ''Dangling binding '' @ fmt_q (bdName b) @ '' references missing '' @ rfKind (bdRoleRef b) @ '' '' @ fmt_q (rfName (bdRoleRef b)),
       rkDescription = ''The referenced role does not exist in the analyzed set; the binding grants nothing now but will if that name is later created.'',
       rkSubject = [], rkResource = bindingLabel b,
       rkRemediation = ''Delete the binding or point it at an existing role.'', rkReferences = [refK8sRBAC], rkPath = [],
       rkMeta = [(''roleRef'', rfKind (bdRoleRef b) @ ''/'' @ rfName (bdRoleRef b))] \<rparr>"

definition checkDangling :: "graph \<Rightarrow> risk list" where
  "checkDangling g = map danglingRisk (gDangling g)"

definition defaultPodRisk :: "pod \<Rightarrow> risk" where
  "defaultPodRisk p =
     \<lparr> rkRuleID = ''DS-RAT-RBAC-012'', rkSeverity = SeverityMedium,
       rkTitle = ''Pod '' @ pdNamespace p @ ''/'' @ pdName p @ '' uses the default ServiceAccount'',
       rkDescription = ''The default SA is shared and easy to over-grant; a token is mounted unless explicitly disabled.'',
       rkSubject = [], rkResource = pdNamespace p @ ''/'' @ pdName p,
       rkRemediation = ''Assign a dedicated ServiceAccount and set automountServiceAccountToken: false where no API access is needed.'',
       rkReferences = [refK8sHarden], rkPath = [], rkMeta = [(''namespace'', pdNamespace p), (''pod'', pdName p)] \<rparr>"

definition automountRisk :: "serviceAccount \<Rightarrow> risk" where
  "automountRisk sa =
     \<lparr> rkRuleID = ''DS-RAT-RBAC-012'', rkSeverity = SeverityLow,
       rkTitle = ''ServiceAccount '' @ saNamespace sa @ ''/'' @ saName sa @ '' automounts a token'',
       rkDescription = ''automountServiceAccountToken is not disabled; a token is mounted into every pod using this SA.'',
       rkSubject = [], rkResource = saNamespace sa @ ''/'' @ saName sa,
       rkRemediation = ''Set automountServiceAccountToken: false unless the workload calls the Kubernetes API.'',
       rkReferences = [refK8sHarden], rkPath = [],
       rkMeta = [(''namespace'', saNamespace sa), (''serviceAccount'', saName sa)] \<rparr>"

definition checkDefaultSA :: "cluster \<Rightarrow> risk list" where
  "checkDefaultSA c =
     concat (map (\<lambda>p. if effectiveSA p = ''default'' then [defaultPodRisk p] else []) (clPods c))
     @ concat (map (\<lambda>sa. if saName sa = ''default'' \<or> \<not> automounts sa then [] else [automountRisk sa]) (sortedSAs c))"

subsection \<open>Docker hosts\<close>

definition dockerGroupRisk :: "dockerHost \<Rightarrow> string \<Rightarrow> risk" where
  "dockerGroupRisk h member =
     \<lparr> rkRuleID = ''DS-RAT-RBAC-015'', rkSeverity = SeverityHigh,
       rkTitle = fmt_q member @ '' is in the docker group on '' @ dhName h,
       rkDescription = ''docker group membership is equivalent to root: any member can start a privileged container that mounts the host filesystem.'',
       rkSubject = ''User/'' @ member, rkResource = dhName h,
       rkRemediation = ''Remove users from the docker group; use rootless Docker or sudo-audited access instead.'',
       rkReferences = [refDockerSock], rkPath = [], rkMeta = [(''host'', dhName h), (''user'', member)] \<rparr>"

definition socketRisk :: "dockerHost \<Rightarrow> socketMount \<Rightarrow> risk" where
  "socketRisk h m =
     \<lparr> rkRuleID = ''DS-RAT-RBAC-016'', rkSeverity = SeverityCritical,
       rkTitle = ''Container '' @ fmt_q (smContainer m) @ '' mounts the Docker socket ('' @ smPath m @ '')'',
       rkDescription = ''A mounted Docker daemon socket gives the container full control of every container on the host '' @ emdash @ '' a container escape by design.'',
       rkSubject = [], rkResource = smContainer m,
       rkRemediation = ''Never bind-mount docker.sock into containers; use a scoped API proxy or rootless/socket-less tooling.'',
       rkReferences = [refDockerSock, refMitreEscape], rkPath = [],
       rkMeta = [(''host'', dhName h), (''container'', smContainer m), (''path'', smPath m)] \<rparr>"

definition rootfulRisk :: "dockerHost \<Rightarrow> risk" where
  "rootfulRisk h =
     \<lparr> rkRuleID = ''DS-RAT-RBAC-017'', rkSeverity = SeverityInfo,
       rkTitle = ''Docker daemon on '' @ dhName h @ '' is not rootless'',
       rkDescription = ''A root daemon means a container breakout is a host-root breakout.'',
       rkSubject = [], rkResource = dhName h,
       rkRemediation = ''Adopt rootless Docker where feasible to shrink the blast radius of an escape.'',
       rkReferences = [refDockerSock], rkPath = [], rkMeta = [(''host'', dhName h)] \<rparr>"

definition checkDockerHosts :: "cluster \<Rightarrow> risk list" where
  "checkDockerHosts c = concat (map (\<lambda>h. map (dockerGroupRisk h) (sortedStrings (dhGroupMembers h))
     @ map (socketRisk h) (dhSocketMounts h) @ (if \<not> dhRootless h then [rootfulRisk h] else [])) (clDockerHosts c))"

subsection \<open>Cloud identities\<close>

definition privilegedRole :: "string \<Rightarrow> bool" where
  "privilegedRole priv \<longleftrightarrow> strings_ToLower priv \<in> {''admin'', ''power'', ''write''}"

definition cloudKey :: "serviceAccount \<Rightarrow> string" where
  "cloudKey sa = ''ServiceAccount/'' @ saNamespace sa @ ''/'' @ saName sa"

definition overPrivRisk :: "serviceAccount \<Rightarrow> cloudIdentity \<Rightarrow> risk" where
  "overPrivRisk sa ci =
     \<lparr> rkRuleID = ''DS-RAT-RBAC-030'',
       rkSeverity = (if strings_ToLower (ciPrivilege ci) = ''admin'' then SeverityCritical else SeverityHigh),
       rkTitle = ''ServiceAccount '' @ fmt_q (saName sa) @ '' is bound to an over-privileged '' @ ciProvider ci @ '' IAM role'',
       rkDescription = ''SA '' @ saNamespace sa @ ''/'' @ saName sa @ '' federates to cloud role '' @ fmt_q (ciRole ci) @ '' with '' @ fmt_q (ciPrivilege ci)
         @ '' privilege. A pod that runs as this SA inherits those cloud permissions, so a container compromise becomes a cloud-account compromise.'',
       rkSubject = cloudKey sa, rkResource = ciRole ci,
       rkRemediation = ''Scope the cloud IAM role to the minimum permissions the workload needs; never bind admin/power roles to a pod identity.'',
       rkReferences = [''NIST SP 800-190 '' @ section_sign @ ''4.3'', ''https://docs.aws.amazon.com/eks/latest/userguide/iam-roles-for-service-accounts.html''],
       rkPath = [], rkMeta = [(''provider'', ciProvider ci), (''cloud_role'', ciRole ci), (''privilege'', ciPrivilege ci)] \<rparr>"

definition confusedDeputyRisk :: "serviceAccount \<Rightarrow> cloudIdentity \<Rightarrow> risk" where
  "confusedDeputyRisk sa ci =
     \<lparr> rkRuleID = ''DS-RAT-RBAC-031'', rkSeverity = SeverityHigh,
       rkTitle = ciProvider ci @ '' IAM role for '' @ fmt_q (saName sa) @ '' trusts any ServiceAccount (confused deputy)'',
       rkDescription = ''Cloud role '' @ fmt_q (ciRole ci) @ '' trusts the cluster OIDC issuer without pinning the subject to ''
         @ saNamespace sa @ ''/'' @ saName sa @ ''. Any pod in the cluster that can obtain a projected token can assume this role.'',
       rkSubject = cloudKey sa, rkResource = ciRole ci,
       rkRemediation = ''Add a subject/audience condition to the role trust policy that pins the exact ServiceAccount (system:serviceaccount:<ns>:<name>).'',
       rkReferences = [''https://docs.aws.amazon.com/IAM/latest/UserGuide/confused-deputy.html''],
       rkPath = [], rkMeta = [(''provider'', ciProvider ci), (''cloud_role'', ciRole ci)] \<rparr>"

definition defaultCloudRisk :: "serviceAccount \<Rightarrow> cloudIdentity \<Rightarrow> risk" where
  "defaultCloudRisk sa ci =
     \<lparr> rkRuleID = ''DS-RAT-RBAC-032'', rkSeverity = SeverityHigh,
       rkTitle = ''default ServiceAccount in '' @ fmt_q (saNamespace sa) @ '' is bound to a cloud IAM role'',
       rkDescription = ''The default SA in namespace '' @ fmt_q (saNamespace sa) @ '' federates to cloud role '' @ fmt_q (ciRole ci)
         @ ''. Every pod that does not set its own serviceAccountName inherits these cloud permissions.'',
       rkSubject = cloudKey sa, rkResource = ciRole ci,
       rkRemediation = ''Bind cloud roles to purpose-specific ServiceAccounts, and set automountServiceAccountToken:false on the default SA.'',
       rkReferences = [''NIST SP 800-190 '' @ section_sign @ ''4.3.1''],
       rkPath = [], rkMeta = [(''provider'', ciProvider ci), (''cloud_role'', ciRole ci)] \<rparr>"

definition cloudRisks :: "serviceAccount \<Rightarrow> risk list" where
  "cloudRisks sa = (case saCloud sa of None \<Rightarrow> []
     | Some ci \<Rightarrow> (if privilegedRole (ciPrivilege ci) then [overPrivRisk sa ci] else [])
         @ (if ciTrustAny ci then [confusedDeputyRisk sa ci] else [])
         @ (if saName sa = ''default'' then [defaultCloudRisk sa ci] else []))"

definition checkCloudIAM :: "cluster \<Rightarrow> risk list" where
  "checkCloudIAM c = concat (map (\<lambda>(k, sa). cloudRisks sa) (clServiceAccounts c))"

subsection \<open>The analysis\<close>

definition checkAll :: "cluster \<Rightarrow> graph \<Rightarrow> options \<Rightarrow> risk list" where
  "checkAll c g opts = sortRisks
     (checkWildcards c @ checkRiskyVerbs g @ checkClusterAdmin g @ checkSecretReaders g @ checkExec g
      @ checkProxyAndNodes g @ checkTokenMint g @ checkCSRSigning g @ checkWorkloadCreation g @ checkBroadSubjects g
      @ checkDangling g @ checkDefaultSA c @ checkCloudIAM c @ checkDockerHosts c @ checkEscalationPaths c g
      @ (if opEnableNHI opts then checkNHI c g opts else []))"

record rbacReport =
  rpRisks :: "risk list"
  rpGraph :: graph
  rpCounts :: "(severity \<times> int) list"

fun count_loop :: "(severity \<times> int) list \<Rightarrow> risk list \<Rightarrow> (severity \<times> int) list" where
  "count_loop m [] = m"
| "count_loop m (r # rs) =
     count_loop (kv_put (rkSeverity r) ((case map_of m (rkSeverity r) of None \<Rightarrow> 0 | Some n \<Rightarrow> n) + 1) m) rs"

definition rbac_Analyze :: "cluster \<Rightarrow> options \<Rightarrow> rbacReport" where
  "rbac_Analyze c opts =
     (let g = buildGraph c; risks = checkAll c g opts
      in \<lparr> rpRisks = risks, rpGraph = g, rpCounts = count_loop [] risks \<rparr>)"

fun rbac_Highest_loop :: "severity \<Rightarrow> risk list \<Rightarrow> severity" where
  "rbac_Highest_loop high [] = high"
| "rbac_Highest_loop high (r # rs) = rbac_Highest_loop (if rkSeverity r > high then rkSeverity r else high) rs"

definition rbac_Highest :: "rbacReport \<Rightarrow> severity" where
  "rbac_Highest r = rbac_Highest_loop SeverityUnknown (rpRisks r)"

definition severityCount :: "rbacReport \<Rightarrow> severity \<Rightarrow> int" where
  "severityCount r sev = (case map_of (rpCounts r) sev of None \<Rightarrow> 0 | Some n \<Rightarrow> n)"

definition allSeverities :: "severity list" where
  "allSeverities = [SeverityCritical, SeverityHigh, SeverityMedium, SeverityLow, SeverityInfo]"

definition pad_right :: "nat \<Rightarrow> string \<Rightarrow> string" where
  "pad_right n s = s @ replicate (n - length s) CHR '' ''"

definition nl :: string where
  "nl = [CHR 0x0A]"

definition risk_text :: "risk \<Rightarrow> string" where
  "risk_text rk =
     ''['' @ Severity_String (rkSeverity rk) @ ''] '' @ rkRuleID rk @ '': '' @ rkTitle rk @ nl
     @ (if rkDescription rk \<noteq> [] then ''    '' @ rkDescription rk @ nl else [])
     @ (if length (rkPath rk) > 0 then ''    path: '' @ join_with '' -> '' (rkPath rk) @ nl else [])"

definition rbac_Text :: "rbacReport \<Rightarrow> string" where
  "rbac_Text r =
     ''RBAC/identity risk report: '' @ itoa_nat (length (rpRisks r)) @ '' finding(s)'' @ nl
     @ concat (map (\<lambda>sev. if severityCount r sev > 0
         then ''  '' @ pad_right 8 (Severity_String sev) @ '' '' @ fmt_int (severityCount r sev) @ nl else []) allSeverities)
     @ nl @ concat (map risk_text (rpRisks r))"

subsection \<open>The module\<close>

definition rbac_toFinding :: "risk \<Rightarrow> finding" where
  "rbac_toFinding r =
     (let resource = (if rkResource r = [] then rkSubject r else rkResource r);
          m1 = (if rkSubject r \<noteq> [] then kv_put ''subject'' (rkSubject r) (rkMeta r) else rkMeta r);
          m2 = (if length (rkPath r) > 0 then kv_put ''escalationPath'' (join_with '' -> '' (rkPath r)) m1 else m1)
      in \<lparr> fRuleID = rkRuleID r, fModule = ''rbac'', fSeverity = rkSeverity r, fTitle = rkTitle r,
           fDescription = rkDescription r, fResource = resource, fLocation = None, fRemediation = rkRemediation r,
           fReferences = rkReferences r, fMetadata = m2 \<rparr>)"

definition rbac_summary :: "rbacReport \<Rightarrow> string" where
  "rbac_summary rep = join_with '', '' (concat (map (\<lambda>sev. if severityCount rep sev > 0
     then [fmt_int (severityCount rep sev) @ '' '' @ Severity_String sev] else []) allSeverities))"

definition rbac_findings :: "rbacReport \<Rightarrow> string \<Rightarrow> finding list" where
  "rbac_findings rep location =
     (if length (rpRisks rep) = 0 then []
      else \<lparr> fRuleID = ''DS-RAT-RBAC-000'', fModule = ''rbac'', fSeverity = SeverityInfo,
             fTitle = ''RBAC analyzed: '' @ itoa_nat (length (rpRisks rep)) @ '' risk(s) across identities'',
             fDescription = rbac_summary rep, fResource = location, fLocation = None, fRemediation = [],
             fReferences = [''https://kubernetes.io/docs/concepts/security/rbac-good-practices/''], fMetadata = [] \<rparr>
           # map rbac_toFinding (rpRisks rep))"

text \<open>\<^verbatim>\<open>parseWhoCan\<close> reads \<^verbatim>\<open>verb:resource[:namespace]\<close>; None is a usage error.\<close>

definition parseWhoCan :: "string \<Rightarrow> (string \<times> string \<times> string \<times> string) option" where
  "parseWhoCan spec =
     (let parts = split_byte CHR '':'' spec in
      if length parts < 2 \<or> length parts > 3 then None
      else
        (let verb = parts ! 0; res = parts ! 1; ns = (if length parts = 3 then parts ! 2 else []);
             (apiGroup, resource) = (case cut_byte CHR ''/'' res of Some (a, b) \<Rightarrow> (a, b) | None \<Rightarrow> ([], res))
         in if verb \<noteq> [] \<and> resource \<noteq> [] then Some (verb, apiGroup, resource, ns) else None))"

subsection \<open>What the checks report\<close>

lemma subjectRisk_simps [simp]:
  "rkSubject (subjectRisk gr rid sev t rem m) = subject_key (grSubject gr)"
  "rkRuleID (subjectRisk gr rid sev t rem m) = rid"
  "rkSeverity (subjectRisk gr rid sev t rem m) = sev"
  by (simp_all add: subjectRisk_def Let_def)

lemma verbResourceRisk_simps [simp]:
  "rkSubject (verbResourceRisk gr rid sev res why rem) = subject_key (grSubject gr)"
  "rkRuleID (verbResourceRisk gr rid sev res why rem) = rid"
  by (simp_all add: verbResourceRisk_def)

definition covers_verb :: "grant \<Rightarrow> string list \<Rightarrow> string \<Rightarrow> bool" where
  "covers_verb gr verbs res \<longleftrightarrow> (\<exists>rule \<in> set (roRules (grRole gr)).
     (''*'' \<in> set (prResources rule) \<or> res \<in> set (prResources rule))
     \<and> (\<exists>v \<in> set verbs. ''*'' \<in> set (prVerbs rule) \<or> v \<in> set (prVerbs rule)))"

lemma covers_verb_code:
  "list_ex (\<lambda>rule. resourceMatches rule res \<and> anyVerb rule verbs) (roRules (grRole gr)) \<longleftrightarrow> covers_verb gr verbs res"
  by (auto simp: covers_verb_def resourceMatches_def anyVerb_def list_ex_iff contains_wild_iff)

lemma verbResourceCheck_subjects:
  assumes "\<And>gr. gr \<in> set (gGrants g) \<Longrightarrow> CHR ''|'' \<notin> set (subject_key (grSubject gr))"
  shows "rkSubject ` set (verbResourceCheck g rid sev verbs res why rem)
     = {subject_key (grSubject gr) | gr. gr \<in> set (gGrants g) \<and> covers_verb gr verbs res}"
proof -
  define rs where "rs = concat (map (\<lambda>gr. if covers_verb gr verbs res
      then [verbResourceRisk gr rid sev res why rem] else []) (gGrants g))"
  have "rkSubject ` set (dedupe rs) = rkSubject ` set rs"
    by (rule dedupe_subjects [of _ rid]) (use assms in \<open>auto simp: rs_def split: if_splits\<close>)
  moreover have "rkSubject ` set rs = {subject_key (grSubject gr) | gr. gr \<in> set (gGrants g) \<and> covers_verb gr verbs res}"
    by (auto simp: rs_def image_iff)
  ultimately show ?thesis by (simp add: verbResourceCheck_def covers_verb_code rs_def)
qed

lemma hit_covers: "hit v grp res ns gr \<Longrightarrow> res \<noteq> [] \<Longrightarrow> v \<in> set verbs \<Longrightarrow> covers_verb gr verbs res"
  by (auto simp: hit_def covers_verb_def ruleMatches_def contains_wild_iff defaulted_def split: if_splits)

text \<open>
  Secret readers: the check reports exactly the subjects a grant of which covers
  reading secrets; so everyone the reverse query lists for a read of secrets, in any namespace and
  under any group, is reported.
\<close>

theorem secret_readers_flagged:
  assumes "\<And>gr. gr \<in> set (gGrants g) \<Longrightarrow> CHR ''|'' \<notin> set (subject_key (grSubject gr))"
  shows "rkSubject ` set (checkSecretReaders g)
         = {subject_key (grSubject gr) | gr. gr \<in> set (gGrants g) \<and> covers_verb gr [''get'', ''list'', ''watch''] ''secrets''}
     \<and> (\<Union>v \<in> {''get'', ''list'', ''watch''}. subject_key ` set (WhoCan g v grp ''secrets'' ns))
         \<subseteq> rkSubject ` set (checkSecretReaders g)"
proof -
  have eq: "rkSubject ` set (checkSecretReaders g)
      = {subject_key (grSubject gr) | gr. gr \<in> set (gGrants g) \<and> covers_verb gr [''get'', ''list'', ''watch''] ''secrets''}"
    unfolding checkSecretReaders_def by (rule verbResourceCheck_subjects [OF assms])
  have "subject_key ` set (WhoCan g v grp ''secrets'' ns)
      \<subseteq> {subject_key (grSubject gr) | gr. gr \<in> set (gGrants g) \<and> covers_verb gr verbs ''secrets''}"
    if "v \<in> set verbs" for v verbs
  proof
    fix k assume "k \<in> subject_key ` set (WhoCan g v grp ''secrets'' ns)"
    then obtain gr where "gr \<in> set (gGrants g)" "subject_key (grSubject gr) = k" "hit v grp ''secrets'' ns gr"
      unfolding WhoCan_grants by blast
    moreover from this(3) that have "covers_verb gr verbs ''secrets''"
      by (intro hit_covers) simp_all
    ultimately show "k \<in> {subject_key (grSubject gr) | gr. gr \<in> set (gGrants g) \<and> covers_verb gr verbs ''secrets''}"
      by blast
  qed
  from UN_least [of "set [''get'', ''list'', ''watch'']", OF this [of _ "[''get'', ''list'', ''watch'']"]]
  show ?thesis unfolding eq by simp
qed

lemma map_of_count_loop:
  "(case map_of (count_loop m rs) s of None \<Rightarrow> 0 | Some n \<Rightarrow> n)
     = (case map_of m s of None \<Rightarrow> 0 | Some n \<Rightarrow> n) + int (length (filter (\<lambda>r. rkSeverity r = s) rs))"
  by (induction m rs rule: count_loop.induct) (auto split: option.splits)

lemma severityCount_Analyze:
  "severityCount (rbac_Analyze c opts) s = int (length (filter (\<lambda>r. rkSeverity r = s) (rpRisks (rbac_Analyze c opts))))"
  unfolding severityCount_def rbac_Analyze_def Let_def using map_of_count_loop [of "[]"] by simp

lemma risk_less_weak: "strict_weak risk_less"
  unfolding risk_less_def by (intro strict_weak_key strict_weak_none)

lemma rpRisks_sorted: "sorted_wrt (\<lambda>a b. \<not> risk_less b a) (rpRisks (rbac_Analyze c opts))"
  unfolding rbac_Analyze_def Let_def checkAll_def sortRisks_def
  by (simp add: strict_weak.sorted [OF risk_less_weak])

text \<open>
  A rule on the non-resource path \<^verbatim>\<open>*\<close> becomes a permission whose resource is the star, and the
  theft test looks at the resource only: a service account that may only read URLs is said to read
  secrets, and to escalate through another account.
\<close>

definition cluster1 :: cluster where
  "cluster1 = newCluster
     \<lparr> clRoles := [(''ClusterRole/cluster-admin'', \<lparr> roName = ''cluster-admin'', roNamespace = [], roClusterScoped = True,
         roRules = [\<lparr> prAPIGroups = [''*''], prResources = [''*''], prResourceNames = [], prVerbs = [''*''], prNonResourceURLs = [] \<rparr>],
         roLabels = [], roAggregates = False \<rparr>),
        (''ClusterRole/urls'', \<lparr> roName = ''urls'', roNamespace = [], roClusterScoped = True,
         roRules = [\<lparr> prAPIGroups = [], prResources = [], prResourceNames = [], prVerbs = [''get''], prNonResourceURLs = [''*''] \<rparr>],
         roLabels = [], roAggregates = False \<rparr>)],
       clBindings := [\<lparr> bdName = ''ops'', bdNamespace = [], bdClusterScoped = True,
         bdSubjects = [\<lparr> suKind = ''ServiceAccount'', suName = ''bot'', suNamespace = ''ci'' \<rparr>],
         bdRoleRef = \<lparr> rfKind = ''ClusterRole'', rfName = ''cluster-admin'' \<rparr> \<rparr>,
        \<lparr> bdName = ''urls'', bdNamespace = [], bdClusterScoped = True,
         bdSubjects = [\<lparr> suKind = ''ServiceAccount'', suName = ''probe'', suNamespace = ''mon'' \<rparr>],
         bdRoleRef = \<lparr> rfKind = ''ClusterRole'', rfName = ''urls'' \<rparr> \<rparr>] \<rparr>"

lemma nonresource_star_escalates:
  "map rkSubject (checkEscalationPaths cluster1 (buildGraph cluster1)) = [''ServiceAccount/ci/bot'', ''ServiceAccount/mon/probe'']
   \<and> map subject_key (WhoCan (buildGraph cluster1) ''get'' [] ''secrets'' []) = [''ServiceAccount/ci/bot'']
   \<and> map subject_key (WhoCan (buildGraph cluster1) ''create'' [] ''serviceaccounts/token'' []) = [''ServiceAccount/ci/bot'']"
  by code_simp

end
