(* ===== verification/RbacParse.thy ===== *)
theory RbacParse
  imports RbacChecks
begin

text \<open>
  Reading Kubernetes objects into the model: \<^verbatim>\<open>parse.go\<close> and the workload-identity part of
  \<^verbatim>\<open>cloud.go\<close>. The JSON decoder of the standard library is a parameter that gives the decoded
  record; the file system is a parameter too: a file is its size and contents, a directory walk
  the list of its entries.
\<close>

subsection \<open>Decoded objects\<close>

record rawCloud =
  rcProvider :: string
  rcRole :: string
  rcPrivilege :: string
  rcTrustAny :: bool

record rawRule =
  rrAPIGroups :: "string list"
  rrResources :: "string list"
  rrResourceNames :: "string list"
  rrVerbs :: "string list"
  rrNonResourceURLs :: "string list"

record rawSubject =
  rsKind :: string
  rsName :: string
  rsNamespace :: string

record rawSocketMount =
  rmContainer :: string
  rmPath :: string

text \<open>A security context: the privileged flag and the added capabilities, when present.\<close>

record rawSecurityContext =
  scPrivileged :: "bool option"
  scCapabilities :: "string list option"

record rawPodSpec =
  psServiceAccountName :: string
  psAutomount :: "bool option"
  psHostPID :: bool
  psHostNetwork :: bool
  psVolumes :: "string option list"
  psContainers :: "rawSecurityContext option list"

record rawObject =
  rwKind :: string
  rwName :: string
  rwNamespace :: string
  rwLabels :: "(string \<times> string) list"
  rwAnnotations :: "(string \<times> string) list"
  rwItems :: "bytes list"
  rwRules :: "rawRule list"
  rwAggregationRule :: bool
  rwSubjects :: "rawSubject list"
  rwRoleRef :: "roleRef option"
  rwAutomount :: "bool option"
  rwSpec :: "rawPodSpec option"
  rwDockerGroupMembers :: "string list"
  rwRootless :: bool
  rwSocketMounts :: "rawSocketMount list"
  rwLastUsedUnix :: int
  rwCloud :: "rawCloud option"

subsection \<open>Objects of the model\<close>

definition annAWSRoleARN :: string where "annAWSRoleARN = ''eks.amazonaws.com/role-arn''"
definition annGCPServiceAcc :: string where "annGCPServiceAcc = ''iam.gke.io/gcp-service-account''"
definition annAzureClientID :: string where "annAzureClientID = ''azure.workload.identity/client-id''"

definition annotated :: "(string \<times> string) list \<Rightarrow> cloudIdentity option" where
  "annotated ann =
     (if kv_str ann annAWSRoleARN \<noteq> [] then
        Some \<lparr> ciProvider = CloudAWS, ciRole = kv_str ann annAWSRoleARN, ciPrivilege = [], ciTrustAny = False \<rparr>
      else if kv_str ann annGCPServiceAcc \<noteq> [] then
        Some \<lparr> ciProvider = CloudGCP, ciRole = kv_str ann annGCPServiceAcc, ciPrivilege = [], ciTrustAny = False \<rparr>
      else if kv_str ann annAzureClientID \<noteq> [] then
        Some \<lparr> ciProvider = CloudAzure, ciRole = kv_str ann annAzureClientID, ciPrivilege = [], ciTrustAny = False \<rparr>
      else None)"

definition derive_cloudIdentity :: "rawObject \<Rightarrow> cloudIdentity option" where
  "derive_cloudIdentity ob =
     (case rwCloud ob of None \<Rightarrow> annotated (rwAnnotations ob)
      | Some cl \<Rightarrow>
          (let ci = (case annotated (rwAnnotations ob) of Some ci \<Rightarrow> ci
                 | None \<Rightarrow> \<lparr> ciProvider = [], ciRole = [], ciPrivilege = [], ciTrustAny = False \<rparr>);
               p = strings_ToLower (rcProvider cl);
               ci1 = (if p \<noteq> [] then ci\<lparr> ciProvider := p \<rparr> else ci);
               ci2 = (if rcRole cl \<noteq> [] then ci1\<lparr> ciRole := rcRole cl \<rparr> else ci1)
           in Some (ci2\<lparr> ciPrivilege := strings_ToLower (rcPrivilege cl), ciTrustAny := rcTrustAny cl \<rparr>)))"

definition privileged_ctx :: "rawSecurityContext option \<Rightarrow> bool" where
  "privileged_ctx sc = (case sc of None \<Rightarrow> False | Some x \<Rightarrow> scPrivileged x = Some True)"

definition added_caps :: "rawSecurityContext option \<Rightarrow> string list" where
  "added_caps sc = (case sc of None \<Rightarrow> []
     | Some x \<Rightarrow> (case scCapabilities x of None \<Rightarrow> [] | Some add \<Rightarrow> add))"

fun host_paths :: "string option list \<Rightarrow> string list" where
  "host_paths [] = []"
| "host_paths (None # vs) = host_paths vs"
| "host_paths (Some p # vs) = p # host_paths vs"

definition parsePod :: "rawObject \<Rightarrow> pod" where
  "parsePod ob =
     (case rwSpec ob of
        None \<Rightarrow> \<lparr> pdName = rwName ob, pdNamespace = rwNamespace ob, pdServiceAccountName = [], pdAutomount = None,
          pdPrivileged = False, pdHostPID = False, pdHostNetwork = False, pdHostPathMounts = [], pdAddedCapabilities = [] \<rparr>
      | Some sp \<Rightarrow> \<lparr> pdName = rwName ob, pdNamespace = rwNamespace ob, pdServiceAccountName = psServiceAccountName sp,
          pdAutomount = psAutomount sp, pdPrivileged = list_ex privileged_ctx (psContainers sp), pdHostPID = psHostPID sp,
          pdHostNetwork = psHostNetwork sp, pdHostPathMounts = host_paths (psVolumes sp),
          pdAddedCapabilities = concat (map added_caps (psContainers sp)) \<rparr>)"

definition parseRule :: "rawRule \<Rightarrow> policyRule" where
  "parseRule rr = \<lparr> prAPIGroups = rrAPIGroups rr, prResources = rrResources rr, prResourceNames = rrResourceNames rr,
     prVerbs = rrVerbs rr, prNonResourceURLs = rrNonResourceURLs rr \<rparr>"

definition parseRole :: "rawObject \<Rightarrow> role" where
  "parseRole ob = \<lparr> roName = rwName ob, roNamespace = rwNamespace ob, roClusterScoped = (rwKind ob = ''ClusterRole''),
     roRules = map parseRule (rwRules ob), roLabels = rwLabels ob, roAggregates = rwAggregationRule ob \<rparr>"

definition parseBinding :: "rawObject \<Rightarrow> binding" where
  "parseBinding ob = \<lparr> bdName = rwName ob, bdNamespace = rwNamespace ob,
     bdClusterScoped = (rwKind ob = ''ClusterRoleBinding''),
     bdSubjects = map (\<lambda>s. \<lparr> suKind = rsKind s, suName = rsName s, suNamespace = rsNamespace s \<rparr>) (rwSubjects ob),
     bdRoleRef = (case rwRoleRef ob of None \<Rightarrow> \<lparr> rfKind = [], rfName = [] \<rparr> | Some rf \<Rightarrow> rf) \<rparr>"

definition parseServiceAccount :: "rawObject \<Rightarrow> serviceAccount" where
  "parseServiceAccount ob = \<lparr> saName = rwName ob, saNamespace = rwNamespace ob, saAutomount = rwAutomount ob,
     saLabels = rwLabels ob, saLastUsed = rwLastUsedUnix ob, saCloud = derive_cloudIdentity ob \<rparr>"

definition parseDockerHost :: "rawObject \<Rightarrow> dockerHost" where
  "parseDockerHost ob = \<lparr> dhName = rwName ob, dhGroupMembers = rwDockerGroupMembers ob, dhRootless = rwRootless ob,
     dhSocketMounts = map (\<lambda>m. \<lparr> smContainer = rmContainer m, smPath = rmPath m \<rparr>) (rwSocketMounts ob) \<rparr>"

subsection \<open>Ingest\<close>

definition dispatch :: "cluster \<Rightarrow> rawObject \<Rightarrow> cluster" where
  "dispatch c ob =
     (let kind = rwKind ob in
      if kind = ''Role'' \<or> kind = ''ClusterRole'' then
        (let r = parseRole ob
         in c\<lparr> clRoles := kv_put (roleKey (kind = ''ClusterRole'') (roNamespace r) (roName r)) r (clRoles c) \<rparr>)
      else if kind = ''RoleBinding'' \<or> kind = ''ClusterRoleBinding'' then c\<lparr> clBindings := clBindings c @ [parseBinding ob] \<rparr>
      else if kind = ''ServiceAccount'' then
        c\<lparr> clServiceAccounts := kv_put (rwNamespace ob @ ''/'' @ rwName ob) (parseServiceAccount ob) (clServiceAccounts c) \<rparr>
      else if kind = ''Pod'' then c\<lparr> clPods := clPods c @ [parsePod ob] \<rparr>
      else if kind = ''DockerHost'' then c\<lparr> clDockerHosts := clDockerHosts c @ [parseDockerHost ob] \<rparr>
      else c)"

fun ingest_items :: "(bytes \<Rightarrow> rawObject option) \<Rightarrow> cluster \<Rightarrow> bytes list \<Rightarrow> cluster" where
  "ingest_items dec c [] = c"
| "ingest_items dec c (it # its) =
     (case dec it of None \<Rightarrow> ingest_items dec c its | Some child \<Rightarrow> ingest_items dec (dispatch c child) its)"

datatype rbac_load_err = ParseJSON | TooLarge | StatFailed | ReadFailed | WalkFailed

definition ingest :: "(bytes \<Rightarrow> rawObject option) \<Rightarrow> cluster \<Rightarrow> bytes \<Rightarrow> rbac_load_err + cluster" where
  "ingest dec c data =
     (case dec data of None \<Rightarrow> Inl ParseJSON
      | Some ob \<Rightarrow>
          if strings_ToLower (rwKind ob) = ''list'' \<or> length (rwItems ob) > 0
          then Inr (ingest_items dec c (rwItems ob)) else Inr (dispatch c ob))"

definition LoadBytes :: "(bytes \<Rightarrow> rawObject option) \<Rightarrow> bytes \<Rightarrow> rbac_load_err + cluster" where
  "LoadBytes dec data = ingest dec newCluster data"

definition maxFileBytes :: int where "maxFileBytes = 8 * 1048576"
definition maxFiles :: nat where "maxFiles = 5000"

text \<open>A file: its size, None when it cannot be examined, and its contents, None when unreadable.\<close>

record fileInfo =
  fiSize :: "int option"
  fiData :: "bytes option"

definition ingestFile :: "(bytes \<Rightarrow> rawObject option) \<Rightarrow> cluster \<Rightarrow> fileInfo \<Rightarrow> rbac_load_err + cluster" where
  "ingestFile dec c f =
     (case fiSize f of None \<Rightarrow> Inl StatFailed
      | Some n \<Rightarrow> if n > maxFileBytes then Inl TooLarge
          else (case fiData f of None \<Rightarrow> Inl ReadFailed | Some data \<Rightarrow> ingest dec c data))"

text \<open>An entry of a directory walk: an error, or a name, whether it is a directory, and the file.\<close>

datatype walkEntry = WalkErr | Entry string bool fileInfo

fun walk_dir :: "(bytes \<Rightarrow> rawObject option) \<Rightarrow> nat \<Rightarrow> cluster \<Rightarrow> walkEntry list \<Rightarrow> rbac_load_err + cluster" where
  "walk_dir dec n c [] = Inr c"
| "walk_dir dec n c (WalkErr # es) = Inl WalkFailed"
| "walk_dir dec n c (Entry name isDir f # es) =
     (if isDir \<or> \<not> strings_HasSuffix (strings_ToLower name) ''.json'' then walk_dir dec n c es
      else if n \<ge> maxFiles then Inr c
      else walk_dir dec (Suc n) (case ingestFile dec c f of Inl e \<Rightarrow> c | Inr c' \<Rightarrow> c') es)"

datatype pathInfo = NoPath | OneFile fileInfo | Directory "walkEntry list"

definition LoadPath :: "(bytes \<Rightarrow> rawObject option) \<Rightarrow> pathInfo \<Rightarrow> rbac_load_err + cluster" where
  "LoadPath dec p =
     (case p of NoPath \<Rightarrow> Inl StatFailed
      | OneFile f \<Rightarrow> ingestFile dec newCluster f
      | Directory es \<Rightarrow> walk_dir dec 0 newCluster es)"

definition AnalyzeBytes :: "(bytes \<Rightarrow> rawObject option) \<Rightarrow> bytes \<Rightarrow> options \<Rightarrow> rbac_load_err + rbacReport" where
  "AnalyzeBytes dec data opts = (case LoadBytes dec data of Inl e \<Rightarrow> Inl e | Inr c \<Rightarrow> Inr (rbac_Analyze c opts))"

definition AnalyzePath :: "(bytes \<Rightarrow> rawObject option) \<Rightarrow> pathInfo \<Rightarrow> options \<Rightarrow> rbac_load_err + rbacReport" where
  "AnalyzePath dec p opts = (case LoadPath dec p of Inl e \<Rightarrow> Inl e | Inr c \<Rightarrow> Inr (rbac_Analyze c opts))"

subsection \<open>Loaded clusters\<close>

text \<open>Every role is filed under its own key, and the keys are distinct.\<close>

definition cluster_wf :: "cluster \<Rightarrow> bool" where
  "cluster_wf c \<longleftrightarrow> distinct (map fst (clRoles c)) \<and> distinct (map fst (clServiceAccounts c))
     \<and> (\<forall>(k, r) \<in> set (clRoles c). k = roleKey (roClusterScoped r) (roNamespace r) (roName r))
     \<and> (\<forall>(k, sa) \<in> set (clServiceAccounts c). k = saNamespace sa @ ''/'' @ saName sa)"

lemma cluster_wf_new: "cluster_wf newCluster"
  by (simp add: cluster_wf_def newCluster_def)

lemma kv_put_ball: "(\<forall>(k, v) \<in> set m. P k v) \<Longrightarrow> P k v \<Longrightarrow> (\<forall>(k, v) \<in> set (kv_put k v m). P k v)"
  using set_kv_put [of k v m] by fast

lemma cluster_wf_dispatch:
  assumes wf: "cluster_wf c"
  shows "cluster_wf (dispatch c ob)"
proof -
  define r where "r = parseRole ob"
  define sa where "sa = parseServiceAccount ob"
  have "\<forall>(k, v) \<in> set (kv_put (roleKey (rwKind ob = ''ClusterRole'') (roNamespace r) (roName r)) r (clRoles c)).
      k = roleKey (roClusterScoped v) (roNamespace v) (roName v)"
    by (rule kv_put_ball) (use wf in \<open>auto simp: cluster_wf_def r_def parseRole_def\<close>)
  moreover have "\<forall>(k, v) \<in> set (kv_put (rwNamespace ob @ ''/'' @ rwName ob) sa (clServiceAccounts c)).
      k = saNamespace v @ ''/'' @ saName v"
    by (rule kv_put_ball) (use wf in \<open>auto simp: cluster_wf_def sa_def parseServiceAccount_def\<close>)
  ultimately show ?thesis
    using wf unfolding cluster_wf_def dispatch_def Let_def r_def [symmetric] sa_def [symmetric] by simp
qed

lemma cluster_wf_items: "cluster_wf c \<Longrightarrow> cluster_wf (ingest_items dec c its)"
  by (induction dec c its rule: ingest_items.induct) (auto simp: cluster_wf_dispatch split: option.splits)

lemma cluster_wf_ingest: "cluster_wf c \<Longrightarrow> ingest dec c data = Inr c' \<Longrightarrow> cluster_wf c'"
  by (auto simp: ingest_def cluster_wf_dispatch cluster_wf_items split: option.splits if_splits)

lemma cluster_wf_file: "cluster_wf c \<Longrightarrow> ingestFile dec c f = Inr c' \<Longrightarrow> cluster_wf c'"
  by (auto simp: ingestFile_def cluster_wf_ingest split: option.splits if_splits)

lemma cluster_wf_walk: "cluster_wf c \<Longrightarrow> walk_dir dec n c es = Inr c' \<Longrightarrow> cluster_wf c'"
proof (induction dec n c es rule: walk_dir.induct)
  case (3 dec n c name isDir f es)
  then show ?case
    by (cases "ingestFile dec c f") (auto simp: cluster_wf_file split: if_splits)
qed auto

lemma cluster_wf_LoadPath: "LoadPath dec p = Inr c \<Longrightarrow> cluster_wf c"
  by (auto simp: LoadPath_def cluster_wf_file [OF cluster_wf_new] cluster_wf_walk [OF cluster_wf_new] split: pathInfo.splits)

lemma roleKey_inj:
  assumes "roleKey cs ns n = roleKey cs' ns' n'" "CHR ''/'' \<notin> set ns'" "CHR ''/'' \<notin> set n'"
  shows "cs = cs' \<and> n = n' \<and> (cs \<or> ns = ns')"
proof -
  have sl: "a = a' \<and> b = b'" if eq: "a @ CHR ''/'' # b = a' @ CHR ''/'' # b'" and clean: "CHR ''/'' \<notin> set a'" "CHR ''/'' \<notin> set b'"
    for a b a' b' :: string
  proof -
    have "count_list (a @ CHR ''/'' # b) CHR ''/'' = count_list (a' @ CHR ''/'' # b') CHR ''/''"
      using eq by simp
    then have "CHR ''/'' \<notin> set a"
      using clean by (simp add: count_list_0_iff)
    then show ?thesis
      using arg_cong [OF eq, of "cut_byte CHR ''/''"] clean(1) by simp
  qed
  show ?thesis
    using assms sl [of ns n ns' n'] by (cases cs; cases cs'; simp add: roleKey_def)
qed

text \<open>
  Loading: a role that a binding of a loaded cluster resolves to has the name the
  binding asks for, and is a cluster role or a role of the binding's own namespace: no binding
  reaches into another namespace. Names and namespaces have no slash, as in Kubernetes.
\<close>

theorem loaded_bindings_resolve:
  assumes "LoadPath dec p = Inr c" and "resolveRole c b = Some r"
    and "CHR ''/'' \<notin> set (bdNamespace b)" and "CHR ''/'' \<notin> set (rfName (bdRoleRef b))"
  shows "roName r = rfName (bdRoleRef b) \<and> (roClusterScoped r \<or> roNamespace r = bdNamespace b)
    \<and> (rfKind (bdRoleRef b) = ''ClusterRole'' \<longrightarrow> roClusterScoped r)
    \<and> (rfKind (bdRoleRef b) = ''Role'' \<longrightarrow> \<not> roClusterScoped r)"
proof -
  have key: "k = roleKey (roClusterScoped r') (roNamespace r') (roName r')" if "map_of (clRoles c) k = Some r'" for k r'
    using cluster_wf_LoadPath [OF assms(1)] map_of_SomeD [OF that] by (auto simp: cluster_wf_def)
  have cluster: "roClusterScoped r \<and> roName r = rfName (bdRoleRef b)"
    if "map_of (clRoles c) (roleKey True [] (rfName (bdRoleRef b))) = Some r"
    using roleKey_inj [OF key [OF that, symmetric]] assms(4) by simp
  have local: "\<not> roClusterScoped r \<and> roName r = rfName (bdRoleRef b) \<and> roNamespace r = bdNamespace b"
    if "map_of (clRoles c) (roleKey False (bdNamespace b) (rfName (bdRoleRef b))) = Some r"
    using roleKey_inj [OF key [OF that, symmetric]] assms(3,4) by auto
  show ?thesis
    using assms(2) cluster local unfolding resolveRole_def Let_def
    by (auto split: if_splits option.splits)
qed

definition role_object :: rawObject where
  "role_object = \<lparr> rwKind = ''Role'', rwName = ''r'', rwNamespace = ''a'', rwLabels = [], rwAnnotations = [], rwItems = [],
     rwRules = [], rwAggregationRule = False, rwSubjects = [], rwRoleRef = None, rwAutomount = None, rwSpec = None,
     rwDockerGroupMembers = [], rwRootless = False, rwSocketMounts = [], rwLastUsedUnix = 0, rwCloud = None \<rparr>"

theorem loaded_bindings_resolve_witness:
  "\<exists>r. resolveRole (dispatch newCluster role_object)
      \<lparr> bdName = ''b'', bdNamespace = ''a'', bdClusterScoped = False, bdSubjects = [], bdRoleRef = \<lparr> rfKind = ''Role'', rfName = ''r'' \<rparr> \<rparr> = Some r
    \<and> roNamespace r = ''a''"
proof -
  let ?b = "\<lparr> bdName = ''b'', bdNamespace = ''a'', bdClusterScoped = False, bdSubjects = [], bdRoleRef = \<lparr> rfKind = ''Role'', rfName = ''r'' \<rparr> \<rparr>"
  let ?p = "OneFile \<lparr> fiSize = Some 2, fiData = Some ''{}'' \<rparr>"
  have load: "LoadPath (\<lambda>_. Some role_object) ?p = Inr (dispatch newCluster role_object)"
    by (simp add: LoadPath_def ingestFile_def maxFileBytes_def ingest_def role_object_def strings_ToLower_def lowerByte_def)
  have res: "resolveRole (dispatch newCluster role_object) ?b = Some (parseRole role_object)"
    by code_simp
  have "roNamespace (parseRole role_object) = ''a''"
    using loaded_bindings_resolve [OF load res] by (simp add: parseRole_def role_object_def)
  with res show ?thesis by blast
qed

end
