(* ===== verification/GoPath.thy ===== *)
theory GoPath
  imports GoData
begin

text \<open>
  Go's \<^verbatim>\<open>path\<close> package on slash-separated paths. \<open>path_Clean\<close> is the stack of the components: a dot
  and an empty component vanish, a double dot removes the component before it; at the root
  it vanishes, and at the start of a relative path it stays.
\<close>

definition dotdot :: string where
  "dotdot = ''..''"

fun clean_segs :: "bool \<Rightarrow> string list \<Rightarrow> string list \<Rightarrow> string list" where
  "clean_segs rooted out [] = rev out"
| "clean_segs rooted out (s # ss) =
     (if s = [] \<or> s = ''.'' then clean_segs rooted out ss
      else if s = dotdot then
        (case out of
           [] \<Rightarrow> clean_segs rooted (if rooted then [] else [dotdot]) ss
         | prev # rest \<Rightarrow> if prev = dotdot then clean_segs rooted (dotdot # out) ss else clean_segs rooted rest ss)
      else clean_segs rooted (s # out) ss)"

definition rooted :: "string \<Rightarrow> bool" where
  "rooted p \<longleftrightarrow> p \<noteq> [] \<and> hd p = CHR ''/''"

definition path_Clean :: "string \<Rightarrow> string" where
  "path_Clean p =
     (let segs = clean_segs (rooted p) [] (split_byte CHR ''/'' p) in
      if rooted p then CHR ''/'' # join_with ''/'' segs
      else if segs = [] then ''.'' else join_with ''/'' segs)"

definition path_Base :: "string \<Rightarrow> string" where
  "path_Base p =
     (if p = [] then ''.''
      else
        (let q = trim_right (\<lambda>c. c = CHR ''/'') p;
             b = (case cut_last_byte CHR ''/'' q of None \<Rightarrow> q | Some (a, b) \<Rightarrow> b)
         in if b = [] then ''/'' else b))"

text \<open>The directory part, up to and with the last slash, cleaned.\<close>

definition path_Dir :: "string \<Rightarrow> string" where
  "path_Dir p = path_Clean (case cut_last_byte CHR ''/'' p of None \<Rightarrow> [] | Some (a, b) \<Rightarrow> a @ ''/'')"

definition path_Join :: "string \<Rightarrow> string \<Rightarrow> string" where
  "path_Join a b = (if a = [] \<and> b = [] then [] else if a = [] then path_Clean b
     else if b = [] then path_Clean a else path_Clean (a @ ''/'' @ b))"

subsection \<open>Clean paths\<close>

text \<open>A component of a clean path below the root.\<close>

definition plain_seg :: "string \<Rightarrow> bool" where
  "plain_seg s \<longleftrightarrow> s \<noteq> [] \<and> s \<noteq> ''.'' \<and> s \<noteq> dotdot \<and> CHR ''/'' \<notin> set s"

lemma plain_dotdot: "\<not> plain_seg dotdot" "\<not> plain_seg []" "\<not> plain_seg ''.''"
  by (auto simp: plain_seg_def)

lemma split_byte_parts: "s \<in> set (split_byte c p) \<Longrightarrow> c \<notin> set s"
  by (induction p arbitrary: s) (auto split: if_splits list.splits)

lemma clean_segs_plain:
  "\<forall>s \<in> set ss. CHR ''/'' \<notin> set s \<Longrightarrow> list_all plain_seg out \<Longrightarrow> list_all plain_seg (clean_segs True out ss)"
proof (induction "True" out ss rule: clean_segs.induct)
  case (2 out s ss)
  show ?case
  proof (cases "s = [] \<or> s = ''.''")
    case True
    then show ?thesis using 2 by auto
  next
    case ne: False
    show ?thesis
    proof (cases "s = dotdot")
      case True
      show ?thesis
      proof (cases out)
        case Nil
        then show ?thesis using 2 ne True by auto
      next
        case (Cons prev rest)
        then have "prev \<noteq> dotdot" using 2 plain_dotdot by auto
        then show ?thesis using 2 ne True Cons by auto
      qed
    next
      case False
      then have "plain_seg s" using ne 2 by (auto simp: plain_seg_def)
      then show ?thesis using 2 ne False by auto
    qed
  qed
qed (simp add: list_all_iff)

lemma clean_segs_id: "list_all plain_seg ss \<Longrightarrow> clean_segs r out ss = rev out @ ss"
  by (induction ss arbitrary: out) (auto simp: plain_seg_def)

lemma clean_segs_Nil: "clean_segs r out ([] # ss) = clean_segs r out ss"
  by simp

lemma split_byte_join: "ss \<noteq> [] \<Longrightarrow> \<forall>s \<in> set ss. c \<notin> set s \<Longrightarrow> split_byte c (join_with [c] ss) = ss"
proof (induction "[c]" ss rule: join_with.induct)
  case (2 s)
  have "split_byte c s = [s]" if "c \<notin> set s" for s
    using that by (induction s) auto
  with 2 show ?case by simp
next
  case (3 s t ss)
  have "split_byte c (s @ c # r) = s # split_byte c r" if "c \<notin> set s" for s r
    using that by (induction s) auto
  with 3 show ?case by simp
qed simp

end
