(* ===== verification/OciImage.thy ===== *)
theory OciImage
  imports GoPath
begin

text \<open>
  Container images: \<^verbatim>\<open>oci.go\<close> and \<^verbatim>\<open>loader.go\<close> of \<^verbatim>\<open>internal/oci\<close>. A file tree is an association
  list from paths to files. The tar reader, gzip, the JSON decoder and the file system are the
  parameters \<open>ociLib\<close>: what the reader gives for some bytes is a list of entries that may end in
  an error.
\<close>

subsection \<open>Files, layers and trees\<close>

record ociFile =
  ofPath :: string
  ofMode :: int
  ofSize :: int
  ofData :: bytes

record layer =
  lyIndex :: nat
  lyDigest :: string
  lyFiles :: "ociFile list"
  lyWhiteouts :: "string list"

record image =
  imRepoTags :: "string list"
  imConfigDigest :: string
  imConfig :: bytes
  imLayers :: "layer list"

type_synonym fileTree = "(string \<times> ociFile) list"

definition slashes :: "string \<Rightarrow> string" where
  "slashes p = map (\<lambda>c. if c = CHR 0x5C then CHR ''/'' else c) p"

definition cleanPath :: "string \<Rightarrow> string" where
  "cleanPath p = strings_TrimPrefix (path_Clean (CHR ''/'' # slashes p)) ''/''"

fun tree_from_map :: "fileTree \<Rightarrow> (string \<times> bytes) list \<Rightarrow> fileTree" where
  "tree_from_map t [] = t"
| "tree_from_map t ((p, data) # fs) =
     (let cp = cleanPath p in
      if cp = [] then tree_from_map t fs
      else tree_from_map (kv_put cp \<lparr> ofPath = cp, ofMode = 420, ofSize = int (length data), ofData = data \<rparr> t) fs)"

definition TreeFromMap :: "(string \<times> bytes) list \<Rightarrow> fileTree" where
  "TreeFromMap files = tree_from_map [] files"

definition tree_Get :: "fileTree \<Rightarrow> string \<Rightarrow> ociFile option" where
  "tree_Get t p = map_of t (cleanPath p)"

definition tree_Files :: "fileTree \<Rightarrow> ociFile list" where
  "tree_Files t = sort_stable (key_less ofPath (\<lambda>a b. False)) (map snd t)"

definition whiteoutPrefix :: string where "whiteoutPrefix = ''.wh.''"
definition whiteoutOpaque :: string where "whiteoutOpaque = ''.wh..wh..opq''"

definition removePrefix :: "string \<Rightarrow> fileTree \<Rightarrow> fileTree" where
  "removePrefix dir t =
     (let dir' = cleanPath dir; prefix = (if dir' = [] then [] else dir' @ ''/'')
      in filter (\<lambda>(k, f). \<not> (prefix = [] \<or> strings_HasPrefix k prefix)) t)"

definition tree_remove :: "string \<Rightarrow> fileTree \<Rightarrow> fileTree" where
  "tree_remove p t = (let p' = cleanPath p in removePrefix p' (filter (\<lambda>(k, f). k \<noteq> p') t))"

definition is_marker :: "ociFile \<Rightarrow> bool" where
  "is_marker e \<longleftrightarrow> path_Base (ofPath e) = whiteoutOpaque \<or> strings_HasPrefix (path_Base (ofPath e)) whiteoutPrefix"

fun flatten_whiteouts :: "fileTree \<Rightarrow> ociFile list \<Rightarrow> fileTree" where
  "flatten_whiteouts t [] = t"
| "flatten_whiteouts t (e # es) =
     (let base = path_Base (ofPath e) in
      if base = whiteoutOpaque then flatten_whiteouts (removePrefix (path_Dir (ofPath e)) t) es
      else if strings_HasPrefix base whiteoutPrefix
        then flatten_whiteouts (tree_remove (path_Join (path_Dir (ofPath e)) (strings_TrimPrefix base whiteoutPrefix)) t) es
      else flatten_whiteouts t es)"

fun flatten_files :: "fileTree \<Rightarrow> ociFile list \<Rightarrow> fileTree" where
  "flatten_files t [] = t"
| "flatten_files t (e # es) =
     (if is_marker e then flatten_files t es
      else (let cp = cleanPath (ofPath e) in
        if cp = [] then flatten_files t es else flatten_files (kv_put cp (e\<lparr> ofPath := cp \<rparr>) t) es))"

fun flatten_layers :: "fileTree \<Rightarrow> layer list \<Rightarrow> fileTree" where
  "flatten_layers t [] = t"
| "flatten_layers t (ly # lys) = flatten_layers (flatten_files (flatten_whiteouts t (lyFiles ly)) (lyFiles ly)) lys"

definition Flatten :: "image \<Rightarrow> fileTree" where
  "Flatten img = flatten_layers [] (imLayers img)"

subsection \<open>Loading\<close>

definition ociMaxFileBytes :: nat where
  "ociMaxFileBytes = 256 * 1048576"

datatype oci_err = OErrStat | OErrRead | OErrTar | OErrFormat | OErrBlob string | OErrParse | OErrNoImages | OErrTooDeep | OErrNoManifest

text \<open>An entry of the tar stream: name, type flag, mode, size, and the body or a read error.\<close>

datatype tarItem = TarFail | TarEntry string char int int "bytes option"

record dockerManifest =
  dmConfig :: string
  dmRepoTags :: "string list"
  dmLayers :: "string list"

record ociDescriptor =
  odMediaType :: string
  odDigest :: string

record ociManifest =
  omConfig :: ociDescriptor
  omLayers :: "ociDescriptor list"
  omManifests :: "ociDescriptor list"

record ociLib =
  olGunzip :: "bytes \<Rightarrow> bytes option"
  olRest :: "bytes \<Rightarrow> bytes"
  olTar :: "bytes \<Rightarrow> tarItem list"
  olManifests :: "bytes \<Rightarrow> dockerManifest list option"
  olIndex :: "bytes \<Rightarrow> ociDescriptor list option"
  olManifest :: "bytes \<Rightarrow> ociManifest option"

definition maybeGunzip :: "ociLib \<Rightarrow> bytes \<Rightarrow> bytes" where
  "maybeGunzip lib data =
     (if take 2 data = [CHR 0x1F, CHR 0x8B]
      then (case olGunzip lib data of Some d \<Rightarrow> d | None \<Rightarrow> olRest lib data) else data)"

definition readCapped :: "bytes \<Rightarrow> bytes" where
  "readCapped data = take ociMaxFileBytes data"

definition isRegular :: "char \<Rightarrow> bool" where
  "isRegular flag \<longleftrightarrow> flag = CHR ''0'' \<or> flag = CHR 0x00"

fun read_entries :: "(string \<times> bytes) list \<Rightarrow> tarItem list \<Rightarrow> oci_err + (string \<times> bytes) list" where
  "read_entries out [] = Inr out"
| "read_entries out (TarFail # its) = Inl OErrTar"
| "read_entries out (TarEntry name flag mode sz body # its) =
     (if \<not> isRegular flag then read_entries out its
      else (case body of None \<Rightarrow> Inl OErrTar
            | Some data \<Rightarrow> read_entries (kv_put (cleanPath name) (readCapped data) out) its))"

definition readTarEntries :: "ociLib \<Rightarrow> bytes \<Rightarrow> oci_err + (string \<times> bytes) list" where
  "readTarEntries lib data = read_entries [] (olTar lib (maybeGunzip lib data))"

fun layer_loop :: "layer \<Rightarrow> tarItem list \<Rightarrow> oci_err + layer" where
  "layer_loop ly [] = Inr ly"
| "layer_loop ly (TarFail # its) = Inl OErrTar"
| "layer_loop ly (TarEntry hname flag mode sz body # its) =
     (let name = cleanPath hname in
      if name = [] then layer_loop ly its
      else if path_Base name = whiteoutOpaque \<or> strings_HasPrefix (path_Base name) whiteoutPrefix
        then layer_loop (ly\<lparr> lyWhiteouts := lyWhiteouts ly @ [name],
          lyFiles := lyFiles ly @ [\<lparr> ofPath = name, ofMode = mode, ofSize = 0, ofData = [] \<rparr>] \<rparr>) its
      else if \<not> isRegular flag then layer_loop ly its
      else (case body of None \<Rightarrow> Inl OErrTar
            | Some data \<Rightarrow> layer_loop (ly\<lparr> lyFiles := lyFiles ly
                @ [\<lparr> ofPath = name, ofMode = mode, ofSize = sz, ofData = readCapped data \<rparr>] \<rparr>) its))"

definition layerFromTar :: "ociLib \<Rightarrow> nat \<Rightarrow> string \<Rightarrow> bytes \<Rightarrow> oci_err + layer" where
  "layerFromTar lib i digest data =
     layer_loop \<lparr> lyIndex = i, lyDigest = digest, lyFiles = [], lyWhiteouts = [] \<rparr> (olTar lib (maybeGunzip lib data))"

text \<open>Blobs are looked up in the archive's entries, or read from a directory.\<close>

datatype blobStore = InArchive "(string \<times> bytes) list" | InDir "string \<Rightarrow> bytes option"

definition blob_get :: "blobStore \<Rightarrow> string \<Rightarrow> oci_err + bytes" where
  "blob_get st ref =
     (let rel = cleanPath (if strings_HasPrefix ref ''sha256:''
            then path_Join ''blobs/sha256'' (strings_TrimPrefix ref ''sha256:'') else ref)
      in case (case st of InArchive es \<Rightarrow> map_of es rel | InDir rd \<Rightarrow> rd rel) of
           None \<Rightarrow> Inl (OErrBlob ref) | Some data \<Rightarrow> Inr data)"

definition digestFromRef :: "string \<Rightarrow> string" where
  "digestFromRef ref =
     (let r = cleanPath ref in
      if strings_HasPrefix r ''sha256:'' then r
      else (case strings_Index r ''sha256/'' of
              Some i \<Rightarrow> ''sha256:'' @ strings_TrimSuffix (drop (i + 7) r) ''.json''
            | None \<Rightarrow> r))"

fun load_layers :: "ociLib \<Rightarrow> blobStore \<Rightarrow> (string \<Rightarrow> string) \<Rightarrow> nat \<Rightarrow> string list \<Rightarrow> oci_err + layer list" where
  "load_layers lib st dg i [] = Inr []"
| "load_layers lib st dg i (ref # refs) =
     (case blob_get st ref of Inl e \<Rightarrow> Inl e
      | Inr data \<Rightarrow> (case layerFromTar lib i (dg ref) data of Inl e \<Rightarrow> Inl e
          | Inr ly \<Rightarrow> (case load_layers lib st dg (Suc i) refs of Inl e \<Rightarrow> Inl e | Inr lys \<Rightarrow> Inr (ly # lys))))"

definition load_image :: "ociLib \<Rightarrow> blobStore \<Rightarrow> (string \<Rightarrow> string) \<Rightarrow> string list \<Rightarrow> string \<Rightarrow> string list \<Rightarrow> oci_err + image" where
  "load_image lib st dg tags config refs =
     (let (cfg, cd) = (case blob_get st config of Inl e \<Rightarrow> ([], []) | Inr data \<Rightarrow> (data, dg config)) in
      case load_layers lib st dg 0 refs of Inl e \<Rightarrow> Inl e
      | Inr lys \<Rightarrow> Inr \<lparr> imRepoTags = tags, imConfigDigest = cd, imConfig = cfg, imLayers = lys \<rparr>)"

definition loadDockerSave :: "ociLib \<Rightarrow> (string \<times> bytes) list \<Rightarrow> oci_err + image" where
  "loadDockerSave lib entries =
     (case olManifests lib (kv_str entries ''manifest.json'') of None \<Rightarrow> Inl OErrParse
      | Some [] \<Rightarrow> Inl OErrNoImages
      | Some (m # ms) \<Rightarrow> load_image lib (InArchive entries) digestFromRef (dmRepoTags m) (dmConfig m) (dmLayers m))"

function resolveManifest :: "ociLib \<Rightarrow> blobStore \<Rightarrow> nat \<Rightarrow> ociDescriptor list \<Rightarrow> oci_err + ociManifest" where
  "resolveManifest lib st depth descs =
     (if depth > 8 then Inl OErrTooDeep
      else (case descs of [] \<Rightarrow> Inl OErrNoManifest
        | d # ds \<Rightarrow>
           (case blob_get st (odDigest d) of Inl e \<Rightarrow> resolveManifest lib st depth ds
            | Inr data \<Rightarrow>
               (case olManifest lib data of None \<Rightarrow> resolveManifest lib st depth ds
                | Some m \<Rightarrow>
                   if length (omLayers m) > 0 then Inr m
                   else if length (omManifests m) > 0 then
                     (case resolveManifest lib st (Suc depth) (omManifests m) of
                        Inr inner \<Rightarrow> Inr inner | Inl e \<Rightarrow> resolveManifest lib st depth ds)
                   else resolveManifest lib st depth ds))))"
  by pat_completeness auto

termination
  by (relation "measures [\<lambda>(lib, st, depth, descs). 9 - depth, \<lambda>(lib, st, depth, descs). length descs]") auto

declare resolveManifest.simps [simp del]

definition buildFromOCIIndex :: "ociLib \<Rightarrow> bytes \<Rightarrow> blobStore \<Rightarrow> oci_err + image" where
  "buildFromOCIIndex lib indexJSON st =
     (case olIndex lib indexJSON of None \<Rightarrow> Inl OErrParse
      | Some descs \<Rightarrow> (case resolveManifest lib st 0 descs of Inl e \<Rightarrow> Inl e
          | Inr m \<Rightarrow> load_image lib st (\<lambda>d. d) [] (odDigest (omConfig m)) (map odDigest (omLayers m))))"

datatype ociPath = Missing | Dir "string \<Rightarrow> bytes option" | Archive "bytes option"

definition oci_Load :: "ociLib \<Rightarrow> ociPath \<Rightarrow> oci_err + image" where
  "oci_Load lib p =
     (case p of Missing \<Rightarrow> Inl OErrStat
      | Dir rd \<Rightarrow> (case rd ''index.json'' of None \<Rightarrow> Inl OErrRead | Some idx \<Rightarrow> buildFromOCIIndex lib idx (InDir rd))
      | Archive None \<Rightarrow> Inl OErrRead
      | Archive (Some data) \<Rightarrow>
          (case readTarEntries lib data of Inl e \<Rightarrow> Inl e
           | Inr entries \<Rightarrow>
               if map_of entries ''manifest.json'' \<noteq> None then loadDockerSave lib entries
               else (case map_of entries ''index.json'' of
                       Some idx \<Rightarrow> buildFromOCIIndex lib idx (InArchive entries)
                     | None \<Rightarrow> Inl OErrFormat)))"

text \<open>A walk of a directory: an error, or a regular file with its size and contents.\<close>

datatype walkFile = WalkFail | Regular string int int "bytes option" | Other

fun tree_walk :: "fileTree \<Rightarrow> walkFile list \<Rightarrow> fileTree option" where
  "tree_walk t [] = Some t"
| "tree_walk t (WalkFail # fs) = None"
| "tree_walk t (Other # fs) = tree_walk t fs"
| "tree_walk t (Regular rel mode sz body # fs) =
     (if sz > int ociMaxFileBytes then tree_walk t fs
      else (case body of None \<Rightarrow> None
            | Some data \<Rightarrow> (let cp = cleanPath rel in
                tree_walk (kv_put cp \<lparr> ofPath = cp, ofMode = mode, ofSize = sz, ofData = data \<rparr> t) fs)))"

definition TreeFromDir :: "walkFile list \<Rightarrow> fileTree option" where
  "TreeFromDir fs = tree_walk [] fs"

subsection \<open>Clean paths\<close>

text \<open>The components of a path below the root, none of them empty, a dot or a double dot.\<close>

definition inside :: "string \<Rightarrow> bool" where
  "inside p \<longleftrightarrow> (\<exists>segs. segs \<noteq> [] \<and> list_all plain_seg segs \<and> (\<forall>s \<in> set segs. CHR 0x5C \<notin> set s)
     \<and> p = join_with ''/'' segs)"

definition path_segs :: "string \<Rightarrow> string list" where
  "path_segs p = clean_segs True [] (split_byte CHR ''/'' (slashes p))"

lemma cleanPath_segs: "cleanPath p = join_with ''/'' (path_segs p)"
  by (simp add: cleanPath_def path_Clean_def rooted_def strings_TrimPrefix_def strings_HasPrefix_def path_segs_def)

lemma clean_segs_set: "set (clean_segs r out ss) \<subseteq> set out \<union> set ss \<union> {dotdot}"
  by (induction r out ss rule: clean_segs.induct) (auto split: list.splits if_splits)

lemma split_byte_chars: "s \<in> set (split_byte c p) \<Longrightarrow> set s \<subseteq> set p"
proof (induction p arbitrary: s)
  case (Cons x p)
  show ?case
  proof (cases "x = c")
    case True
    then show ?thesis using Cons by auto
  next
    case False
    then show ?thesis using Cons by (cases "split_byte c p") (auto, blast)
  qed
qed simp

lemma path_segs_plain: "list_all plain_seg (path_segs p)" "s \<in> set (path_segs p) \<Longrightarrow> CHR 0x5C \<notin> set s"
proof -
  show "list_all plain_seg (path_segs p)"
    unfolding path_segs_def by (rule clean_segs_plain) (auto dest: split_byte_parts)
  assume "s \<in> set (path_segs p)"
  then have "s \<in> set (split_byte CHR ''/'' (slashes p)) \<or> s = dotdot"
    using clean_segs_set [of True "[]" "split_byte CHR ''/'' (slashes p)"] by (auto simp: path_segs_def)
  moreover have "CHR 0x5C \<notin> set (slashes p)" by (auto simp: slashes_def)
  ultimately show "CHR 0x5C \<notin> set s"
    using split_byte_chars [of s "CHR ''/''" "slashes p"] by (auto simp: dotdot_def)
qed

lemma cleanPath_inside: "cleanPath p \<noteq> [] \<Longrightarrow> inside (cleanPath p)"
  using path_segs_plain(1) [of p] path_segs_plain(2) [where p = p]
  unfolding inside_def cleanPath_segs by (intro exI [of _ "path_segs p"]) auto

lemma join_set: "set (join_with sep ss) \<subseteq> set sep \<union> (\<Union>s \<in> set ss. set s)"
  by (induction sep ss rule: join_with.induct) auto

lemma cleanPath_join:
  assumes "list_all plain_seg segs" "\<forall>s \<in> set segs. CHR 0x5C \<notin> set s"
  shows "cleanPath (join_with ''/'' segs) = join_with ''/'' segs"
proof -
  have "CHR 0x5C \<notin> set (join_with ''/'' segs)"
    using join_set [of "''/''" segs] assms(2) by auto
  then have sl: "slashes (join_with ''/'' segs) = join_with ''/'' segs"
    unfolding slashes_def by (intro map_idI) auto
  have "path_segs (join_with ''/'' segs) = segs"
  proof (cases "segs = []")
    case True
    then show ?thesis by (simp add: path_segs_def slashes_def)
  next
    case False
    have "\<forall>s \<in> set segs. CHR ''/'' \<notin> set s"
      using assms(1) by (auto simp: list_all_iff plain_seg_def)
    then show ?thesis
      unfolding path_segs_def sl using False assms(1) by (simp add: split_byte_join clean_segs_id)
  qed
  then show ?thesis by (simp add: cleanPath_segs)
qed

lemma cleanPath_idem [simp]: "cleanPath (cleanPath p) = cleanPath p"
  using path_segs_plain(1) [of p] path_segs_plain(2) [where p = p] by (simp add: cleanPath_segs [of p] cleanPath_join)

subsection \<open>The effective file system\<close>

text \<open>
  The overlay as the image specification has it, read from the top layer down: a path is the
  last file the layer has there; else it is gone when a marker of the layer covers it; else it
  is what the layers below have.
\<close>

definition under :: "string \<Rightarrow> string \<Rightarrow> bool" where
  "under d k \<longleftrightarrow> d = [] \<or> strings_HasPrefix k (d @ ''/'')"

definition whites :: "ociFile \<Rightarrow> string \<Rightarrow> bool" where
  "whites e k \<longleftrightarrow>
     (let base = path_Base (ofPath e); dir = path_Dir (ofPath e) in
      if base = whiteoutOpaque then under (cleanPath dir) k
      else if strings_HasPrefix base whiteoutPrefix
        then (let t = cleanPath (path_Join dir (strings_TrimPrefix base whiteoutPrefix)) in k = t \<or> under t k)
      else False)"

definition provides :: "ociFile \<Rightarrow> string \<Rightarrow> bool" where
  "provides e k \<longleftrightarrow> \<not> is_marker e \<and> k \<noteq> [] \<and> cleanPath (ofPath e) = k"

definition layer_file :: "layer \<Rightarrow> string \<Rightarrow> ociFile option" where
  "layer_file ly k = (case filter (\<lambda>e. provides e k) (rev (lyFiles ly)) of [] \<Rightarrow> None
     | e # _ \<Rightarrow> Some (e\<lparr> ofPath := k \<rparr>))"

fun overlay :: "layer list \<Rightarrow> string \<Rightarrow> ociFile option" where
  "overlay [] k = None"
| "overlay (ly # lower) k =
     (case layer_file ly k of Some f \<Rightarrow> Some f
      | None \<Rightarrow> if list_ex (\<lambda>e. whites e k) (lyFiles ly) then None else overlay lower k)"

lemma map_of_filter_key: "map_of (filter (\<lambda>(k, v). P k) m) k = (if P k then map_of m k else None)"
  by (induction m) auto

lemma map_of_removePrefix: "map_of (removePrefix d t) k = (if under (cleanPath d) k then None else map_of t k)"
  unfolding removePrefix_def Let_def map_of_filter_key by (simp add: under_def)

lemma map_of_whiteouts:
  "map_of (flatten_whiteouts t es) k = (if list_ex (\<lambda>e. whites e k) es then None else map_of t k)"
  by (induction t es rule: flatten_whiteouts.induct)
     (simp_all add: whites_def Let_def map_of_removePrefix tree_remove_def map_of_filter_key)

lemma map_of_files:
  "map_of (flatten_files t es) k
     = (case filter (\<lambda>e. provides e k) (rev es) of [] \<Rightarrow> map_of t k | e # _ \<Rightarrow> Some (e\<lparr> ofPath := k \<rparr>))"
proof (induction t es rule: flatten_files.induct)
  case (2 t e es)
  show ?case
  proof (cases "is_marker e \<or> cleanPath (ofPath e) = []")
    case True
    then have "\<not> provides e k" by (auto simp: provides_def)
    then show ?thesis using True 2 by (cases "is_marker e") (simp_all add: Let_def)
  next
    case False
    then have step: "flatten_files t (e # es) = flatten_files (kv_put (cleanPath (ofPath e)) (e\<lparr> ofPath := cleanPath (ofPath e) \<rparr>) t) es"
      by (simp add: Let_def)
    have pr: "provides e k \<longleftrightarrow> k = cleanPath (ofPath e)" using False by (auto simp: provides_def)
    show ?thesis
      unfolding step using 2(3) False pr
      by (cases "filter (\<lambda>e. provides e k) (rev es)") (auto simp: Let_def)
  qed
qed simp

lemma map_of_layers: "map_of (flatten_layers t lys) k
     = (let top = rev lys in if (\<exists>ly \<in> set lys. layer_file ly k \<noteq> None \<or> list_ex (\<lambda>e. whites e k) (lyFiles ly))
        then overlay (rev lys) k else map_of t k)"
proof (induction lys rule: rev_induct)
  case (snoc ly lys)
  have app: "flatten_layers t (xs @ [y]) = flatten_files (flatten_whiteouts (flatten_layers t xs) (lyFiles y)) (lyFiles y)" for xs y
    by (induction t xs rule: flatten_layers.induct) auto
  have none: "overlay xs k = None" if "\<forall>ly \<in> set xs. layer_file ly k = None \<and> \<not> list_ex (\<lambda>e. whites e k) (lyFiles ly)" for xs
    using that by (induction xs) auto
  show ?case
    using snoc.IH
    by (auto simp: app map_of_files map_of_whiteouts layer_file_def Let_def none split: list.splits)
qed simp

text \<open>
  C34: Flattening: the tree holds at every path exactly what the overlay of the layers
  holds there, and only paths inside the root: no component is empty, a dot or a double dot, however
  the archive names its entries.
\<close>

theorem Flatten_effective:
  "map_of (Flatten img) k = overlay (rev (imLayers img)) k
   \<and> tree_Get (Flatten img) p = overlay (rev (imLayers img)) (cleanPath p)
   \<and> fst ` set (Flatten img) \<subseteq> {k. inside k}"
proof -
  have none: "overlay xs k = None" if "\<forall>ly \<in> set xs. layer_file ly k = None \<and> \<not> list_ex (\<lambda>e. whites e k) (lyFiles ly)" for xs k
    using that by (induction xs) auto
  have eq: "map_of (Flatten img) k = overlay (rev (imLayers img)) k" for k
    unfolding Flatten_def map_of_layers Let_def using none [of "rev (imLayers img)" k] by auto
  have rp: "set (removePrefix d t) \<subseteq> set t" for d and t :: fileTree
    by (auto simp: removePrefix_def Let_def)
  have tr: "set (tree_remove d t) \<subseteq> set t" for d and t :: fileTree
    using rp [of "cleanPath d" "filter (\<lambda>(k, f). k \<noteq> cleanPath d) t"] by (auto simp: tree_remove_def Let_def)
  have wh: "set (flatten_whiteouts t es) \<subseteq> set t" for t es
  proof (induction es arbitrary: t)
    case (Cons e es)
    show ?case
      using subset_trans [OF Cons.IH rp] subset_trans [OF Cons.IH tr] Cons.IH by (simp add: Let_def)
  qed simp
  have fl: "fst ` set (flatten_files t es) \<subseteq> fst ` set t \<union> {k. inside k}" for t es
  proof (induction t es rule: flatten_files.induct)
    case (2 t e es)
    show ?case
    proof (cases "is_marker e \<or> cleanPath (ofPath e) = []")
      case True
      then show ?thesis using 2 by (cases "is_marker e") (simp_all add: Let_def)
    next
      case False
      then have "fst ` set (flatten_files t (e # es)) \<subseteq> insert (cleanPath (ofPath e)) (fst ` set t) \<union> {k. inside k}"
        using 2(3) by (simp add: Let_def)
      moreover have "inside (cleanPath (ofPath e))" using False cleanPath_inside by blast
      then have "insert (cleanPath (ofPath e)) (fst ` set t) \<union> {k. inside k} \<subseteq> fst ` set t \<union> {k. inside k}" by auto
      ultimately show ?thesis by (rule subset_trans)
    qed
  qed simp
  have "fst ` set (flatten_layers t lys) \<subseteq> fst ` set t \<union> {k. inside k}" for t lys
  proof (induction t lys rule: flatten_layers.induct)
    case (2 t ly lys)
    have "fst ` set (flatten_files (flatten_whiteouts t (lyFiles ly)) (lyFiles ly)) \<subseteq> fst ` set t \<union> {k. inside k}"
      using fl [of "flatten_whiteouts t (lyFiles ly)" "lyFiles ly"] image_mono [OF wh [of t "lyFiles ly"], of fst] by blast
    with 2 show ?case unfolding flatten_layers.simps by blast
  qed simp
  then have "fst ` set (Flatten img) \<subseteq> {k. inside k}"
    unfolding Flatten_def by fastforce
  with eq show ?thesis by (simp add: tree_Get_def)
qed

text \<open>
  What the layer reader drops: entries that are not regular files. A layer that replaces a
  file by a symbolic link removes the file from the image, but the flattened tree still has the
  lower layer's contents.
\<close>

definition linkLib :: ociLib where
  "linkLib = \<lparr> olGunzip = (\<lambda>d. None), olRest = (\<lambda>d. d),
     olTar = (\<lambda>d. if d = ''low'' then [TarEntry ''etc/key'' CHR ''0'' 420 6 (Some ''secret'')]
                  else [TarEntry ''etc/key'' CHR ''2'' 511 0 (Some [])]),
     olManifests = (\<lambda>d. None), olIndex = (\<lambda>d. None), olManifest = (\<lambda>d. None) \<rparr>"

lemma symlink_leaves_stale:
  "\<exists>l0 l1. layerFromTar linkLib 0 [] ''low'' = Inr l0 \<and> layerFromTar linkLib 1 [] ''up'' = Inr l1
     \<and> map_option ofData (tree_Get (Flatten \<lparr> imRepoTags = [], imConfigDigest = [], imConfig = [], imLayers = [l0, l1] \<rparr>) ''/etc/key'')
         = Some ''secret''"
proof -
  have p: "cleanPath ''etc/key'' = ''etc/key''" "path_Base ''etc/key'' = ''key''" by code_simp+
  have m: "strings_HasPrefix ''key'' whiteoutPrefix = False" "''key'' \<noteq> whiteoutOpaque" "isRegular CHR ''0''"
    "\<not> isRegular CHR ''2''" by code_simp+
  have c: "readCapped ''secret'' = ''secret''" by (simp add: readCapped_def ociMaxFileBytes_def)
  let ?f = "\<lparr> ofPath = ''etc/key'', ofMode = 420, ofSize = 6, ofData = ''secret'' \<rparr>"
  have "layerFromTar linkLib 0 [] ''low'' = Inr \<lparr> lyIndex = 0, lyDigest = [], lyFiles = [?f], lyWhiteouts = [] \<rparr>"
    "layerFromTar linkLib 1 [] ''up'' = Inr \<lparr> lyIndex = 1, lyDigest = [], lyFiles = [], lyWhiteouts = [] \<rparr>"
    by (simp_all add: layerFromTar_def linkLib_def maybeGunzip_def p m c)
  moreover have "map_option ofData (tree_Get (Flatten \<lparr> imRepoTags = [], imConfigDigest = [], imConfig = [],
      imLayers = [\<lparr> lyIndex = 0, lyDigest = [], lyFiles = [?f], lyWhiteouts = [] \<rparr>,
        \<lparr> lyIndex = 1, lyDigest = [], lyFiles = [], lyWhiteouts = [] \<rparr>] \<rparr>) ''/etc/key'') = Some ''secret''"
    by code_simp
  ultimately show ?thesis by blast
qed

text \<open>Every layer of a loaded image has the reference and the position the manifest gives it.\<close>

lemma load_layers_shape:
  "load_layers lib st dg i refs = Inr lys \<Longrightarrow> length lys = length refs
     \<and> map lyIndex lys = [i..<i + length refs] \<and> map lyDigest lys = map dg refs"
proof (induction lib st dg i refs arbitrary: lys rule: load_layers.induct)
  case (2 lib st dg i ref refs)
  have shape: "lyIndex ly' = lyIndex ly \<and> lyDigest ly' = lyDigest ly" if "layer_loop ly its = Inr ly'" for ly its ly'
    using that by (induction ly its rule: layer_loop.induct) (auto simp: Let_def split: if_splits option.splits)
  obtain data ly rest where "layerFromTar lib i (dg ref) data = Inr ly" "load_layers lib st dg (Suc i) refs = Inr rest"
    "lys = ly # rest" "blob_get st ref = Inr data"
    using "2.prems" by (auto split: sum.splits)
  then show ?case
    using "2.IH" shape [of "\<lparr> lyIndex = i, lyDigest = dg ref, lyFiles = [], lyWhiteouts = [] \<rparr>" _ ly]
    by (auto simp: layerFromTar_def upt_conv_Cons simp del: upt_Suc)
qed simp

text \<open>
  Resolving an index: the manifest found has layers and is the decoding of a blob of
  the store; the recursion ends, however the indexes refer to each other.
\<close>

lemma resolveManifest_found:
  "resolveManifest lib st depth descs = Inr m \<Longrightarrow>
   omLayers m \<noteq> [] \<and> (\<exists>ref data. blob_get st ref = Inr data \<and> olManifest lib data = Some m)"
proof (induction lib st depth descs rule: resolveManifest.induct)
  case (1 lib st depth descs)
  show ?case
  proof (cases descs)
    case Nil
    then show ?thesis using "1.prems" by (simp add: resolveManifest.simps split: if_splits)
  next
    case (Cons d ds)
    have dp: "\<not> depth > 8" using "1.prems" by (subst (asm) resolveManifest.simps) (simp split: if_splits)
    show ?thesis
    proof (cases "blob_get st (odDigest d)")
      case (Inl e)
      then show ?thesis using 1 Cons dp by (subst (asm) (2) resolveManifest.simps) simp
    next
      case (Inr data)
      show ?thesis
      proof (cases "olManifest lib data")
        case None
        then show ?thesis using "1.IH"(2) [OF dp Cons Inr None] "1.prems" Cons Inr dp
          by (subst (asm) (2) resolveManifest.simps) simp
      next
        case (Some m')
        show ?thesis
          using "1.IH"(3,4,5) [OF dp Cons Inr Some] "1.prems" Cons Inr dp Some
          by (subst (asm) (4) resolveManifest.simps) (auto split: if_splits sum.splits)
      qed
    qed
  qed
qed

end
