(* ===== verification/RegReference.thy ===== *)
theory RegReference
  imports GoEncoding GoData
begin

text \<open>
  Image references, content digests and manifests: \<^verbatim>\<open>reference.go\<close> and \<^verbatim>\<open>manifest.go\<close> of
  \<^verbatim>\<open>internal/registry\<close>.
\<close>

subsection \<open>References\<close>

definition DefaultRegistry :: string where "DefaultRegistry = ''registry-1.docker.io''"
definition DefaultTag :: string where "DefaultTag = ''latest''"

record reference =
  rfRegistry :: string
  rfRepository :: string
  rfTag :: string
  rfDigest :: string

datatype ref_err = EmptyReference | MalformedDigest string | NonHexDigest string | NoRepository string

definition isHexLower :: "char \<Rightarrow> bool" where
  "isHexLower c \<longleftrightarrow> (byte c \<ge> 48 \<and> byte c \<le> 57) \<or> (byte c \<ge> 97 \<and> byte c \<le> 102)"

text \<open>None is no error.\<close>

definition validateDigest :: "string \<Rightarrow> ref_err option" where
  "validateDigest d =
     (case strings_Cut d CHR '':'' of (alg, hexPart, found) \<Rightarrow>
        if \<not> found \<or> alg \<noteq> ''sha256'' \<or> length hexPart \<noteq> 64 then Some (MalformedDigest d)
        else if list_all isHexLower hexPart then None else Some (NonHexDigest d))"

definition looksLikeHost :: "string \<Rightarrow> bool" where
  "looksLikeHost s \<longleftrightarrow> list_ex (\<lambda>c. c = CHR ''.'' \<or> c = CHR '':'') s \<or> s = ''localhost''"

definition splitHost :: "string \<Rightarrow> string \<times> string" where
  "splitHost remainder =
     (case cut_byte CHR ''/'' remainder of
        None \<Rightarrow> (DefaultRegistry, remainder)
      | Some (first, rest) \<Rightarrow> if looksLikeHost first then (first, rest) else (DefaultRegistry, remainder))"

definition splitTag :: "string \<Rightarrow> string \<times> string" where
  "splitTag name =
     (case cut_last_byte CHR '':'' name of
        None \<Rightarrow> (name, [])
      | Some (before, after) \<Rightarrow> if CHR ''/'' \<notin> set after then (before, after) else (name, []))"

definition ParseReference :: "string \<Rightarrow> ref_err + reference" where
  "ParseReference ref =
     (if strings_TrimSpace ref = [] then Inl EmptyReference
      else
        (let (remainder, digest, pinned) = (case cut_byte CHR ''@'' ref of None \<Rightarrow> (ref, [], False) | Some (a, b) \<Rightarrow> (a, b, True))
         in case (if pinned then validateDigest digest else None) of Some e \<Rightarrow> Inl e
          | None \<Rightarrow>
              (let (registry, name) = splitHost remainder; (repo, tag) = splitTag name in
               if repo = [] then Inl (NoRepository ref)
               else
                 (let repo' = (if registry = DefaultRegistry \<and> CHR ''/'' \<notin> set repo then ''library/'' @ repo else repo);
                      tag' = (if digest = [] \<and> tag = [] then DefaultTag else tag)
                  in Inr \<lparr> rfRegistry = registry, rfRepository = repo', rfTag = tag', rfDigest = digest \<rparr>))))"

definition RefForPull :: "reference \<Rightarrow> string" where
  "RefForPull r = (if rfDigest r \<noteq> [] then rfDigest r else rfTag r)"

definition reference_String :: "reference \<Rightarrow> string" where
  "reference_String r =
     rfRegistry r @ ''/'' @ rfRepository r
     @ (if rfTag r \<noteq> [] then '':'' @ rfTag r else [])
     @ (if rfDigest r \<noteq> [] then ''@'' @ rfDigest r else [])"

subsection \<open>Manifests\<close>

definition MediaTypeDockerManifest :: string where "MediaTypeDockerManifest = ''application/vnd.docker.distribution.manifest.v2+json''"
definition MediaTypeDockerManifestList :: string where "MediaTypeDockerManifestList = ''application/vnd.docker.distribution.manifest.list.v2+json''"
definition MediaTypeOCIManifest :: string where "MediaTypeOCIManifest = ''application/vnd.oci.image.manifest.v1+json''"
definition MediaTypeOCIIndex :: string where "MediaTypeOCIIndex = ''application/vnd.oci.image.index.v1+json''"
definition MediaTypeEmptyJSON :: string where "MediaTypeEmptyJSON = ''application/vnd.oci.empty.v1+json''"

definition manifestMediaTypes :: string where
  "manifestMediaTypes = MediaTypeOCIIndex @ '', '' @ MediaTypeOCIManifest @ '', '' @ MediaTypeDockerManifestList @ '', ''
     @ MediaTypeDockerManifest"

record descriptor =
  dsMediaType :: string
  dsDigest :: string
  dsSize :: int
  dsArtifactType :: string
  dsAnnotations :: "(string \<times> string) list"

record manifest =
  mnSchemaVersion :: int
  mnMediaType :: string
  mnArtifactType :: string
  mnConfig :: descriptor
  mnLayers :: "descriptor list"
  mnSubject :: "descriptor option"
  mnAnnotations :: "(string \<times> string) list"

record index =
  ixSchemaVersion :: int
  ixMediaType :: string
  ixManifests :: "descriptor list"
  ixAnnotations :: "(string \<times> string) list"

definition Digest :: "bytes \<Rightarrow> string" where
  "Digest content = ''sha256:'' @ hex_encode (sha256 content)"

text \<open>True when the content hashes to the digest, false for the mismatch error.\<close>

definition VerifyDigest :: "bytes \<Rightarrow> string \<Rightarrow> bool" where
  "VerifyDigest content want \<longleftrightarrow> Digest content = want"

definition IsIndex :: "string \<Rightarrow> bool" where
  "IsIndex mt \<longleftrightarrow> mt = MediaTypeOCIIndex \<or> mt = MediaTypeDockerManifestList"

record rawManifest =
  rmBytes :: bytes
  rmMediaType :: string
  rmDigest :: string

subsection \<open>Digests of content are well formed\<close>

lemma hex_encode_hexLower: "list_all isHexLower (hex_encode b)"
proof (induction b)
  case (Cons c b)
  have "isHexLower (hexChar n)" if "n < 16" for n
    using that by (auto simp: isHexLower_def hexChar_def)
  moreover have "byte c div 16 < 16" using byte_less [of c] by linarith
  ultimately show ?case using Cons by simp
qed simp

lemma hex_encode_length: "length (hex_encode b) = 2 * length b"
  by (induction b) auto

lemma validateDigest_Digest [simp]: "validateDigest (Digest content) = None"
proof -
  have "CHR '':'' \<notin> set ''sha256''" by simp
  from cut_byte_append [OF this, of "hex_encode (sha256 content)"]
  have "cut_byte CHR '':'' (Digest content) = Some (''sha256'', hex_encode (sha256 content))"
    by (simp add: Digest_def)
  then show ?thesis
    by (simp add: validateDigest_def strings_Cut_def hex_encode_hexLower hex_encode_length sha256_length)
qed

lemma validateDigest_shape:
  "validateDigest d = None \<Longrightarrow> \<exists>h. d = ''sha256:'' @ h \<and> length h = 64 \<and> list_all isHexLower h"
  by (auto simp: validateDigest_def strings_Cut_def split: option.splits if_splits dest!: cut_byte_Some)

subsection \<open>Canonical references\<close>

definition canonical :: "reference \<Rightarrow> bool" where
  "canonical r \<longleftrightarrow> looksLikeHost (rfRegistry r) \<and> CHR ''/'' \<notin> set (rfRegistry r) \<and> CHR ''@'' \<notin> set (rfRegistry r)
     \<and> rfRepository r \<noteq> [] \<and> CHR ''@'' \<notin> set (rfRepository r)
     \<and> (rfRegistry r = DefaultRegistry \<longrightarrow> CHR ''/'' \<in> set (rfRepository r))
     \<and> {CHR ''/'', CHR '':'', CHR ''@''} \<inter> set (rfTag r) = {}
     \<and> (rfDigest r = [] \<and> rfTag r \<noteq> [] \<or> rfDigest r \<noteq> [] \<and> validateDigest (rfDigest r) = None)"

lemma dropWhile_keeps: "x \<in> set s \<Longrightarrow> \<not> P x \<Longrightarrow> x \<in> set (dropWhile P s)"
  by (induction s) auto

lemma TrimSpace_ne: "x \<in> set s \<Longrightarrow> \<not> isSpaceByte x \<Longrightarrow> strings_TrimSpace s \<noteq> []"
proof
  assume x: "x \<in> set s" "\<not> isSpaceByte x" and "strings_TrimSpace s = []"
  then have "dropWhile isSpaceByte (rev (dropWhile isSpaceByte s)) = []"
    by (simp add: strings_TrimSpace_def trim_both_def trim_left_def trim_right_def)
  moreover have "x \<in> set (dropWhile isSpaceByte (rev (dropWhile isSpaceByte s)))"
    using x by (intro dropWhile_keeps) (simp_all add: dropWhile_keeps)
  ultimately show False by (metis empty_iff list.set(1))
qed

lemma default_host: "looksLikeHost DefaultRegistry" "CHR ''/'' \<notin> set DefaultRegistry" "CHR ''@'' \<notin> set DefaultRegistry"
  by (simp_all add: looksLikeHost_def DefaultRegistry_def)

lemma cut_avoids: "cut_byte c s = Some (a, b) \<Longrightarrow> x \<notin> set s \<Longrightarrow> x \<notin> set a \<and> x \<notin> set b"
  by (auto dest!: cut_byte_Some)

lemma cut_prefix: "cut_byte c s = Some (a, b) \<Longrightarrow> c \<notin> set a"
  by (auto dest!: cut_byte_Some)

lemma cut_last_avoids: "cut_last_byte c s = Some (a, b) \<Longrightarrow> x \<notin> set s \<Longrightarrow> x \<notin> set a \<and> x \<notin> set b"
  by (auto dest!: cut_last_byte_Some)

lemma cut_last_suffix: "cut_last_byte c s = Some (a, b) \<Longrightarrow> c \<notin> set b"
  by (auto dest!: cut_last_byte_Some)

lemma splitHost_spec:
  "splitHost rm = (reg, name) \<Longrightarrow> CHR ''@'' \<notin> set rm \<Longrightarrow>
   looksLikeHost reg \<and> CHR ''/'' \<notin> set reg \<and> CHR ''@'' \<notin> set reg \<and> CHR ''@'' \<notin> set name"
  using default_host by (auto simp: splitHost_def split: option.splits if_splits dest: cut_avoids cut_prefix)

lemma splitTag_spec:
  "splitTag name = (repo, tag) \<Longrightarrow> CHR ''@'' \<notin> set name \<Longrightarrow>
   CHR ''@'' \<notin> set repo \<and> {CHR ''/'', CHR '':'', CHR ''@''} \<inter> set tag = {}"
  by (auto simp: splitTag_def split: option.splits if_splits dest: cut_last_avoids cut_last_suffix)

text \<open>Every parsed reference is canonical.\<close>

lemma ParseReference_canonical: "ParseReference ref = Inr r \<Longrightarrow> canonical r"
proof -
  assume h: "ParseReference ref = Inr r"
  obtain rm digest pinned where cut:
    "(case cut_byte CHR ''@'' ref of None \<Rightarrow> (ref, [], False) | Some (a, b) \<Rightarrow> (a, b, True)) = (rm, digest, pinned)"
    by (cases "case cut_byte CHR ''@'' ref of None \<Rightarrow> (ref, [] :: string, False) | Some (a, b) \<Rightarrow> (a, b, True)") auto
  obtain reg name where host: "splitHost rm = (reg, name)" by fastforce
  obtain repo tag where st: "splitTag name = (repo, tag)" by fastforce
  have at: "CHR ''@'' \<notin> set rm" and np: "\<not> pinned \<longrightarrow> digest = []"
    using cut by (auto simp: cut_byte_None split: option.splits dest: cut_avoids cut_prefix)
  have vd: "pinned \<longrightarrow> validateDigest digest = None" and ne: "repo \<noteq> []"
    and r: "r = \<lparr> rfRegistry = reg, rfRepository = (if reg = DefaultRegistry \<and> CHR ''/'' \<notin> set repo then ''library/'' @ repo else repo),
      rfTag = (if digest = [] \<and> tag = [] then DefaultTag else tag), rfDigest = digest \<rparr>"
    using h unfolding ParseReference_def cut Let_def by (auto simp: host st split: if_splits option.splits)
  have "pinned \<longrightarrow> digest \<noteq> []"
    using vd validateDigest_shape [of digest] by auto
  then show ?thesis
    using splitHost_spec [OF host at] splitTag_spec [OF st] ne vd np
    unfolding r canonical_def by (auto simp: DefaultTag_def)
qed

lemma parse_String:
  assumes c: "canonical r" and colon: "CHR '':'' \<notin> set (rfRepository r)"
  shows "ParseReference (reference_String r) = Inr r"
proof -
  define rest where "rest = rfRepository r @ (if rfTag r \<noteq> [] then '':'' @ rfTag r else [])"
  have str: "reference_String r = rfRegistry r @ CHR ''/'' # rest @ (if rfDigest r \<noteq> [] then ''@'' @ rfDigest r else [])"
    by (simp add: reference_String_def rest_def)
  have ts: "strings_TrimSpace (reference_String r) \<noteq> []"
    by (rule TrimSpace_ne [of "CHR ''/''"]) (simp_all add: str isSpaceByte_def)
  have at: "CHR ''@'' \<notin> set (rfRegistry r @ CHR ''/'' # rest)"
    using c by (auto simp: canonical_def rest_def)
  have host: "splitHost (rfRegistry r @ CHR ''/'' # rest) = (rfRegistry r, rest)"
    using c cut_byte_append [of "CHR ''/''" "rfRegistry r" rest] by (simp add: splitHost_def canonical_def)
  have tag: "splitTag rest = (rfRepository r, rfTag r)"
    using c colon cut_last_byte_append [of "CHR '':''" "rfTag r" "rfRepository r"] cut_last_byte_None [of "CHR '':''" "rfRepository r"]
    by (auto simp: splitTag_def canonical_def rest_def)
  show ?thesis
  proof (cases "rfDigest r = []")
    case True
    then have "cut_byte CHR ''@'' (reference_String r) = None" and s: "reference_String r = rfRegistry r @ CHR ''/'' # rest"
      using at by (simp_all add: str cut_byte_None)
    then show ?thesis
      using c ts True unfolding ParseReference_def by (simp add: host tag canonical_def)
  next
    case False
    then have "cut_byte CHR ''@'' (reference_String r) = Some (rfRegistry r @ CHR ''/'' # rest, rfDigest r)"
      using cut_byte_append [OF at, of "rfDigest r"] by (simp add: str)
    then show ?thesis
      using c ts False unfolding ParseReference_def by (simp add: host tag canonical_def)
  qed
qed



end
