(* ===== verification/RegServer.thy ===== *)
theory RegServer
  imports RegReference
begin

text \<open>
  The in-memory registry of \<^verbatim>\<open>internal/registry/memory.go\<close>: an HTTP handler as a function from a
  state and a request to a state and a response. The request carries what the handler reads
  of it, with the path and query decoded as \<^verbatim>\<open>net/url\<close> does. The JSON codec is a parameter.
\<close>

subsection \<open>HTTP\<close>

record request =
  rqMethod :: string
  rqPath :: string
  rqQuery :: "(string \<times> string) list"
  rqAuth :: string
  rqContentType :: string
  rqBody :: bytes

record response =
  rsStatus :: int
  rsHeaders :: "(string \<times> string) list"
  rsBody :: bytes

record codec =
  cdManifest :: "manifest \<Rightarrow> bytes"
  cdUnManifest :: "bytes \<Rightarrow> manifest option"
  cdIndex :: "index \<Rightarrow> bytes"
  cdUnIndex :: "bytes \<Rightarrow> index option"
  cdTags :: "string \<Rightarrow> string list \<Rightarrow> bytes"
  cdUnTags :: "bytes \<Rightarrow> string list option"

definition http_Error :: "string \<Rightarrow> int \<Rightarrow> response" where
  "http_Error msg code = \<lparr> rsStatus = code, rsHeaders = [(''Content-Type'', ''text/plain; charset=utf-8''), (''X-Content-Type-Options'', ''nosniff'')],
     rsBody = msg @ [CHR 0x0A] \<rparr>"

definition http_NotFound :: response where
  "http_NotFound = http_Error ''404 page not found'' 404"

definition maxManifestBytes :: nat where
  "maxManifestBytes = 32 * 1048576"

subsection \<open>State\<close>

record memRepo =
  mrBlobs :: "(string \<times> bytes) list"
  mrManifests :: "(string \<times> bytes \<times> string) list"
  mrTags :: "(string \<times> string) list"

record memRegistry =
  mgRepos :: "(string \<times> memRepo) list"
  mgRequireAuth :: bool

definition NewMemoryRegistry :: memRegistry where
  "NewMemoryRegistry = \<lparr> mgRepos = [], mgRequireAuth = False \<rparr>"

definition SetRequireAuth :: "memRegistry \<Rightarrow> bool \<Rightarrow> memRegistry" where
  "SetRequireAuth m v = m\<lparr> mgRequireAuth := v \<rparr>"

definition get_repo :: "memRegistry \<Rightarrow> string \<Rightarrow> memRepo" where
  "get_repo m name = (case map_of (mgRepos m) name of Some r \<Rightarrow> r
     | None \<Rightarrow> \<lparr> mrBlobs = [], mrManifests = [], mrTags = [] \<rparr>)"

text \<open>\<^verbatim>\<open>repo\<close> creates the repository; writing through the pointer is writing it back.\<close>

definition put_repo :: "memRegistry \<Rightarrow> string \<Rightarrow> memRepo \<Rightarrow> memRegistry" where
  "put_repo m name r = m\<lparr> mgRepos := kv_put name r (mgRepos m) \<rparr>"

definition api_markers :: "(string \<times> string) list" where
  "api_markers = [(''/manifests/'', ''manifests''), (''/blobs/uploads/'', ''blobs-uploads''),
     (''/referrers/'', ''referrers''), (''/blobs/'', ''blobs''), (''/tags/list'', ''tags'')]"

fun split_markers :: "string \<Rightarrow> (string \<times> string) list \<Rightarrow> (string \<times> string \<times> string) option" where
  "split_markers p [] = None"
| "split_markers p ((marker, kind) # mks) =
     (case strings_Index p marker of Some i \<Rightarrow> Some (take i p, kind, drop (i + length marker) p)
      | None \<Rightarrow> split_markers p mks)"

definition splitAPIPath :: "string \<Rightarrow> (string \<times> string \<times> string) option" where
  "splitAPIPath path = split_markers (strings_TrimPrefix path ''/v2/'') api_markers"

subsection \<open>Handlers\<close>

definition is_sha :: "string \<Rightarrow> bool" where
  "is_sha ref \<longleftrightarrow> strings_HasPrefix ref ''sha256:''"

definition put_manifest :: "memRepo \<Rightarrow> string \<Rightarrow> string \<Rightarrow> bytes \<Rightarrow> memRepo" where
  "put_manifest r ref mt body =
     (let d = Digest body;
          r1 = r\<lparr> mrManifests := kv_put d (body, if mt = [] then MediaTypeOCIManifest else mt) (mrManifests r) \<rparr>
      in if is_sha ref then r1 else r1\<lparr> mrTags := kv_put ref d (mrTags r1) \<rparr>)"

definition find_manifest :: "memRepo \<Rightarrow> string \<Rightarrow> (string \<times> bytes \<times> string) option" where
  "find_manifest r ref =
     (case (if is_sha ref then Some ref else map_of (mrTags r) ref) of None \<Rightarrow> None
      | Some d \<Rightarrow> (case map_of (mrManifests r) d of None \<Rightarrow> None | Some (b, mt) \<Rightarrow> Some (d, b, mt)))"

definition handleManifest :: "memRegistry \<Rightarrow> request \<Rightarrow> string \<Rightarrow> string \<Rightarrow> memRegistry \<times> response" where
  "handleManifest m q name ref =
     (let r = get_repo m name in
      if rqMethod q = ''PUT'' then
        (let body = take maxManifestBytes (rqBody q); d = Digest body
         in (put_repo m name (put_manifest r ref (rqContentType q) body),
             \<lparr> rsStatus = 201, rsHeaders = [(''Docker-Content-Digest'', d), (''Location'', ''/v2/'' @ name @ ''/manifests/'' @ d)],
               rsBody = [] \<rparr>))
      else if rqMethod q = ''GET'' \<or> rqMethod q = ''HEAD'' then
        (put_repo m name r,
         case find_manifest r ref of None \<Rightarrow> http_Error ''manifest unknown'' 404
         | Some (d, b, mt) \<Rightarrow>
             \<lparr> rsStatus = 200, rsHeaders = [(''Content-Type'', mt), (''Docker-Content-Digest'', d), (''Content-Length'', itoa_nat (length b))],
               rsBody = (if rqMethod q = ''HEAD'' then [] else b) \<rparr>)
      else (put_repo m name r, http_Error ''method not allowed'' 405))"

definition handleUpload :: "memRegistry \<Rightarrow> request \<Rightarrow> string \<Rightarrow> string \<Rightarrow> memRegistry \<times> response" where
  "handleUpload m q name arg =
     (let r = get_repo m name in
      if rqMethod q = ''POST'' then
        (put_repo m name r,
         \<lparr> rsStatus = 202, rsHeaders = [(''Location'', ''/v2/'' @ name @ ''/blobs/uploads/u'' @ itoa_nat (length (mrBlobs r) + 1)),
             (''Range'', ''0-0'')], rsBody = [] \<rparr>)
      else if rqMethod q = ''PUT'' then
        (let body = take maxManifestBytes (rqBody q);
             digest = (if kv_str (rqQuery q) ''digest'' = [] then Digest body else kv_str (rqQuery q) ''digest'')
         in if Digest body \<noteq> digest then (put_repo m name r, http_Error ''digest mismatch on upload'' 400)
            else (put_repo m name (r\<lparr> mrBlobs := kv_put digest body (mrBlobs r) \<rparr>),
              \<lparr> rsStatus = 201, rsHeaders = [(''Docker-Content-Digest'', digest), (''Location'', ''/v2/'' @ name @ ''/blobs/'' @ digest)],
                rsBody = [] \<rparr>))
      else (put_repo m name r, http_Error ''method not allowed'' 405))"

definition handleBlob :: "memRegistry \<Rightarrow> request \<Rightarrow> string \<Rightarrow> string \<Rightarrow> memRegistry \<times> response" where
  "handleBlob m q name digest =
     (let r = get_repo m name in
      (put_repo m name r,
       case map_of (mrBlobs r) digest of None \<Rightarrow> http_Error ''blob unknown'' 404
       | Some data \<Rightarrow> \<lparr> rsStatus = 200, rsHeaders = [(''Docker-Content-Digest'', digest), (''Content-Length'', itoa_nat (length data))],
           rsBody = (if rqMethod q = ''HEAD'' then [] else data) \<rparr>))"

definition sortDescriptors :: "descriptor list \<Rightarrow> descriptor list" where
  "sortDescriptors ds = sort_stable (key_less dsDigest (\<lambda>a b. False)) ds"

fun referrers_of :: "codec \<Rightarrow> string \<Rightarrow> string \<Rightarrow> (string \<times> bytes \<times> string) list \<Rightarrow> descriptor list" where
  "referrers_of cd subj flt [] = []"
| "referrers_of cd subj flt ((digest, b, mt) # ms) =
     (case cdUnManifest cd b of None \<Rightarrow> referrers_of cd subj flt ms
      | Some man \<Rightarrow>
          (case mnSubject man of None \<Rightarrow> referrers_of cd subj flt ms
           | Some sub \<Rightarrow>
               if dsDigest sub \<noteq> subj then referrers_of cd subj flt ms
               else if flt \<noteq> [] \<and> mnArtifactType man \<noteq> flt then referrers_of cd subj flt ms
               else \<lparr> dsMediaType = mt, dsDigest = digest, dsSize = int (length b), dsArtifactType = mnArtifactType man,
                      dsAnnotations = mnAnnotations man \<rparr> # referrers_of cd subj flt ms))"

definition referrersIndex :: "codec \<Rightarrow> memRepo \<Rightarrow> string \<Rightarrow> string \<Rightarrow> index" where
  "referrersIndex cd r subj flt =
     \<lparr> ixSchemaVersion = 2, ixMediaType = MediaTypeOCIIndex,
       ixManifests = sortDescriptors (referrers_of cd subj flt (mrManifests r)), ixAnnotations = [] \<rparr>"

definition handleReferrers :: "codec \<Rightarrow> memRegistry \<Rightarrow> request \<Rightarrow> string \<Rightarrow> string \<Rightarrow> memRegistry \<times> response" where
  "handleReferrers cd m q name subj =
     (let r = get_repo m name; flt = kv_str (rqQuery q) ''artifactType'' in
      (put_repo m name r,
       \<lparr> rsStatus = 200,
         rsHeaders = (''Content-Type'', MediaTypeOCIIndex) # (if flt \<noteq> [] then [(''OCI-Filters-Applied'', ''artifactType'')] else []),
         rsBody = cdIndex cd (referrersIndex cd r subj flt) \<rparr>))"

definition handleTags :: "codec \<Rightarrow> memRegistry \<Rightarrow> string \<Rightarrow> memRegistry \<times> response" where
  "handleTags cd m name =
     (let r = get_repo m name in
      (put_repo m name r,
       \<lparr> rsStatus = 200, rsHeaders = [(''Content-Type'', ''application/json'')],
         rsBody = cdTags cd name (sort_Strings (map fst (mrTags r))) \<rparr>))"

definition ServeHTTP :: "codec \<Rightarrow> memRegistry \<Rightarrow> request \<Rightarrow> memRegistry \<times> response" where
  "ServeHTTP cd m q =
     (if rqPath q = ''/v2/'' \<or> rqPath q = ''/v2'' then
        (m, \<lparr> rsStatus = 200, rsHeaders = [(''Docker-Distribution-Api-Version'', ''registry/2.0'')], rsBody = ''{}'' \<rparr>)
      else if mgRequireAuth m \<and> rqAuth q = [] then
        (m, let e = http_Error ''authentication required'' 401 in e\<lparr> rsHeaders :=
           (''WWW-Authenticate'', ''Bearer realm='' @ [CHR 0x22] @ ''http://memory/token'' @ [CHR 0x22]
              @ '',service='' @ [CHR 0x22] @ ''memory'' @ [CHR 0x22]) # rsHeaders e \<rparr>)
      else (case splitAPIPath (rqPath q) of None \<Rightarrow> (m, http_NotFound)
        | Some (name, kind, arg) \<Rightarrow>
            if name = [] then (m, http_NotFound)
            else if kind = ''manifests'' then handleManifest m q name arg
            else if kind = ''blobs-uploads'' then handleUpload m q name arg
            else if kind = ''blobs'' then handleBlob m q name arg
            else if kind = ''referrers'' then handleReferrers cd m q name arg
            else if kind = ''tags'' then handleTags cd m name
            else (m, http_NotFound)))"

subsection \<open>Content addressing\<close>

text \<open>
  What the registry promises of its state: content is filed under its own digest and within the
  size limit, a manifest has a media type, a tag points at a manifest the repository has.
\<close>

definition repo_ok :: "memRepo \<Rightarrow> bool" where
  "repo_ok r \<longleftrightarrow> (\<forall>(d, b) \<in> set (mrBlobs r). d = Digest b \<and> length b \<le> maxManifestBytes)
     \<and> (\<forall>(d, b, mt) \<in> set (mrManifests r). d = Digest b \<and> length b \<le> maxManifestBytes \<and> mt \<noteq> [])
     \<and> snd ` set (mrTags r) \<subseteq> fst ` set (mrManifests r)"

definition registry_ok :: "memRegistry \<Rightarrow> bool" where
  "registry_ok m \<longleftrightarrow> (\<forall>(n, r) \<in> set (mgRepos m). repo_ok r)"

text \<open>The interface of a server that keeps an invariant, and what a run of requests then has.\<close>

fun serve_all :: "('s \<Rightarrow> 'q \<Rightarrow> 's \<times> 'r) \<Rightarrow> 's \<Rightarrow> 'q list \<Rightarrow> 's" where
  "serve_all serve s [] = s"
| "serve_all serve s (q # qs) = serve_all serve (fst (serve s q)) qs"

locale keeps =
  fixes serve :: "'s \<Rightarrow> 'q \<Rightarrow> 's \<times> 'r" and inv :: "'s \<Rightarrow> bool"
  assumes serve_keeps: "inv s \<Longrightarrow> inv (fst (serve s q))"
begin

lemma run_keeps: "inv s \<Longrightarrow> inv (serve_all serve s qs)"
  by (induction qs arbitrary: s) (auto simp: serve_keeps)

end

lemma repo_ok_empty: "repo_ok \<lparr> mrBlobs = [], mrManifests = [], mrTags = [] \<rparr>"
  by (simp add: repo_ok_def)

lemma repo_ok_get: "registry_ok m \<Longrightarrow> repo_ok (get_repo m name)"
proof (cases "map_of (mgRepos m) name")
  case (Some r)
  assume ok: "registry_ok m"
  from Some have "(name, r) \<in> set (mgRepos m)" by (rule map_of_SomeD)
  with ok have "repo_ok r" unfolding registry_ok_def by blast
  with Some show ?thesis by (simp add: get_repo_def)
qed (simp add: get_repo_def repo_ok_empty)

lemma registry_ok_put: "registry_ok m \<Longrightarrow> repo_ok r \<Longrightarrow> registry_ok (put_repo m name r)"
  using set_kv_put [of name r "mgRepos m"] by (auto simp: registry_ok_def put_repo_def)

lemma registry_ok_get_put: "registry_ok m \<Longrightarrow> registry_ok (put_repo m name (get_repo m name))"
  by (rule registry_ok_put [OF _ repo_ok_get])

lemma snd_kv_put: "snd ` set (kv_put k v kvs) \<subseteq> insert v (snd ` set kvs)"
  using set_kv_put [of k v kvs] by auto

lemma repo_ok_put_content:
  assumes "repo_ok r" "length body \<le> maxManifestBytes" "mt \<noteq> []"
  shows "repo_ok (r\<lparr> mrManifests := kv_put (Digest body) (body, mt) (mrManifests r) \<rparr>)"
proof -
  have "set (kv_put (Digest body) (body, mt) (mrManifests r)) \<subseteq> insert (Digest body, body, mt) (set (mrManifests r))"
    by (rule set_kv_put)
  then have "\<forall>(d, b, mt) \<in> set (kv_put (Digest body) (body, mt) (mrManifests r)).
      d = Digest b \<and> length b \<le> maxManifestBytes \<and> mt \<noteq> []"
    using assms unfolding repo_ok_def by fast
  moreover have "snd ` set (mrTags r) \<subseteq> fst ` set (kv_put (Digest body) (body, mt) (mrManifests r))"
    using assms unfolding repo_ok_def fst_kv_put by blast
  ultimately show ?thesis using assms by (simp add: repo_ok_def)
qed

lemma repo_ok_put_tag:
  assumes r: "repo_ok r" and d: "d \<in> fst ` set (mrManifests r)"
  shows "repo_ok (r\<lparr> mrTags := kv_put ref d (mrTags r) \<rparr>)"
proof -
  have "snd ` set (kv_put ref d (mrTags r)) \<subseteq> fst ` set (mrManifests r)"
    using snd_kv_put [of ref d "mrTags r"] r d unfolding repo_ok_def by blast
  with r show ?thesis by (simp add: repo_ok_def)
qed

lemma repo_ok_manifest:
  assumes "repo_ok r" "length body \<le> maxManifestBytes"
  shows "repo_ok (put_manifest r ref mt body)"
proof -
  let ?r = "r\<lparr> mrManifests := kv_put (Digest body) (body, if mt = [] then MediaTypeOCIManifest else mt) (mrManifests r) \<rparr>"
  have ok: "repo_ok ?r"
    using assms by (intro repo_ok_put_content) (simp_all add: MediaTypeOCIManifest_def)
  then have "repo_ok (?r\<lparr> mrTags := kv_put ref (Digest body) (mrTags ?r) \<rparr>)"
    by (rule repo_ok_put_tag) simp
  with ok show ?thesis by (simp add: put_manifest_def Let_def)
qed

lemma repo_ok_blob: "repo_ok r \<Longrightarrow> length body \<le> maxManifestBytes \<Longrightarrow> repo_ok (r\<lparr> mrBlobs := kv_put (Digest body) body (mrBlobs r) \<rparr>)"
  using set_kv_put [of "Digest body" body "mrBlobs r"] by (auto simp: repo_ok_def)

text \<open>What a request does to the state, as a step relation, and that every handler takes such a step.\<close>

inductive registry_step :: "memRegistry \<Rightarrow> memRegistry \<Rightarrow> bool" where
  unchanged: "registry_step m m"
| touched: "registry_step m (put_repo m n (get_repo m n))"
| stored_manifest: "length body \<le> maxManifestBytes \<Longrightarrow> registry_step m (put_repo m n (put_manifest (get_repo m n) ref mt body))"
| stored_blob: "d = Digest body \<Longrightarrow> length body \<le> maxManifestBytes \<Longrightarrow>
    registry_step m (put_repo m n ((get_repo m n)\<lparr> mrBlobs := kv_put d body (mrBlobs (get_repo m n)) \<rparr>))"

lemmas registry_steps = registry_step.intros

lemma handlers_step:
  "registry_step m (fst (handleManifest m q n a))"
  "registry_step m (fst (handleUpload m q n a))"
  "registry_step m (fst (handleBlob m q n a))"
  "registry_step m (fst (handleReferrers cd m q n a))"
  "registry_step m (fst (handleTags cd m n))"
  by (auto simp: handleManifest_def handleUpload_def handleBlob_def handleReferrers_def handleTags_def Let_def intro: registry_steps)

lemma ServeHTTP_step: "registry_step m (fst (ServeHTTP cd m q))"
  by (simp add: ServeHTTP_def handlers_step unchanged split: option.split prod.split)

lemma registry_step_ok: "registry_step m m' \<Longrightarrow> registry_ok m \<Longrightarrow> registry_ok m'"
  by (induction rule: registry_step.induct)
     (simp_all add: registry_ok_put repo_ok_get repo_ok_manifest repo_ok_blob registry_ok_get_put)

lemma ServeHTTP_ok: "registry_ok m \<Longrightarrow> registry_ok (fst (ServeHTTP cd m q))"
  by (rule registry_step_ok [OF ServeHTTP_step])

interpretation mem: keeps "ServeHTTP cd" registry_ok for cd
  by unfold_locales (rule ServeHTTP_ok)

end
