(* ===== verification/GoUrl.thy ===== *)
theory GoUrl
  imports VulnPurl GoData
begin

text \<open>
  What the registry code relies on of \<^verbatim>\<open>net/url\<close>: the parts of a URL, the decoding of its path
  and query, and the characters that survive them unchanged.
\<close>

record url =
  ulScheme :: string
  ulHost :: string
  ulPath :: string
  ulRawQuery :: string

text \<open>\<^verbatim>\<open>unescape\<close>: percent escapes, and a plus sign for a space in a query component.\<close>

fun url_unescape :: "bool \<Rightarrow> string \<Rightarrow> string option" where
  "url_unescape query [] = Some []"
| "url_unescape query (c # cs) =
     (if c = CHR ''%'' then
        (case cs of h # l # rest \<Rightarrow>
           (case (hexVal h, hexVal l) of
              (Some hi, Some lo) \<Rightarrow> map_option ((#) (char_of (hi * 16 + lo))) (url_unescape query rest)
            | _ \<Rightarrow> None)
         | _ \<Rightarrow> None)
      else map_option ((#) (if query \<and> c = CHR ''+'' then CHR '' '' else c)) (url_unescape query cs))"

fun parse_pairs :: "string list \<Rightarrow> (string \<times> string) list" where
  "parse_pairs [] = []"
| "parse_pairs (p # ps) =
     (if p = [] \<or> CHR '';'' \<in> set p then parse_pairs ps
      else (case strings_Cut p (CHR ''='') of (k, v, found) \<Rightarrow>
        (case (url_unescape True k, url_unescape True v) of
           (Some k', Some v') \<Rightarrow> (k', v') # parse_pairs ps
         | _ \<Rightarrow> parse_pairs ps)))"

text \<open>\<^verbatim>\<open>Query\<close> drops malformed pairs; \<^verbatim>\<open>Get\<close> of the result is its first pair with the key.\<close>

definition url_Query :: "string \<Rightarrow> (string \<times> string) list" where
  "url_Query raw = parse_pairs (split_byte (CHR ''&'') raw)"

definition before :: "char \<Rightarrow> string \<Rightarrow> string" where
  "before c s = takeWhile (\<lambda>x. x \<noteq> c) s"

definition after :: "char \<Rightarrow> string \<Rightarrow> string" where
  "after c s = tl (dropWhile (\<lambda>x. x \<noteq> c) s)"

text \<open>An absolute URL with an authority: fragment, sch, query, host, path, in the order \<^verbatim>\<open>Parse\<close> cuts them.\<close>

definition url_parse :: "string \<Rightarrow> url option" where
  "url_parse s =
     (let u = before (CHR ''#'') s; sch = before (CHR '':'') u; rest = after (CHR '':'') u;
          raw = after (CHR ''?'') rest; auth = before (CHR ''?'') rest in
      if sch = [] \<or> \<not> strings_HasPrefix auth ''//'' then None
      else (let hp = drop 2 auth in
        map_option (\<lambda>p. \<lparr> ulScheme = sch, ulHost = before (CHR ''/'') hp, ulPath = p, ulRawQuery = raw \<rparr>)
          (url_unescape False (dropWhile (\<lambda>x. x \<noteq> CHR ''/'') hp))))"

subsection \<open>Characters that need no escape\<close>

definition url_safe :: "char \<Rightarrow> bool" where
  "url_safe c \<longleftrightarrow> c \<notin> set ''%?#&;='' \<and> c \<noteq> CHR ''+''"

lemma unescape_plain:
  "CHR ''%'' \<notin> set s \<Longrightarrow> url_unescape q s = Some (map (\<lambda>c. if q \<and> c = CHR ''+'' then CHR '' '' else c) s)"
  by (induction s) auto

lemma unescape_path: "CHR ''%'' \<notin> set s \<Longrightarrow> url_unescape False s = Some s"
  by (simp add: unescape_plain)

lemma before_append: "c \<notin> set a \<Longrightarrow> before c (a @ c # b) = a"
  unfolding before_def by (induction a) auto

lemma after_append: "c \<notin> set a \<Longrightarrow> after c (a @ c # b) = b"
  unfolding after_def by (induction a) auto

lemma before_none: "c \<notin> set a \<Longrightarrow> before c a = a"
  unfolding before_def by (induction a) auto

lemma after_none: "c \<notin> set a \<Longrightarrow> after c a = []"
  unfolding after_def by (induction a) auto

lemma url_parse_path:
  assumes "sch \<noteq> []" "set sch \<inter> {CHR ''#'', CHR '':'', CHR ''?''} = {}"
    and host: "set host \<inter> {CHR ''#'', CHR ''?'', CHR ''/''} = {}"
    and path: "set path \<inter> {CHR ''#'', CHR ''?'', CHR ''%''} = {}"
  shows "url_parse (sch @ ''://'' @ host @ ''/'' @ path)
      = Some \<lparr> ulScheme = sch, ulHost = host, ulPath = CHR ''/'' # path, ulRawQuery = [] \<rparr>"
    and "CHR ''#'' \<notin> set q \<Longrightarrow> url_parse (sch @ ''://'' @ host @ ''/'' @ path @ ''?'' @ q)
      = Some \<lparr> ulScheme = sch, ulHost = host, ulPath = CHR ''/'' # path, ulRawQuery = q \<rparr>"
proof -
  let ?hp = "host @ ''/'' @ path"
  have hp: "before (CHR ''/'') ?hp = host" "dropWhile (\<lambda>x. x \<noteq> CHR ''/'') ?hp = CHR ''/'' # path"
    using host before_append [of "CHR ''/''" host path] by (auto simp: dropWhile_append)
  have un: "url_unescape False path = Some path"
    by (rule unescape_path) (use path in auto)
  have u1: "before (CHR ''#'') (sch @ ''://'' @ ?hp) = sch @ CHR '':'' # ''//'' @ ?hp"
    using assms by (subst before_none) auto
  have s1: "before (CHR '':'') (sch @ CHR '':'' # r) = sch" "after (CHR '':'') (sch @ CHR '':'' # r) = r" for r
    using assms by (auto intro: before_append after_append)
  have q1: "before (CHR ''?'') (''//'' @ ?hp) = ''//'' @ ?hp" "after (CHR ''?'') (''//'' @ ?hp) = []"
    using assms by (auto intro!: before_none after_none)
  show "url_parse (sch @ ''://'' @ ?hp) = Some \<lparr> ulScheme = sch, ulHost = host, ulPath = CHR ''/'' # path, ulRawQuery = [] \<rparr>"
    using assms(1) unfolding url_parse_def Let_def u1 s1 q1 by (simp add: strings_HasPrefix_def hp [simplified] un)
  assume q: "CHR ''#'' \<notin> set q"
  have u2: "before (CHR ''#'') (sch @ ''://'' @ host @ ''/'' @ path @ ''?'' @ q) = sch @ CHR '':'' # (''//'' @ ?hp) @ CHR ''?'' # q"
    using assms q by (subst before_none) auto
  have nq: "CHR ''?'' \<notin> set (''//'' @ ?hp)" using assms by auto
  note q2 = before_append [OF nq, of q] after_append [OF nq, of q]
  show "url_parse (sch @ ''://'' @ host @ ''/'' @ path @ ''?'' @ q)
      = Some \<lparr> ulScheme = sch, ulHost = host, ulPath = CHR ''/'' # path, ulRawQuery = q \<rparr>"
    using assms(1) unfolding url_parse_def Let_def u2 s1 q2 by (simp add: strings_HasPrefix_def hp [simplified] un)
qed

lemma query_single:
  assumes "set k \<inter> {CHR ''%'', CHR '';'', CHR ''&'', CHR ''='', CHR ''+''} = {}"
    and "set v \<inter> {CHR ''%'', CHR '';'', CHR ''&''} = {}"
  shows "url_Query (k @ CHR ''='' # v) = [(k, map (\<lambda>c. if c = CHR ''+'' then CHR '' '' else c) v)]"
proof -
  have "CHR ''&'' \<notin> set (k @ CHR ''='' # v)" using assms by auto
  then have sp: "split_byte (CHR ''&'') (k @ CHR ''='' # v) = [k @ CHR ''='' # v]" by (rule split_byte_none)
  have semi: "CHR '';'' \<notin> set (k @ CHR ''='' # v)" using assms by auto
  have cut: "cut_byte (CHR ''='') (k @ CHR ''='' # v) = Some (k, v)"
    using assms by (intro cut_byte_append) auto
  have k: "map (\<lambda>c. if c = CHR ''+'' then CHR '' '' else c) k = k"
    using assms by (intro map_idI) auto
  have "CHR ''%'' \<notin> set k" "CHR ''%'' \<notin> set v" using assms by auto
  then show ?thesis
    using semi by (simp add: url_Query_def sp strings_Cut_def cut unescape_plain k)
qed

end
