(* ===== verification/RegClient.thy ===== *)
theory RegClient
  imports RegServer GoUrl
begin

text \<open>
  The registry client: \<^verbatim>\<open>internal/registry/client.go\<close>, \<^verbatim>\<open>auth.go\<close>, \<^verbatim>\<open>referrers.go\<close> and \<^verbatim>\<open>layout.go\<close>.
  The HTTP transport is a parameter, a function from the state of the outside and a request to a
  new state and a response, or to none when the request fails.
\<close>

subsection \<open>Transport\<close>

record httpRequest =
  hqMethod :: string
  hqURL :: string
  hqUserAgent :: string
  hqAccept :: string
  hqAuth :: string
  hqContentType :: string
  hqBody :: bytes

text \<open>
  The outside: sending a request, whether a request for the URL can be built at all, the token URL with
  the query values set, and the decoder of the token response (its two token fields).
\<close>

record 's net =
  ntSend :: "'s \<Rightarrow> httpRequest \<Rightarrow> 's \<times> response option"
  ntUrlOk :: "string \<Rightarrow> bool"
  ntTokenURL :: "string \<Rightarrow> (string \<times> string) list \<Rightarrow> string option"
  ntToken :: "bytes \<Rightarrow> (string \<times> string) option"

record client =
  clPlainHTTP :: bool
  clUserAgent :: string
  clBasicUser :: string
  clBasicPass :: string

datatype tokenErr = NotBearer | NoRealm | BadRealm | TokenBuild | TokenSend | TokenStatus int | TokenDecode | NoToken

datatype clientErr = ErrBuild | ErrSend | ErrAuth tokenErr | ErrStatus string int string | ErrUpload int
  | ErrDigestMismatch | ErrDecode | ErrRef ref_err

definition WithPlainHTTP :: "client \<Rightarrow> client" where
  "WithPlainHTTP c = c\<lparr> clPlainHTTP := True \<rparr>"

definition WithBasicAuth :: "string \<Rightarrow> string \<Rightarrow> client \<Rightarrow> client" where
  "WithBasicAuth user pass c = c\<lparr> clBasicUser := user, clBasicPass := pass \<rparr>"

definition New :: "(client \<Rightarrow> client) list \<Rightarrow> client" where
  "New opts = foldl (\<lambda>c f. f c) \<lparr> clPlainHTTP = False,
     clUserAgent = ''github.com/Ratnadeepdeyroy/docker-security/dsecrat'', clBasicUser = [], clBasicPass = [] \<rparr> opts"

definition client_scheme :: "client \<Rightarrow> string" where
  "client_scheme c = (if clPlainHTTP c then ''http'' else ''https'')"

definition baseURL :: "client \<Rightarrow> string \<Rightarrow> string" where
  "baseURL c registry = client_scheme c @ ''://'' @ registry @ ''/v2''"

definition basic_header :: "client \<Rightarrow> string" where
  "basic_header c = (if clBasicUser c = [] then []
     else ''Basic '' @ b64_encode (clBasicUser c @ '':'' @ clBasicPass c))"

definition newRequest :: "client \<Rightarrow> string \<Rightarrow> string \<Rightarrow> string \<Rightarrow> bytes \<Rightarrow> string \<Rightarrow> httpRequest" where
  "newRequest c meth url accept body bearer =
     \<lparr> hqMethod = meth, hqURL = url, hqUserAgent = clUserAgent c, hqAccept = accept,
       hqAuth = (if bearer \<noteq> [] then ''Bearer '' @ bearer else basic_header c), hqContentType = [], hqBody = body \<rparr>"

subsection \<open>Bearer tokens\<close>

fun split_commas :: "bool \<Rightarrow> string \<Rightarrow> string \<Rightarrow> string list" where
  "split_commas inq cur [] = (if cur = [] then [] else [cur])"
| "split_commas inq cur (r # rs) =
     (if r = CHR 0x22 then split_commas (\<not> inq) (cur @ [r]) rs
      else if r = CHR '','' \<and> \<not> inq then cur # split_commas inq [] rs
      else split_commas inq (cur @ [r]) rs)"

definition splitTopLevelCommas :: "string \<Rightarrow> string list" where
  "splitTopLevelCommas s = split_commas False [] s"

fun bearer_params :: "(string \<times> string) list \<Rightarrow> string list \<Rightarrow> (string \<times> string) list" where
  "bearer_params out [] = out"
| "bearer_params out (p # ps) =
     (case cut_byte (CHR ''='') p of None \<Rightarrow> bearer_params out ps
      | Some (k, v) \<Rightarrow> bearer_params (kv_put (strings_TrimSpace k) (trim_both (\<lambda>x. x = CHR 0x22) (strings_TrimSpace v)) out) ps)"

definition parseBearerChallenge :: "string \<Rightarrow> tokenErr + (string \<times> string) list" where
  "parseBearerChallenge header =
     (let h = strings_TrimSpace header in
      if \<not> strings_HasPrefix (strings_ToLower h) ''bearer '' then Inl NotBearer
      else Inr (bearer_params [] (splitTopLevelCommas (strings_TrimSpace (drop 7 h)))))"

definition token_query :: "(string \<times> string) list \<Rightarrow> (string \<times> string) list" where
  "token_query ps = (if kv_str ps ''service'' \<noteq> [] then [(''service'', kv_str ps ''service'')] else [])
     @ (if kv_str ps ''scope'' \<noteq> [] then [(''scope'', kv_str ps ''scope'')] else [])"

definition fetchToken :: "'s net \<Rightarrow> client \<Rightarrow> 's \<Rightarrow> string \<Rightarrow> 's \<times> (tokenErr + string)" where
  "fetchToken net c s challenge =
     (case parseBearerChallenge challenge of Inl e \<Rightarrow> (s, Inl e)
      | Inr ps \<Rightarrow>
          if kv_str ps ''realm'' = [] then (s, Inl NoRealm)
          else (case ntTokenURL net (kv_str ps ''realm'') (token_query ps) of None \<Rightarrow> (s, Inl BadRealm)
            | Some u \<Rightarrow>
                if \<not> ntUrlOk net u then (s, Inl TokenBuild)
                else (case ntSend net s (newRequest c ''GET'' u [] [] []) of
                    (s', None) \<Rightarrow> (s', Inl TokenSend)
                  | (s', Some r) \<Rightarrow>
                      (s', if rsStatus r \<noteq> 200 then Inl (TokenStatus (rsStatus r))
                           else (case ntToken net (take 1048576 (rsBody r)) of None \<Rightarrow> Inl TokenDecode
                             | Some (tok, acc) \<Rightarrow> if tok \<noteq> [] then Inr tok else if acc \<noteq> [] then Inr acc else Inl NoToken)))))"

subsection \<open>Requests\<close>

definition client_do :: "'s net \<Rightarrow> client \<Rightarrow> 's \<Rightarrow> string \<Rightarrow> string \<Rightarrow> string \<Rightarrow> 's \<times> (clientErr + response)" where
  "client_do net c s meth url accept =
     (if \<not> ntUrlOk net url then (s, Inl ErrBuild)
      else (case ntSend net s (newRequest c meth url accept [] []) of
          (s1, None) \<Rightarrow> (s1, Inl ErrSend)
        | (s1, Some r) \<Rightarrow>
            if rsStatus r \<noteq> 401 then (s1, Inr r)
            else (case fetchToken net c s1 (kv_str (rsHeaders r) ''WWW-Authenticate'') of
                (s2, Inl e) \<Rightarrow> (s2, Inl (ErrAuth e))
              | (s2, Inr tok) \<Rightarrow>
                  (case ntSend net s2 (newRequest c meth url accept [] tok) of
                     (s3, None) \<Rightarrow> (s3, Inl ErrSend) | (s3, Some r2) \<Rightarrow> (s3, Inr r2)))))"

definition statusError :: "string \<Rightarrow> response \<Rightarrow> clientErr" where
  "statusError opn r = ErrStatus opn (rsStatus r) (strings_TrimSpace (take 512 (rsBody r)))"

definition Ping :: "'s net \<Rightarrow> client \<Rightarrow> 's \<Rightarrow> string \<Rightarrow> 's \<times> clientErr option" where
  "Ping net c s registry =
     (case client_do net c s ''GET'' (baseURL c registry @ ''/'') [] of (s', Inl e) \<Rightarrow> (s', Some e)
      | (s', Inr r) \<Rightarrow> (s', if rsStatus r = 200 \<or> rsStatus r = 401 then None else Some (ErrStatus ''ping'' (rsStatus r) [])))"

definition manifestURL :: "client \<Rightarrow> string \<Rightarrow> string \<Rightarrow> string \<Rightarrow> string" where
  "manifestURL c registry repo ref = baseURL c registry @ ''/'' @ repo @ ''/manifests/'' @ ref"

definition GetManifest :: "'s net \<Rightarrow> client \<Rightarrow> 's \<Rightarrow> reference \<Rightarrow> 's \<times> (clientErr + rawManifest)" where
  "GetManifest net c s ref =
     (case client_do net c s ''GET'' (manifestURL c (rfRegistry ref) (rfRepository ref) (RefForPull ref)) manifestMediaTypes of
        (s', Inl e) \<Rightarrow> (s', Inl e)
      | (s', Inr r) \<Rightarrow>
          (s', if rsStatus r \<noteq> 200 then Inl (statusError (''get manifest '' @ reference_String ref) r)
               else (let data = take maxManifestBytes (rsBody r); mt = kv_str (rsHeaders r) ''Content-Type'' in
                 if rfDigest ref \<noteq> [] \<and> \<not> VerifyDigest data (rfDigest ref) then Inl ErrDigestMismatch
                 else Inr \<lparr> rmBytes = data, rmMediaType = (if mt = [] then MediaTypeOCIManifest else mt), rmDigest = Digest data \<rparr>)))"

definition ResolveDigest :: "'s net \<Rightarrow> client \<Rightarrow> 's \<Rightarrow> reference \<Rightarrow> 's \<times> (clientErr + string)" where
  "ResolveDigest net c s ref =
     (if rfDigest ref \<noteq> [] then (s, Inr (rfDigest ref))
      else (case client_do net c s ''HEAD'' (manifestURL c (rfRegistry ref) (rfRepository ref) (rfTag ref)) manifestMediaTypes of
          (s1, Inl e) \<Rightarrow> (s1, Inl e)
        | (s1, Inr r) \<Rightarrow>
            if rsStatus r \<noteq> 200 then (s1, Inl (statusError (''head manifest '' @ reference_String ref) r))
            else if kv_str (rsHeaders r) ''Docker-Content-Digest'' \<noteq> [] then (s1, Inr (kv_str (rsHeaders r) ''Docker-Content-Digest''))
            else (case GetManifest net c s1 ref of (s2, Inl e) \<Rightarrow> (s2, Inl e) | (s2, Inr rm) \<Rightarrow> (s2, Inr (rmDigest rm)))))"

definition content_descriptor :: "string \<Rightarrow> bytes \<Rightarrow> descriptor" where
  "content_descriptor mt data = \<lparr> dsMediaType = mt, dsDigest = Digest data, dsSize = int (length data),
     dsArtifactType = [], dsAnnotations = [] \<rparr>"

definition PutManifest :: "'s net \<Rightarrow> client \<Rightarrow> 's \<Rightarrow> string \<Rightarrow> string \<Rightarrow> string \<Rightarrow> string \<Rightarrow> bytes \<Rightarrow> 's \<times> (clientErr + descriptor)" where
  "PutManifest net c s registry repo ref mt data =
     (let url = manifestURL c registry repo ref in
      if \<not> ntUrlOk net url then (s, Inl ErrBuild)
      else (case ntSend net s ((newRequest c ''PUT'' url [] data [])\<lparr> hqContentType := mt \<rparr>) of
          (s', None) \<Rightarrow> (s', Inl ErrSend)
        | (s', Some r) \<Rightarrow>
            (s', if rsStatus r \<noteq> 201 \<and> rsStatus r \<noteq> 200 then Inl (statusError ''put manifest'' r)
                 else Inr (content_descriptor mt data))))"

definition GetBlob :: "'s net \<Rightarrow> client \<Rightarrow> 's \<Rightarrow> string \<Rightarrow> string \<Rightarrow> string \<Rightarrow> 's \<times> (clientErr + bytes)" where
  "GetBlob net c s registry repo digest =
     (case client_do net c s ''GET'' (baseURL c registry @ ''/'' @ repo @ ''/blobs/'' @ digest) [] of
        (s', Inl e) \<Rightarrow> (s', Inl e)
      | (s', Inr r) \<Rightarrow>
          (s', if rsStatus r \<noteq> 200 then Inl (statusError ''get blob'' r)
               else (let data = take maxManifestBytes (rsBody r)
                     in if VerifyDigest data digest then Inr data else Inl ErrDigestMismatch)))"

definition absolute :: "client \<Rightarrow> string \<Rightarrow> string \<Rightarrow> string" where
  "absolute c registry loc =
     (if strings_HasPrefix loc ''http://'' \<or> strings_HasPrefix loc ''https://'' then loc
      else if strings_HasPrefix loc ''/'' then client_scheme c @ ''://'' @ registry @ loc
      else baseURL c registry @ ''/'' @ loc)"

definition PutBlob :: "'s net \<Rightarrow> client \<Rightarrow> 's \<Rightarrow> string \<Rightarrow> string \<Rightarrow> bytes \<Rightarrow> 's \<times> (clientErr + descriptor)" where
  "PutBlob net c s registry repo data =
     (case client_do net c s ''POST'' (baseURL c registry @ ''/'' @ repo @ ''/blobs/uploads/'') [] of
        (s1, Inl e) \<Rightarrow> (s1, Inl e)
      | (s1, Inr r) \<Rightarrow>
          (let loc = kv_str (rsHeaders r) ''Location'' in
           if rsStatus r \<noteq> 202 \<or> loc = [] then (s1, Inl (ErrUpload (rsStatus r)))
           else (let putURL = absolute c registry loc @ (if CHR ''?'' \<in> set loc then ''&'' else ''?'') @ ''digest='' @ Digest data in
             if \<not> ntUrlOk net putURL then (s1, Inl ErrBuild)
             else (case ntSend net s1 ((newRequest c ''PUT'' putURL [] data [])\<lparr> hqContentType := ''application/octet-stream'' \<rparr>) of
                 (s2, None) \<Rightarrow> (s2, Inl ErrSend)
               | (s2, Some p) \<Rightarrow>
                   (s2, if rsStatus p \<noteq> 201 then Inl (statusError ''put blob'' p)
                        else Inr (content_descriptor ''application/octet-stream'' data))))))"

definition ListTags :: "'s net \<Rightarrow> codec \<Rightarrow> client \<Rightarrow> 's \<Rightarrow> string \<Rightarrow> string \<Rightarrow> 's \<times> (clientErr + string list)" where
  "ListTags net cd c s registry repo =
     (case client_do net c s ''GET'' (baseURL c registry @ ''/'' @ repo @ ''/tags/list'') ''application/json'' of
        (s', Inl e) \<Rightarrow> (s', Inl e)
      | (s', Inr r) \<Rightarrow>
          (s', if rsStatus r \<noteq> 200 then Inl (statusError ''list tags'' r)
               else (case cdUnTags cd (rsBody r) of None \<Rightarrow> Inl ErrDecode | Some ts \<Rightarrow> Inr ts)))"

subsection \<open>Referrers\<close>

definition referrerTag :: "string \<Rightarrow> string" where
  "referrerTag d = (case cut_byte CHR '':'' d of None \<Rightarrow> d | Some (a, b) \<Rightarrow> a @ ''-'' @ b)"

definition filterByArtifactType :: "index \<Rightarrow> string \<Rightarrow> index" where
  "filterByArtifactType idx t =
     (if t = [] then idx
      else \<lparr> ixSchemaVersion = ixSchemaVersion idx, ixMediaType = ixMediaType idx,
             ixManifests = filter (\<lambda>d. dsArtifactType d = t) (ixManifests idx), ixAnnotations = [] \<rparr>)"

definition referrersByTag :: "'s net \<Rightarrow> codec \<Rightarrow> client \<Rightarrow> 's \<Rightarrow> string \<Rightarrow> string \<Rightarrow> string \<Rightarrow> string \<Rightarrow> 's \<times> (clientErr + index)" where
  "referrersByTag net cd c s registry repo subj t =
     (case GetManifest net c s \<lparr> rfRegistry = registry, rfRepository = repo, rfTag = referrerTag subj, rfDigest = [] \<rparr> of
        (s', Inl e) \<Rightarrow> (s', Inr \<lparr> ixSchemaVersion = 2, ixMediaType = MediaTypeOCIIndex, ixManifests = [], ixAnnotations = [] \<rparr>)
      | (s', Inr rm) \<Rightarrow> (s', case cdUnIndex cd (rmBytes rm) of None \<Rightarrow> Inl ErrDecode
          | Some idx \<Rightarrow> Inr (filterByArtifactType idx t)))"

definition Referrers :: "'s net \<Rightarrow> codec \<Rightarrow> client \<Rightarrow> 's \<Rightarrow> string \<Rightarrow> string \<Rightarrow> string \<Rightarrow> string \<Rightarrow> 's \<times> (clientErr + index)" where
  "Referrers net cd c s registry repo subj t =
     (case validateDigest subj of Some e \<Rightarrow> (s, Inl (ErrRef e))
      | None \<Rightarrow>
          (case client_do net c s ''GET'' (baseURL c registry @ ''/'' @ repo @ ''/referrers/'' @ subj
               @ (if t \<noteq> [] then ''?artifactType='' @ t else [])) MediaTypeOCIIndex of
             (s1, Inl e) \<Rightarrow> (s1, Inl e)
           | (s1, Inr r) \<Rightarrow>
               if rsStatus r = 200 then
                 (s1, case cdUnIndex cd (rsBody r) of None \<Rightarrow> Inl ErrDecode | Some idx \<Rightarrow> Inr (filterByArtifactType idx t))
               else if rsStatus r = 404 then referrersByTag net cd c s1 registry repo subj t
               else (s1, Inl (statusError ''referrers'' r))))"

definition referrer_manifest :: "string \<Rightarrow> string \<Rightarrow> descriptor \<Rightarrow> descriptor \<Rightarrow> (string \<times> string) list \<Rightarrow> manifest" where
  "referrer_manifest subj t cfg ly anns =
     \<lparr> mnSchemaVersion = 2, mnMediaType = MediaTypeOCIManifest, mnArtifactType = t, mnConfig = cfg, mnLayers = [ly],
       mnSubject = Some \<lparr> dsMediaType = MediaTypeOCIManifest, dsDigest = subj, dsSize = 0, dsArtifactType = [], dsAnnotations = [] \<rparr>,
       mnAnnotations = anns \<rparr>"

definition PutReferrer :: "'s net \<Rightarrow> codec \<Rightarrow> client \<Rightarrow> 's \<Rightarrow> string \<Rightarrow> string \<Rightarrow> string \<Rightarrow> string \<Rightarrow> bytes
    \<Rightarrow> (string \<times> string) list \<Rightarrow> 's \<times> (clientErr + descriptor)" where
  "PutReferrer net cd c s registry repo subj t artifact anns =
     (case validateDigest subj of Some e \<Rightarrow> (s, Inl (ErrRef e))
      | None \<Rightarrow>
          (case PutBlob net c s registry repo artifact of (s1, Inl e) \<Rightarrow> (s1, Inl e)
           | (s1, Inr ly) \<Rightarrow>
               (case PutBlob net c s1 registry repo ''{}'' of (s2, Inl e) \<Rightarrow> (s2, Inl e)
                | (s2, Inr cfg) \<Rightarrow>
                    (let man = cdManifest cd (referrer_manifest subj t (cfg\<lparr> dsMediaType := MediaTypeEmptyJSON \<rparr>)
                           (ly\<lparr> dsMediaType := t \<rparr>) anns)
                     in case PutManifest net c s2 registry repo (Digest man) MediaTypeOCIManifest man of
                          (s3, Inl e) \<Rightarrow> (s3, Inl e)
                        | (s3, Inr d) \<Rightarrow> (s3, Inr (d\<lparr> dsArtifactType := t, dsAnnotations := anns \<rparr>))))))"

subsection \<open>Image layouts\<close>

text \<open>A layout directory: reading a file by the components of its path, and the decoder of an index file.\<close>

datatype layoutErr = LayoutRead | LayoutParse | LayoutEmpty | LayoutDigest ref_err

definition readLayoutBlob :: "(string list \<Rightarrow> bytes option) \<Rightarrow> string \<Rightarrow> bytes option" where
  "readLayoutBlob rd digest = (case cut_byte CHR '':'' digest of None \<Rightarrow> None | Some (alg, h) \<Rightarrow> rd [''blobs'', alg, h])"

definition ManifestDigestFromLayout :: "(bytes \<Rightarrow> (string \<times> string) list option) \<Rightarrow> (string list \<Rightarrow> bytes option) \<Rightarrow> layoutErr + string" where
  "ManifestDigestFromLayout un rd =
     (case rd [''index.json''] of None \<Rightarrow> Inl LayoutRead
      | Some b \<Rightarrow>
          (case un b of None \<Rightarrow> Inl LayoutParse
           | Some [] \<Rightarrow> Inl LayoutEmpty
           | Some ((mt, dg) # _) \<Rightarrow>
               (case validateDigest dg of Some e \<Rightarrow> Inl (LayoutDigest e)
                | None \<Rightarrow>
                    Inr (if IsIndex mt then
                           (case readLayoutBlob rd dg of None \<Rightarrow> dg
                            | Some inner \<Rightarrow> (case un inner of Some ((mt', dg') # _) \<Rightarrow> (if validateDigest dg' = None then dg' else dg)
                                | _ \<Rightarrow> dg))
                         else dg))))"

end
