(* ===== verification/RegRound.thy ===== *)
theory RegRound
  imports RegClient SigMerkle
begin

text \<open>
  The client over the in-memory registry, as the tests and the demonstration run them: the transport is
  the handler behind the URL. What is put can be fetched, whatever requests come in between,
  and what is fetched by digest is that content, from any server.
\<close>

definition mem_request :: "url \<Rightarrow> httpRequest \<Rightarrow> request" where
  "mem_request u q = \<lparr> rqMethod = hqMethod q, rqPath = ulPath u, rqQuery = url_Query (ulRawQuery u), rqAuth = hqAuth q,
     rqContentType = hqContentType q, rqBody = hqBody q \<rparr>"

definition mem_send :: "codec \<Rightarrow> memRegistry \<Rightarrow> httpRequest \<Rightarrow> memRegistry \<times> response option" where
  "mem_send cd m q = (case url_parse (hqURL q) of None \<Rightarrow> (m, None)
     | Some u \<Rightarrow> (case ServeHTTP cd m (mem_request u q) of (m', r) \<Rightarrow> (m', Some r)))"

definition mem_net :: "codec \<Rightarrow> memRegistry net" where
  "mem_net cd = \<lparr> ntSend = mem_send cd, ntUrlOk = (\<lambda>u. url_parse u \<noteq> None), ntTokenURL = (\<lambda>realm ps. None),
     ntToken = (\<lambda>b. None) \<rparr>"

subsection \<open>Routing\<close>

definition repo_name :: "string \<Rightarrow> bool" where
  "repo_name repo \<longleftrightarrow> repo \<noteq> [] \<and> set repo \<inter> set ''#?%'' = {}
     \<and> list_all (\<lambda>s. s \<notin> set [''manifests'', ''blobs'', ''referrers'', ''tags'']) (split_byte (CHR ''/'') repo)"

definition host_name :: "string \<Rightarrow> bool" where
  "host_name h \<longleftrightarrow> set h \<inter> set ''#?/'' = {}"

definition ref_name :: "string \<Rightarrow> bool" where
  "ref_name r \<longleftrightarrow> set r \<inter> set ''#?%/'' = {}"

lemma count_Index: "count_list s c < count_list p c \<Longrightarrow> strings_Index s p = None"
proof (induction s)
  case (Cons x s)
  have "\<not> strings_HasPrefix (x # s) p"
  proof
    assume "strings_HasPrefix (x # s) p"
    then have "x # s = p @ drop (length p) (x # s)"
      unfolding strings_HasPrefix_def by (metis append_take_drop_id)
    then have "count_list (x # s) c = count_list p c + count_list (drop (length p) (x # s)) c"
      by (metis count_list_append)
    with Cons.prems show False by linarith
  qed
  moreover have "strings_Index s p = None" using Cons by (auto split: if_splits)
  ultimately show ?case by simp
qed auto

lemma split_byte_Cons: "split_byte c (x # s) =
    (if x = c then [] # split_byte c s else (x # hd (split_byte c s)) # tl (split_byte c s))"
  using split_byte_ne [of c s] by (auto split: list.splits)

lemma hd_split_byte: "hd (split_byte c s) = takeWhile (\<lambda>x. x \<noteq> c) s"
  by (induction s) (simp_all add: split_byte_Cons del: split_byte.simps(2))

lemma prefix_segment: "c \<notin> set w \<Longrightarrow> strings_HasPrefix s (w @ c # z) \<Longrightarrow> takeWhile (\<lambda>x. x \<noteq> c) s = w"
proof -
  assume w: "c \<notin> set w" and "strings_HasPrefix s (w @ c # z)"
  then have "s = w @ c # z @ drop (length (w @ c # z)) s"
    unfolding strings_HasPrefix_def by (metis append_Cons append_assoc append_take_drop_id)
  then obtain y where "s = w @ c # y" by blast
  with w show ?thesis by (simp add: takeWhile_append)
qed

lemma Index_skip:
  "c \<notin> set w \<Longrightarrow> w \<notin> set (tl (split_byte c a)) \<Longrightarrow>
   strings_Index (a @ c # b) (c # w @ c # z) = map_option ((+) (length a)) (strings_Index (c # b) (c # w @ c # z))"
proof (induction a)
  case Nil
  show ?case by (cases "strings_Index (c # b) (c # w @ c # z)") auto
next
  case (Cons x a)
  have no: "\<not> strings_HasPrefix (x # a @ c # b) (c # w @ c # z)"
  proof
    assume p: "strings_HasPrefix (x # a @ c # b) (c # w @ c # z)"
    then have "x = c" "strings_HasPrefix (a @ c # b) (w @ c # z)" by (auto simp: strings_HasPrefix_def)
    with prefix_segment [OF Cons.prems(1)] have "takeWhile (\<lambda>y. y \<noteq> c) (a @ c # b) = w" by blast
    moreover have "takeWhile (\<lambda>y. y \<noteq> c) (a @ c # b) = hd (split_byte c a)"
      unfolding hd_split_byte by (induction a) auto
    moreover have "hd (split_byte c a) \<in> set (split_byte c a)" by (rule hd_in_set) (rule split_byte_ne)
    ultimately show False using Cons.prems(2) \<open>x = c\<close> by simp
  qed
  have "w \<notin> set (tl (split_byte c a))"
    using Cons.prems(2) split_byte_ne [of c a] by (cases "split_byte c a") (auto simp: split_byte_Cons split: if_splits)
  with Cons no show ?case
    by (cases "strings_Index (c # b) (c # w @ c # z)") auto
qed

lemma split_byte_last: "c \<notin> set k \<Longrightarrow> split_byte c (a @ c # k) = split_byte c a @ [k]"
proof (induction a)
  case (Cons x a)
  then show ?case using split_byte_ne [of c a] by (simp add: split_byte_Cons del: split_byte.simps(2))
qed (simp add: split_byte_none)

abbreviation slash :: char where "slash \<equiv> CHR ''/''"

lemma repo_segment:
  assumes "repo_name repo" "k \<in> {''manifests'', ''blobs'', ''referrers'', ''tags''}"
  shows "k \<notin> set (split_byte slash repo)" "k \<notin> set (tl (split_byte slash repo))"
proof -
  show "k \<notin> set (split_byte slash repo)" using assms by (auto simp: repo_name_def list_all_iff)
  then show "k \<notin> set (tl (split_byte slash repo))" by (cases "split_byte slash repo") auto
qed

lemma no_marker:
  assumes "repo_name repo" "w \<in> {''manifests'', ''blobs'', ''referrers'', ''tags''}" "slash \<notin> set k" "slash \<notin> set arg" "w \<noteq> k"
  shows "strings_Index (repo @ slash # k @ slash # arg) (slash # w @ slash # z) = None"
proof -
  have w: "slash \<notin> set w" using assms(2) by auto
  have seg: "w \<notin> set (tl (split_byte slash (repo @ slash # k)))"
    using repo_segment [OF assms(1,2)] assms(3,5) split_byte_ne [of slash repo]
    by (cases "split_byte slash repo") (auto simp: split_byte_last)
  have "strings_Index (slash # arg) (slash # w @ slash # z) = None"
    by (rule count_Index [where c = slash]) (use assms(4) in \<open>simp add: count_list_0_iff [THEN iffD2]\<close>)
  with Index_skip [OF w seg, of arg z] show ?thesis by simp
qed

lemma marker_here:
  assumes "repo_name repo" "w \<in> {''manifests'', ''blobs'', ''referrers'', ''tags''}"
  shows "strings_Index (repo @ slash # w @ slash # z @ arg) (slash # w @ slash # z) = Some (length repo)"
proof -
  have "slash \<notin> set w" using assms(2) by auto
  from Index_skip [OF this repo_segment(2) [OF assms], of "w @ slash # z @ arg" z]
  show ?thesis by (simp add: strings_HasPrefix_def)
qed

lemma splitAPIPath_v2: "splitAPIPath (''/v2/'' @ p) = split_markers p api_markers"
  by (simp add: splitAPIPath_def strings_TrimPrefix_def strings_HasPrefix_def)

lemma route_manifests: "repo_name repo \<Longrightarrow> splitAPIPath (''/v2/'' @ repo @ ''/manifests/'' @ arg) = Some (repo, ''manifests'', arg)"
  using marker_here [of repo "''manifests''" "[]" arg] unfolding splitAPIPath_v2 by (simp add: api_markers_def)

lemma route_uploads: "repo_name repo \<Longrightarrow> slash \<notin> set arg
    \<Longrightarrow> splitAPIPath (''/v2/'' @ repo @ ''/blobs/uploads/'' @ arg) = Some (repo, ''blobs-uploads'', arg)"
proof -
  assume r: "repo_name repo" and a: "slash \<notin> set arg"
  have w: "slash \<notin> set ''manifests''" by simp
  have seg: "''manifests'' \<notin> set (tl (split_byte slash (repo @ slash # ''blobs'')))"
    using repo_segment [OF r, of "''manifests''"] split_byte_ne [of slash repo]
    by (cases "split_byte slash repo") (auto simp: split_byte_last)
  have "strings_Index (''/uploads/'' @ arg) ''/manifests/'' = None"
    using Index_skip [of slash "''manifests''" "''/uploads''" arg "[]"] a
      count_Index [of "slash # arg" slash "''/manifests/''"] by (simp add: count_list_0_iff [THEN iffD2])
  then have "strings_Index (repo @ ''/blobs/uploads/'' @ arg) ''/manifests/'' = None"
    using Index_skip [OF w seg, of "''uploads/'' @ arg" "[]"] by simp
  then show ?thesis
    using marker_here [OF r, of "''blobs''" "''uploads/''" arg] unfolding splitAPIPath_v2 by (simp add: api_markers_def)
qed

lemma route_referrers: "repo_name repo \<Longrightarrow> slash \<notin> set arg
    \<Longrightarrow> splitAPIPath (''/v2/'' @ repo @ ''/referrers/'' @ arg) = Some (repo, ''referrers'', arg)"
  using no_marker [of repo "''manifests''" "''referrers''" arg "[]"] no_marker [of repo "''blobs''" "''referrers''" arg "''uploads/''"]
    marker_here [of repo "''referrers''" "[]" arg]
  unfolding splitAPIPath_v2 by (simp add: api_markers_def)

lemma route_blobs:
  assumes r: "repo_name repo" and a: "slash \<notin> set arg"
  shows "splitAPIPath (''/v2/'' @ repo @ ''/blobs/'' @ arg) = Some (repo, ''blobs'', arg)"
proof -
  have w: "slash \<notin> set ''blobs''" by simp
  have "strings_Index (slash # ''blobs/'' @ arg) ''/blobs/uploads/'' = None"
    by (rule count_Index [where c = slash]) (use a in \<open>simp add: count_list_0_iff [THEN iffD2]\<close>)
  then have "strings_Index (repo @ ''/blobs/'' @ arg) ''/blobs/uploads/'' = None"
    using Index_skip [OF w repo_segment(2) [OF r], of "''blobs/'' @ arg" "''uploads/''"] by simp
  then show ?thesis
    using no_marker [OF r, of "''manifests''" "''blobs''" arg "[]"] no_marker [OF r, of "''referrers''" "''blobs''" arg "[]"]
      marker_here [OF r, of "''blobs''" "[]" arg] a
    unfolding splitAPIPath_v2 by (simp add: api_markers_def)
qed

subsection \<open>Requests that reach the handlers\<close>

lemma serve_routed:
  assumes "splitAPIPath (rqPath q) = Some (repo, kind, arg)" "repo \<noteq> []" "mgRequireAuth m \<longrightarrow> rqAuth q \<noteq> []"
  shows "ServeHTTP cd m q =
    (if kind = ''manifests'' then handleManifest m q repo arg
     else if kind = ''blobs-uploads'' then handleUpload m q repo arg
     else if kind = ''blobs'' then handleBlob m q repo arg
     else if kind = ''referrers'' then handleReferrers cd m q repo arg
     else if kind = ''tags'' then handleTags cd m repo else (m, http_NotFound))"
proof -
  have "splitAPIPath ''/v2/'' = None" "splitAPIPath ''/v2'' = None" by code_simp+
  with assms(1) have "rqPath q \<noteq> ''/v2/''" "rqPath q \<noteq> ''/v2''" by auto
  moreover have "\<not> (mgRequireAuth m \<and> rqAuth q = [])" using assms(3) by blast
  ultimately show ?thesis using assms(1,2) by (simp only: ServeHTTP_def if_False option.case prod.case de_Morgan_disj simp_thms)
qed

definition admitted :: "memRegistry \<Rightarrow> client \<Rightarrow> bool" where
  "admitted m c \<longleftrightarrow> (mgRequireAuth m \<longrightarrow> clBasicUser c \<noteq> [])"

lemma base_url:
  assumes "host_name h" "set p \<inter> set ''#?%'' = {}"
  shows "url_parse (baseURL c h @ ''/'' @ p)
      = Some \<lparr> ulScheme = client_scheme c, ulHost = h, ulPath = ''/v2/'' @ p, ulRawQuery = [] \<rparr>"
    and "CHR ''#'' \<notin> set q \<Longrightarrow> url_parse (baseURL c h @ ''/'' @ p @ ''?'' @ q)
      = Some \<lparr> ulScheme = client_scheme c, ulHost = h, ulPath = ''/v2/'' @ p, ulRawQuery = q \<rparr>"
proof -
  have sch: "client_scheme c \<noteq> []" "set (client_scheme c) \<inter> {CHR ''#'', CHR '':'', CHR ''?''} = {}"
    by (auto simp: client_scheme_def)
  have h: "set h \<inter> {CHR ''#'', CHR ''?'', CHR ''/''} = {}" using assms(1) by (auto simp: host_name_def)
  have p: "set (''v2/'' @ p) \<inter> {CHR ''#'', CHR ''?'', CHR ''%''} = {}" using assms(2) by auto
  note u = url_parse_path [OF sch h p]
  show "url_parse (baseURL c h @ ''/'' @ p)
      = Some \<lparr> ulScheme = client_scheme c, ulHost = h, ulPath = ''/v2/'' @ p, ulRawQuery = [] \<rparr>"
    using u(1) by (simp add: baseURL_def)
  show "CHR ''#'' \<notin> set q \<Longrightarrow> url_parse (baseURL c h @ ''/'' @ p @ ''?'' @ q)
      = Some \<lparr> ulScheme = client_scheme c, ulHost = h, ulPath = ''/v2/'' @ p, ulRawQuery = q \<rparr>"
    using u(2) [of q] by (simp add: baseURL_def)
qed

text \<open>A request of the client over the memory registry, as the handler sees it.\<close>

definition to_server :: "client \<Rightarrow> string \<Rightarrow> string \<Rightarrow> (string \<times> string) list \<Rightarrow> string \<Rightarrow> bytes \<Rightarrow> request" where
  "to_server c meth path q ct body = \<lparr> rqMethod = meth, rqPath = ''/v2/'' @ path, rqQuery = q, rqAuth = basic_header c,
     rqContentType = ct, rqBody = body \<rparr>"

lemma admitted_header: "admitted m c \<Longrightarrow> mgRequireAuth m \<longrightarrow> rqAuth (to_server c meth path q ct body) \<noteq> []"
  by (auto simp: admitted_def to_server_def basic_header_def)

lemma url_Query_Nil: "url_Query [] = []"
  by code_simp

lemma send_mem:
  assumes "url_parse (hqURL r) = Some u"
  shows "ntSend (mem_net cd) m r = (fst (ServeHTTP cd m (mem_request u r)), Some (snd (ServeHTTP cd m (mem_request u r))))"
  using assms by (simp add: mem_net_def mem_send_def split: prod.split)

lemma do_mem_url:
  assumes "url_parse url = Some \<lparr> ulScheme = s, ulHost = h, ulPath = ''/v2/'' @ p, ulRawQuery = q \<rparr>"
    and "rsStatus (snd (ServeHTTP cd m (to_server c meth p (url_Query q) [] []))) \<noteq> 401"
  shows "client_do (mem_net cd) c m meth url acc
    = (fst (ServeHTTP cd m (to_server c meth p (url_Query q) [] [])), Inr (snd (ServeHTTP cd m (to_server c meth p (url_Query q) [] []))))"
proof -
  have u: "url_parse (hqURL (newRequest c meth url acc [] [])) = Some \<lparr> ulScheme = s, ulHost = h, ulPath = ''/v2/'' @ p, ulRawQuery = q \<rparr>"
    using assms(1) by (simp add: newRequest_def)
  have r: "mem_request \<lparr> ulScheme = s, ulHost = h, ulPath = ''/v2/'' @ p, ulRawQuery = q \<rparr> (newRequest c meth url acc [] [])
      = to_server c meth p (url_Query q) [] []"
    by (simp add: mem_request_def newRequest_def to_server_def)
  have "ntUrlOk (mem_net cd) url" using assms(1) by (simp add: mem_net_def)
  with assms(2) show ?thesis
    by (simp add: client_do_def send_mem [OF u, unfolded r])
qed

lemma do_mem:
  assumes "host_name h" "set p \<inter> set ''#?%'' = {}"
  shows "rsStatus (snd (ServeHTTP cd m (to_server c meth p [] [] []))) \<noteq> 401 \<Longrightarrow>
      client_do (mem_net cd) c m meth (baseURL c h @ ''/'' @ p) acc
        = (fst (ServeHTTP cd m (to_server c meth p [] [] [])), Inr (snd (ServeHTTP cd m (to_server c meth p [] [] []))))"
    and "CHR ''#'' \<notin> set q \<Longrightarrow> rsStatus (snd (ServeHTTP cd m (to_server c meth p (url_Query q) [] []))) \<noteq> 401 \<Longrightarrow>
      client_do (mem_net cd) c m meth (baseURL c h @ ''/'' @ p @ ''?'' @ q) acc
        = (fst (ServeHTTP cd m (to_server c meth p (url_Query q) [] [])), Inr (snd (ServeHTTP cd m (to_server c meth p (url_Query q) [] []))))"
  using do_mem_url [OF base_url(1) [OF assms], unfolded url_Query_Nil] do_mem_url [OF base_url(2) [OF assms]] by blast+

subsection \<open>What stays\<close>

text \<open>Content filed under a digest stays there, and no request changes whether credentials are demanded.\<close>

definition holds_blob :: "string \<Rightarrow> string \<Rightarrow> memRegistry \<Rightarrow> bool" where
  "holds_blob repo d m \<longleftrightarrow> map_of (mrBlobs (get_repo m repo)) d \<noteq> None"

definition holds_manifest :: "string \<Rightarrow> string \<Rightarrow> memRegistry \<Rightarrow> bool" where
  "holds_manifest repo d m \<longleftrightarrow> map_of (mrManifests (get_repo m repo)) d \<noteq> None"

lemma get_put_repo: "get_repo (put_repo m n r) k = (if k = n then r else get_repo m k)"
  by (simp add: get_repo_def put_repo_def)

lemma put_manifest_simps [simp]:
  "mrBlobs (put_manifest r ref mt body) = mrBlobs r"
  "mrManifests (put_manifest r ref mt body)
     = kv_put (Digest body) (body, if mt = [] then MediaTypeOCIManifest else mt) (mrManifests r)"
  by (simp_all add: put_manifest_def Let_def)

lemma auth_put_repo [simp]: "mgRequireAuth (put_repo m n r) = mgRequireAuth m"
  by (simp add: put_repo_def)

lemma step_keeps:
  assumes "registry_step m m'"
  shows "holds_blob repo d m \<Longrightarrow> holds_blob repo d m'" "holds_manifest repo d m \<Longrightarrow> holds_manifest repo d m'"
    "mgRequireAuth m' = mgRequireAuth m"
  using assms
  by (auto simp: holds_blob_def holds_manifest_def get_put_repo map_of_kv_put elim!: registry_step.cases)

interpretation stored: keeps "ServeHTTP cd" "\<lambda>m. registry_ok m \<and> mgRequireAuth m = a
    \<and> (holds_blob repo d m \<or> \<not> bl) \<and> (holds_manifest repo d' m \<or> \<not> mf)" for cd a repo d d' bl mf
  by unfold_locales (auto simp: ServeHTTP_ok step_keeps [OF ServeHTTP_step])

lemma get_blob_held:
  assumes "registry_ok m" "holds_blob repo d m"
  obtains b where "map_of (mrBlobs (get_repo m repo)) d = Some b" "Digest b = d" "length b \<le> maxManifestBytes"
proof -
  from assms(2) obtain b where b: "map_of (mrBlobs (get_repo m repo)) d = Some b" by (auto simp: holds_blob_def)
  have "Digest b = d \<and> length b \<le> maxManifestBytes"
    using map_of_SomeD [OF b] repo_ok_get [OF assms(1), of repo] by (auto simp: repo_ok_def)
  with b that show thesis by blast
qed

lemma get_manifest_held:
  assumes "registry_ok m" "holds_manifest repo d m"
  obtains b mt where "map_of (mrManifests (get_repo m repo)) d = Some (b, mt)" "Digest b = d" "length b \<le> maxManifestBytes" "mt \<noteq> []"
proof -
  from assms(2) obtain b mt where b: "map_of (mrManifests (get_repo m repo)) d = Some (b, mt)" by (auto simp: holds_manifest_def)
  have "Digest b = d \<and> length b \<le> maxManifestBytes \<and> mt \<noteq> []"
    using map_of_SomeD [OF b] repo_ok_get [OF assms(1), of repo] by (auto simp: repo_ok_def)
  with b that show thesis by blast
qed

subsection \<open>Pinned fetches\<close>

lemma Digest_inj: "Digest a = Digest b \<Longrightarrow> sha256 a = sha256 b"
  by (auto simp: Digest_def dest: hex_encode_inj)

text \<open>
  C4: Whatever the registry and the network answer, what the client returns of a fetch by digest
  hashes to that digest: it is the content the digest was made of, or the two collide under SHA-256.
\<close>

theorem fetch_pinned:
  "(snd (GetBlob net c s registry repo d) = Inr data \<longrightarrow> Digest data = d \<and> (Digest x = d \<longrightarrow> data = x \<or> collide {data} {x}))
   \<and> (snd (GetManifest net c s ref) = Inr rm \<longrightarrow>
       rmDigest rm = Digest (rmBytes rm) \<and> length (rmBytes rm) \<le> maxManifestBytes
       \<and> (rfDigest ref \<noteq> [] \<longrightarrow> rmDigest rm = rfDigest ref
            \<and> (Digest x = rfDigest ref \<longrightarrow> rmBytes rm = x \<or> collide {rmBytes rm} {x})))"
proof -
  have blob: "Digest data = d" if "snd (GetBlob net c s registry repo d) = Inr data"
    using that by (auto simp: GetBlob_def VerifyDigest_def Let_def split: prod.splits sum.splits if_splits)
  have man: "rmDigest rm = Digest (rmBytes rm) \<and> length (rmBytes rm) \<le> maxManifestBytes \<and> (rfDigest ref \<noteq> [] \<longrightarrow> rmDigest rm = rfDigest ref)"
    if "snd (GetManifest net c s ref) = Inr rm"
    using that by (auto simp: GetManifest_def VerifyDigest_def Let_def split: prod.splits sum.splits if_splits)
  have col: "data = x \<or> collide {data} {x}" if "Digest data = Digest x" for data x
    using Digest_inj [OF that] by (auto simp: collide_def)
  show ?thesis using blob man col by metis
qed

definition echo_net :: "bytes \<Rightarrow> unit net" where
  "echo_net b = \<lparr> ntSend = (\<lambda>s q. (s, Some \<lparr> rsStatus = 200, rsHeaders = [], rsBody = b \<rparr>)), ntUrlOk = (\<lambda>u. True),
     ntTokenURL = (\<lambda>realm ps. None), ntToken = (\<lambda>b. None) \<rparr>"

theorem fetch_pinned_witness:
  "\<exists>d data rm. snd (GetBlob (echo_net ''x'') (New []) () ''r'' ''a'' d) = Inr data \<and> Digest data = d
     \<and> snd (GetManifest (echo_net ''x'') (New []) () \<lparr> rfRegistry = ''r'', rfRepository = ''a'', rfTag = [], rfDigest = d \<rparr>) = Inr rm
     \<and> rmDigest rm = d"
proof -
  let ?d = "Digest ''x''"
  let ?ref = "\<lparr> rfRegistry = ''r'', rfRepository = ''a'', rfTag = [], rfDigest = ?d \<rparr>"
  have t: "take maxManifestBytes ''x'' = ''x''" by (simp add: maxManifestBytes_def)
  have do: "client_do (echo_net ''x'') c () meth u acc = ((), Inr \<lparr> rsStatus = 200, rsHeaders = [], rsBody = ''x'' \<rparr>)" for c meth u acc
    by (simp add: client_do_def echo_net_def)
  have b: "snd (GetBlob (echo_net ''x'') (New []) () ''r'' ''a'' ?d) = Inr ''x''"
    unfolding GetBlob_def do by (simp only: prod.case sum.case response.simps t Let_def VerifyDigest_def snd_conv if_True if_False refl simp_thms)
  have "snd (GetManifest (echo_net ''x'') (New []) () ?ref) = Inr \<lparr> rmBytes = ''x'', rmMediaType = MediaTypeOCIManifest, rmDigest = ?d \<rparr>"
    unfolding GetManifest_def do by (simp add: t Let_def VerifyDigest_def kv_str_def)
  moreover have "?d \<noteq> []" by (simp add: Digest_def)
  ultimately show ?thesis
    using b fetch_pinned [of "echo_net ''x''" "New []" "()" "''r''" "''a''" ?d "''x''" "''x''" ?ref] by fastforce
qed

subsection \<open>Round trips\<close>

lemma Digest_chars: "set (Digest b) \<inter> set ''#?%/&;+='' = {}"
proof -
  have "x \<notin> set ''#?%/&;+=''" if "isHexLower x" for x
    using that by (auto simp: isHexLower_def)
  then show ?thesis
    using hex_encode_hexLower [of "sha256 b"] by (auto simp: Digest_def list_all_iff)
qed

lemma path_chars: "repo_name repo \<Longrightarrow> set arg \<inter> set ''#?%'' = {} \<Longrightarrow> set k \<inter> set ''#?%'' = {} \<Longrightarrow> set (repo @ k @ arg) \<inter> set ''#?%'' = {}"
  by (auto simp: repo_name_def)

lemma repo_ne: "repo_name repo \<Longrightarrow> repo \<noteq> []"
  by (simp add: repo_name_def)

lemma PutManifest_mem:
  assumes h: "host_name h" and r: "repo_name repo" and f: "ref_name ref" and a: "admitted m c" and l: "length data \<le> maxManifestBytes"
  shows "PutManifest (mem_net cd) c m h repo ref mt data
    = (put_repo m repo (put_manifest (get_repo m repo) ref mt data), Inr (content_descriptor mt data))"
proof -
  have p: "set (repo @ ''/manifests/'' @ ref) \<inter> set ''#?%'' = {}"
    by (rule path_chars [OF r]) (use f in \<open>auto simp: ref_name_def\<close>)
  note u = base_url(1) [OF h p, of c]
  let ?q = "to_server c ''PUT'' (repo @ ''/manifests/'' @ ref) [] mt data"
  have rt: "splitAPIPath (rqPath ?q) = Some (repo, ''manifests'', ref)"
    using route_manifests [OF r] by (simp add: to_server_def)
  have s: "ServeHTTP cd m ?q = handleManifest m ?q repo ref"
    unfolding serve_routed [OF rt repo_ne [OF r] admitted_header [OF a]] by simp
  have url: "url_parse (hqURL ((newRequest c ''PUT'' (manifestURL c h repo ref) [] data [])\<lparr> hqContentType := mt \<rparr>))
      = Some \<lparr> ulScheme = client_scheme c, ulHost = h, ulPath = ''/v2/'' @ repo @ ''/manifests/'' @ ref, ulRawQuery = [] \<rparr>"
    using u by (simp add: newRequest_def manifestURL_def)
  have q: "mem_request \<lparr> ulScheme = client_scheme c, ulHost = h, ulPath = ''/v2/'' @ repo @ ''/manifests/'' @ ref, ulRawQuery = [] \<rparr>
      ((newRequest c ''PUT'' (manifestURL c h repo ref) [] data [])\<lparr> hqContentType := mt \<rparr>) = ?q"
    by (simp add: mem_request_def newRequest_def to_server_def url_Query_Nil)
  have ok: "ntUrlOk (mem_net cd) (manifestURL c h repo ref)" using u by (simp add: mem_net_def manifestURL_def)
  have hm: "ServeHTTP cd m ?q = (put_repo m repo (put_manifest (get_repo m repo) ref mt data),
      \<lparr> rsStatus = 201, rsHeaders = [(''Docker-Content-Digest'', Digest data), (''Location'', ''/v2/'' @ repo @ ''/manifests/'' @ Digest data)],
        rsBody = [] \<rparr>)"
    unfolding s using l by (simp add: handleManifest_def to_server_def Let_def)
  note send = send_mem [OF url, of cd m, unfolded q hm fst_conv snd_conv]
  show ?thesis
    using ok unfolding PutManifest_def Let_def send by simp
qed

lemma GetManifest_mem:
  assumes h: "host_name h" and r: "repo_name repo" and f: "ref_name (RefForPull ref)" and a: "admitted m c"
    and rf: "rfRegistry ref = h" "rfRepository ref = repo"
    and found: "find_manifest (get_repo m repo) (RefForPull ref) = Some (d, b, mt)" and mt: "mt \<noteq> []"
    and l: "length b \<le> maxManifestBytes" and d: "rfDigest ref \<noteq> [] \<Longrightarrow> Digest b = rfDigest ref"
  shows "snd (GetManifest (mem_net cd) c m ref) = Inr \<lparr> rmBytes = b, rmMediaType = mt, rmDigest = Digest b \<rparr>"
proof -
  let ?ref = "RefForPull ref"
  have p: "set (repo @ ''/manifests/'' @ ?ref) \<inter> set ''#?%'' = {}"
    by (rule path_chars [OF r]) (use f in \<open>auto simp: ref_name_def\<close>)
  let ?q = "to_server c ''GET'' (repo @ ''/manifests/'' @ ?ref) [] [] []"
  have rt: "splitAPIPath (rqPath ?q) = Some (repo, ''manifests'', ?ref)"
    using route_manifests [OF r] by (simp add: to_server_def)
  have s: "ServeHTTP cd m ?q = (put_repo m repo (get_repo m repo),
      \<lparr> rsStatus = 200, rsHeaders = [(''Content-Type'', mt), (''Docker-Content-Digest'', d), (''Content-Length'', itoa_nat (length b))],
        rsBody = b \<rparr>)"
    unfolding serve_routed [OF rt repo_ne [OF r] admitted_header [OF a]]
    by (simp add: handleManifest_def to_server_def found)
  have "rsStatus (snd (ServeHTTP cd m ?q)) \<noteq> 401" unfolding s by simp
  note dm = do_mem(1) [OF h p this, unfolded s fst_conv snd_conv]
  show ?thesis
    using mt l d unfolding GetManifest_def manifestURL_def rf dm by (auto simp add: VerifyDigest_def kv_str_def Let_def)
qed

lemma ref_digest: "ref_name (Digest b)"
  using Digest_chars [of b] by (auto simp: ref_name_def)

lemma GetBlob_mem:
  assumes h: "host_name h" and r: "repo_name repo" and a: "admitted m c"
    and found: "map_of (mrBlobs (get_repo m repo)) d = Some b" and d: "Digest b = d" and l: "length b \<le> maxManifestBytes"
  shows "snd (GetBlob (mem_net cd) c m h repo d) = Inr b"
proof -
  have sl: "slash \<notin> set d" using Digest_chars [of b] d by auto
  have p: "set (repo @ ''/blobs/'' @ d) \<inter> set ''#?%'' = {}"
    by (rule path_chars [OF r]) (use Digest_chars [of b] d in auto)
  let ?q = "to_server c ''GET'' (repo @ ''/blobs/'' @ d) [] [] []"
  have rt: "splitAPIPath (rqPath ?q) = Some (repo, ''blobs'', d)"
    using route_blobs [OF r sl] by (simp add: to_server_def)
  have s: "ServeHTTP cd m ?q = (put_repo m repo (get_repo m repo),
      \<lparr> rsStatus = 200, rsHeaders = [(''Docker-Content-Digest'', d), (''Content-Length'', itoa_nat (length b))], rsBody = b \<rparr>)"
    unfolding serve_routed [OF rt repo_ne [OF r] admitted_header [OF a]]
    by (simp add: handleBlob_def to_server_def found)
  have "rsStatus (snd (ServeHTTP cd m ?q)) \<noteq> 401" unfolding s by simp
  note dm = do_mem(1) [OF h p this, unfolded s fst_conv snd_conv]
  show ?thesis
    using l d unfolding GetBlob_def dm by (simp add: VerifyDigest_def Let_def)
qed

lemma itoa_chars: "set (itoa_nat n) \<inter> set ''#?%/'' = {}"
  using itoa_nat_digits [of n] by (auto simp: isDigit_def)

lemma PutBlob_mem:
  assumes h: "host_name h" and r: "repo_name repo" and a: "admitted m c" and l: "length data \<le> maxManifestBytes"
  shows "\<exists>m'. PutBlob (mem_net cd) c m h repo data = (m', Inr (content_descriptor ''application/octet-stream'' data))
     \<and> registry_step\<^sup>*\<^sup>* m m' \<and> holds_blob repo (Digest data) m'"
proof -
  let ?d = "Digest data"
  let ?r = "get_repo m repo"
  let ?u = "''u'' @ itoa_nat (length (mrBlobs ?r) + 1)"
  let ?m1 = "put_repo m repo ?r"
  have p: "set (repo @ ''/blobs/uploads/'') \<inter> set ''#?%'' = {}"
    using path_chars [OF r, of "[]" "''/blobs/uploads/''"] by simp
  let ?q = "to_server c ''POST'' (repo @ ''/blobs/uploads/'') [] [] []"
  have rt: "splitAPIPath (rqPath ?q) = Some (repo, ''blobs-uploads'', [])"
    using route_uploads [OF r, of "[]"] by (simp add: to_server_def)
  let ?loc = "''/v2/'' @ repo @ ''/blobs/uploads/'' @ ?u"
  have s: "ServeHTTP cd m ?q = (?m1, \<lparr> rsStatus = 202, rsHeaders = [(''Location'', ?loc), (''Range'', ''0-0'')], rsBody = [] \<rparr>)"
    unfolding serve_routed [OF rt repo_ne [OF r] admitted_header [OF a]] by (simp add: handleUpload_def to_server_def Let_def)
  have "rsStatus (snd (ServeHTTP cd m ?q)) \<noteq> 401" unfolding s by simp
  note dm = do_mem(1) [OF h p this, unfolded s fst_conv snd_conv]
  have up: "slash \<notin> set ?u" "set ?u \<inter> set ''#?%'' = {}"
    using itoa_chars [of "length (mrBlobs ?r) + 1"] by auto
  have p2: "set (repo @ ''/blobs/uploads/'' @ ?u) \<inter> set ''#?%'' = {}"
    by (rule path_chars [OF r up(2)]) simp
  let ?url = "baseURL c h @ ''/'' @ (repo @ ''/blobs/uploads/'' @ ?u) @ ''?'' @ ''digest='' @ ?d"
  have dc: "CHR ''#'' \<notin> set (''digest='' @ ?d)" using Digest_chars [of data] by auto
  note u2 = base_url(2) [OF h p2 dc, of c]
  have ab: "absolute c h ?loc @ (if CHR ''?'' \<in> set ?loc then ''&'' else ''?'') @ ''digest='' @ ?d = ?url"
    using p2 by (auto simp: absolute_def strings_HasPrefix_def baseURL_def)
  have qd: "url_Query (''digest='' @ ?d) = [(''digest'', ?d)]"
  proof -
    have "map (\<lambda>c. if c = CHR ''+'' then CHR '' '' else c) ?d = ?d"
      using Digest_chars [of data] by (intro map_idI) auto
    then show ?thesis using query_single [of "''digest''" ?d] Digest_chars [of data] by auto
  qed
  let ?q2 = "to_server c ''PUT'' (repo @ ''/blobs/uploads/'' @ ?u) [(''digest'', ?d)] ''application/octet-stream'' data"
  let ?hr = "(newRequest c ''PUT'' ?url [] data [])\<lparr> hqContentType := ''application/octet-stream'' \<rparr>"
  have hu: "url_parse (hqURL ?hr) = Some \<lparr> ulScheme = client_scheme c, ulHost = h, ulPath = ''/v2/'' @ repo @ ''/blobs/uploads/'' @ ?u,
      ulRawQuery = ''digest='' @ ?d \<rparr>"
    using u2 by (simp add: newRequest_def)
  have mq: "mem_request \<lparr> ulScheme = client_scheme c, ulHost = h, ulPath = ''/v2/'' @ repo @ ''/blobs/uploads/'' @ ?u,
      ulRawQuery = ''digest='' @ ?d \<rparr> ?hr = ?q2"
    by (simp add: mem_request_def newRequest_def to_server_def qd [simplified])
  have rt2: "splitAPIPath (rqPath ?q2) = Some (repo, ''blobs-uploads'', ?u)"
    using route_uploads [OF r up(1)] by (simp add: to_server_def)
  have a1: "admitted ?m1 c" using a by (simp add: admitted_def)
  let ?m2 = "put_repo ?m1 repo (?r\<lparr> mrBlobs := kv_put ?d data (mrBlobs ?r) \<rparr>)"
  have s2: "ServeHTTP cd ?m1 ?q2 = (?m2, \<lparr> rsStatus = 201, rsHeaders = [(''Docker-Content-Digest'', ?d),
      (''Location'', ''/v2/'' @ repo @ ''/blobs/'' @ ?d)], rsBody = [] \<rparr>)"
    unfolding serve_routed [OF rt2 repo_ne [OF r] admitted_header [OF a1]]
    using l by (simp add: handleUpload_def to_server_def kv_str_def get_put_repo Let_def Digest_def)
  note send = send_mem [OF hu, of cd ?m1, unfolded mq s2 fst_conv snd_conv]
  have ok: "ntUrlOk (mem_net cd) ?url" using u2 by (simp add: mem_net_def)
  have loc: "kv_str (rsHeaders \<lparr> rsStatus = 202, rsHeaders = [(''Location'', ?loc), (''Range'', ''0-0'')], rsBody = [] \<rparr>) ''Location'' = ?loc"
    by (simp add: kv_str_def)
  have st: "rsStatus \<lparr> rsStatus = 202, rsHeaders = [(''Location'', ?loc), (''Range'', ''0-0'')], rsBody = [] \<rparr> \<noteq> 202 \<or> ?loc = [] \<longleftrightarrow> False"
    by simp
  have "PutBlob (mem_net cd) c m h repo data = (?m2, Inr (content_descriptor ''application/octet-stream'' data))"
    unfolding PutBlob_def dm prod.case sum.case Let_def loc st if_False ab send using ok by simp
  moreover have "registry_step m ?m1" by (rule touched)
  moreover have "registry_step ?m1 ?m2"
    using stored_blob [OF refl l, of ?m1 repo] by (simp add: get_put_repo)
  moreover have "holds_blob repo ?d ?m2" by (simp add: holds_blob_def get_put_repo map_of_kv_put)
  ultimately show ?thesis by (meson r_into_rtranclp rtranclp_trans)
qed

text \<open>
  C7: What is stored can be fetched: after a blob or a manifest is put, any client the registry
  admits gets it back by its digest, whatever requests came in between, and by its tag at once; what it
  gets is the content itself unless two contents collide under SHA-256. A blob and a manifest are put
  in any well-formed registry state.
\<close>

theorem registry_roundtrip:
  assumes ok: "registry_ok m" and h: "host_name h" and r: "repo_name repo" and f: "ref_name ref"
    and a: "admitted m c" "admitted m c'" and l: "length data \<le> maxManifestBytes"
  shows "(\<exists>m'. PutBlob (mem_net cd) c m h repo data = (m', Inr (content_descriptor ''application/octet-stream'' data))
      \<and> (\<forall>qs. \<exists>b. snd (GetBlob (mem_net cd) c' (serve_all (ServeHTTP cd) m' qs) h repo (Digest data)) = Inr b
           \<and> (b = data \<or> collide {b} {data})))
    \<and> (\<exists>m'. PutManifest (mem_net cd) c m h repo ref mt data = (m', Inr (content_descriptor mt data))
      \<and> (\<forall>qs. \<exists>rm. snd (GetManifest (mem_net cd) c' (serve_all (ServeHTTP cd) m' qs)
               \<lparr> rfRegistry = h, rfRepository = repo, rfTag = t, rfDigest = Digest data \<rparr>) = Inr rm
           \<and> (rmBytes rm = data \<or> collide {rmBytes rm} {data}))
      \<and> (is_sha ref \<or> ref = [] \<or> (\<exists>rm. snd (GetManifest (mem_net cd) c' m'
               \<lparr> rfRegistry = h, rfRepository = repo, rfTag = ref, rfDigest = [] \<rparr>) = Inr rm \<and> rmBytes rm = data)))"
proof -
  let ?d = "Digest data"
  have col: "b = data \<or> collide {b} {data}" if "Digest b = ?d" for b
    using Digest_inj [OF that] by (auto simp: collide_def)
  have keep: "registry_ok m' \<and> mgRequireAuth m' = mgRequireAuth m" if "registry_step\<^sup>*\<^sup>* m m'" for m'
    using that by (induction rule: rtranclp_induct) (auto simp: ok registry_step_ok step_keeps)
  obtain m1 where m1: "PutBlob (mem_net cd) c m h repo data = (m1, Inr (content_descriptor ''application/octet-stream'' data))"
      "registry_step\<^sup>*\<^sup>* m m1" "holds_blob repo ?d m1"
    using PutBlob_mem [OF h r a(1) l] by blast
  have "\<exists>b. snd (GetBlob (mem_net cd) c' (serve_all (ServeHTTP cd) m1 qs) h repo ?d) = Inr b \<and> (b = data \<or> collide {b} {data})" for qs
  proof -
    let ?s = "serve_all (ServeHTTP cd) m1 qs"
    have s: "registry_ok ?s" "mgRequireAuth ?s = mgRequireAuth m" "holds_blob repo ?d ?s"
      using stored.run_keeps [of m1 "mgRequireAuth m" repo ?d True ?d False cd qs] keep [OF m1(2)] m1(3) by auto
    from get_blob_held [OF s(1,3)] obtain b where b: "map_of (mrBlobs (get_repo ?s repo)) ?d = Some b" "Digest b = ?d"
      "length b \<le> maxManifestBytes" .
    have "admitted ?s c'" using a(2) s(2) by (simp add: admitted_def)
    from GetBlob_mem [OF h r this b] col [OF b(2)] show ?thesis by blast
  qed
  with m1(1) have blob: "\<exists>m'. PutBlob (mem_net cd) c m h repo data = (m', Inr (content_descriptor ''application/octet-stream'' data))
      \<and> (\<forall>qs. \<exists>b. snd (GetBlob (mem_net cd) c' (serve_all (ServeHTTP cd) m' qs) h repo (Digest data)) = Inr b
           \<and> (b = data \<or> collide {b} {data}))" by blast
  let ?m2 = "put_repo m repo (put_manifest (get_repo m repo) ref mt data)"
  note m2 = PutManifest_mem [OF h r f a(1) l, of cd mt]
  have st: "registry_step m ?m2" by (rule stored_manifest [OF l])
  have hm: "holds_manifest repo ?d ?m2" by (simp add: holds_manifest_def get_put_repo map_of_kv_put)
  have "\<exists>rm. snd (GetManifest (mem_net cd) c' (serve_all (ServeHTTP cd) ?m2 qs)
               \<lparr> rfRegistry = h, rfRepository = repo, rfTag = t, rfDigest = ?d \<rparr>) = Inr rm
           \<and> (rmBytes rm = data \<or> collide {rmBytes rm} {data})" for qs
  proof -
    let ?s = "serve_all (ServeHTTP cd) ?m2 qs"
    let ?ref = "\<lparr> rfRegistry = h, rfRepository = repo, rfTag = t, rfDigest = ?d \<rparr>"
    have s: "registry_ok ?s" "mgRequireAuth ?s = mgRequireAuth m" "holds_manifest repo ?d ?s"
      using stored.run_keeps [of ?m2 "mgRequireAuth m" repo ?d False ?d True cd qs] keep [of ?m2] st hm by auto
    from get_manifest_held [OF s(1,3)] obtain b mt' where b: "map_of (mrManifests (get_repo ?s repo)) ?d = Some (b, mt')"
      "Digest b = ?d" "length b \<le> maxManifestBytes" "mt' \<noteq> []" .
    have rp: "RefForPull ?ref = ?d" by (simp add: RefForPull_def Digest_def)
    have fm: "find_manifest (get_repo ?s repo) (RefForPull ?ref) = Some (?d, b, mt')"
      using b(1) unfolding rp by (simp add: find_manifest_def is_sha_def Digest_def strings_HasPrefix_def)
    have "admitted ?s c'" using a(2) s(2) by (simp add: admitted_def)
    from GetManifest_mem [OF h r _ this _ _ fm b(4,3)] ref_digest [of data] b(2) col [OF b(2)]
    show ?thesis unfolding rp by fastforce
  qed
  moreover have "is_sha ref \<or> ref = [] \<or> (\<exists>rm. snd (GetManifest (mem_net cd) c' ?m2
               \<lparr> rfRegistry = h, rfRepository = repo, rfTag = ref, rfDigest = [] \<rparr>) = Inr rm \<and> rmBytes rm = data)"
  proof -
    let ?ref = "\<lparr> rfRegistry = h, rfRepository = repo, rfTag = ref, rfDigest = [] \<rparr>"
    let ?mt = "if mt = [] then MediaTypeOCIManifest else mt"
    have rp: "RefForPull ?ref = ref" by (simp add: RefForPull_def)
    have fm: "find_manifest (get_repo ?m2 repo) (RefForPull ?ref) = Some (?d, data, ?mt)" if "\<not> is_sha ref"
      using that unfolding rp by (simp add: find_manifest_def get_put_repo put_manifest_def Let_def map_of_kv_put)
    have ad: "admitted ?m2 c'" using a(2) by (simp add: admitted_def)
    have mt: "?mt \<noteq> []" by (simp add: MediaTypeOCIManifest_def)
    from GetManifest_mem [OF h r _ ad _ _ fm mt l] f show ?thesis unfolding rp by fastforce
  qed
  ultimately have "\<exists>m'. PutManifest (mem_net cd) c m h repo ref mt data = (m', Inr (content_descriptor mt data))
      \<and> (\<forall>qs. \<exists>rm. snd (GetManifest (mem_net cd) c' (serve_all (ServeHTTP cd) m' qs)
               \<lparr> rfRegistry = h, rfRepository = repo, rfTag = t, rfDigest = Digest data \<rparr>) = Inr rm
           \<and> (rmBytes rm = data \<or> collide {rmBytes rm} {data}))
      \<and> (is_sha ref \<or> ref = [] \<or> (\<exists>rm. snd (GetManifest (mem_net cd) c' m'
               \<lparr> rfRegistry = h, rfRepository = repo, rfTag = ref, rfDigest = [] \<rparr>) = Inr rm \<and> rmBytes rm = data))"
    using m2 by blast
  with blob show ?thesis by (rule conjI)
qed

theorem registry_roundtrip_witness:
  "\<forall>cd. \<exists>m'. PutBlob (mem_net cd) (New []) NewMemoryRegistry ''localhost:5000'' ''team/app'' ''layer''
     = (m', Inr (content_descriptor ''application/octet-stream'' ''layer''))"
proof
  fix cd
  have "registry_ok NewMemoryRegistry" by (simp add: registry_ok_def NewMemoryRegistry_def)
  moreover have "host_name ''localhost:5000''" "repo_name ''team/app''" "ref_name ''v1''" by (simp_all add: host_name_def repo_name_def ref_name_def)
  moreover have "admitted NewMemoryRegistry (New [])" by (simp add: admitted_def NewMemoryRegistry_def)
  moreover have "length ''layer'' \<le> maxManifestBytes" by (simp add: maxManifestBytes_def)
  ultimately show "\<exists>m'. PutBlob (mem_net cd) (New []) NewMemoryRegistry ''localhost:5000'' ''team/app'' ''layer''
     = (m', Inr (content_descriptor ''application/octet-stream'' ''layer''))"
    using registry_roundtrip [of NewMemoryRegistry "''localhost:5000''" "''team/app''" "''v1''" "New []" "New []" "''layer''" cd] by blast
qed

end
