(* ===== verification/RegReferrers.thy ===== *)
theory RegReferrers
  imports RegRound
begin

text \<open>
  Attaching artifacts to an image and finding them again: referrers over the in-memory registry.
  What is attached is listed, and what a query with a type filter misses.
\<close>

subsection \<open>A codec\<close>

text \<open>
  An executable codec with the round trips that the JSON encoding has: fields as a list of strings, each
  escaped and terminated. The theorems on referrers ask for the round trips only.
\<close>

fun enc_strs :: "string list \<Rightarrow> bytes" where
  "enc_strs [] = []"
| "enc_strs (s # ss) = concat (map (\<lambda>c. [CHR ''1'', c]) s) @ CHR ''0'' # enc_strs ss"

fun dec_strs :: "string \<Rightarrow> bytes \<Rightarrow> string list" where
  "dec_strs acc (x # y # r) = (if x = CHR ''1'' then dec_strs (acc @ [y]) r else acc # dec_strs [] (y # r))"
| "dec_strs acc [x] = [acc]"
| "dec_strs acc [] = []"

lemma dec_enc_str: "dec_strs acc (concat (map (\<lambda>c. [CHR ''1'', c]) s) @ CHR ''0'' # r) = (acc @ s) # dec_strs [] r"
  by (induction s arbitrary: acc) (cases r, auto)

lemma dec_enc [simp]: "dec_strs [] (enc_strs ss) = ss"
  by (induction ss) (auto simp: dec_enc_str)

declare enc_strs.simps [simp del] dec_strs.simps [simp del]

definition enc_int :: "int \<Rightarrow> string" where
  "enc_int i = (if i < 0 then CHR ''-'' # replicate (nat (- i)) CHR ''1'' else replicate (nat i) CHR ''1'')"

definition dec_int :: "string \<Rightarrow> int" where
  "dec_int s = (case s of c # r \<Rightarrow> if c = CHR ''-'' then - int (length r) else int (length s) | [] \<Rightarrow> 0)"

lemma dec_enc_int [simp]: "dec_int (enc_int i) = i"
  by (cases "nat i") (auto simp: dec_int_def enc_int_def)

fun enc_pairs :: "(string \<times> string) list \<Rightarrow> string list" where
  "enc_pairs [] = []"
| "enc_pairs ((k, v) # ps) = k # v # enc_pairs ps"

fun dec_pairs :: "string list \<Rightarrow> (string \<times> string) list" where
  "dec_pairs (k # v # ps) = (k, v) # dec_pairs ps"
| "dec_pairs _ = []"

lemma dec_enc_pairs [simp]: "dec_pairs (enc_pairs ps) = ps"
  by (induction ps rule: enc_pairs.induct) auto

definition enc_desc :: "descriptor \<Rightarrow> string" where
  "enc_desc d = enc_strs (dsMediaType d # dsDigest d # enc_int (dsSize d) # dsArtifactType d # enc_pairs (dsAnnotations d))"

definition dec_desc :: "string \<Rightarrow> descriptor" where
  "dec_desc s = (case dec_strs [] s of mt # dg # sz # t # ps \<Rightarrow>
     \<lparr> dsMediaType = mt, dsDigest = dg, dsSize = dec_int sz, dsArtifactType = t, dsAnnotations = dec_pairs ps \<rparr>)"

lemma dec_enc_desc [simp]: "dec_desc (enc_desc d) = d"
  by (simp add: dec_desc_def enc_desc_def)

definition text_codec :: codec where
  "text_codec = \<lparr>
     cdManifest = (\<lambda>m. enc_strs (enc_int (mnSchemaVersion m) # mnMediaType m # mnArtifactType m # enc_desc (mnConfig m)
       # enc_strs (map enc_desc (mnLayers m)) # enc_strs (case mnSubject m of None \<Rightarrow> [] | Some d \<Rightarrow> [enc_desc d])
       # enc_pairs (mnAnnotations m))),
     cdUnManifest = (\<lambda>b. case dec_strs [] b of v # mt # t # cfg # lys # sub # ps \<Rightarrow>
         Some \<lparr> mnSchemaVersion = dec_int v, mnMediaType = mt, mnArtifactType = t, mnConfig = dec_desc cfg,
           mnLayers = map dec_desc (dec_strs [] lys), mnSubject = (case dec_strs [] sub of [] \<Rightarrow> None | d # _ \<Rightarrow> Some (dec_desc d)),
           mnAnnotations = dec_pairs ps \<rparr> | _ \<Rightarrow> None),
     cdIndex = (\<lambda>i. enc_strs (enc_int (ixSchemaVersion i) # ixMediaType i # enc_strs (map enc_desc (ixManifests i))
       # enc_pairs (ixAnnotations i))),
     cdUnIndex = (\<lambda>b. case dec_strs [] b of v # mt # ms # ps \<Rightarrow>
         Some \<lparr> ixSchemaVersion = dec_int v, ixMediaType = mt, ixManifests = map dec_desc (dec_strs [] ms), ixAnnotations = dec_pairs ps \<rparr>
       | _ \<Rightarrow> None),
     cdTags = (\<lambda>n ts. enc_strs ts), cdUnTags = (\<lambda>b. Some (dec_strs [] b)) \<rparr>"

definition codec_ok :: "codec \<Rightarrow> bool" where
  "codec_ok cd \<longleftrightarrow> (\<forall>m. cdUnManifest cd (cdManifest cd m) = Some m) \<and> (\<forall>i. cdUnIndex cd (cdIndex cd i) = Some i)"

lemma text_codec_ok: "codec_ok text_codec"
proof -
  have "cdUnManifest text_codec (cdManifest text_codec m) = Some m" for m
    by (cases "mnSubject m") (simp_all add: text_codec_def comp_def)
  moreover have "cdUnIndex text_codec (cdIndex text_codec i) = Some i" for i
    by (simp add: text_codec_def comp_def)
  ultimately show ?thesis by (simp add: codec_ok_def)
qed

subsection \<open>Queries\<close>

definition plus_space :: "string \<Rightarrow> string" where
  "plus_space t = map (\<lambda>c. if c = CHR ''+'' then CHR '' '' else c) t"

text \<open>The filter as the server reads it from the query the client writes.\<close>

lemma Referrers_mem:
  assumes h: "host_name h" and r: "repo_name repo" and a: "admitted m c" and v: "validateDigest subj = None"
    and t: "set t \<inter> set ''#%;&'' = {}"
    and cd: "codec_ok cd"
  shows "Referrers (mem_net cd) cd c m h repo subj t
    = (put_repo m repo (get_repo m repo), Inr (filterByArtifactType (referrersIndex cd (get_repo m repo) subj (plus_space t)) t))"
proof -
  from validateDigest_shape [OF v] obtain x where x: "subj = ''sha256:'' @ x" "list_all isHexLower x" by blast
  have hx: "set x \<inter> set ''#?%/'' = {}"
  proof -
    have "y \<notin> set ''#?%/''" if "isHexLower y" for y using that by (auto simp: isHexLower_def)
    then show ?thesis using x(2) by (auto simp: list_all_iff)
  qed
  have sl: "slash \<notin> set subj" "set subj \<inter> set ''#?%'' = {}" using hx x(1) by auto
  have p: "set (repo @ ''/referrers/'' @ subj) \<inter> set ''#?%'' = {}" by (rule path_chars [OF r sl(2)]) simp
  let ?q = "\<lambda>qs. to_server c ''GET'' (repo @ ''/referrers/'' @ subj) qs [] []"
  let ?ix = "referrersIndex cd (get_repo m repo) subj (plus_space t)"
  have rt: "splitAPIPath (rqPath (?q qs)) = Some (repo, ''referrers'', subj)" for qs
    using route_referrers [OF r sl(1)] by (simp add: to_server_def)
  have s: "ServeHTTP cd m (?q qs) = (put_repo m repo (get_repo m repo), \<lparr> rsStatus = 200,
         rsHeaders = (''Content-Type'', MediaTypeOCIIndex) # (if plus_space t \<noteq> [] then [(''OCI-Filters-Applied'', ''artifactType'')] else []),
         rsBody = cdIndex cd ?ix \<rparr>)" if "kv_str qs ''artifactType'' = plus_space t" for qs
    unfolding serve_routed [OF rt repo_ne [OF r] admitted_header [OF a]]
    using that by (simp add: handleReferrers_def to_server_def Let_def)
  have dc: "cdUnIndex cd (cdIndex cd ?ix) = Some ?ix" using cd by (simp add: codec_ok_def)
  show ?thesis
  proof (cases "t = []")
    case True
    have k: "kv_str [] ''artifactType'' = plus_space t" using True by (simp add: kv_str_def plus_space_def)
    have "rsStatus (snd (ServeHTTP cd m (?q []))) \<noteq> 401" unfolding s [OF k] by simp
    note dm = do_mem(1) [OF h p this, unfolded s [OF k] fst_conv snd_conv]
    have url: "baseURL c h @ ''/'' @ repo @ ''/referrers/'' @ subj @ (if t \<noteq> [] then ''?artifactType='' @ t else [])
        = baseURL c h @ ''/'' @ (repo @ ''/referrers/'' @ subj)" using True by simp
    show ?thesis unfolding Referrers_def v option.case url dm using dc by simp
  next
    case False
    have q: "url_Query (''artifactType='' @ t) = [(''artifactType'', plus_space t)]"
      using query_single [of "''artifactType''" t] t by (simp add: plus_space_def disjoint_insert)
    have k: "kv_str (url_Query (''artifactType='' @ t)) ''artifactType'' = plus_space t"
      unfolding q by (simp add: kv_str_def)
    have n: "CHR ''#'' \<notin> set (''artifactType='' @ t)" using t by auto
    have "rsStatus (snd (ServeHTTP cd m (?q (url_Query (''artifactType='' @ t))))) \<noteq> 401" unfolding s [OF k] by simp
    note dm = do_mem(2) [OF h p n this, unfolded s [OF k] fst_conv snd_conv]
    have url: "baseURL c h @ ''/'' @ repo @ ''/referrers/'' @ subj @ (if t \<noteq> [] then ''?artifactType='' @ t else [])
        = baseURL c h @ ''/'' @ (repo @ ''/referrers/'' @ subj) @ ''?'' @ ''artifactType='' @ t" using False by simp
    show ?thesis unfolding Referrers_def v option.case url dm using dc by simp
  qed
qed

lemma set_sortDescriptors [simp]: "set (sortDescriptors ds) = set ds"
  by (simp add: sortDescriptors_def)

lemma referrers_type: "d \<in> set (referrers_of cd subj fl ms) \<Longrightarrow> fl \<noteq> [] \<Longrightarrow> dsArtifactType d = fl"
  by (induction cd subj fl ms rule: referrers_of.induct) (auto split: option.splits if_splits)

lemma referrers_mono: "set (referrers_of cd subj fl ms) \<subseteq> set (referrers_of cd subj fl (p # ms))"
  by (cases p) (auto split: option.splits)

lemma referrers_member:
  assumes "(digest, b, mt) \<in> set ms" "cdUnManifest cd b = Some man" "mnSubject man = Some sub" "dsDigest sub = subj"
    "fl \<noteq> [] \<longrightarrow> mnArtifactType man = fl"
  shows "\<lparr> dsMediaType = mt, dsDigest = digest, dsSize = int (length b), dsArtifactType = mnArtifactType man,
     dsAnnotations = mnAnnotations man \<rparr> \<in> set (referrers_of cd subj fl ms)"
  using assms(1)
proof (induction ms)
  case (Cons p ms)
  show ?case
  proof (cases "p = (digest, b, mt)")
    case True
    have n: "\<not> (fl \<noteq> [] \<and> mnArtifactType man \<noteq> fl)" using assms(5) by blast
    show ?thesis
      by (simp only: True referrers_of.simps assms(2-4) option.case n if_False not_True_eq_False simp_thms list.set insertI1)
  next
    case False
    with Cons have "\<lparr> dsMediaType = mt, dsDigest = digest, dsSize = int (length b), dsArtifactType = mnArtifactType man,
      dsAnnotations = mnAnnotations man \<rparr> \<in> set (referrers_of cd subj fl ms)" by auto
    with referrers_mono show ?thesis by blast
  qed
qed simp

text \<open>
  An artifact whose type has a plus sign is not found by that type: the client
  writes it unescaped into the query, the server reads a space. The answer is an empty index in every
  state of the registry, an error in none.
\<close>

theorem plus_type_invisible:
  assumes "host_name h" "repo_name repo" "admitted m c" "validateDigest subj = None" "codec_ok cd"
    and t: "set t \<inter> set ''#%;&'' = {}" "CHR ''+'' \<in> set t"
  shows "\<exists>m' idx. Referrers (mem_net cd) cd c m h repo subj t = (m', Inr idx) \<and> ixManifests idx = []"
proof -
  have ne: "plus_space t \<noteq> []" using t(2) by (auto simp: plus_space_def)
  have "CHR ''+'' \<notin> set (plus_space t)" by (auto simp: plus_space_def)
  then have "plus_space t \<noteq> t" using t(2) by metis
  then have "filter (\<lambda>d. dsArtifactType d = t) (ixManifests (referrersIndex cd (get_repo m repo) subj (plus_space t))) = []"
    using ne by (auto simp: referrersIndex_def filter_empty_conv dest: referrers_type)
  then show ?thesis
    using Referrers_mem [OF assms(1-4) t(1) assms(5)] t(2) by (auto simp: filterByArtifactType_def)
qed

theorem plus_type_invisible_witness:
  "\<exists>m' idx. Referrers (mem_net text_codec) text_codec (New []) NewMemoryRegistry ''localhost:5000'' ''team/app'' (Digest ''x'')
     ''application/spdx+json'' = (m', Inr idx) \<and> ixManifests idx = []"
proof (rule plus_type_invisible)
  show "host_name ''localhost:5000''" "repo_name ''team/app''" by (simp_all add: host_name_def repo_name_def)
  show "admitted NewMemoryRegistry (New [])" by (simp add: admitted_def NewMemoryRegistry_def)
qed (simp_all add: text_codec_ok)

subsection \<open>Attaching\<close>

lemma content_type [simp]: "(content_descriptor mt data)\<lparr> dsMediaType := t \<rparr> = content_descriptor t data"
  by (simp add: content_descriptor_def)

lemma steps_keep:
  assumes "registry_step\<^sup>*\<^sup>* m m'"
  shows "registry_ok m \<Longrightarrow> registry_ok m'" "mgRequireAuth m' = mgRequireAuth m"
  using assms by (induction rule: rtranclp_induct) (auto simp: registry_step_ok step_keeps)

text \<open>The manifest that attaches an artifact.\<close>

definition attachment :: "codec \<Rightarrow> string \<Rightarrow> string \<Rightarrow> bytes \<Rightarrow> (string \<times> string) list \<Rightarrow> bytes" where
  "attachment cd subj t artifact anns = cdManifest cd
     (referrer_manifest subj t (content_descriptor MediaTypeEmptyJSON ''{}'') (content_descriptor t artifact) anns)"

lemma PutReferrer_mem:
  assumes h: "host_name h" and r: "repo_name repo" and a: "admitted m c" and v: "validateDigest subj = None"
    and l: "length artifact \<le> maxManifestBytes" "length (attachment cd subj t artifact anns) \<le> maxManifestBytes"
  shows "\<exists>m' d. PutReferrer (mem_net cd) cd c m h repo subj t artifact anns = (m', Inr d) \<and> registry_step\<^sup>*\<^sup>* m m'
     \<and> dsDigest d = Digest (attachment cd subj t artifact anns) \<and> dsArtifactType d = t
     \<and> holds_manifest repo (Digest (attachment cd subj t artifact anns)) m'"
proof -
  let ?man = "attachment cd subj t artifact anns"
  obtain m1 where m1: "PutBlob (mem_net cd) c m h repo artifact = (m1, Inr (content_descriptor ''application/octet-stream'' artifact))"
      "registry_step\<^sup>*\<^sup>* m m1"
    using PutBlob_mem [OF h r a l(1)] by blast
  have a1: "admitted m1 c" using a steps_keep(2) [OF m1(2)] by (simp add: admitted_def)
  have "length ''{}'' \<le> maxManifestBytes" by (simp add: maxManifestBytes_def)
  then obtain m2 where m2: "PutBlob (mem_net cd) c m1 h repo ''{}'' = (m2, Inr (content_descriptor ''application/octet-stream'' ''{}''))"
      "registry_step\<^sup>*\<^sup>* m1 m2"
    using PutBlob_mem [OF h r a1] by blast
  have a2: "admitted m2 c" using a1 steps_keep(2) [OF m2(2)] by (simp add: admitted_def)
  let ?m3 = "put_repo m2 repo (put_manifest (get_repo m2 repo) (Digest ?man) MediaTypeOCIManifest ?man)"
  note m3 = PutManifest_mem [where cd = cd and mt = MediaTypeOCIManifest, OF h r ref_digest [of ?man] a2 l(2)]
  have "PutReferrer (mem_net cd) cd c m h repo subj t artifact anns
      = (?m3, Inr ((content_descriptor MediaTypeOCIManifest ?man)\<lparr> dsArtifactType := t, dsAnnotations := anns \<rparr>))"
    unfolding PutReferrer_def v option.case m1(1) m2(1) prod.case sum.case content_type Let_def attachment_def [symmetric] by (simp add: m3)
  moreover have "registry_step\<^sup>*\<^sup>* m ?m3"
    using m1(2) m2(2) stored_manifest [OF l(2), of m2 repo "Digest ?man" MediaTypeOCIManifest]
    by (meson r_into_rtranclp rtranclp_trans)
  moreover have "holds_manifest repo (Digest ?man) ?m3" by (simp add: holds_manifest_def get_put_repo map_of_kv_put)
  ultimately show ?thesis by (auto simp: content_descriptor_def)
qed


lemma length_enc_strs: "length (enc_strs ss) = sum_list (map (\<lambda>s. 2 * length s + 1) ss)"
  by (induction ss) (auto simp: enc_strs.simps length_concat comp_def sum_list_triv)

lemma length_Digest: "length (Digest b) = 71"
  by (simp add: Digest_def hex_encode_length sha256_length)

lemma small_attachment: "length (attachment text_codec (Digest ''x'') ''t'' ''sig'' []) \<le> maxManifestBytes"
  by (simp add: attachment_def text_codec_def referrer_manifest_def content_descriptor_def enc_desc_def length_enc_strs
      length_Digest enc_int_def MediaTypeOCIManifest_def MediaTypeEmptyJSON_def maxManifestBytes_def)


end
