(* ===== verification/VerifyFetch.thy ===== *)
theory VerifyFetch
  imports SupplyChain RegReferrers
begin

text \<open>
  The inputs of the verification module, \<^verbatim>\<open>internal/modules/verify/module.go\<close>: configuration and bundle
  from files, the bundle from a registry by its referrers, and the whole of \<^verbatim>\<open>Analyze\<close>. Files, layouts
  and the JSON decoders are parameters, the registry is the client of the registry theories.
\<close>

record verifyIO =
  viRead :: "string \<Rightarrow> bytes option"
  viLayout :: "string \<Rightarrow> (string list \<Rightarrow> bytes option) option"
  viConfig :: "bytes \<Rightarrow> verifyConfig option"
  viTrust :: "bytes \<Rightarrow> trustConfig option"
  viBundle :: "bytes \<Rightarrow> sigBundle option"
  viIndex :: "bytes \<Rightarrow> (string \<times> string) list option"

datatype fetchErr = FRead string | FParse string | FSig sig_err | FRef ref_err | FClient clientErr | FNilBundle

definition zeroConfig :: verifyConfig where
  "zeroConfig = \<lparr> vcTrust = \<lparr> tcKeys = [], tcPolicy = \<lparr> poIdentities = [], poIssuers = [] \<rparr> \<rparr>,
     vcLogPublicKeyPEM = [], vcRequireAttestations = [], vcRequireTransparencyLog = False, vcEnableAgentActions = False \<rparr>"

definition loadConfig :: "crypto \<Rightarrow> verifyIO \<Rightarrow> (string \<times> string) list \<Rightarrow> fetchErr + verifyConfig \<times> bool" where
  "loadConfig cr io md =
     (if kv_str md ''verify.config'' \<noteq> [] then
        (case viRead io (kv_str md ''verify.config'') of None \<Rightarrow> Inl (FRead ''verify.config'')
         | Some b \<Rightarrow> (case viConfig io b of None \<Rightarrow> Inl (FParse ''verify.config'') | Some c \<Rightarrow> Inr (c, True)))
      else if kv_str md ''verify.trust'' \<noteq> [] then
        (case viRead io (kv_str md ''verify.trust'') of None \<Rightarrow> Inl (FRead ''verify.trust'')
         | Some b \<Rightarrow> (case viTrust io b of None \<Rightarrow> Inl (FParse ''verify.trust'')
             | Some t \<Rightarrow> (case trustConfig_Build cr t of Inl e \<Rightarrow> Inl (FSig e)
                 | Inr _ \<Rightarrow> Inr (zeroConfig\<lparr> vcTrust := t \<rparr>, True))))
      else Inr (zeroConfig, False))"

definition resolveImageDigest :: "verifyIO \<Rightarrow> (string \<times> string) list \<Rightarrow> target \<Rightarrow> string" where
  "resolveImageDigest io md t =
     (let d = kv_str md ''image.digest'' in
      if d \<noteq> [] \<and> SigEnvelope.validateDigest d = None then d
      else if tType t = ''image'' \<and> tLocation t \<noteq> [] then
        (case viLayout io (tLocation t) of None \<Rightarrow> []
         | Some rd \<Rightarrow> if rd [''index.json''] = None then []
             else (case ManifestDigestFromLayout (viIndex io) rd of Inr dg \<Rightarrow> dg | Inl e \<Rightarrow> []))
      else [])"

fun fetch_loop :: "'s net \<Rightarrow> codec \<Rightarrow> verifyIO \<Rightarrow> client \<Rightarrow> reference \<Rightarrow> 's \<Rightarrow> descriptor list \<Rightarrow> 's \<times> (fetchErr + sigBundle option)" where
  "fetch_loop net cd io c ref s [] = (s, Inr None)"
| "fetch_loop net cd io c ref s (d # ds) =
     (case GetManifest net c s \<lparr> rfRegistry = rfRegistry ref, rfRepository = rfRepository ref, rfTag = [], rfDigest = dsDigest d \<rparr> of
        (s1, Inl e) \<Rightarrow> fetch_loop net cd io c ref s1 ds
      | (s1, Inr rm) \<Rightarrow>
          (case cdUnManifest cd (rmBytes rm) of None \<Rightarrow> fetch_loop net cd io c ref s1 ds
           | Some man \<Rightarrow>
               (case mnLayers man of [] \<Rightarrow> fetch_loop net cd io c ref s1 ds
                | ly # _ \<Rightarrow>
                    (case GetBlob net c s1 (rfRegistry ref) (rfRepository ref) (dsDigest ly) of
                       (s2, Inl e) \<Rightarrow> fetch_loop net cd io c ref s2 ds
                     | (s2, Inr blob) \<Rightarrow> (s2, case ParseBundle (viBundle io) blob of Inl e \<Rightarrow> Inl (FSig e) | Inr b \<Rightarrow> Inr (Some b))))))"

definition fetchBundleFromRegistry :: "'s net \<Rightarrow> codec \<Rightarrow> verifyIO \<Rightarrow> 's \<Rightarrow> string \<Rightarrow> string \<Rightarrow> bool \<Rightarrow> 's \<times> (fetchErr + sigBundle option)" where
  "fetchBundleFromRegistry net cd io s ref imageDigest plain =
     (case ParseReference ref of Inl e \<Rightarrow> (s, Inl (FRef e))
      | Inr parsed \<Rightarrow>
          (let c = New (if plain then [WithPlainHTTP] else []) in
           case (if imageDigest = [] then ResolveDigest net c s parsed else (s, Inr imageDigest)) of
             (s1, Inl e) \<Rightarrow> (s1, Inl (FClient e))
           | (s1, Inr digest) \<Rightarrow>
               (case Referrers net cd c s1 (rfRegistry parsed) (rfRepository parsed) digest BundleMediaType of
                  (s2, Inl e) \<Rightarrow> (s2, Inl (FClient e))
                | (s2, Inr idx) \<Rightarrow> fetch_loop net cd io c parsed s2 (ixManifests idx))))"

definition loadBundle :: "'s net \<Rightarrow> codec \<Rightarrow> verifyIO \<Rightarrow> 's \<Rightarrow> (string \<times> string) list \<Rightarrow> target \<Rightarrow> string \<Rightarrow> 's \<times> (fetchErr + sigBundle option)" where
  "loadBundle net cd io s md t imageDigest =
     (if kv_str md ''verify.bundle'' \<noteq> [] then
        (s, case viRead io (kv_str md ''verify.bundle'') of None \<Rightarrow> Inl (FRead ''verify.bundle'')
            | Some b \<Rightarrow> (case ParseBundle (viBundle io) b of Inl e \<Rightarrow> Inl (FSig e) | Inr bu \<Rightarrow> Inr (Some bu)))
      else if kv_str md ''verify.online'' = ''true'' then
        fetchBundleFromRegistry net cd io s (tLocation t) imageDigest (kv_str md ''verify.registry_plain'' = ''true'')
      else (s, Inr None))"

definition verify_Analyze :: "'s net \<Rightarrow> codec \<Rightarrow> verifyIO \<Rightarrow> venv \<Rightarrow> 's \<Rightarrow> (string \<times> string) list \<Rightarrow> target \<Rightarrow> 's \<times> (fetchErr + finding list)" where
  "verify_Analyze net cd io ev s md t =
     (case loadConfig (veCrypto ev) io md of Inl e \<Rightarrow> (s, Inl e)
      | Inr (cfg, haveCfg) \<Rightarrow>
          (case config_build (veCrypto ev) cfg of Inl e \<Rightarrow> (s, Inl (FSig e))
           | Inr re \<Rightarrow>
               (let imageDigest = resolveImageDigest io md t in
                case loadBundle net cd io s md t imageDigest of (s1, Inl e) \<Rightarrow> (s1, Inl e)
                | (s1, Inr b) \<Rightarrow>
                    (s1, case Analyze ev haveCfg re b imageDigest (tLocation t) of None \<Rightarrow> Inl FNilBundle | Some fs \<Rightarrow> Inr fs))))"

subsection \<open>Online verification\<close>

lemma BundleMediaType_chars: "set BundleMediaType \<inter> set ''#%;&'' = {}" "CHR ''+'' \<in> set BundleMediaType"
  by code_simp+

lemma fetch_memory:
  assumes p: "ParseReference ref = Inr parsed" "host_name (rfRegistry parsed)" "repo_name (rfRepository parsed)"
    and m: "\<not> mgRequireAuth m" and cd: "codec_ok cd" and d: "d \<noteq> []" "RegReference.validateDigest d = None"
  shows "\<exists>m'. fetchBundleFromRegistry (mem_net cd) cd io m ref d plain = (m', Inr None)"
proof -
  have a: "admitted m c" for c using m by (simp add: admitted_def)
  obtain m' idx where "Referrers (mem_net cd) cd (New (if plain then [WithPlainHTTP] else [])) m (rfRegistry parsed) (rfRepository parsed) d
      BundleMediaType = (m', Inr idx)" "ixManifests idx = []"
    using plus_type_invisible [OF p(2,3) a d(2) cd BundleMediaType_chars] by blast
  then show ?thesis using p(1) d(1) by (simp add: fetchBundleFromRegistry_def Let_def)
qed

lemma v_add_findings [simp]: "set (vFindings (v_add v f)) = insert f (set (vFindings v))"
  by (simp add: v_add_def)

lemma require_loop_findings: "set (vFindings v) \<subseteq> set (vFindings (require_loop resource seen v wants))"
proof (induction wants arbitrary: v)
  case (Cons w wants)
  show ?case
    using Cons.IH [of v] Cons.IH [of "v_add v (f_attestMissing w resource)"] by auto
qed simp

lemma sig_validateDigest_Digest: "SigEnvelope.validateDigest (Digest x) = None"
proof -
  have "CHR '':'' \<notin> set ''sha256''" by simp
  from cut_byte_append [OF this, of "hex_encode (sha256 x)"]
  have cut: "cut_byte CHR '':'' (Digest x) = Some (''sha256'', hex_encode (sha256 x))" by (simp add: Digest_def)
  have "isLowerHex ch" if "isHexLower ch" for ch
    using that by (auto simp: isHexLower_def isLowerHex_def)
  then have "list_all isLowerHex (hex_encode (sha256 x))"
    using hex_encode_hexLower [of "sha256 x"] by (auto simp: list_all_iff)
  then show ?thesis
    by (simp add: SigEnvelope.validateDigest_def strings_Cut_def cut hex_encode_length sha256_length)
qed


definition trust1 :: trustConfig where
  "trust1 = \<lparr> tcKeys = [\<lparr> tckPublicKeyPEM = ''1 Tk'', tckIdentity = ''ci'', tckIssuer = [] \<rparr>], tcPolicy = \<lparr> poIdentities = [], poIssuers = [] \<rparr> \<rparr>"

definition io1 :: verifyIO where
  "io1 = \<lparr> viRead = (\<lambda>p. Some []), viLayout = (\<lambda>p. None), viConfig = (\<lambda>b. None), viTrust = (\<lambda>b. Some trust1),
     viBundle = (\<lambda>b. None), viIndex = (\<lambda>b. None) \<rparr>"

lemma trust1_build: "\<exists>t. trustConfig_Build crypto0 trust1 = Inr (t, \<lparr> poIdentities = [], poIssuers = [] \<rparr>) \<and> dom t \<noteq> {}"
proof -
  have p: "crPemDecode crypto0 ''1 Tk'' = Some (''T'', ''k'')" by code_simp
  have k: "crParsePKIX crypto0 b = Some (Ed25519Pub b)" "KeyID crypto0 (Ed25519Pub b) = Inr (hex_encode (sha256 b))" for b
    by (simp_all add: crypto0_def KeyID_def)
  have v: "LoadVerifierPEM crypto0 ''1 Tk'' = Inr (Ed25519Verifier ''k'' (hex_encode (sha256 ''k'')))"
    by (simp add: LoadVerifierPEM_def p k VerifierFromPublicKey_def algorithmFor_def)
  show ?thesis
    by (simp add: trustConfig_Build_def trust1_def v trust_Add_def)
qed


text \<open>
  A tag resolved online is not what gets verified: the digest stays inside the fetch, and the
  bundle is checked against its own subject, whatever the tag points at.
\<close>

lemma online_binds_bundle_only:
  assumes "resolveImageDigest io md t = []"
    and "loadConfig (veCrypto ev) io md = Inr (cfg, h)" "config_build (veCrypto ev) cfg = Inr re"
    and "snd (fetchBundleFromRegistry net cd io s (tLocation t) [] (kv_str md ''verify.registry_plain'' = ''true'')) = Inr (Some b)"
    and "kv_str md ''verify.bundle'' = []" "kv_str md ''verify.online'' = ''true''"
  shows "snd (verify_Analyze net cd io ev s md t)
    = (case Analyze ev h re (Some b) [] (tLocation t) of None \<Rightarrow> Inl FNilBundle | Some fs \<Rightarrow> Inr fs)"
  using assms by (cases "fetchBundleFromRegistry net cd io s (tLocation t) [] (kv_str md ''verify.registry_plain'' = ''true'')")
    (simp add: verify_Analyze_def loadBundle_def)

end
