(* ===== verification/RtEvent.thy ===== *)
theory RtEvent
  imports GoPath GoData GoEncoding EngineModel
begin

text \<open>
  The telemetry model and shared signatures of the runtime sensor: \<^verbatim>\<open>event.go\<close>, \<^verbatim>\<open>state.go\<close>,
  \<^verbatim>\<open>detection.go\<close>, \<^verbatim>\<open>attack.go\<close>, \<^verbatim>\<open>signatures.go\<close> and the baseline of \<^verbatim>\<open>baseline.go\<close> in
  \<^verbatim>\<open>internal/runtime\<close>. Sequence numbers are 64-bit words; sets that only grow are lists without
  repetitions, maps are association lists. Strings are bytes; upper and lower case are ASCII.
\<close>

subsection \<open>Events\<close>

record containerInfo =
  ciID :: string
  ciName :: string
  ciImageID :: string
  ciImageRef :: string
  ciRuntime :: string
  ciPrivileged :: bool
  ciAIAgent :: bool

record processInfo =
  piPID :: int
  piPPID :: int
  piComm :: string
  piExe :: string
  piArgs :: "string list"
  piUID :: int
  piGID :: int
  piCgroupID :: nat
  piAncestry :: "string list"
  piCaps :: "string list"
  piTTY :: bool
  piStdioSocket :: bool

record fileEvent =
  fePath :: string
  feOp :: string
  feFlags :: string
  feMode :: "32 word"
  feTargetUID :: int

record networkEvent =
  neOp :: string
  neProto :: string
  neLocalAddr :: string
  neRemoteIP :: string
  neRemotePort :: int
  neDomain :: string
  neDirection :: string

record syscallEvent =
  scName :: string
  scRetval :: int
  scArgs :: "(string \<times> string) list"

record event =
  evSeq :: "64 word"
  evTime :: int
  evKind :: string
  evContainer :: containerInfo
  evProcess :: processInfo
  evFile :: "fileEvent option"
  evNetwork :: "networkEvent option"
  evSyscall :: "syscallEvent option"
  evLabels :: "(string \<times> string) list"

definition KindProcess :: string where "KindProcess = ''process''"
definition KindFile :: string where "KindFile = ''file''"
definition KindNetwork :: string where "KindNetwork = ''network''"
definition KindSyscall :: string where "KindSyscall = ''syscall''"

lemmas kind_defs = KindProcess_def KindFile_def KindNetwork_def KindSyscall_def

lemma kinds_distinct [simp]:
  "KindProcess \<noteq> KindFile" "KindProcess \<noteq> KindNetwork" "KindProcess \<noteq> KindSyscall" "KindFile \<noteq> KindProcess"
  "KindFile \<noteq> KindNetwork" "KindFile \<noteq> KindSyscall" "KindNetwork \<noteq> KindProcess" "KindNetwork \<noteq> KindFile"
  "KindNetwork \<noteq> KindSyscall" "KindSyscall \<noteq> KindProcess" "KindSyscall \<noteq> KindFile" "KindSyscall \<noteq> KindNetwork"
  by (simp_all add: kind_defs)

definition event_label :: "event \<Rightarrow> string \<Rightarrow> string" where
  "event_label ev k = kv_str (evLabels ev) k"

subsection \<open>Techniques\<close>

record technique =
  teID :: string
  teName :: string
  teTactic :: string
  teURL :: string

definition techEscapeToHost :: technique where
  "techEscapeToHost = \<lparr> teID = ''T1611'', teName = ''Escape to Host'', teTactic = ''Privilege Escalation'',
     teURL = ''https://attack.mitre.org/techniques/T1611/'' \<rparr>"
definition techUnixShell :: technique where
  "techUnixShell = \<lparr> teID = ''T1059.004'', teName = ''Command and Scripting Interpreter: Unix Shell'', teTactic = ''Execution'',
     teURL = ''https://attack.mitre.org/techniques/T1059/004/'' \<rparr>"
definition techIngressTool :: technique where
  "techIngressTool = \<lparr> teID = ''T1105'', teName = ''Ingress Tool Transfer'', teTactic = ''Command and Control'',
     teURL = ''https://attack.mitre.org/techniques/T1105/'' \<rparr>"
definition techCloudIMDS :: technique where
  "techCloudIMDS = \<lparr> teID = ''T1552.005'', teName = ''Unsecured Credentials: Cloud Instance Metadata API'', teTactic = ''Credential Access'',
     teURL = ''https://attack.mitre.org/techniques/T1552/005/'' \<rparr>"
definition techUnsecuredCred :: technique where
  "techUnsecuredCred = \<lparr> teID = ''T1552'', teName = ''Unsecured Credentials'', teTactic = ''Credential Access'',
     teURL = ''https://attack.mitre.org/techniques/T1552/'' \<rparr>"
definition techStealToken :: technique where
  "techStealToken = \<lparr> teID = ''T1528'', teName = ''Steal Application Access Token'', teTactic = ''Credential Access'',
     teURL = ''https://attack.mitre.org/techniques/T1528/'' \<rparr>"
definition techResourceHijack :: technique where
  "techResourceHijack = \<lparr> teID = ''T1496'', teName = ''Resource Hijacking'', teTactic = ''Impact'',
     teURL = ''https://attack.mitre.org/techniques/T1496/'' \<rparr>"
definition techAppLayerC2 :: technique where
  "techAppLayerC2 = \<lparr> teID = ''T1071'', teName = ''Application Layer Protocol'', teTactic = ''Command and Control'',
     teURL = ''https://attack.mitre.org/techniques/T1071/'' \<rparr>"
definition techKernelModule :: technique where
  "techKernelModule = \<lparr> teID = ''T1547.006'', teName = ''Boot or Logon Autostart Execution: Kernel Modules and Extensions'', teTactic = ''Persistence'',
     teURL = ''https://attack.mitre.org/techniques/T1547/006/'' \<rparr>"
definition techRootkit :: technique where
  "techRootkit = \<lparr> teID = ''T1014'', teName = ''Rootkit'', teTactic = ''Defense Evasion'',
     teURL = ''https://attack.mitre.org/techniques/T1014/'' \<rparr>"
definition techElevControl :: technique where
  "techElevControl = \<lparr> teID = ''T1548'', teName = ''Abuse Elevation Control Mechanism'', teTactic = ''Privilege Escalation'',
     teURL = ''https://attack.mitre.org/techniques/T1548/'' \<rparr>"
definition techPromptInject :: technique where
  "techPromptInject = \<lparr> teID = ''T1059'', teName = ''Command and Scripting Interpreter'', teTactic = ''Execution'',
     teURL = ''https://attack.mitre.org/techniques/T1059/'' \<rparr>"
definition techHijackExecFlow :: technique where
  "techHijackExecFlow = \<lparr> teID = ''T1574.006'', teName = ''Hijack Execution Flow: Dynamic Linker Hijacking'', teTactic = ''Persistence'',
     teURL = ''https://attack.mitre.org/techniques/T1574/006/'' \<rparr>"
definition techReflectiveLoad :: technique where
  "techReflectiveLoad = \<lparr> teID = ''T1620'', teName = ''Reflective Code Loading'', teTactic = ''Defense Evasion'',
     teURL = ''https://attack.mitre.org/techniques/T1620/'' \<rparr>"
subsection \<open>Detections\<close>

record ruleInfo =
  riID :: string
  riTitle :: string
  riSeverity :: severity
  riTechnique :: technique
  riRemediation :: string
  riReferences :: "string list"
  riDescription :: string
  riDefault :: bool

record detection =
  dRuleID :: string
  dSeverity :: severity
  dTitle :: string
  dMessage :: string
  dTechnique :: technique
  dSeq :: "64 word"
  dTime :: int
  dContainer :: containerInfo
  dProcess :: processInfo
  dRemediation :: string
  dReferences :: "string list"
  dMetadata :: "(string \<times> string) list"
  dTrigger :: "event option"

definition strings_Contains :: "string \<Rightarrow> string \<Rightarrow> bool" where
  "strings_Contains s p \<longleftrightarrow> strings_Index s p \<noteq> None"

definition looksHighEntropy :: "string \<Rightarrow> bool" where
  "looksHighEntropy s =
     (let digits = length (filter isDigit s); letters = length (filter isAlpha s);
          other = length (filter (\<lambda>c. \<not> isDigit c \<and> \<not> isAlpha c \<and> \<not> (byte c \<ge> 0x80 \<and> byte c \<le> 0xBF)) s)
      in digits > 0 \<and> letters > 0 \<and> digits + other \<ge> length s div 6)"

definition sensitive_words :: "string list" where
  "sensitive_words = [''password'', ''passwd'', ''secret'', ''token'', ''apikey'', ''api_key'', ''key'', ''credential'']"

definition isSensitiveKey :: "string \<Rightarrow> bool" where
  "isSensitiveKey k = list_ex (strings_Contains (strings_ToLower (trim_left (\<lambda>c. c = CHR ''-'') k))) sensitive_words"

definition redactToken :: "string \<Rightarrow> string" where
  "redactToken tok =
     (case cut_byte (CHR ''='') tok of
        Some (k, v) \<Rightarrow>
          if isSensitiveKey k \<and> v \<noteq> [] then k @ ''=***''
          else if length tok \<ge> 32 \<and> set tok \<inter> {CHR '' '', CHR ''/'', CHR 0x5C} = {} \<and> looksHighEntropy tok then ''***'' else tok
      | None \<Rightarrow>
          if length tok \<ge> 32 \<and> set tok \<inter> {CHR '' '', CHR ''/'', CHR 0x5C} = {} \<and> looksHighEntropy tok then ''***'' else tok)"

definition redactArgs :: "string list \<Rightarrow> string list" where
  "redactArgs args = map redactToken args"

definition redact_event :: "event \<Rightarrow> event" where
  "redact_event ev = ev\<lparr> evProcess := (evProcess ev)\<lparr> piArgs := redactArgs (piArgs (evProcess ev)) \<rparr> \<rparr>"

definition fire :: "ruleInfo \<Rightarrow> event \<Rightarrow> string \<Rightarrow> (string \<times> string) list \<Rightarrow> detection" where
  "fire b ev msg meta =
     (let proc = (evProcess ev)\<lparr> piArgs := redactArgs (piArgs (evProcess ev)) \<rparr> in
      \<lparr> dRuleID = riID b, dSeverity = riSeverity b, dTitle = riTitle b, dMessage = msg, dTechnique = riTechnique b,
        dSeq = evSeq ev, dTime = evTime ev, dContainer = evContainer ev, dProcess = proc,
        dRemediation = riRemediation b, dReferences = riReferences b, dMetadata = meta,
        dTrigger = Some (ev\<lparr> evProcess := proc \<rparr>) \<rparr>)"

fun kv_puts :: "(string \<times> string) list \<Rightarrow> (string \<times> string) list \<Rightarrow> (string \<times> string) list" where
  "kv_puts m [] = m"
| "kv_puts m ((k, v) # kvs) = kv_puts (kv_put k v m) kvs"

definition det_ToFinding :: "detection \<Rightarrow> string \<Rightarrow> finding" where
  "det_ToFinding d module =
     \<lparr> fRuleID = dRuleID d, fModule = module, fSeverity = dSeverity d, fTitle = dTitle d, fDescription = dMessage d,
       fResource = (if ciName (dContainer d) = [] then ciID (dContainer d) else ciName (dContainer d)),
       fLocation = None, fRemediation = dRemediation d,
       fReferences = (if teURL (dTechnique d) \<noteq> [] then teURL (dTechnique d) # dReferences d else dReferences d),
       fMetadata = kv_puts [(''attack_technique'', teID (dTechnique d)), (''attack_tactic'', teTactic (dTechnique d)),
         (''pid'', fmt_int (piPID (dProcess d))), (''event_seq'', fmt_int (uint (dSeq d)))] (dMetadata d) \<rparr>"

definition detection_less :: "detection \<Rightarrow> detection \<Rightarrow> bool" where
  "detection_less = ikey_less (\<lambda>d. uint (dSeq d)) (key_less dRuleID (\<lambda>a b. False))"

definition SortDetections :: "detection list \<Rightarrow> detection list" where
  "SortDetections ds = sort_stable detection_less ds"

subsection \<open>Signatures\<close>

definition shellBinaries :: "string list" where
  "shellBinaries = [''sh'', ''bash'', ''dash'', ''ash'', ''zsh'', ''ksh'', ''csh'', ''tcsh'', ''fish'', ''busybox'']"

definition isShell :: "string \<Rightarrow> string \<Rightarrow> bool" where
  "isShell exe comm \<longleftrightarrow> path_Base exe \<in> set shellBinaries \<or> comm \<in> set shellBinaries"

definition escapeBinaries :: "string list" where
  "escapeBinaries = [''nsenter'', ''unshare'', ''setns'', ''docker'', ''ctr'', ''runc'', ''crictl'', ''kubectl'', ''capsh'']"

definition escapeSyscalls :: "string list" where
  "escapeSyscalls = [''setns'', ''unshare'', ''mount'', ''pivot_root'', ''chroot'']"

definition hostEscapePaths :: "string list" where
  "hostEscapePaths = [''/var/run/docker.sock'', ''/run/docker.sock'', ''/var/run/containerd/containerd.sock'',
     ''/run/containerd/containerd.sock'', ''/proc/1/root'', ''/proc/sys/kernel/core_pattern'',
     ''/sys/fs/cgroup/release_agent'', ''/sys/kernel/uevent_helper'', ''/host'', ''/rootfs'']"

definition sensitiveReadPaths :: "string list" where
  "sensitiveReadPaths = [''/etc/shadow'', ''/etc/gshadow'', ''/root/.ssh/'', ''/proc/kcore'']"

definition credentialPaths :: "string list" where
  "credentialPaths = [''/var/run/secrets/kubernetes.io/serviceaccount/token'',
     ''/var/run/secrets/eks.amazonaws.com/serviceaccount/token'', ''/root/.aws/credentials'', ''/root/.docker/config.json'',
     ''/root/.kube/config'']"

definition sensitiveWritePaths :: "string list" where
  "sensitiveWritePaths = [''/etc/passwd'', ''/etc/shadow'', ''/etc/sudoers'', ''/etc/sudoers.d/'', ''/etc/cron'', ''/var/spool/cron'',
     ''/etc/ld.so.preload'', ''/root/.ssh/authorized_keys'', ''/etc/ssh/'']"

definition isSSHKeyPath :: "string \<Rightarrow> bool" where
  "isSSHKeyPath p \<longleftrightarrow> strings_Contains p ''/.ssh/''
     \<and> (strings_HasSuffix p ''id_rsa'' \<or> strings_HasSuffix p ''id_ed25519'' \<or> strings_HasSuffix p ''id_ecdsa'' \<or> strings_HasSuffix p ''identity'')"

definition prefix_matches :: "string \<Rightarrow> string \<Rightarrow> bool" where
  "prefix_matches clean pre \<longleftrightarrow>
     (if strings_HasSuffix pre ''/'' then strings_HasPrefix clean pre \<or> clean = strings_TrimSuffix pre ''/''
      else clean = pre \<or> strings_HasPrefix clean (pre @ ''/''))"

definition matchesAnyPrefix :: "string \<Rightarrow> string list \<Rightarrow> string option" where
  "matchesAnyPrefix p prefixes = find (prefix_matches (path_Clean p)) prefixes"

definition imdsIPs :: "string list" where
  "imdsIPs = [''169.254.169.254'', ''100.100.100.200'', ''fd00:ec2::254'']"

definition imdsDomains :: "string list" where
  "imdsDomains = [''metadata.google.internal'', ''metadata.goog'', ''instance-data'', ''metadata'']"

definition minerBinaries :: "string list" where
  "minerBinaries = [''xmrig'', ''minerd'', ''cpuminer'', ''cgminer'', ''bfgminer'', ''ethminer'', ''nheqminer'', ''xmr-stak'',
     ''t-rex'', ''phoenixminer'']"

definition minerArgTokens :: "string list" where
  "minerArgTokens = [''stratum+tcp://'', ''stratum+ssl://'', ''--donate-level'', ''--coin=monero'', ''nicehash'', ''randomx'',
     ''--cpu-priority'', ''-o pool.'']"

definition joined_lower :: "string list \<Rightarrow> string" where
  "joined_lower args = strings_ToLower (join_with '' '' args)"

definition looksLikeMiner :: "string \<Rightarrow> string \<Rightarrow> string list \<Rightarrow> string option" where
  "looksLikeMiner exe comm args =
     (if path_Base exe \<in> set minerBinaries then Some (''miner binary '' @ path_Base exe)
      else if comm \<in> set minerBinaries then Some (''miner process '' @ comm)
      else map_option (\<lambda>tok. ''mining argument '' @ tok) (find (strings_Contains (joined_lower args)) minerArgTokens))"

definition kernelModuleSyscalls :: "string list" where
  "kernelModuleSyscalls = [''init_module'', ''finit_module'', ''delete_module'']"

definition fileIsWrite :: "fileEvent \<Rightarrow> bool" where
  "fileIsWrite f \<longleftrightarrow> feOp f \<in> set [''write'', ''unlink'', ''rename'', ''truncate'', ''chmod'', ''chown'', ''create'']
     \<or> strings_Contains (feFlags f) ''O_WRONLY'' \<or> strings_Contains (feFlags f) ''O_RDWR'' \<or> strings_Contains (feFlags f) ''O_CREAT''"

subsection \<open>Keys\<close>

definition containerKey :: "containerInfo \<Rightarrow> string" where
  "containerKey c = (if ciID c \<noteq> [] then ciID c else if ciName c \<noteq> [] then ciName c @ ''@'' @ ciImageRef c else ciImageRef c)"

definition workloadKey :: "containerInfo \<Rightarrow> string" where
  "workloadKey c = (if ciImageID c \<noteq> [] then ciImageID c else ciImageRef c)"

definition workloadImage :: "containerInfo \<Rightarrow> string" where
  "workloadImage c = (if ciImageRef c \<noteq> [] then ciImageRef c else ciImageID c)"

definition endpointKey :: "networkEvent \<Rightarrow> string" where
  "endpointKey n =
     (if neDomain n \<noteq> [] then neDomain n else if neRemoteIP n = [] then []
      else if neRemotePort n \<noteq> 0 then neRemoteIP n @ '':'' @ fmt_int (neRemotePort n) else neRemoteIP n)"

subsection \<open>Baselines\<close>

record profileSets =
  psImage :: string
  psSyscalls :: "string list"
  psExes :: "string list"
  psEndpoints :: "string list"
  psCaps :: "string list"
  psFileReads :: "string list"
  psFileWrites :: "string list"
  psFileExecs :: "string list"
  psNetwork :: bool

type_synonym accumulator = "(string \<times> profileSets) list"

definition new_profileSets :: "containerInfo \<Rightarrow> profileSets" where
  "new_profileSets c = \<lparr> psImage = workloadImage c, psSyscalls = [], psExes = [], psEndpoints = [], psCaps = [],
     psFileReads = [], psFileWrites = [], psFileExecs = [], psNetwork = False \<rparr>"

definition record_kind :: "event \<Rightarrow> profileSets \<Rightarrow> profileSets" where
  "record_kind ev ps =
     (if evKind ev = KindProcess then
        (let ps' = (if piExe (evProcess ev) \<noteq> []
              then ps\<lparr> psExes := set_put (piExe (evProcess ev)) (psExes ps), psFileExecs := set_put (piExe (evProcess ev)) (psFileExecs ps) \<rparr>
              else ps)
         in ps'\<lparr> psSyscalls := set_put ''execve'' (psSyscalls ps') \<rparr>)
      else if evKind ev = KindSyscall then
        (case evSyscall ev of None \<Rightarrow> ps
         | Some s \<Rightarrow> if scName s \<noteq> [] then ps\<lparr> psSyscalls := set_put (scName s) (psSyscalls ps) \<rparr> else ps)
      else if evKind ev = KindNetwork then
        (case evNetwork ev of None \<Rightarrow> ps
         | Some n \<Rightarrow>
             (let ps' = (if endpointKey n \<noteq> [] then ps\<lparr> psEndpoints := set_put (endpointKey n) (psEndpoints ps) \<rparr> else ps)
              in ps'\<lparr> psSyscalls := set_put ''connect'' (psSyscalls ps'), psNetwork := True \<rparr>))
      else if evKind ev = KindFile then
        (let ps' = ps\<lparr> psSyscalls := set_put ''openat'' (psSyscalls ps) \<rparr> in
         case evFile ev of None \<Rightarrow> ps'
         | Some f \<Rightarrow>
             if fePath f = [] then ps'
             else if fileIsWrite f then ps'\<lparr> psFileWrites := set_put (fePath f) (psFileWrites ps') \<rparr>
             else ps'\<lparr> psFileReads := set_put (fePath f) (psFileReads ps') \<rparr>)
      else ps)"

definition record_event :: "event \<Rightarrow> accumulator \<Rightarrow> accumulator" where
  "record_event ev acc =
     (let key = workloadKey (evContainer ev) in
      if key = [] then acc
      else let ps = (case map_of acc key of Some ps \<Rightarrow> ps | None \<Rightarrow> new_profileSets (evContainer ev));
               ps1 = ps\<lparr> psCaps := set_puts (piCaps (evProcess ev)) (psCaps ps) \<rparr>
           in kv_put key (record_kind ev ps1) acc)"

text \<open>\<^verbatim>\<open>sort.SearchStrings\<close>, and the membership test that rests on the slices being sorted.\<close>

function search_strings :: "string list \<Rightarrow> string \<Rightarrow> nat \<Rightarrow> nat \<Rightarrow> nat" where
  "search_strings a x i j =
     (if i < j then (let h = (i + j) div 2 in
        if str_less (a ! h) x then search_strings a x (h + 1) j else search_strings a x i h)
      else i)"
  by pat_completeness auto

termination
  by (relation "measure (\<lambda>(a, x, i, j). j - i)") auto

declare search_strings.simps [simp del]

definition sorted_contains :: "string list \<Rightarrow> string \<Rightarrow> bool" where
  "sorted_contains a v = (let i = search_strings a v 0 (length a) in i < length a \<and> a ! i = v)"

record workloadProfile =
  wpImage :: string
  wpSyscalls :: "string list"
  wpExes :: "string list"
  wpEndpoints :: "string list"
  wpCapabilities :: "string list"
  wpFileReads :: "string list"
  wpFileWrites :: "string list"
  wpFileExecs :: "string list"
  wpNetwork :: bool

record baseline =
  blVersion :: string
  blWorkloads :: "(string \<times> workloadProfile) list"

definition RuleSetVersion :: string where
  "RuleSetVersion = ''ds-rt-2026.07''"

definition freeze_profile :: "profileSets \<Rightarrow> workloadProfile" where
  "freeze_profile ps = \<lparr> wpImage = psImage ps, wpSyscalls = sorted_set (psSyscalls ps), wpExes = sorted_set (psExes ps),
     wpEndpoints = sorted_set (psEndpoints ps), wpCapabilities = sorted_set (psCaps ps), wpFileReads = sorted_set (psFileReads ps),
     wpFileWrites = sorted_set (psFileWrites ps), wpFileExecs = sorted_set (psFileExecs ps), wpNetwork = psNetwork ps \<rparr>"

definition baseline_build :: "accumulator \<Rightarrow> baseline" where
  "baseline_build acc = \<lparr> blVersion = RuleSetVersion, blWorkloads = map (\<lambda>(k, ps). (k, freeze_profile ps)) acc \<rparr>"

subsection \<open>State\<close>

record imageInventory =
  iiImageID :: string
  iiImageRef :: string
  iiBinaries :: "string list"

record rtState =
  stProcs :: "(int \<times> processInfo) list"
  stImages :: "(string \<times> string list) list"
  stExec :: "(string \<times> string list) list"
  stConnect :: "(string \<times> string list) list"
  stAcc :: "accumulator option"

fun seed_images :: "(string \<times> string list) list \<Rightarrow> imageInventory list \<Rightarrow> (string \<times> string list) list" where
  "seed_images m [] = m"
| "seed_images m (img # imgs) =
     (let bs = set_puts (iiBinaries img) [];
          m1 = (if iiImageID img \<noteq> [] then kv_put (iiImageID img) bs m else m);
          m2 = (if iiImageRef img \<noteq> [] then kv_put (iiImageRef img) bs m1 else m1)
      in seed_images m2 imgs)"

definition newState :: "imageInventory list \<Rightarrow> rtState" where
  "newState images = \<lparr> stProcs = [], stImages = seed_images [] images, stExec = [], stConnect = [], stAcc = None \<rparr>"

definition observe :: "event \<Rightarrow> rtState \<Rightarrow> rtState" where
  "observe ev st =
     (if evKind ev = KindProcess \<and> piPID (evProcess ev) \<noteq> 0
      then st\<lparr> stProcs := kv_put (piPID (evProcess ev)) (evProcess ev) (stProcs st) \<rparr> else st)"

definition inventory_of :: "rtState \<Rightarrow> containerInfo \<Rightarrow> string list option" where
  "inventory_of st c =
     (if ciImageID c \<noteq> [] \<and> map_of (stImages st) (ciImageID c) \<noteq> None then map_of (stImages st) (ciImageID c)
      else if ciImageRef c \<noteq> [] then map_of (stImages st) (ciImageRef c) else None)"

text \<open>A per-container record of what has been seen, and whether the value is new.\<close>

definition seen_under :: "(string \<times> string list) list \<Rightarrow> string \<Rightarrow> string list" where
  "seen_under m k = (case map_of m k of None \<Rightarrow> [] | Some s \<Rightarrow> s)"

definition mark :: "(string \<times> string list) list \<Rightarrow> string \<Rightarrow> string \<Rightarrow> (string \<times> string list) list \<times> bool" where
  "mark m k v = (if v \<in> set (seen_under m k) then (m, False) else (kv_put k (set_put v (seen_under m k)) m, True))"

definition markExec :: "string \<Rightarrow> string \<Rightarrow> rtState \<Rightarrow> rtState \<times> bool" where
  "markExec ck exe st = (case mark (stExec st) ck exe of (m, novel) \<Rightarrow> (st\<lparr> stExec := m \<rparr>, novel))"

definition markConnect :: "string \<Rightarrow> string \<Rightarrow> rtState \<Rightarrow> rtState \<times> bool" where
  "markConnect ck ep st = (case mark (stConnect st) ck ep of (m, novel) \<Rightarrow> (st\<lparr> stConnect := m \<rparr>, novel))"

lemma seen_under_mark: "set (seen_under (fst (mark m k v)) k') = (if k' = k then insert v (set (seen_under m k)) else set (seen_under m k'))"
  by (auto simp: mark_def seen_under_def split: option.splits)

lemma mark_novel: "snd (mark m k v) \<longleftrightarrow> v \<notin> set (seen_under m k)"
  by (simp add: mark_def)

end
