(* ===== verification/RtRules.thy ===== *)
theory RtRules
  imports RtEvent
begin

text \<open>
  The detection rules of \<^verbatim>\<open>internal/runtime\<close> (the \<^verbatim>\<open>rules_*.go\<close> files, \<^verbatim>\<open>intel.go\<close> and \<^verbatim>\<open>rule.go\<close>): each
  rule's static information and its \<^verbatim>\<open>Evaluate\<close>, a function of the event and the state that returns the
  new state and the detections. Parsing of addresses and networks is a parameter.
\<close>

subsection \<open>Static information\<close>

definition info_shell :: ruleInfo where
  "info_shell = \<lparr> riID = ''DS-RAT-RT-001'',
     riTitle = ''Interactive shell spawned in container'',
     riSeverity = SeverityHigh, riTechnique = techUnixShell,
     riRemediation =
       (''Investigate the parent process and session. Use distroless/no-shell images, and restrict `exec` into production '' @
       ''pods via RBAC. If unexpected, isolate the container and rotate any credentials it could reach.''), riReferences = [],
     riDescription =
       (''A shell was executed inside a running container. Service containers rarely need a shell at runtime; it is the most '' @
       ''common post-exploitation pivot.''), riDefault = True \<rparr>"

definition info_drift :: ruleInfo where
  "info_drift = \<lparr> riID = ''DS-RAT-RT-002'',
     riTitle = ''Binary not present in image executed (drift)'',
     riSeverity = SeverityHigh, riTechnique = techIngressTool,
     riRemediation =
       (''Treat the container as compromised: capture forensics, isolate it, and redeploy from a trusted image. Enforce a '' @
       ''read-only root filesystem and drop write access to executable paths.''), riReferences = [],
     riDescription =
       (''A process executed an executable that did not ship in the container image, indicating a dropped tool or downloaded '' @
       ''payload '' @
       emdash @
       '' a strong sign of active compromise.''), riDefault = True \<rparr>"

definition info_escape :: ruleInfo where
  "info_escape = \<lparr> riID = ''DS-RAT-RT-003'',
     riTitle = ''Container escape attempt'',
     riSeverity = SeverityCritical, riTechnique = techEscapeToHost,
     riRemediation =
       (''Assume host compromise. Cordon and investigate the node. Remove privileged/hostPath mounts and the container runtime '' @
       ''socket from workloads; drop CAP_SYS_ADMIN; enforce a restricted seccomp profile.''), riReferences = [],
     riDescription =
       (''An action characteristic of breaking container isolation was observed: an escape tool executed (nsenter/unshare/runc), '' @
       ''a namespace-manipulating syscall, or access to a host-escape path (docker.sock, /proc/1/root, cgroup release_agent).''), riDefault = True \<rparr>"

definition info_runtimeBinary :: ruleInfo where
  "info_runtimeBinary = \<lparr> riID = ''DS-RAT-RT-013'',
     riTitle = ''Container runtime tamper'',
     riSeverity = SeverityCritical, riTechnique = techEscapeToHost,
     riRemediation =
       (''Assume host-runtime compromise. Cordon and investigate the node; verify the integrity of the installed runc/containerd-shim/crun '' @
       ''binaries against a known-good hash and reinstall from a trusted package. Run containers with a read-only root filesystem '' @
       ''and drop CAP_SYS_ADMIN to remove the primitive.''), riReferences = [],
     riDescription =
       (''A process wrote to a host-runtime-escape primitive (/proc/self/exe, /proc/self/fd/N, or a runtime binary such as '' @
       ''runc/containerd-shim/crun), or a runtime binary is executing from a deleted/anonymous/tmp location instead of its '' @
       ''normal install path '' @
       emdash @
       '' the signal the 2024-2025 runc CVEs (e.g. CVE-2024-21626) abuse to overwrite the host runtime.''), riDefault = True \<rparr>"

definition info_privEsc :: ruleInfo where
  "info_privEsc = \<lparr> riID = ''DS-RAT-RT-009'',
     riTitle = ''Privilege escalation attempt'',
     riSeverity = SeverityHigh, riTechnique = techElevControl,
     riRemediation =
       (''Run as non-root with `allowPrivilegeEscalation: false` and `no_new_privs`. Drop all capabilities and add back only '' @
       ''what is required. Remove setuid binaries from images.''), riReferences = [],
     riDescription =
       (''A process attempted to elevate privileges: executing sudo/su, adding a setuid bit, or wielding a dangerous capability '' @
       ''(CAP_SYS_ADMIN, CAP_SYS_PTRACE, CAP_SYS_MODULE) inside a container.''), riDefault = True \<rparr>"

definition info_sensitiveFile :: ruleInfo where
  "info_sensitiveFile = \<lparr> riID = ''DS-RAT-RT-004'',
     riTitle = ''Sensitive file access'',
     riSeverity = SeverityMedium, riTechnique = techUnsecuredCred,
     riRemediation =
       (''Enforce a read-only root filesystem and least-privilege file permissions. Alert on and investigate any write to '' @
       ''system-critical paths; validate against expected configuration management.''), riReferences = [],
     riDescription =
       (''A process read a sensitive file (e.g. /etc/shadow) or modified a security-critical file (e.g. /etc/passwd, sudoers, '' @
       ''authorized_keys, ld.so.preload). Writes are treated as tampering/persistence and scored higher than reads.''), riDefault = True \<rparr>"

definition info_credTheft :: ruleInfo where
  "info_credTheft = \<lparr> riID = ''DS-RAT-RT-005'',
     riTitle = ''Credential / token theft'',
     riSeverity = SeverityHigh, riTechnique = techCloudIMDS,
     riRemediation =
       (''Enforce IMDSv2 with a hop limit of 1 and block IMDS egress from pods that do not need it. Mount SA tokens only '' @
       ''where required (`automountServiceAccountToken: false`). Rotate any token that may have been exposed.''), riReferences = [],
     riDescription =
       (''A process accessed high-value credentials: a Kubernetes service-account token, cloud credential files, or the cloud '' @
       ''instance-metadata service (IMDS, 169.254.169.254). This is the pivot from a compromised container to the cloud '' @
       ''account.''), riDefault = True \<rparr>"

definition info_cryptoMining :: ruleInfo where
  "info_cryptoMining = \<lparr> riID = ''DS-RAT-RT-006'',
     riTitle = ''Crypto-mining activity detected'',
     riSeverity = SeverityHigh, riTechnique = techResourceHijack,
     riRemediation =
       (''Kill the process and isolate the workload. Investigate the initial-access vector (exposed service, leaked credentials). '' @
       ''Apply CPU limits and egress controls to pools.''), riReferences = [],
     riDescription =
       (''A process matched crypto-miner signatures by binary name or command-line arguments (e.g. a stratum pool URL). Cryptojacking '' @
       ''is the most common outcome of an exposed container.''), riDefault = True \<rparr>"

definition info_egress :: ruleInfo where
  "info_egress = \<lparr> riID = ''DS-RAT-RT-007'',
     riTitle = ''Suspicious network egress (possible C2/exfiltration)'',
     riSeverity = SeverityMedium, riTechnique = techAppLayerC2,
     riRemediation =
       (''Apply default-deny egress NetworkPolicies and allowlist only required destinations. Investigate the destination '' @
       ''reputation. Correlate with process drift (DS-RAT-RT-002) to confirm an implant.''), riReferences = [],
     riDescription =
       (''A container made an outbound connection that is suspicious: to a known command-and-control / remote-admin port, '' @
       ''or '' @
       emdash @
       '' when an egress allowlist is configured '' @
       emdash @
       '' to an endpoint outside it. Beaconing to an unknown endpoint is the hallmark of an implant.''), riDefault = True \<rparr>"

definition info_kernelAbuse :: ruleInfo where
  "info_kernelAbuse = \<lparr> riID = ''DS-RAT-RT-008'',
     riTitle = ''Kernel abuse: rootkit / eBPF / module load'',
     riSeverity = SeverityCritical, riTechnique = techKernelModule,
     riRemediation =
       (''Drop CAP_SYS_MODULE and CAP_BPF from all workloads; set kernel.modules_disabled=1 on hardened nodes. No application '' @
       ''container should load modules or eBPF '' @
       emdash @
       '' treat this as a critical incident and forensically image the node.''), riReferences = [],
     riDescription =
       (''A container attempted to manipulate the kernel: loading/unloading a kernel module (init_module/finit_module/delete_module), '' @
       ''loading an eBPF program (bpf syscall) from an untrusted workload, or accessing rootkit-adjacent interfaces (/dev/kmsg '' @
       ''raw write, kallsyms, /proc/kallsyms, kernel module files). Kernel tampering is how sophisticated attackers hide '' @
       ''from the sensor itself.''), riDefault = True \<rparr>"

definition info_reverseShell :: ruleInfo where
  "info_reverseShell = \<lparr> riID = ''DS-RAT-RT-010'',
     riTitle = ''Reverse/bind shell detected'',
     riSeverity = SeverityCritical, riTechnique = techAppLayerC2,
     riRemediation =
       (''Isolate the container immediately and capture a forensic bundle. Identify the remote endpoint and block it. Rotate '' @
       ''all credentials reachable from the workload.''), riReferences = [],
     riDescription =
       (''A shell process has its standard I/O bound to a network socket, or was launched with an interpreter reverse-shell '' @
       ''one-liner. This is hands-on-keyboard remote control of the container.''), riDefault = True \<rparr>"

definition info_persistence :: ruleInfo where
  "info_persistence = \<lparr> riID = ''DS-RAT-RT-011'',
     riTitle = ''Persistence mechanism'',
     riSeverity = SeverityHigh, riTechnique = techHijackExecFlow,
     riRemediation =
       (''Enforce a read-only root filesystem and alert on any write to autostart locations. Restrict LD_PRELOAD via seccomp/AppArmor '' @
       ''or by disabling it for the container'' @
       [CHR 0x27] @
       ''s user namespace; investigate any process launched with it set.''), riReferences = [],
     riDescription =
       (''A process wrote to a well-known autostart/autorun location (cron, systemd, init.d, rc.local, shell startup files, '' @
       ''ld.so.preload, authorized_keys) or launched a process with LD_PRELOAD set on its command line '' @
       emdash @
       '' both are dynamic-linker/execution-flow hijacking techniques used to survive restarts or hook every subsequent '' @
       ''process. (LD_PRELOAD passed purely via the environment, rather than argv, is only visible to the eBPF sensor.)''), riDefault = True \<rparr>"

definition info_fileless :: ruleInfo where
  "info_fileless = \<lparr> riID = ''DS-RAT-RT-012'',
     riTitle = ''Fileless execution'',
     riSeverity = SeverityCritical, riTechnique = techReflectiveLoad,
     riRemediation =
       (''Isolate the container and capture memory/forensics before it can be torn down '' @
       emdash @
       '' the payload has no on-disk artifact once the process exits. Investigate how the anonymous executable was staged '' @
       ''(e.g. via a network fetch or an interpreter'' @
       [CHR 0x27] @
       ''s exec/memfd primitive) and block memfd-backed execution where feasible (seccomp on memfd_create, exec restrictions).''), riReferences = [],
     riDescription =
       (''A process executed from anonymous or in-memory backing (tmpfs shared memory, an anonymous memfd, or a deleted file '' @
       ''still mapped for exec) rather than a real on-disk path, or a process called memfd_create to stage such a payload. '' @
       ''This is the signature of reflective code loading used to evade file-based detection and leave nothing recoverable '' @
       ''on disk.''), riDefault = True \<rparr>"

definition info_intel :: ruleInfo where
  "info_intel = \<lparr> riID = ''DS-RAT-RT-014'',
     riTitle = ''Threat-intel IOC match'',
     riSeverity = SeverityHigh, riTechnique = techAppLayerC2,
     riRemediation =
       (''Isolate the workload and block the matched endpoint. Investigate the container for further compromise and rotate '' @
       ''any credentials it could reach.''), riReferences = [],
     riDescription =
       (''A workload contacted a network endpoint matching a known-bad indicator (IP or domain) from an operator-supplied, '' @
       ''offline threat-intel feed. This is a high-confidence signal: the endpoint has already been attributed to malicious '' @
       ''infrastructure.''), riDefault = True \<rparr>"

definition info_anomaly :: ruleInfo where
  "info_anomaly = \<lparr> riID = ''DS-RAT-RT-050'',
     riTitle = ''Behavioral anomaly (deviation from baseline)'',
     riSeverity = SeverityMedium, riTechnique = techPromptInject,
     riRemediation =
       (''Review the deviation against expected behavior. If legitimate, extend the baseline; if not, treat as a potential '' @
       ''compromise and pivot to the signature detections for confirmation.''), riReferences = [],
     riDescription =
       (''A workload performed an action outside its learned behavioral baseline: an executable, syscall, or network endpoint '' @
       ''never seen during the trusted learning window. Anomaly detection provides zero-day coverage beyond signatures.''), riDefault = False \<rparr>"

definition info_agentRuntime :: ruleInfo where
  "info_agentRuntime = \<lparr> riID = ''DS-RAT-RT-100'',
     riTitle = ''AI agent runtime abuse (rogue agent / prompt-injection)'',
     riSeverity = SeverityHigh, riTechnique = techPromptInject,
     riRemediation =
       (''Sandbox agent tool-use behind an allowlist of commands and endpoints. Require human approval for shell/network '' @
       ''tools. Log prompts and tool calls. Treat unexpected agent egress or exec as a prompt-injection incident.''), riReferences = [],
     riDescription =
       (''A workload declared to be an AI/LLM agent performed an action characteristic of a hijacked agent: spawning an unexpected '' @
       ''shell or tool, executing a prompt-injection-style command, or egressing to an unknown/model endpoint. This is agent-hijacking '' @
       emdash @
       '' a threat class traditional runtime sensors do not model.''), riDefault = False \<rparr>"

subsection \<open>Options\<close>

record iocFeed =
  iocIPs :: "(string \<times> string) list"
  iocDomains :: "(string \<times> string) list"
  iocHashes :: "(string \<times> string) list"

record rtOptions =
  opEnableAnomaly :: bool
  opEnableAgentRuntime :: bool
  opBaseline :: "baseline option"
  opEgressAllow :: "string list"
  opIntelFeed :: "iocFeed option"

text \<open>\<^verbatim>\<open>net.ParseIP\<close>, \<^verbatim>\<open>net.ParseCIDR\<close> (as a membership test) of the standard library.\<close>

record netParse =
  npIP :: "string \<Rightarrow> bytes option"
  npCIDR :: "string \<Rightarrow> (bytes \<Rightarrow> bool) option"

record allowlist =
  alDomains :: "string list"
  alIPs :: "string list"
  alCIDRs :: "(bytes \<Rightarrow> bool) list"

definition allow_entry :: "netParse \<Rightarrow> allowlist \<Rightarrow> string \<Rightarrow> allowlist" where
  "allow_entry np al e0 =
     (let e = strings_TrimSpace e0 in
      if e = [] then al
      else (case npCIDR np e of Some c \<Rightarrow> al\<lparr> alCIDRs := alCIDRs al @ [c] \<rparr>
        | None \<Rightarrow> (case npIP np e of Some ip \<Rightarrow> al\<lparr> alIPs := set_put e (alIPs al) \<rparr>
            | None \<Rightarrow> al\<lparr> alDomains := alDomains al @ [strings_ToLower (strings_TrimPrefix e ''.'')] \<rparr>)))"

definition newEgressAllowlist :: "netParse \<Rightarrow> string list \<Rightarrow> allowlist" where
  "newEgressAllowlist np es = foldl (allow_entry np) \<lparr> alDomains = [], alIPs = [], alCIDRs = [] \<rparr> es"

definition allow_active :: "allowlist \<Rightarrow> bool" where
  "allow_active al \<longleftrightarrow> alDomains al \<noteq> [] \<or> alIPs al \<noteq> [] \<or> alCIDRs al \<noteq> []"

definition allow_permits :: "netParse \<Rightarrow> allowlist \<Rightarrow> networkEvent \<Rightarrow> bool" where
  "allow_permits np al n \<longleftrightarrow>
     (neDomain n \<noteq> [] \<and> list_ex (\<lambda>dom. strings_ToLower (neDomain n) = dom
         \<or> strings_HasSuffix (strings_ToLower (neDomain n)) (''.'' @ dom)) (alDomains al))
     \<or> (neRemoteIP n \<noteq> [] \<and> (neRemoteIP n \<in> set (alIPs al)
         \<or> (case npIP np (neRemoteIP n) of None \<Rightarrow> False | Some ip \<Rightarrow> list_ex (\<lambda>c. c ip) (alCIDRs al))))"

datatype rtRule = ShellRule | DriftRule | EscapeRule | RuntimeBinaryRule | PrivEscRule | SensitiveFileRule | CredTheftRule
  | CryptoMiningRule | EgressRule allowlist | KernelAbuseRule | ReverseShellRule | PersistenceRule | FilelessRule
  | IntelRule "iocFeed option" | AnomalyRule "baseline option" | AgentRuntimeRule bool

fun ruleInfo_of :: "rtRule \<Rightarrow> ruleInfo" where
  "ruleInfo_of ShellRule = info_shell"
| "ruleInfo_of DriftRule = info_drift"
| "ruleInfo_of EscapeRule = info_escape"
| "ruleInfo_of RuntimeBinaryRule = info_runtimeBinary"
| "ruleInfo_of PrivEscRule = info_privEsc"
| "ruleInfo_of SensitiveFileRule = info_sensitiveFile"
| "ruleInfo_of CredTheftRule = info_credTheft"
| "ruleInfo_of CryptoMiningRule = info_cryptoMining"
| "ruleInfo_of (EgressRule al) = info_egress"
| "ruleInfo_of KernelAbuseRule = info_kernelAbuse"
| "ruleInfo_of ReverseShellRule = info_reverseShell"
| "ruleInfo_of PersistenceRule = info_persistence"
| "ruleInfo_of FilelessRule = info_fileless"
| "ruleInfo_of (IntelRule f) = info_intel"
| "ruleInfo_of (AnomalyRule b) = info_anomaly"
| "ruleInfo_of (AgentRuntimeRule en) = info_agentRuntime"

definition defaultRules :: "netParse \<Rightarrow> rtOptions \<Rightarrow> rtRule list" where
  "defaultRules np opts = [ShellRule, DriftRule, EscapeRule, RuntimeBinaryRule, PrivEscRule, SensitiveFileRule, CredTheftRule,
     CryptoMiningRule, EgressRule (newEgressAllowlist np (opEgressAllow opts)), KernelAbuseRule, ReverseShellRule,
     PersistenceRule, FilelessRule, IntelRule (opIntelFeed opts),
     AnomalyRule (if opEnableAnomaly opts then opBaseline opts else None), AgentRuntimeRule (opEnableAgentRuntime opts)]"

definition pid_of :: "event \<Rightarrow> string" where
  "pid_of ev = fmt_int (piPID (evProcess ev))"

definition boolStr :: "bool \<Rightarrow> string" where
  "boolStr b = (if b then ''true'' else ''false'')"

subsection \<open>Processes\<close>

definition isInitLike :: "string \<Rightarrow> bool" where
  "isInitLike exe \<longleftrightarrow> path_Base exe \<in> set [''pause'', ''tini'', ''dumb-init'', ''init'', ''docker-init'', ''s6-svscan'']"

definition shellIsEntrypoint :: "string list \<Rightarrow> bool" where
  "shellIsEntrypoint ancestry \<longleftrightarrow> ancestry \<noteq> [] \<and> list_all (\<lambda>a. isShell a (path_Base a) \<or> isInitLike a) ancestry"

definition shell_eval :: "event \<Rightarrow> detection list" where
  "shell_eval ev =
     (let p = evProcess ev; anc = piAncestry p in
      if evKind ev \<noteq> KindProcess \<or> \<not> isShell (piExe p) (piComm p) then []
      else if shellIsEntrypoint anc then []
      else let parent = (if length anc \<ge> 2 then anc ! (length anc - 2) else []) in
        [fire info_shell ev
          (''shell '' @ piExe p @ '' (pid '' @ pid_of ev @ '')'' @ (if parent \<noteq> [] then '' spawned by '' @ parent else [])
             @ (if piTTY p then '' with an attached tty (interactive)'' else []))
          [(''shell'', path_Base (piExe p)), (''parent'', parent), (''tty'', boolStr (piTTY p)),
           (''ancestry'', join_with '' -> '' anc)]])"

definition drift_eval :: "event \<Rightarrow> rtState \<Rightarrow> rtState \<times> detection list" where
  "drift_eval ev st =
     (let exe = piExe (evProcess ev) in
      if evKind ev \<noteq> KindProcess \<or> exe = [] then (st, [])
      else (case inventory_of st (evContainer ev) of None \<Rightarrow> (st, [])
        | Some shipped \<Rightarrow>
            if exe \<in> set shipped then (st, [])
            else (case markExec (containerKey (evContainer ev) @ ''|drift'') exe st of (st', novel) \<Rightarrow>
              (st', if \<not> novel then []
                else [fire info_drift ev
                  (''executable '' @ exe @ '' (pid '' @ pid_of ev @ '') is not part of image '' @ ciImageRef (evContainer ev))
                  [(''drifted_binary'', exe), (''image'', ciImageRef (evContainer ev))]]))))"

definition mining_eval :: "event \<Rightarrow> detection list" where
  "mining_eval ev =
     (if evKind ev \<noteq> KindProcess then []
      else (case looksLikeMiner (piExe (evProcess ev)) (piComm (evProcess ev)) (piArgs (evProcess ev)) of None \<Rightarrow> []
        | Some reason \<Rightarrow> [fire info_cryptoMining ev (''crypto-miner indicator: '' @ reason @ '' (pid '' @ pid_of ev @ '')'')
            [(''signal'', reason), (''exe'', piExe (evProcess ev))]]))"

definition reverseShellPayload :: "string list \<Rightarrow> string option" where
  "reverseShellPayload args = find (strings_Contains (joined_lower args))
     [''/dev/tcp/'', ''/dev/udp/'', ''socket.socket'', ''sh -i'', ''bash -i'', ''os.dup2'', ''pty.spawn'', ''fsockopen'', ''socat exec'']"

definition reverse_eval :: "event \<Rightarrow> detection list" where
  "reverse_eval ev =
     (let p = evProcess ev in
      if evKind ev \<noteq> KindProcess then []
      else if piStdioSocket p \<and> isShell (piExe p) (piComm p) then
        [fire info_reverseShell ev (''reverse shell: '' @ piExe p @ '' (pid '' @ pid_of ev @ '') has socket-backed stdio'')
          [(''exe'', piExe p), (''signal'', ''shell stdio bound to socket'')]]
      else (case reverseShellPayload (piArgs p) of None \<Rightarrow> []
        | Some sg \<Rightarrow> [fire info_reverseShell ev (''reverse shell payload in args: '' @ sg @ '' (pid '' @ pid_of ev @ '')'')
            [(''exe'', piExe p), (''signal'', sg)]]))"

subsection \<open>Escape and privileges\<close>

definition syscall_arg :: "syscallEvent \<Rightarrow> string \<Rightarrow> string list" where
  "syscall_arg s k = (case map_of (scArgs s) k of None \<Rightarrow> [] | Some v \<Rightarrow> [k @ ''='' @ v])"

definition describeSyscallArgs :: "syscallEvent \<Rightarrow> string" where
  "describeSyscallArgs s =
     (let parts = concat (map (syscall_arg s) [''source'', ''target'', ''fstype'', ''flags''])
      in if parts = [] then [] else '' ('' @ join_with '', '' parts @ '')'')"

definition escape_eval :: "event \<Rightarrow> detection list" where
  "escape_eval ev =
     (if evKind ev = KindProcess then
        (let base = path_Base (piExe (evProcess ev)) in
         if base \<in> set escapeBinaries then
           [fire info_escape ev (''container-escape tool executed: '' @ base @ '' (pid '' @ pid_of ev @ '')'')
             [(''tool'', base), (''exe'', piExe (evProcess ev))]]
         else [])
      else if evKind ev = KindSyscall then
        (case evSyscall ev of None \<Rightarrow> []
         | Some s \<Rightarrow> if scName s \<in> set escapeSyscalls then
             [fire info_escape ev (''namespace/mount escape syscall: '' @ scName s @ describeSyscallArgs s)
               (kv_puts [(''syscall'', scName s)] (scArgs s))]
           else [])
      else if evKind ev = KindFile then
        (case evFile ev of None \<Rightarrow> []
         | Some f \<Rightarrow> (case matchesAnyPrefix (fePath f) hostEscapePaths of None \<Rightarrow> []
             | Some pre \<Rightarrow> [fire info_escape ev (''access to host-escape path '' @ fePath f @ '' ('' @ feOp f @ '')'')
                 [(''path'', fePath f), (''matched'', pre), (''op'', feOp f)]]))
      else [])"

definition dangerous_caps :: "string list" where
  "dangerous_caps = [''CAP_SYS_ADMIN'', ''CAP_SYS_MODULE'', ''CAP_SYS_PTRACE'', ''CAP_SYS_BOOT'', ''CAP_DAC_READ_SEARCH'', ''CAP_BPF'']"

definition dangerousCap :: "string list \<Rightarrow> string option" where
  "dangerousCap caps = map_option strings_ToUpper (find (\<lambda>c. strings_ToUpper c \<in> set dangerous_caps) caps)"

definition octal_digit :: "32 word \<Rightarrow> nat \<Rightarrow> char" where
  "octal_digit m sh = char_of (48 + unat ((drop_bit sh m) AND 7))"

definition octal :: "32 word \<Rightarrow> string" where
  "octal mode = (let m = mode AND 0xFFF in [octal_digit m 9, octal_digit m 6, octal_digit m 3, octal_digit m 0])"

definition privEsc_eval :: "event \<Rightarrow> detection list" where
  "privEsc_eval ev =
     (if evKind ev = KindProcess then
        (let base = path_Base (piExe (evProcess ev)) in
         if base \<in> set [''sudo'', ''su'', ''doas'', ''pkexec''] then
           [fire info_privEsc ev (''privilege-escalation tool executed: '' @ base @ '' (pid '' @ pid_of ev @ '')'')
             [(''tool'', base), (''uid'', fmt_int (piUID (evProcess ev)))]]
         else (case dangerousCap (piCaps (evProcess ev)) of None \<Rightarrow> []
           | Some c \<Rightarrow> [fire info_privEsc ev (''process holds dangerous capability '' @ c @ '' (pid '' @ pid_of ev @ '')'')
               [(''capability'', c)]]))
      else if evKind ev = KindFile then
        (case evFile ev of None \<Rightarrow> []
         | Some f \<Rightarrow> if feOp f = ''chmod'' \<and> (feMode f AND 0x800 \<noteq> 0 \<or> feMode f AND 0x400 \<noteq> 0) then
             [fire info_privEsc ev (''setuid/setgid bit set on '' @ fePath f)
               [(''path'', fePath f), (''mode'', ''0'' @ octal (feMode f))]]
           else [])
      else [])"

definition runtimeTamperPaths :: "string list" where
  "runtimeTamperPaths = [''/proc/self/exe'', ''/proc/self/fd/'']"

definition runtimeBinaries :: "string list" where
  "runtimeBinaries = [''runc'', ''containerd-shim'', ''crun'', ''docker-runc'']"

text \<open>The tokens between hyphens, dots and underscores.\<close>

fun name_tokens :: "string \<Rightarrow> string \<Rightarrow> string list" where
  "name_tokens cur [] = (if cur = [] then [] else [cur])"
| "name_tokens cur (c # cs) =
     (if c = CHR ''-'' \<or> c = CHR ''.'' \<or> c = CHR ''_'' then (if cur = [] then [] else [cur]) @ name_tokens [] cs
      else name_tokens (cur @ [c]) cs)"

definition containsRuntimeBinaryName :: "string \<Rightarrow> bool" where
  "containsRuntimeBinaryName p =
     (let base = strings_ToLower (path_Base p) in
      base \<in> set runtimeBinaries \<or> strings_HasPrefix base ''containerd-shim''
      \<or> list_ex (\<lambda>tok. tok = ''runc'' \<or> tok = ''crun'') (name_tokens [] base))"

definition isSuspectRuntimeLocation :: "string \<Rightarrow> bool" where
  "isSuspectRuntimeLocation exe \<longleftrightarrow> strings_Contains exe ''(deleted)'' \<or> strings_Contains exe ''/proc/''
     \<or> strings_Contains exe ''/tmp/'' \<or> strings_Contains exe ''/dev/shm/''"

definition runtimeBinary_eval :: "event \<Rightarrow> detection list" where
  "runtimeBinary_eval ev =
     (if evKind ev = KindFile then
        (case evFile ev of None \<Rightarrow> []
         | Some f \<Rightarrow> if \<not> fileIsWrite f then []
             else if matchesAnyPrefix (fePath f) runtimeTamperPaths \<noteq> None \<or> containsRuntimeBinaryName (fePath f) then
               [fire info_runtimeBinary ev (''write to container-runtime primitive '' @ fePath f @ '' ('' @ feOp f @ '')'')
                 [(''path'', fePath f), (''op'', feOp f), (''vector'', ''runtime-tamper'')]]
             else [])
      else if evKind ev = KindProcess then
        (let exe = piExe (evProcess ev); base = path_Base exe in
         if base \<in> set runtimeBinaries \<and> isSuspectRuntimeLocation exe then
           [fire info_runtimeBinary ev (''runtime binary '' @ base @ '' executing from suspect location '' @ exe)
             [(''exe'', exe), (''vector'', ''runtime-exec'')]]
         else [])
      else [])"

subsection \<open>Files\<close>

definition sensitiveFile_eval :: "event \<Rightarrow> detection list" where
  "sensitiveFile_eval ev =
     (case evFile ev of None \<Rightarrow> []
      | Some f \<Rightarrow>
          if evKind ev \<noteq> KindFile then []
          else (case (if fileIsWrite f then matchesAnyPrefix (fePath f) sensitiveWritePaths else None) of
              Some pre \<Rightarrow>
                [(fire info_sensitiveFile ev (''write to security-critical file '' @ fePath f @ '' ('' @ feOp f @ '')'')
                   [(''path'', fePath f), (''op'', feOp f), (''matched'', pre), (''access'', ''write'')])\<lparr> dSeverity := SeverityHigh \<rparr>]
            | None \<Rightarrow>
                if isSSHKeyPath (fePath f) then
                  [fire info_sensitiveFile ev (''read of private SSH key '' @ fePath f)
                    [(''path'', fePath f), (''op'', feOp f), (''access'', ''read'')]]
                else (case matchesAnyPrefix (fePath f) sensitiveReadPaths of None \<Rightarrow> []
                  | Some pre \<Rightarrow> [fire info_sensitiveFile ev (''access to sensitive file '' @ fePath f @ '' ('' @ feOp f @ '')'')
                      [(''path'', fePath f), (''op'', feOp f), (''matched'', pre), (''access'', ''read'')]])))"

definition isIMDS :: "networkEvent \<Rightarrow> bool" where
  "isIMDS n \<longleftrightarrow> neRemoteIP n \<in> set imdsIPs \<or> (neDomain n \<noteq> [] \<and> strings_ToLower (neDomain n) \<in> set imdsDomains)"

definition credTheft_eval :: "event \<Rightarrow> detection list" where
  "credTheft_eval ev =
     (if evKind ev = KindFile then
        (case evFile ev of None \<Rightarrow> []
         | Some f \<Rightarrow> (case matchesAnyPrefix (fePath f) credentialPaths of None \<Rightarrow> []
             | Some pre \<Rightarrow>
                 (let tech = (if strings_Contains pre ''serviceaccount/token'' then techStealToken else techUnsecuredCred)
                  in [(fire info_credTheft ev (''access to credential store '' @ fePath f)
                    [(''path'', fePath f), (''op'', feOp f), (''matched'', pre), (''vector'', ''file'')])
                      \<lparr> dTechnique := tech, dReferences := [teURL tech] \<rparr>])))
      else if evKind ev = KindNetwork then
        (case evNetwork ev of None \<Rightarrow> []
         | Some n \<Rightarrow> if isIMDS n then
             [fire info_credTheft ev (''connection to cloud metadata service ('' @ endpointKey n @ '') '' @ emdash @ '' possible credential theft'')
               [(''endpoint'', endpointKey n), (''vector'', ''imds'')]]
           else [])
      else [])"

definition persistenceWritePaths :: "string list" where
  "persistenceWritePaths = [''/etc/ld.so.preload'', ''/etc/cron'', ''/var/spool/cron'', ''/etc/systemd/'', ''/etc/init.d/'', ''/etc/rc.local'']"

definition persistenceWriteSuffixes :: "string list" where
  "persistenceWriteSuffixes = [''/.bashrc'', ''/.bash_profile'', ''/.profile'', ''authorized_keys'']"

definition persistence_eval :: "event \<Rightarrow> detection list" where
  "persistence_eval ev =
     (if evKind ev = KindFile then
        (case evFile ev of None \<Rightarrow> []
         | Some f \<Rightarrow>
             if \<not> fileIsWrite f then []
             else (case (case matchesAnyPrefix (fePath f) persistenceWritePaths of Some pre \<Rightarrow> Some pre
                     | None \<Rightarrow> find (strings_HasSuffix (fePath f)) persistenceWriteSuffixes) of None \<Rightarrow> []
               | Some m \<Rightarrow> [fire info_persistence ev (''write to persistence location '' @ fePath f @ '' ('' @ feOp f @ '')'')
                   [(''path'', fePath f), (''op'', feOp f), (''matched'', m), (''vector'', ''file'')]]))
      else if evKind ev = KindProcess then
        (if list_ex (\<lambda>a. strings_Contains a ''LD_PRELOAD='') (piArgs (evProcess ev)) then
           [fire info_persistence ev (''process executed with LD_PRELOAD set '' @ emdash @ '' dynamic-linker hijack'')
             [(''vector'', ''ld_preload'')]]
         else [])
      else [])"

definition isAnonymousExec :: "string \<Rightarrow> bool" where
  "isAnonymousExec exe \<longleftrightarrow> exe \<noteq> [] \<and> (strings_HasPrefix exe ''/dev/shm/'' \<or> strings_Contains exe ''memfd:''
     \<or> strings_HasSuffix exe ''(deleted)'' \<or> strings_Contains exe ''(deleted)'')"

definition fileless_eval :: "event \<Rightarrow> detection list" where
  "fileless_eval ev =
     (if evKind ev = KindProcess \<and> isAnonymousExec (piExe (evProcess ev)) then
        [fire info_fileless ev (''fileless execution: '' @ piExe (evProcess ev) @ '' (pid '' @ pid_of ev @ '') has no on-disk backing'')
          [(''exe'', piExe (evProcess ev)), (''vector'', ''anonymous-exec'')]]
      else (case evSyscall ev of None \<Rightarrow> []
        | Some s \<Rightarrow> if evKind ev = KindSyscall \<and> scName s = ''memfd_create'' then
            [fire info_fileless ev (''memfd_create called (pid '' @ pid_of ev @ '') '' @ emdash @ '' anonymous in-memory file staged'')
              [(''syscall'', ''memfd_create''), (''vector'', ''memfd'')]]
          else []))"

subsection \<open>Kernel\<close>

definition kernelSensitiveFile :: "string \<Rightarrow> string option" where
  "kernelSensitiveFile p =
     (if strings_HasPrefix p ''/lib/modules/'' \<or> strings_HasSuffix p ''.ko'' then Some ''kernel module file''
      else if p = ''/proc/kallsyms'' \<or> p = ''/sys/kernel/debug/kprobes'' then Some ''kernel symbol/probe interface''
      else if strings_HasPrefix p ''/sys/kernel/debug/'' then Some ''kernel debug interface''
      else if p = ''/dev/kmsg'' then Some ''kernel message device'' else None)"

definition orNA :: "string \<Rightarrow> string" where
  "orNA s = (if s = [] then ''n/a'' else s)"

definition kernel_eval :: "event \<Rightarrow> detection list" where
  "kernel_eval ev =
     (if evKind ev = KindSyscall then
        (case evSyscall ev of None \<Rightarrow> []
         | Some s \<Rightarrow>
             if scName s \<in> set kernelModuleSyscalls then
               [fire info_kernelAbuse ev (''kernel module operation from container: '' @ scName s @ describeSyscallArgs s)
                 (kv_puts [(''syscall'', scName s), (''vector'', ''lkm'')] (scArgs s))]
             else if scName s = ''bpf'' then
               (let cmd = kv_str (scArgs s) ''cmd'' in
                [fire info_kernelAbuse ev (''eBPF syscall from container (cmd='' @ orNA cmd @ '') '' @ emdash
                    @ '' possible eBPF-based rootkit or sensor evasion'')
                  [(''syscall'', ''bpf''), (''cmd'', cmd), (''vector'', ''ebpf'')]])
             else [])
      else if evKind ev = KindFile then
        (case evFile ev of None \<Rightarrow> []
         | Some f \<Rightarrow> (case kernelSensitiveFile (fePath f) of None \<Rightarrow> []
             | Some reason \<Rightarrow> [(fire info_kernelAbuse ev (''access to kernel interface '' @ fePath f @ '' ('' @ reason @ '')'')
                 [(''path'', fePath f), (''reason'', reason), (''vector'', ''kernel-iface'')])
                 \<lparr> dTechnique := techRootkit, dReferences := [teURL techRootkit] \<rparr>]))
      else [])"

subsection \<open>Network\<close>

definition suspiciousPort :: "int \<Rightarrow> string option" where
  "suspiciousPort p = (if p \<in> set [4444, 1337, 31337, 6666, 6667, 12345, 9001, 5555] then Some (fmt_int p) else None)"

definition egress_eval :: "netParse \<Rightarrow> allowlist \<Rightarrow> event \<Rightarrow> rtState \<Rightarrow> rtState \<times> detection list" where
  "egress_eval np al ev st =
     (case evNetwork ev of None \<Rightarrow> (st, [])
      | Some n \<Rightarrow>
          if evKind ev \<noteq> KindNetwork then (st, [])
          else if neOp n \<noteq> ''connect'' \<or> (neDirection n \<noteq> [] \<and> neDirection n \<noteq> ''egress'') then (st, [])
          else if isIMDS n then (st, [])
          else (case suspiciousPort (neRemotePort n) of
              Some port \<Rightarrow> (st, [fire info_egress ev (''egress to suspicious port '' @ port @ '' ('' @ endpointKey n @ '')'')
                  [(''endpoint'', endpointKey n), (''reason'', ''suspicious-port'')]])
            | None \<Rightarrow>
                if allow_active al \<and> \<not> allow_permits np al n then
                  (case markConnect (containerKey (evContainer ev) @ ''|egress'') (endpointKey n) st of (st', novel) \<Rightarrow>
                     (st', if novel then [fire info_egress ev (''egress to endpoint outside allowlist: '' @ endpointKey n)
                         [(''endpoint'', endpointKey n), (''reason'', ''not-allowlisted'')]] else []))
                else (st, [])))"

definition lowerASCII :: "string \<Rightarrow> string" where
  "lowerASCII s = map lowerByte s"

definition MatchNetwork :: "iocFeed option \<Rightarrow> networkEvent option \<Rightarrow> string option" where
  "MatchNetwork f n =
     (case (f, n) of (Some f, Some n) \<Rightarrow>
        (case (if neRemoteIP n \<noteq> [] then map_of (iocIPs f) (neRemoteIP n) else None) of
           Some l \<Rightarrow> Some l
         | None \<Rightarrow> if neDomain n \<noteq> [] then map_of (iocDomains f) (lowerASCII (neDomain n)) else None)
      | _ \<Rightarrow> None)"

definition MatchFileHash :: "iocFeed option \<Rightarrow> string \<Rightarrow> string option" where
  "MatchFileHash f h = (case f of None \<Rightarrow> None | Some f \<Rightarrow> if h = [] then None else map_of (iocHashes f) h)"

definition intel_eval :: "iocFeed option \<Rightarrow> event \<Rightarrow> detection list" where
  "intel_eval feed ev =
     (case (feed, evNetwork ev) of (Some f, Some n) \<Rightarrow>
        if evKind ev \<noteq> KindNetwork then []
        else (case MatchNetwork feed (evNetwork ev) of None \<Rightarrow> []
          | Some l \<Rightarrow> [fire info_intel ev (''network endpoint '' @ endpointKey n @ '' matched threat-intel indicator: '' @ l)
              [(''endpoint'', endpointKey n), (''label'', l), (''vector'', ''network-ioc'')]])
      | _ \<Rightarrow> [])"

subsection \<open>Behaviour\<close>

definition anomaly_eval :: "baseline option \<Rightarrow> event \<Rightarrow> rtState \<Rightarrow> rtState \<times> detection list" where
  "anomaly_eval b ev st =
     (case b of None \<Rightarrow> (st, [])
      | Some bl \<Rightarrow>
          (case map_of (blWorkloads bl) (workloadKey (evContainer ev)) of None \<Rightarrow> (st, [])
           | Some wp \<Rightarrow>
               (let ck = containerKey (evContainer ev) @ ''|anomaly''; exe = piExe (evProcess ev) in
                if evKind ev = KindProcess then
                  (if exe \<noteq> [] \<and> \<not> sorted_contains (wpExes wp) exe then
                     (case markExec ck exe st of (st', novel) \<Rightarrow>
                        (st', if novel then [fire info_anomaly ev (''unbaselined executable '' @ exe @ '' (pid '' @ pid_of ev @ '')'')
                            [(''kind'', ''exe''), (''value'', exe)]] else []))
                   else (st, []))
                else if evKind ev = KindSyscall then
                  (case evSyscall ev of None \<Rightarrow> (st, [])
                   | Some s \<Rightarrow> (st, if scName s \<noteq> [] \<and> \<not> sorted_contains (wpSyscalls wp) (scName s) then
                         [fire info_anomaly ev (''unbaselined syscall '' @ scName s) [(''kind'', ''syscall''), (''value'', scName s)]]
                       else []))
                else if evKind ev = KindNetwork then
                  (case evNetwork ev of None \<Rightarrow> (st, [])
                   | Some n \<Rightarrow>
                       if endpointKey n \<noteq> [] \<and> \<not> sorted_contains (wpEndpoints wp) (endpointKey n) then
                         (case markConnect ck (endpointKey n) st of (st', novel) \<Rightarrow>
                            (st', if novel then [fire info_anomaly ev (''unbaselined network endpoint '' @ endpointKey n)
                                [(''kind'', ''endpoint''), (''value'', endpointKey n)]] else []))
                       else (st, []))
                else (st, []))))"

definition injection_sigs :: "string list" where
  "injection_sigs = [''| sh'', ''|sh'', ''| bash'', ''|bash'', ''curl -s'', ''wget -q'', ''os.system('', ''subprocess.'', ''eval('',
     ''exec('', ''base64 -d'']"

definition injectionPayload :: "string list \<Rightarrow> string option" where
  "injectionPayload args =
     (case reverseShellPayload args of Some sg \<Rightarrow> Some sg
      | None \<Rightarrow> map_option strings_TrimSpace (find (strings_Contains (joined_lower args)) injection_sigs))"

definition agentMeta :: "event \<Rightarrow> string \<Rightarrow> string \<Rightarrow> (string \<times> string) list" where
  "agentMeta ev signal v = [(''agent_signal'', signal), (''value'', v), (''image'', ciImageRef (evContainer ev))]"

definition isEscalationTool :: "string \<Rightarrow> bool" where
  "isEscalationTool exe \<longleftrightarrow> path_Base exe \<in> set [''nmap'', ''nc'', ''ncat'', ''socat'', ''tcpdump'', ''kubectl'', ''docker'', ''aws'',
     ''gcloud'', ''az'']"

definition model_endpoints :: "string list" where
  "model_endpoints = [''api.anthropic.com'', ''api.openai.com'', ''generativelanguage.googleapis.com'', ''bedrock.amazonaws.com'',
     ''api.cohere.ai'', ''api.mistral.ai'']"

definition isKnownModelEndpoint :: "networkEvent \<Rightarrow> bool" where
  "isKnownModelEndpoint n =
     (let d = strings_ToLower (neDomain n) in
      d \<noteq> [] \<and> list_ex (\<lambda>known. d = known \<or> strings_HasSuffix d (''.'' @ known)) model_endpoints)"

definition agent_eval :: "bool \<Rightarrow> event \<Rightarrow> rtState \<Rightarrow> rtState \<times> detection list" where
  "agent_eval enabled ev st =
     (let p = evProcess ev in
      if \<not> enabled \<or> \<not> ciAIAgent (evContainer ev) then (st, [])
      else if evKind ev = KindProcess then
        (st, case injectionPayload (piArgs p) of
            Some sg \<Rightarrow> [fire info_agentRuntime ev (''AI agent executed injection-style payload ('' @ sg @ '', pid '' @ pid_of ev @ '')'')
              (agentMeta ev ''prompt-injection-exec'' sg)]
          | None \<Rightarrow>
              if isShell (piExe p) (piComm p) \<and> \<not> shellIsEntrypoint (piAncestry p) then
                [fire info_agentRuntime ev (''AI agent spawned an unexpected shell '' @ piExe p @ '' (pid '' @ pid_of ev @ '')'')
                  (agentMeta ev ''unexpected-shell'' (path_Base (piExe p)))]
              else if isEscalationTool (piExe p) then
                [fire info_agentRuntime ev (''AI agent invoked a privileged tool '' @ path_Base (piExe p) @ '' (pid '' @ pid_of ev @ '')'')
                  (agentMeta ev ''unexpected-tool'' (path_Base (piExe p)))]
              else [])
      else if evKind ev = KindNetwork then
        (case evNetwork ev of None \<Rightarrow> (st, [])
         | Some n \<Rightarrow>
             if neOp n \<noteq> ''connect'' \<or> isKnownModelEndpoint n then (st, [])
             else (case markConnect (containerKey (evContainer ev) @ ''|agent'') (endpointKey n) st of (st', novel) \<Rightarrow>
               (st', if novel then [fire info_agentRuntime ev
                   (''AI agent egress to unrecognized endpoint '' @ endpointKey n @ '' (not a known model/tool provider)'')
                   (agentMeta ev ''unknown-egress'' (endpointKey n))] else [])))
      else (st, []))"

fun evaluate :: "netParse \<Rightarrow> rtRule \<Rightarrow> event \<Rightarrow> rtState \<Rightarrow> rtState \<times> detection list" where
  "evaluate np ShellRule ev st = (st, shell_eval ev)"
| "evaluate np DriftRule ev st = drift_eval ev st"
| "evaluate np EscapeRule ev st = (st, escape_eval ev)"
| "evaluate np RuntimeBinaryRule ev st = (st, runtimeBinary_eval ev)"
| "evaluate np PrivEscRule ev st = (st, privEsc_eval ev)"
| "evaluate np SensitiveFileRule ev st = (st, sensitiveFile_eval ev)"
| "evaluate np CredTheftRule ev st = (st, credTheft_eval ev)"
| "evaluate np CryptoMiningRule ev st = (st, mining_eval ev)"
| "evaluate np (EgressRule al) ev st = egress_eval np al ev st"
| "evaluate np KernelAbuseRule ev st = (st, kernel_eval ev)"
| "evaluate np ReverseShellRule ev st = (st, reverse_eval ev)"
| "evaluate np PersistenceRule ev st = (st, persistence_eval ev)"
| "evaluate np FilelessRule ev st = (st, fileless_eval ev)"
| "evaluate np (IntelRule f) ev st = (st, intel_eval f ev)"
| "evaluate np (AnomalyRule b) ev st = anomaly_eval b ev st"
| "evaluate np (AgentRuntimeRule en) ev st = agent_eval en ev st"

end
