(* ===== verification/RtDetector.thy ===== *)
theory RtDetector
  imports RtRules
begin

text \<open>
  The detector of \<^verbatim>\<open>detector.go\<close> with its rule set, baseline learning and the seccomp profile generated
  from a baseline (\<^verbatim>\<open>profile.go\<close>). What is reported once and what is complete in a run, what a learned
  baseline allows, and that no detection carries an argument unredacted.
\<close>

subsection \<open>Running the rules\<close>

fun eval_rules :: "netParse \<Rightarrow> rtRule list \<Rightarrow> event \<Rightarrow> rtState \<Rightarrow> rtState \<times> detection list" where
  "eval_rules np [] ev st = (st, [])"
| "eval_rules np (r # rs) ev st =
     (case evaluate np r ev st of (st1, ds) \<Rightarrow> (case eval_rules np rs ev st1 of (st2, ds') \<Rightarrow> (st2, ds @ ds')))"

record detector =
  dtVersion :: string
  dtRules :: "rtRule list"
  dtState :: rtState
  dtOpts :: rtOptions

definition NewDetector :: "netParse \<Rightarrow> rtOptions \<Rightarrow> imageInventory list \<Rightarrow> detector" where
  "NewDetector np opts images =
     (let st = newState images;
          st1 = (if opEnableAnomaly opts \<and> opBaseline opts = None then st\<lparr> stAcc := Some [] \<rparr> else st)
      in \<lparr> dtVersion = RuleSetVersion, dtRules = defaultRules np opts, dtState = st1, dtOpts = opts \<rparr>)"

definition before_rules :: "event \<Rightarrow> rtState \<Rightarrow> rtState" where
  "before_rules ev st = (let st1 = observe ev st in st1\<lparr> stAcc := map_option (record_event ev) (stAcc st1) \<rparr>)"

definition det_Process :: "netParse \<Rightarrow> detector \<Rightarrow> event \<Rightarrow> detector \<times> detection list" where
  "det_Process np d ev =
     (case eval_rules np (dtRules d) ev (before_rules ev (dtState d)) of (st, ds) \<Rightarrow> (d\<lparr> dtState := st \<rparr>, ds))"

text \<open>An event source: events in order, or an error other than the end of the stream.\<close>

datatype sourceItem = Next event | NextErr string

fun det_loop :: "netParse \<Rightarrow> detector \<Rightarrow> sourceItem list \<Rightarrow> detector \<times> detection list \<times> string option" where
  "det_loop np d [] = (d, [], None)"
| "det_loop np d (NextErr e # src) = (d, [], Some e)"
| "det_loop np d (Next ev # src) =
     (case det_Process np d ev of (d1, ds) \<Rightarrow> (case det_loop np d1 src of (d2, ds', e) \<Rightarrow> (d2, ds @ ds', e)))"

definition det_Run :: "netParse \<Rightarrow> detector \<Rightarrow> sourceItem list \<Rightarrow> detector \<times> detection list \<times> string option" where
  "det_Run np d src = (case det_loop np d src of (d', ds, e) \<Rightarrow> (d', SortDetections ds, e))"

definition det_Baseline :: "detector \<Rightarrow> baseline option" where
  "det_Baseline d = map_option baseline_build (stAcc (dtState d))"

subsection \<open>Seccomp profiles\<close>

record seccompProfile =
  spDefaultAction :: string
  spArchitectures :: "string list"
  spNames :: "string list"
  spAction :: string
  spGeneratedBy :: string
  spRuleSet :: string
  spImage :: string
  spObserved :: nat

definition baselineSyscalls :: "string list" where
  "baselineSyscalls = [''read'', ''write'', ''close'', ''fstat'', ''mmap'', ''mprotect'', ''munmap'', ''brk'',
     ''rt_sigaction'', ''rt_sigprocmask'', ''rt_sigreturn'', ''exit'', ''exit_group'',
     ''nanosleep'', ''clock_gettime'', ''gettimeofday'', ''getpid'', ''getppid'',
     ''futex'', ''sched_yield'', ''arch_prctl'', ''set_tid_address'', ''set_robust_list'',
     ''prlimit64'', ''getrandom'', ''epoll_create1'', ''epoll_ctl'', ''epoll_pwait'']"

definition GenerateSeccompProfile :: "baseline option \<Rightarrow> string \<Rightarrow> seccompProfile option" where
  "GenerateSeccompProfile b key =
     (case b of None \<Rightarrow> None
      | Some bl \<Rightarrow> (case map_of (blWorkloads bl) key of None \<Rightarrow> None
          | Some wp \<Rightarrow> Some \<lparr> spDefaultAction = ''SCMP_ACT_ERRNO'',
              spArchitectures = [''SCMP_ARCH_X86_64'', ''SCMP_ARCH_X86'', ''SCMP_ARCH_AARCH64''],
              spNames = sorted_set (set_puts (wpSyscalls wp) (set_puts baselineSyscalls [])), spAction = ''SCMP_ACT_ALLOW'',
              spGeneratedBy = ''dsecrat-runtime profile generator'', spRuleSet = RuleSetVersion, spImage = wpImage wp,
              spObserved = length (wpSyscalls wp) \<rparr>))"

subsection \<open>What a detection carries\<close>

lemma redactToken_idem [simp]: "redactToken (redactToken t) = redactToken t"
proof -
  have star: "redactToken ''***'' = ''***''" by code_simp
  show ?thesis
  proof (cases "cut_byte (CHR ''='') t")
    case None
    then show ?thesis by (auto simp: redactToken_def star[unfolded redactToken_def])
  next
    case (Some kv)
    obtain k v where kv: "kv = (k, v)" by (rule prod.exhaust)
    with Some have c: "cut_byte (CHR ''='') t = Some (k, v)" by simp
    show ?thesis
    proof (cases "isSensitiveKey k \<and> v \<noteq> []")
      case True
      have k: "CHR ''='' \<notin> set k" using c by (auto dest: cut_byte_Some)
      have "redactToken t = k @ ''=***''" using c True by (simp add: redactToken_def)
      moreover have "cut_byte (CHR ''='') (k @ ''=***'') = Some (k, ''***'')" using cut_byte_append [OF k, of "''***''"] by simp
      ultimately show ?thesis using True by (simp add: redactToken_def)
    next
      case False
      then have "redactToken t = ''***'' \<or> redactToken t = t" using c by (auto simp: redactToken_def)
      then show ?thesis using star by metis
    qed
  qed
qed

text \<open>What every rule's detection says of its event.\<close>

definition reports :: "rtRule \<Rightarrow> event \<Rightarrow> detection \<Rightarrow> bool" where
  "reports r ev d \<longleftrightarrow> dRuleID d = riID (ruleInfo_of r) \<and> dContainer d = evContainer ev \<and> dSeq d = evSeq ev
     \<and> dProcess d = (evProcess ev)\<lparr> piArgs := redactArgs (piArgs (evProcess ev)) \<rparr> \<and> dTrigger d = Some (redact_event ev)"

lemma reports_fire [simp]: "reports r ev (fire (ruleInfo_of r) ev msg meta)"
  by (simp add: reports_def fire_def redact_event_def Let_def)

lemma reports_update [simp]:
  "reports r ev (d\<lparr> dSeverity := s \<rparr>) = reports r ev d"
  "reports r ev (d\<lparr> dTechnique := t, dReferences := rs \<rparr>) = reports r ev d"
  by (simp_all add: reports_def)

lemmas eval_defs = shell_eval_def drift_eval_def escape_eval_def runtimeBinary_eval_def privEsc_eval_def sensitiveFile_eval_def
  credTheft_eval_def mining_eval_def egress_eval_def kernel_eval_def reverse_eval_def persistence_eval_def fileless_eval_def
  intel_eval_def anomaly_eval_def agent_eval_def

lemmas reports_fires [simp] = reports_fire [of ShellRule, unfolded ruleInfo_of.simps] reports_fire [of DriftRule, unfolded ruleInfo_of.simps]
  reports_fire [of EscapeRule, unfolded ruleInfo_of.simps] reports_fire [of RuntimeBinaryRule, unfolded ruleInfo_of.simps]
  reports_fire [of PrivEscRule, unfolded ruleInfo_of.simps] reports_fire [of SensitiveFileRule, unfolded ruleInfo_of.simps]
  reports_fire [of CredTheftRule, unfolded ruleInfo_of.simps] reports_fire [of CryptoMiningRule, unfolded ruleInfo_of.simps]
  reports_fire [of "EgressRule al", unfolded ruleInfo_of.simps] reports_fire [of KernelAbuseRule, unfolded ruleInfo_of.simps]
  reports_fire [of ReverseShellRule, unfolded ruleInfo_of.simps] reports_fire [of PersistenceRule, unfolded ruleInfo_of.simps]
  reports_fire [of FilelessRule, unfolded ruleInfo_of.simps] reports_fire [of "IntelRule f", unfolded ruleInfo_of.simps]
  reports_fire [of "AnomalyRule b", unfolded ruleInfo_of.simps] reports_fire [of "AgentRuntimeRule en", unfolded ruleInfo_of.simps] for al f b en

lemma stateless_reports:
  "list_all (reports ShellRule ev) (shell_eval ev)"
  "list_all (reports EscapeRule ev) (escape_eval ev)"
  "list_all (reports RuntimeBinaryRule ev) (runtimeBinary_eval ev)"
  "list_all (reports PrivEscRule ev) (privEsc_eval ev)"
  "list_all (reports SensitiveFileRule ev) (sensitiveFile_eval ev)"
  "list_all (reports CredTheftRule ev) (credTheft_eval ev)"
  "list_all (reports CryptoMiningRule ev) (mining_eval ev)"
  "list_all (reports KernelAbuseRule ev) (kernel_eval ev)"
  "list_all (reports ReverseShellRule ev) (reverse_eval ev)"
  "list_all (reports PersistenceRule ev) (persistence_eval ev)"
  "list_all (reports FilelessRule ev) (fileless_eval ev)"
  "list_all (reports (IntelRule f) ev) (intel_eval f ev)"
  by (simp_all add: eval_defs Let_def split: option.split)

lemma stateful_reports:
  "list_all (reports DriftRule ev) (snd (drift_eval ev st))"
  "list_all (reports (EgressRule al) ev) (snd (egress_eval np al ev st))"
  "list_all (reports (AnomalyRule b) ev) (snd (anomaly_eval b ev st))"
  "list_all (reports (AgentRuntimeRule en) ev) (snd (agent_eval en ev st))"
  by (simp_all add: eval_defs Let_def split: option.split prod.split)

lemma evaluate_reports: "d \<in> set (snd (evaluate np r ev st)) \<Longrightarrow> reports r ev d"
  using stateless_reports [where ev = ev] stateful_reports [where ev = ev] by (cases r) (auto simp: list_all_iff)

lemma eval_rules_reports: "d \<in> set (snd (eval_rules np rs ev st)) \<Longrightarrow> \<exists>r \<in> set rs. reports r ev d"
proof (induction rs arbitrary: st)
  case (Cons r rs)
  obtain st1 ds where 1: "evaluate np r ev st = (st1, ds)" by (rule prod.exhaust)
  obtain st2 ds' where 2: "eval_rules np rs ev st1 = (st2, ds')" by (rule prod.exhaust)
  have "d \<in> set ds \<or> d \<in> set ds'" using Cons.prems by (simp add: 1 2)
  then show ?case
    using evaluate_reports [of d np r ev st] Cons.IH [of st1] by (auto simp: 1 2)
qed simp

subsection \<open>First contacts\<close>

text \<open>
  Several rules report a value the first time a container shows it. The interface of such a step:
  a set of what has been seen, what an event adds to it, and a report exactly when that is new. Over a run
  the reports are then without repetition, and complete.
\<close>

fun collect :: "('e \<Rightarrow> 's \<Rightarrow> 's \<times> 'd list) \<Rightarrow> 's \<Rightarrow> 'e list \<Rightarrow> 's \<times> 'd list" where
  "collect step s [] = (s, [])"
| "collect step s (e # es) = (let (s1, ds) = step e s; (s2, ds') = collect step s1 es in (s2, ds @ ds'))"

locale reports_once =
  fixes step :: "'e \<Rightarrow> 's \<Rightarrow> 's \<times> 'd list" and ok :: "'s \<Rightarrow> bool" and seen :: "'s \<Rightarrow> 'k set"
    and target :: "'e \<Rightarrow> 'k option" and key :: "'d \<Rightarrow> 'k"
  assumes step_ok: "ok s \<Longrightarrow> ok (fst (step e s))"
    and step_seen: "ok s \<Longrightarrow> seen (fst (step e s)) = seen s \<union> set_option (target e)"
    and step_out: "ok s \<Longrightarrow> map key (snd (step e s)) = (case target e of None \<Rightarrow> [] | Some k \<Rightarrow> if k \<in> seen s then [] else [k])"
begin

lemma collect_once:
  "ok s \<Longrightarrow> distinct (map key (snd (collect step s es)))
     \<and> set (map key (snd (collect step s es))) = (\<Union>e \<in> set es. set_option (target e)) - seen s"
proof (induction es arbitrary: s)
  case (Cons e es)
  obtain s1 ds where 1: "step e s = (s1, ds)" by (rule prod.exhaust)
  obtain s2 ds' where 2: "collect step s1 es = (s2, ds')" by (rule prod.exhaust)
  have ok1: "ok s1" using step_ok [OF Cons.prems, of e] 1 by simp
  have se: "seen s1 = seen s \<union> set_option (target e)" using step_seen [OF Cons.prems, of e] 1 by simp
  have out: "map key ds = (case target e of None \<Rightarrow> [] | Some k \<Rightarrow> if k \<in> seen s then [] else [k])"
    using step_out [OF Cons.prems, of e] 1 by simp
  have ih: "distinct (map key ds') \<and> set (map key ds') = (\<Union>e \<in> set es. set_option (target e)) - seen s1"
    using Cons.IH [OF ok1] 2 by simp
  have "set (map key ds) = set_option (target e) - seen s" "distinct (map key ds)"
    unfolding out by (auto split: option.splits)
  with ih se show ?case unfolding collect.simps 1 2 Let_def prod.case by auto
qed simp

end

text \<open>The detections of one rule in a run of the detector.\<close>

definition rule_step :: "netParse \<Rightarrow> string \<Rightarrow> event \<Rightarrow> detector \<Rightarrow> detector \<times> detection list" where
  "rule_step np rid ev d = (fst (det_Process np d ev), filter (\<lambda>x. dRuleID x = rid) (snd (det_Process np d ev)))"

lemma rule_collect:
  "collect (rule_step np rid) d evs
     = (fst (det_loop np d (map Next evs)), filter (\<lambda>x. dRuleID x = rid) (fst (snd (det_loop np d (map Next evs)))))"
proof (induction evs arbitrary: d)
  case (Cons ev evs)
  obtain d1 ds where 1: "det_Process np d ev = (d1, ds)" by (rule prod.exhaust)
  obtain d2 ds' e where 2: "det_loop np d1 (map Next evs) = (d2, ds', e)" by (metis prod_cases3)
  show ?case using Cons.IH [of d1] by (simp add: rule_step_def 1 2)
qed simp

lemma eval_rules_append:
  "eval_rules np (rs @ rs') ev st
     = (let (st1, ds) = eval_rules np rs ev st; (st2, ds') = eval_rules np rs' ev st1 in (st2, ds @ ds'))"
proof (induction rs arbitrary: st)
  case (Cons r rs)
  obtain st1 ds where 1: "evaluate np r ev st = (st1, ds)" by (rule prod.exhaust)
  obtain st2 ds2 where 2: "eval_rules np rs ev st1 = (st2, ds2)" by (rule prod.exhaust)
  obtain st3 ds3 where 3: "eval_rules np rs' ev st2 = (st3, ds3)" by (rule prod.exhaust)
  show ?case using Cons.IH [of st1] by (simp add: 1 2 3)
qed (simp split: prod.split)

lemma evaluate_images [simp]: "stImages (fst (evaluate np r ev st)) = stImages st"
  by (cases r) (simp_all add: drift_eval_def egress_eval_def anomaly_eval_def agent_eval_def Let_def markExec_def markConnect_def
      split: option.split prod.split)

lemma rules_images [simp]: "stImages (fst (eval_rules np rs ev st)) = stImages st"
proof (induction rs arbitrary: st)
  case (Cons r rs)
  obtain st1 ds where 1: "evaluate np r ev st = (st1, ds)" by (rule prod.exhaust)
  have "stImages st1 = stImages st" using evaluate_images [of np r ev st] 1 by simp
  with Cons.IH [of st1] show ?case by (simp add: 1 case_prod_beta)
qed simp

lemma suffix_keys [simp]:
  "k @ ''|drift'' \<noteq> k' @ ''|anomaly''" "k @ ''|egress'' \<noteq> k' @ ''|anomaly''" "k @ ''|egress'' \<noteq> k' @ ''|agent''"
proof -
  have l: "last (k @ x) = last (k' @ y) \<Longrightarrow> x \<noteq> [] \<Longrightarrow> y \<noteq> [] \<Longrightarrow> last x = last y" for x y :: string by simp
  show "k @ ''|drift'' \<noteq> k' @ ''|anomaly''" using l [of "''|drift''" "''|anomaly''"] by auto
  show "k @ ''|egress'' \<noteq> k' @ ''|anomaly''" using l [of "''|egress''" "''|anomaly''"] by auto
  show "k @ ''|egress'' \<noteq> k' @ ''|agent''" using l [of "''|egress''" "''|agent''"] by auto
qed

definition drift_seen :: "rtState \<Rightarrow> (string \<times> string) set" where
  "drift_seen st = {(ck, exe). exe \<in> set (seen_under (stExec st) (ck @ ''|drift''))}"

lemma seen_after_mark:
  "set (seen_under (stExec (fst (markExec ck v st))) k) = (if k = ck then insert v (set (seen_under (stExec st) k)) else set (seen_under (stExec st) k))"
  "set (seen_under (stConnect (fst (markConnect ck v st))) k) = (if k = ck then insert v (set (seen_under (stConnect st) k)) else set (seen_under (stConnect st) k))"
  "stExec (fst (markConnect ck v st)) = stExec st" "stConnect (fst (markExec ck v st)) = stConnect st"
  by (simp_all add: markExec_def markConnect_def seen_under_mark case_prod_beta)

lemma mark_snd:
  "snd (markExec ck v st) \<longleftrightarrow> v \<notin> set (seen_under (stExec st) ck)"
  "snd (markConnect ck v st) \<longleftrightarrow> v \<notin> set (seen_under (stConnect st) ck)"
  by (simp_all add: markExec_def markConnect_def mark_novel case_prod_beta)

lemma evaluate_drift_seen: "r \<noteq> DriftRule \<Longrightarrow> drift_seen (fst (evaluate np r ev st)) = drift_seen st"
  by (cases r) (simp_all add: egress_eval_def anomaly_eval_def agent_eval_def Let_def drift_seen_def case_prod_beta seen_after_mark
      split: option.split)

lemma riID_drift: "riID (ruleInfo_of r) = ''DS-RAT-RT-002'' \<longleftrightarrow> r = DriftRule"
  by (cases r) (simp_all add: info_shell_def info_drift_def info_escape_def info_runtimeBinary_def info_privEsc_def info_sensitiveFile_def
      info_credTheft_def info_cryptoMining_def info_egress_def info_kernelAbuse_def info_reverseShell_def info_persistence_def
      info_fileless_def info_intel_def info_anomaly_def info_agentRuntime_def)

lemma eval_rules_no_drift:
  "DriftRule \<notin> set rs \<Longrightarrow> drift_seen (fst (eval_rules np rs ev st)) = drift_seen st
     \<and> filter (\<lambda>x. dRuleID x = ''DS-RAT-RT-002'') (snd (eval_rules np rs ev st)) = []"
proof (induction rs arbitrary: st)
  case (Cons r rs)
  obtain st1 ds where 1: "evaluate np r ev st = (st1, ds)" by (rule prod.exhaust)
  obtain st2 ds' where 2: "eval_rules np rs ev st1 = (st2, ds')" by (rule prod.exhaust)
  have r: "r \<noteq> DriftRule" using Cons.prems by auto
  have "drift_seen st1 = drift_seen st" using evaluate_drift_seen [OF r, of np ev st] 1 by simp
  moreover have "dRuleID d \<noteq> ''DS-RAT-RT-002''" if "d \<in> set ds" for d
    using evaluate_reports [of d np r ev st] that 1 r by (auto simp: reports_def riID_drift)
  ultimately show ?case using Cons.IH [of st1] Cons.prems by (auto simp: 1 2 filter_empty_conv)
qed simp

subsection \<open>Drift\<close>

text \<open>The executables an image did not ship, in a container whose inventory is known.\<close>

definition drift_target :: "(string \<times> string list) list \<Rightarrow> event \<Rightarrow> (string \<times> string) option" where
  "drift_target imgs ev =
     (let exe = piExe (evProcess ev) in
      if evKind ev \<noteq> KindProcess \<or> exe = [] then None
      else (case inventory_of \<lparr> stProcs = [], stImages = imgs, stExec = [], stConnect = [], stAcc = None \<rparr> (evContainer ev) of
          None \<Rightarrow> None
        | Some shipped \<Rightarrow> if exe \<in> set shipped then None else Some (containerKey (evContainer ev), exe)))"

definition drift_key :: "detection \<Rightarrow> string \<times> string" where
  "drift_key d = (containerKey (dContainer d), piExe (dProcess d))"

lemma inventory_images: "inventory_of st c = inventory_of \<lparr> stProcs = [], stImages = stImages st, stExec = [], stConnect = [], stAcc = None \<rparr> c"
  by (simp add: inventory_of_def)

lemma drift_key_fire [simp]: "drift_key (fire b ev msg meta) = (containerKey (evContainer ev), piExe (evProcess ev))"
  by (simp add: drift_key_def fire_def Let_def)

lemma drift_eval_spec:
  "drift_seen (fst (drift_eval ev st)) = drift_seen st \<union> set_option (drift_target (stImages st) ev)"
  "map drift_key (snd (drift_eval ev st))
     = (case drift_target (stImages st) ev of None \<Rightarrow> [] | Some k \<Rightarrow> if k \<in> drift_seen st then [] else [k])"
proof -
  have "drift_seen (fst (drift_eval ev st)) = drift_seen st \<union> set_option (drift_target (stImages st) ev)
     \<and> map drift_key (snd (drift_eval ev st))
     = (case drift_target (stImages st) ev of None \<Rightarrow> [] | Some k \<Rightarrow> if k \<in> drift_seen st then [] else [k])"
  proof (cases "drift_target (stImages st) ev")
    case None
    then show ?thesis
      by (auto simp: drift_eval_def drift_target_def Let_def inventory_images [of st] split: option.splits if_splits)
  next
    case (Some k)
    let ?exe = "piExe (evProcess ev)"
    let ?ck = "containerKey (evContainer ev)"
    from Some obtain shipped where c: "evKind ev = KindProcess" "?exe \<noteq> []" "inventory_of st (evContainer ev) = Some shipped"
      "?exe \<notin> set shipped" "k = (?ck, ?exe)"
      by (auto simp: drift_target_def Let_def inventory_images [of st] split: option.splits if_splits)
    have e: "drift_eval ev st = (fst (markExec (?ck @ ''|drift'') ?exe st),
        if \<not> snd (markExec (?ck @ ''|drift'') ?exe st) then []
        else [fire info_drift ev (''executable '' @ ?exe @ '' (pid '' @ pid_of ev @ '') is not part of image '' @ ciImageRef (evContainer ev))
                  [(''drifted_binary'', ?exe), (''image'', ciImageRef (evContainer ev))]])"
      using c(1-4) by (simp add: drift_eval_def case_prod_beta Let_def)
    have s1: "drift_seen (fst (markExec (?ck @ ''|drift'') ?exe st)) = insert (?ck, ?exe) (drift_seen st)"
      by (auto simp: drift_seen_def seen_after_mark split: if_splits)
    have s2: "snd (markExec (?ck @ ''|drift'') ?exe st) \<longleftrightarrow> (?ck, ?exe) \<notin> drift_seen st"
      by (simp add: drift_seen_def mark_snd)
    show ?thesis unfolding e Some using c(5) s1 s2 by simp
  qed
  then show "drift_seen (fst (drift_eval ev st)) = drift_seen st \<union> set_option (drift_target (stImages st) ev)"
    "map drift_key (snd (drift_eval ev st))
     = (case drift_target (stImages st) ev of None \<Rightarrow> [] | Some k \<Rightarrow> if k \<in> drift_seen st then [] else [k])" by blast+
qed

lemma before_rules_simps [simp]:
  "stExec (before_rules ev st) = stExec st" "stConnect (before_rules ev st) = stConnect st" "stImages (before_rules ev st) = stImages st"
  by (simp_all add: before_rules_def observe_def Let_def)

lemma Process_drift:
  assumes "dtRules d = defaultRules np opts"
  shows "stImages (dtState (fst (det_Process np d ev))) = stImages (dtState d)"
    and "dtRules (fst (det_Process np d ev)) = dtRules d"
    and "drift_seen (dtState (fst (det_Process np d ev))) = drift_seen (dtState d) \<union> set_option (drift_target (stImages (dtState d)) ev)"
    and "map drift_key (filter (\<lambda>x. dRuleID x = ''DS-RAT-RT-002'') (snd (det_Process np d ev)))
      = (case drift_target (stImages (dtState d)) ev of None \<Rightarrow> [] | Some k \<Rightarrow> if k \<in> drift_seen (dtState d) then [] else [k])"
proof -
  let ?st = "before_rules ev (dtState d)"
  let ?F = "filter (\<lambda>x. dRuleID x = ''DS-RAT-RT-002'')"
  obtain rest where rs: "dtRules d = [ShellRule] @ DriftRule # rest" "DriftRule \<notin> set rest"
    using assms by (simp add: defaultRules_def)
  have shell: "?F (shell_eval ev) = []"
    using stateless_reports(1) [of ev] riID_drift [of ShellRule] by (auto simp: filter_empty_conv list_all_iff reports_def)
  have drift: "?F (snd (drift_eval ev ?st)) = snd (drift_eval ev ?st)"
    using stateful_reports(1) [of ev ?st] riID_drift [of DriftRule] by (auto simp: filter_id_conv list_all_iff reports_def)
  note nd = eval_rules_no_drift [OF rs(2), of np ev "fst (drift_eval ev ?st)"]
  have ds: "drift_seen ?st = drift_seen (dtState d)" by (simp add: drift_seen_def)
  show "stImages (dtState (fst (det_Process np d ev))) = stImages (dtState d)"
    using rules_images [of np "dtRules d" ev ?st] by (simp add: det_Process_def case_prod_beta)
  show "dtRules (fst (det_Process np d ev)) = dtRules d" by (simp add: det_Process_def case_prod_beta)
  have pr: "det_Process np d ev = (d\<lparr> dtState := fst (eval_rules np rest ev (fst (drift_eval ev ?st))) \<rparr>,
      shell_eval ev @ snd (drift_eval ev ?st) @ snd (eval_rules np rest ev (fst (drift_eval ev ?st))))"
    by (simp add: det_Process_def rs(1) case_prod_beta)
  show "drift_seen (dtState (fst (det_Process np d ev))) = drift_seen (dtState d) \<union> set_option (drift_target (stImages (dtState d)) ev)"
    using nd drift_eval_spec(1) [of ev ?st, unfolded ds before_rules_simps] by (simp add: pr)
  show "map drift_key (?F (snd (det_Process np d ev)))
      = (case drift_target (stImages (dtState d)) ev of None \<Rightarrow> [] | Some k \<Rightarrow> if k \<in> drift_seen (dtState d) then [] else [k])"
    using nd drift_eval_spec(2) [of ev ?st, unfolded ds before_rules_simps] by (simp add: pr shell drift)
qed

interpretation drift: reports_once "rule_step np ''DS-RAT-RT-002''"
    "\<lambda>d. dtRules d = defaultRules np opts \<and> stImages (dtState d) = imgs" "\<lambda>d. drift_seen (dtState d)" "drift_target imgs" drift_key
  for np opts imgs
  by unfold_locales (auto simp: rule_step_def Process_drift)

lemma NewDetector_simps [simp]:
  "dtRules (NewDetector np opts images) = defaultRules np opts" "stImages (dtState (NewDetector np opts images)) = seed_images [] images"
  "stExec (dtState (NewDetector np opts images)) = []" "stConnect (dtState (NewDetector np opts images)) = []"
  by (simp_all add: NewDetector_def newState_def Let_def)

lemma drift_once:
  assumes "det_loop np (NewDetector np opts images) (map Next evs) = (d', ds, e)"
  shows "distinct (map drift_key (filter (\<lambda>d. dRuleID d = ''DS-RAT-RT-002'') ds))"
    "drift_key ` {d \<in> set ds. dRuleID d = ''DS-RAT-RT-002''} = (\<Union>ev \<in> set evs. set_option (drift_target (seed_images [] images) ev))"
proof -
  have "drift_seen (dtState (NewDetector np opts images)) = {}" by (simp add: drift_seen_def seen_under_def)
  with drift.collect_once [of "NewDetector np opts images" np opts "seed_images [] images" evs] assms
  have "distinct (map drift_key (filter (\<lambda>d. dRuleID d = ''DS-RAT-RT-002'') ds))
     \<and> set (map drift_key (filter (\<lambda>d. dRuleID d = ''DS-RAT-RT-002'') ds)) = (\<Union>ev \<in> set evs. set_option (drift_target (seed_images [] images) ev))"
    unfolding rule_collect by simp
  then show "distinct (map drift_key (filter (\<lambda>d. dRuleID d = ''DS-RAT-RT-002'') ds))"
    "drift_key ` {d \<in> set ds. dRuleID d = ''DS-RAT-RT-002''} = (\<Union>ev \<in> set evs. set_option (drift_target (seed_images [] images) ev))"
    by simp_all
qed

subsection \<open>A run of the detector\<close>

lemma mset_SortDetections [simp]: "mset (SortDetections ds) = mset ds"
  by (simp add: SortDetections_def)

lemma distinct_mset_map_filter: "mset xs = mset ys \<Longrightarrow> distinct (map f (filter P xs)) = distinct (map f (filter P ys))"
  by (metis mset_eq_imp_distinct_iff mset_filter mset_map)

text \<open>
  C19: Drift is reported once: over any stream a fresh detector reports, for each container and executable
  the inventory does not hold, one detection if some event of the stream runs it there and none
  otherwise.
\<close>

theorem drift_reported_once:
  "distinct (map drift_key (filter (\<lambda>d. dRuleID d = ''DS-RAT-RT-002'') (fst (snd (det_Run np (NewDetector np opts images) (map Next evs))))))
   \<and> drift_key ` {d \<in> set (fst (snd (det_Run np (NewDetector np opts images) (map Next evs)))). dRuleID d = ''DS-RAT-RT-002''}
       = (\<Union>ev \<in> set evs. set_option (drift_target (seed_images [] images) ev))"
proof -
  obtain d' ds e where l: "det_loop np (NewDetector np opts images) (map Next evs) = (d', ds, e)" by (metis prod_cases3)
  have s: "set (SortDetections ds) = set ds" by (metis mset_SortDetections mset_eq_setD)
  show ?thesis
    using drift_once [OF l] distinct_mset_map_filter [OF mset_SortDetections, of drift_key "\<lambda>d. dRuleID d = ''DS-RAT-RT-002''" ds]
    by (simp add: det_Run_def l s)
qed

text \<open>
  An argument that assigns a sensitive key carries no value.
\<close>

definition arg_masked :: "string \<Rightarrow> bool" where
  "arg_masked a = (case cut_byte (CHR ''='') a of None \<Rightarrow> True | Some (k, v) \<Rightarrow> isSensitiveKey k \<longrightarrow> v \<in> {[], ''***''})"

lemma redactToken_masked [simp]: "arg_masked (redactToken t)"
proof (cases "cut_byte (CHR ''='') t")
  case None
  then show ?thesis by (auto simp: redactToken_def arg_masked_def cut_byte_def)
next
  case (Some kv)
  obtain k v where kv: "kv = (k, v)" by (rule prod.exhaust)
  with Some have c: "cut_byte (CHR ''='') t = Some (k, v)" by simp
  have "CHR ''='' \<notin> set k" using c by (auto dest: cut_byte_Some)
  from cut_byte_append [OF this, of "''***''"] have "cut_byte (CHR ''='') (k @ ''=***'') = Some (k, ''***'')" by simp
  moreover have "arg_masked ''***''" by code_simp
  ultimately show ?thesis using c by (auto simp: redactToken_def arg_masked_def)
qed

definition detection_masked :: "detection \<Rightarrow> bool" where
  "detection_masked d \<longleftrightarrow> list_all arg_masked (piArgs (dProcess d))
     \<and> (case dTrigger d of None \<Rightarrow> True | Some ev \<Rightarrow> list_all arg_masked (piArgs (evProcess ev)))"

lemma reports_masked: "reports r ev d \<Longrightarrow> detection_masked d"
  by (simp add: reports_def detection_masked_def redact_event_def redactArgs_def list_all_iff)

lemma Process_masked: "x \<in> set (snd (det_Process np d ev)) \<Longrightarrow> detection_masked x"
  using eval_rules_reports [of x np "dtRules d" ev "before_rules ev (dtState d)"] reports_masked
  by (auto simp: det_Process_def split: prod.splits)

lemma loop_masked: "x \<in> set (fst (snd (det_loop np d src))) \<Longrightarrow> detection_masked x"
proof (induction np d src rule: det_loop.induct)
  case (3 np d ev src)
  obtain d1 ds where 1: "det_Process np d ev = (d1, ds)" by (rule prod.exhaust)
  obtain d2 ds' e where 2: "det_loop np d1 src = (d2, ds', e)" by (metis prod_cases3)
  show ?case using 3 Process_masked [of x np d ev] by (auto simp: 1 2)
qed simp_all

text \<open>
  C21: Whatever the rules and the stream, no detection of a run carries the value of a sensitive assignment, in
  its process or in the triggering event it keeps; redaction done again changes nothing.
\<close>

theorem run_redacts:
  "list_all detection_masked (fst (snd (det_Run np d src)))
   \<and> redactArgs (redactArgs args) = redactArgs args"
proof -
  obtain d' ds e where l: "det_loop np d src = (d', ds, e)" by (metis prod_cases3)
  have "set (SortDetections ds) = set ds" by (metis mset_SortDetections mset_eq_setD)
  moreover have "list_all detection_masked ds" using loop_masked [of _ np d src] by (simp add: l list_all_iff)
  ultimately show ?thesis by (simp add: det_Run_def l list_all_iff redactArgs_def)
qed

text \<open>
  A secret passed as a token of its own is not an assignment, and rides along: the redaction leaves
  \<^verbatim>\<open>--password hunter2\<close> as it is.
\<close>

lemma separate_secret_kept:
  "redactArgs [''mysql'', ''--password'', ''hunter2''] = [''mysql'', ''--password'', ''hunter2'']"
  "redactArgs [''mysql'', ''--password=hunter2''] = [''mysql'', ''--password=***'']"
  by code_simp+

text \<open>
  A stream that breaks off yields what the events before the error yield, in canonical order, with the error.
\<close>

lemma loop_error: "det_loop np d (map Next evs @ NextErr e # rest)
   = (fst (det_loop np d (map Next evs)), fst (snd (det_loop np d (map Next evs))), Some e)"
proof (induction evs arbitrary: d)
  case (Cons ev evs)
  obtain d1 ds where 1: "det_Process np d ev = (d1, ds)" by (rule prod.exhaust)
  show ?case using Cons.IH [of d1] by (simp add: 1 case_prod_beta)
qed simp

lemma detection_less_weak: "strict_weak detection_less"
  unfolding detection_less_def by (intro strict_weak_ikey strict_weak_key) (simp add: strict_weak_def)

lemma Run_partial:
  "det_Run np d (map Next evs @ NextErr e # rest) = (fst (det_Run np d (map Next evs)), fst (snd (det_Run np d (map Next evs))), Some e)"
  by (simp add: det_Run_def loop_error case_prod_beta)

lemma Run_sorted: "sorted_wrt (\<lambda>a b. \<not> detection_less b a) (fst (snd (det_Run np d src)))"
  using strict_weak.sorted [OF detection_less_weak] by (simp add: det_Run_def case_prod_beta SortDetections_def)

subsection \<open>Cron directories\<close>

text \<open>
  The prefix \<^verbatim>\<open>/etc/cron\<close> is matched at a path boundary, so the files cron reads are not covered by it:
  writing a job there is reported by no rule.
\<close>

definition cron_write :: "string \<Rightarrow> event" where
  "cron_write p = \<lparr> evSeq = 1, evTime = 0, evKind = KindFile,
     evContainer = \<lparr> ciID = ''c1'', ciName = ''web'', ciImageID = [], ciImageRef = ''web:1'', ciRuntime = ''runc'', ciPrivileged = False, ciAIAgent = False \<rparr>,
     evProcess = \<lparr> piPID = 7, piPPID = 1, piComm = ''app'', piExe = ''/usr/bin/app'', piArgs = [''app''], piUID = 0, piGID = 0, piCgroupID = 0,
       piAncestry = [''app''], piCaps = [], piTTY = False, piStdioSocket = False \<rparr>,
     evFile = Some \<lparr> fePath = p, feOp = ''write'', feFlags = ''O_WRONLY|O_CREAT'', feMode = 0, feTargetUID = 0 \<rparr>,
     evNetwork = None, evSyscall = None, evLabels = [] \<rparr>"

lemma cron_writes_missed:
  "sensitiveFile_eval (cron_write ''/etc/cron.d/job'') = []" "persistence_eval (cron_write ''/etc/cron.d/job'') = []"
  "sensitiveFile_eval (cron_write ''/etc/crontab'') = []" "persistence_eval (cron_write ''/etc/crontab'') = []"
  "sensitiveFile_eval (cron_write ''/etc/cron/job'') \<noteq> []"
  by code_simp+

end
