(* ===== verification/RtResponse.thy ===== *)
theory RtResponse
  imports RtDetector
begin

text \<open>
  What the runtime daemon does with a detection: operator exceptions (\<^verbatim>\<open>exceptions.go\<close>), the response
  policy and its responders (\<^verbatim>\<open>response.go\<close>, \<^verbatim>\<open>enforce.go\<close>, \<^verbatim>\<open>enforce_linux.go\<close>,
  \<^verbatim>\<open>enforce_other.go\<close>) and incidents with their playbooks (\<^verbatim>\<open>incident.go\<close>). The effects an
  enforcing responder has on the machine are a log; whether a signal or a docker command succeeds is a
  parameter.
\<close>

subsection \<open>Exceptions\<close>

record rtException =
  exRuleID :: string
  exImageRef :: string
  exContainer :: string
  exPathPrefix :: string
  exArgSubstr :: string
  exNote :: string

type_synonym exceptionSet = "rtException list option"

definition exception_matches :: "rtException \<Rightarrow> detection \<Rightarrow> bool" where
  "exception_matches ex d =
     (if exRuleID ex \<noteq> dRuleID d then False
      else if exImageRef ex \<noteq> [] \<and> exImageRef ex \<noteq> ciImageRef (dContainer d) then False
      else if exContainer ex \<noteq> [] \<and> exContainer ex \<noteq> ciName (dContainer d) \<and> exContainer ex \<noteq> ciID (dContainer d) then False
      else if exPathPrefix ex \<noteq> [] \<and> \<not> strings_HasPrefix (kv_str (dMetadata d) ''path'') (exPathPrefix ex) then False
      else if exArgSubstr ex \<noteq> [] \<and> \<not> strings_Contains (join_with '' '' (piArgs (dProcess d))) (exArgSubstr ex) then False
      else True)"

definition Suppressed :: "exceptionSet \<Rightarrow> detection \<Rightarrow> bool" where
  "Suppressed e d = (case e of None \<Rightarrow> False | Some rules \<Rightarrow> list_ex (\<lambda>ex. exception_matches ex d) rules)"

definition exceptionsSizeLimit :: nat where
  "exceptionsSizeLimit = 67108864"

text \<open>
  The file's content or the error of opening it; the strict JSON decoder is a parameter.
\<close>

definition LoadExceptions :: "(bytes \<Rightarrow> string + rtException list) \<Rightarrow> string + bytes \<Rightarrow> string + exceptionSet" where
  "LoadExceptions decode file =
     (case file of Inl e \<Rightarrow> Inl (''open exceptions: '' @ e)
      | Inr content \<Rightarrow>
          (let data = take (exceptionsSizeLimit + 1) content in
           if length data > exceptionsSizeLimit then Inl (''exceptions file exceeds '' @ fmt_int (int exceptionsSizeLimit) @ '' byte limit'')
           else (case decode data of Inl e \<Rightarrow> Inl (''decode exceptions: '' @ e) | Inr es \<Rightarrow> Inr (Some es))))"

subsection \<open>Response\<close>

definition ResponseDetect :: string where "ResponseDetect = ''detect''"
definition ResponseEnforce :: string where "ResponseEnforce = ''enforce''"

definition ActionAlert :: string where "ActionAlert = ''alert''"
definition ActionKill :: string where "ActionKill = ''kill''"
definition ActionQuarantine :: string where "ActionQuarantine = ''quarantine''"

lemma actions_distinct [simp]:
  "ActionAlert \<noteq> ActionKill" "ActionAlert \<noteq> ActionQuarantine" "ActionKill \<noteq> ActionQuarantine"
  "ActionKill \<noteq> ActionAlert" "ActionQuarantine \<noteq> ActionAlert" "ActionQuarantine \<noteq> ActionKill"
  by (simp_all add: ActionAlert_def ActionKill_def ActionQuarantine_def)

record rtAction =
  acKind :: string
  acRuleID :: string
  acContainer :: string
  acPID :: int
  acReason :: string

record responsePolicy =
  rpMode :: string
  rpAcknowledged :: bool
  rpKillSeverity :: severity

definition DefaultResponsePolicy :: responsePolicy where
  "DefaultResponsePolicy = \<lparr> rpMode = ResponseDetect, rpAcknowledged = False, rpKillSeverity = SeverityCritical \<rparr>"

definition armed :: "responsePolicy \<Rightarrow> bool" where
  "armed p \<longleftrightarrow> rpMode p = ResponseEnforce \<and> rpAcknowledged p"

definition Plan :: "responsePolicy \<Rightarrow> detection \<Rightarrow> rtAction" where
  "Plan p d =
     (let base = \<lparr> acKind = [], acRuleID = dRuleID d, acContainer = containerKey (dContainer d), acPID = piPID (dProcess d),
                    acReason = dTitle d \<rparr> in
      if \<not> armed p \<or> dSeverity d < rpKillSeverity p then base\<lparr> acKind := ActionAlert \<rparr>
      else if dRuleID d \<in> {''DS-RAT-RT-003'', ''DS-RAT-RT-008''} then base\<lparr> acKind := ActionQuarantine \<rparr>
      else base\<lparr> acKind := ActionKill \<rparr>)"

text \<open>
  A responder takes an action in its state and returns the new state and an error; what the daemon relies on is
  that every action it asked for is on the responder's record.
\<close>

type_synonym 'r responder = "rtAction \<Rightarrow> 'r \<Rightarrow> 'r \<times> string option"

locale audited =
  fixes act :: "'r responder" and trail :: "'r \<Rightarrow> rtAction list"
  assumes trail_act: "trail (fst (act a r)) = trail r @ [a]"
begin

definition act_all :: "rtAction list \<Rightarrow> 'r \<Rightarrow> 'r" where
  "act_all acts r = fold (\<lambda>a r. fst (act a r)) acts r"

lemma trail_all: "trail (act_all acts r) = trail r @ acts"
  unfolding act_all_def by (induction acts arbitrary: r) (simp_all add: trail_act)

end

definition recording_Do :: "(rtAction list) responder" where
  "recording_Do a acts = (acts @ [a], None)"

interpretation recording: audited recording_Do "\<lambda>acts. acts"
  by unfold_locales (simp add: recording_Do_def)

subsection \<open>The enforcing responder\<close>

datatype rtEffect = SIGKILL int | DockerRun "string list"

record sideEffects =
  seKill :: "int \<Rightarrow> rtEffect list \<times> string option"
  sePause :: "string \<Rightarrow> rtEffect list \<times> string option"
  seIsolate :: "string \<Rightarrow> rtEffect list \<times> string option"

record enforcer =
  enPolicy :: responsePolicy
  enRecorder :: "rtAction list"
  enEffects :: "rtEffect list"

text \<open>What the switch on the action's kind does.\<close>

definition enforce_kind :: "sideEffects \<Rightarrow> rtAction \<Rightarrow> rtEffect list \<times> string option" where
  "enforce_kind se a =
     (if acKind a = ActionKill then seKill se (acPID a)
      else if acKind a = ActionQuarantine then
        (case sePause se (acContainer a) of
           (es, Some e) \<Rightarrow> (es, Some e)
         | (es, None) \<Rightarrow> (case seIsolate se (acContainer a) of (es', err) \<Rightarrow> (es @ es', err)))
      else ([], None))"

definition enforcing_Do :: "sideEffects \<Rightarrow> enforcer responder" where
  "enforcing_Do se a r =
     (let r1 = r\<lparr> enRecorder := fst (recording_Do a (enRecorder r)) \<rparr> in
      if \<not> armed (enPolicy r1) then (r1, None)
      else (case enforce_kind se a of (es, err) \<Rightarrow> (r1\<lparr> enEffects := enEffects r1 @ es \<rparr>, err)))"

interpretation enforcing: audited "enforcing_Do se" enRecorder for se
  by unfold_locales (simp add: enforcing_Do_def recording_Do_def Let_def split: prod.split)

text \<open>
  The machine as a responder meets it: the error of a signal, of looking docker up, and of a docker command
  with the given arguments.
\<close>

record rtHost =
  hoSignal :: "int \<Rightarrow> string option"
  hoLookPath :: "string option"
  hoDocker :: "string list \<Rightarrow> string option"

definition idByte :: "char \<Rightarrow> bool" where
  "idByte c \<longleftrightarrow> isDigit c \<or> isAlpha c \<or> c = CHR ''_'' \<or> c = CHR ''.'' \<or> c = CHR ''-''"

definition validContainerID :: "string \<Rightarrow> bool" where
  "validContainerID i = (case i of [] \<Rightarrow> False
     | c # cs \<Rightarrow> (isDigit c \<or> isAlpha c) \<and> list_all idByte cs \<and> length cs \<le> 127)"

definition run_docker :: "rtHost \<Rightarrow> string list \<Rightarrow> string \<Rightarrow> rtEffect list \<times> string option" where
  "run_docker h args i =
     (if \<not> validContainerID i then ([], Some (''enforce: refusing unsafe container id '' @ fmt_q i))
      else (case hoLookPath h of Some e \<Rightarrow> ([], Some (''enforce: docker binary not found: '' @ e))
        | None \<Rightarrow> ([DockerRun (args @ [i])], map_option (\<lambda>m. ''docker '' @ join_with '' '' (args @ [i]) @ '': '' @ m) (hoDocker h (args @ [i])))))"

definition dockerAction :: "rtHost \<Rightarrow> string \<Rightarrow> string \<Rightarrow> rtEffect list \<times> string option" where
  "dockerAction h verb i = run_docker h [verb] i"

definition dockerNetworkDisconnect :: "rtHost \<Rightarrow> string \<Rightarrow> rtEffect list \<times> string option" where
  "dockerNetworkDisconnect h i = run_docker h [''network'', ''disconnect'', ''bridge''] i"

definition linux_kill :: "rtHost \<Rightarrow> int \<Rightarrow> rtEffect list \<times> string option" where
  "linux_kill h pid =
     (if pid \<le> 0 then ([], Some (''enforce: refusing to signal invalid pid '' @ fmt_int pid)) else ([SIGKILL pid], hoSignal h pid))"

definition linux_effects :: "rtHost \<Rightarrow> sideEffects" where
  "linux_effects h = \<lparr> seKill = linux_kill h, sePause = dockerAction h ''pause'', seIsolate = dockerNetworkDisconnect h \<rparr>"

definition ErrLiveUnsupported :: string where
  "ErrLiveUnsupported = ''runtime: live kernel event source is only available on Linux''"

definition inert_effects :: sideEffects where
  "inert_effects = \<lparr> seKill = (\<lambda>_. ([], Some ErrLiveUnsupported)), sePause = (\<lambda>_. ([], Some ErrLiveUnsupported)),
     seIsolate = (\<lambda>_. ([], Some ErrLiveUnsupported)) \<rparr>"

definition NewEnforcingResponder :: "responsePolicy \<Rightarrow> enforcer" where
  "NewEnforcingResponder p = \<lparr> enPolicy = p, enRecorder = [], enEffects = [] \<rparr>"

lemma enforcing_policy [simp]: "enPolicy (fst (enforcing_Do se a r)) = enPolicy r"
  by (simp add: enforcing_Do_def recording_Do_def Let_def split: prod.split)

lemma enforcing_effects:
  "enEffects (fst (enforcing_Do se a r)) = enEffects r @ (if armed (enPolicy r) then fst (enforce_kind se a) else [])"
  by (simp add: enforcing_Do_def recording_Do_def Let_def split: prod.split)

text \<open>What the actions do to the machine in turn, when they are carried out.\<close>

definition action_effects :: "sideEffects \<Rightarrow> rtAction list \<Rightarrow> rtEffect list" where
  "action_effects se acts = concat (map (\<lambda>a. fst (enforce_kind se a)) acts)"

lemma action_effects_simps [simp]:
  "action_effects se [] = []" "action_effects se (a # acts) = fst (enforce_kind se a) @ action_effects se acts"
  by (simp_all add: action_effects_def)

text \<open>
  The whole effect of a sequence of actions is that of each in turn when the policy is armed, and nothing otherwise.
\<close>

lemma enforcing_all:
  "enEffects (enforcing.act_all se acts r)
     = enEffects r @ (if armed (enPolicy r) then action_effects se acts else [])"
proof (induction acts arbitrary: r)
  case (Cons a acts)
  show ?case using Cons.IH [of "fst (enforcing_Do se a r)"]
    by (simp add: enforcing.act_all_def enforcing_effects)
qed (simp add: enforcing.act_all_def)

lemma alert_harmless [simp]: "acKind a = ActionAlert \<Longrightarrow> enforce_kind se a = ([], None)"
  by (simp add: enforce_kind_def)

lemma unarmed_alert: "\<not> armed p \<Longrightarrow> acKind (Plan p d) = ActionAlert"
  by (simp add: Plan_def Let_def)

lemma mild_alert: "dSeverity d < rpKillSeverity p \<Longrightarrow> acKind (Plan p d) = ActionAlert"
  by (simp add: Plan_def Let_def)

lemma default_unarmed [simp]: "\<not> armed DefaultResponsePolicy"
  by (simp add: armed_def DefaultResponsePolicy_def ResponseDetect_def ResponseEnforce_def)

text \<open>What a responder may do to the machine: a signal to a positive pid, a docker command on a safe container name.\<close>

definition safe_effect :: "rtEffect \<Rightarrow> bool" where
  "safe_effect e = (case e of SIGKILL pid \<Rightarrow> pid > 0
     | DockerRun args \<Rightarrow> (\<exists>i. validContainerID i \<and> args \<in> {[''pause'', i], [''network'', ''disconnect'', ''bridge'', i]}))"

lemma enforce_kind_safe: "list_all safe_effect (fst (enforce_kind (linux_effects h) a))"
  by (auto simp: enforce_kind_def linux_effects_def linux_kill_def dockerAction_def dockerNetworkDisconnect_def run_docker_def
      safe_effect_def split: prod.splits option.splits)

lemma planned_effects:
  "action_effects se (map (Plan p) ds)
     = (if armed p then action_effects se (map (Plan p) (filter (\<lambda>d. rpKillSeverity p \<le> dSeverity d) ds)) else [])"
  by (induction ds) (auto simp: unarmed_alert mild_alert)

text \<open>
  Enforcement is gated twice: whatever actions a responder is asked to perform, its record is complete,
  without an armed policy the machine is not touched, and with one it is touched by the actions in turn,
  each signal going to a positive pid and each docker command to a container name that is no option and
  holds no special byte. Planned actions touch it only for detections at or above the kill severity.
\<close>

theorem enforcement_gated:
  "enRecorder (enforcing.act_all (linux_effects h) acts r) = enRecorder r @ acts
   \<and> enEffects (enforcing.act_all (linux_effects h) acts r)
       = enEffects r @ (if armed (enPolicy r) then action_effects (linux_effects h) acts else [])
   \<and> list_all safe_effect (action_effects (linux_effects h) acts)
   \<and> action_effects (linux_effects h) (map (Plan p) ds)
       = (if armed p then action_effects (linux_effects h) (map (Plan p) (filter (\<lambda>d. rpKillSeverity p \<le> dSeverity d) ds)) else [])"
proof (intro conjI)
  show "list_all safe_effect (action_effects (linux_effects h) acts)"
    using enforce_kind_safe [of h] by (auto simp: list_all_iff action_effects_def)
  show "action_effects (linux_effects h) (map (Plan p) ds)
       = (if armed p then action_effects (linux_effects h) (map (Plan p) (filter (\<lambda>d. rpKillSeverity p \<le> dSeverity d) ds)) else [])"
    by (rule planned_effects)
qed (simp_all add: enforcing.trail_all enforcing_all)

lemma named_container_refused:
  assumes "ciID c = []" "ciName c \<noteq> []"
  shows "\<not> validContainerID (containerKey c)"
proof -
  have at: "\<not> idByte CHR ''@''" "\<not> isDigit CHR ''@''" "\<not> isAlpha CHR ''@''" by code_simp+
  have "containerKey c = ciName c @ CHR ''@'' # ciImageRef c" using assms by (simp add: containerKey_def)
  then show ?thesis using assms(2) at
    by (cases "ciName c") (auto simp: validContainerID_def)
qed

text \<open>
  A container known by name only is addressed as name and image joined by an at sign, which is no container name: an
  armed quarantine of it runs no command and returns an error, which the daemon drops.
\<close>

theorem named_quarantine_lost:
  assumes "ciID (dContainer d) = []" "ciName (dContainer d) \<noteq> []" "armed p" "rpKillSeverity p \<le> dSeverity d"
    "dRuleID d = ''DS-RAT-RT-003''"
  shows "acKind (Plan p d) = ActionQuarantine
    \<and> fst (enforce_kind (linux_effects h) (Plan p d)) = [] \<and> snd (enforce_kind (linux_effects h) (Plan p d)) \<noteq> None"
proof -
  have q: "acKind (Plan p d) = ActionQuarantine" using assms by (simp add: Plan_def Let_def)
  have c: "acContainer (Plan p d) = containerKey (dContainer d)" by (simp add: Plan_def Let_def)
  show ?thesis
    using q named_container_refused [OF assms(1,2)]
    by (simp_all add: enforce_kind_def q c linux_effects_def dockerAction_def run_docker_def)
qed

definition named_detection :: detection where
  "named_detection =
     \<lparr> dRuleID = ''DS-RAT-RT-003'', dSeverity = SeverityCritical, dTitle = ''Container escape attempt'', dMessage = ''escape tool executed'',
       dTechnique = techEscapeToHost, dSeq = 1, dTime = 0,
       dContainer = \<lparr> ciID = [], ciName = ''web'', ciImageID = [], ciImageRef = ''web:1'', ciRuntime = [], ciPrivileged = True, ciAIAgent = False \<rparr>,
       dProcess = \<lparr> piPID = 7, piPPID = 1, piComm = ''nsenter'', piExe = ''/usr/bin/nsenter'', piArgs = [], piUID = 0, piGID = 0, piCgroupID = 0,
         piAncestry = [], piCaps = [], piTTY = False, piStdioSocket = False \<rparr>,
       dRemediation = [], dReferences = [], dMetadata = [], dTrigger = None \<rparr>"

theorem named_quarantine_lost_witness:
  "fst (enforce_kind (linux_effects \<lparr> hoSignal = (\<lambda>_. None), hoLookPath = None, hoDocker = (\<lambda>_. None) \<rparr>)
      (Plan \<lparr> rpMode = ResponseEnforce, rpAcknowledged = True, rpKillSeverity = SeverityHigh \<rparr> named_detection)) = []"
  by (rule named_quarantine_lost [THEN conjunct2, THEN conjunct1]) (simp_all add: named_detection_def armed_def SeverityCritical_def SeverityHigh_def)

text \<open>An exception that narrows another suppresses no more than it.\<close>

definition narrows :: "rtException \<Rightarrow> rtException \<Rightarrow> bool" where
  "narrows ex wide \<longleftrightarrow> exRuleID ex = exRuleID wide
     \<and> exImageRef wide \<in> {[], exImageRef ex} \<and> exContainer wide \<in> {[], exContainer ex}
     \<and> strings_HasPrefix (exPathPrefix ex) (exPathPrefix wide) \<and> exArgSubstr wide \<in> {[], exArgSubstr ex}"

lemma HasPrefix_trans:
  assumes "strings_HasPrefix s p" "strings_HasPrefix p q"
  shows "strings_HasPrefix s q"
proof -
  have s: "take (length p) s = p" and q: "take (length q) p = q" using assms by (simp_all add: strings_HasPrefix_def)
  have "take (length q) (take (length p) s) = q" using q by (simp only: s)
  moreover have "length q \<le> length p" using arg_cong [OF q, of length] by simp
  ultimately show ?thesis by (simp add: strings_HasPrefix_def min_absorb1)
qed

lemma exception_matches_iff:
  "exception_matches ex d \<longleftrightarrow> exRuleID ex = dRuleID d \<and> exImageRef ex \<in> {[], ciImageRef (dContainer d)}
     \<and> exContainer ex \<in> {[], ciName (dContainer d), ciID (dContainer d)}
     \<and> strings_HasPrefix (kv_str (dMetadata d) ''path'') (exPathPrefix ex)
     \<and> (exArgSubstr ex = [] \<or> strings_Contains (join_with '' '' (piArgs (dProcess d))) (exArgSubstr ex))"
  unfolding exception_matches_def by (cases "exPathPrefix ex = []") (simp_all add: strings_HasPrefix_def)

lemma narrows_matches:
  assumes "narrows ex wide" "exception_matches ex d"
  shows "exception_matches wide d"
  using assms HasPrefix_trans [of "kv_str (dMetadata d) ''path''" "exPathPrefix ex" "exPathPrefix wide"]
  unfolding narrows_def exception_matches_iff by (elim conjE) (intro conjI; (elim insertE emptyE)?; simp)

subsection \<open>Incidents\<close>

record playbookStep =
  pbOrder :: int
  pbAction :: string
  pbCommand :: string
  pbGuardrail :: string
  pbAutomatable :: bool

record incident =
  inID :: string
  inRuleID :: string
  inTitle :: string
  inSeverity :: severity
  inTechnique :: technique
  inSummary :: string
  inContainer :: containerInfo
  inPlaybook :: "playbookStep list"
  inAutomatable :: bool
  inReferences :: "string list"

definition incident_preimage :: "detection \<Rightarrow> bytes" where
  "incident_preimage d = dRuleID d @ [CHR 0x00] @ containerKey (dContainer d) @ [CHR 0x00] @ fmt_int (sint (dSeq d))"

definition incidentID :: "detection \<Rightarrow> string" where
  "incidentID d = ''INC-'' @ take 12 (hex_encode (sha256 (incident_preimage d)))"

definition playbookFor :: "detection \<Rightarrow> playbookStep list" where
  "playbookFor d =
     \<lparr> pbOrder = 1, pbAction = ''Capture a forensic bundle for the offending container (process tree + event window).'',
       pbCommand = ''dsecrat-runtime replay --forensics-dir ./evidence <capture>'', pbGuardrail = ''Read-only; always safe.'',
       pbAutomatable = True \<rparr> #
     (if dRuleID d \<in> {''DS-RAT-RT-003'', ''DS-RAT-RT-008''} then
        [\<lparr> pbOrder = 2, pbAction = ''Cordon the node so no new workloads schedule onto it.'', pbCommand = ''kubectl cordon <node>'',
           pbGuardrail = ''Confirm the node hosts no single-replica critical workloads first.'', pbAutomatable = False \<rparr>,
         \<lparr> pbOrder = 3, pbAction = ''Quarantine the pod: cut its network and pause it for live analysis.'',
           pbCommand = ''kubectl label pod <pod> quarantine=true  # triggers deny-all NetworkPolicy'',
           pbGuardrail = ''Requires a pre-provisioned quarantine NetworkPolicy.'', pbAutomatable = True \<rparr>,
         \<lparr> pbOrder = 4, pbAction = ''Snapshot the node for offline forensics before remediation.'', pbCommand = [],
           pbGuardrail = ''Storage/volume snapshot permissions required.'', pbAutomatable = False \<rparr>]
      else if dRuleID d = ''DS-RAT-RT-005'' then
        [\<lparr> pbOrder = 2, pbAction = ''Rotate any credential the workload could reach (SA token, cloud keys).'',
           pbCommand = ''kubectl delete secret <sa-token>  # forces reissue'',
           pbGuardrail = ''Confirm dependent workloads tolerate rotation.'', pbAutomatable = False \<rparr>,
         \<lparr> pbOrder = 3, pbAction = ''Block IMDS egress from the pod and enforce IMDSv2 hop-limit 1.'', pbCommand = [],
           pbGuardrail = ''Requires NetworkPolicy / IMDSv2 support.'', pbAutomatable = True \<rparr>]
      else
        [\<lparr> pbOrder = 2, pbAction = (''Isolate the container'' @
       [CHR 0x27] @
       ''s network (deny-all egress) pending triage.''),
           pbCommand = ''kubectl label pod <pod> quarantine=true'',
           pbGuardrail = ''Requires a pre-provisioned quarantine NetworkPolicy.'', pbAutomatable = True \<rparr>,
         \<lparr> pbOrder = 3, pbAction = ''If confirmed malicious, terminate the offending process / redeploy from a trusted image.'',
           pbCommand = [], pbGuardrail = ''Human confirmation recommended for production.'', pbAutomatable = False \<rparr>])"

definition allAutomatable :: "playbookStep list \<Rightarrow> bool" where
  "allAutomatable steps = list_all pbAutomatable steps"

definition BuildIncident :: "detection \<Rightarrow> incident" where
  "BuildIncident d =
     \<lparr> inID = incidentID d, inRuleID = dRuleID d, inTitle = dTitle d, inSeverity = dSeverity d, inTechnique = dTechnique d,
       inSummary = dMessage d, inContainer = dContainer d, inPlaybook = playbookFor d,
       inAutomatable = allAutomatable (playbookFor d), inReferences = dReferences d \<rparr>"

end
