(* ===== verification/RtForensics.thy ===== *)
theory RtForensics
  imports RtResponse
begin

text \<open>
  Capture-on-alert forensics (\<^verbatim>\<open>forensics.go\<close>) and the ring of recent events it seals
  (\<^verbatim>\<open>eventRing\<close> in \<^verbatim>\<open>daemon.go\<close>). The JSON encoder and decoder are parameters; the file system is
  a map from paths to contents, with the errors of the environment as parameters.
\<close>

subsection \<open>The ring of recent events\<close>

record eventRing =
  erBuf :: "event list"
  erSize :: nat
  erN :: nat

definition newEventRing :: "nat \<Rightarrow> eventRing" where
  "newEventRing n = \<lparr> erBuf = [], erSize = n, erN = 0 \<rparr>"

definition ring_push :: "event \<Rightarrow> eventRing \<Rightarrow> eventRing" where
  "ring_push ev r =
     (let r1 = (if length (erBuf r) < erSize r then r\<lparr> erBuf := erBuf r @ [ev] \<rparr>
                else r\<lparr> erBuf := (erBuf r)[erN r mod erSize r := ev] \<rparr>)
      in r1\<lparr> erN := erN r1 + 1 \<rparr>)"

definition ring_slice :: "eventRing \<Rightarrow> event list" where
  "ring_slice r =
     (if length (erBuf r) < erSize r then erBuf r
      else map (\<lambda>i. erBuf r ! ((erN r + i) mod erSize r)) [0..<erSize r])"

text \<open>What a window of recent elements promises: it holds the last ones, oldest first.\<close>

locale recent_window =
  fixes fresh :: 'w and push :: "'e \<Rightarrow> 'w \<Rightarrow> 'w" and contents :: "'w \<Rightarrow> 'e list" and bound :: nat
  assumes fresh: "contents fresh = []"
    and push: "w = fold push es fresh \<Longrightarrow> contents (push e w) = drop (length (contents w) + 1 - bound) (contents w @ [e])"
begin

lemma contents_recent: "contents (fold push es fresh) = drop (length es - bound) es"
proof (induction es rule: rev_induct)
  case (snoc e es)
  have "contents (push e (fold push es fresh)) = drop (length (drop (length es - bound) es) + 1 - bound) (drop (length es - bound) es @ [e])"
    using push [OF refl, where es = es and e = e] by (simp only: snoc)
  also have "\<dots> = drop (length (es @ [e]) - bound) (es @ [e])"
    by (cases "length es < bound") (simp_all add: Suc_diff_le)
  finally show ?case by simp
qed (simp add: fresh)

end

text \<open>The ring after pushing a sequence: slot \<open>i\<close> of a full ring holds the last element pushed at an index congruent to it.\<close>

definition ring_inv :: "nat \<Rightarrow> event list \<Rightarrow> eventRing \<Rightarrow> bool" where
  "ring_inv n es r \<longleftrightarrow> erSize r = n \<and> erN r = length es \<and> length (erBuf r) = min n (length es)
     \<and> (\<forall>j < length es. length es \<le> j + n \<longrightarrow> erBuf r ! (j mod n) = es ! j)"

lemma ring_inv_push:
  assumes "0 < n" "ring_inv n es r"
  shows "ring_inv n (es @ [e]) (ring_push e r)"
proof -
  have r: "erSize r = n" "erN r = length es" "length (erBuf r) = min n (length es)"
    "\<And>j. j < length es \<Longrightarrow> length es \<le> j + n \<Longrightarrow> erBuf r ! (j mod n) = es ! j"
    using assms(2) by (auto simp: ring_inv_def)
  show ?thesis
  proof (cases "length es < n")
    case True
    then have "erBuf r ! j = es ! j" if "j < length es" for j using r(4) [of j] that by simp
    with True r show ?thesis
      by (auto simp: ring_inv_def ring_push_def Let_def nth_append less_Suc_eq)
  next
    case False
    then have len: "length (erBuf r) = n" using r(3) by simp
    have ne: "j mod n \<noteq> length es mod n" if "j < length es" "length es < j + n" for j
    proof
      assume "j mod n = length es mod n"
      then have "n dvd length es - j" using that(1) by (metis mod_eq_dvd_iff_nat less_imp_le_nat)
      with that show False by (auto dest: dvd_imp_le)
    qed
    have "((erBuf r)[length es mod n := e]) ! (j mod n) = (es @ [e]) ! j"
      if "j < Suc (length es)" "Suc (length es) \<le> j + n" for j
    proof (cases "j = length es")
      case True
      then show ?thesis using assms(1) len by simp
    next
      case False
      with that have "j < length es" "length es < j + n" by auto
      with ne [of j] r(4) [of j] show ?thesis by (simp add: nth_append)
    qed
    with False r len show ?thesis by (simp add: ring_inv_def ring_push_def Let_def)
  qed
qed

lemma ring_inv_fold: "0 < n \<Longrightarrow> ring_inv n es (fold ring_push es (newEventRing n))"
proof (induction es rule: rev_induct)
  case Nil
  then show ?case by (simp add: ring_inv_def newEventRing_def)
qed (simp add: ring_inv_push)

lemma ring_slice_inv:
  assumes "0 < n" "ring_inv n es r"
  shows "ring_slice r = drop (length es - n) es"
proof -
  have r: "erSize r = n" "erN r = length es" "length (erBuf r) = min n (length es)"
    "\<And>j. j < length es \<Longrightarrow> length es \<le> j + n \<Longrightarrow> erBuf r ! (j mod n) = es ! j"
    using assms(2) by (auto simp: ring_inv_def)
  show ?thesis
  proof (cases "length es < n")
    case True
    then have "erBuf r ! j = es ! j" if "j < length es" for j using r(4) [of j] that by simp
    with True r show ?thesis by (auto simp: ring_slice_def intro: nth_equalityI)
  next
    case False
    show ?thesis
    proof (rule nth_equalityI)
      show "length (ring_slice r) = length (drop (length es - n) es)" using False r by (simp add: ring_slice_def)
      fix i assume "i < length (ring_slice r)"
      then have i: "i < n" using False r by (simp add: ring_slice_def)
      let ?j = "length es - n + i"
      have "(length es + i) mod n = ?j mod n" using False by (metis add.commute add.left_commute le_add_diff_inverse2 mod_add_self2 not_less)
      moreover have "erBuf r ! (?j mod n) = es ! ?j" using False i by (intro r(4)) auto
      ultimately show "ring_slice r ! i = drop (length es - n) es ! i" using False i r by (simp add: ring_slice_def)
    qed
  qed
qed

interpretation ring: recent_window "newEventRing (Suc n)" ring_push ring_slice "Suc n" for n
proof
  show "ring_slice (newEventRing (Suc n)) = []" by (simp add: ring_slice_def newEventRing_def)
  fix w es e assume w: "w = fold ring_push es (newEventRing (Suc n))"
  have inv: "ring_inv (Suc n) es w" unfolding w by (rule ring_inv_fold) simp
  have "ring_slice (ring_push e w) = drop (length (es @ [e]) - Suc n) (es @ [e])"
    by (rule ring_slice_inv [OF _ ring_inv_push [OF _ inv]]) simp_all
  moreover have "ring_slice w = drop (length es - Suc n) es" by (rule ring_slice_inv [OF _ inv]) simp
  ultimately show "ring_slice (ring_push e w) = drop (length (ring_slice w) + 1 - Suc n) (ring_slice w @ [e])"
    by (cases "length es < Suc n") (simp_all add: Suc_diff_Suc not_less Suc_le_eq)
qed

text \<open>
  The ring buffer refines the abstract window: whatever was pushed, its slice is the last events, as many as
  it has room for, in the order they came.
\<close>

theorem ring_slice_recent:
  "ring_slice (fold ring_push evs (newEventRing (Suc n))) = drop (length evs - Suc n) evs"
  by (rule ring.contents_recent)

subsection \<open>Evidence\<close>

record forensicBundle =
  fbRuleSet :: string
  fbDetection :: detection
  fbContainer :: containerInfo
  fbProcessTree :: "string list"
  fbWindow :: "event list"
  fbCaptured :: int

record evidence =
  evdAlgorithm :: string
  evdDigest :: string
  evdBundle :: forensicBundle

text \<open>
  \<^verbatim>\<open>encoding/json\<close> on these types: the canonical bytes of a bundle, the indented bytes of an
  evidence, the reading of an envelope with its raw bundle, and compaction.
\<close>

record evidenceCodec =
  ecBundle :: "forensicBundle \<Rightarrow> bytes"
  ecIndent :: "evidence \<Rightarrow> string + bytes"
  ecEnvelope :: "bytes \<Rightarrow> string + (string \<times> string \<times> bytes)"
  ecCompact :: "bytes \<Rightarrow> string + bytes"

definition digestBundle :: "evidenceCodec \<Rightarrow> forensicBundle \<Rightarrow> string" where
  "digestBundle ec b = hex_encode (sha256 (ecBundle ec b))"

definition CaptureForensics :: "evidenceCodec \<Rightarrow> detection \<Rightarrow> event list \<Rightarrow> evidence" where
  "CaptureForensics ec d window =
     (let bundle = \<lparr> fbRuleSet = RuleSetVersion, fbDetection = d, fbContainer = dContainer d,
                      fbProcessTree = piAncestry (dProcess d), fbWindow = map redact_event window, fbCaptured = dTime d \<rparr>
      in \<lparr> evdAlgorithm = ''sha256'', evdDigest = digestBundle ec bundle, evdBundle = bundle \<rparr>)"

definition evidence_Verify :: "evidenceCodec \<Rightarrow> evidence \<Rightarrow> bool" where
  "evidence_Verify ec e \<longleftrightarrow> evdAlgorithm e = ''sha256'' \<and> evdDigest e = digestBundle ec (evdBundle e)"

definition VerifyEvidenceBytes :: "evidenceCodec \<Rightarrow> bytes \<Rightarrow> string + bool" where
  "VerifyEvidenceBytes ec data =
     (case ecEnvelope ec data of Inl e \<Rightarrow> Inl (''parse evidence: '' @ e)
      | Inr (alg, digest, raw) \<Rightarrow>
          if alg \<noteq> ''sha256'' then Inl (''unsupported digest algorithm '' @ fmt_q alg)
          else (case ecCompact ec raw of Inl e \<Rightarrow> Inl (''canonicalize bundle: '' @ e)
            | Inr canonical \<Rightarrow> Inr (hex_encode (sha256 canonical) = digest)))"

text \<open>
  A directory on disk: what its files hold; and the environment: the error of making the directory, the
  error of creating a file (with whether it says the file exists), and what a write leaves in it.
\<close>

type_synonym wormStore = "string \<rightharpoonup> bytes"

record wormEnv =
  weMkdir :: "string \<Rightarrow> string option"
  weCreate :: "string \<Rightarrow> (bool \<times> string) option"
  weWrite :: "string \<Rightarrow> bytes \<Rightarrow> bytes \<times> string option"

definition evidence_path :: "string \<Rightarrow> evidence \<Rightarrow> string" where
  "evidence_path dir e =
     path_Join dir (''evidence-'' @ dRuleID (fbDetection (evdBundle e)) @ ''-'' @ take 16 (evdDigest e) @ ''.json'')"

definition WriteToDir :: "evidenceCodec \<Rightarrow> wormEnv \<Rightarrow> string \<Rightarrow> evidence \<Rightarrow> wormStore \<Rightarrow> wormStore \<times> (string + string)" where
  "WriteToDir ec env dir e fs =
     (case weMkdir env dir of
        Some err \<Rightarrow> (fs, Inl (''create forensics dir '' @ fmt_q dir @ '': '' @ err))
      | None \<Rightarrow>
          (let p = evidence_path dir e in
           case fs p of
             Some _ \<Rightarrow> (fs, Inr p)
           | None \<Rightarrow>
               (case ecIndent ec e of
                  Inl err \<Rightarrow> (fs, Inl (''marshal evidence: '' @ err))
                | Inr data \<Rightarrow>
                    (case weCreate env p of
                       Some (exists, err) \<Rightarrow> (fs, if exists then Inr p else Inl (''open evidence file: '' @ err))
                     | None \<Rightarrow>
                         (case weWrite env p (data @ [CHR 0x0A]) of
                            (written, Some err) \<Rightarrow> (fs(p \<mapsto> written), Inl (''write evidence: '' @ err))
                          | (written, None) \<Rightarrow> (fs(p \<mapsto> written), Inr p))))))"

text \<open>What the code relies on of the encoder and of a write that reports no error.\<close>

definition codec_ok :: "evidenceCodec \<Rightarrow> bool" where
  "codec_ok ec \<longleftrightarrow>
     (\<forall>e data. ecIndent ec e = Inr data \<longrightarrow>
        (\<exists>raw. ecEnvelope ec (data @ [CHR 0x0A]) = Inr (evdAlgorithm e, evdDigest e, raw) \<and> ecCompact ec raw = Inr (ecBundle ec (evdBundle e))))"

definition env_ok :: "wormEnv \<Rightarrow> bool" where
  "env_ok env \<longleftrightarrow> (\<forall>p data written. weWrite env p data = (written, None) \<longrightarrow> written = data)
     \<and> (\<forall>p err. weCreate env p \<noteq> Some (True, err))"

lemma capture_verifies [simp]: "evidence_Verify ec (CaptureForensics ec d window)"
  by (simp add: CaptureForensics_def evidence_Verify_def Let_def)

text \<open>Write once: no file that exists is changed, at most the evidence's own path is added.\<close>

lemma WriteToDir_keeps: "fs p = Some c \<Longrightarrow> fst (WriteToDir ec env dir e fs) p = Some c"
  by (auto simp: WriteToDir_def Let_def split: option.split sum.split prod.split)

lemma WriteToDir_only: "p \<noteq> evidence_path dir e \<Longrightarrow> fst (WriteToDir ec env dir e fs) p = fs p"
  by (auto simp: WriteToDir_def Let_def split: option.split sum.split prod.split)

text \<open>A path returned holds evidence: the one sealed now, or what was there before.\<close>

lemma WriteToDir_path:
  assumes "codec_ok ec" "env_ok env" "evidence_Verify ec e" "WriteToDir ec env dir e fs = (fs', Inr p)"
  shows "p = evidence_path dir e"
    and "fs p = None \<Longrightarrow> \<exists>data. fs' p = Some data \<and> VerifyEvidenceBytes ec data = Inr True"
    and "fs p \<noteq> None \<Longrightarrow> fs' = fs"
proof -
  show p: "p = evidence_path dir e"
    using assms(4) by (auto simp: WriteToDir_def Let_def split: option.splits sum.splits prod.splits if_splits)
  show "fs p \<noteq> None \<Longrightarrow> fs' = fs"
    using assms(4) p by (auto simp: WriteToDir_def Let_def split: option.splits sum.splits prod.splits if_splits)
  assume n: "fs p = None"
  obtain data written where w: "ecIndent ec e = Inr data" "weWrite env p (data @ [CHR 0x0A]) = (written, None)" "fs' p = Some written"
    using assms(2,4) n p by (auto simp: WriteToDir_def Let_def env_ok_def split: option.splits sum.splits prod.splits if_splits)
  have "written = data @ [CHR 0x0A]" using assms(2) w(2) unfolding env_ok_def by blast
  moreover obtain raw where "ecEnvelope ec (data @ [CHR 0x0A]) = Inr (evdAlgorithm e, evdDigest e, raw)" "ecCompact ec raw = Inr (ecBundle ec (evdBundle e))"
    using assms(1) w(1) unfolding codec_ok_def by blast
  ultimately have "VerifyEvidenceBytes ec written = Inr True"
    using assms(3) by (simp add: VerifyEvidenceBytes_def evidence_Verify_def digestBundle_def)
  with w(3) show "\<exists>data. fs' p = Some data \<and> VerifyEvidenceBytes ec data = Inr True" by blast
qed

text \<open>
  Evidence carries no value of a sensitive assignment: neither in the events of its window nor, when the detection
  is masked, in the detection.
\<close>

lemma capture_redacts: "list_all (\<lambda>ev. list_all arg_masked (piArgs (evProcess ev))) (fbWindow (evdBundle (CaptureForensics ec d window)))"
  by (simp add: CaptureForensics_def redact_event_def redactArgs_def list_all_iff Let_def)

text \<open>
  Tampering shows: a sealed bundle whose canonical bytes are replaced by others no longer verifies, unless the two
  collide under SHA-256.
\<close>

lemma tamper_evident:
  assumes "evidence_Verify ec e" "evidence_Verify ec (e\<lparr> evdBundle := b \<rparr>)"
  shows "sha256 (ecBundle ec b) = sha256 (ecBundle ec (evdBundle e))"
proof (rule hex_encode_inj)
  show "hex_encode (sha256 (ecBundle ec b)) = hex_encode (sha256 (ecBundle ec (evdBundle e)))"
    using assms by (simp add: evidence_Verify_def digestBundle_def)
qed

end
