(* ===== verification/RtBaseline.thy ===== *)
theory RtBaseline
  imports RtDetector
begin

text \<open>
  Baseline learning end to end: the binary search of \<^verbatim>\<open>sortedContains\<close>, what a recording detector
  has learned after a stream (\<^verbatim>\<open>Detector.Baseline\<close>), that a detector armed with this baseline reports no
  anomaly on the events it was learned from, and what the seccomp profile generated from it allows.
\<close>

subsection \<open>Binary search\<close>

lemma str_not_less_trans: "\<not> str_less a b \<Longrightarrow> \<not> str_less b c \<Longrightarrow> \<not> str_less a c"
  using str_less_trans [of a c b] str_less_linear [of b c] by auto

lemma search_strings_spec:
  assumes "sorted_wrt (\<lambda>a b. \<not> str_less b a) a"
    and "i \<le> j" "j \<le> length a" "\<And>k. k < i \<Longrightarrow> str_less (a ! k) x" "\<And>k. j \<le> k \<Longrightarrow> k < length a \<Longrightarrow> \<not> str_less (a ! k) x"
  shows "search_strings a x i j \<le> length a \<and> (\<forall>k < search_strings a x i j. str_less (a ! k) x)
    \<and> (\<forall>k. search_strings a x i j \<le> k \<and> k < length a \<longrightarrow> \<not> str_less (a ! k) x)"
  using assms
proof (induction a x i j rule: search_strings.induct)
  case (1 a x i j)
  define h where "h = (i + j) div 2"
  show ?case
  proof (cases "i < j")
    case False
    then have s: "search_strings a x i j = i" by (subst search_strings.simps) simp
    show ?thesis unfolding s using False 1(4-7) by simp
  next
    case True
    then have h: "h < j" "i \<le> h" "h < length a" using 1(5) by (auto simp: h_def)
    have mono: "\<not> str_less (a ! k) (a ! l)" if "l \<le> k" "k < length a" for k l
      using that sorted_wrt_nth_less [OF 1(3), of l k] by (cases "l = k") auto
    show ?thesis
    proof (cases "str_less (a ! h) x")
      case less: True
      have s: "search_strings a x i j = search_strings a x (h + 1) j" using True less by (subst search_strings.simps) (simp add: h_def Let_def)
      have lo: "str_less (a ! k) x" if "k < h + 1" for k
        using that mono [of k h] less h str_not_less_trans [of "a ! h" "a ! k" x] by auto
      show ?thesis unfolding s using 1(1) [OF True h_def less 1(3) _ 1(5) lo 1(7)] h by simp
    next
      case ge: False
      have s: "search_strings a x i j = search_strings a x i h" using True ge by (subst search_strings.simps) (simp add: h_def Let_def)
      have hi: "\<not> str_less (a ! k) x" if "h \<le> k" "k < length a" for k
        using mono [OF that] ge str_not_less_trans by blast
      show ?thesis unfolding s using 1(2) [OF True h_def ge 1(3) _ _ 1(6) hi] h by simp
    qed
  qed
qed

lemma sorted_contains_set [simp]: "sorted_contains (sorted_set xs) v \<longleftrightarrow> v \<in> set xs"
proof -
  let ?a = "sorted_set xs"
  let ?i = "search_strings ?a v 0 (length ?a)"
  have so: "sorted_wrt (\<lambda>a b. \<not> str_less b a) ?a" by (simp add: sorted_set_def sort_Strings_sorted)
  have sp: "?i \<le> length ?a" "\<forall>k < ?i. str_less (?a ! k) v" "\<forall>k. ?i \<le> k \<and> k < length ?a \<longrightarrow> \<not> str_less (?a ! k) v"
    using search_strings_spec [OF so, of 0 "length ?a" v] by simp_all
  have "v \<in> set ?a \<Longrightarrow> ?i < length ?a \<and> ?a ! ?i = v"
  proof -
    assume "v \<in> set ?a"
    then obtain k where k: "k < length ?a" "?a ! k = v" unfolding in_set_conv_nth by blast
    have ik: "?i \<le> k"
    proof (rule ccontr)
      assume "\<not> ?i \<le> k"
      with sp(2) have "str_less (?a ! k) v" by simp
      with k show False by simp
    qed
    have "\<not> str_less v (?a ! ?i)"
    proof (cases "?i = k")
      case False
      with sorted_wrt_nth_less [OF so, of ?i k] ik k show ?thesis by simp
    qed (use k in simp)
    moreover have "\<not> str_less (?a ! ?i) v" using sp(3) ik k(1) by simp
    ultimately have "?a ! ?i = v" using str_less_linear [of v "?a ! ?i"] by metis
    with ik k(1) show ?thesis by simp
  qed
  moreover have "?i < length ?a \<and> ?a ! ?i = v \<Longrightarrow> v \<in> set ?a" by (elim conjE) (erule subst, rule nth_mem)
  ultimately have "sorted_contains ?a v \<longleftrightarrow> v \<in> set ?a" unfolding sorted_contains_def Let_def by blast
  then show ?thesis by simp
qed

subsection \<open>What a recording detector learns\<close>

text \<open>What one event shows of its workload.\<close>

definition shown_exes :: "event \<Rightarrow> string set" where
  "shown_exes ev = (if evKind ev = KindProcess \<and> piExe (evProcess ev) \<noteq> [] then {piExe (evProcess ev)} else {})"

definition shown_syscalls :: "event \<Rightarrow> string set" where
  "shown_syscalls ev =
     (if evKind ev = KindProcess then {''execve''}
      else if evKind ev = KindSyscall then (case evSyscall ev of None \<Rightarrow> {} | Some s \<Rightarrow> if scName s = [] then {} else {scName s})
      else if evKind ev = KindNetwork then (case evNetwork ev of None \<Rightarrow> {} | Some n \<Rightarrow> {''connect''})
      else if evKind ev = KindFile then {''openat''} else {})"

definition shown_endpoints :: "event \<Rightarrow> string set" where
  "shown_endpoints ev =
     (if evKind ev = KindNetwork then (case evNetwork ev of None \<Rightarrow> {} | Some n \<Rightarrow> if endpointKey n = [] then {} else {endpointKey n})
      else {})"

definition learned :: "(profileSets \<Rightarrow> string list) \<Rightarrow> accumulator \<Rightarrow> string \<Rightarrow> string set" where
  "learned sel acc k = (case map_of acc k of None \<Rightarrow> {} | Some ps \<Rightarrow> set (sel ps))"

lemma record_kind_shown:
  "set (psExes (record_kind ev ps)) = shown_exes ev \<union> set (psExes ps)"
  "set (psSyscalls (record_kind ev ps)) = shown_syscalls ev \<union> set (psSyscalls ps)"
  "set (psEndpoints (record_kind ev ps)) = shown_endpoints ev \<union> set (psEndpoints ps)"
  by (auto simp: record_kind_def shown_exes_def shown_syscalls_def shown_endpoints_def Let_def split: option.splits)

lemma record_event_learned:
  assumes "k \<noteq> []"
  shows "learned psExes (record_event ev acc) k = learned psExes acc k \<union> (if workloadKey (evContainer ev) = k then shown_exes ev else {})"
    "learned psSyscalls (record_event ev acc) k = learned psSyscalls acc k \<union> (if workloadKey (evContainer ev) = k then shown_syscalls ev else {})"
    "learned psEndpoints (record_event ev acc) k = learned psEndpoints acc k \<union> (if workloadKey (evContainer ev) = k then shown_endpoints ev else {})"
    "map_of (record_event ev acc) k = None \<longleftrightarrow> map_of acc k = None \<and> workloadKey (evContainer ev) \<noteq> k"
    "map_of (record_event ev acc) [] = map_of acc []"
  using assms by (auto simp: record_event_def learned_def Let_def record_kind_shown new_profileSets_def split: option.splits)

lemma recorded_learned:
  assumes k: "k \<noteq> []"
  shows "learned psExes (fold record_event evs acc) k = learned psExes acc k \<union> (\<Union>ev \<in> {ev \<in> set evs. workloadKey (evContainer ev) = k}. shown_exes ev)"
    "learned psSyscalls (fold record_event evs acc) k = learned psSyscalls acc k \<union> (\<Union>ev \<in> {ev \<in> set evs. workloadKey (evContainer ev) = k}. shown_syscalls ev)"
    "learned psEndpoints (fold record_event evs acc) k = learned psEndpoints acc k \<union> (\<Union>ev \<in> {ev \<in> set evs. workloadKey (evContainer ev) = k}. shown_endpoints ev)"
    "map_of (fold record_event evs acc) k = None \<longleftrightarrow> map_of acc k = None \<and> k \<notin> (\<lambda>ev. workloadKey (evContainer ev)) ` set evs"
    "map_of (fold record_event evs acc) [] = map_of acc []"
  by (induction evs arbitrary: acc) (auto simp: record_event_learned [OF k])

text \<open>Rules do not touch what has been recorded.\<close>

lemma evaluate_acc [simp]: "stAcc (fst (evaluate np r ev st)) = stAcc st"
  by (cases r) (simp_all add: drift_eval_def egress_eval_def anomaly_eval_def agent_eval_def Let_def markExec_def markConnect_def
      split: option.split prod.split)

lemma rules_acc [simp]: "stAcc (fst (eval_rules np rs ev st)) = stAcc st"
proof (induction rs arbitrary: st)
  case (Cons r rs)
  obtain st1 ds where 1: "evaluate np r ev st = (st1, ds)" by (rule prod.exhaust)
  have "stAcc st1 = stAcc st" using evaluate_acc [of np r ev st] 1 by simp
  with Cons.IH [of st1] show ?case by (simp add: 1 case_prod_beta)
qed simp

lemma Process_acc: "stAcc (dtState (fst (det_Process np d ev))) = map_option (record_event ev) (stAcc (dtState d))"
  by (simp add: det_Process_def case_prod_beta before_rules_def observe_def Let_def)

lemma loop_acc: "stAcc (dtState (fst (det_loop np d (map Next evs)))) = map_option (fold record_event evs) (stAcc (dtState d))"
proof (induction evs arbitrary: d)
  case (Cons ev evs)
  have "stAcc (dtState (fst (det_loop np d (map Next (ev # evs))))) = stAcc (dtState (fst (det_loop np (fst (det_Process np d ev)) (map Next evs))))"
    by (simp add: case_prod_beta)
  then show ?case unfolding Cons.IH Process_acc by (simp add: option.map_comp comp_def)
qed (simp add: option.map_id)

definition recorded :: "event list \<Rightarrow> baseline" where
  "recorded evs = baseline_build (fold record_event evs [])"

lemma Run_learns:
  assumes "opEnableAnomaly opts" "opBaseline opts = None"
  shows "det_Baseline (fst (det_Run np (NewDetector np opts images) (map Next evs))) = Some (recorded evs)"
proof -
  have "stAcc (dtState (NewDetector np opts images)) = Some []" using assms by (simp add: NewDetector_def Let_def)
  with loop_acc [of np "NewDetector np opts images" evs] show ?thesis
    by (simp add: det_Baseline_def det_Run_def case_prod_beta recorded_def)
qed

lemma recorded_profile:
  "map_of (blWorkloads (recorded evs)) k = map_option freeze_profile (map_of (fold record_event evs []) k)"
  by (simp add: recorded_def baseline_build_def map_of_map)

lemma recorded_exact:
  assumes "map_of (blWorkloads (recorded evs)) k = Some wp"
  shows "k \<noteq> []"
    "sorted_contains (wpExes wp) v \<longleftrightarrow> (\<exists>ev \<in> set evs. workloadKey (evContainer ev) = k \<and> v \<in> shown_exes ev)"
    "sorted_contains (wpSyscalls wp) v \<longleftrightarrow> (\<exists>ev \<in> set evs. workloadKey (evContainer ev) = k \<and> v \<in> shown_syscalls ev)"
    "sorted_contains (wpEndpoints wp) v \<longleftrightarrow> (\<exists>ev \<in> set evs. workloadKey (evContainer ev) = k \<and> v \<in> shown_endpoints ev)"
    "set (wpSyscalls wp) = (\<Union>ev \<in> {ev \<in> set evs. workloadKey (evContainer ev) = k}. shown_syscalls ev)"
proof -
  obtain ps where ps: "map_of (fold record_event evs []) k = Some ps" "wp = freeze_profile ps"
    using assms by (auto simp: recorded_profile)
  show k: "k \<noteq> []" using ps(1) recorded_learned(5) [where k = "''x''" and acc = "[]"] by auto
  note r = recorded_learned [OF k, of evs "[]", simplified learned_def map_of.simps ps(1) option.case]
  show "sorted_contains (wpExes wp) v \<longleftrightarrow> (\<exists>ev \<in> set evs. workloadKey (evContainer ev) = k \<and> v \<in> shown_exes ev)"
    using r(1) by (auto simp: ps(2) freeze_profile_def)
  show "sorted_contains (wpSyscalls wp) v \<longleftrightarrow> (\<exists>ev \<in> set evs. workloadKey (evContainer ev) = k \<and> v \<in> shown_syscalls ev)"
    using r(2) by (auto simp: ps(2) freeze_profile_def)
  show "sorted_contains (wpEndpoints wp) v \<longleftrightarrow> (\<exists>ev \<in> set evs. workloadKey (evContainer ev) = k \<and> v \<in> shown_endpoints ev)"
    using r(3) by (auto simp: ps(2) freeze_profile_def)
  show "set (wpSyscalls wp) = (\<Union>ev \<in> {ev \<in> set evs. workloadKey (evContainer ev) = k}. shown_syscalls ev)"
    using r(2) by (simp add: ps(2) freeze_profile_def)
qed

subsection \<open>A learned baseline is quiet on its own stream\<close>

lemma anomaly_quiet:
  assumes "ev \<in> set evs"
  shows "anomaly_eval (Some (recorded evs)) ev st = (st, [])"
proof (cases "map_of (blWorkloads (recorded evs)) (workloadKey (evContainer ev))")
  case (Some wp)
  note r = recorded_exact [OF Some]
  have "sorted_contains (wpExes wp) (piExe (evProcess ev))" if "evKind ev = KindProcess" "piExe (evProcess ev) \<noteq> []"
    using that assms unfolding r(2) by (intro bexI [of _ ev]) (simp_all add: shown_exes_def)
  moreover have "sorted_contains (wpSyscalls wp) (scName s)" if "evKind ev = KindSyscall" "evSyscall ev = Some s" "scName s \<noteq> []" for s
    using that assms unfolding r(3) by (intro bexI [of _ ev]) (simp_all add: shown_syscalls_def)
  moreover have "sorted_contains (wpEndpoints wp) (endpointKey n)" if "evKind ev = KindNetwork" "evNetwork ev = Some n" "endpointKey n \<noteq> []" for n
    using that assms unfolding r(4) by (intro bexI [of _ ev]) (simp_all add: shown_endpoints_def)
  ultimately show ?thesis
    by (cases "evKind ev = KindProcess"; cases "evKind ev = KindSyscall"; cases "evKind ev = KindNetwork"; cases "evSyscall ev"; cases "evNetwork ev")
      (auto simp: anomaly_eval_def Some Let_def)
qed (simp add: anomaly_eval_def)

lemma eval_rules_from: "x \<in> set (snd (eval_rules np rs ev st)) \<Longrightarrow> \<exists>r \<in> set rs. \<exists>st'. x \<in> set (snd (evaluate np r ev st'))"
proof (induction rs arbitrary: st)
  case (Cons r rs)
  obtain st1 ds where 1: "evaluate np r ev st = (st1, ds)" by (rule prod.exhaust)
  obtain st2 ds' where 2: "eval_rules np rs ev st1 = (st2, ds')" by (rule prod.exhaust)
  have "x \<in> set ds \<or> x \<in> set ds'" using Cons.prems by (simp add: 1 2)
  then show ?case
  proof
    assume "x \<in> set ds"
    then have "x \<in> set (snd (evaluate np r ev st))" by (simp add: 1)
    then show ?case by auto
  next
    assume "x \<in> set ds'"
    then show ?case using Cons.IH [of st1] by (auto simp: 2)
  qed
qed simp

lemma riID_anomaly: "riID (ruleInfo_of r) = ''DS-RAT-RT-050'' \<Longrightarrow> \<exists>b. r = AnomalyRule b"
  by (cases r) (simp_all add: info_shell_def info_drift_def info_escape_def info_runtimeBinary_def info_privEsc_def info_sensitiveFile_def
      info_credTheft_def info_cryptoMining_def info_egress_def info_kernelAbuse_def info_reverseShell_def info_persistence_def
      info_fileless_def info_intel_def info_anomaly_def info_agentRuntime_def)

lemma Process_rules [simp]: "dtRules (fst (det_Process np d ev)) = dtRules d"
  by (simp add: det_Process_def case_prod_beta)

lemma loop_from:
  "x \<in> set (fst (snd (det_loop np d src))) \<Longrightarrow> \<exists>ev. Next ev \<in> set src \<and> (\<exists>r \<in> set (dtRules d). \<exists>st. x \<in> set (snd (evaluate np r ev st)))"
proof (induction np d src rule: det_loop.induct)
  case (3 np d ev src)
  obtain d1 ds where 1: "det_Process np d ev = (d1, ds)" by (rule prod.exhaust)
  obtain d2 ds' e where 2: "det_loop np d1 src = (d2, ds', e)" by (metis prod_cases3)
  have d1: "dtRules d1 = dtRules d" using Process_rules [of np d ev] 1 by simp
  have "x \<in> set ds \<or> x \<in> set ds'" using 3 by (simp add: 1 2)
  moreover have "x \<in> set ds \<Longrightarrow> \<exists>r \<in> set (dtRules d). \<exists>st. x \<in> set (snd (evaluate np r ev st))"
    using 1 eval_rules_from [of x np "dtRules d" ev "before_rules ev (dtState d)"] by (auto simp: det_Process_def split: prod.splits)
  ultimately show ?case using 3 by (auto simp: 1 2 d1)
qed simp_all

lemma set_SortDetections [simp]: "set (SortDetections ds) = set ds"
  by (simp add: SortDetections_def)

lemma defaultRules_anomaly: "AnomalyRule b \<in> set (defaultRules np opts) \<Longrightarrow> b = None \<or> b = opBaseline opts"
  by (auto simp: defaultRules_def split: if_splits)

text \<open>
  C20: A detector that recorded a stream yields a baseline; a detector armed with it, whatever its images
  and other options, reports no behavioural anomaly on events of that stream, in any order and number.
\<close>

theorem learned_baseline_quiet:
  assumes "opEnableAnomaly opts" "opBaseline opts = None"
    "det_Run np (NewDetector np opts images) (map Next evs) = (d, ds, e)"
    "det_Baseline d = Some b" "opBaseline opts' = Some b" "set evs' \<subseteq> set evs"
    "det_Run np (NewDetector np opts' images') (map Next evs') = (d', ds', e')"
  shows "''DS-RAT-RT-050'' \<notin> dRuleID ` set ds'"
proof -
  have "dRuleID x \<noteq> ''DS-RAT-RT-050''" if "x \<in> set ds'" for x
  proof -
    from that have "x \<in> set (fst (snd (det_loop np (NewDetector np opts' images') (map Next evs'))))"
      using assms(7) by (auto simp: det_Run_def split: prod.splits)
    from loop_from [OF this] obtain ev r st where ev: "ev \<in> set evs'" "r \<in> set (defaultRules np opts')"
      "x \<in> set (snd (evaluate np r ev st))" by auto
    have b: "b = recorded evs" using Run_learns [OF assms(1,2), of np images evs] assms(3,4) by simp
    show ?thesis
    proof
      assume "dRuleID x = ''DS-RAT-RT-050''"
      then obtain b' where r: "r = AnomalyRule b'" using evaluate_reports [OF ev(3)] riID_anomaly by (auto simp: reports_def)
      have "b' = None \<or> b' = Some b" using ev(2) assms(5) defaultRules_anomaly unfolding r by metis
      then show False
      proof
        assume "b' = None"
        then show False using ev(3) by (simp add: r anomaly_eval_def)
      next
        assume "b' = Some b"
        with b have "evaluate np r ev st = anomaly_eval (Some (recorded evs)) ev st" by (simp only: r evaluate.simps)
        also have "\<dots> = (st, [])" by (rule anomaly_quiet [OF subsetD [OF assms(6) ev(1)]])
        finally show False using ev(3) by simp
      qed
    qed
  qed
  then show ?thesis by (intro notI) (erule imageE, metis)
qed

definition sample_event :: "string \<Rightarrow> event" where
  "sample_event exe = \<lparr> evSeq = 1, evTime = 0, evKind = KindProcess,
     evContainer = \<lparr> ciID = ''c1'', ciName = ''web'', ciImageID = ''sha256:aa'', ciImageRef = ''web:1'', ciRuntime = ''runc'',
       ciPrivileged = False, ciAIAgent = False \<rparr>,
     evProcess = \<lparr> piPID = 7, piPPID = 1, piComm = ''app'', piExe = exe, piArgs = [exe, ''--token=hunter2''], piUID = 0, piGID = 0, piCgroupID = 0,
       piAncestry = [''app''], piCaps = [], piTTY = False, piStdioSocket = False \<rparr>,
     evFile = None, evNetwork = None, evSyscall = None, evLabels = [] \<rparr>"

definition sample_parse :: netParse where
  "sample_parse = \<lparr> npIP = (\<lambda>_. None), npCIDR = (\<lambda>_. None) \<rparr>"

definition sample_options :: "bool \<Rightarrow> baseline option \<Rightarrow> rtOptions" where
  "sample_options anomaly b = \<lparr> opEnableAnomaly = anomaly, opEnableAgentRuntime = False, opBaseline = b, opEgressAllow = [], opIntelFeed = None \<rparr>"

theorem learned_baseline_quiet_witness:
  "''DS-RAT-RT-050'' \<notin> dRuleID ` set (fst (snd (det_Run sample_parse
      (NewDetector sample_parse (sample_options True (Some (recorded [sample_event ''/bin/app'']))) []) (map Next [sample_event ''/bin/app'']))))"
proof -
  have o: "opEnableAnomaly (sample_options True None)" "opBaseline (sample_options True None) = None" by (simp_all add: sample_options_def)
  have r: "det_Run np d src = (fst (det_Run np d src), fst (snd (det_Run np d src)), snd (snd (det_Run np d src)))" for np d src
    by simp
  show ?thesis
    by (rule learned_baseline_quiet [OF o r Run_learns [OF o, of sample_parse "[]" "[sample_event ''/bin/app'']"] _ subset_refl r])
      (simp add: sample_options_def)
qed

subsection \<open>The seccomp profile of a learned baseline\<close>

lemma recorded_defined:
  "map_of (blWorkloads (recorded evs)) k = None \<longleftrightarrow> k = [] \<or> k \<notin> (\<lambda>ev. workloadKey (evContainer ev)) ` set evs"
  using recorded_learned(4,5) [where k = k and evs = evs and acc = "[]"] recorded_learned(5) [where k = "''x''" and evs = evs and acc = "[]"]
  by (cases "k = []") (simp_all add: recorded_profile)

lemma recorded_distinct:
  assumes "map_of (blWorkloads (recorded evs)) k = Some wp"
  shows "length (wpSyscalls wp) = card (set (wpSyscalls wp))"
proof -
  obtain ps where "wp = freeze_profile ps" using assms by (auto simp: recorded_profile)
  then have "distinct (wpSyscalls wp)" by (simp add: freeze_profile_def del: set_sorted_set)
  then show ?thesis by (rule distinct_card [symmetric])
qed

text \<open>
  The seccomp profile generated for a workload of a learned baseline allows exactly the platform floor
  and the system calls the stream showed of that workload, each once and in byte order; everything else
  is refused with an error, and the count it records is that of the calls observed. There is a profile
  for exactly the workloads the stream showed.
\<close>

theorem profile_permits_observed:
  "case GenerateSeccompProfile (Some (recorded evs)) k of
     None \<Rightarrow> k = [] \<or> k \<notin> (\<lambda>ev. workloadKey (evContainer ev)) ` set evs
   | Some p \<Rightarrow> k \<noteq> [] \<and> k \<in> (\<lambda>ev. workloadKey (evContainer ev)) ` set evs
       \<and> spDefaultAction p = ''SCMP_ACT_ERRNO'' \<and> spAction p = ''SCMP_ACT_ALLOW''
       \<and> set (spNames p) = set baselineSyscalls \<union> (\<Union>ev \<in> {ev \<in> set evs. workloadKey (evContainer ev) = k}. shown_syscalls ev)
       \<and> distinct (spNames p) \<and> sorted_wrt (\<lambda>a b. \<not> str_less b a) (spNames p)
       \<and> spObserved p = card (\<Union>ev \<in> {ev \<in> set evs. workloadKey (evContainer ev) = k}. shown_syscalls ev)"
proof (cases "map_of (blWorkloads (recorded evs)) k")
  case None
  with recorded_defined [of evs k] show ?thesis by (simp add: GenerateSeccompProfile_def)
next
  case (Some wp)
  have "sorted_wrt (\<lambda>a b. \<not> str_less b a) (sorted_set xs)" for xs by (simp add: sorted_set_def sort_Strings_sorted)
  with recorded_defined [of evs k] recorded_distinct [OF Some] recorded_exact(5) [OF Some] Some show ?thesis
    by (auto simp: GenerateSeccompProfile_def)
qed

end
