(* ===== verification/RtDaemon.thy ===== *)
theory RtDaemon
  imports RtForensics RtBaseline
begin

text \<open>
  The daemon loop of \<^verbatim>\<open>daemon.go\<close>: events go through the detector, what no exception suppresses is
  answered, recorded, sealed and emitted. The responder and the sink are arguments with a state of their own.
  What a run accounts for, what it does to the machine and to the evidence directory.
\<close>

subsection \<open>State\<close>

record detectionRecord =
  rcDetection :: detection
  rcAction :: rtAction
  rcIncident :: "incident option"
  rcEvidencePath :: string

type_synonym 'k sink = "detectionRecord \<Rightarrow> 'k \<Rightarrow> 'k \<times> string option"

record daemonConfig =
  dcOptions :: rtOptions
  dcImages :: "imageInventory list"
  dcPolicy :: responsePolicy
  dcForensicsDir :: string
  dcWindowSize :: int
  dcEmitIncidents :: bool
  dcExceptions :: exceptionSet

text \<open>What a run needs of its surroundings, and its state.\<close>

record ('r, 'k) daemonEnv =
  deParse :: netParse
  deCodec :: evidenceCodec
  deWorm :: wormEnv
  deRespond :: "'r responder"
  deSink :: "'k sink option"

record ('r, 'k) daemonState =
  dmDet :: detector
  dmRing :: eventRing
  dmResponder :: 'r
  dmStore :: wormStore
  dmSink :: 'k
  dmRecords :: "detectionRecord list"
  dmScanned :: nat
  dmPaths :: "string list"
  dmSuppressed :: nat

subsection \<open>One detection\<close>

definition daemon_evidence :: "('r, 'k) daemonEnv \<Rightarrow> daemonConfig \<Rightarrow> detection \<Rightarrow> eventRing \<Rightarrow> wormStore \<Rightarrow> wormStore \<times> string" where
  "daemon_evidence env c d r fs =
     (if dcForensicsDir c = [] then (fs, [])
      else (case WriteToDir (deCodec env) (deWorm env) (dcForensicsDir c) (CaptureForensics (deCodec env) d (ring_slice r)) fs of
          (fs', Inr p) \<Rightarrow> (fs', p)
        | (fs', Inl _) \<Rightarrow> (fs', [])))"

definition daemon_handle ::
    "('r, 'k) daemonEnv \<Rightarrow> daemonConfig \<Rightarrow> detection \<Rightarrow> ('r, 'k) daemonState \<Rightarrow> ('r, 'k) daemonState \<times> detectionRecord" where
  "daemon_handle env c d st =
     (let action = Plan (dcPolicy c) d;
          resp = fst (deRespond env action (dmResponder st));
          ev = daemon_evidence env c d (dmRing st) (dmStore st);
          rec = \<lparr> rcDetection = d, rcAction = action, rcIncident = (if dcEmitIncidents c then Some (BuildIncident d) else None),
                   rcEvidencePath = snd ev \<rparr>;
          snk = (case deSink env of None \<Rightarrow> dmSink st | Some emit \<Rightarrow> fst (emit rec (dmSink st)))
      in (st\<lparr> dmResponder := resp, dmStore := fst ev, dmSink := snk \<rparr>, rec))"

fun daemon_detections ::
    "('r, 'k) daemonEnv \<Rightarrow> daemonConfig \<Rightarrow> detection list \<Rightarrow> ('r, 'k) daemonState \<Rightarrow> ('r, 'k) daemonState" where
  "daemon_detections env c [] st = st"
| "daemon_detections env c (d # ds) st =
     (if Suppressed (dcExceptions c) d then daemon_detections env c ds (st\<lparr> dmSuppressed := dmSuppressed st + 1 \<rparr>)
      else (case daemon_handle env c d st of (st', rec) \<Rightarrow>
        daemon_detections env c ds (st'\<lparr> dmRecords := dmRecords st' @ [rec],
          dmPaths := (if rcEvidencePath rec \<noteq> [] then dmPaths st' @ [rcEvidencePath rec] else dmPaths st') \<rparr>)))"

subsection \<open>The loop\<close>

definition daemon_event :: "('r, 'k) daemonEnv \<Rightarrow> daemonConfig \<Rightarrow> event \<Rightarrow> ('r, 'k) daemonState \<Rightarrow> ('r, 'k) daemonState" where
  "daemon_event env c ev st =
     (case det_Process (deParse env) (dmDet st) ev of (det, ds) \<Rightarrow>
        daemon_detections env c ds (st\<lparr> dmScanned := dmScanned st + 1, dmRing := ring_push ev (dmRing st), dmDet := det \<rparr>))"

fun daemon_loop ::
    "('r, 'k) daemonEnv \<Rightarrow> daemonConfig \<Rightarrow> sourceItem list \<Rightarrow> ('r, 'k) daemonState \<Rightarrow> ('r, 'k) daemonState \<times> string option" where
  "daemon_loop env c [] st = (st, None)"
| "daemon_loop env c (NextErr e # src) st = (st, Some e)"
| "daemon_loop env c (Next ev # src) st = daemon_loop env c src (daemon_event env c ev st)"

definition window_size :: "daemonConfig \<Rightarrow> nat" where
  "window_size c = (if dcWindowSize c \<le> 0 then 32 else nat (dcWindowSize c))"

definition daemon_start :: "('r, 'k) daemonEnv \<Rightarrow> daemonConfig \<Rightarrow> 'r \<Rightarrow> 'k \<Rightarrow> wormStore \<Rightarrow> ('r, 'k) daemonState" where
  "daemon_start env c r k fs =
     \<lparr> dmDet = NewDetector (deParse env) (dcOptions c) (dcImages c), dmRing = newEventRing (window_size c), dmResponder = r,
       dmStore = fs, dmSink = k, dmRecords = [], dmScanned = 0, dmPaths = [], dmSuppressed = 0 \<rparr>"

definition record_less :: "detectionRecord \<Rightarrow> detectionRecord \<Rightarrow> bool" where
  "record_less = ikey_less (\<lambda>r. uint (dSeq (rcDetection r))) (key_less (\<lambda>r. dRuleID (rcDetection r)) (\<lambda>a b. False))"

definition daemon_Run ::
    "('r, 'k) daemonEnv \<Rightarrow> daemonConfig \<Rightarrow> sourceItem list \<Rightarrow> 'r \<Rightarrow> 'k \<Rightarrow> wormStore \<Rightarrow> ('r, 'k) daemonState \<times> string option" where
  "daemon_Run env c src r k fs =
     (case daemon_loop env c src (daemon_start env c r k fs) of (st, err) \<Rightarrow>
        (st\<lparr> dmRecords := sort_stable record_less (dmRecords st) \<rparr>, err))"

definition daemon_Detections :: "('r, 'k) daemonState \<Rightarrow> detection list" where
  "daemon_Detections st = map rcDetection (dmRecords st)"

subsection \<open>What a run accounts for\<close>

definition kept :: "daemonConfig \<Rightarrow> detection list \<Rightarrow> detection list" where
  "kept c ds = filter (\<lambda>d. \<not> Suppressed (dcExceptions c) d) ds"

lemma kept_simps [simp]:
  "kept c [] = []" "kept c (d # ds) = (if Suppressed (dcExceptions c) d then kept c ds else d # kept c ds)"
  "kept c (ds @ ds') = kept c ds @ kept c ds'"
  by (simp_all add: kept_def)

definition record_ok :: "daemonConfig \<Rightarrow> detectionRecord \<Rightarrow> bool" where
  "record_ok c r \<longleftrightarrow> rcAction r = Plan (dcPolicy c) (rcDetection r)
     \<and> rcIncident r = (if dcEmitIncidents c then Some (BuildIncident (rcDetection r)) else None)"

lemma handle_simps:
  assumes "daemon_handle env c d st = (st', rec)"
  shows "rcDetection rec = d" "record_ok c rec" "dmDet st' = dmDet st" "dmRing st' = dmRing st" "dmRecords st' = dmRecords st"
    "dmScanned st' = dmScanned st" "dmSuppressed st' = dmSuppressed st" "dmPaths st' = dmPaths st"
    "dmResponder st' = fst (deRespond env (Plan (dcPolicy c) d) (dmResponder st))"
    "(dmStore st', rcEvidencePath rec) = daemon_evidence env c d (dmRing st) (dmStore st)"
  using assms by (auto simp: daemon_handle_def record_ok_def Let_def)

lemma detections_run:
  "map rcDetection (dmRecords (daemon_detections env c ds st)) = map rcDetection (dmRecords st) @ kept c ds
   \<and> dmSuppressed (daemon_detections env c ds st) + length (kept c ds) = dmSuppressed st + length ds
   \<and> dmScanned (daemon_detections env c ds st) = dmScanned st
   \<and> dmDet (daemon_detections env c ds st) = dmDet st \<and> dmRing (daemon_detections env c ds st) = dmRing st
   \<and> (list_all (record_ok c) (dmRecords st) \<longrightarrow> list_all (record_ok c) (dmRecords (daemon_detections env c ds st)))
   \<and> (dmPaths st = filter (\<lambda>p. p \<noteq> []) (map rcEvidencePath (dmRecords st))
        \<longrightarrow> dmPaths (daemon_detections env c ds st) = filter (\<lambda>p. p \<noteq> []) (map rcEvidencePath (dmRecords (daemon_detections env c ds st))))
   \<and> dmResponder (daemon_detections env c ds st)
       = fold (\<lambda>a r. fst (deRespond env a r)) (map (Plan (dcPolicy c)) (kept c ds)) (dmResponder st)"
proof (induction ds arbitrary: st)
  case (Cons d ds)
  show ?case
  proof (cases "Suppressed (dcExceptions c) d")
    case True
    with Cons.IH [of "st\<lparr> dmSuppressed := dmSuppressed st + 1 \<rparr>"] show ?thesis by simp
  next
    case False
    obtain st' rec where h: "daemon_handle env c d st = (st', rec)" by (rule prod.exhaust)
    note s = handle_simps [OF h]
    show ?thesis
      using False Cons.IH [of "st'\<lparr> dmRecords := dmRecords st' @ [rec], dmPaths := (if rcEvidencePath rec \<noteq> [] then dmPaths st' @ [rcEvidencePath rec] else dmPaths st') \<rparr>"]
      by (cases "rcEvidencePath rec = []") (simp_all add: h s)
  qed
qed simp

lemma loop_run:
  assumes "daemon_loop env c src st = (st', err)"
    and "det_loop (deParse env) (dmDet st) src = (det, ds, err')"
    and "list_all (record_ok c) (dmRecords st)" "dmPaths st = filter (\<lambda>p. p \<noteq> []) (map rcEvidencePath (dmRecords st))"
  shows "map rcDetection (dmRecords st') = map rcDetection (dmRecords st) @ kept c ds
   \<and> dmSuppressed st' + length (kept c ds) = dmSuppressed st + length ds \<and> err' = err \<and> dmDet st' = det
   \<and> list_all (record_ok c) (dmRecords st') \<and> dmPaths st' = filter (\<lambda>p. p \<noteq> []) (map rcEvidencePath (dmRecords st'))
   \<and> dmResponder st' = fold (\<lambda>a r. fst (deRespond env a r)) (map (Plan (dcPolicy c)) (kept c ds)) (dmResponder st)"
  using assms
proof (induction env c src st arbitrary: ds rule: daemon_loop.induct)
  case (3 env c ev src st)
  obtain det1 ds1 where p: "det_Process (deParse env) (dmDet st) ev = (det1, ds1)" by (rule prod.exhaust)
  obtain det2 ds2 e2 where l: "det_loop (deParse env) det1 src = (det2, ds2, e2)" by (metis prod_cases3)
  let ?st1 = "st\<lparr> dmScanned := dmScanned st + 1, dmRing := ring_push ev (dmRing st), dmDet := det1 \<rparr>"
  have e: "daemon_event env c ev st = daemon_detections env c ds1 ?st1" by (simp add: daemon_event_def p)
  note dr = detections_run [of env c ds1 ?st1]
  have ds: "ds = ds1 @ ds2" "det = det2" "err' = e2" using 3(3) by (auto simp: p l)
  have "det_loop (deParse env) (dmDet (daemon_event env c ev st)) src = (det2, ds2, e2)" using dr l by (simp add: e)
  moreover have "daemon_loop env c src (daemon_event env c ev st) = (st', err)" using 3(2) by simp
  ultimately have "map rcDetection (dmRecords st') = map rcDetection (dmRecords (daemon_event env c ev st)) @ kept c ds2
   \<and> dmSuppressed st' + length (kept c ds2) = dmSuppressed (daemon_event env c ev st) + length ds2 \<and> err' = err \<and> dmDet st' = det
   \<and> list_all (record_ok c) (dmRecords st') \<and> dmPaths st' = filter (\<lambda>p. p \<noteq> []) (map rcEvidencePath (dmRecords st'))
   \<and> dmResponder st' = fold (\<lambda>a r. fst (deRespond env a r)) (map (Plan (dcPolicy c)) (kept c ds2)) (dmResponder (daemon_event env c ev st))"
    using 3(1) [of ds2] 3(4,5) dr by (simp add: e ds)
  with dr show ?case by (simp add: e ds)
qed (auto)

lemma start_simps [simp]:
  "dmDet (daemon_start env c r k fs) = NewDetector (deParse env) (dcOptions c) (dcImages c)" "dmRecords (daemon_start env c r k fs) = []"
  "dmRing (daemon_start env c r k fs) = newEventRing (window_size c)" "dmResponder (daemon_start env c r k fs) = r"
  "dmStore (daemon_start env c r k fs) = fs" "dmPaths (daemon_start env c r k fs) = []" "dmSuppressed (daemon_start env c r k fs) = 0"
  by (simp_all add: daemon_start_def)

lemma record_less_detection: "record_less a b = detection_less (rcDetection a) (rcDetection b)"
  by (simp add: record_less_def detection_less_def ikey_less_def key_less_def)

lemma daemon_accounts_aux:
  "let st = fst (daemon_Run env c src r k fs); run = det_Run (deParse env) (NewDetector (deParse env) (dcOptions c) (dcImages c)) src;
       found = fst (snd (det_loop (deParse env) (NewDetector (deParse env) (dcOptions c) (dcImages c)) src))
   in daemon_Detections st = kept c (fst (snd run))
      \<and> dmSuppressed st + length (daemon_Detections st) = length (fst (snd run))
      \<and> snd (daemon_Run env c src r k fs) = snd (snd run)
      \<and> list_all (record_ok c) (dmRecords st)
      \<and> dmResponder st = fold (\<lambda>a r. fst (deRespond env a r)) (map (Plan (dcPolicy c)) (kept c found)) r"
proof -
  obtain st err where l: "daemon_loop env c src (daemon_start env c r k fs) = (st, err)" by (rule prod.exhaust)
  obtain det ds err' where d: "det_loop (deParse env) (NewDetector (deParse env) (dcOptions c) (dcImages c)) src = (det, ds, err')"
    by (metis prod_cases3)
  have run: "map rcDetection (dmRecords st) = kept c ds" "dmSuppressed st + length (kept c ds) = length ds" "err' = err"
    "list_all (record_ok c) (dmRecords st)" "dmResponder st = fold (\<lambda>a r. fst (deRespond env a r)) (map (Plan (dcPolicy c)) (kept c ds)) r"
    using loop_run [OF l, of det ds err'] d by simp_all
  have m: "map rcDetection (sort_stable record_less (dmRecords st)) = sort_stable detection_less (kept c ds)"
    using map_sort_stable [of record_less detection_less rcDetection "dmRecords st"] record_less_detection run(1) by simp
  have k: "kept c (sort_stable detection_less ds) = sort_stable detection_less (kept c ds)"
    unfolding kept_def by (rule strict_weak.sort_filter [OF detection_less_weak])
  have "length (dmRecords st) = length (kept c ds)" using run(1) by (metis length_map)
  then show ?thesis using run m k
    by (simp add: daemon_Run_def l d det_Run_def SortDetections_def daemon_Detections_def Let_def list_all_iff)
qed

text \<open>
  C16: A run accounts for every detection: the detections of its records are, in the canonical order, those the
  detector alone would report on the stream less the ones an exception matches, which are counted; every record has the
  planned action and, when asked for, the incident of its detection; the responder was asked to act on every kept
  detection in the order they arose; and a stream that breaks off gives its error with what was gathered.
\<close>

theorem daemon_accounts:
  "let st = fst (daemon_Run env c src r k fs); run = det_Run (deParse env) (NewDetector (deParse env) (dcOptions c) (dcImages c)) src;
       found = fst (snd (det_loop (deParse env) (NewDetector (deParse env) (dcOptions c) (dcImages c)) src))
   in daemon_Detections st = kept c (fst (snd run))
      \<and> dmSuppressed st + length (daemon_Detections st) = length (fst (snd run))
      \<and> snd (daemon_Run env c src r k fs) = snd (snd run)
      \<and> list_all (record_ok c) (dmRecords st)
      \<and> dmResponder st = fold (\<lambda>a r. fst (deRespond env a r)) (map (Plan (dcPolicy c)) (kept c found)) r"
  by (rule daemon_accounts_aux)

subsection \<open>The window\<close>

lemma detections_ring: "dmRing (daemon_detections env c ds st) = dmRing st"
  using detections_run [of env c ds st] by blast

lemma loop_ring: "dmRing (fst (daemon_loop env c (map Next evs) st)) = fold ring_push evs (dmRing st)"
proof (induction evs arbitrary: st)
  case (Cons ev evs)
  have "dmRing (daemon_event env c ev st) = ring_push ev (dmRing st)"
    by (simp add: daemon_event_def detections_ring split: prod.split)
  with Cons.IH [of "daemon_event env c ev st"] show ?case by simp
qed simp


subsection \<open>Response\<close>

text \<open>
  C17: A daemon with an enforcing responder touches the machine by the planned actions of the kept detections at or above
  the kill severity, in the order they arose and only under an armed policy; the responder's record holds every
  planned action.
\<close>

theorem daemon_enforces:
  assumes "deRespond env = enforcing_Do (linux_effects h)" "enPolicy r = dcPolicy c" "enEffects r = []"
  shows "enEffects (dmResponder (fst (daemon_Run env c src r k fs)))
     = (if armed (dcPolicy c)
        then action_effects (linux_effects h) (map (Plan (dcPolicy c)) (filter (\<lambda>d. rpKillSeverity (dcPolicy c) \<le> dSeverity d)
          (kept c (fst (snd (det_loop (deParse env) (NewDetector (deParse env) (dcOptions c) (dcImages c)) src))))))
        else [])"
proof -
  let ?ds = "kept c (fst (snd (det_loop (deParse env) (NewDetector (deParse env) (dcOptions c) (dcImages c)) src)))"
  have "dmResponder (fst (daemon_Run env c src r k fs)) = enforcing.act_all (linux_effects h) (map (Plan (dcPolicy c)) ?ds) r"
    using daemon_accounts_aux [of env c src r k fs] by (simp add: enforcing.act_all_def assms(1) Let_def)
  then have e: "enEffects (dmResponder (fst (daemon_Run env c src r k fs)))
      = (if armed (dcPolicy c) then action_effects (linux_effects h) (map (Plan (dcPolicy c)) ?ds) else [])"
    using enforcing_all [of "linux_effects h" "map (Plan (dcPolicy c)) ?ds" r] assms(2,3) by simp
  show ?thesis unfolding e using planned_effects [of "linux_effects h" "dcPolicy c" ?ds] by simp
qed

definition sample_host :: rtHost where
  "sample_host = \<lparr> hoSignal = (\<lambda>_. None), hoLookPath = None, hoDocker = (\<lambda>_. None) \<rparr>"

definition sample_codec :: evidenceCodec where
  "sample_codec = \<lparr> ecBundle = (\<lambda>_. []), ecIndent = (\<lambda>e. if evdAlgorithm e = ''sha256'' then Inr (evdDigest e) else Inl ''algorithm''),
     ecEnvelope = (\<lambda>bs. Inr (''sha256'', butlast bs, [])), ecCompact = (\<lambda>_. Inr []) \<rparr>"

definition sample_worm :: wormEnv where
  "sample_worm = \<lparr> weMkdir = (\<lambda>_. None), weCreate = (\<lambda>_. None), weWrite = (\<lambda>_ data. (data, None)) \<rparr>"

definition sample_config :: "string \<Rightarrow> daemonConfig" where
  "sample_config mode = \<lparr> dcOptions = sample_options False None, dcImages = [], dcPolicy = \<lparr> rpMode = mode, rpAcknowledged = True, rpKillSeverity = SeverityHigh \<rparr>,
     dcForensicsDir = ''/evidence'', dcWindowSize = 0, dcEmitIncidents = True, dcExceptions = None \<rparr>"

definition sample_env :: "(enforcer, unit) daemonEnv" where
  "sample_env = \<lparr> deParse = sample_parse, deCodec = sample_codec, deWorm = sample_worm, deRespond = enforcing_Do (linux_effects sample_host), deSink = None \<rparr>"

theorem daemon_enforces_witness:
  "enEffects (dmResponder (fst (daemon_Run sample_env (sample_config ResponseEnforce) [Next (sample_event ''/bin/sh'')]
       (NewEnforcingResponder (dcPolicy (sample_config ResponseEnforce))) () Map.empty))) = [SIGKILL 7]"
proof -
  have "enEffects (dmResponder (fst (daemon_Run sample_env (sample_config ResponseEnforce) [Next (sample_event ''/bin/sh'')]
       (NewEnforcingResponder (dcPolicy (sample_config ResponseEnforce))) () Map.empty)))
     = (if armed (dcPolicy (sample_config ResponseEnforce))
        then action_effects (linux_effects sample_host) (map (Plan (dcPolicy (sample_config ResponseEnforce)))
          (filter (\<lambda>d. rpKillSeverity (dcPolicy (sample_config ResponseEnforce)) \<le> dSeverity d)
          (kept (sample_config ResponseEnforce) (fst (snd (det_loop (deParse sample_env) (NewDetector (deParse sample_env)
             (dcOptions (sample_config ResponseEnforce)) (dcImages (sample_config ResponseEnforce))) [Next (sample_event ''/bin/sh'')]))))))
        else [])"
    by (rule daemon_enforces) (simp_all add: sample_env_def NewEnforcingResponder_def)
  also have "\<dots> = [SIGKILL 7]" by code_simp
  finally show ?thesis .
qed

subsection \<open>Evidence on disk\<close>

text \<open>An environment in which files can be made and writes are complete, and a store whose files all verify.\<close>

definition durable :: "wormEnv \<Rightarrow> bool" where
  "durable env \<longleftrightarrow> (\<forall>p data. weWrite env p data = (data, None)) \<and> (\<forall>p err. weCreate env p \<noteq> Some (True, err))"

definition store_verifies :: "evidenceCodec \<Rightarrow> wormStore \<Rightarrow> bool" where
  "store_verifies ec fs \<longleftrightarrow> (\<forall>p data. fs p = Some data \<longrightarrow> VerifyEvidenceBytes ec data = Inr True)"

lemma durable_ok: "durable env \<Longrightarrow> env_ok env"
  by (simp add: durable_def env_ok_def)

lemma WriteToDir_error: "durable env \<Longrightarrow> WriteToDir ec env dir e fs = (fs', Inl err) \<Longrightarrow> fs' = fs"
  by (auto simp: WriteToDir_def Let_def durable_def split: option.splits sum.splits prod.splits if_splits)

lemma WriteToDir_found: "durable env \<Longrightarrow> WriteToDir ec env dir e fs = (fs', Inr p) \<Longrightarrow> fs' p \<noteq> None"
  by (auto simp: WriteToDir_def Let_def durable_def split: option.splits sum.splits prod.splits if_splits)

lemma store_step:
  assumes "codec_ok (deCodec env)" "durable (deWorm env)" "store_verifies (deCodec env) fs"
    "daemon_evidence env c d r fs = (fs', p)"
  shows "store_verifies (deCodec env) fs'" "fs \<subseteq>\<^sub>m fs'" "p \<noteq> [] \<Longrightarrow> fs' p \<noteq> None"
proof -
  let ?e = "CaptureForensics (deCodec env) d (ring_slice r)"
  let ?w = "WriteToDir (deCodec env) (deWorm env) (dcForensicsDir c) ?e fs"
  have keep: "fs \<subseteq>\<^sub>m fst ?w" using WriteToDir_keeps [of fs] by (auto simp: map_le_def)
  have "fs' = fs \<or> fs' = fst ?w" using assms(4) by (auto simp: daemon_evidence_def split: prod.splits sum.splits if_splits)
  with keep show "fs \<subseteq>\<^sub>m fs'" by auto
  show "p \<noteq> [] \<Longrightarrow> fs' p \<noteq> None"
    using assms(4) WriteToDir_found [OF assms(2)] by (auto simp: daemon_evidence_def split: prod.splits sum.splits if_splits)
  show "store_verifies (deCodec env) fs'"
  proof (cases "snd ?w")
    case (Inl err)
    then have "fs' = fs" using assms(4) WriteToDir_error [OF assms(2)] by (auto simp: daemon_evidence_def split: prod.splits sum.splits if_splits)
    with assms(3) show ?thesis by simp
  next
    case (Inr q)
    then have w: "?w = (fst ?w, Inr q)" by (metis prod.collapse)
    note wp = WriteToDir_path [OF assms(1) durable_ok [OF assms(2)] capture_verifies w]
    have "VerifyEvidenceBytes (deCodec env) data = Inr True" if "fst ?w x = Some data" for x data
    proof (cases "x = q \<and> fs q = None")
      case True
      with that wp(2) show ?thesis by auto
    next
      case False
      then have "fs x = Some data" using that wp(1,3) WriteToDir_only [of x "dcForensicsDir c" ?e] by (cases "x = q") auto
      with assms(3) show ?thesis by (auto simp: store_verifies_def)
    qed
    then have "store_verifies (deCodec env) (fst ?w)" by (auto simp: store_verifies_def)
    with \<open>fs' = fs \<or> fs' = fst ?w\<close> assms(3) show ?thesis by auto
  qed
qed

text \<open>What holds of a daemon's store and paths through a run.\<close>

definition evidence_inv :: "('r, 'k) daemonEnv \<Rightarrow> wormStore \<Rightarrow> ('r, 'k) daemonState \<Rightarrow> bool" where
  "evidence_inv env fs st \<longleftrightarrow> store_verifies (deCodec env) (dmStore st) \<and> fs \<subseteq>\<^sub>m dmStore st \<and> set (dmPaths st) \<subseteq> dom (dmStore st)"

lemma detections_evidence:
  assumes "codec_ok (deCodec env)" "durable (deWorm env)"
  shows "evidence_inv env fs st \<Longrightarrow> evidence_inv env fs (daemon_detections env c ds st)"
proof (induction ds arbitrary: st)
  case (Cons d ds)
  show ?case
  proof (cases "Suppressed (dcExceptions c) d")
    case True
    with Cons show ?thesis by (simp add: evidence_inv_def)
  next
    case False
    obtain st' rec where h: "daemon_handle env c d st = (st', rec)" by (rule prod.exhaust)
    note s = handle_simps [OF h]
    have inv: "store_verifies (deCodec env) (dmStore st)" "fs \<subseteq>\<^sub>m dmStore st" "set (dmPaths st) \<subseteq> dom (dmStore st)"
      using Cons.prems by (simp_all add: evidence_inv_def)
    note step = store_step [OF assms inv(1) s(10) [symmetric]]
    have "set (dmPaths st) \<subseteq> dom (dmStore st')" using inv(3) map_le_implies_dom_le [OF step(2)] by (rule order.trans)
    then have "evidence_inv env fs (st'\<lparr> dmRecords := dmRecords st' @ [rec],
        dmPaths := (if rcEvidencePath rec \<noteq> [] then dmPaths st' @ [rcEvidencePath rec] else dmPaths st') \<rparr>)"
      using step s(8) map_le_trans [OF inv(2) step(2)] by (cases "rcEvidencePath rec = []") (simp_all add: evidence_inv_def dom_def)
    from Cons.IH [OF this] False show ?thesis by (simp add: h)
  qed
qed simp

lemma loop_evidence:
  assumes "codec_ok (deCodec env)" "durable (deWorm env)"
  shows "evidence_inv env fs st \<Longrightarrow> evidence_inv env fs (fst (daemon_loop env c src st))"
proof (induction src arbitrary: st)
  case (Cons x src)
  show ?case
  proof (cases x)
    case (Next ev)
    have "evidence_inv env fs (daemon_event env c ev st)"
      unfolding daemon_event_def by (cases "det_Process (deParse env) (dmDet st) ev")
        (use Cons.prems in \<open>auto simp: evidence_inv_def intro!: detections_evidence [OF assms, unfolded evidence_inv_def]\<close>)
    with Cons.IH show ?thesis by (simp add: Next)
  qed (use Cons in simp)
qed simp



text \<open>
  A write that fails leaves the file it began. A later capture of the same evidence finds the file and returns its
  path, whatever it holds: the unfinished artifact counts as captured.
\<close>

lemma unfinished_evidence_accepted:
  assumes "weMkdir env dir = None" "fs (evidence_path dir e) = None" "ecIndent ec e = Inr data"
    "weCreate env (evidence_path dir e) = None" "weWrite env (evidence_path dir e) (data @ [CHR 0x0A]) = (part, Some err)"
  shows "WriteToDir ec env dir e fs = (fs(evidence_path dir e \<mapsto> part), Inl (''write evidence: '' @ err))"
    and "WriteToDir ec env dir e (fs(evidence_path dir e \<mapsto> part)) = (fs(evidence_path dir e \<mapsto> part), Inr (evidence_path dir e))"
  using assms by (simp_all add: WriteToDir_def Let_def)

subsection \<open>One record per rule and event\<close>

lemma evaluate_one: "length (snd (evaluate np r ev st)) \<le> 1"
  by (cases r) (simp_all add: eval_defs Let_def split: option.split prod.split)

lemma eval_rules_ids:
  "distinct (map (riID \<circ> ruleInfo_of) rs) \<Longrightarrow> distinct (map dRuleID (snd (eval_rules np rs ev st)))
     \<and> dRuleID ` set (snd (eval_rules np rs ev st)) \<subseteq> (riID \<circ> ruleInfo_of) ` set rs"
proof (induction rs arbitrary: st)
  case (Cons r rs)
  obtain st1 ds where 1: "evaluate np r ev st = (st1, ds)" by (rule prod.exhaust)
  obtain st2 ds' where 2: "eval_rules np rs ev st1 = (st2, ds')" by (rule prod.exhaust)
  have id: "dRuleID d = riID (ruleInfo_of r)" if "d \<in> set ds" for d
    using evaluate_reports [of d np r ev st] that 1 by (simp add: reports_def)
  have ih: "distinct (map dRuleID ds')" "dRuleID ` set ds' \<subseteq> (riID \<circ> ruleInfo_of) ` set rs"
    using Cons.IH [of st1] Cons.prems by (simp_all add: 2)
  have "length ds \<le> 1" using evaluate_one [of np r ev st] by (simp add: 1)
  then consider "ds = []" | d where "ds = [d]" by (cases ds) auto
  then show ?case
  proof cases
    case 1
    then show ?thesis using ih by (auto simp: \<open>evaluate np r ev st = (st1, ds)\<close> 2)
  next
    case (2 d)
    have "riID (ruleInfo_of r) \<notin> (riID \<circ> ruleInfo_of) ` set rs" using Cons.prems by simp
    then show ?thesis using ih id [of d] 2 by (auto simp: \<open>evaluate np r ev st = (st1, ds)\<close> \<open>eval_rules np rs ev st1 = (st2, ds')\<close>)
  qed
qed simp

lemma defaultRules_distinct: "distinct (map (riID \<circ> ruleInfo_of) (defaultRules np opts))"
  by (simp add: defaultRules_def info_shell_def info_drift_def info_escape_def info_runtimeBinary_def info_privEsc_def info_sensitiveFile_def
      info_credTheft_def info_cryptoMining_def info_egress_def info_kernelAbuse_def info_reverseShell_def info_persistence_def
      info_fileless_def info_intel_def info_anomaly_def info_agentRuntime_def)

text \<open>What an incident id is computed from, short of the container.\<close>

definition detection_key :: "detection \<Rightarrow> string \<times> 64 word" where
  "detection_key d = (dRuleID d, dSeq d)"

lemma loop_keys:
  assumes "distinct (map (riID \<circ> ruleInfo_of) (dtRules d))"
  shows "distinct (map evSeq evs) \<Longrightarrow> distinct (map detection_key (fst (snd (det_loop np d (map Next evs)))))
    \<and> dSeq ` set (fst (snd (det_loop np d (map Next evs)))) \<subseteq> evSeq ` set evs"
  using assms
proof (induction evs arbitrary: d)
  case (Cons ev evs)
  obtain d1 ds where 1: "det_Process np d ev = (d1, ds)" by (rule prod.exhaust)
  obtain d2 ds' e where 2: "det_loop np d1 (map Next evs) = (d2, ds', e)" by (metis prod_cases3)
  have d1: "dtRules d1 = dtRules d" using Process_rules [of np d ev] 1 by simp
  have ds: "ds = snd (eval_rules np (dtRules d) ev (before_rules ev (dtState d)))" using 1 by (auto simp: det_Process_def split: prod.splits)
  have sq: "dSeq x = evSeq ev" if "x \<in> set ds" for x
    using eval_rules_reports [of x np "dtRules d" ev "before_rules ev (dtState d)"] that ds by (auto simp: reports_def)
  have ih: "distinct (map detection_key ds')" "dSeq ` set ds' \<subseteq> evSeq ` set evs"
    using Cons.IH [of d1] Cons.prems by (simp_all add: 2 d1)
  have "distinct (map dRuleID ds)" using eval_rules_ids [OF Cons.prems(2)] ds by simp
  then have "distinct (map detection_key ds)"
    by (auto simp: distinct_map detection_key_def inj_on_def)
  moreover have "detection_key ` set ds \<inter> detection_key ` set ds' = {}"
  proof -
    have "evSeq ev \<notin> dSeq ` set ds'" using ih(2) Cons.prems(1) by auto
    then show ?thesis using sq by (auto simp: detection_key_def)
  qed
  ultimately show ?case using ih sq by (auto simp: 1 2)
qed simp

text \<open>
  Over a stream with distinct sequence numbers no two records share a rule and a sequence number, and the canonical order
  of the records is strict: it does not depend on the order the rules ran in.
\<close>

theorem record_keys_distinct:
  assumes "distinct (map evSeq evs)"
  shows "distinct (map detection_key (daemon_Detections (fst (daemon_Run env c (map Next evs) r k fs))))
    \<and> sorted_wrt detection_less (daemon_Detections (fst (daemon_Run env c (map Next evs) r k fs)))"
proof -
  let ?ds = "fst (snd (det_loop (deParse env) (NewDetector (deParse env) (dcOptions c) (dcImages c)) (map Next evs)))"
  have e: "daemon_Detections (fst (daemon_Run env c (map Next evs) r k fs)) = kept c (SortDetections ?ds)"
    using daemon_accounts_aux [of env c "map Next evs" r k fs] by (simp add: Let_def det_Run_def case_prod_beta)
  have "distinct (map detection_key ?ds)"
    using loop_keys [of "NewDetector (deParse env) (dcOptions c) (dcImages c)" evs "deParse env"] assms defaultRules_distinct by simp
  then have k: "distinct (map detection_key (kept c (SortDetections ?ds)))"
    unfolding kept_def by (subst distinct_mset_map_filter [OF mset_SortDetections]) (auto simp: distinct_map intro: inj_on_subset)
  have s: "sorted_wrt (\<lambda>a b. \<not> detection_less b a) (kept c (SortDetections ?ds))"
    unfolding kept_def SortDetections_def by (intro sorted_wrt_filter strict_weak.sorted [OF detection_less_weak])
  have tot: "detection_less a b" if "\<not> detection_less b a" "detection_key a \<noteq> detection_key b" for a b
    using that str_less_linear [of "dRuleID a" "dRuleID b"]
    by (auto simp: detection_less_def detection_key_def ikey_less_def key_less_def word_uint_eq_iff split: if_splits)
  have "sorted_wrt detection_less xs" if "sorted_wrt (\<lambda>a b. \<not> detection_less b a) xs" "distinct (map detection_key xs)" for xs
    using that by (induction xs) (auto intro!: tot)
  from this [OF s k] k show ?thesis by (simp only: e)
qed

theorem record_keys_distinct_witness:
  "distinct (map detection_key (daemon_Detections (fst (daemon_Run sample_env (sample_config ResponseDetect) (map Next [sample_event ''/bin/sh''])
      (NewEnforcingResponder DefaultResponsePolicy) () Map.empty))))"
  by (rule record_keys_distinct [THEN conjunct1]) simp

end
