(* ===== verification/GoNet.thy ===== *)
theory GoNet
  imports GoStrings GoEncoding
begin

text \<open>
  IP addresses as \<^verbatim>\<open>net.ParseIP\<close>, \<^verbatim>\<open>net.ParseCIDR\<close> and \<^verbatim>\<open>IPNet.Contains\<close> of the standard library
  see them: an address is sixteen bytes, an IPv4 address is the IPv6 address that maps it; a network is a
  number, a mask and the family it was written in.
\<close>

type_synonym ip16 = "int list"

definition v4_prefix :: "int list" where
  "v4_prefix = [0, 0, 0, 0, 0, 0, 0, 0, 0, 0, 255, 255]"

definition To4 :: "ip16 \<Rightarrow> int list option" where
  "To4 ip = (if take 12 ip = v4_prefix then Some (drop 12 ip) else None)"

subsection \<open>Parsing addresses\<close>

definition dec_field :: "string \<Rightarrow> int option" where
  "dec_field s =
     (if s = [] \<or> \<not> list_all isDigit s \<or> (length s > 1 \<and> hd s = CHR ''0'') \<or> length s > 3 then None
      else (let n = fold (\<lambda>c n. n * 10 + int (digitVal c)) s 0 in if n > 255 then None else Some n))"

definition parse_v4_bytes :: "string \<Rightarrow> int list option" where
  "parse_v4_bytes s =
     (case map dec_field (split_byte CHR ''.'' s) of
        [Some a, Some b, Some c, Some d] \<Rightarrow> Some [a, b, c, d]
      | _ \<Rightarrow> None)"

definition hex_group :: "string \<Rightarrow> int option" where
  "hex_group s =
     (if s = [] \<or> length s > 4 then None
      else fold (\<lambda>c r. case (r, hexDigitVal c) of (Some n, Some v) \<Rightarrow> Some (n * 16 + int v) | _ \<Rightarrow> None) s (Some 0))"

definition isHexByte :: "char \<Rightarrow> bool" where
  "isHexByte c \<longleftrightarrow> hexDigitVal c \<noteq> None"

text \<open>
  The loop over the groups: the bytes read so far and where the ellipsis stands among them.
\<close>

fun v6_loop :: "nat \<Rightarrow> int list \<Rightarrow> nat option \<Rightarrow> string \<Rightarrow> (int list \<times> nat option \<times> string) option" where
  "v6_loop 0 bs el s = Some (bs, el, s)"
| "v6_loop (Suc fuel) bs el s =
     (if length bs \<ge> 16 then Some (bs, el, s)
      else
        (let g = takeWhile isHexByte s; rest = dropWhile isHexByte s in
         case hex_group g of None \<Rightarrow> None
         | Some n \<Rightarrow>
           if rest = [] then Some (bs @ [n div 256, n mod 256], el, [])
           else if hd rest = CHR ''.'' then
             (if (el = None \<and> length bs \<noteq> 12) \<or> length bs + 4 > 16 then None
              else map_option (\<lambda>v4. (bs @ v4, el, [])) (parse_v4_bytes s))
           else if hd rest \<noteq> CHR '':'' \<or> tl rest = [] then None
           else if hd (tl rest) = CHR '':'' then
             (if el \<noteq> None then None
              else if tl (tl rest) = [] then Some (bs @ [n div 256, n mod 256], Some (length bs + 2), [])
              else v6_loop fuel (bs @ [n div 256, n mod 256]) (Some (length bs + 2)) (tl (tl rest)))
           else v6_loop fuel (bs @ [n div 256, n mod 256]) el (tl rest)))"

definition parse_v6_bytes :: "string \<Rightarrow> int list option" where
  "parse_v6_bytes s0 =
     (let lead = take 2 s0 = ''::''; s = (if lead then drop 2 s0 else s0) in
      if lead \<and> s = [] then Some (replicate 16 0)
      else (case v6_loop 8 [] (if lead then Some 0 else None) s of
          None \<Rightarrow> None
        | Some (bs, el, rest) \<Rightarrow>
            if rest \<noteq> [] then None
            else if length bs < 16 then
              (case el of None \<Rightarrow> None | Some k \<Rightarrow> Some (take k bs @ replicate (16 - length bs) 0 @ drop k bs))
            else if el \<noteq> None then None else Some bs))"

datatype ipAddr = V4 "int list" | V6 "int list"

definition ParseAddr :: "string \<Rightarrow> ipAddr option" where
  "ParseAddr s =
     (case filter (\<lambda>c. c \<in> {CHR ''.'', CHR '':'', CHR ''%''}) s of
        [] \<Rightarrow> None
      | c # _ \<Rightarrow> if c = CHR ''.'' then map_option V4 (parse_v4_bytes s)
                 else if c = CHR '':'' then map_option V6 (parse_v6_bytes s) else None)"

fun as16 :: "ipAddr \<Rightarrow> ip16" where
  "as16 (V4 b) = v4_prefix @ b"
| "as16 (V6 b) = b"

fun bit_len :: "ipAddr \<Rightarrow> nat" where
  "bit_len (V4 b) = 32"
| "bit_len (V6 b) = 128"

definition net_ParseIP :: "string \<Rightarrow> ip16 option" where
  "net_ParseIP s = map_option as16 (ParseAddr s)"

subsection \<open>Networks\<close>

text \<open>The bytes of a mask with so many leading ones, and a masked number.\<close>

definition mask_byte :: "nat \<Rightarrow> int" where
  "mask_byte k = 256 - 2 ^ (8 - min 8 k)"

definition cidr_mask :: "nat \<Rightarrow> nat \<Rightarrow> int list" where
  "cidr_mask n bytes = map (\<lambda>i. mask_byte (n - 8 * i)) [0..<bytes]"

definition mask_and :: "int \<Rightarrow> int \<Rightarrow> int" where
  "mask_and b m = (if m = 0 then 0 else b - b mod (256 - m))"

record ipNet =
  inNumber :: "int list"
  inMask :: "int list"

definition mask_digits :: "string \<Rightarrow> nat option" where
  "mask_digits m =
     (if m = [] \<or> \<not> list_all isDigit m then None
      else (let n = fold (\<lambda>c n. min 16777215 (n * 10 + int (digitVal c))) m 0 in if n \<ge> 16777215 then None else Some (nat n)))"

definition net_ParseCIDR :: "string \<Rightarrow> ipNet option" where
  "net_ParseCIDR s =
     (case cut_byte CHR ''/'' s of None \<Rightarrow> None
      | Some (a, m) \<Rightarrow>
          (case (ParseAddr a, mask_digits m) of
             (Some ip, Some n) \<Rightarrow>
               if n > bit_len ip then None
               else (case ip of
                   V4 b \<Rightarrow> Some \<lparr> inNumber = map2 mask_and b (cidr_mask n 4), inMask = cidr_mask n 4 \<rparr>
                 | V6 b \<Rightarrow> Some \<lparr> inNumber = map2 mask_and b (cidr_mask n 16), inMask = cidr_mask n 16 \<rparr>)
           | _ \<Rightarrow> None))"

definition short_form :: "int list \<Rightarrow> int list" where
  "short_form ip = (if length ip = 16 then (case To4 ip of Some b \<Rightarrow> b | None \<Rightarrow> ip) else ip)"

definition net_Contains :: "ipNet \<Rightarrow> ip16 \<Rightarrow> bool" where
  "net_Contains n ip =
     (let num = short_form (inNumber n);
          m = (if length (inMask n) = 16 \<and> length num = 4 then drop 12 (inMask n) else inMask n);
          x = short_form ip
      in length x = length num \<and> length m = length num
         \<and> list_all (\<lambda>i. mask_and (num ! i) (m ! i) = mask_and (x ! i) (m ! i)) [0..<length x])"

text \<open>An address lies in its own host network.\<close>

lemma parse_v4_length: "parse_v4_bytes s = Some b \<Longrightarrow> length b = 4 \<and> list_all (\<lambda>x. x < 256) b"
  by (auto simp: parse_v4_bytes_def dec_field_def Let_def split: list.splits option.splits if_splits)

lemma mask_full [simp]: "cidr_mask 32 4 = [255, 255, 255, 255]"
  by code_simp

lemma mask_and_255 [simp]: "mask_and b 255 = b"
  by (simp add: mask_and_def)

lemma length_four: "length b = 4 \<Longrightarrow> \<exists>w x y z. b = [w, x, y, z]"
  by (auto simp: numeral_eq_Suc length_Suc_conv)

lemma v4_host_contains:
  assumes "ParseAddr ip = Some (V4 b)" "CHR ''/'' \<notin> set ip"
  shows "\<exists>n. net_ParseCIDR (ip @ ''/32'') = Some n \<and> net_Contains n (as16 (V4 b))"
proof -
  have "parse_v4_bytes ip = Some b" using assms(1) by (auto simp: ParseAddr_def split: list.splits if_splits)
  then have "length b = 4" using parse_v4_length by blast
  then obtain w x y z where b: "b = [w, x, y, z]" using length_four by blast
  have "cut_byte CHR ''/'' (ip @ ''/32'') = Some (ip, ''32'')" using cut_byte_append [OF assms(2), of "''32''"] by simp
  moreover have "mask_digits ''32'' = Some 32" by code_simp
  ultimately have "net_ParseCIDR (ip @ ''/32'') = Some \<lparr> inNumber = b, inMask = [255, 255, 255, 255] \<rparr>"
    by (simp add: net_ParseCIDR_def assms(1) b)
  moreover have "net_Contains \<lparr> inNumber = b, inMask = [255, 255, 255, 255] \<rparr> (as16 (V4 b))"
    by (simp add: net_Contains_def short_form_def To4_def v4_prefix_def b Let_def upt_rec)
  ultimately show ?thesis by blast
qed

lemma split_byte_length: "length (split_byte c s) = Suc (length (filter (\<lambda>x. x = c) s))"
  by (induction s) (auto split: list.splits)

lemma split_byte_covers: "set s \<subseteq> insert c (\<Union>p \<in> set (split_byte c s). set p)"
proof (induction s)
  case (Cons a s)
  obtain p ps where "split_byte c s = p # ps" using split_byte_ne by (meson neq_Nil_conv)
  with Cons show ?case by auto
qed simp

lemma v4_chars:
  assumes "parse_v4_bytes s = Some b"
  shows "length (filter (\<lambda>x. x = CHR ''.'') s) = 3" "list_all (\<lambda>c. isDigit c \<or> c = CHR ''.'') s"
proof -
  obtain w x y z where m: "map dec_field (split_byte CHR ''.'' s) = [Some w, Some x, Some y, Some z]"
    using assms by (auto simp: parse_v4_bytes_def split: list.splits option.splits)
  then have "length (split_byte CHR ''.'' s) = 4" 
  proof -
    have "length (map dec_field (split_byte CHR ''.'' s)) = 4" unfolding m by simp
    then show ?thesis by simp
  qed
  then show "length (filter (\<lambda>x. x = CHR ''.'') s) = 3" using split_byte_length [of "CHR ''.''" s] by simp
  have "list_all isDigit p" if "p \<in> set (split_byte CHR ''.'' s)" for p
  proof -
    have "dec_field p \<in> set (map dec_field (split_byte CHR ''.'' s))" using that by simp
    then have "dec_field p \<noteq> None" unfolding m by auto
    then show ?thesis by (auto simp: dec_field_def split: if_splits)
  qed
  then show "list_all (\<lambda>c. isDigit c \<or> c = CHR ''.'') s"
    using split_byte_covers [of s "CHR ''.''"] by (fastforce simp: list_all_iff)
qed

lemma v6_loop_shape:
  "v6_loop k bs el s = Some (bs', el', r) \<Longrightarrow> even (length bs) \<Longrightarrow> length bs \<le> 16
     \<Longrightarrow> even (length bs') \<and> length bs' \<le> 16 \<and> (r = [] \<longrightarrow> CHR ''/'' \<notin> set s)"
proof (induction k arbitrary: bs el s)
  case (Suc k)
  let ?g = "takeWhile isHexByte s" and ?rest = "dropWhile isHexByte s"
  have nslash: "\<not> isHexByte CHR ''/''" by code_simp
  have g: "CHR ''/'' \<notin> set ?g" using nslash by (auto dest: set_takeWhileD)
  have s: "set s = set ?g \<union> set ?rest" by (metis set_append takeWhile_dropWhile_id)
  show ?case
  proof (cases "length bs \<ge> 16")
    case True
    then show ?thesis using Suc(2-4) by auto
  next
    case False
    have len: "length bs + 2 \<le> 16" using Suc(3,4) False by presburger
    obtain n where n: "hex_group ?g = Some n" using Suc(2) False by (auto simp: Let_def split: option.splits)
    let ?bs = "bs @ [n div 256, n mod 256]"
    have bs: "even (length ?bs)" "length ?bs \<le> 16" using Suc(3) len by simp_all
    note step = Suc(2) [unfolded v6_loop.simps Let_def n option.case]
    consider "?rest = []" | "?rest \<noteq> []" "hd ?rest = CHR ''.''" | "?rest \<noteq> []" "hd ?rest \<noteq> CHR ''.''" by blast
    then show ?thesis
    proof cases
      case 1
      have "CHR ''/'' \<notin> set s" unfolding s Un_iff 1 list.set(1) using g by simp
      then show ?thesis using step 1 False bs by (auto simp del: dropWhile_eq_Nil_conv)
    next
      case 2
      then obtain v where v: "parse_v4_bytes s = Some v" "bs' = bs @ v" "length bs + 4 \<le> 16"
        using step False by (auto split: if_splits)
      have "list_all (\<lambda>c. isDigit c \<or> c = CHR ''.'') s" using v4_chars(2) [OF v(1)] .
      moreover have "\<not> isDigit CHR ''/''" by code_simp
      ultimately have "CHR ''/'' \<notin> set s" by (auto simp: list_all_iff)
      then show ?thesis using v Suc(3) parse_v4_length [OF v(1)] by auto
    next
      case 3
      then have c: "hd ?rest = CHR '':''" "tl ?rest \<noteq> []" using step False by (auto split: if_splits)
      have "set ?rest = insert (hd ?rest) (set (tl ?rest))" using 3(1) by (cases ?rest) auto
      then have sl: "CHR ''/'' \<in> set s \<longleftrightarrow> CHR ''/'' \<in> set (tl ?rest)" using g s c(1) by auto
      have tl2: "set (tl ?rest) = insert (hd (tl ?rest)) (set (tl (tl ?rest)))" using c(2) by (cases "tl ?rest") auto
      show ?thesis
      proof (cases "hd (tl ?rest) = CHR '':''")
        case True
        then have sl2: "CHR ''/'' \<in> set s \<longleftrightarrow> CHR ''/'' \<in> set (tl (tl ?rest))" using sl tl2 by auto
        show ?thesis
        proof (cases "tl (tl ?rest) = []")
          case True
          then show ?thesis using step False 3 c \<open>hd (tl ?rest) = CHR '':''\<close> bs sl2 by (auto split: if_splits)
        next
          case ne: False
          have "v6_loop k ?bs (Some (length bs + 2)) (tl (tl ?rest)) = Some (bs', el', r)"
            using step False 3 c True ne by (simp split: if_splits)
          from Suc.IH [OF this bs] show ?thesis using sl2 by blast
        qed
      next
        case nc: False
        have "v6_loop k ?bs el (tl ?rest) = Some (bs', el', r)" using step False 3 c nc by (simp split: if_splits)
        from Suc.IH [OF this bs] show ?thesis using sl by blast
      qed
    qed
  qed
qed auto

lemma parse_v6_shape:
  assumes "parse_v6_bytes s = Some b"
  shows "length b = 16" "CHR ''/'' \<notin> set s"
proof -
  let ?lead = "take 2 s = ''::''" and ?s = "if take 2 s = ''::'' then drop 2 s else s"
  have sl: "CHR ''/'' \<notin> set s" if "CHR ''/'' \<notin> set ?s"
  proof (cases ?lead)
    case True
    then have "s = ''::'' @ drop 2 s" by (metis append_take_drop_id)
    then have "set s = set ''::'' \<union> set (drop 2 s)" by (metis set_append)
    then show ?thesis using that True by simp
  qed (use that in simp)
  have "length b = 16 \<and> CHR ''/'' \<notin> set s"
  proof (cases "?lead \<and> ?s = []")
    case True
    then have "length s \<le> 2" "?lead" by (simp_all split: if_splits)
    then have "b = replicate 16 0" using assms by (simp add: parse_v6_bytes_def Let_def)
    moreover have "?s = []" using True by blast
    then have "set ?s = {}" by (simp only: list.set(1))
    then have "CHR ''/'' \<notin> set s" by (intro sl) (simp only: empty_iff not_False_eq_True)
    ultimately show ?thesis by simp
  next
    case False
    then obtain bs el where l: "v6_loop 8 [] (if ?lead then Some 0 else None) ?s = Some (bs, el, [])"
        and b: "if length bs < 16 then (case el of None \<Rightarrow> False | Some k \<Rightarrow> b = take k bs @ replicate (16 - length bs) 0 @ drop k bs) else b = bs"
      using assms by (auto simp: parse_v6_bytes_def Let_def split: if_splits option.splits prod.splits)
    have sh: "length bs \<le> 16" "CHR ''/'' \<notin> set ?s" using v6_loop_shape [OF l] by auto
    have "length b = 16" using b sh(1) by (auto split: if_splits option.splits)
    then show ?thesis using sl [OF sh(2)] by blast
  qed
  then show "length b = 16" "CHR ''/'' \<notin> set s" by blast+
qed

lemma contains_itself: "length (short_form b) = length (if length m = 16 \<and> length (short_form b) = 4 then drop 12 m else m)
    \<Longrightarrow> net_Contains \<lparr> inNumber = b, inMask = m \<rparr> b"
  by (auto simp: net_Contains_def Let_def list_all_iff split: if_splits)

lemma mask_full6 [simp]: "cidr_mask 128 16 = replicate 16 255"
  by code_simp

lemma map2_mask_255: "length b = n \<Longrightarrow> map2 mask_and b (replicate n 255) = b"
  by (rule nth_equalityI) simp_all

text \<open>The host network of an address, as the policy generator writes it, holds the address.\<close>

lemma host_net:
  assumes "net_ParseIP ip = Some a"
  shows "if CHR '':'' \<in> set ip then \<exists>n. net_ParseCIDR (ip @ ''/128'') = Some n \<and> net_Contains n a
    else length (filter (\<lambda>c. c = CHR ''.'') ip) = 3 \<and> (\<exists>n. net_ParseCIDR (ip @ ''/32'') = Some n \<and> net_Contains n a)"
proof -
  obtain x where x: "ParseAddr ip = Some x" "a = as16 x" using assms by (auto simp: net_ParseIP_def)
  show ?thesis
  proof (cases x)
    case (V4 b)
    then have v: "parse_v4_bytes ip = Some b" using x by (auto simp: ParseAddr_def split: list.splits if_splits)
    have "\<not> isDigit CHR ''/''" "\<not> isDigit CHR '':''" by code_simp+
    then have "CHR ''/'' \<notin> set ip" "CHR '':'' \<notin> set ip" using v4_chars(2) [OF v] by (auto simp: list_all_iff)
    then show ?thesis using v4_chars(1) [OF v] v4_host_contains [of ip b] x V4 by simp
  next
    case (V6 b)
    then obtain t where p6: "parse_v6_bytes ip = Some b" and t: "filter (\<lambda>c. c = CHR ''.'' \<or> c = CHR '':'' \<or> c = CHR ''%'') ip = CHR '':'' # t"
      using x by (auto simp: ParseAddr_def split: list.splits if_splits)
    have "CHR '':'' \<in> set (filter (\<lambda>c. c = CHR ''.'' \<or> c = CHR '':'' \<or> c = CHR ''%'') ip)" unfolding t by simp
    then have c: "CHR '':'' \<in> set ip" by simp
    have b: "length b = 16" "CHR ''/'' \<notin> set ip" using parse_v6_shape [OF p6] by blast+
    have "cut_byte CHR ''/'' (ip @ ''/128'') = Some (ip, ''128'')" using cut_byte_append [OF b(2), of "''128''"] by simp
    moreover have "mask_digits ''128'' = Some 128" by code_simp
    ultimately have "net_ParseCIDR (ip @ ''/128'') = Some \<lparr> inNumber = b, inMask = replicate 16 255 \<rparr>"
      using x V6 b by (simp add: net_ParseCIDR_def map2_mask_255)
    moreover have "net_Contains \<lparr> inNumber = b, inMask = replicate 16 255 \<rparr> b"
      by (rule contains_itself) (simp add: short_form_def To4_def b split: option.split)
    ultimately show ?thesis using x V6 c by auto
  qed
qed

lemma ParseIP_tests:
  "net_ParseIP ''10.0.0.1'' = Some [0, 0, 0, 0, 0, 0, 0, 0, 0, 0, 255, 255, 10, 0, 0, 1]"
  "net_ParseIP ''1.2.3.04'' = None" "net_ParseIP ''1.2.3'' = None" "net_ParseIP ''example.com'' = None"
  "net_ParseIP ''fd00:ec2::254'' = Some [253, 0, 14, 194, 0, 0, 0, 0, 0, 0, 0, 0, 0, 0, 2, 84]"
  "net_ParseIP ''::ffff:1.2.3.4'' = net_ParseIP ''1.2.3.4''" "net_ParseIP ''1::2::3'' = None" "net_ParseIP ''1:2:3:4:5:6:7:8::'' = None"
  by code_simp+

end
