(* ===== verification/NetModel.thy ===== *)
theory NetModel
  imports GoNet GoData SortSlice EngineModel
begin

text \<open>
  The flow model of \<^verbatim>\<open>internal/netmon\<close>: captures and their normal order (\<^verbatim>\<open>netmon.go\<close>), the
  per-workload flow logs with their destinations (\<^verbatim>\<open>flowlog.go\<close>), and the loading of captures
  (\<^verbatim>\<open>source.go\<close>) with the JSON decoder as a parameter. Byte counts are signed 64-bit integers whose sums
  wrap.
\<close>

subsection \<open>Captures\<close>

definition ProtoTCP :: string where "ProtoTCP = ''tcp''"
definition ProtoUDP :: string where "ProtoUDP = ''udp''"
definition Egress :: string where "Egress = ''egress''"
definition Ingress :: string where "Ingress = ''ingress''"
definition VerdictAllow :: string where "VerdictAllow = ''allow''"
definition VerdictDeny :: string where "VerdictDeny = ''deny''"

record endpoint =
  epIP :: string
  epPort :: int
  epFQDN :: string
  epWorkload :: string
  epNamespace :: string

definition endpoint_key :: "endpoint \<Rightarrow> string" where
  "endpoint_key e = (let host = (if epFQDN e = [] then epIP e else epFQDN e) in host @ '':'' @ fmt_int (epPort e))"

record flow =
  flWorkloadID :: string
  flTS :: int
  flProto :: string
  flDirection :: string
  flSrc :: endpoint
  flDst :: endpoint
  flBytesTx :: int
  flBytesRx :: int
  flVerdict :: string
  flProcess :: string
  flPID :: int

record dnsEvent =
  dnWorkloadID :: string
  dnTS :: int
  dnQName :: string
  dnQType :: string
  dnRCode :: string
  dnAnswers :: "string list"

record netWorkload =
  wkID :: string
  wkName :: string
  wkNamespace :: string
  wkLabels :: "(string \<times> string) list"
  wkKind :: string
  wkHostNetwork :: bool

record capture =
  cpPolicyMode :: string
  cpWorkloads :: "netWorkload list"
  cpFlows :: "flow list"
  cpDNS :: "dnsEvent list"

subsection \<open>Normal order\<close>

definition flowLess :: "flow \<Rightarrow> flow \<Rightarrow> bool" where
  "flowLess = key_less flWorkloadID (ikey_less flTS (key_less (\<lambda>f. endpoint_key (flDst f)) (key_less (\<lambda>f. endpoint_key (flSrc f)) (\<lambda>a b. False))))"

definition dnsLess :: "dnsEvent \<Rightarrow> dnsEvent \<Rightarrow> bool" where
  "dnsLess = key_less dnWorkloadID (ikey_less dnTS (key_less dnQName (\<lambda>a b. False)))"

definition Normalize :: "capture \<Rightarrow> capture" where
  "Normalize c = c\<lparr> cpWorkloads := sort_stable (key_less wkID (\<lambda>a b. False)) (cpWorkloads c),
     cpFlows := sort_stable flowLess (cpFlows c), cpDNS := sort_stable dnsLess (cpDNS c) \<rparr>"

text \<open>The index of workloads: the last descriptor of an id counts.\<close>

definition workloadIndex :: "capture \<Rightarrow> (string \<times> netWorkload) list" where
  "workloadIndex c = fold (\<lambda>w idx. kv_put (wkID w) w idx) (cpWorkloads c) []"

subsection \<open>Address classification\<close>

definition net_imdsIPs :: "string list" where
  "net_imdsIPs = [''169.254.169.254'', ''169.254.169.253'', ''fd00:ec2::254'', ''100.100.100.200'']"

definition IsIMDS :: "string \<Rightarrow> bool" where
  "IsIMDS ip \<longleftrightarrow> strings_TrimSpace ip \<in> set net_imdsIPs"

definition private_cidrs :: "string list" where
  "private_cidrs = [''10.0.0.0/8'', ''172.16.0.0/12'', ''192.168.0.0/16'', ''100.64.0.0/10'', ''127.0.0.0/8'', ''169.254.0.0/16'',
     ''fc00::/7'', ''fe80::/10'', ''::1/128'']"

definition privateBlocks :: "ipNet list" where
  "privateBlocks = List.map_filter net_ParseCIDR private_cidrs"

definition IsInternal :: "string \<Rightarrow> bool" where
  "IsInternal ip =
     (case net_ParseIP (strings_TrimSpace ip) of None \<Rightarrow> False
      | Some p \<Rightarrow> list_ex (\<lambda>b. net_Contains b p) privateBlocks)"

definition IsExternal :: "string \<Rightarrow> bool" where
  "IsExternal ip \<longleftrightarrow> net_ParseIP (strings_TrimSpace ip) \<noteq> None \<and> \<not> IsInternal ip"

subsection \<open>Flow logs\<close>

record destStat =
  dsKey :: string
  dsHost :: string
  dsFQDN :: string
  dsIP :: string
  dsPort :: int
  dsProto :: string
  dsInternal :: bool
  dsIMDS :: bool
  dsCount :: int
  dsBytesTx :: int
  dsBytesRx :: int
  dsFirstTS :: int
  dsLastTS :: int
  dsDenied :: int
  dsTimestamps :: "int list"

record flowLog =
  fgWorkload :: netWorkload
  fgEgress :: "flow list"
  fgIngress :: "flow list"
  fgDNS :: "dnsEvent list"
  fgDests :: "destStat list"

definition hostOf :: "endpoint \<Rightarrow> string" where
  "hostOf e = (if epFQDN e \<noteq> [] then epFQDN e else if epWorkload e \<noteq> [] then epWorkload e else epIP e)"

definition new_dest :: "flow \<Rightarrow> destStat" where
  "new_dest f =
     \<lparr> dsKey = endpoint_key (flDst f), dsHost = hostOf (flDst f), dsFQDN = epFQDN (flDst f), dsIP = epIP (flDst f),
       dsPort = epPort (flDst f), dsProto = flProto f, dsInternal = IsInternal (epIP (flDst f)), dsIMDS = IsIMDS (epIP (flDst f)),
       dsCount = 0, dsBytesTx = 0, dsBytesRx = 0, dsFirstTS = flTS f, dsLastTS = flTS f, dsDenied = 0, dsTimestamps = [] \<rparr>"

definition add_flow :: "flow \<Rightarrow> destStat \<Rightarrow> destStat" where
  "add_flow f d = d\<lparr> dsCount := wrap64 (dsCount d + 1), dsBytesTx := wrap64 (dsBytesTx d + flBytesTx f), dsBytesRx := wrap64 (dsBytesRx d + flBytesRx f),
     dsFirstTS := min (dsFirstTS d) (flTS f), dsLastTS := max (dsLastTS d) (flTS f),
     dsDenied := (if flVerdict f = VerdictDeny then wrap64 (dsDenied d + 1) else dsDenied d), dsTimestamps := dsTimestamps d @ [flTS f] \<rparr>"

definition add_dest :: "flow \<Rightarrow> (string \<times> destStat) list \<Rightarrow> (string \<times> destStat) list" where
  "add_dest f m =
     (let k = endpoint_key (flDst f); d = (case map_of m k of Some d \<Rightarrow> d | None \<Rightarrow> new_dest f) in kv_put k (add_flow f d) m)"

definition aggregate :: "flowLog \<Rightarrow> flowLog" where
  "aggregate fl =
     (let byKey = fold add_dest (fgEgress fl) [] in
      fl\<lparr> fgDests := sort_stable (key_less dsKey (\<lambda>a b. False))
            (map (\<lambda>(k, d). d\<lparr> dsTimestamps := sort (dsTimestamps d) \<rparr>) byKey) \<rparr>)"

definition new_log :: "netWorkload \<Rightarrow> flowLog" where
  "new_log w = \<lparr> fgWorkload = w, fgEgress = [], fgIngress = [], fgDNS = [], fgDests = [] \<rparr>"

text \<open>The log of an id, made when it is first asked for.\<close>

definition get_log :: "(string \<times> netWorkload) list \<Rightarrow> string \<Rightarrow> (string \<times> flowLog) list \<Rightarrow> flowLog" where
  "get_log idx i logs =
     (case map_of logs i of Some fl \<Rightarrow> fl
      | None \<Rightarrow> new_log (case map_of idx i of Some w \<Rightarrow> w
          | None \<Rightarrow> \<lparr> wkID = i, wkName = i, wkNamespace = [], wkLabels = [], wkKind = [], wkHostNetwork = False \<rparr>))"

definition log_flow :: "(string \<times> netWorkload) list \<Rightarrow> flow \<Rightarrow> (string \<times> flowLog) list \<Rightarrow> (string \<times> flowLog) list" where
  "log_flow idx f logs =
     (let fl = get_log idx (flWorkloadID f) logs in
      kv_put (flWorkloadID f)
        (if flDirection f = Ingress then fl\<lparr> fgIngress := fgIngress fl @ [f] \<rparr> else fl\<lparr> fgEgress := fgEgress fl @ [f] \<rparr>) logs)"

definition log_dns :: "(string \<times> netWorkload) list \<Rightarrow> dnsEvent \<Rightarrow> (string \<times> flowLog) list \<Rightarrow> (string \<times> flowLog) list" where
  "log_dns idx d logs = (let fl = get_log idx (dnWorkloadID d) logs in kv_put (dnWorkloadID d) (fl\<lparr> fgDNS := fgDNS fl @ [d] \<rparr>) logs)"

definition log_workload :: "netWorkload \<Rightarrow> (string \<times> flowLog) list \<Rightarrow> (string \<times> flowLog) list" where
  "log_workload w logs = (case map_of logs (wkID w) of Some _ \<Rightarrow> logs | None \<Rightarrow> kv_put (wkID w) (new_log w) logs)"

definition BuildFlowLogs :: "capture \<Rightarrow> flowLog list" where
  "BuildFlowLogs c =
     (let idx = workloadIndex c;
          logs = fold log_workload (cpWorkloads c) (fold (log_dns idx) (cpDNS c) (fold (log_flow idx) (cpFlows c) []))
      in sort_stable (key_less (\<lambda>fl. wkID (fgWorkload fl)) (\<lambda>a b. False)) (map (\<lambda>(k, fl). aggregate fl) logs))"

definition ExternalDests :: "flowLog \<Rightarrow> destStat list" where
  "ExternalDests fl = filter (\<lambda>d. dsIMDS d \<or> (\<not> dsInternal d \<and> dsIP d \<noteq> []) \<or> (dsIP d = [] \<and> dsFQDN d \<noteq> [])) (fgDests fl)"

subsection \<open>Loading\<close>

definition maxCaptureBytes :: nat where
  "maxCaptureBytes = 67108864"

text \<open>The strict JSON decoder, with whether more data follows, is a parameter.\<close>

definition DecodeCapture :: "(bytes \<Rightarrow> string + capture \<times> bool) \<Rightarrow> bytes \<Rightarrow> string + capture" where
  "DecodeCapture decode data =
     (if length data > maxCaptureBytes then Inl (''capture exceeds '' @ fmt_int (int maxCaptureBytes) @ '' byte limit'')
      else (case decode data of Inl e \<Rightarrow> Inl (''decode capture: '' @ e)
        | Inr (c, trailing) \<Rightarrow> if trailing then Inl ''decode capture: unexpected trailing data'' else Inr (Normalize c)))"

definition LoadCapture :: "(bytes \<Rightarrow> string + capture \<times> bool) \<Rightarrow> (string \<Rightarrow> string + bytes) \<Rightarrow> string \<Rightarrow> string + capture" where
  "LoadCapture decode read p =
     (case read p of Inl e \<Rightarrow> Inl (''open capture '' @ fmt_q p @ '': '' @ e)
      | Inr data \<Rightarrow> DecodeCapture decode (take (maxCaptureBytes + 1) data))"

text \<open>A recorded source holds a capture or none.\<close>

definition recorded_Capture :: "capture option \<Rightarrow> string + capture" where
  "recorded_Capture src = (case src of None \<Rightarrow> Inl ''netmon: recorded source has no capture'' | Some c \<Rightarrow> Inr c)"

subsection \<open>Destinations\<close>

lemma sorted_by_key: "sorted_wrt (\<lambda>a b. \<not> str_less (k b) (k a)) (sort_stable (key_less k (\<lambda>a b. False)) xs)"
proof -
  have e: "(\<lambda>a b. \<not> str_less (k b) (k a)) = (\<lambda>a b. \<not> key_less k (\<lambda>a b. False) b a)"
    by (auto simp: key_less_def fun_eq_iff str_less_irrefl)
  show ?thesis unfolding e by (rule strict_weak.sorted) (intro strict_weak_key strict_weak_none)
qed

lemma strict_weak_flow: "strict_weak flowLess"
  unfolding flowLess_def by (intro strict_weak_key strict_weak_ikey strict_weak_none)

lemma strict_weak_dns: "strict_weak dnsLess"
  unfolding dnsLess_def by (intro strict_weak_key strict_weak_ikey strict_weak_none)

definition to_key :: "string \<Rightarrow> flow list \<Rightarrow> flow list" where
  "to_key k fs = filter (\<lambda>f. endpoint_key (flDst f) = k) fs"

lemma to_key_simps [simp]:
  "to_key k [] = []" "to_key k (fs @ gs) = to_key k fs @ to_key k gs"
  "to_key k (f # fs) = (if endpoint_key (flDst f) = k then f # to_key k fs else to_key k fs)"
  by (simp_all add: to_key_def)

text \<open>The rolled-up destination of a key is the fold of its flows over the facts of the first.\<close>

lemma add_dest_fold:
  "map_of (fold add_dest fs []) k
     = (case to_key k fs of [] \<Rightarrow> None | f # gs \<Rightarrow> Some (fold add_flow (f # gs) (new_dest f)))"
proof (induction fs rule: rev_induct)
  case (snoc f fs)
  show ?case
  proof (cases "endpoint_key (flDst f) = k")
    case True
    then show ?thesis using snoc by (cases "to_key k fs") (simp_all add: add_dest_def Let_def)
  next
    case False
    then show ?thesis using snoc by (simp add: add_dest_def Let_def)
  qed
qed simp

lemma add_dest_distinct: "distinct (map fst m) \<Longrightarrow> distinct (map fst (fold add_dest fs m))"
  by (induction fs arbitrary: m) (simp_all add: add_dest_def Let_def)

lemma add_flow_simps [simp]:
  "dsKey (fold add_flow fs d) = dsKey d" "dsIP (fold add_flow fs d) = dsIP d" "dsFQDN (fold add_flow fs d) = dsFQDN d"
  "dsHost (fold add_flow fs d) = dsHost d" "dsPort (fold add_flow fs d) = dsPort d" "dsProto (fold add_flow fs d) = dsProto d"
  "dsInternal (fold add_flow fs d) = dsInternal d" "dsIMDS (fold add_flow fs d) = dsIMDS d"
  by (induction fs arbitrary: d) (simp_all add: add_flow_def)

lemma wrap64_add [simp]: "wrap64 (wrap64 a + b) = wrap64 (a + b)" "wrap64 (a + wrap64 b) = wrap64 (a + b)"
  by (simp_all add: wrap64_def algebra_simps mod_simps)

lemma add_flow_sums:
  "wrap64 (dsCount (fold add_flow fs d)) = wrap64 (dsCount d + int (length fs))"
  "wrap64 (dsBytesTx (fold add_flow fs d)) = wrap64 (dsBytesTx d + sum_list (map flBytesTx fs))"
  "wrap64 (dsBytesRx (fold add_flow fs d)) = wrap64 (dsBytesRx d + sum_list (map flBytesRx fs))"
  "dsTimestamps (fold add_flow fs d) = dsTimestamps d @ map flTS fs"
proof (induction fs arbitrary: d)
  case (Cons f fs)
  { case 1 show ?case using Cons(1) [of "add_flow f d"] by (simp add: add_flow_def) (metis wrap64_add add.assoc add.commute)
  next case 2 show ?case using Cons(2) [of "add_flow f d"] by (simp add: add_flow_def) (metis wrap64_add add.assoc)
  next case 3 show ?case using Cons(3) [of "add_flow f d"] by (simp add: add_flow_def) (metis wrap64_add add.assoc)
  next case 4 show ?case using Cons(4) [of "add_flow f d"] by (simp add: add_flow_def) }
qed simp_all

text \<open>What a destination of a list of egress flows is.\<close>

definition dest_of :: "flow list \<Rightarrow> string \<Rightarrow> destStat" where
  "dest_of fs k = (let gs = to_key k fs; d = fold add_flow gs (new_dest (hd gs)) in d\<lparr> dsTimestamps := sort (dsTimestamps d) \<rparr>)"

lemma dest_of_facts:
  assumes "to_key k fs = f # gs"
  shows "dsKey (dest_of fs k) = k" "dsIP (dest_of fs k) = epIP (flDst f)" "dsFQDN (dest_of fs k) = epFQDN (flDst f)"
    "dsHost (dest_of fs k) = hostOf (flDst f)" "dsPort (dest_of fs k) = epPort (flDst f)" "dsProto (dest_of fs k) = flProto f"
    "dsInternal (dest_of fs k) = IsInternal (epIP (flDst f))" "dsIMDS (dest_of fs k) = IsIMDS (epIP (flDst f))"
    "dsTimestamps (dest_of fs k) = sort (map flTS (f # gs))"
proof -
  have "f \<in> set (to_key k fs)" by (simp add: assms)
  then have "endpoint_key (flDst f) = k" by (simp add: to_key_def)
  then show "dsKey (dest_of fs k) = k" "dsIP (dest_of fs k) = epIP (flDst f)" "dsFQDN (dest_of fs k) = epFQDN (flDst f)"
    "dsHost (dest_of fs k) = hostOf (flDst f)" "dsPort (dest_of fs k) = epPort (flDst f)" "dsProto (dest_of fs k) = flProto f"
    "dsInternal (dest_of fs k) = IsInternal (epIP (flDst f))" "dsIMDS (dest_of fs k) = IsIMDS (epIP (flDst f))"
    "dsTimestamps (dest_of fs k) = sort (map flTS (f # gs))"
    using add_flow_sums(4) [of "f # gs" "new_dest f"]
    by (simp_all del: fold_simps add: dest_of_def assms Let_def)
      (simp_all add: new_dest_def add_flow_def)
qed

lemma aggregate_exact:
  "set (fgDests (aggregate fl)) = dest_of (fgEgress fl) ` ((\<lambda>f. endpoint_key (flDst f)) ` set (fgEgress fl))"
  "fgWorkload (aggregate fl) = fgWorkload fl" "fgEgress (aggregate fl) = fgEgress fl" "fgIngress (aggregate fl) = fgIngress fl"
  "fgDNS (aggregate fl) = fgDNS fl"
proof -
  let ?m = "fold add_dest (fgEgress fl) []"
  have d: "distinct (map fst ?m)" by (rule add_dest_distinct) simp
  have "(k, x) \<in> set ?m \<longleftrightarrow> map_of ?m k = Some x" for k x using d by simp
  moreover have "map_of ?m k = Some x \<longleftrightarrow> to_key k (fgEgress fl) \<noteq> [] \<and> x = fold add_flow (to_key k (fgEgress fl)) (new_dest (hd (to_key k (fgEgress fl))))" for k x
    by (auto simp: add_dest_fold split: list.split)
  moreover have "to_key k (fgEgress fl) \<noteq> [] \<longleftrightarrow> k \<in> (\<lambda>f. endpoint_key (flDst f)) ` set (fgEgress fl)" for k
    by (auto simp: to_key_def filter_empty_conv)
  ultimately have "set ?m = (\<lambda>k. (k, fold add_flow (to_key k (fgEgress fl)) (new_dest (hd (to_key k (fgEgress fl)))))) ` ((\<lambda>f. endpoint_key (flDst f)) ` set (fgEgress fl))"
    by auto
  then show "set (fgDests (aggregate fl)) = dest_of (fgEgress fl) ` ((\<lambda>f. endpoint_key (flDst f)) ` set (fgEgress fl))"
    by (simp add: aggregate_def Let_def dest_of_def image_image)
qed (simp_all add: aggregate_def Let_def)

subsection \<open>Logs account for the capture\<close>

definition flows_of :: "string \<Rightarrow> flow list \<Rightarrow> flow list" where
  "flows_of i fs = filter (\<lambda>f. flWorkloadID f = i) fs"

lemma index_ids: "map_of (workloadIndex c) i = Some w \<Longrightarrow> wkID w = i"
proof -
  have "map_of (fold (\<lambda>w idx. kv_put (wkID w) w idx) ws []) i = Some w \<longrightarrow> wkID w = i" for ws
    by (induction ws rule: rev_induct) simp_all
  then show "map_of (workloadIndex c) i = Some w \<Longrightarrow> wkID w = i" by (simp add: workloadIndex_def)
qed

text \<open>A log of an id holds its flows and queries, in order.\<close>

definition log_holds :: "flow list \<Rightarrow> dnsEvent list \<Rightarrow> string \<Rightarrow> flowLog option \<Rightarrow> bool" where
  "log_holds fs ds i l =
     (case l of None \<Rightarrow> flows_of i fs = [] \<and> filter (\<lambda>d. dnWorkloadID d = i) ds = []
      | Some fl \<Rightarrow> wkID (fgWorkload fl) = i
          \<and> fgEgress fl = filter (\<lambda>f. flDirection f \<noteq> Ingress) (flows_of i fs)
          \<and> fgIngress fl = filter (\<lambda>f. flDirection f = Ingress) (flows_of i fs)
          \<and> fgDNS fl = filter (\<lambda>d. dnWorkloadID d = i) ds)"

lemma get_log_holds:
  assumes "\<forall>i w. map_of idx i = Some w \<longrightarrow> wkID w = i" "log_holds fs ds i (map_of m i)"
  shows "log_holds fs ds i (Some (get_log idx i m))"
  using assms by (auto simp: get_log_def log_holds_def new_log_def split: option.splits)

lemma log_holds_other:
  "flWorkloadID f \<noteq> i \<Longrightarrow> log_holds (fs @ [f]) ds i l = log_holds fs ds i l"
  "dnWorkloadID d \<noteq> i \<Longrightarrow> log_holds fs (ds @ [d]) i l = log_holds fs ds i l"
  by (cases l; simp add: log_holds_def flows_of_def)+

lemma log_flow_holds:
  assumes "\<forall>i w. map_of idx i = Some w \<longrightarrow> wkID w = i" "\<forall>i. log_holds fs ds i (map_of m i)"
  shows "\<forall>i. log_holds (fs @ [f]) ds i (map_of (log_flow idx f m) i)"
proof
  fix i
  show "log_holds (fs @ [f]) ds i (map_of (log_flow idx f m) i)"
  proof (cases "flWorkloadID f = i")
    case True
    have "log_holds fs ds i (Some (get_log idx i m))" using assms by (intro get_log_holds) simp_all
    then show ?thesis using True by (simp add: log_holds_def log_flow_def flows_of_def Let_def)
  next
    case False
    then have "map_of (log_flow idx f m) i = map_of m i" by (simp add: log_flow_def Let_def)
    then show ?thesis using log_holds_other(1) [OF False] assms(2) by simp
  qed
qed

lemma log_dns_holds:
  assumes "\<forall>i w. map_of idx i = Some w \<longrightarrow> wkID w = i" "\<forall>i. log_holds fs ds i (map_of m i)"
  shows "\<forall>i. log_holds fs (ds @ [d]) i (map_of (log_dns idx d m) i)"
proof
  fix i
  show "log_holds fs (ds @ [d]) i (map_of (log_dns idx d m) i)"
  proof (cases "dnWorkloadID d = i")
    case True
    have "log_holds fs ds i (Some (get_log idx i m))" using assms by (intro get_log_holds) simp_all
    then show ?thesis using True by (simp add: log_holds_def log_dns_def Let_def)
  next
    case False
    then have "map_of (log_dns idx d m) i = map_of m i" by (simp add: log_dns_def Let_def)
    then show ?thesis using log_holds_other(2) [OF False] assms(2) by simp
  qed
qed

lemma log_workload_holds:
  assumes "\<forall>i. log_holds fs ds i (map_of m i)"
  shows "\<forall>i. log_holds fs ds i (map_of (log_workload w m) i)"
proof
  fix i
  show "log_holds fs ds i (map_of (log_workload w m) i)"
  proof (cases "map_of m (wkID w) = None \<and> wkID w = i")
    case True
    then have "map_of m i = None" by auto
    with assms [rule_format, of i] True show ?thesis by (simp add: log_workload_def log_holds_def new_log_def)
  next
    case False
    then have "map_of (log_workload w m) i = map_of m i" by (auto simp: log_workload_def split: option.split)
    then show ?thesis using assms by simp
  qed
qed

definition raw_logs :: "capture \<Rightarrow> (string \<times> flowLog) list" where
  "raw_logs c = fold log_workload (cpWorkloads c) (fold (log_dns (workloadIndex c)) (cpDNS c) (fold (log_flow (workloadIndex c)) (cpFlows c) []))"

lemma raw_logs_holds: "log_holds (cpFlows c) (cpDNS c) i (map_of (raw_logs c) i)"
proof -
  have idx: "\<forall>i w. map_of (workloadIndex c) i = Some w \<longrightarrow> wkID w = i" using index_ids by blast
  have 1: "\<forall>i. log_holds fs [] i (map_of (fold (log_flow (workloadIndex c)) fs []) i)" for fs
  proof (induction fs rule: rev_induct)
    case (snoc f fs)
    then show ?case using log_flow_holds [OF idx snoc, of f] by simp
  qed (simp add: log_holds_def flows_of_def)
  have 2: "\<forall>i. log_holds (cpFlows c) ds i (map_of (fold (log_dns (workloadIndex c)) ds (fold (log_flow (workloadIndex c)) (cpFlows c) [])) i)" for ds
  proof (induction ds rule: rev_induct)
    case (snoc d ds)
    then show ?case using log_dns_holds [OF idx snoc, of d] by simp
  qed (simp add: 1)
  have 3: "\<forall>i. log_holds (cpFlows c) (cpDNS c) i (map_of (fold log_workload ws m) i)" if "\<forall>i. log_holds (cpFlows c) (cpDNS c) i (map_of m i)" for ws m
    using that by (induction ws arbitrary: m) (simp_all add: log_workload_holds)
  show ?thesis unfolding raw_logs_def using 3 [OF 2] by blast
qed

lemma raw_logs_distinct: "distinct (map fst (raw_logs c))"
proof -
  have 1: "distinct (map fst m) \<Longrightarrow> distinct (map fst (fold (log_flow idx) fs m))" for idx fs m
    by (induction fs arbitrary: m) (simp_all add: log_flow_def Let_def)
  have 2: "distinct (map fst m) \<Longrightarrow> distinct (map fst (fold (log_dns idx) ds m))" for idx ds m
    by (induction ds arbitrary: m) (simp_all add: log_dns_def Let_def)
  have 3: "distinct (map fst m) \<Longrightarrow> distinct (map fst (fold log_workload ws m))" for ws m
    by (induction ws arbitrary: m) (simp_all add: log_workload_def split: option.split)
  show ?thesis unfolding raw_logs_def by (intro 1 2 3) simp
qed

lemma BuildFlowLogs_raw: "mset (BuildFlowLogs c) = mset (map (\<lambda>(k, fl). aggregate fl) (raw_logs c))"
  by (simp add: BuildFlowLogs_def raw_logs_def Let_def)

text \<open>What the log of a workload in a capture is.\<close>

definition log_exact :: "capture \<Rightarrow> flowLog \<Rightarrow> bool" where
  "log_exact c fl \<longleftrightarrow>
     (let fs = flows_of (wkID (fgWorkload fl)) (cpFlows c); eg = filter (\<lambda>f. flDirection f \<noteq> Ingress) fs
      in fgEgress fl = eg \<and> fgIngress fl = filter (\<lambda>f. flDirection f = Ingress) fs
         \<and> fgDNS fl = filter (\<lambda>d. dnWorkloadID d = wkID (fgWorkload fl)) (cpDNS c)
         \<and> set (fgDests fl) = dest_of eg ` ((\<lambda>f. endpoint_key (flDst f)) ` set eg))"

lemma BuildFlowLogs_member:
  assumes "fl \<in> set (BuildFlowLogs c)"
  shows "log_exact c fl"
proof -
  have "fl \<in> set (map (\<lambda>(k, fl). aggregate fl) (raw_logs c))" using assms BuildFlowLogs_raw by (metis mset_eq_setD)
  then obtain i fl0 where r: "(i, fl0) \<in> set (raw_logs c)" "fl = aggregate fl0" by auto
  then have "map_of (raw_logs c) i = Some fl0" using raw_logs_distinct by simp
  with raw_logs_holds [of c i] have "log_holds (cpFlows c) (cpDNS c) i (Some fl0)" by simp
  then show ?thesis unfolding log_exact_def log_holds_def r(2) Let_def option.case aggregate_exact by simp
qed

lemma logs_ids: "(\<lambda>fl. wkID (fgWorkload fl)) ` set (BuildFlowLogs c) = fst ` set (raw_logs c)"
  "distinct (map (\<lambda>fl. wkID (fgWorkload fl)) (BuildFlowLogs c))"
proof -
  have ids: "map (\<lambda>fl. wkID (fgWorkload fl)) (map (\<lambda>(k, fl). aggregate fl) (raw_logs c)) = map fst (raw_logs c)"
  proof (rule nth_equalityI)
    fix j assume "j < length (map (\<lambda>fl. wkID (fgWorkload fl)) (map (\<lambda>(k, fl). aggregate fl) (raw_logs c)))"
    then have j: "j < length (raw_logs c)" by simp
    obtain i fl where e: "raw_logs c ! j = (i, fl)" by (rule prod.exhaust)
    then have "map_of (raw_logs c) i = Some fl" using raw_logs_distinct j by (metis map_of_is_SomeI nth_mem)
    with raw_logs_holds [of c i] show "map (\<lambda>fl. wkID (fgWorkload fl)) (map (\<lambda>(k, fl). aggregate fl) (raw_logs c)) ! j = map fst (raw_logs c) ! j"
      using j by (simp add: e log_holds_def aggregate_exact)
  qed simp
  have m: "mset (map (\<lambda>fl. wkID (fgWorkload fl)) (BuildFlowLogs c)) = mset (map fst (raw_logs c))"
    by (simp only: mset_map BuildFlowLogs_raw flip: ids)
  show "(\<lambda>fl. wkID (fgWorkload fl)) ` set (BuildFlowLogs c) = fst ` set (raw_logs c)" using mset_eq_setD [OF m] by simp
  show "distinct (map (\<lambda>fl. wkID (fgWorkload fl)) (BuildFlowLogs c))" using mset_eq_imp_distinct_iff [OF m] raw_logs_distinct by blast
qed

lemma flow_ids: "flWorkloadID ` set (cpFlows c) \<union> dnWorkloadID ` set (cpDNS c) \<subseteq> (\<lambda>fl. wkID (fgWorkload fl)) ` set (BuildFlowLogs c)"
proof -
  have "map_of (raw_logs c) i \<noteq> None" if "i \<in> flWorkloadID ` set (cpFlows c) \<union> dnWorkloadID ` set (cpDNS c)" for i
  proof
    assume "map_of (raw_logs c) i = None"
    then have "flows_of i (cpFlows c) = [] \<and> filter (\<lambda>d. dnWorkloadID d = i) (cpDNS c) = []"
      using raw_logs_holds [of c i] by (simp add: log_holds_def)
    then show False using that by (auto simp: flows_of_def filter_empty_conv)
  qed
  then show "flWorkloadID ` set (cpFlows c) \<union> dnWorkloadID ` set (cpDNS c) \<subseteq> (\<lambda>fl. wkID (fgWorkload fl)) ` set (BuildFlowLogs c)"
    unfolding logs_ids(1) by (auto simp: map_of_eq_None_iff)
qed


end
