(* ===== verification/GoMath.thy ===== *)
theory GoMath
  imports GoFloat GoStrings
begin

text \<open>
  The part of \<^verbatim>\<open>math\<close> and of float formatting that the network analysis calls: comparison,
  \<^verbatim>\<open>math.Round\<close>, the correctly rounded \<^verbatim>\<open>math.Sqrt\<close>, the \<^verbatim>\<open>%.Nf\<close> verbs, which round the
  exact value of the double half to even, and the runes of a string. Products and sums are rounded
  separately: no fused operation is assumed.
\<close>

definition fle :: "float64 \<Rightarrow> float64 \<Rightarrow> bool" where
  "fle x y \<longleftrightarrow> flt x y \<or> feq x y"

text \<open>A decimal literal \<open>n / d\<close>.\<close>

definition flit :: "int \<Rightarrow> int \<Rightarrow> float64" where
  "flit n d = round64 (of_int n / of_int d)"

fun math_Round :: "float64 \<Rightarrow> float64" where
  "math_Round (Fin a) = Fin (if a < 0 then - of_int (floor (- a + 1 / 2)) else of_int (floor (a + 1 / 2)))"
| "math_Round x = x"

text \<open>The conversion \<^verbatim>\<open>int(x)\<close> of a finite double that fits.\<close>

definition fto_int :: "float64 \<Rightarrow> int" where
  "fto_int x = (case x of Fin q \<Rightarrow> (if q < 0 then \<lceil>q\<rceil> else \<lfloor>q\<rfloor>) | _ \<Rightarrow> 0)"

text \<open>Whole numbers below \<open>2 ^ 53\<close> are doubles, so sums and exact quotients of them are exact.\<close>

lemma round_half_even_int: "round_half_even (of_int z) = z"
  by (simp add: round_half_even_def)

lemma round64_int:
  assumes "0 \<le> m" "m < 9007199254740992"
  shows "round64 (of_int m) = Fin (of_int m)"
proof (cases "m = 0")
  case False
  then have m: "0 < m" using assms by simp
  let ?k = "bitlen m - 1"
  have b1: "1 \<le> bitlen m" 
  proof -
    have "\<not> bitlen m \<le> 0" by (subst bitlen_le_iff_power) (use m in auto)
    then show ?thesis by linarith
  qed
  have b53: "bitlen m \<le> 53" using bitlen_le_iff_power [of m 53] assms by simp
  have bnd: "2 ^ nat ?k \<le> m" using bitlen_bounds [OF m] by simp
  have p: "pow2 ?k \<le> (of_int m :: rat)"
  proof -
    have "(of_int (2 ^ nat ?k) :: rat) \<le> of_int m" using bnd by (simp only: of_int_le_iff)
    then show ?thesis using b1 by (simp add: pow2_def)
  qed
  have "bitlen 1 = 1" using bitlen_le_iff_power [of 1 1] bitlen_le_iff_power [of 1 0] by simp
  then have il: "ilog2 (of_int m) = ?k" using p by (simp add: ilog2_def Let_def)
  have e: "max (bitlen m - 53) (-1074) = bitlen m - 53" using b1 by simp
  let ?j = "nat (52 - ?k)"
  have pw: "pow2 (?k - 52) = 1 / 2 ^ ?j" using b53 by (cases "?k = 52") (simp_all add: pow2_def)
  have q: "(of_int m :: rat) / pow2 (?k - 52) = of_int (m * 2 ^ ?j)" unfolding pw by simp
  have r: "(of_int (round_half_even (of_int m / pow2 (?k - 52))) :: rat) * pow2 (?k - 52) = of_int m"
    unfolding q round_half_even_int unfolding pw by simp
  have "(of_int m :: rat) < pow2 1024"
  proof -
    have "(of_int m :: rat) < of_int 9007199254740992" using assms(2) by (simp only: of_int_less_iff)
    also have "\<dots> \<le> pow2 1024" by (simp add: pow2_def)
    finally show ?thesis .
  qed
  then show ?thesis using m r by (simp add: round64_def Let_def il e)
qed simp

lemma float_of_int_exact: "0 \<le> m \<Longrightarrow> m < 9007199254740992 \<Longrightarrow> float_of_int m = Fin (of_int m)"
  by (simp add: float_of_int_def round64_int)

text \<open>The relative error of rounding is at most half a unit in the last place.\<close>

lemma pow2_powi: "pow2 e = 2 powi e"
  by (simp add: pow2_def power_int_def inverse_eq_divide power_one_over)

lemma pow2_add: "pow2 (a + b) = pow2 a * pow2 b"
  by (simp add: pow2_powi power_int_add)

lemma ilog2_le:
  assumes "0 < a"
  shows "pow2 (ilog2 a) \<le> a"
proof -
  obtain n d where q: "quotient_of a = (n, d)" by fastforce
  have d: "0 < d" using q quotient_of_denom_pos by blast
  have a: "a = of_int n / of_int d" using q quotient_of_div by blast
  have n: "0 < n" using assms d a by (simp add: zero_less_divide_iff)
  let ?k = "bitlen n - bitlen d"
  have bn: "2 ^ nat (bitlen n - 1) \<le> n" using bitlen_bounds [OF n] by simp
  have bd: "d < 2 ^ nat (bitlen d)" using bitlen_bounds [OF d] by simp
  have b1: "1 \<le> bitlen n" 
  proof -
    have "\<not> bitlen n \<le> 0" by (subst bitlen_le_iff_power) (use n in auto)
    then show ?thesis by linarith
  qed
  have b0: "0 \<le> bitlen d" by (rule bitlen_nonneg)
  have "pow2 (?k - 1) * of_int d \<le> pow2 (?k - 1) * pow2 (bitlen d)"
  proof -
    have "(of_int d :: rat) \<le> of_int (2 ^ nat (bitlen d))" using bd by (simp only: of_int_le_iff)
    then have "(of_int d :: rat) \<le> pow2 (bitlen d)" using b0 by (simp add: pow2_def)
    then show ?thesis by (intro mult_left_mono) (simp_all add: less_imp_le)
  qed
  also have "\<dots> = pow2 (bitlen n - 1)" by (simp add: pow2_add [symmetric])
  also have "\<dots> \<le> of_int n"
  proof -
    have "(of_int (2 ^ nat (bitlen n - 1)) :: rat) \<le> of_int n" using bn by (simp only: of_int_le_iff)
    then show ?thesis using b1 by (simp add: pow2_def)
  qed
  finally have "pow2 (?k - 1) \<le> a" using d by (simp add: a pos_le_divide_eq)
  then show ?thesis by (simp add: ilog2_def q Let_def)
qed

lemma round_half_even_error: "\<bar>of_int (round_half_even q) - q\<bar> \<le> 1 / 2"
proof -
  have f: "of_int \<lfloor>q\<rfloor> \<le> q" "q < of_int \<lfloor>q\<rfloor> + 1" by linarith+
  then consider "q - of_int \<lfloor>q\<rfloor> < 1 / 2" | "q - of_int \<lfloor>q\<rfloor> > 1 / 2" | "q - of_int \<lfloor>q\<rfloor> = 1 / 2" by linarith
  then show ?thesis using f by cases (simp_all add: round_half_even_def Let_def abs_le_iff)
qed

lemma round64_error:
  assumes "1 / 2 ^ 1000 \<le> a" "a \<le> 2 ^ 1000"
  shows "\<exists>r. round64 a = Fin r \<and> \<bar>r - a\<bar> \<le> a / 2 ^ 53"
proof -
  have "(0 :: rat) < 1 / 2 ^ 1000" by simp
  then have a: "0 < a" using assms(1) by linarith
  define e where "e = max (ilog2 a - 52) (-1074)"
  have small: "pow2 e \<le> a / 2 ^ 52"
  proof (cases "e = -1074")
    case True
    have "pow2 (-1074) = (1 / 2 ^ 1074 :: rat)" by (simp add: pow2_def)
    moreover have "(1 / 2 ^ 1074 :: rat) \<le> 1 / 2 ^ 1000 / 2 ^ 52" by simp
    moreover have "1 / 2 ^ 1000 / 2 ^ 52 \<le> a / 2 ^ 52" by (intro divide_right_mono assms(1)) simp
    ultimately show ?thesis using True by simp
  next
    case False
    then have "e = ilog2 a + (- 52)" by (simp add: e_def max_def split: if_splits)
    then have "pow2 e = pow2 (ilog2 a) / 2 ^ 52" by (simp only: pow2_add) (simp add: pow2_def)
    then show ?thesis using ilog2_le [OF a] by (simp add: divide_right_mono)
  qed
  define r where "r = of_int (round_half_even (a / pow2 e)) * pow2 e"
  have p: "0 < pow2 e" by simp
  then have "pow2 e \<noteq> 0" by linarith
  then have "\<bar>r - a\<bar> = \<bar>of_int (round_half_even (a / pow2 e)) - a / pow2 e\<bar> * pow2 e"
  proof -
    have "r - a = (of_int (round_half_even (a / pow2 e)) - a / pow2 e) * pow2 e"
      using \<open>pow2 e \<noteq> 0\<close> by (simp add: r_def left_diff_distrib)
    then show ?thesis by (simp add: abs_mult abs_of_pos [OF p])
  qed
  also have "\<dots> \<le> 1 / 2 * pow2 e" by (intro mult_right_mono round_half_even_error) (simp add: less_imp_le)
  also have "\<dots> \<le> 1 / 2 * (a / 2 ^ 52)" using small by simp
  finally have err: "\<bar>r - a\<bar> \<le> a / 2 ^ 53" by simp
  then have "r \<le> a + a / 2 ^ 53" by linarith
  also have "\<dots> \<le> 2 * a" using a by (simp add: field_simps)
  also have "\<dots> \<le> 2 * 2 ^ 1000" using assms(2) by simp
  also have "\<dots> < (pow2 1024 :: rat)" by (simp add: pow2_def)
  finally have "\<not> pow2 1024 \<le> r" by simp
  then have "round64 a = Fin r" using a unfolding round64_def Let_def abs_of_pos [OF a] e_def [symmetric] r_def [symmetric] by simp
  then show ?thesis using err by blast
qed

lemma ilog2_less:
  assumes "0 < a"
  shows "a < pow2 (ilog2 a + 1)"
proof -
  obtain n d where q: "quotient_of a = (n, d)" by fastforce
  have d: "0 < d" using q quotient_of_denom_pos by blast
  have a: "a = of_int n / of_int d" using q quotient_of_div by blast
  have n: "0 < n" using assms d a by (simp add: zero_less_divide_iff)
  let ?k = "bitlen n - bitlen d"
  have bn: "n < 2 ^ nat (bitlen n)" using bitlen_bounds [OF n] by simp
  have bd: "2 ^ nat (bitlen d - 1) \<le> d" using bitlen_bounds [OF d] by simp
  have b1: "1 \<le> bitlen d"
  proof -
    have "\<not> bitlen d \<le> 0" by (subst bitlen_le_iff_power) (use d in auto)
    then show ?thesis by linarith
  qed
  have "(of_int n :: rat) < of_int (2 ^ nat (bitlen n))" using bn by (simp only: of_int_less_iff)
  also have "\<dots> = pow2 (bitlen n)" by (simp add: pow2_def bitlen_nonneg)
  also have "\<dots> = pow2 (?k + 1) * pow2 (bitlen d - 1)" by (simp add: pow2_add [symmetric])
  also have "\<dots> \<le> pow2 (?k + 1) * of_int d"
  proof -
    have "(of_int (2 ^ nat (bitlen d - 1)) :: rat) \<le> of_int d" using bd by (simp only: of_int_le_iff)
    then have "pow2 (bitlen d - 1) \<le> (of_int d :: rat)" using b1 by (simp add: pow2_def)
    then show ?thesis by (intro mult_left_mono) (simp_all add: less_imp_le)
  qed
  finally have "a < pow2 (?k + 1)" using d by (simp add: a pos_divide_less_eq)
  then show ?thesis by (simp add: ilog2_def q Let_def)
qed

lemma ilog2_eqI:
  assumes "pow2 k \<le> a" "a < pow2 (k + 1)"
  shows "ilog2 a = k"
proof -
  have a: "0 < a" using pow2_pos [of k] assms(1) by linarith
  have mono: "i \<le> j \<Longrightarrow> pow2 i \<le> pow2 j" for i j by (simp add: pow2_powi power_int_increasing)
  have "\<not> ilog2 a + 1 \<le> k" using mono [of "ilog2 a + 1" k] ilog2_less [OF a] assms(1) by linarith
  moreover have "\<not> k + 1 \<le> ilog2 a" using mono [of "k + 1" "ilog2 a"] ilog2_le [OF a] assms(2) by linarith
  ultimately show ?thesis by linarith
qed

lemma round_half_even_eqI: "\<bar>q - of_int z\<bar> < 1 / 2 \<Longrightarrow> round_half_even q = z"
proof -
  assume h: "\<bar>q - of_int z\<bar> < 1 / 2"
  have "\<bar>of_int (round_half_even q) - of_int z\<bar> < (1 :: rat)" using h round_half_even_error [of q] by linarith
  then have "\<bar>round_half_even q - z\<bar> < 1" by linarith
  then show ?thesis by simp
qed

text \<open>A way to evaluate a rounding: the exponent and the significand are guessed and checked.\<close>

lemma round64_eqI:
  assumes "ilog2 a = k" "-1022 \<le> k" "0 < a" "\<bar>a / pow2 (k - 52) - of_int z\<bar> < 1 / 2" "r = of_int z * pow2 (k - 52)" "r < pow2 1024"
  shows "round64 a = Fin r"
proof -
  have "max (k - 52) (-1074) = k - 52" using assms(2) by simp
  then show ?thesis
    using assms round_half_even_eqI [OF assms(4)] unfolding round64_def Let_def assms(1) abs_of_pos [OF assms(3)] by simp
qed

subsection \<open>Square roots\<close>

function isqrt :: "int \<Rightarrow> int" where
  "isqrt n = (if n \<le> 0 then 0 else let r = 2 * isqrt (n div 4) in if (r + 1) * (r + 1) \<le> n then r + 1 else r)"
  by auto
termination by (relation "measure nat") auto

declare isqrt.simps [simp del]

lemma isqrt_spec: "0 \<le> n \<Longrightarrow> 0 \<le> isqrt n \<and> isqrt n * isqrt n \<le> n \<and> n < (isqrt n + 1) * (isqrt n + 1)"
proof (induction n rule: isqrt.induct)
  case (1 n)
  show ?case
  proof (cases "n = 0")
    case True
    then show ?thesis by (simp add: isqrt.simps)
  next
    case False
    let ?s = "isqrt (n div 4)"
    have ih: "0 \<le> ?s" "?s * ?s \<le> n div 4" "n div 4 < (?s + 1) * (?s + 1)" using 1 False by auto
    have lo: "4 * (?s * ?s) \<le> n" using ih(2) by linarith
    have "n div 4 + 1 \<le> (?s + 1) * (?s + 1)" using ih(3) by linarith
    then have hi: "n < 4 * ((?s + 1) * (?s + 1))" by linarith
    have u: "isqrt n = (if (2 * ?s + 1) * (2 * ?s + 1) \<le> n then 2 * ?s + 1 else 2 * ?s)"
      using False 1(2) by (subst isqrt.simps) (simp add: Let_def)
    show ?thesis using ih(1) lo hi unfolding u by (simp add: algebra_simps)
  qed
qed

text \<open>
  The exact quotient is scaled so that the root has 53 bits before the point, rounded there, and scaled
  back.
\<close>

definition sqrt_half_even :: "rat \<Rightarrow> int" where
  "sqrt_half_even q =
     (let f = isqrt (floor q); m = (of_int f + 1 / 2) * (of_int f + 1 / 2) in
      if q < m then f else if m < q then f + 1 else if even f then f else f + 1)"

fun math_Sqrt :: "float64 \<Rightarrow> float64" where
  "math_Sqrt (Fin a) =
     (if a = 0 then Fin 0 else if a < 0 then NaN
      else (let e = ilog2 a div 2 - 52 in Fin (of_int (sqrt_half_even (a / pow2 (2 * e))) * pow2 e)))"
| "math_Sqrt PosInf = PosInf"
| "math_Sqrt x = NaN"

lemma math_Sqrt_tests:
  "math_Sqrt (Fin 4) = Fin 2" "math_Sqrt (Fin 0) = Fin 0" "math_Sqrt (Fin (1 / 4)) = Fin (1 / 2)"
  "math_Sqrt (Fin 2) = Fin (6369051672525773 / 4503599627370496)"
  by code_simp+

subsection \<open>Formatting\<close>

definition pad_left :: "char \<Rightarrow> nat \<Rightarrow> string \<Rightarrow> string" where
  "pad_left c n s = replicate (n - length s) c @ s"

fun fmt_f :: "nat \<Rightarrow> float64 \<Rightarrow> string" where
  "fmt_f n (Fin q) =
     (let d = nat (round_half_even (\<bar>q\<bar> * 10 ^ n)) in
      (if q < 0 then ''-'' else []) @ itoa_nat (d div 10 ^ n)
      @ (if n = 0 then [] else CHR ''.'' # pad_left CHR ''0'' n (itoa_nat (d mod 10 ^ n))))"
| "fmt_f n PosInf = ''+Inf''"
| "fmt_f n NegInf = ''-Inf''"
| "fmt_f n NaN = ''NaN''"

subsection \<open>Runes\<close>

definition in_range :: "nat \<Rightarrow> nat \<Rightarrow> char \<Rightarrow> bool" where
  "in_range lo hi c \<longleftrightarrow> lo \<le> byte c \<and> byte c \<le> hi"

text \<open>What the bytes after a leading byte have to be.\<close>

definition rune_tail :: "nat \<Rightarrow> (char \<Rightarrow> bool) list option" where
  "rune_tail b =
     (let t = in_range 128 191 in
      if b < 128 then Some []
      else if b < 194 then None
      else if b \<le> 223 then Some [t]
      else if b = 224 then Some [in_range 160 191, t]
      else if b = 237 then Some [in_range 128 159, t]
      else if b \<le> 239 then Some [t, t]
      else if b = 240 then Some [in_range 144 191, t, t]
      else if b \<le> 243 then Some [t, t, t]
      else if b = 244 then Some [in_range 128 143, t, t]
      else None)"

fun tails_match :: "(char \<Rightarrow> bool) list \<Rightarrow> string \<Rightarrow> bool" where
  "tails_match [] s = True"
| "tails_match (p # ps) [] = False"
| "tails_match (p # ps) (c # s) = (p c \<and> tails_match ps s)"

definition rune_error :: string where
  "rune_error = [CHR 0xEF, CHR 0xBF, CHR 0xBD]"

text \<open>The loop over the runes of a string: each is its encoding, an invalid byte is U+FFFD.\<close>

function runes :: "string \<Rightarrow> string list" where
  "runes [] = []"
| "runes (c # s) =
     (case rune_tail (byte c) of
        Some ps \<Rightarrow> if tails_match ps s then (c # take (length ps) s) # runes (drop (length ps) s) else rune_error # runes s
      | None \<Rightarrow> rune_error # runes s)"
  by pat_completeness auto
termination by (relation "measure length") auto

lemma runes_ascii: "list_all (\<lambda>c. byte c < 128) s \<Longrightarrow> runes s = map (\<lambda>c. [c]) s"
  by (induction s) (simp_all add: rune_tail_def)

lemma fmt_f_tests:
  "fmt_f 1 (Fin (9 / 10)) = ''0.9''" "fmt_f 0 (Fin (5 / 2)) = ''2''" "fmt_f 1 (Fin (- 1 / 100)) = ''-0.0''"
  "fmt_f 2 (Fin 1) = ''1.00''"
  by code_simp+

end
