(* ===== verification/NetDetect.thy ===== *)
theory NetDetect
  imports NetModel GoMath GoTime RtEvent VulnFeeds
begin

text \<open>
  The detectors of \<^verbatim>\<open>internal/netmon\<close> over the flow logs: the orchestration
  (\<^verbatim>\<open>detect.go\<close>), metadata access (\<^verbatim>\<open>imds.go\<close>), beaconing (\<^verbatim>\<open>beacon.go\<close>), exfiltration
  (\<^verbatim>\<open>exfil.go\<close>), lateral movement and blocked egress (\<^verbatim>\<open>lateral.go\<close>), DNS tunnels and
  generated names (\<^verbatim>\<open>dnsanalysis.go\<close>), and the intent of destinations (\<^verbatim>\<open>intent.go\<close>). Scores
  are doubles; \<^verbatim>\<open>math.Log2\<close>, whose last bits differ between architectures, is the parameter \<open>log2\<close>.
\<close>

subsection \<open>Anomalies and options\<close>

definition KindIMDS :: string where "KindIMDS = ''imds_access''"
definition KindBeacon :: string where "KindBeacon = ''c2_beacon''"
definition KindExfil :: string where "KindExfil = ''exfil_volume''"
definition KindLowAndSlow :: string where "KindLowAndSlow = ''exfil_low_and_slow''"
definition KindLateral :: string where "KindLateral = ''lateral_movement''"
definition KindDNSTunnel :: string where "KindDNSTunnel = ''dns_tunnel''"
definition KindDGA :: string where "KindDGA = ''dns_dga''"
definition KindBlockedEg :: string where "KindBlockedEg = ''blocked_egress''"
definition KindAgentEgress :: string where "KindAgentEgress = ''agent_egress_unknown''"
definition KindAnomalousEg :: string where "KindAnomalousEg = ''anomalous_egress''"
definition KindHostNetwork :: string where "KindHostNetwork = ''host_network''"
definition KindFreeForAll :: string where "KindFreeForAll = ''unrestricted_east_west''"

lemmas kind_defs = KindIMDS_def KindBeacon_def KindExfil_def KindLowAndSlow_def KindLateral_def KindDNSTunnel_def
  KindDGA_def KindBlockedEg_def KindAgentEgress_def KindAnomalousEg_def KindHostNetwork_def KindFreeForAll_def

record anomaly =
  anKind :: string
  anSeverity :: severity
  anWorkload :: string
  anDest :: string
  anTitle :: string
  anDetail :: string
  anScore :: float64
  anEvidence :: "(string \<times> string) list"

record netOptions =
  noNow :: gotime
  noBeaconMinSamples :: int
  noBeaconMaxCV :: float64
  noBeaconMaxBytes :: int
  noExfilMinBytes :: int
  noExfilTxRxRatio :: float64
  noLowSlowMinBytes :: int
  noLowSlowMinSpanSec :: int
  noLateralMinPeers :: int
  noDNSTunnelMinQueries :: int
  noDNSEntropyThreshold :: float64
  noDGAMinNXDomain :: int
  noEnableAgentEgress :: bool
  noEnableIntent :: bool
  noIntentMinCount :: int

definition zero_options :: netOptions where
  "zero_options =
     \<lparr> noNow = 0, noBeaconMinSamples = 0, noBeaconMaxCV = Fin 0, noBeaconMaxBytes = 0, noExfilMinBytes = 0, noExfilTxRxRatio = Fin 0,
       noLowSlowMinBytes = 0, noLowSlowMinSpanSec = 0, noLateralMinPeers = 0, noDNSTunnelMinQueries = 0,
       noDNSEntropyThreshold = Fin 0, noDGAMinNXDomain = 0, noEnableAgentEgress = False, noEnableIntent = False, noIntentMinCount = 0 \<rparr>"

definition if_zero :: "int \<Rightarrow> int \<Rightarrow> int" where
  "if_zero d x = (if x = 0 then d else x)"

definition if_fzero :: "float64 \<Rightarrow> float64 \<Rightarrow> float64" where
  "if_fzero d x = (if feq x (Fin 0) then d else x)"

definition withDefaults :: "netOptions \<Rightarrow> netOptions" where
  "withDefaults opt =
     opt\<lparr> noBeaconMinSamples := if_zero 4 (noBeaconMinSamples opt), noBeaconMaxCV := if_fzero (flit 15 100) (noBeaconMaxCV opt),
        noBeaconMaxBytes := if_zero 4096 (noBeaconMaxBytes opt), noExfilMinBytes := if_zero 10485760 (noExfilMinBytes opt),
        noExfilTxRxRatio := if_fzero (flit 8 1) (noExfilTxRxRatio opt), noLowSlowMinBytes := if_zero 1048576 (noLowSlowMinBytes opt),
        noLowSlowMinSpanSec := if_zero 3600 (noLowSlowMinSpanSec opt), noLateralMinPeers := if_zero 10 (noLateralMinPeers opt),
        noDNSTunnelMinQueries := if_zero 20 (noDNSTunnelMinQueries opt),
        noDNSEntropyThreshold := if_fzero (flit 36 10) (noDNSEntropyThreshold opt),
        noDGAMinNXDomain := if_zero 10 (noDGAMinNXDomain opt), noIntentMinCount := if_zero 3 (noIntentMinCount opt) \<rparr>"

definition options_now :: "netOptions \<Rightarrow> flowLog list \<Rightarrow> gotime" where
  "options_now opt logs =
     (if noNow opt \<noteq> 0 then noNow opt
      else time_Unix (fold (\<lambda>fl l. fold (\<lambda>dq l. if dnTS dq > l then dnTS dq else l) (fgDNS fl)
             (fold (\<lambda>d l. if dsLastTS d > l then dsLastTS d else l) (fgDests fl) l)) logs 0))"

subsection \<open>Metadata access, host network and blocked egress\<close>

definition imds_anomaly :: "flowLog \<Rightarrow> destStat \<Rightarrow> anomaly" where
  "imds_anomaly fl d =
     \<lparr> anKind = KindIMDS, anSeverity = SeverityCritical, anWorkload = wkID (fgWorkload fl), anDest = dsHost d,
       anTitle = ''Egress to cloud instance-metadata endpoint (IMDS)'',
       anDetail = ''Workload '' @ fmt_q (wkID (fgWorkload fl)) @ '' connected to metadata endpoint '' @ dsHost d @ '' '' @ fmt_int (dsCount d)
         @ '' time(s). This endpoint vends node/instance IAM credentials; container access to it is a common credential-theft and privilege-escalation path.'',
       anScore = flit 1 1,
       anEvidence = [(''dst_ip'', dsIP d), (''dst_port'', fmt_int (dsPort d)), (''connections'', fmt_int (dsCount d))] \<rparr>"

definition detectIMDS :: "flowLog \<Rightarrow> anomaly list" where
  "detectIMDS fl = map (imds_anomaly fl) (filter dsIMDS (fgDests fl))"

definition detectHostNetwork :: "flowLog \<Rightarrow> anomaly list" where
  "detectHostNetwork fl =
     (if \<not> wkHostNetwork (fgWorkload fl) then []
      else [\<lparr> anKind = KindHostNetwork, anSeverity = SeverityMedium, anWorkload = wkID (fgWorkload fl), anDest = [],
              anTitle = ''Workload runs with host network namespace'',
              anDetail = ''hostNetwork removes network-namespace isolation; NetworkPolicy/egress rules do not apply to this pod.'',
              anScore = flit 1 1, anEvidence = [(''host_network'', ''true'')] \<rparr>])"

definition blocked_anomaly :: "flowLog \<Rightarrow> destStat \<Rightarrow> anomaly" where
  "blocked_anomaly fl d =
     \<lparr> anKind = KindBlockedEg, anSeverity = SeverityLow, anWorkload = wkID (fgWorkload fl), anDest = dsHost d,
       anTitle = ''Egress denied by policy (blocked-egress alert)'',
       anDetail = fmt_int (dsDenied d) @ '' egress attempt(s) from '' @ fmt_q (wkID (fgWorkload fl)) @ '' to '' @ dsHost d
         @ '' were dropped by policy. Repeated denials can indicate a misconfigured allowlist or a workload probing for an exit.'',
       anScore = flit 5 10, anEvidence = [(''denied'', fmt_int (dsDenied d)), (''dst_port'', fmt_int (dsPort d))] \<rparr>"

definition detectBlockedEgress :: "flowLog \<Rightarrow> anomaly list" where
  "detectBlockedEgress fl = map (blocked_anomaly fl) (filter (\<lambda>d. dsDenied d \<noteq> 0) (fgDests fl))"

subsection \<open>Beaconing\<close>

record intervalStats =
  isN :: nat
  isMean :: float64
  isStddev :: float64
  isCV :: float64

definition gaps_of :: "int list \<Rightarrow> float64 list" where
  "gaps_of ts = map2 (\<lambda>a b. float_of_int (wrap64 (b - a))) (butlast ts) (tl ts)"

definition computeIntervalStats :: "int list \<Rightarrow> intervalStats option" where
  "computeIntervalStats ts =
     (if length ts < 3 then None
      else
        (let gaps = gaps_of ts; n = float_of_int (int (length gaps));
             mean = fdiv (fold (\<lambda>g s. fadd s g) gaps (Fin 0)) n
         in if fle mean (Fin 0) then None
            else (let sq = fold (\<lambda>g s. let d = fsub g mean in fadd s (fmul d d)) gaps (Fin 0);
                      std = math_Sqrt (fdiv sq n)
                  in Some \<lparr> isN = length gaps, isMean = mean, isStddev = std, isCV = fdiv std mean \<rparr>)))"

definition round3 :: "float64 \<Rightarrow> float64" where
  "round3 f = fdiv (math_Round (fmul f (flit 1000 1))) (flit 1000 1)"

definition avg_bytes :: "destStat \<Rightarrow> int" where
  "avg_bytes d = quot (wrap64 (dsBytesTx d + dsBytesRx d)) (dsCount d)"

definition beacon_anomaly :: "flowLog \<Rightarrow> netOptions \<Rightarrow> destStat \<Rightarrow> intervalStats \<Rightarrow> anomaly" where
  "beacon_anomaly fl opt d st =
     \<lparr> anKind = KindBeacon, anSeverity = SeverityHigh, anWorkload = wkID (fgWorkload fl), anDest = dsHost d,
       anTitle = ''Periodic C2 beaconing pattern to external host'',
       anDetail = fmt_int (dsCount d) @ '' connections to '' @ dsHost d @ '' at a near-constant '' @ fmt_f 0 (isMean st)
         @ ''s interval (jitter CV '' @ fmt_f 3 (isCV st) @ ''), averaging '' @ fmt_int (avg_bytes d) @ '' bytes each '' @ emdash
         @ '' the low-jitter, low-volume signature of an automated callback.'',
       anScore = round3 (fsub (flit 1 1) (fdiv (fdiv (isCV st) (noBeaconMaxCV opt)) (flit 2 1))),
       anEvidence = [(''interval_sec'', fmt_f 0 (isMean st)), (''jitter_cv'', fmt_f 3 (isCV st)),
         (''connections'', fmt_int (dsCount d)), (''avg_bytes'', fmt_int (avg_bytes d))] \<rparr>"

definition beacon_of :: "flowLog \<Rightarrow> netOptions \<Rightarrow> destStat \<Rightarrow> anomaly option" where
  "beacon_of fl opt d =
     (if dsIMDS d \<or> dsInternal d then None
      else if dsCount d < noBeaconMinSamples opt then None
      else (case computeIntervalStats (dsTimestamps d) of None \<Rightarrow> None
        | Some st \<Rightarrow>
            if flt (noBeaconMaxCV opt) (isCV st) then None
            else if avg_bytes d > noBeaconMaxBytes opt then None
            else Some (beacon_anomaly fl opt d st)))"

definition detectBeacon :: "flowLog \<Rightarrow> netOptions \<Rightarrow> anomaly list" where
  "detectBeacon fl opt = List.map_filter (beacon_of fl opt) (fgDests fl)"

subsection \<open>Exfiltration\<close>

definition txRxRatio :: "int \<Rightarrow> int \<Rightarrow> float64" where
  "txRxRatio tx rx = (if rx \<le> 0 then float_of_int tx else fdiv (float_of_int tx) (float_of_int rx))"

text \<open>The loop finds the unit: at most five steps, so the divisor stays below \<open>2 ^ 63\<close>.\<close>

fun bytes_unit :: "nat \<Rightarrow> int \<Rightarrow> int \<Rightarrow> nat \<Rightarrow> int \<times> nat" where
  "bytes_unit 0 n dv e = (dv, e)"
| "bytes_unit (Suc k) n dv e = (if n div dv \<ge> 1024 then bytes_unit k n (dv * 1024) (Suc e) else (dv, e))"

definition humanBytes :: "int \<Rightarrow> string" where
  "humanBytes n =
     (if n < 1024 then fmt_int n @ '' B''
      else (let (dv, e) = bytes_unit 5 n 1024 0 in
        fmt_f 1 (fdiv (float_of_int n) (float_of_int dv)) @ '' '' @ [''KMGTP'' ! e] @ ''iB''))"

definition humanDuration :: "int \<Rightarrow> string" where
  "humanDuration sec = dur_String (wrap64 (sec * Second))"

definition volume_anomaly :: "flowLog \<Rightarrow> destStat \<Rightarrow> anomaly" where
  "volume_anomaly fl d =
     (let ratio = txRxRatio (dsBytesTx d) (dsBytesRx d) in
      \<lparr> anKind = KindExfil, anSeverity = SeverityHigh, anWorkload = wkID (fgWorkload fl), anDest = dsHost d,
        anTitle = ''High-volume upload to external host (possible data exfiltration)'',
        anDetail = ''Workload '' @ fmt_q (wkID (fgWorkload fl)) @ '' sent '' @ humanBytes (dsBytesTx d) @ '' to '' @ dsHost d @ '' across ''
          @ fmt_int (dsCount d) @ '' connection(s) with a '' @ fmt_f 1 ratio @ '':1 upload:download ratio '' @ emdash
          @ '' an upload-dominant transfer to a single external destination.'',
        anScore = flit 9 10,
        anEvidence = [(''bytes_tx'', fmt_int (dsBytesTx d)), (''bytes_rx'', fmt_int (dsBytesRx d)), (''tx_rx_ratio'', fmt_f 2 ratio),
          (''connections'', fmt_int (dsCount d))] \<rparr>)"

definition lowslow_anomaly :: "flowLog \<Rightarrow> destStat \<Rightarrow> anomaly" where
  "lowslow_anomaly fl d =
     (let span = wrap64 (dsLastTS d - dsFirstTS d) in
      \<lparr> anKind = KindLowAndSlow, anSeverity = SeverityMedium, anWorkload = wkID (fgWorkload fl), anDest = dsHost d,
        anTitle = ''Low-and-slow egress to external host (possible staged exfiltration)'',
        anDetail = ''Workload '' @ fmt_q (wkID (fgWorkload fl)) @ '' trickled '' @ humanBytes (dsBytesTx d) @ '' to '' @ dsHost d @ '' over ''
          @ humanDuration span @ '' in '' @ fmt_int (dsCount d) @ '' connection(s) '' @ emdash
          @ '' a steady low-volume flow consistent with exfiltration paced to evade volume alarms.'',
        anScore = flit 7 10,
        anEvidence = [(''bytes_tx'', fmt_int (dsBytesTx d)), (''span_sec'', fmt_int span), (''connections'', fmt_int (dsCount d))] \<rparr>)"

definition exfil_of :: "flowLog \<Rightarrow> netOptions \<Rightarrow> destStat \<Rightarrow> anomaly option" where
  "exfil_of fl opt d =
     (if dsIMDS d then None
      else if dsBytesTx d \<ge> noExfilMinBytes opt \<and> fle (noExfilTxRxRatio opt) (txRxRatio (dsBytesTx d) (dsBytesRx d)) then Some (volume_anomaly fl d)
      else if dsBytesTx d \<ge> noLowSlowMinBytes opt \<and> wrap64 (dsLastTS d - dsFirstTS d) \<ge> noLowSlowMinSpanSec opt \<and> dsCount d \<ge> noBeaconMinSamples opt
        then Some (lowslow_anomaly fl d)
      else None)"

text \<open>The reference time is handed in and not used.\<close>

definition detectExfil :: "flowLog \<Rightarrow> netOptions \<Rightarrow> gotime \<Rightarrow> anomaly list" where
  "detectExfil fl opt now = List.map_filter (exfil_of fl opt) (ExternalDests fl)"

subsection \<open>Lateral movement\<close>

definition sampleKeys :: "string list \<Rightarrow> nat \<Rightarrow> string" where
  "sampleKeys keys n = join_with '','' (take n (sort_Strings keys))"

definition east_west :: "flowLog \<Rightarrow> destStat list" where
  "east_west fl = filter (\<lambda>d. dsInternal d \<and> \<not> dsIMDS d) (fgDests fl)"

definition detectLateral :: "flowLog \<Rightarrow> netOptions \<Rightarrow> anomaly list" where
  "detectLateral fl opt =
     (let peers = set_puts (map dsHost (east_west fl)) []; ports = set_puts (map dsPort (east_west fl)) [] in
      if int (length peers) < noLateralMinPeers opt then []
      else [\<lparr> anKind = KindLateral,
              anSeverity = (if int (length ports) \<ge> noLateralMinPeers opt then SeverityHigh else SeverityMedium),
              anWorkload = wkID (fgWorkload fl), anDest = [], anTitle = ''Lateral-movement fan-out across internal peers'',
              anDetail = ''Workload '' @ fmt_q (wkID (fgWorkload fl)) @ '' connected to '' @ fmt_int (int (length peers))
                @ '' distinct internal peers across '' @ fmt_int (int (length ports)) @ '' distinct port(s) '' @ emdash
                @ '' a fan-out consistent with east-west scanning or lateral movement rather than a fixed dependency set.'',
              anScore = flit 75 100,
              anEvidence = [(''distinct_peers'', fmt_int (int (length peers))), (''distinct_ports'', fmt_int (int (length ports))),
                (''sample_peers'', sampleKeys peers 5)] \<rparr>])"

subsection \<open>DNS\<close>

text \<open>How often each rune occurs, in the order in which the code happens to iterate the map.\<close>

definition rune_counts :: "string \<Rightarrow> (string \<times> int) list" where
  "rune_counts s = fold (\<lambda>r m. kv_put r ((case map_of m r of None \<Rightarrow> 0 | Some n \<Rightarrow> n) + 1) m) (runes s) []"

definition shannonEntropy :: "(float64 \<Rightarrow> float64) \<Rightarrow> string \<Rightarrow> float64" where
  "shannonEntropy log2 s =
     (if s = [] then Fin 0
      else (let n = float_of_int (int (length s)) in
        fold (\<lambda>(r, c) h. let p = fdiv (float_of_int c) n in fsub h (fmul p (log2 p))) (rune_counts s) (Fin 0)))"

definition dns_norm :: "string \<Rightarrow> string" where
  "dns_norm qname = strings_TrimSuffix (strings_ToLower (strings_TrimSpace qname)) ''.''"

definition parentDomain :: "string \<Rightarrow> string" where
  "parentDomain qname =
     (let q = dns_norm qname; labels = split_byte CHR ''.'' q in
      if length labels \<le> 2 then q else join_with ''.'' (drop (length labels - 2) labels))"

definition subLabels :: "string \<Rightarrow> string \<Rightarrow> string" where
  "subLabels qname parent = strings_TrimSuffix (strings_TrimSuffix (dns_norm qname) parent) ''.''"

definition dataRecordType :: "string \<Rightarrow> bool" where
  "dataRecordType qtype \<longleftrightarrow> strings_ToUpper qtype \<in> {''TXT'', ''NULL'', ''CNAME'', ''AAAA''}"

record dnsAcc =
  daCount :: int
  daDataRecords :: int
  daSumEntropy :: float64
  daSumLen :: int
  daMaxLen :: int

definition add_query :: "(float64 \<Rightarrow> float64) \<Rightarrow> dnsEvent \<Rightarrow> (string \<times> dnsAcc) list \<Rightarrow> (string \<times> dnsAcc) list" where
  "add_query log2 dq m =
     (let p = parentDomain (dnQName dq); sub = subLabels (dnQName dq) p; l = int (length sub);
          a = (case map_of m p of Some a \<Rightarrow> a
            | None \<Rightarrow> \<lparr> daCount = 0, daDataRecords = 0, daSumEntropy = Fin 0, daSumLen = 0, daMaxLen = 0 \<rparr>)
      in kv_put p (a\<lparr> daCount := daCount a + 1, daSumEntropy := fadd (daSumEntropy a) (shannonEntropy log2 sub),
           daSumLen := daSumLen a + l, daMaxLen := (if l > daMaxLen a then l else daMaxLen a),
           daDataRecords := (if dataRecordType (dnQType dq) then daDataRecords a + 1 else daDataRecords a) \<rparr>) m)"

definition tunnel_of :: "flowLog \<Rightarrow> netOptions \<Rightarrow> string \<Rightarrow> dnsAcc \<Rightarrow> anomaly option" where
  "tunnel_of fl opt p a =
     (let n = float_of_int (daCount a); avgEntropy = fdiv (daSumEntropy a) n; avgLen = fdiv (float_of_int (daSumLen a)) n in
      if daCount a < noDNSTunnelMinQueries opt then None
      else if flt avgEntropy (noDNSEntropyThreshold opt) \<or> flt avgLen (flit 12 1) then None
      else Some \<lparr> anKind = KindDNSTunnel, anSeverity = SeverityHigh, anWorkload = wkID (fgWorkload fl), anDest = p,
        anTitle = ''Probable DNS tunnelling (high-entropy subdomain queries)'',
        anDetail = fmt_int (daCount a) @ '' queries under '' @ fmt_q p @ '' with avg subdomain entropy '' @ fmt_f 2 avgEntropy
          @ '' bits/char and avg length '' @ fmt_f 0 avgLen @ '' (max '' @ fmt_int (daMaxLen a) @ ''); '' @ fmt_int (daDataRecords a)
          @ '' used data-carrying record types. Long, high-entropy labels under one parent are the signature of DNS tunnelling.'',
        anScore = round3 (math_Min (flit 1 1) (fdiv avgEntropy (flit 4 1))),
        anEvidence = [(''parent'', p), (''queries'', fmt_int (daCount a)), (''avg_entropy'', fmt_f 2 avgEntropy),
          (''avg_sub_len'', fmt_f 0 avgLen), (''data_records'', fmt_int (daDataRecords a))] \<rparr>)"

definition detectDNSTunnel :: "(float64 \<Rightarrow> float64) \<Rightarrow> flowLog \<Rightarrow> netOptions \<Rightarrow> anomaly list" where
  "detectDNSTunnel log2 fl opt =
     (let byParent = fold (add_query log2) (fgDNS fl) [] in
      List.map_filter (\<lambda>p. case map_of byParent p of None \<Rightarrow> None | Some a \<Rightarrow> tunnel_of fl opt p a) (sort_Strings (map fst byParent)))"

definition nx_events :: "flowLog \<Rightarrow> dnsEvent list" where
  "nx_events fl = filter (\<lambda>dq. EqualFold (dnRCode dq) ''NXDOMAIN'') (fgDNS fl)"

definition left_label :: "string \<Rightarrow> string" where
  "left_label qname = hd (split_byte CHR ''.'' (strings_TrimSuffix (strings_ToLower qname) ''.''))"

definition detectDGA :: "(float64 \<Rightarrow> float64) \<Rightarrow> flowLog \<Rightarrow> netOptions \<Rightarrow> anomaly option" where
  "detectDGA log2 fl opt =
     (let evs = nx_events fl; nx = int (length evs); doms = set_puts (map (\<lambda>dq. parentDomain (dnQName dq)) evs) [];
          sumEntropy = fold (\<lambda>dq s. fadd s (shannonEntropy log2 (left_label (dnQName dq)))) evs (Fin 0);
          avgEntropy = fdiv sumEntropy (float_of_int nx)
      in if nx < noDGAMinNXDomain opt \<or> nx = 0 then None
         else if flt avgEntropy (noDNSEntropyThreshold opt) then None
         else Some \<lparr> anKind = KindDGA, anSeverity = SeverityHigh, anWorkload = wkID (fgWorkload fl), anDest = [],
           anTitle = ''Probable DGA activity (NXDOMAIN storm to high-entropy domains)'',
           anDetail = fmt_int nx @ '' NXDOMAIN responses across '' @ fmt_int (int (length doms))
             @ '' distinct parent domains with avg leftmost-label entropy '' @ fmt_f 2 avgEntropy @ '' bits/char '' @ emdash
             @ '' the pattern of a domain-generation algorithm probing for its live C2 rendezvous.'',
           anScore = round3 (math_Min (flit 1 1) (fdiv avgEntropy (flit 4 1))),
           anEvidence = [(''nxdomain_count'', fmt_int nx), (''distinct_parents'', fmt_int (int (length doms))),
             (''avg_entropy'', fmt_f 2 avgEntropy)] \<rparr>)"

definition detectDNS :: "(float64 \<Rightarrow> float64) \<Rightarrow> flowLog \<Rightarrow> netOptions \<Rightarrow> anomaly list" where
  "detectDNS log2 fl opt =
     (if fgDNS fl = [] then []
      else detectDNSTunnel log2 fl opt @ (case detectDGA log2 fl opt of None \<Rightarrow> [] | Some a \<Rightarrow> [a]))"

subsection \<open>The intent of destinations\<close>

definition ClassIntended :: string where "ClassIntended = ''intended''"
definition ClassAnomalous :: string where "ClassAnomalous = ''anomalous''"

record egressIntent =
  eiDest :: string
  eiClass :: string
  eiReasons :: "string list"
  eiCount :: int
  eiBytesTx :: int
  eiFQDN :: string
  eiConfidence :: float64

definition isHighRiskPort :: "int \<Rightarrow> bool" where
  "isHighRiskPort p \<longleftrightarrow> p \<notin> set [0, 53, 80, 123, 443, 587, 993, 995, 5432, 3306, 6379, 27017, 8080, 8443]"

definition base_intent :: "netOptions \<Rightarrow> destStat \<Rightarrow> string \<times> string \<times> float64" where
  "base_intent opt d =
     (if dsFQDN d \<noteq> [] \<and> dsCount d \<ge> noIntentMinCount opt then
        (ClassIntended, ''resolved name '' @ fmt_q (dsFQDN d) @ '' contacted '' @ fmt_int (dsCount d) @ '' times (>= baseline ''
           @ fmt_int (noIntentMinCount opt) @ '')'', flit 9 10)
      else if dsFQDN d \<noteq> [] then
        (ClassAnomalous, ''named host but only '' @ fmt_int (dsCount d) @ '' contact(s) '' @ emdash @ '' below the baseline of ''
           @ fmt_int (noIntentMinCount opt) @ '', so novel/rare'', flit 6 10)
      else (ClassAnomalous, ''destination is a raw IP with no resolved name (IP-literal egress is unusual for legitimate services)'', flit 7 10))"

definition intent_of :: "netOptions \<Rightarrow> destStat \<Rightarrow> egressIntent" where
  "intent_of opt d =
     (let (cls, reason, conf) = base_intent opt d; risky = isHighRiskPort (dsPort d) in
      \<lparr> eiDest = dsHost d, eiClass = (if risky then ClassAnomalous else cls),
        eiReasons = [reason] @ (if risky then [''destination port '' @ fmt_int (dsPort d) @ '' is not a common egress service port''] else []),
        eiCount = dsCount d, eiBytesTx = dsBytesTx d, eiFQDN = dsFQDN d,
        eiConfidence = round3 (if risky \<and> flt conf (flit 7 10) then flit 7 10 else conf) \<rparr>)"

definition ClassifyEgress :: "flowLog \<Rightarrow> netOptions \<Rightarrow> egressIntent list" where
  "ClassifyEgress fl opt =
     sort_stable (key_less eiDest (\<lambda>a b. False))
       (map (intent_of (withDefaults opt)) (filter (\<lambda>d. \<not> dsIMDS d) (ExternalDests fl)))"

definition anomalous_egress :: "flowLog \<Rightarrow> egressIntent \<Rightarrow> anomaly" where
  "anomalous_egress fl i =
     \<lparr> anKind = KindAnomalousEg, anSeverity = SeverityLow, anWorkload = wkID (fgWorkload fl), anDest = eiDest i,
       anTitle = ''Anomalous egress destination (outside learned baseline)'',
       anDetail = ''Destination '' @ eiDest i @ '' classified anomalous: '' @ join_with ''; '' (eiReasons i) @ ''.'',
       anScore = eiConfidence i,
       anEvidence = [(''class'', eiClass i), (''reasons'', join_with '' | '' (eiReasons i)), (''contacts'', fmt_int (eiCount i)),
         (''confidence'', fmt_f 3 (eiConfidence i))] \<rparr>"

definition detectAnomalousEgress :: "flowLog \<Rightarrow> netOptions \<Rightarrow> anomaly list" where
  "detectAnomalousEgress fl opt = map (anomalous_egress fl) (filter (\<lambda>i. eiClass i = ClassAnomalous) (ClassifyEgress fl opt))"

definition knownModelHosts :: "string list" where
  "knownModelHosts =
     [''api.openai.com'', ''api.anthropic.com'', ''generativelanguage.googleapis.com'', ''api.cohere.ai'', ''api.mistral.ai'', ''api.groq.com'',
      ''bedrock-runtime.amazonaws.com'', ''openai.azure.com'', ''huggingface.co'', ''api-inference.huggingface.co'']"

definition modelHostHints :: "string list" where
  "modelHostHints = [''llm'', ''gpt'', ''inference'', ''ml-'', ''ai-'', ''.ai'', ''model'', ''embedding'', ''completion'']"

definition isKnownModelHost :: "string \<Rightarrow> bool" where
  "isKnownModelHost h0 =
     (let h = strings_ToLower h0 in
      list_ex (\<lambda>k. h = k \<or> strings_HasSuffix h (''.'' @ k) \<or> strings_HasSuffix h k) knownModelHosts)"

definition looksLikeModelHost :: "string \<Rightarrow> bool" where
  "looksLikeModelHost h = list_ex (strings_Contains (strings_ToLower h)) modelHostHints"

definition isAgentWorkload :: "netWorkload \<Rightarrow> bool" where
  "isAgentWorkload w \<longleftrightarrow> EqualFold (wkKind w) ''agent'' \<or> EqualFold (wkKind w) ''ai-agent''
     \<or> list_ex (\<lambda>(k, v). let lk = strings_ToLower k; lv = strings_ToLower v in
          (lk = ''app.kubernetes.io/component'' \<and> lv = ''agent'') \<or> (lk = ''workload-type'' \<and> (lv = ''agent'' \<or> lv = ''ai-agent''))) (wkLabels w)"

definition agent_anomaly :: "flowLog \<Rightarrow> destStat \<Rightarrow> anomaly" where
  "agent_anomaly fl d =
     (let looks = looksLikeModelHost (dsHost d);
          reason = (if looks then ''destination name resembles an LLM/inference endpoint but is not on the known-good allowlist '' @ emdash
              @ '' data-exfiltration-via-model risk'' else ''destination is not on the known model/tool allowlist'')
      in \<lparr> anKind = KindAgentEgress, anSeverity = (if looks then SeverityHigh else SeverityMedium), anWorkload = wkID (fgWorkload fl),
           anDest = dsHost d,
           anTitle = (if looks then ''AI-agent egress to unknown LLM/inference host (possible exfil-via-model)''
             else ''AI-agent egress to non-allowlisted external host''),
           anDetail = ''Agent workload '' @ fmt_q (wkID (fgWorkload fl)) @ '' sent '' @ humanBytes (dsBytesTx d) @ '' to '' @ dsHost d @ '' across ''
             @ fmt_int (dsCount d) @ '' connection(s); '' @ reason @ ''.'',
           anScore = flit 8 10,
           anEvidence = [(''looks_like_model'', fmt_t looks), (''bytes_tx'', fmt_int (dsBytesTx d)), (''connections'', fmt_int (dsCount d))] \<rparr>)"

definition detectAgentEgress :: "flowLog \<Rightarrow> anomaly list" where
  "detectAgentEgress fl =
     (if \<not> isAgentWorkload (fgWorkload fl) then []
      else map (agent_anomaly fl) (filter (\<lambda>d. \<not> dsIMDS d \<and> \<not> isKnownModelHost (dsHost d)) (ExternalDests fl)))"

subsection \<open>The analysis\<close>

definition anomaly_less :: "anomaly \<Rightarrow> anomaly \<Rightarrow> bool" where
  "anomaly_less = ikey_less (\<lambda>a. - anSeverity a) (key_less anKind (key_less anWorkload (key_less anDest (\<lambda>a b. False))))"

definition sortAnomalies :: "anomaly list \<Rightarrow> anomaly list" where
  "sortAnomalies = sort_stable anomaly_less"

definition detect_log :: "(float64 \<Rightarrow> float64) \<Rightarrow> netOptions \<Rightarrow> gotime \<Rightarrow> flowLog \<Rightarrow> anomaly list" where
  "detect_log log2 opt now fl =
     detectIMDS fl @ detectBeacon fl opt @ detectExfil fl opt now @ detectLateral fl opt @ detectDNS log2 fl opt
     @ detectBlockedEgress fl @ detectHostNetwork fl
     @ (if noEnableAgentEgress opt then detectAgentEgress fl else [])
     @ (if noEnableIntent opt then detectAnomalousEgress fl opt else [])"

record netReport =
  nrLogs :: "flowLog list"
  nrAnomalies :: "anomaly list"

definition net_Analyze :: "(float64 \<Rightarrow> float64) \<Rightarrow> capture \<Rightarrow> netOptions \<Rightarrow> netReport" where
  "net_Analyze log2 c opts =
     (let opt = withDefaults opts; logs = BuildFlowLogs (Normalize c); now = options_now opt logs in
      \<lparr> nrLogs = logs, nrAnomalies = sortAnomalies (concat (map (detect_log log2 opt now) logs)) \<rparr>)"

definition net_Highest :: "netReport \<Rightarrow> severity" where
  "net_Highest r = fold (\<lambda>a h. if anSeverity a > h then anSeverity a else h) (nrAnomalies r) SeverityUnknown"

subsection \<open>Metadata access is reported\<close>

lemma sortAnomalies_set [simp]: "set (sortAnomalies as) = set as"
  by (simp add: sortAnomalies_def)

lemma Analyze_anomalies:
  "set (nrAnomalies (net_Analyze log2 c opts))
     = (\<Union>fl \<in> set (BuildFlowLogs (Normalize c)).
          set (detect_log log2 (withDefaults opts) (options_now (withDefaults opts) (BuildFlowLogs (Normalize c))) fl))"
  by (simp add: net_Analyze_def Let_def)

lemma Normalize_sets [simp]: "set (cpFlows (Normalize c)) = set (cpFlows c)" "set (cpDNS (Normalize c)) = set (cpDNS c)"
  by (simp_all add: Normalize_def)

lemma detect_IMDS_incl: "a \<in> set (detectIMDS fl) \<Longrightarrow> a \<in> set (detect_log log2 opt now fl)"
  by (simp add: detect_log_def)

lemma flow_has_log:
  assumes "f \<in> set (cpFlows c)"
  shows "\<exists>fl \<in> set (BuildFlowLogs c). wkID (fgWorkload fl) = flWorkloadID f"
proof -
  have "flWorkloadID f \<in> (\<lambda>fl. wkID (fgWorkload fl)) ` set (BuildFlowLogs c)"
    using flow_ids [of c] assms by blast
  then show ?thesis by auto
qed

text \<open>The destination a flow rolls up into, when the flows of its key agree on the address.\<close>

lemma dest_of_flow:
  assumes "f \<in> set (cpFlows c)" "flDirection f \<noteq> Ingress" "fl \<in> set (BuildFlowLogs c)" "wkID (fgWorkload fl) = flWorkloadID f"
    and same: "\<forall>g \<in> set (cpFlows c). flWorkloadID g = flWorkloadID f \<and> endpoint_key (flDst g) = endpoint_key (flDst f)
      \<longrightarrow> epIP (flDst g) = epIP (flDst f)"
  shows "\<exists>d \<in> set (fgDests fl). dsKey d = endpoint_key (flDst f) \<and> dsIP d = epIP (flDst f) \<and> dsIMDS d = IsIMDS (epIP (flDst f))
    \<and> dsInternal d = IsInternal (epIP (flDst f))"
proof -
  let ?eg = "filter (\<lambda>f. flDirection f \<noteq> Ingress) (flows_of (flWorkloadID f) (cpFlows c))" and ?k = "endpoint_key (flDst f)"
  have ex: "set (fgDests fl) = dest_of ?eg ` ((\<lambda>f. endpoint_key (flDst f)) ` set ?eg)"
    using BuildFlowLogs_member [OF assms(3)] by (simp add: log_exact_def Let_def assms(4))
  have f: "f \<in> set ?eg" using assms by (simp add: flows_of_def)
  then have "to_key ?k ?eg \<noteq> []" by (auto simp: to_key_def filter_empty_conv)
  then obtain g gs where g: "to_key ?k ?eg = g # gs" by (cases "to_key ?k ?eg") auto
  then have "g \<in> set (to_key ?k ?eg)" by simp
  then have "g \<in> set (cpFlows c)" "flWorkloadID g = flWorkloadID f" "endpoint_key (flDst g) = ?k"
    by (simp_all add: to_key_def flows_of_def)
  then have "epIP (flDst g) = epIP (flDst f)" using same by blast
  moreover have "dest_of ?eg ?k \<in> set (fgDests fl)" unfolding ex using f by blast
  ultimately show ?thesis using dest_of_facts [OF g] by auto
qed

text \<open>
  C25: Every egress flow to a metadata address is reported as critical for its workload, provided all flows of the
  workload to the same name and port went to the same address; so the analysis fails any gate.
\<close>

theorem imds_egress_reported:
  assumes "f \<in> set (cpFlows c)" "flDirection f \<noteq> Ingress" "IsIMDS (epIP (flDst f))"
    and "\<forall>g \<in> set (cpFlows c). flWorkloadID g = flWorkloadID f \<and> endpoint_key (flDst g) = endpoint_key (flDst f)
      \<longrightarrow> epIP (flDst g) = epIP (flDst f)"
  shows "\<exists>a \<in> set (nrAnomalies (net_Analyze log2 c opts)).
    anKind a = KindIMDS \<and> anSeverity a = SeverityCritical \<and> anWorkload a = flWorkloadID f \<and> (''dst_ip'', epIP (flDst f)) \<in> set (anEvidence a)"
proof -
  let ?c = "Normalize c"
  have f: "f \<in> set (cpFlows ?c)" using assms(1) by simp
  obtain fl where fl: "fl \<in> set (BuildFlowLogs ?c)" "wkID (fgWorkload fl) = flWorkloadID f" using flow_has_log [OF f] by blast
  have same: "\<forall>g \<in> set (cpFlows ?c). flWorkloadID g = flWorkloadID f \<and> endpoint_key (flDst g) = endpoint_key (flDst f)
      \<longrightarrow> epIP (flDst g) = epIP (flDst f)" using assms(4) by simp
  obtain d where d: "d \<in> set (fgDests fl)" "dsIP d = epIP (flDst f)" "dsIMDS d"
    using dest_of_flow [OF f assms(2) fl same] assms(3) by auto
  have "imds_anomaly fl d \<in> set (nrAnomalies (net_Analyze log2 c opts))"
    unfolding Analyze_anomalies using fl(1) d by (intro UN_I [of fl] detect_IMDS_incl) (simp_all add: detectIMDS_def)
  then show ?thesis by (rule bexI [rotated]) (simp add: imds_anomaly_def fl(2) d)
qed

definition flow_to :: "string \<Rightarrow> int \<Rightarrow> string \<Rightarrow> string \<Rightarrow> flow" where
  "flow_to w ts name ip =
     \<lparr> flWorkloadID = w, flTS = ts, flProto = ProtoTCP, flDirection = Egress,
       flSrc = \<lparr> epIP = ''10.0.0.5'', epPort = 0, epFQDN = [], epWorkload = w, epNamespace = [] \<rparr>,
       flDst = \<lparr> epIP = ip, epPort = 80, epFQDN = name, epWorkload = [], epNamespace = [] \<rparr>,
       flBytesTx = 100, flBytesRx = 100, flVerdict = VerdictAllow, flProcess = [], flPID = 1 \<rparr>"

definition capture_of :: "flow list \<Rightarrow> capture" where
  "capture_of fs = \<lparr> cpPolicyMode = [], cpWorkloads = [], cpFlows = fs, cpDNS = [] \<rparr>"

theorem imds_egress_reported_witness:
  "\<exists>a \<in> set (nrAnomalies (net_Analyze (\<lambda>x. Fin 0) (capture_of [flow_to ''web'' 1 [] ''169.254.169.254'']) zero_options)).
     anKind a = KindIMDS \<and> anSeverity a = SeverityCritical \<and> anWorkload a = ''web'' \<and> (''dst_ip'', ''169.254.169.254'') \<in> set (anEvidence a)"
proof -
  have i: "IsIMDS ''169.254.169.254''" by code_simp
  show ?thesis
    using imds_egress_reported [of "flow_to ''web'' 1 [] ''169.254.169.254''" "capture_of [flow_to ''web'' 1 [] ''169.254.169.254'']" "\<lambda>x. Fin 0" zero_options]
    by (simp add: i flow_to_def capture_of_def Egress_def Ingress_def)
qed

text \<open>What the kinds of the detectors' findings are.\<close>

lemma map_filter_kind:
  "(\<And>x a. f x = Some a \<Longrightarrow> anKind a = k) \<Longrightarrow> a \<in> set (List.map_filter f xs) \<Longrightarrow> anKind a = k"
  by (induction xs) (auto split: option.splits)

lemma beacon_kind: "a \<in> set (detectBeacon fl opt) \<Longrightarrow> anKind a = KindBeacon"
  unfolding detectBeacon_def
  by (erule map_filter_kind [rotated]) (auto simp: beacon_of_def beacon_anomaly_def split: if_splits option.splits)

lemma exfil_kind: "a \<in> set (detectExfil fl opt now) \<Longrightarrow> anKind a \<in> {KindExfil, KindLowAndSlow}"
  unfolding detectExfil_def
  by (induction "ExternalDests fl") (auto simp: map_filter_def exfil_of_def volume_anomaly_def lowslow_anomaly_def Let_def split: if_splits)

lemma dns_kind: "a \<in> set (detectDNS log2 fl opt) \<Longrightarrow> anKind a \<in> {KindDNSTunnel, KindDGA}"
proof -
  assume "a \<in> set (detectDNS log2 fl opt)"
  then consider "a \<in> set (detectDNSTunnel log2 fl opt)" | "detectDGA log2 fl opt = Some a"
    by (auto simp: detectDNS_def split: if_splits option.splits)
  then show ?thesis
  proof cases
    case 1
    then have "anKind a = KindDNSTunnel" unfolding detectDNSTunnel_def Let_def
      by (rule map_filter_kind [rotated]) (auto simp: tunnel_of_def Let_def split: if_splits option.splits)
    then show ?thesis by simp
  next
    case 2
    then have "anKind a = KindDGA" by (auto simp: detectDGA_def Let_def split: if_splits)
    then show ?thesis by simp
  qed
qed

lemma other_kinds:
  "a \<in> set (detectLateral fl opt) \<Longrightarrow> anKind a = KindLateral"
  "a \<in> set (detectBlockedEgress fl) \<Longrightarrow> anKind a = KindBlockedEg"
  "a \<in> set (detectHostNetwork fl) \<Longrightarrow> anKind a = KindHostNetwork"
  "a \<in> set (detectAgentEgress fl) \<Longrightarrow> anKind a = KindAgentEgress"
  "a \<in> set (detectAnomalousEgress fl opt) \<Longrightarrow> anKind a = KindAnomalousEg"
  "a \<in> set (detectIMDS fl) \<Longrightarrow> anKind a = KindIMDS"
  by (auto simp: detectLateral_def detectBlockedEgress_def blocked_anomaly_def detectHostNetwork_def detectAgentEgress_def
      agent_anomaly_def detectAnomalousEgress_def anomalous_egress_def detectIMDS_def imds_anomaly_def Let_def split: if_splits)

text \<open>Metadata access is reported exactly when a destination has a metadata address.\<close>

lemma log_imds: "(\<exists>a \<in> set (detect_log log2 opt now fl). anKind a = KindIMDS) \<longleftrightarrow> list_ex dsIMDS (fgDests fl)"
proof
  assume "\<exists>a \<in> set (detect_log log2 opt now fl). anKind a = KindIMDS"
  then obtain a where a: "a \<in> set (detect_log log2 opt now fl)" "anKind a = KindIMDS" by blast
  then have "a \<in> set (detectIMDS fl)"
    unfolding detect_log_def set_append Un_iff
    by (auto dest: beacon_kind exfil_kind dns_kind other_kinds simp: kind_defs split: if_splits)
  then show "list_ex dsIMDS (fgDests fl)" by (auto simp: detectIMDS_def list_ex_iff)
next
  assume "list_ex dsIMDS (fgDests fl)"
  then obtain d where "d \<in> set (fgDests fl)" "dsIMDS d" by (auto simp: list_ex_iff)
  then have "imds_anomaly fl d \<in> set (detectIMDS fl)" by (simp add: detectIMDS_def)
  then show "\<exists>a \<in> set (detect_log log2 opt now fl). anKind a = KindIMDS"
    using detect_IMDS_incl other_kinds(6) by blast
qed

lemma imds_exact:
  "(\<exists>a \<in> set (nrAnomalies (net_Analyze log2 c opts)). anKind a = KindIMDS)
     \<longleftrightarrow> list_ex (\<lambda>fl. list_ex dsIMDS (fgDests fl)) (BuildFlowLogs (Normalize c))"
  unfolding Analyze_anomalies bex_UN log_imds by (simp add: list_ex_iff)

lemma imds_absent:
  "filter (\<lambda>a. anKind a = KindIMDS) (nrAnomalies (net_Analyze log2 c opts)) = []
     \<longleftrightarrow> \<not> list_ex (\<lambda>fl. list_ex dsIMDS (fgDests fl)) (BuildFlowLogs (Normalize c))"
  unfolding imds_exact [symmetric, of _ log2 opts] filter_empty_conv by blast

text \<open>
  A name that resolves to a metadata address after it resolved to another one escapes: the destination keeps
  the address of its first flow. Two flows of the same instant are not ordered, so the order in which the capture
  lists them decides whether the access is reported.
\<close>

theorem imds_rebinding_missed:
  "filter (\<lambda>a. anKind a = KindIMDS) (nrAnomalies (net_Analyze log2
       (capture_of [flow_to ''web'' 1 ''cdn.test'' ''93.184.216.34'', flow_to ''web'' 2 ''cdn.test'' ''169.254.169.254'']) zero_options)) = []
   \<and> filter (\<lambda>a. anKind a = KindIMDS) (nrAnomalies (net_Analyze log2
       (capture_of [flow_to ''web'' 1 ''cdn.test'' ''93.184.216.34'', flow_to ''web'' 1 ''cdn.test'' ''169.254.169.254'']) zero_options)) = []
   \<and> filter (\<lambda>a. anKind a = KindIMDS) (nrAnomalies (net_Analyze log2
       (capture_of [flow_to ''web'' 1 ''cdn.test'' ''169.254.169.254'', flow_to ''web'' 1 ''cdn.test'' ''93.184.216.34'']) zero_options)) \<noteq> []"
  unfolding imds_absent by (intro conjI; code_simp)

text \<open>Any host whose name ends in a known model host passes for one.\<close>

theorem lookalike_model_host: "isKnownModelHost (p @ ''huggingface.co'')"
proof -
  have "strings_HasSuffix (strings_ToLower p @ ''huggingface.co'') ''huggingface.co''" by (simp add: strings_HasSuffix_def)
  moreover have "strings_ToLower ''huggingface.co'' = ''huggingface.co''" by code_simp
  ultimately show ?thesis by (simp add: isKnownModelHost_def Let_def ToLower_append knownModelHosts_def)
qed

subsection \<open>Beacons\<close>

definition metronome :: "int \<Rightarrow> int \<Rightarrow> nat \<Rightarrow> int list" where
  "metronome t p n = map (\<lambda>i. t + int i * p) [0..<Suc n]"

lemma metronome_gaps:
  assumes "0 < p" "p < 9007199254740992"
  shows "gaps_of (metronome t p n) = replicate n (Fin (of_int p))"
proof (rule nth_equalityI)
  show "length (gaps_of (metronome t p n)) = length (replicate n (Fin (of_int p)))"
    by (simp add: gaps_of_def metronome_def)
  fix i assume "i < length (gaps_of (metronome t p n))"
  then have i: "i < n" by (simp add: gaps_of_def metronome_def)
  have "metronome t p n ! Suc i - metronome t p n ! i = p" using i by (simp add: metronome_def algebra_simps del: upt_Suc)
  moreover have "wrap64 p = p" using assms by (simp add: wrap64_id)
  moreover have "float_of_int p = Fin (of_int p)" using assms by (simp add: float_of_int_exact)
  moreover have l: "length (metronome t p n) = Suc n" by (simp add: metronome_def)
  ultimately show "gaps_of (metronome t p n) ! i = replicate n (Fin (of_int p)) ! i"
    using i by (simp add: gaps_of_def nth_butlast nth_tl)
qed

lemma fold_replicate_id: "f x s = s \<Longrightarrow> fold f (replicate n x) s = s"
  by (induction n) simp_all

lemma sum_gaps:
  assumes "0 < p" "0 \<le> a" "a + int n * p < 9007199254740992"
  shows "fold (\<lambda>g s. fadd s g) (replicate n (Fin (of_int p))) (Fin (of_int a)) = Fin (of_int (a + int n * p))"
  using assms
proof (induction n arbitrary: a)
  case (Suc n)
  have le: "a + p \<le> a + int (Suc n) * p" using Suc(2) by (simp add: algebra_simps)
  have "fadd (Fin (of_int a)) (Fin (of_int p)) = Fin (of_int (a + p))"
    using round64_int [of "a + p"] Suc le by simp
  moreover have "fold (\<lambda>g s. fadd s g) (replicate n (Fin (of_int p))) (Fin (of_int (a + p))) = Fin (of_int (a + p + int n * p))"
    using Suc by (intro Suc.IH) (simp_all add: algebra_simps)
  ultimately show ?case by (simp add: algebra_simps)
qed simp

lemma metronome_stats:
  assumes "2 \<le> n" "0 < p" "int n * p < 9007199254740992"
  shows "\<exists>st. computeIntervalStats (metronome t p n) = Some st \<and> isCV st = Fin 0 \<and> isMean st = Fin (of_int p)"
proof -
  have pn: "p \<le> int n * p" "int n \<le> int n * p" using assms by simp_all
  then have p53: "p < 9007199254740992" and n53: "int n < 9007199254740992" using assms by linarith+
  let ?P = "Fin (of_int p)" and ?N = "Fin (of_int (int n))"
  have g: "gaps_of (metronome t p n) = replicate n ?P" using metronome_gaps assms p53 by blast
  have n: "float_of_int (int n) = ?N" using n53 by (simp add: float_of_int_exact)
  have s: "fold (\<lambda>g s. fadd s g) (replicate n ?P) (Fin 0) = Fin (of_int (int n * p))"
    using sum_gaps [of p 0 n] assms by simp
  have "(of_int (int n * p) :: rat) / of_int (int n) = of_int p" using assms by simp
  then have m: "fdiv (Fin (of_int (int n * p))) ?N = ?P" using round64_int [of p] p53 assms by simp
  have nz: "\<not> fle ?P (Fin 0)" using assms by (simp add: fle_def)
  have sub: "fsub ?P ?P = Fin 0" by (simp add: fsub_def)
  have sq: "fold (\<lambda>g s. let d = fsub g ?P in fadd s (fmul d d)) (replicate n ?P) (Fin 0) = Fin 0"
    by (rule fold_replicate_id) (simp add: sub Let_def)
  have dz: "fdiv (Fin 0) ?N = Fin 0" "fdiv (Fin 0) ?P = Fin 0" using assms by simp_all
  have l: "\<not> length (metronome t p n) < 3" using assms by (simp add: metronome_def)
  show ?thesis using l by (simp add: computeIntervalStats_def Let_def g n s m nz sq [unfolded Let_def] dz
        del: of_int_mult fold_replicate of_int_of_nat_eq fdiv.simps)
qed

text \<open>
  C26: A metronome is always caught: an external destination that a workload contacts often enough at exactly equal
  intervals, with a small average payload, is reported as a beacon with full confidence, whatever the
  period. The double arithmetic of the statistics is exact while the observed span is below \<open>2 ^ 53\<close>
  seconds.
\<close>

theorem steady_beacon_detected:
  assumes "d \<in> set (fgDests fl)" "\<not> dsIMDS d" "\<not> dsInternal d"
    and "dsTimestamps d = metronome t p n" "2 \<le> n" "0 < p" "int n * p < 9007199254740992"
    and "noBeaconMinSamples opt \<le> dsCount d" "avg_bytes d \<le> noBeaconMaxBytes opt" "noBeaconMaxCV opt = Fin b" "0 < b"
  shows "\<exists>a \<in> set (detectBeacon fl opt). anKind a = KindBeacon \<and> anDest a = dsHost d \<and> anScore a = Fin 1"
proof -
  obtain st where st: "computeIntervalStats (dsTimestamps d) = Some st" "isCV st = Fin 0"
    using metronome_stats [OF assms(5-7)] assms(4) by auto
  have "beacon_of fl opt d = Some (beacon_anomaly fl opt d st)"
    using assms st by (simp add: beacon_of_def)
  then have "beacon_anomaly fl opt d st \<in> set (detectBeacon fl opt)"
    using assms(1) by (force simp: detectBeacon_def map_filter_def)
  moreover have "anScore (beacon_anomaly fl opt d st) = Fin 1"
  proof -
    have f: "flit 2 1 = Fin 2" "flit 1 1 = Fin 1" "flit 1000 1 = Fin 1000" "round64 1000 = Fin 1000" "round64 1 = Fin 1"
      using round64_int [of 2] round64_int [of 1] round64_int [of 1000] by (simp_all add: flit_def)
    have "fdiv (fdiv (Fin 0) (Fin b)) (Fin 2) = Fin 0" using assms(11) by simp
    moreover have "\<lfloor>(2001 :: rat) / 2\<rfloor> = 1000" by (rule floor_unique) simp_all
    ultimately show ?thesis by (simp add: beacon_anomaly_def st assms(10) f fsub_def round3_def)
  qed
  moreover have "anKind (beacon_anomaly fl opt d st) = KindBeacon" "anDest (beacon_anomaly fl opt d st) = dsHost d"
    by (simp_all add: beacon_anomaly_def)
  ultimately show ?thesis by blast
qed

definition beacon_dest :: destStat where
  "beacon_dest =
     \<lparr> dsKey = ''c2.test:80'', dsHost = ''c2.test'', dsFQDN = ''c2.test'', dsIP = ''93.184.216.34'', dsPort = 80, dsProto = ProtoTCP,
       dsInternal = False, dsIMDS = False, dsCount = 4, dsBytesTx = 400, dsBytesRx = 400, dsFirstTS = 0, dsLastTS = 180, dsDenied = 0,
       dsTimestamps = [0, 60, 120, 180] \<rparr>"

theorem steady_beacon_detected_witness:
  "\<exists>a \<in> set (detectBeacon ((new_log \<lparr> wkID = ''web'', wkName = ''web'', wkNamespace = [], wkLabels = [], wkKind = [], wkHostNetwork = False \<rparr>)
       \<lparr> fgDests := [beacon_dest] \<rparr>) (zero_options\<lparr> noBeaconMinSamples := 4, noBeaconMaxCV := Fin (15 / 100), noBeaconMaxBytes := 4096 \<rparr>)).
     anKind a = KindBeacon \<and> anDest a = ''c2.test'' \<and> anScore a = Fin 1"
proof -
  have "dsTimestamps beacon_dest = metronome 0 60 3" by code_simp
  moreover have "avg_bytes beacon_dest \<le> 4096" by code_simp
  ultimately show ?thesis
    using steady_beacon_detected [of beacon_dest "(new_log \<lparr> wkID = ''web'', wkName = ''web'', wkNamespace = [], wkLabels = [], wkKind = [],
        wkHostNetwork = False \<rparr>)\<lparr> fgDests := [beacon_dest] \<rparr>" 0 60 3
        "zero_options\<lparr> noBeaconMinSamples := 4, noBeaconMaxCV := Fin (15 / 100), noBeaconMaxBytes := 4096 \<rparr>" "15 / 100"]
    by (simp add: beacon_dest_def)
qed

end
