(* ===== verification/NetPolicy.thy ===== *)
theory NetPolicy
  imports NetDetect
begin

text \<open>
  Least-privilege policy from observed traffic (\<^verbatim>\<open>internal/modules/netpolicy\<close>): generation
  (\<^verbatim>\<open>policygen.go\<close>), the dry run of an allowlist against a capture (\<^verbatim>\<open>dryrun.go\<close>), the difference
  of two allowlists (\<^verbatim>\<open>policydiff.go\<close>), the manifests (\<^verbatim>\<open>k8syaml.go\<close>), the findings
  (\<^verbatim>\<open>findings.go\<close>), the module (\<^verbatim>\<open>netpolicy.go\<close>) and the actions of the subcommand
  (\<^verbatim>\<open>command.go\<close>), with the JSON encoder and decoder as parameters.
\<close>

subsection \<open>Generation\<close>

record netPort =
  ptProtocol :: string
  ptPort :: int

record egressPeer =
  peCIDR :: string
  peNamespaceLabels :: "(string \<times> string) list"
  pePodLabels :: "(string \<times> string) list"
  pePorts :: "netPort list"

record networkPolicy =
  npName :: string
  npNamespace :: string
  npPodSelector :: "(string \<times> string) list"
  npEgress :: "egressPeer list"
  npDefaultDeny :: bool

record fqdnEntry =
  fqFQDN :: string
  fqPorts :: "netPort list"
  fqClass :: string
  fqRationale :: "string list"

record generatedPolicy =
  gpWorkload :: string
  gpNamespace :: string
  gpPolicy :: networkPolicy
  gpDefaultDeny :: networkPolicy
  gpFQDNAllowlist :: "fqdnEntry list"
  gpExcluded :: "fqdnEntry list"

record genOptions =
  goNamespace :: string
  goUseIntent :: bool
  goOpts :: netOptions

definition dnsPorts :: "netPort list" where
  "dnsPorts = [\<lparr> ptProtocol = ''UDP'', ptPort = 53 \<rparr>, \<lparr> ptProtocol = ''TCP'', ptPort = 53 \<rparr>]"

definition protoFor :: "string \<Rightarrow> string" where
  "protoFor p = (if p = ProtoUDP then ''UDP'' else ''TCP'')"

definition hostCIDR :: "string \<Rightarrow> string" where
  "hostCIDR ip =
     (if CHR '':'' \<in> set ip then ip @ ''/128''
      else if length (filter (\<lambda>c. c = CHR ''.'') ip) = 3 then ip @ ''/32'' else [])"

definition portKey :: "netPort \<Rightarrow> string" where
  "portKey p = ''|'' @ ptProtocol p @ ''/'' @ fmt_int (ptPort p)"

definition name_byte :: "char \<Rightarrow> string" where
  "name_byte c =
     (if (97 \<le> byte c \<and> byte c \<le> 122) \<or> isDigit c \<or> c = CHR ''-'' then [c]
      else if c \<in> {CHR ''/'', CHR ''_'', CHR ''.'', CHR '' ''} then ''-'' else [])"

definition sanitizeName :: "string \<Rightarrow> string" where
  "sanitizeName s =
     (let out = trim_both (\<lambda>c. c = CHR ''-'') (concat (map name_byte (strings_ToLower s)))
      in if out = [] then ''workload'' else out)"

definition podSelector :: "netWorkload \<Rightarrow> (string \<times> string) list" where
  "podSelector w =
     (if wkLabels w \<noteq> [] then wkLabels w else [(''app'', sanitizeName (if wkName w = [] then wkID w else wkName w))])"

definition egressPeerKey :: "egressPeer \<Rightarrow> string" where
  "egressPeerKey p =
     join_with '';'' (sort_Strings (peCIDR p # map (\<lambda>(k, v). ''ns:'' @ k @ ''='' @ v) (peNamespaceLabels p)
         @ map (\<lambda>(k, v). ''pod:'' @ k @ ''='' @ v) (pePodLabels p)))
     @ (case pePorts p of [] \<Rightarrow> [] | q # _ \<Rightarrow> portKey q)"

definition sortPolicy :: "generatedPolicy \<Rightarrow> generatedPolicy" where
  "sortPolicy gp = gp\<lparr>
     gpPolicy := (gpPolicy gp)\<lparr> npEgress := sort_stable (key_less egressPeerKey (\<lambda>a b. False)) (npEgress (gpPolicy gp)) \<rparr>,
     gpFQDNAllowlist := sort_stable (key_less fqFQDN (\<lambda>a b. False)) (gpFQDNAllowlist gp),
     gpExcluded := sort_stable (key_less fqFQDN (\<lambda>a b. False)) (gpExcluded gp) \<rparr>"

text \<open>The state of the loop over the destinations.\<close>

record genState =
  gsEgress :: "egressPeer list"
  gsFQDN :: "fqdnEntry list"
  gsExcluded :: "fqdnEntry list"
  gsSeen :: "string list"

definition dest_port :: "destStat \<Rightarrow> netPort" where
  "dest_port d = \<lparr> ptProtocol = protoFor (dsProto d), ptPort = dsPort d \<rparr>"

definition gen_allow :: "netPort \<Rightarrow> string \<Rightarrow> string list \<Rightarrow> destStat \<Rightarrow> genState \<Rightarrow> genState" where
  "gen_allow port cls reasons d s =
     (if dsFQDN d \<noteq> [] \<and> \<not> dsInternal d then
        s\<lparr> gsFQDN := gsFQDN s @ [\<lparr> fqFQDN = dsFQDN d, fqPorts = [port], fqClass = cls, fqRationale = reasons \<rparr>] \<rparr>
      else if dsIP d \<noteq> [] then
        (let cidr = hostCIDR (dsIP d); k = cidr @ portKey port in
         if cidr = [] \<or> k \<in> set (gsSeen s) then s
         else s\<lparr> gsSeen := k # gsSeen s,
                 gsEgress := gsEgress s @ [\<lparr> peCIDR = cidr, peNamespaceLabels = [], pePodLabels = [], pePorts = [port] \<rparr>] \<rparr>)
      else s)"

definition gen_dest :: "(string \<times> egressIntent) list \<Rightarrow> bool \<Rightarrow> destStat \<Rightarrow> genState \<Rightarrow> genState" where
  "gen_dest cls useIntent d s =
     (if dsIMDS d then s
      else
        (let port = dest_port d; i = (if useIntent then map_of cls (dsHost d) else None) in
         case i of
           Some e \<Rightarrow>
             if eiClass e = ClassAnomalous then
               s\<lparr> gsExcluded := gsExcluded s @ [\<lparr> fqFQDN = dsHost d, fqPorts = [port], fqClass = eiClass e, fqRationale = eiReasons e \<rparr>] \<rparr>
             else gen_allow port (eiClass e) (eiReasons e) d s
         | None \<Rightarrow> gen_allow port ''observed'' [] d s))"

definition intent_map :: "flowLog \<Rightarrow> genOptions \<Rightarrow> (string \<times> egressIntent) list" where
  "intent_map fl g = (if goUseIntent g then fold (\<lambda>i m. kv_put (eiDest i) i m) (ClassifyEgress fl (goOpts g)) [] else [])"

definition dns_peer :: egressPeer where
  "dns_peer = \<lparr> peCIDR = [], peNamespaceLabels = [(''kubernetes.io/metadata.name'', ''kube-system'')], pePodLabels = [], pePorts = dnsPorts \<rparr>"

definition gen_dests :: "flowLog \<Rightarrow> genOptions \<Rightarrow> genState" where
  "gen_dests fl g =
     fold (gen_dest (intent_map fl g) (goUseIntent g)) (fgDests fl)
       \<lparr> gsEgress = [dns_peer], gsFQDN = [], gsExcluded = [], gsSeen = [] \<rparr>"

definition gen_namespace :: "flowLog \<Rightarrow> genOptions \<Rightarrow> string" where
  "gen_namespace fl g =
     (let ns = (if goNamespace g = [] then wkNamespace (fgWorkload fl) else goNamespace g) in if ns = [] then ''default'' else ns)"

definition GeneratePolicy :: "flowLog \<Rightarrow> genOptions \<Rightarrow> generatedPolicy" where
  "GeneratePolicy fl g =
     (let ns = gen_namespace fl g; s = gen_dests fl g in
      sortPolicy \<lparr> gpWorkload = wkID (fgWorkload fl), gpNamespace = ns,
        gpPolicy = \<lparr> npName = ''allow-egress-'' @ sanitizeName (wkID (fgWorkload fl)), npNamespace = ns,
          npPodSelector = podSelector (fgWorkload fl), npEgress = gsEgress s, npDefaultDeny = False \<rparr>,
        gpDefaultDeny = \<lparr> npName = ''default-deny-egress'', npNamespace = ns, npPodSelector = [], npEgress = [], npDefaultDeny = True \<rparr>,
        gpFQDNAllowlist = gsFQDN s, gpExcluded = gsExcluded s \<rparr>)"

definition GenerateForCapture :: "capture \<Rightarrow> genOptions \<Rightarrow> generatedPolicy list" where
  "GenerateForCapture c g = map (\<lambda>fl. GeneratePolicy fl g) (filter (\<lambda>fl. fgEgress fl \<noteq> []) (BuildFlowLogs (Normalize c)))"

subsection \<open>Dry run\<close>

record net_allowlist =
  alFQDNs :: "string list"
  alCIDRs :: "string list"
  alPorts :: "int list"
  alAllowInternal :: bool
  alAllowDNS :: bool

record deniedFlow =
  dfWorkload :: string
  dfDest :: string
  dfIP :: string
  dfPort :: int
  dfCount :: int
  dfReason :: string

record dryRunResult =
  drAllowedDests :: int
  drDeniedDests :: int
  drDenied :: "deniedFlow list"

definition DecodeAllowlist :: "(bytes \<Rightarrow> string + net_allowlist) \<Rightarrow> bytes \<Rightarrow> string + net_allowlist" where
  "DecodeAllowlist decode data = (case decode data of Inl e \<Rightarrow> Inl (''decode allowlist: '' @ e) | Inr a \<Rightarrow> Inr a)"

definition AllowlistFromPolicy :: "generatedPolicy \<Rightarrow> net_allowlist" where
  "AllowlistFromPolicy gp =
     \<lparr> alFQDNs = sort_Strings (map fqFQDN (gpFQDNAllowlist gp)),
       alCIDRs = sort_Strings (filter (\<lambda>c. c \<noteq> []) (map peCIDR (npEgress (gpPolicy gp)))),
       alPorts = [], alAllowInternal = False, alAllowDNS = True \<rparr>"

definition parseCIDRs :: "string list \<Rightarrow> ipNet list" where
  "parseCIDRs cs = List.map_filter net_ParseCIDR cs"

definition portAllowed :: "int list \<Rightarrow> int \<Rightarrow> bool" where
  "portAllowed ports p \<longleftrightarrow> ports = [] \<or> p \<in> set ports"

definition entry_name :: "string \<Rightarrow> string" where
  "entry_name e = strings_ToLower (strings_TrimSuffix (strings_TrimPrefix e ''.'') ''.'')"

definition fqdnAllowed :: "string list \<Rightarrow> string \<Rightarrow> bool" where
  "fqdnAllowed entries n0 =
     (let n = strings_ToLower (strings_TrimSuffix n0 ''.'') in
      list_ex (\<lambda>entry. n = entry_name entry \<or> strings_HasSuffix n (''.'' @ entry_name entry)) entries)"

definition net_permits :: "net_allowlist \<Rightarrow> ipNet list \<Rightarrow> destStat \<Rightarrow> bool" where
  "net_permits a nets d =
     (if alAllowDNS a \<and> dsPort d = 53 then True
      else if \<not> portAllowed (alPorts a) (dsPort d) then False
      else if dsInternal d \<and> alAllowInternal a then True
      else if dsFQDN d \<noteq> [] \<and> fqdnAllowed (alFQDNs a) (dsFQDN d) then True
      else dsIP d \<noteq> [] \<and> (case net_ParseIP (dsIP d) of None \<Rightarrow> False | Some ip \<Rightarrow> list_ex (\<lambda>n. net_Contains n ip) nets))"

definition denyReason :: "net_allowlist \<Rightarrow> destStat \<Rightarrow> string" where
  "denyReason a d =
     (if dsIMDS d then ''destination is the cloud metadata endpoint (never allowlisted by policy)''
      else if \<not> portAllowed (alPorts a) (dsPort d) then ''port '' @ fmt_int (dsPort d) @ '' not in allowed ports''
      else if dsFQDN d \<noteq> [] then ''fqdn '' @ fmt_q (dsFQDN d) @ '' not on allowlist''
      else if dsInternal d then ''internal peer and allow_internal is false''
      else ''ip '' @ dsIP d @ '' not in any allowed CIDR'')"

definition denied_of :: "net_allowlist \<Rightarrow> flowLog \<Rightarrow> destStat \<Rightarrow> deniedFlow" where
  "denied_of a fl d =
     \<lparr> dfWorkload = wkID (fgWorkload fl), dfDest = dsHost d, dfIP = dsIP d, dfPort = dsPort d, dfCount = dsCount d, dfReason = denyReason a d \<rparr>"

definition all_dests :: "capture \<Rightarrow> (flowLog \<times> destStat) list" where
  "all_dests c = concat (map (\<lambda>fl. map (Pair fl) (fgDests fl)) (BuildFlowLogs (Normalize c)))"

definition dry_step :: "net_allowlist \<Rightarrow> ipNet list \<Rightarrow> flowLog \<times> destStat \<Rightarrow> dryRunResult \<Rightarrow> dryRunResult" where
  "dry_step a nets x r =
     (if net_permits a nets (snd x) then r\<lparr> drAllowedDests := drAllowedDests r + 1 \<rparr>
      else r\<lparr> drDenied := drDenied r @ [denied_of a (fst x) (snd x)] \<rparr>)"

definition DryRun :: "capture \<Rightarrow> net_allowlist \<Rightarrow> dryRunResult" where
  "DryRun c a =
     (let r = fold (dry_step a (parseCIDRs (alCIDRs a))) (all_dests c) \<lparr> drAllowedDests = 0, drDeniedDests = 0, drDenied = [] \<rparr> in
      r\<lparr> drDeniedDests := int (length (drDenied r)),
         drDenied := sort_stable (key_less dfWorkload (key_less dfDest (\<lambda>a b. False))) (drDenied r) \<rparr>)"

subsection \<open>Differences\<close>

record policyDiff =
  pdWorkload :: string
  pdAddedFQDNs :: "string list"
  pdRemovedFQDNs :: "string list"
  pdAddedCIDRs :: "string list"
  pdRemovedCIDRs :: "string list"

definition difference :: "string list \<Rightarrow> string list \<Rightarrow> string list" where
  "difference a b = sort_Strings (dedupe_by id b a)"

definition DiffAllowlists :: "net_allowlist \<Rightarrow> net_allowlist \<Rightarrow> policyDiff" where
  "DiffAllowlists cur gen =
     \<lparr> pdWorkload = [], pdAddedFQDNs = difference (alFQDNs gen) (alFQDNs cur), pdRemovedFQDNs = difference (alFQDNs cur) (alFQDNs gen),
       pdAddedCIDRs = difference (alCIDRs gen) (alCIDRs cur), pdRemovedCIDRs = difference (alCIDRs cur) (alCIDRs gen) \<rparr>"

definition diff_Empty :: "policyDiff \<Rightarrow> bool" where
  "diff_Empty d \<longleftrightarrow> length (pdAddedFQDNs d) + length (pdRemovedFQDNs d) + length (pdAddedCIDRs d) + length (pdRemovedCIDRs d) = 0"

definition newline :: string where "newline = [CHR 0x0A]"

definition writeSection :: "string \<Rightarrow> string list \<Rightarrow> string" where
  "writeSection prefix items = concat (map (\<lambda>it. prefix @ it @ newline) items)"

definition diff_Render :: "policyDiff \<Rightarrow> string" where
  "diff_Render d =
     (if diff_Empty d then ''No changes: current policy already matches the generated least-privilege baseline.'' @ newline
      else ''Proposed egress-policy change (generated vs current):'' @ newline
        @ writeSection ''  + allow fqdn '' (pdAddedFQDNs d) @ writeSection ''  - remove fqdn '' (pdRemovedFQDNs d)
        @ writeSection ''  + allow cidr '' (pdAddedCIDRs d) @ writeSection ''  - remove cidr '' (pdRemovedCIDRs d))"

subsection \<open>Matching names and addresses\<close>

lemma suffix_byte: "strings_HasSuffix s [c] \<longleftrightarrow> s \<noteq> [] \<and> last s = c"
  by (cases s rule: rev_cases) (auto simp: strings_HasSuffix_def)

lemma trim_suffix_byte: "strings_TrimSuffix s [c] = (if s \<noteq> [] \<and> last s = c then butlast s else s)"
  by (simp add: strings_TrimSuffix_def suffix_byte butlast_conv_take)

lemma trim_prefix_byte: "strings_TrimPrefix s [c] = (if s \<noteq> [] \<and> hd s = c then tl s else s)"
  by (cases s) (simp_all add: strings_TrimPrefix_def strings_HasPrefix_def)

lemma HasSuffix_self: "strings_HasSuffix (p @ s) s"
  by (simp add: strings_HasSuffix_def)

text \<open>A name on the list is allowed by it.\<close>

lemma fqdnAllowed_self:
  assumes "n \<in> set entries"
  shows "fqdnAllowed entries n"
proof -
  let ?n = "strings_ToLower (strings_TrimSuffix n ''.'')"
  have "lowerByte CHR ''.'' = CHR ''.''" by code_simp
  then have "?n = entry_name n \<or> ?n = ''.'' @ entry_name n"
    by (cases n) (auto simp: entry_name_def trim_suffix_byte trim_prefix_byte strings_ToLower_def)
  then have "?n = entry_name n \<or> strings_HasSuffix ?n (''.'' @ entry_name n)"
    using HasSuffix_self [of "[]" "''.'' @ entry_name n"] by auto
  then show ?thesis using assms unfolding fqdnAllowed_def Let_def list_ex_iff by blast
qed

lemma hostCIDR_net:
  assumes "net_ParseIP ip = Some a"
  shows "hostCIDR ip \<noteq> [] \<and> (\<exists>n. net_ParseCIDR (hostCIDR ip) = Some n \<and> net_Contains n a)"
  using host_net [OF assms] by (auto simp: hostCIDR_def split: if_splits)

lemma parseCIDRs_mem: "c \<in> set cs \<Longrightarrow> net_ParseCIDR c = Some n \<Longrightarrow> n \<in> set (parseCIDRs cs)"
  by (force simp: parseCIDRs_def map_filter_def)

subsection \<open>What the generator keeps\<close>

lemma fmt_int_chars: "c \<in> set (fmt_int n) \<Longrightarrow> isDigit c \<or> c = CHR ''-''"
  using itoa_nat_digits by (auto simp: fmt_int_def split: if_splits)

lemma portKey_bar: "CHR ''|'' \<notin> set (tl (portKey (dest_port d)))"
proof -
  have "\<not> isDigit CHR ''|''" by code_simp
  then have "CHR ''|'' \<notin> set (fmt_int (dsPort d))" using fmt_int_chars by fastforce
  then show ?thesis by (simp add: portKey_def dest_port_def protoFor_def)
qed

lemma last_bar: "c @ CHR ''|'' # x = c' @ CHR ''|'' # x' \<Longrightarrow> CHR ''|'' \<notin> set x \<Longrightarrow> CHR ''|'' \<notin> set x' \<Longrightarrow> c = c' \<and> x = x'"
  by (induction c arbitrary: c') (auto simp: Cons_eq_append_conv append_eq_Cons_conv)

lemma portKey_cons: "portKey p = CHR ''|'' # tl (portKey p)"
  by (simp add: portKey_def)

lemma seen_key:
  assumes "c @ portKey (dest_port d) = c' @ portKey (dest_port d')"
  shows "c = c' \<and> portKey (dest_port d) = portKey (dest_port d')"
proof -
  have "c @ CHR ''|'' # tl (portKey (dest_port d)) = c' @ CHR ''|'' # tl (portKey (dest_port d'))"
    using assms by (metis portKey_cons)
  from last_bar [OF this portKey_bar portKey_bar] show ?thesis by (metis portKey_cons)
qed

text \<open>
  What the loop knows of a destination it has passed: it is the metadata endpoint, or excluded, or on the
  name list with its port, or in a peer with its port, or has no address a peer could hold.
\<close>

definition peer_for :: "destStat \<Rightarrow> egressPeer \<Rightarrow> bool" where
  "peer_for d p \<longleftrightarrow> peCIDR p = hostCIDR (dsIP d) \<and> list_ex (\<lambda>q. portKey q = portKey (dest_port d)) (pePorts p)"

definition handled :: "genState \<Rightarrow> destStat \<Rightarrow> bool" where
  "handled s d \<longleftrightarrow> dsIMDS d \<or> list_ex (\<lambda>e. fqFQDN e = dsHost d) (gsExcluded s)
     \<or> (dsFQDN d \<noteq> [] \<and> \<not> dsInternal d \<and> list_ex (\<lambda>e. fqFQDN e = dsFQDN d \<and> fqPorts e = [dest_port d]) (gsFQDN s))
     \<or> ((dsFQDN d = [] \<or> dsInternal d) \<and> hostCIDR (dsIP d) \<noteq> [] \<and> list_ex (peer_for d) (gsEgress s))
     \<or> ((dsFQDN d = [] \<or> dsInternal d) \<and> (dsIP d = [] \<or> hostCIDR (dsIP d) = []))"

definition seen_ok :: "genState \<Rightarrow> bool" where
  "seen_ok s \<longleftrightarrow> (\<forall>k \<in> set (gsSeen s). \<exists>d'. \<exists>p \<in> set (gsEgress s). k = peCIDR p @ portKey (dest_port d') \<and> pePorts p = [dest_port d'])"

definition grows :: "genState \<Rightarrow> genState \<Rightarrow> bool" where
  "grows s s' \<longleftrightarrow> set (gsEgress s) \<subseteq> set (gsEgress s') \<and> set (gsFQDN s) \<subseteq> set (gsFQDN s') \<and> set (gsExcluded s) \<subseteq> set (gsExcluded s')"

lemma handled_mono: "handled s d \<Longrightarrow> grows s s' \<Longrightarrow> handled s' d"
  unfolding handled_def grows_def list_ex_iff by blast

lemma gen_dest_grows: "grows s (gen_dest cls u d s)"
  by (auto simp: gen_dest_def gen_allow_def grows_def Let_def split: option.splits)

lemma gen_allow_seen:
  assumes "seen_ok s"
  shows "seen_ok (gen_allow (dest_port d) c r d s)"
proof -
  let ?p = "\<lparr> peCIDR = hostCIDR (dsIP d), peNamespaceLabels = [], pePodLabels = [], pePorts = [dest_port d] \<rparr>"
  let ?s = "s\<lparr> gsSeen := (hostCIDR (dsIP d) @ portKey (dest_port d)) # gsSeen s, gsEgress := gsEgress s @ [?p] \<rparr>"
  have "seen_ok ?s"
    unfolding seen_ok_def
  proof
    fix k assume "k \<in> set (gsSeen ?s)"
    then consider "k = hostCIDR (dsIP d) @ portKey (dest_port d)" | "k \<in> set (gsSeen s)" by auto
    then show "\<exists>d'. \<exists>p \<in> set (gsEgress ?s). k = peCIDR p @ portKey (dest_port d') \<and> pePorts p = [dest_port d']"
    proof cases
      case 1
      then show ?thesis by (intro exI [of _ d] bexI [of _ ?p]) simp_all
    next
      case 2
      then obtain d' p where "p \<in> set (gsEgress s)" "k = peCIDR p @ portKey (dest_port d')" "pePorts p = [dest_port d']"
        using assms unfolding seen_ok_def by blast
      then show ?thesis by (intro exI [of _ d'] bexI [of _ p]) simp_all
    qed
  qed
  then show ?thesis using assms by (auto simp: gen_allow_def Let_def seen_ok_def)
qed

lemma gen_dest_seen: "seen_ok s \<Longrightarrow> seen_ok (gen_dest cls u d s)"
  using gen_allow_seen [of s d] by (auto simp: gen_dest_def Let_def seen_ok_def split: option.splits)

lemma gen_allow_handled:
  assumes "seen_ok s"
  shows "handled (gen_allow (dest_port d) c r d s) d"
proof -
  let ?k = "hostCIDR (dsIP d) @ portKey (dest_port d)"
  consider "dsFQDN d \<noteq> []" "\<not> dsInternal d" | "dsFQDN d = [] \<or> dsInternal d" "dsIP d = [] \<or> hostCIDR (dsIP d) = []"
    | "dsFQDN d = [] \<or> dsInternal d" "dsIP d \<noteq> []" "hostCIDR (dsIP d) \<noteq> []" "?k \<in> set (gsSeen s)"
    | "dsFQDN d = [] \<or> dsInternal d" "dsIP d \<noteq> []" "hostCIDR (dsIP d) \<noteq> []" "?k \<notin> set (gsSeen s)" by blast
  then show ?thesis
  proof cases
    case 1
    then show ?thesis by (simp add: gen_allow_def handled_def)
  next
    case 2
    then show ?thesis by (simp add: handled_def)
  next
    case 3
    then obtain d' p where p: "p \<in> set (gsEgress s)" "?k = peCIDR p @ portKey (dest_port d')" "pePorts p = [dest_port d']"
      using assms unfolding seen_ok_def by blast
    then have "peer_for d p" using seen_key [of "hostCIDR (dsIP d)" d "peCIDR p" d'] by (simp add: peer_for_def)
    then have "list_ex (peer_for d) (gsEgress s)" using p(1) by (auto simp: list_ex_iff)
    then show ?thesis using 3 by (auto simp: gen_allow_def handled_def Let_def)
  next
    case 4
    then show ?thesis by (auto simp: gen_allow_def handled_def Let_def peer_for_def)
  qed
qed

lemma gen_dest_handled: "seen_ok s \<Longrightarrow> handled (gen_dest cls u d s) d"
proof (cases "dsIMDS d")
  case True
  then show ?thesis by (simp add: handled_def)
next
  case False
  assume "seen_ok s"
  then show ?thesis using False gen_allow_handled
    by (auto simp: gen_dest_def Let_def split: option.split) (auto simp: handled_def)
qed

lemma gen_fold_handled:
  "seen_ok s \<Longrightarrow> seen_ok (fold (gen_dest cls u) ds s) \<and> grows s (fold (gen_dest cls u) ds s)
     \<and> (\<forall>d \<in> set ds. handled (fold (gen_dest cls u) ds s) d)"
proof (induction ds rule: rev_induct)
  case Nil
  then show ?case by (simp add: grows_def)
next
  case (snoc d ds)
  let ?s = "fold (gen_dest cls u) ds s"
  have ok: "seen_ok ?s" using snoc by blast
  have "grows s (gen_dest cls u d ?s)" using snoc gen_dest_grows [of ?s cls u d] by (auto simp: grows_def)
  moreover have "handled (gen_dest cls u d ?s) x" if "x \<in> set (ds @ [d])" for x
    using that snoc gen_dest_handled [OF ok] handled_mono [OF _ gen_dest_grows] by auto
  ultimately show ?case using gen_dest_seen [OF ok] by simp
qed

lemma gen_dests_handled: "d \<in> set (fgDests fl) \<Longrightarrow> handled (gen_dests fl g) d"
  unfolding gen_dests_def using gen_fold_handled [of "\<lparr> gsEgress = [dns_peer], gsFQDN = [], gsExcluded = [], gsSeen = [] \<rparr>"]
  by (simp add: seen_ok_def)

lemma GeneratePolicy_sets [simp]:
  "set (npEgress (gpPolicy (GeneratePolicy fl g))) = set (gsEgress (gen_dests fl g))"
  "set (gpFQDNAllowlist (GeneratePolicy fl g)) = set (gsFQDN (gen_dests fl g))"
  "set (gpExcluded (GeneratePolicy fl g)) = set (gsExcluded (gen_dests fl g))"
  by (simp_all add: GeneratePolicy_def sortPolicy_def Let_def)

text \<open>
  C23: A generated policy admits its own baseline: in the dry run its allowlist permits every observed destination
  that is not the metadata endpoint, is not reported as excluded, and has a name outside the cluster or an
  address that parses; and the policy itself has the peer or the name with the destination's port.
\<close>

theorem generated_admits_baseline:
  assumes "d \<in> set (fgDests fl)" "\<not> dsIMDS d" "\<not> list_ex (\<lambda>e. fqFQDN e = dsHost d) (gpExcluded (GeneratePolicy fl g))"
    and "(dsFQDN d \<noteq> [] \<and> \<not> dsInternal d) \<or> net_ParseIP (dsIP d) \<noteq> None"
  shows "net_permits (AllowlistFromPolicy (GeneratePolicy fl g)) (parseCIDRs (alCIDRs (AllowlistFromPolicy (GeneratePolicy fl g)))) d
    \<and> (list_ex (\<lambda>e. fqFQDN e = dsFQDN d \<and> fqPorts e = [dest_port d]) (gpFQDNAllowlist (GeneratePolicy fl g))
       \<or> list_ex (peer_for d) (npEgress (gpPolicy (GeneratePolicy fl g))))"
proof -
  let ?gp = "GeneratePolicy fl g" and ?a = "AllowlistFromPolicy (GeneratePolicy fl g)"
  have noip: "net_ParseIP [] = None" by code_simp
  have addr: "dsIP d \<noteq> [] \<and> hostCIDR (dsIP d) \<noteq> []" if "net_ParseIP (dsIP d) \<noteq> None"
    using that hostCIDR_net noip by fastforce
  have h: "handled (gen_dests fl g) d" using assms(1) by (rule gen_dests_handled)
  consider "dsFQDN d \<noteq> []" "list_ex (\<lambda>e. fqFQDN e = dsFQDN d \<and> fqPorts e = [dest_port d]) (gpFQDNAllowlist ?gp)"
    | "hostCIDR (dsIP d) \<noteq> []" "list_ex (peer_for d) (npEgress (gpPolicy ?gp))" "net_ParseIP (dsIP d) \<noteq> None"
    using h assms(2-4) addr unfolding handled_def list_ex_iff GeneratePolicy_sets by blast
  then show ?thesis
  proof cases
    case 1
    then have "fqdnAllowed (alFQDNs ?a) (dsFQDN d)" by (intro fqdnAllowed_self) (force simp: AllowlistFromPolicy_def list_ex_iff)
    then have "net_permits ?a (parseCIDRs (alCIDRs ?a)) d" using 1 by (simp add: net_permits_def AllowlistFromPolicy_def portAllowed_def)
    then show ?thesis using 1 by blast
  next
    case 2
    obtain a where a: "net_ParseIP (dsIP d) = Some a" using 2 by auto
    obtain n where n: "net_ParseCIDR (hostCIDR (dsIP d)) = Some n" "net_Contains n a" using hostCIDR_net [OF a] by blast
    have "hostCIDR (dsIP d) \<in> set (alCIDRs ?a)" using 2 by (force simp: AllowlistFromPolicy_def list_ex_iff peer_for_def)
    then have "n \<in> set (parseCIDRs (alCIDRs ?a))" using parseCIDRs_mem n(1) by blast
    then have "list_ex (\<lambda>n. net_Contains n a) (parseCIDRs (alCIDRs ?a))" using n(2) by (auto simp: list_ex_iff)
    moreover have "dsIP d \<noteq> []" using a noip by auto
    ultimately have "net_permits ?a (parseCIDRs (alCIDRs ?a)) d" using a by (simp add: net_permits_def AllowlistFromPolicy_def portAllowed_def)
    then show ?thesis using 2 by blast
  qed
qed

definition dest_at :: "string \<Rightarrow> string \<Rightarrow> int \<Rightarrow> int \<Rightarrow> destStat" where
  "dest_at name ip port n =
     \<lparr> dsKey = (if name = [] then ip else name) @ '':'' @ fmt_int port, dsHost = (if name = [] then ip else name), dsFQDN = name, dsIP = ip,
       dsPort = port, dsProto = ProtoTCP, dsInternal = IsInternal ip, dsIMDS = IsIMDS ip, dsCount = n, dsBytesTx = 100, dsBytesRx = 100,
       dsFirstTS = 0, dsLastTS = 9, dsDenied = 0, dsTimestamps = [] \<rparr>"

definition log_to :: "destStat list \<Rightarrow> flowLog" where
  "log_to ds = (new_log \<lparr> wkID = ''web'', wkName = ''web'', wkNamespace = [], wkLabels = [], wkKind = [], wkHostNetwork = False \<rparr>)\<lparr> fgDests := ds \<rparr>"

definition gen_plain :: "bool \<Rightarrow> genOptions" where
  "gen_plain u = \<lparr> goNamespace = [], goUseIntent = u, goOpts = zero_options \<rparr>"

theorem generated_admits_baseline_witness:
  "net_permits (AllowlistFromPolicy (GeneratePolicy (log_to [dest_at [] ''fd00::1'' 80 1]) (gen_plain False)))
      (parseCIDRs (alCIDRs (AllowlistFromPolicy (GeneratePolicy (log_to [dest_at [] ''fd00::1'' 80 1]) (gen_plain False))))) (dest_at [] ''fd00::1'' 80 1)
    \<and> list_ex (peer_for (dest_at [] ''fd00::1'' 80 1)) (npEgress (gpPolicy (GeneratePolicy (log_to [dest_at [] ''fd00::1'' 80 1]) (gen_plain False))))"
proof -
  let ?d = "dest_at [] ''fd00::1'' 80 1" and ?fl = "log_to [dest_at [] ''fd00::1'' 80 1]"
  have m: "?d \<in> set (fgDests ?fl)" by (simp add: log_to_def)
  have i: "\<not> dsIMDS ?d" by code_simp
  have p: "net_ParseIP (dsIP ?d) \<noteq> None" by code_simp
  have x: "gsExcluded (gen_dests ?fl (gen_plain False)) = []" by code_simp
  then have e: "\<not> list_ex (\<lambda>e. fqFQDN e = dsHost ?d) (gpExcluded (GeneratePolicy ?fl (gen_plain False)))" by (simp add: list_ex_iff)
  have f: "gsFQDN (gen_dests ?fl (gen_plain False)) = []" by code_simp
  then have n: "\<not> list_ex (\<lambda>e. fqFQDN e = dsFQDN ?d \<and> fqPorts e = [dest_port ?d]) (gpFQDNAllowlist (GeneratePolicy ?fl (gen_plain False)))"
    by (simp add: list_ex_iff)
  show ?thesis using generated_admits_baseline [OF m i e disjI2, OF p] n by blast
qed

subsection \<open>Least privilege\<close>

definition peer_observed :: "flowLog \<Rightarrow> egressPeer \<Rightarrow> bool" where
  "peer_observed fl p \<longleftrightarrow> p = dns_peer
     \<or> list_ex (\<lambda>d. \<not> dsIMDS d \<and> dsIP d \<noteq> [] \<and> peCIDR p = hostCIDR (dsIP d) \<and> pePorts p = [dest_port d]) (fgDests fl)"

definition name_observed :: "flowLog \<Rightarrow> fqdnEntry \<Rightarrow> bool" where
  "name_observed fl e \<longleftrightarrow>
     list_ex (\<lambda>d. \<not> dsIMDS d \<and> \<not> dsInternal d \<and> dsFQDN d \<noteq> [] \<and> fqFQDN e = dsFQDN d \<and> fqPorts e = [dest_port d]) (fgDests fl)"

lemma gen_dest_observed:
  assumes "d \<in> set (fgDests fl)" "\<forall>p \<in> set (gsEgress s). peer_observed fl p" "\<forall>e \<in> set (gsFQDN s). name_observed fl e"
  shows "(\<forall>p \<in> set (gsEgress (gen_dest cls u d s)). peer_observed fl p) \<and> (\<forall>e \<in> set (gsFQDN (gen_dest cls u d s)). name_observed fl e)"
proof (cases "dsIMDS d")
  case True
  then show ?thesis using assms by (simp add: gen_dest_def)
next
  case False
  have "(\<forall>p \<in> set (gsEgress (gen_allow (dest_port d) c r d s)). peer_observed fl p)
      \<and> (\<forall>e \<in> set (gsFQDN (gen_allow (dest_port d) c r d s)). name_observed fl e)" for c r
    using assms False by (auto simp: gen_allow_def Let_def peer_observed_def name_observed_def list_ex_iff)
  then show ?thesis using assms False by (auto simp: gen_dest_def Let_def split: option.split)
qed

lemma gen_fold_observed:
  "set ds \<subseteq> set (fgDests fl) \<Longrightarrow> \<forall>p \<in> set (gsEgress s). peer_observed fl p \<Longrightarrow> \<forall>e \<in> set (gsFQDN s). name_observed fl e
    \<Longrightarrow> (\<forall>p \<in> set (gsEgress (fold (gen_dest cls u) ds s)). peer_observed fl p)
      \<and> (\<forall>e \<in> set (gsFQDN (fold (gen_dest cls u) ds s)). name_observed fl e)"
proof (induction ds arbitrary: s)
  case (Cons d ds)
  have ob: "(\<forall>p \<in> set (gsEgress (gen_dest cls u d s)). peer_observed fl p) \<and> (\<forall>e \<in> set (gsFQDN (gen_dest cls u d s)). name_observed fl e)"
    using Cons.prems by (intro gen_dest_observed) simp_all
  show ?case using Cons.IH [of "gen_dest cls u d s"] Cons.prems(1) ob by simp
qed simp

text \<open>
  C24: The policy allows nothing that was not observed: apart from DNS every peer is the host network of an
  observed destination with the port it was seen on, every name was observed with its port, and neither comes
  from the metadata endpoint; no rule admits a destination by labels alone but DNS.
\<close>

theorem generated_least_privilege:
  "list_all (peer_observed fl) (npEgress (gpPolicy (GeneratePolicy fl g))) \<and> list_all (name_observed fl) (gpFQDNAllowlist (GeneratePolicy fl g))
   \<and> npEgress (gpDefaultDeny (GeneratePolicy fl g)) = [] \<and> npPodSelector (gpDefaultDeny (GeneratePolicy fl g)) = []"
proof -
  have "peer_observed fl dns_peer" by (simp add: peer_observed_def)
  then have "(\<forall>p \<in> set (gsEgress (gen_dests fl g)). peer_observed fl p) \<and> (\<forall>e \<in> set (gsFQDN (gen_dests fl g)). name_observed fl e)"
    unfolding gen_dests_def by (intro gen_fold_observed) simp_all
  then show ?thesis by (simp add: list_all_iff) (simp add: GeneratePolicy_def sortPolicy_def Let_def)
qed

subsection \<open>Where the dry run and the policy part\<close>

definition wide_log :: flowLog where
  "wide_log = log_to [dest_at [] ''93.184.216.34'' 80 3, dest_at ''cdn.test'' ''93.184.216.35'' 80 3]"

lemma wide_allowlist:
  "AllowlistFromPolicy (GeneratePolicy wide_log (gen_plain False))
     = \<lparr> alFQDNs = [''cdn.test''], alCIDRs = [''93.184.216.34/32''], alPorts = [], alAllowInternal = False, alAllowDNS = True \<rparr>"
  by code_simp

text \<open>
  The dry run of a generated policy is wider than the policy: the allowlist has lost the ports, so a
  destination on a port the policy closes passes, and with names it even admits the metadata endpoint.
\<close>

theorem dry_run_wider:
  "let a = AllowlistFromPolicy (GeneratePolicy wide_log (gen_plain False)) in
   net_permits a (parseCIDRs (alCIDRs a)) (dest_at [] ''93.184.216.34'' 22 1)
   \<and> \<not> list_ex (peer_for (dest_at [] ''93.184.216.34'' 22 1)) (npEgress (gpPolicy (GeneratePolicy wide_log (gen_plain False))))
   \<and> net_permits a (parseCIDRs (alCIDRs a)) (dest_at ''cdn.test'' ''169.254.169.254'' 80 1)
   \<and> dsIMDS (dest_at ''cdn.test'' ''169.254.169.254'' 80 1)"
  unfolding Let_def wide_allowlist by (intro conjI; code_simp)

definition ssh_dest :: destStat where "ssh_dest = dest_at ''cdn.test'' ''93.184.216.34'' 22 1"
definition web_dest :: destStat where "web_dest = dest_at ''cdn.test'' ''93.184.216.34'' 80 3"

lemma cdn_external: "ExternalDests (log_to [ssh_dest, web_dest]) = [ssh_dest, web_dest]" "filter (\<lambda>d. \<not> dsIMDS d) [ssh_dest, web_dest] = [ssh_dest, web_dest]"
  by code_simp+

lemma cdn_intents:
  "eiClass (intent_of (withDefaults zero_options) ssh_dest) = ClassAnomalous" "eiClass (intent_of (withDefaults zero_options) web_dest) = ClassIntended"
  "eiDest (intent_of (withDefaults zero_options) ssh_dest) = ''cdn.test''" "eiDest (intent_of (withDefaults zero_options) web_dest) = ''cdn.test''"
  by (simp_all add: intent_of_def base_intent_def Let_def ssh_dest_def web_dest_def dest_at_def isHighRiskPort_def withDefaults_def zero_options_def
      if_zero_def)

lemma cdn_classes:
  "ClassifyEgress (log_to [ssh_dest, web_dest]) zero_options
     = [intent_of (withDefaults zero_options) ssh_dest, intent_of (withDefaults zero_options) web_dest]"
  unfolding ClassifyEgress_def cdn_external by (simp add: key_less_def cdn_intents)

lemma cdn_gen:
  "gsExcluded (gen_dests (log_to [ssh_dest, web_dest]) (gen_plain True)) = []
   \<and> map fqPorts (gsFQDN (gen_dests (log_to [ssh_dest, web_dest]) (gen_plain True))) = [[dest_port ssh_dest], [dest_port web_dest]]"
proof -
  have n: "dsHost ssh_dest = ''cdn.test''" "dsHost web_dest = ''cdn.test''" "dsFQDN ssh_dest \<noteq> []" "dsFQDN web_dest \<noteq> []"
    "\<not> dsInternal ssh_dest" "\<not> dsInternal web_dest" "\<not> dsIMDS ssh_dest" "\<not> dsIMDS web_dest" by code_simp+
  have i: "intent_map (log_to [ssh_dest, web_dest]) (gen_plain True) = [(''cdn.test'', intent_of (withDefaults zero_options) web_dest)]"
    by (simp add: intent_map_def gen_plain_def cdn_classes cdn_intents)
  have ne: "ClassIntended \<noteq> ClassAnomalous" by code_simp
  have f: "fgDests (log_to [ssh_dest, web_dest]) = [ssh_dest, web_dest]" by (simp add: log_to_def)
  show ?thesis by (simp add: gen_dests_def i f gen_dest_def gen_allow_def Let_def n cdn_intents ne)
qed

text \<open>
  The intent of a host is the one of its last port: the port that the classification calls anomalous is then
  allowed, and nothing is reported as excluded.
\<close>

theorem intent_last_port:
  "map eiClass (ClassifyEgress (log_to [ssh_dest, web_dest]) zero_options) = [ClassAnomalous, ClassIntended]
   \<and> gpExcluded (GeneratePolicy (log_to [ssh_dest, web_dest]) (gen_plain True)) = []
   \<and> list_ex (\<lambda>e. fqPorts e = [dest_port ssh_dest]) (gpFQDNAllowlist (GeneratePolicy (log_to [ssh_dest, web_dest]) (gen_plain True)))"
proof (intro conjI)
  show "map eiClass (ClassifyEgress (log_to [ssh_dest, web_dest]) zero_options) = [ClassAnomalous, ClassIntended]"
    by (simp add: cdn_classes cdn_intents)
  have "set (gpExcluded (GeneratePolicy (log_to [ssh_dest, web_dest]) (gen_plain True))) = {}" using cdn_gen by simp
  then show "gpExcluded (GeneratePolicy (log_to [ssh_dest, web_dest]) (gen_plain True)) = []" by (simp only: set_empty)
  have "[dest_port ssh_dest] \<in> set (map fqPorts (gsFQDN (gen_dests (log_to [ssh_dest, web_dest]) (gen_plain True))))"
    using cdn_gen by simp
  then show "list_ex (\<lambda>e. fqPorts e = [dest_port ssh_dest]) (gpFQDNAllowlist (GeneratePolicy (log_to [ssh_dest, web_dest]) (gen_plain True)))"
    by (auto simp: list_ex_iff)
qed

subsection \<open>The dry run\<close>

lemma dry_fold:
  "drAllowedDests (fold (dry_step a nets) xs r) = drAllowedDests r + int (length (filter (\<lambda>x. net_permits a nets (snd x)) xs))"
  "drDenied (fold (dry_step a nets) xs r) = drDenied r @ map (\<lambda>x. denied_of a (fst x) (snd x)) (filter (\<lambda>x. \<not> net_permits a nets (snd x)) xs)"
  by (induction xs arbitrary: r) (auto simp: dry_step_def)

text \<open>
  The dry run accounts for every destination of the capture: it counts the permitted ones, reports each of the
  others exactly once, and the two counts add up.
\<close>

theorem dry_run_accounts:
  "mset (drDenied (DryRun c a))
     = mset (map (\<lambda>x. denied_of a (fst x) (snd x)) (filter (\<lambda>x. \<not> net_permits a (parseCIDRs (alCIDRs a)) (snd x)) (all_dests c)))
   \<and> drAllowedDests (DryRun c a) + drDeniedDests (DryRun c a) = int (length (all_dests c))
   \<and> drDeniedDests (DryRun c a) = int (length (drDenied (DryRun c a)))"
proof -
  have l: "length (filter P xs) + length (filter (\<lambda>x. \<not> P x) xs) = length xs" for P and xs :: "(flowLog \<times> destStat) list"
    by (induction xs) auto
  show ?thesis
    using l [of "\<lambda>x. net_permits a (parseCIDRs (alCIDRs a)) (snd x)" "all_dests c"] by (simp add: DryRun_def Let_def dry_fold)
qed

subsection \<open>The difference\<close>

lemma set_difference [simp]: "set (difference a b) = set a - set b"
  by (simp add: difference_def dedupe_by_id)

text \<open>
  The difference leads from the current names and networks to the generated ones, adds only what is missing and
  removes only what is there; it is empty exactly when both agree as sets.
\<close>

theorem diff_leads_there:
  "set (alFQDNs cur) - set (pdRemovedFQDNs (DiffAllowlists cur gen)) \<union> set (pdAddedFQDNs (DiffAllowlists cur gen)) = set (alFQDNs gen)
   \<and> set (alCIDRs cur) - set (pdRemovedCIDRs (DiffAllowlists cur gen)) \<union> set (pdAddedCIDRs (DiffAllowlists cur gen)) = set (alCIDRs gen)
   \<and> set (pdAddedFQDNs (DiffAllowlists cur gen)) \<inter> set (alFQDNs cur) = {} \<and> set (pdRemovedFQDNs (DiffAllowlists cur gen)) \<subseteq> set (alFQDNs cur)
   \<and> (diff_Empty (DiffAllowlists cur gen) \<longleftrightarrow> set (alFQDNs cur) = set (alFQDNs gen) \<and> set (alCIDRs cur) = set (alCIDRs gen))"
proof -
  have e: "difference x y = [] \<longleftrightarrow> set x \<subseteq> set y" for x y
    using set_difference [of x y] by (metis Diff_eq_empty_iff set_empty)
  show ?thesis by (simp add: DiffAllowlists_def diff_Empty_def e) blast
qed

text \<open>A current policy that lets all internal traffic through passes for the generated one.\<close>

theorem diff_ignores_internal:
  "diff_Empty (DiffAllowlists (a\<lparr> alAllowInternal := True \<rparr>) a)"
proof -
  have "difference x x = []" for x using set_difference [of x x] by (simp only: Diff_cancel set_empty)
  then show ?thesis by (simp add: DiffAllowlists_def diff_Empty_def)
qed

end
