(* ===== verification/NetModule.thy ===== *)
theory NetModule
  imports NetPolicy
begin

text \<open>
  What \<^verbatim>\<open>internal/modules/netpolicy\<close> shows its user: the manifests (\<^verbatim>\<open>k8syaml.go\<close>), the findings
  (\<^verbatim>\<open>findings.go\<close>), the module with its options (\<^verbatim>\<open>netpolicy.go\<close>) and the actions of the
  subcommand (\<^verbatim>\<open>command.go\<close>), each as the text it prints to the two outputs and its exit code. The
  parsing of the command line and the JSON encoder are parameters.
\<close>

subsection \<open>Manifests\<close>

definition yaml_line :: "nat \<Rightarrow> string \<Rightarrow> string" where
  "yaml_line indent s = concat (replicate indent ''  '') @ s @ newline"

definition yaml_special :: string where
  "yaml_special = '':{}[],&*#?|<>=!%@'' @ [CHR 0x60, CHR 0x22, CHR 0x27, CHR 0x0A]"

definition yaml_escape :: "string \<Rightarrow> string" where
  "yaml_escape s = concat (map (\<lambda>c. if c = CHR 0x22 then [CHR 0x5C, CHR 0x22] else [c]) s)"

definition yamlScalar :: "string \<Rightarrow> string" where
  "yamlScalar s =
     (if s = [] then [CHR 0x22, CHR 0x22]
      else if list_ex (\<lambda>c. c \<in> set yaml_special) s \<or> strings_HasPrefix s '' '' \<or> strings_HasSuffix s '' ''
        then [CHR 0x22] @ yaml_escape s @ [CHR 0x22]
      else s)"

function itoa_digits :: "int \<Rightarrow> string" where
  "itoa_digits n = (if n > 0 then itoa_digits (n div 10) @ [char_of (48 + nat (n mod 10))] else [])"
  by auto
termination by (relation "measure nat") auto

declare itoa_digits.simps [simp del]

definition itoa :: "int \<Rightarrow> string" where
  "itoa n =
     (if n = 0 then ''0''
      else (let m = (if n < 0 then wrap64 (- n) else n) in (if n < 0 then ''-'' else []) @ itoa_digits m))"

definition render_labels :: "nat \<Rightarrow> (string \<times> string) list \<Rightarrow> string" where
  "render_labels indent labels =
     concat (map (\<lambda>k. yaml_line indent (yamlScalar k @ '': '' @ yamlScalar (kv_str labels k))) (sort_Strings (map fst labels)))"

definition renderSelector :: "nat \<Rightarrow> string \<Rightarrow> (string \<times> string) list \<Rightarrow> string" where
  "renderSelector indent field labels =
     (if labels = [] then yaml_line indent (field @ '': {}'')
      else yaml_line indent (field @ '':'') @ yaml_line (indent + 1) ''matchLabels:'' @ render_labels (indent + 2) labels)"

definition render_ports :: "nat \<Rightarrow> netPort list \<Rightarrow> string" where
  "render_ports indent ports =
     concat (map (\<lambda>p. yaml_line indent (''- protocol: '' @ ptProtocol p) @ yaml_line (indent + 1) (''port: '' @ itoa (ptPort p))) ports)"

definition renderEgressPeer :: "egressPeer \<Rightarrow> string" where
  "renderEgressPeer p =
     yaml_line 2 ''- to:''
     @ (if peCIDR p \<noteq> [] then yaml_line 4 ''- ipBlock:'' @ yaml_line 6 (''cidr: '' @ yamlScalar (peCIDR p))
        else if peNamespaceLabels p \<noteq> [] \<or> pePodLabels p \<noteq> [] then
          yaml_line 4 ''- namespaceSelector:''
          @ (if peNamespaceLabels p \<noteq> [] then yaml_line 6 ''matchLabels:'' @ render_labels 7 (peNamespaceLabels p)
             else yaml_line 6 ''matchLabels: {}'')
          @ (if pePodLabels p \<noteq> [] then yaml_line 5 ''podSelector:'' @ yaml_line 6 ''matchLabels:'' @ render_labels 7 (pePodLabels p) else [])
        else [])
     @ (if pePorts p \<noteq> [] then yaml_line 3 ''ports:'' @ render_ports 4 (pePorts p) else [])"

definition RenderNetworkPolicy :: "networkPolicy \<Rightarrow> string" where
  "RenderNetworkPolicy p =
     yaml_line 0 ''apiVersion: networking.k8s.io/v1'' @ yaml_line 0 ''kind: NetworkPolicy'' @ yaml_line 0 ''metadata:''
     @ yaml_line 1 (''name: '' @ yamlScalar (npName p)) @ yaml_line 1 (''namespace: '' @ yamlScalar (npNamespace p))
     @ yaml_line 0 ''spec:'' @ renderSelector 1 ''podSelector'' (npPodSelector p)
     @ yaml_line 1 ''policyTypes:'' @ yaml_line 2 ''- Egress''
     @ (if npDefaultDeny p \<or> npEgress p = [] then yaml_line 1 ''# no egress rules: this denies all egress for the selected pods''
        else yaml_line 1 ''egress:'' @ concat (map renderEgressPeer (npEgress p)))"

definition renderFQDNEntry :: "fqdnEntry \<Rightarrow> string" where
  "renderFQDNEntry e =
     yaml_line 1 (''- fqdn: '' @ yamlScalar (fqFQDN e))
     @ (if fqClass e \<noteq> [] then yaml_line 2 (''class: '' @ yamlScalar (fqClass e)) else [])
     @ (if fqPorts e \<noteq> [] then yaml_line 2 ''ports:'' @ render_ports 3 (fqPorts e) else [])
     @ concat (map (\<lambda>r. yaml_line 2 (''# '' @ r)) (fqRationale e))"

definition RenderFQDNAllowlist :: "generatedPolicy \<Rightarrow> string" where
  "RenderFQDNAllowlist gp =
     yaml_line 0 ''# Advisory DNS/FQDN egress allowlist (generated from observed traffic).''
     @ yaml_line 0 ''# Apply with an FQDN-aware policy engine (Cilium toFQDNs / Calico DNS policy).''
     @ yaml_line 0 ''kind: FQDNEgressAllowlist'' @ yaml_line 0 (''workload: '' @ yamlScalar (gpWorkload gp))
     @ yaml_line 0 (''namespace: '' @ yamlScalar (gpNamespace gp))
     @ (if gpFQDNAllowlist gp = [] then yaml_line 0 ''allow: []''
        else yaml_line 0 ''allow:'' @ concat (map renderFQDNEntry (gpFQDNAllowlist gp)))
     @ (if gpExcluded gp \<noteq> [] then
          yaml_line 0 (''# excluded (classified anomalous by intent modelling '' @ emdash @ '' review before allowing):'')
          @ concat (map (\<lambda>e. yaml_line 0 (''#   - '' @ fqFQDN e @ ''  ('' @ join_with ''; '' (fqRationale e) @ '')'')) (gpExcluded gp))
        else [])"

subsection \<open>Findings\<close>

definition net_moduleName :: string where "net_moduleName = ''netpolicy''"

definition kindRules :: "(string \<times> string \<times> string list) list" where
  "kindRules =
     [(KindIMDS, ''DS-RAT-NET-010'', [''https://attack.mitre.org/techniques/T1552/005/'',
         ''https://nvlpubs.nist.gov/nistpubs/specialpublications/nist.sp.800-190.pdf'']),
      (KindBeacon, ''DS-RAT-NET-011'', [''https://attack.mitre.org/techniques/T1071/'', ''https://attack.mitre.org/techniques/T1571/'']),
      (KindExfil, ''DS-RAT-NET-012'', [''https://attack.mitre.org/techniques/T1041/'', ''https://attack.mitre.org/techniques/T1567/'']),
      (KindLowAndSlow, ''DS-RAT-NET-013'', [''https://attack.mitre.org/techniques/T1030/'']),
      (KindLateral, ''DS-RAT-NET-014'', [''https://attack.mitre.org/tactics/TA0008/'', ''https://attack.mitre.org/techniques/T1021/'']),
      (KindDNSTunnel, ''DS-RAT-NET-015'', [''https://attack.mitre.org/techniques/T1071/004/'', ''https://attack.mitre.org/techniques/T1048/003/'']),
      (KindDGA, ''DS-RAT-NET-016'', [''https://attack.mitre.org/techniques/T1568/002/'']),
      (KindAgentEgress, ''DS-RAT-NET-020'', [''https://attack.mitre.org/techniques/T1567/'',
         ''https://owasp.org/www-project-top-10-for-large-language-model-applications/'']),
      (KindAnomalousEg, ''DS-RAT-NET-021'', [''https://attack.mitre.org/tactics/TA0010/'']),
      (KindBlockedEg, ''DS-RAT-NET-030'', [''https://kubernetes.io/docs/concepts/services-networking/network-policies/'']),
      (KindHostNetwork, ''DS-RAT-NET-002'', [''https://attack.mitre.org/techniques/T1610/'',
         ''https://kubernetes.io/docs/concepts/security/pod-security-standards/'']),
      (KindFreeForAll, ''DS-RAT-NET-003'', [''https://kubernetes.io/docs/concepts/services-networking/network-policies/''])]"

definition remediationFor :: "string \<Rightarrow> string \<Rightarrow> string" where
  "remediationFor kind w =
     (if kind = KindIMDS then ''Block egress to 169.254.169.254 for this workload and enforce IMDSv2 (hop-limit 1). Generate the deny with: dsecrat net <capture> --gen deny --workload '' @ w
      else if kind \<in> {KindBeacon, KindExfil, KindLowAndSlow, KindDNSTunnel, KindDGA} then
        ''Confirm the destination is legitimate; if not, isolate the workload and restrict egress to the generated least-privilege allowlist: dsecrat net <capture> --gen fqdn --workload '' @ w
      else if kind = KindLateral then
        ''Apply identity/label-based east-west segmentation so this workload can only reach its known dependencies. Generate a NetworkPolicy: dsecrat net <capture> --gen policy --workload '' @ w
      else if kind = KindAgentEgress then
        ''Add the destination to the agent'' @ [CHR 0x27] @ ''s approved model/tool allowlist only after review; otherwise deny it. This is a potential data-exfiltration-via-model channel.''
      else if kind = KindHostNetwork then
        ''Remove hostNetwork:true unless strictly required; host-networked pods bypass NetworkPolicy and cannot be egress-contained.''
      else ''Review the flow against the workload'' @ [CHR 0x27] @ ''s intended egress baseline and add an explicit allow or deny rule.'')"

definition anomalyToFinding :: "anomaly \<Rightarrow> finding" where
  "anomalyToFinding a =
     (let (rid, refs) = (case map_of kindRules (anKind a) of None \<Rightarrow> (''DS-RAT-NET-099'', []) | Some m \<Rightarrow> m);
          ev = fold (\<lambda>(k, v) m. kv_put k v m) (anEvidence a)
            [(''kind'', anKind a), (''score'', fmt_f 3 (anScore a)), (''workload'', anWorkload a)]
      in \<lparr> fRuleID = rid, fModule = net_moduleName, fSeverity = anSeverity a, fTitle = anTitle a, fDescription = anDetail a,
           fResource = (if anDest a \<noteq> [] then anWorkload a @ '' '' @ arrow @ '' '' @ anDest a else anWorkload a), fLocation = None,
           fRemediation = remediationFor (anKind a) (anWorkload a), fReferences = refs, fMetadata = ev \<rparr>)"

definition policyModeOrNone :: "string \<Rightarrow> string" where
  "policyModeOrNone m = (if strings_TrimSpace m = [] then ''none'' else m)"

definition enforcingEgress :: "string \<Rightarrow> bool" where
  "enforcingEgress m \<longleftrightarrow> EqualFold (strings_TrimSpace m) ''enforce''"

definition hasEgress :: "capture \<Rightarrow> bool" where
  "hasEgress c = list_ex (\<lambda>f. flDirection f \<noteq> Ingress) (cpFlows c)"

definition eastWestPeers :: "netReport \<Rightarrow> string list" where
  "eastWestPeers r = sort_Strings (map (\<lambda>fl. wkID (fgWorkload fl)) (filter (\<lambda>fl. east_west fl \<noteq> []) (nrLogs r)))"

definition count_flows :: "(flow \<Rightarrow> bool) \<Rightarrow> capture \<Rightarrow> string" where
  "count_flows P c = fmt_int (int (length (filter P (cpFlows c))))"

definition sum_flows :: "(flow \<Rightarrow> int) \<Rightarrow> capture \<Rightarrow> string" where
  "sum_flows b c = fmt_int (fold (\<lambda>f s. wrap64 (s + b f)) (cpFlows c) 0)"

definition k8s_netpol_ref :: string where
  "k8s_netpol_ref = ''https://kubernetes.io/docs/concepts/services-networking/network-policies/''"

definition summaryFinding :: "capture \<Rightarrow> netReport \<Rightarrow> finding" where
  "summaryFinding c r =
     (let dests = set_puts (map (\<lambda>f. epFQDN (flDst f) @ ''|'' @ epIP (flDst f)) (filter (\<lambda>f. flDirection f \<noteq> Ingress) (cpFlows c))) [];
          nw = fmt_int (int (length (cpWorkloads c))); nf = fmt_int (int (length (cpFlows c))); na = fmt_int (int (length (nrAnomalies r)));
          deny = count_flows (\<lambda>f. flVerdict f = VerdictDeny) c
      in \<lparr> fRuleID = ''DS-RAT-NET-000'', fModule = net_moduleName, fSeverity = SeverityInfo,
           fTitle = ''Network capture analysed: '' @ nw @ '' workload(s), '' @ nf @ '' flow(s), '' @ na @ '' anomaly(ies)'',
           fDescription = ''policy_mode='' @ policyModeOrNone (cpPolicyMode c) @ '' egress='' @ count_flows (\<lambda>f. flDirection f \<noteq> Ingress) c
             @ '' ingress='' @ count_flows (\<lambda>f. flDirection f = Ingress) c @ '' distinct_egress_dests='' @ fmt_int (int (length dests))
             @ '' verdict_allow='' @ count_flows (\<lambda>f. flVerdict f = VerdictAllow) c @ '' verdict_deny='' @ deny
             @ '' bytes_tx='' @ sum_flows flBytesTx c @ '' bytes_rx='' @ sum_flows flBytesRx c,
           fResource = ''network'', fLocation = None, fRemediation = [], fReferences = [k8s_netpol_ref],
           fMetadata = [(''workloads'', nw), (''flows'', nf), (''anomalies'', na), (''policy_mode'', policyModeOrNone (cpPolicyMode c)),
             (''verdict_deny'', deny)] \<rparr>)"

definition deny_finding :: "capture \<Rightarrow> finding" where
  "deny_finding c =
     \<lparr> fRuleID = ''DS-RAT-NET-001'', fModule = net_moduleName, fSeverity = SeverityMedium, fTitle = ''No default-deny egress policy in effect'',
       fDescription = ''The capture ran with policy_mode='' @ fmt_q (policyModeOrNone (cpPolicyMode c))
         @ '' while workloads made outbound connections. Without a default-deny egress baseline, a compromised workload can reach any destination (C2, exfil, IMDS).'',
       fResource = ''cluster/egress'', fLocation = None,
       fRemediation = ''Apply a namespace-wide default-deny egress NetworkPolicy, then allow only observed destinations. Generate both with: dsecrat net <capture> --gen deny  and  dsecrat net <capture> --gen policy'',
       fReferences = [k8s_netpol_ref @ ''#default-deny-all-egress-traffic'', ''https://nvlpubs.nist.gov/nistpubs/specialpublications/nist.sp.800-190.pdf''],
       fMetadata = [(''policy_mode'', policyModeOrNone (cpPolicyMode c))] \<rparr>"

definition eastwest_finding :: "string list \<Rightarrow> finding" where
  "eastwest_finding peers =
     \<lparr> fRuleID = ''DS-RAT-NET-003'', fModule = net_moduleName, fSeverity = SeverityLow, fTitle = ''Unrestricted inter-container (east-west) traffic'',
       fDescription = fmt_int (int (length peers)) @ '' workloads make internal peer-to-peer connections with no segmentation policy in effect. Flat east-west networking lets one compromised container pivot freely (CIS Docker: --icc=false; K8s: default-deny + explicit allows).'',
       fResource = ''cluster/east-west'', fLocation = None,
       fRemediation = ''Disable free inter-container communication and apply identity/label-based segmentation so each workload reaches only its declared dependencies.'',
       fReferences = [k8s_netpol_ref], fMetadata = [(''east_west_workloads'', join_with '','' peers)] \<rparr>"

definition postureFindings :: "capture \<Rightarrow> netReport \<Rightarrow> finding list" where
  "postureFindings c r =
     sort_stable (key_less fRuleID (\<lambda>a b. False))
       ((if \<not> enforcingEgress (cpPolicyMode c) \<and> hasEgress c then [deny_finding c] else [])
        @ (if \<not> enforcingEgress (cpPolicyMode c) \<and> length (eastWestPeers r) \<ge> 2 then [eastwest_finding (eastWestPeers r)] else []))"

subsection \<open>The module\<close>

record netTarget =
  ntType :: string
  ntLocation :: string
  ntContent :: bytes
  ntMetadata :: "(string \<times> string) list"

definition net_Supports :: "string \<Rightarrow> bool" where
  "net_Supports t \<longleftrightarrow> t = ''filesystem''"

definition net_isTrue :: "string \<Rightarrow> bool" where
  "net_isTrue s \<longleftrightarrow> strings_ToLower (strings_TrimSpace s) \<in> {''1'', ''true'', ''yes'', ''on''}"

text \<open>\<^verbatim>\<open>strconv.ParseInt(s, 10, 64)\<close>.\<close>

definition parse_int64 :: "string \<Rightarrow> int option" where
  "parse_int64 s =
     (let neg = (s \<noteq> [] \<and> hd s = CHR ''-''); ds = (if s \<noteq> [] \<and> (hd s = CHR ''-'' \<or> hd s = CHR ''+'') then tl s else s);
          n = fold (\<lambda>c n. n * 10 + int (digitVal c)) ds 0
      in if ds = [] \<or> \<not> list_all isDigit ds then None
         else if neg then (if - n < minInt64 then None else Some (- n))
         else if n > maxInt64 then None else Some n)"

definition optionsFromTarget :: "(string \<times> string) list \<Rightarrow> netOptions" where
  "optionsFromTarget md =
     zero_options\<lparr>
       noNow := (case parse_int64 (kv_str md ''netpolicy.now_unix'') of Some sec \<Rightarrow> if sec > 0 then time_Unix sec else 0 | None \<Rightarrow> 0),
       noEnableIntent := net_isTrue (kv_str md ''netpolicy.intent''),
       noEnableAgentEgress := net_isTrue (kv_str md ''netpolicy.agent_egress'') \<rparr>"

definition net_loadCapture ::
  "(bytes \<Rightarrow> string + capture \<times> bool) \<Rightarrow> (string \<Rightarrow> string + bytes) \<Rightarrow> netTarget \<Rightarrow> string + capture option" where
  "net_loadCapture decode read t =
     (if ntContent t \<noteq> [] then
        (case DecodeCapture decode (ntContent t) of
           Inl e \<Rightarrow> Inl (''decode inlined capture '' @ fmt_q (ntLocation t) @ '': '' @ e)
         | Inr c \<Rightarrow> Inr (Some c))
      else if ntLocation t = [] then Inr None
      else (case LoadCapture decode read (ntLocation t) of Inl e \<Rightarrow> Inr None | Inr c \<Rightarrow> Inr (Some c)))"

definition capture_findings :: "(float64 \<Rightarrow> float64) \<Rightarrow> capture \<Rightarrow> netOptions \<Rightarrow> finding list" where
  "capture_findings log2 c opts =
     (let r = net_Analyze log2 c opts; n = Normalize c in summaryFinding n r # postureFindings n r @ map anomalyToFinding (nrAnomalies r))"

definition net_module_Analyze ::
  "(float64 \<Rightarrow> float64) \<Rightarrow> (bytes \<Rightarrow> string + capture \<times> bool) \<Rightarrow> (string \<Rightarrow> string + bytes) \<Rightarrow> netTarget \<Rightarrow> string + finding list" where
  "net_module_Analyze log2 decode read t =
     (case net_loadCapture decode read t of
        Inl e \<Rightarrow> Inl e
      | Inr None \<Rightarrow> Inr []
      | Inr (Some c) \<Rightarrow> Inr (capture_findings log2 c (optionsFromTarget (ntMetadata t))))"

subsection \<open>The subcommand\<close>

text \<open>Standard output, standard error and the exit code; an encoder fails or gives the text.\<close>

type_synonym cmd = "string \<times> string \<times> int"

definition net_error :: "string \<Rightarrow> int \<Rightarrow> cmd" where
  "net_error msg code = ([], ''net: '' @ msg @ newline, code)"

definition jsonOrErr :: "('a \<Rightarrow> string + string) \<Rightarrow> 'a \<Rightarrow> cmd" where
  "jsonOrErr enc v = (case enc v of Inl e \<Rightarrow> net_error (''encode: '' @ e) 1 | Inr txt \<Rightarrow> (txt, [], 0))"

definition printReportText :: "capture \<Rightarrow> netReport \<Rightarrow> string" where
  "printReportText c r =
     ''network capture: '' @ fmt_int (int (length (cpWorkloads c))) @ '' workload(s), '' @ fmt_int (int (length (cpFlows c)))
     @ '' flow(s), policy_mode='' @ policyModeOrNone (cpPolicyMode c) @ newline
     @ (if nrAnomalies r = [] then ''no anomalies detected'' @ newline
        else fmt_int (int (length (nrAnomalies r))) @ '' anomaly(ies):'' @ newline
          @ concat (map (\<lambda>a. ''  ['' @ Severity_String (anSeverity a) @ ''] '' @ anTitle a @ '' ('' @ anKind a @ '') workload='' @ anWorkload a
               @ (if anDest a \<noteq> [] then '' '' @ arrow @ '' '' @ anDest a else []) @ newline @ ''        '' @ anDetail a @ newline) (nrAnomalies r)))"

definition runReport ::
  "(anomaly list \<Rightarrow> string + string) \<Rightarrow> (float64 \<Rightarrow> float64) \<Rightarrow> capture \<Rightarrow> netOptions \<Rightarrow> string \<Rightarrow> string \<Rightarrow> cmd" where
  "runReport enc log2 c opts format failOn =
     (let r = net_Analyze log2 c opts; threshold = ParseSeverity failOn;
          code = (if failOn \<noteq> [] \<and> threshold \<noteq> SeverityUnknown \<and> net_Highest r \<ge> threshold then 1 else 0)
      in if format = ''json'' then (case enc (nrAnomalies r) of Inl e \<Rightarrow> net_error e 1 | Inr txt \<Rightarrow> (txt, [], code))
         else (printReportText (Normalize c) r, [], code))"

definition filterWorkload :: "generatedPolicy list \<Rightarrow> string \<Rightarrow> generatedPolicy list" where
  "filterWorkload gens i = filter (\<lambda>gp. gpWorkload gp = i) gens"

definition unknown_gen :: "string \<Rightarrow> string" where
  "unknown_gen kind = ''net: unknown --gen '' @ fmt_q kind @ '' (want policy|fqdn|deny)'' @ newline"

text \<open>What is printed for one policy, none for an unknown kind.\<close>

definition render_kind :: "string \<Rightarrow> generatedPolicy \<Rightarrow> string option" where
  "render_kind kind gp =
     (if kind = ''deny'' then Some (RenderNetworkPolicy (gpDefaultDeny gp)) else if kind = ''fqdn'' then Some (RenderFQDNAllowlist gp)
      else if kind = ''policy'' then Some (RenderNetworkPolicy (gpPolicy gp)) else None)"

fun print_gens :: "string \<Rightarrow> bool \<Rightarrow> string \<Rightarrow> generatedPolicy list \<Rightarrow> cmd" where
  "print_gens kind first out [] = (out, [], 0)"
| "print_gens kind first out (gp # gps) =
     (let out' = (if first then out else out @ ''---'' @ newline) in
      case render_kind kind gp of None \<Rightarrow> (out', unknown_gen kind, 2) | Some txt \<Rightarrow> print_gens kind False (out' @ txt) gps)"

definition runGenerate :: "(generatedPolicy list \<Rightarrow> string + string) \<Rightarrow> capture \<Rightarrow> string \<Rightarrow> string \<Rightarrow> genOptions \<Rightarrow> string \<Rightarrow> cmd" where
  "runGenerate enc c kind w g format =
     (let all = GenerateForCapture c g; gens = (if w \<noteq> [] then filterWorkload all w else all) in
      if w \<noteq> [] \<and> gens = [] then net_error (''no egress observed for workload '' @ fmt_q w) 1
      else if gens = [] then net_error ''no workloads with egress to generate policy for'' 1
      else if format = ''json'' then jsonOrErr enc gens
      else print_gens kind True [] gens)"

definition load_allowlist :: "(bytes \<Rightarrow> string + net_allowlist) \<Rightarrow> (string \<Rightarrow> string + bytes) \<Rightarrow> string \<Rightarrow> string \<Rightarrow> string + net_allowlist" where
  "load_allowlist decode read what p =
     (case read p of Inl e \<Rightarrow> Inl (''open '' @ what @ '': '' @ e) | Inr data \<Rightarrow> DecodeAllowlist decode data)"

definition runDryRun ::
  "(bytes \<Rightarrow> string + net_allowlist) \<Rightarrow> (string \<Rightarrow> string + bytes) \<Rightarrow> (dryRunResult \<Rightarrow> string + string) \<Rightarrow> capture \<Rightarrow> string \<Rightarrow> string \<Rightarrow> cmd" where
  "runDryRun decode read enc c p format =
     (case load_allowlist decode read ''allowlist'' p of
        Inl e \<Rightarrow> net_error e 1
      | Inr a \<Rightarrow>
          (let res = DryRun c a in
           if format = ''json'' then jsonOrErr enc res
           else (''dry-run: '' @ fmt_int (drAllowedDests res) @ '' destination(s) allowed, '' @ fmt_int (drDeniedDests res) @ '' would be denied'' @ newline
               @ concat (map (\<lambda>d. ''  DENY '' @ dfWorkload d @ '' '' @ arrow @ '' '' @ dfDest d @ '':'' @ fmt_int (dfPort d) @ '' ('' @ fmt_int (dfCount d)
                    @ ''x): '' @ dfReason d @ newline) (drDenied res)), [], 0)))"

definition runDiff ::
  "(bytes \<Rightarrow> string + net_allowlist) \<Rightarrow> (string \<Rightarrow> string + bytes) \<Rightarrow> (policyDiff \<Rightarrow> string + string) \<Rightarrow> capture \<Rightarrow> string \<Rightarrow> string \<Rightarrow> genOptions
     \<Rightarrow> string \<Rightarrow> cmd" where
  "runDiff decode read enc c p w g format =
     (if w = [] then ([], ''net: --diff requires --workload'' @ newline, 2)
      else (case load_allowlist decode read ''current allowlist'' p of
          Inl e \<Rightarrow> net_error e 1
        | Inr current \<Rightarrow>
            (case filterWorkload (GenerateForCapture c g) w of
               [] \<Rightarrow> net_error (''no egress observed for workload '' @ fmt_q w) 1
             | gp # _ \<Rightarrow>
                 (let d = (DiffAllowlists current (AllowlistFromPolicy gp))\<lparr> pdWorkload := w \<rparr> in
                  if format = ''json'' then jsonOrErr enc d else (diff_Render d, [], 0)))))"

subsection \<open>Numbers\<close>

lemma itoa_digits_nat: "itoa_digits (int n) = (if n = 0 then [] else itoa_nat n)"
proof (induction n rule: less_induct)
  case (less n)
  show ?case
  proof (cases "n = 0")
    case True
    then show ?thesis by (simp add: itoa_digits.simps)
  next
    case False
    have "itoa_digits (int n div 10) = (if n div 10 = 0 then [] else itoa_nat (n div 10))"
      using less [of "n div 10"] False by (simp add: zdiv_int)
    moreover have "nat (int n mod 10) = n mod 10" by (simp add: nat_mod_as_int)
    ultimately have "itoa_digits (int n) = (if n div 10 = 0 then [] else itoa_nat (n div 10)) @ [char_of (48 + n mod 10)]"
      using False by (subst itoa_digits.simps) simp
    also have "\<dots> = itoa_nat n" by (subst (2) itoa_nat.simps) auto
    finally show ?thesis using False by simp
  qed
qed

text \<open>
  The renderer's own conversion agrees with \<^verbatim>\<open>strconv.Itoa\<close> on every 64-bit integer but the smallest,
  whose negation is itself: it is printed as a bare minus sign.
\<close>

theorem itoa_exact:
  "(minInt64 < n \<and> n \<le> maxInt64 \<longrightarrow> itoa n = fmt_int n) \<and> itoa minInt64 = ''-''"
proof (intro conjI impI)
  assume n: "minInt64 < n \<and> n \<le> maxInt64"
  have w: "wrap64 (- n) = - n" using n by (simp add: wrap64_id minInt64_def maxInt64_def)
  have z: "itoa_nat 0 = ''0''" by code_simp
  have d: "itoa_digits k = itoa_nat (nat k)" if "0 < k" for k using itoa_digits_nat [of "nat k"] that by simp
  show "itoa n = fmt_int n" using d [of n] d [of "- n"] z by (auto simp: itoa_def fmt_int_def Let_def w)
next
  show "itoa minInt64 = ''-''" by (simp add: itoa_def minInt64_def wrap64_def itoa_digits.simps)
qed

lemma itoa_exact_tests: "itoa 443 = ''443''" "itoa (- 70) = ''-70''" "itoa 0 = ''0''"
  by code_simp+

text \<open>A label value that YAML reads as a boolean or a number is written bare.\<close>

lemma yaml_bare: "yamlScalar ''true'' = ''true''" "yamlScalar ''123'' = ''123''" "yamlScalar ''null'' = ''null''"
  by code_simp+

text \<open>Different workloads can get policies of one name.\<close>

lemma policy_names_collide: "sanitizeName (a @ ''/'' @ b) = sanitizeName (a @ ''-'' @ b)"
proof -
  have "lowerByte CHR ''/'' = CHR ''/''" "lowerByte CHR ''-'' = CHR ''-''" "name_byte CHR ''/'' = ''-''" "name_byte CHR ''-'' = ''-''" by code_simp+
  then show ?thesis by (simp add: sanitizeName_def strings_ToLower_def)
qed

subsection \<open>The gate\<close>

lemma Highest_fold:
  "fold (\<lambda>a h. if anSeverity a > h then anSeverity a else h) xs h \<ge> t \<longleftrightarrow> h \<ge> t \<or> list_ex (\<lambda>a. anSeverity a \<ge> t) xs"
proof (induction xs arbitrary: h)
  case (Cons a xs)
  show ?case unfolding fold_simps Cons.IH list_ex_iff by auto
qed simp

lemma ParseSeverity_nonneg: "ParseSeverity s \<noteq> SeverityUnknown \<Longrightarrow> SeverityUnknown < ParseSeverity s"
  by (auto simp: ParseSeverity_def severity_defs Let_def split: if_splits)

text \<open>
  The subcommand's gate is exact: with the text format it exits with 1 when an anomaly reaches a threshold that
  parses, and with 0 otherwise.
\<close>

theorem net_gate_exact:
  "snd (snd (runReport enc log2 c opts ''text'' failOn))
     = (if failOn \<noteq> [] \<and> ParseSeverity failOn \<noteq> SeverityUnknown
          \<and> list_ex (\<lambda>a. ParseSeverity failOn \<le> anSeverity a) (nrAnomalies (net_Analyze log2 c opts)) then 1 else 0)"
  using ParseSeverity_nonneg [of failOn] by (auto simp: runReport_def Let_def net_Highest_def Highest_fold)

subsection \<open>Findings of the analysis\<close>

lemma detect_kinds:
  "a \<in> set (detect_log log2 opt now fl) \<Longrightarrow> anKind a \<in> {KindIMDS, KindBeacon, KindExfil, KindLowAndSlow, KindLateral, KindDNSTunnel, KindDGA,
     KindBlockedEg, KindHostNetwork, KindAgentEgress, KindAnomalousEg}"
  unfolding detect_log_def set_append Un_iff
  by (auto dest: beacon_kind exfil_kind dns_kind other_kinds split: if_splits)

text \<open>
  Every anomaly becomes one finding of the module, under the rule of its kind and never under the catch-all,
  with its severity; beside them stand the summary and at most two findings on the posture.
\<close>

theorem anomalies_projected:
  "length (capture_findings log2 c opts) \<le> 3 + length (nrAnomalies (net_Analyze log2 c opts))
   \<and> drop (length (capture_findings log2 c opts) - length (nrAnomalies (net_Analyze log2 c opts))) (capture_findings log2 c opts)
       = map anomalyToFinding (nrAnomalies (net_Analyze log2 c opts))
   \<and> map fSeverity (map anomalyToFinding (nrAnomalies (net_Analyze log2 c opts))) = map anSeverity (nrAnomalies (net_Analyze log2 c opts))
   \<and> list_all (\<lambda>a. map_of kindRules (anKind a) \<noteq> None \<and> fRuleID (anomalyToFinding a) = fst (the (map_of kindRules (anKind a))))
       (nrAnomalies (net_Analyze log2 c opts))"
proof -
  have rid: "fRuleID (anomalyToFinding a) = fst (the (map_of kindRules (anKind a)))" if "map_of kindRules (anKind a) \<noteq> None" for a
    using that by (cases "map_of kindRules (anKind a)") (auto simp: anomalyToFinding_def Let_def split: prod.split)
  have r: "map_of kindRules k \<noteq> None" if "k \<in> {KindIMDS, KindBeacon, KindExfil, KindLowAndSlow, KindLateral, KindDNSTunnel, KindDGA,
     KindBlockedEg, KindHostNetwork, KindAgentEgress, KindAnomalousEg}" for k
    using that by (auto simp: kindRules_def)
  have "map_of kindRules (anKind a) \<noteq> None" if "a \<in> set (nrAnomalies (net_Analyze log2 c opts))" for a
  proof -
    have "\<exists>fl. a \<in> set (detect_log log2 (withDefaults opts) (options_now (withDefaults opts) (BuildFlowLogs (Normalize c))) fl)"
      using that unfolding Analyze_anomalies by blast
    then obtain fl where "a \<in> set (detect_log log2 (withDefaults opts) (options_now (withDefaults opts) (BuildFlowLogs (Normalize c))) fl)" ..
    then show ?thesis by (intro r) (rule detect_kinds)
  qed
  then have k: "list_all (\<lambda>a. map_of kindRules (anKind a) \<noteq> None \<and> fRuleID (anomalyToFinding a) = fst (the (map_of kindRules (anKind a))))
       (nrAnomalies (net_Analyze log2 c opts))"
    by (simp add: list_all_iff rid)
  have s: "fSeverity (anomalyToFinding a) = anSeverity a" for a by (simp add: anomalyToFinding_def Let_def split: prod.split)
  show ?thesis using k s by (simp add: capture_findings_def Let_def postureFindings_def)
qed

end
