(* ===== verification/Authz.thy ===== *)
theory Authz
  imports GoData GoEncoding GoPath
begin

text \<open>
  The Docker authorization plugin of \<^verbatim>\<open>internal/authz\<close>: the verdict on a proxied API call
  (\<^verbatim>\<open>authz.go\<close>), the two hooks the daemon calls (\<^verbatim>\<open>server.go\<close>) and the list flag of the subcommand
  (\<^verbatim>\<open>command.go\<close>). What \<^verbatim>\<open>json.Unmarshal\<close> leaves in the request body's slice is a
  parameter. The verdict is exactly the conjunction of the guardrails that are on; the last section
  shows what those guardrails do not see.
\<close>

subsection \<open>The policy\<close>

record authzRequest =
  azMethod :: string
  azURI :: string
  azBody :: bytes

record authzDecision =
  adAllow :: bool
  adMsg :: string
  adReason :: string
  adRule :: string

record authzPolicy =
  apDenyPrivileged :: bool
  apDenyHostNamespaces :: bool
  apDenyHostPathMounts :: bool
  apDenyDockerSocketMount :: bool
  apDenyCapAdd :: "string list"
  apReadOnly :: bool

definition authz_allow :: "string \<Rightarrow> authzDecision" where
  "authz_allow msg = \<lparr> adAllow = True, adMsg = msg, adReason = [], adRule = [] \<rparr>"

definition authz_deny :: "string \<Rightarrow> string \<Rightarrow> authzDecision" where
  "authz_deny rid reason = \<lparr> adAllow = False, adMsg = [], adReason = reason, adRule = rid \<rparr>"

definition normalizeCap :: "string \<Rightarrow> string" where
  "normalizeCap c = strings_TrimPrefix (strings_ToUpper (strings_TrimSpace c)) ''CAP_''"

definition denyCaps :: "authzPolicy \<Rightarrow> string list" where
  "denyCaps p = map normalizeCap (apDenyCapAdd p)"

definition SensitiveHostPaths :: "string list" where
  "SensitiveHostPaths =
     [''/'', ''/etc'', ''/var/run'', ''/run'', ''/proc'', ''/sys'', ''/dev'', ''/var/lib/docker'', ''/root'', ''/home'']"

definition dockerSocketPaths :: "string list" where
  "dockerSocketPaths = [''/var/run/docker.sock'', ''/run/docker.sock'']"

text \<open>
  The pattern \<^verbatim>\<open>/(v[0-9.]+/)?containers/create$\<close> has no anchor at the start: it matches when some
  suffix of the path is of its form.
\<close>

definition version_byte :: "char \<Rightarrow> bool" where
  "version_byte c \<longleftrightarrow> isDigit c \<or> c = CHR ''.''"

definition create_here :: "string \<Rightarrow> bool" where
  "create_here t \<longleftrightarrow> t = ''/containers/create''
     \<or> (take 2 t = ''/v'' \<and> takeWhile version_byte (drop 2 t) \<noteq> [] \<and> dropWhile version_byte (drop 2 t) = ''/containers/create'')"

fun suffixes :: "'a list \<Rightarrow> 'a list list" where
  "suffixes [] = [[]]"
| "suffixes (x # xs) = (x # xs) # suffixes xs"

definition createPathRe :: "string \<Rightarrow> bool" where
  "createPathRe p \<longleftrightarrow> list_ex create_here (suffixes p)"

definition isMutating :: "string \<Rightarrow> bool" where
  "isMutating m \<longleftrightarrow> strings_ToUpper m \<in> {''POST'', ''PUT'', ''DELETE'', ''PATCH''}"

definition pathOnly :: "string \<Rightarrow> string" where
  "pathOnly uri = (case cut_byte CHR ''?'' uri of Some (a, b) \<Rightarrow> a | None \<Rightarrow> uri)"

definition hostSrcFromBind :: "string \<Rightarrow> string" where
  "hostSrcFromBind b = (case cut_byte CHR '':'' b of Some (s, d) \<Rightarrow> s | None \<Rightarrow> b)"

definition trim_slashes :: "string \<Rightarrow> string" where
  "trim_slashes s = trim_right (\<lambda>c. c = CHR ''/'') s"

definition isDockerSocket :: "string \<Rightarrow> bool" where
  "isDockerSocket src \<longleftrightarrow> trim_slashes src \<in> set dockerSocketPaths"

definition isSensitiveHostPath :: "string \<Rightarrow> bool" where
  "isSensitiveHostPath src0 =
     (let src = (if trim_slashes src0 = [] then ''/'' else trim_slashes src0) in
      list_ex (\<lambda>p. src = p \<or> strings_HasPrefix src (p @ ''/'')) SensitiveHostPaths \<or> src = ''/'')"

record authzMount =
  amSource :: string
  amType :: string

record createRequest =
  cqPrivileged :: bool
  cqNetworkMode :: string
  cqPidMode :: string
  cqIpcMode :: string
  cqUTSMode :: string
  cqBinds :: "string list"
  cqCapAdd :: "string list"
  cqMounts :: "authzMount list"

definition empty_create :: createRequest where
  "empty_create = \<lparr> cqPrivileged = False, cqNetworkMode = [], cqPidMode = [], cqIpcMode = [], cqUTSMode = [], cqBinds = [], cqCapAdd = [],
     cqMounts = [] \<rparr>"

definition fold_host :: "string \<Rightarrow> bool" where
  "fold_host m \<longleftrightarrow> strings_ToLower m = ''host''"

text \<open>
  The namespaces stand in a map literal, which a range visits in an open order: the argument \<open>order\<close> of the
  verdict picks one. What is documented of it is that every entry is visited.
\<close>

type_synonym visits = "(string \<times> string) list \<Rightarrow> (string \<times> string) list"

definition visits_all :: "visits \<Rightarrow> bool" where
  "visits_all order \<longleftrightarrow> (\<forall>xs. set (order xs) = set xs)"

definition host_modes :: "createRequest \<Rightarrow> (string \<times> string) list" where
  "host_modes c = [(''network'', cqNetworkMode c), (''pid'', cqPidMode c), (''ipc'', cqIpcMode c), (''uts'', cqUTSMode c)]"

definition mount_sources :: "createRequest \<Rightarrow> string list" where
  "mount_sources c =
     map hostSrcFromBind (cqBinds c)
     @ map amSource (filter (\<lambda>m. amType m = [] \<or> strings_ToLower (amType m) = ''bind'') (cqMounts c))"

fun check_sources :: "authzPolicy \<Rightarrow> string list \<Rightarrow> authzDecision option" where
  "check_sources p [] = None"
| "check_sources p (s # ss) =
     (if (apDenyDockerSocketMount p \<or> apDenyHostPathMounts p) \<and> isDockerSocket s
        then Some (authz_deny ''AUTHZ-DOCKERSOCK'' ''mounting the Docker daemon socket is not permitted (host-root equivalent)'')
      else if apDenyHostPathMounts p \<and> isSensitiveHostPath s
        then Some (authz_deny ''AUTHZ-HOSTPATH'' (''bind-mounting sensitive host path '' @ s @ '' is not permitted''))
      else check_sources p ss)"

definition evalCreate :: "visits \<Rightarrow> (bytes \<Rightarrow> createRequest) \<Rightarrow> authzPolicy \<Rightarrow> bytes \<Rightarrow> authzDecision option" where
  "evalCreate order decode p body =
     (let c = (if body = [] then empty_create else decode body) in
      if apDenyPrivileged p \<and> cqPrivileged c then Some (authz_deny ''AUTHZ-PRIVILEGED'' ''privileged containers are not permitted'')
      else (case (if apDenyHostNamespaces p then List.find (\<lambda>(n, m). fold_host m) (order (host_modes c)) else None) of
          Some (n, m) \<Rightarrow> Some (authz_deny ''AUTHZ-HOSTNS'' (''sharing the host '' @ n @ '' namespace is not permitted''))
        | None \<Rightarrow>
            (case check_sources p (mount_sources c) of
               Some d \<Rightarrow> Some d
             | None \<Rightarrow>
                 map_option (\<lambda>cap. authz_deny ''AUTHZ-CAPADD'' (''adding capability '' @ cap @ '' is not permitted''))
                   (List.find (\<lambda>cap. normalizeCap cap \<in> set (denyCaps p)) (cqCapAdd c)))))"

definition authz_Evaluate :: "visits \<Rightarrow> (bytes \<Rightarrow> createRequest) \<Rightarrow> authzPolicy \<Rightarrow> authzRequest \<Rightarrow> authzDecision" where
  "authz_Evaluate order decode p r =
     (if apReadOnly p \<and> isMutating (azMethod r)
        then authz_deny ''AUTHZ-READONLY'' ''daemon is in read-only mode; mutating API calls are denied''
      else if strings_ToLower (azMethod r) = ''post'' \<and> createPathRe (pathOnly (azURI r)) then
        (case evalCreate order decode p (azBody r) of Some d \<Rightarrow> d | None \<Rightarrow> authz_allow ''request permitted by policy'')
      else authz_allow ''request permitted by policy'')"

subsection \<open>The hooks\<close>

record authZReq =
  zqRequestMethod :: string
  zqRequestURI :: string
  zqRequestBody :: string

record authZRes =
  zrAllow :: bool
  zrMsg :: string
  zrErr :: string

definition authz_maxBodyBytes :: nat where
  "authz_maxBodyBytes = 4194304"

definition handleReq :: "(bytes \<Rightarrow> authZReq option) \<Rightarrow> visits \<Rightarrow> (bytes \<Rightarrow> createRequest) \<Rightarrow> authzPolicy \<Rightarrow> bytes \<Rightarrow> authZRes" where
  "handleReq decodeReq order decode p data =
     (case (if length data > authz_maxBodyBytes then None else decodeReq data) of
        None \<Rightarrow> \<lparr> zrAllow = False, zrMsg = [], zrErr = ''malformed AuthZReq'' \<rparr>
      | Some q \<Rightarrow>
          (let body = (case b64_decode (zqRequestBody q) of None \<Rightarrow> [] | Some b \<Rightarrow> b);
               d = authz_Evaluate order decode p \<lparr> azMethod = zqRequestMethod q, azURI = zqRequestURI q, azBody = body \<rparr>
           in if adAllow d then \<lparr> zrAllow = True, zrMsg = adMsg d, zrErr = [] \<rparr>
              else \<lparr> zrAllow = False, zrMsg = adReason d, zrErr = adReason d \<rparr>))"

definition handleActivate :: "(string \<times> string list) list" where
  "handleActivate = [(''Implements'', [''authz''])]"

definition handleRes :: authZRes where
  "handleRes = \<lparr> zrAllow = True, zrMsg = [], zrErr = [] \<rparr>"

definition splitCSV :: "string \<Rightarrow> string list" where
  "splitCSV s =
     (if strings_TrimSpace s = [] then [] else filter (\<lambda>t. t \<noteq> []) (map strings_TrimSpace (split_byte CHR '','' s)))"

definition serve_policy :: authzPolicy where
  "serve_policy =
     \<lparr> apDenyPrivileged = True, apDenyHostNamespaces = True, apDenyHostPathMounts = True, apDenyDockerSocketMount = True,
       apDenyCapAdd = splitCSV ''SYS_ADMIN,NET_ADMIN,SYS_MODULE,SYS_PTRACE,DAC_READ_SEARCH,BPF'', apReadOnly = False \<rparr>"

subsection \<open>The verdict is the guardrails\<close>

lemma suffixes_append: "t \<in> set (suffixes p) \<longleftrightarrow> (\<exists>u. p = u @ t)"
proof (induction p)
  case (Cons x xs)
  show ?case
  proof
    assume "t \<in> set (suffixes (x # xs))"
    then consider "t = x # xs" | "t \<in> set (suffixes xs)" by auto
    then show "\<exists>u. x # xs = u @ t"
    proof cases
      case 2
      then obtain u where "xs = u @ t" using Cons.IH by blast
      then have "x # xs = (x # u) @ t" by simp
      then show ?thesis by blast
    qed auto
  next
    assume "\<exists>u. x # xs = u @ t"
    then show "t \<in> set (suffixes (x # xs))" using Cons.IH by (auto simp: Cons_eq_append_conv)
  qed
qed auto

text \<open>The optional version adds nothing, since the pattern is not anchored: the path has to end right.\<close>

lemma createPathRe_suffix: "createPathRe p \<longleftrightarrow> (\<exists>u. p = u @ ''/containers/create'')"
proof
  assume "createPathRe p"
  then obtain u t where p: "p = u @ t" "create_here t" by (auto simp: createPathRe_def list_ex_iff suffixes_append)
  have "\<exists>w. t = w @ ''/containers/create''"
  proof (cases "t = ''/containers/create''")
    case True
    then have "t = [] @ ''/containers/create''" by simp
    then show ?thesis by blast
  next
    case False
    then have "dropWhile version_byte (drop 2 t) = ''/containers/create''" using p(2) by (simp add: create_here_def)
    then have "t = (take 2 t @ takeWhile version_byte (drop 2 t)) @ ''/containers/create''"
      by (metis append_assoc append_take_drop_id takeWhile_dropWhile_id)
    then show ?thesis by blast
  qed
  then show "\<exists>u. p = u @ ''/containers/create''" using p(1) by (metis append_assoc)
next
  assume "\<exists>u. p = u @ ''/containers/create''"
  then show "createPathRe p" by (auto simp: createPathRe_def list_ex_iff suffixes_append create_here_def)
qed

lemma check_sources_None:
  "check_sources p ss = None \<longleftrightarrow> list_all (\<lambda>s. \<not> ((apDenyDockerSocketMount p \<or> apDenyHostPathMounts p) \<and> isDockerSocket s)
     \<and> \<not> (apDenyHostPathMounts p \<and> isSensitiveHostPath s)) ss"
  by (induction p ss rule: check_sources.induct) auto

lemma check_sources_deny: "check_sources p ss = Some d \<Longrightarrow> \<not> adAllow d"
  by (induction p ss rule: check_sources.induct) (auto simp: authz_deny_def split: if_splits)

lemma evalCreate_deny: "evalCreate order decode p body = Some d \<Longrightarrow> \<not> adAllow d"
  using check_sources_deny by (auto simp: evalCreate_def Let_def authz_deny_def split: if_splits option.splits prod.splits)

definition guarded :: "authzPolicy \<Rightarrow> createRequest \<Rightarrow> bool" where
  "guarded p c \<longleftrightarrow> \<not> (apDenyPrivileged p \<and> cqPrivileged c)
     \<and> \<not> (apDenyHostNamespaces p \<and> list_ex fold_host [cqNetworkMode c, cqPidMode c, cqIpcMode c, cqUTSMode c])
     \<and> list_all (\<lambda>s. \<not> ((apDenyDockerSocketMount p \<or> apDenyHostPathMounts p) \<and> isDockerSocket s)
         \<and> \<not> (apDenyHostPathMounts p \<and> isSensitiveHostPath s)) (mount_sources c)
     \<and> list_all (\<lambda>cap. normalizeCap cap \<notin> set (denyCaps p)) (cqCapAdd c)"

lemma evalCreate_None:
  assumes "visits_all order"
  shows "evalCreate order decode p body = None \<longleftrightarrow> guarded p (if body = [] then empty_create else decode body)"
proof -
  let ?c = "if body = [] then empty_create else decode body"
  have h: "List.find (\<lambda>(n, m). fold_host m) (order (host_modes ?c)) = None
      \<longleftrightarrow> \<not> list_ex fold_host [cqNetworkMode ?c, cqPidMode ?c, cqIpcMode ?c, cqUTSMode ?c]"
  proof -
    have "set (order (host_modes ?c)) = set (host_modes ?c)" using assms by (simp add: visits_all_def)
    then show ?thesis by (auto simp: find_None_iff host_modes_def)
  qed
  have f: "List.find Q xs = None \<longleftrightarrow> list_all (\<lambda>x. \<not> Q x) xs" for Q and xs :: "string list"
    by (auto simp: find_None_iff list_all_iff)
  let ?ns = "if apDenyHostNamespaces p then List.find (\<lambda>(n, m). fold_host m) (order (host_modes ?c)) else None"
  have ns: "?ns = None \<longleftrightarrow> \<not> (apDenyHostNamespaces p \<and> list_ex fold_host [cqNetworkMode ?c, cqPidMode ?c, cqIpcMode ?c, cqUTSMode ?c])"
    using h by simp
  have step: "evalCreate order decode p body = None \<longleftrightarrow> \<not> (apDenyPrivileged p \<and> cqPrivileged ?c) \<and> ?ns = None
      \<and> check_sources p (mount_sources ?c) = None \<and> List.find (\<lambda>cap. normalizeCap cap \<in> set (denyCaps p)) (cqCapAdd ?c) = None"
    unfolding evalCreate_def Let_def by (cases "?ns"; cases "check_sources p (mount_sources ?c)") (simp_all split: prod.split)
  show ?thesis unfolding step ns check_sources_None f guarded_def by (rule refl)
qed



text \<open>The hook fails closed on a message it cannot read and otherwise answers with the verdict on its request.\<close>

lemma handleReq_allows:
  "zrAllow (handleReq decodeReq order decode p data) \<longleftrightarrow> length data \<le> authz_maxBodyBytes \<and> (\<exists>q. decodeReq data = Some q
     \<and> adAllow (authz_Evaluate order decode p \<lparr> azMethod = zqRequestMethod q, azURI = zqRequestURI q,
          azBody = (case b64_decode (zqRequestBody q) of None \<Rightarrow> [] | Some b \<Rightarrow> b) \<rparr>))"
  by (auto simp: handleReq_def Let_def split: option.splits if_splits)

subsection \<open>What the guardrails do not see\<close>

text \<open>
  With every guardrail of the subcommand on, a container may still mount a parent of the socket, or the socket by a
  path with a doubled slash or a dot, add all capabilities at once, or be created through an escaped path, which
  the daemon's router decodes.
\<close>

theorem authz_bypasses:
  "guarded serve_policy (empty_create\<lparr> cqBinds := [''/var:/host''] \<rparr>)
   \<and> guarded serve_policy (empty_create\<lparr> cqBinds := [''/var//run/docker.sock:/s''] \<rparr>)
   \<and> path_Clean ''/var//run/docker.sock'' \<in> set dockerSocketPaths
   \<and> guarded serve_policy (empty_create\<lparr> cqBinds := [''/./etc:/host''] \<rparr>)
   \<and> guarded serve_policy (empty_create\<lparr> cqCapAdd := [''ALL''] \<rparr>)
   \<and> adAllow (authz_Evaluate order decode serve_policy \<lparr> azMethod = ''POST'', azURI = ''/v1.43/containers/%63reate'', azBody = b \<rparr>)"
proof (intro conjI)
  have n: "\<not> createPathRe (pathOnly ''/v1.43/containers/%63reate'')" by code_simp
  then show "adAllow (authz_Evaluate order decode serve_policy \<lparr> azMethod = ''POST'', azURI = ''/v1.43/containers/%63reate'', azBody = b \<rparr>)"
    by (simp add: authz_Evaluate_def serve_policy_def authz_allow_def)
qed code_simp+

end
