(* ===== verification/Admission.thy ===== *)
theory Admission
  imports PolicyGate PolicySuite GoData
begin

text \<open>
  The admission webhook of \<^verbatim>\<open>internal/admission\<close>: the pod spec of a Kubernetes object
  reduced to the policy's workload (\<^verbatim>\<open>workload.go\<close>), the review of a request over all its images
  (\<^verbatim>\<open>review.go\<close>) and the handler of the server (\<^verbatim>\<open>server.go\<close>). The JSON codec is the record
  \<open>admJSON\<close>: each decoder gives the decoded value or the text of its error. Collecting the facts of an
  explanation may panic on an id the engine does not have; \<open>None\<close> stands for that, and \<open>decide_total\<close>
  shows that a review never meets it.
\<close>

subsection \<open>The pod spec\<close>

record admCapabilities =
  cpAdd :: "string list"
  cpDrop :: "string list"

record securityContext =
  secPrivileged :: "bool option"
  secRunAsNonRoot :: "bool option"
  secRunAsUser :: "int option"
  secReadOnlyRootFilesystem :: "bool option"
  secAllowPrivilegeEscalation :: "bool option"
  secCapabilities :: "admCapabilities option"

record podSecurityContext =
  pscRunAsNonRoot :: "bool option"
  pscRunAsUser :: "int option"

record podContainer =
  pcName :: string
  pcImage :: string
  pcSecurityContext :: "securityContext option"

record podVolume =
  pvName :: string
  pvHostPath :: "string option"

record podSpec =
  psContainers :: "podContainer list"
  psInitContainers :: "podContainer list"
  psEphemeralContainers :: "podContainer list"
  psVolumes :: "podVolume list"
  psHostNetwork :: bool
  psHostPID :: bool
  psHostIPC :: bool
  psSecurityContext :: "podSecurityContext option"

record workloadInfo =
  wiWorkload :: workload
  wiImages :: "string list"

record k8sObject =
  koKind :: string
  koSpec :: bytes

definition containerOr :: "'a option \<Rightarrow> 'a option \<Rightarrow> 'a option" where
  "containerOr c pod = (case c of Some x \<Rightarrow> Some x | None \<Rightarrow> pod)"

definition guaranteedNonRoot :: "securityContext option \<Rightarrow> podSecurityContext option \<Rightarrow> bool" where
  "guaranteedNonRoot sc pod =
     (if containerOr (Option.bind sc secRunAsNonRoot) (Option.bind pod pscRunAsNonRoot) = Some True then True
      else (case containerOr (Option.bind sc secRunAsUser) (Option.bind pod pscRunAsUser) of
         Some uid \<Rightarrow> uid \<noteq> 0 | None \<Rightarrow> False))"

definition readOnlyRoot :: "securityContext option \<Rightarrow> bool" where
  "readOnlyRoot sc \<longleftrightarrow> Option.bind sc secReadOnlyRootFilesystem = Some True"

definition allowsEscalation :: "securityContext option \<Rightarrow> bool" where
  "allowsEscalation sc =
     (case Option.bind sc secAllowPrivilegeEscalation of None \<Rightarrow> True | Some b \<Rightarrow> b)"

definition runsPrivileged :: "securityContext option \<Rightarrow> bool" where
  "runsPrivileged sc \<longleftrightarrow> Option.bind sc secPrivileged = Some True"

definition addedCaps :: "securityContext option \<Rightarrow> string list" where
  "addedCaps sc = (case Option.bind sc secCapabilities of None \<Rightarrow> [] | Some c \<Rightarrow> cpAdd c)"

definition hasCap :: "string list \<Rightarrow> string \<Rightarrow> bool" where
  "hasCap caps want \<longleftrightarrow> list_ex (\<lambda>c. strings_ToLower c = strings_ToLower want) caps"

definition add_cap :: "string list \<Rightarrow> string \<Rightarrow> string list" where
  "add_cap caps c = (if hasCap caps c then caps else caps @ [c])"

text \<open>One round of the loop over the containers: the workload and the images so far.\<close>

definition flatten_container :: "podSecurityContext option \<Rightarrow> workload \<times> string list \<Rightarrow> podContainer \<Rightarrow> workload \<times> string list" where
  "flatten_container pod wi c =
     (let w = fst wi; sc = pcSecurityContext c;
          w1 = (if runsPrivileged sc then w\<lparr> wPrivileged := True \<rparr> else w);
          w2 = (if \<not> guaranteedNonRoot sc pod then w1\<lparr> wRunAsRoot := True \<rparr> else w1);
          w3 = (if \<not> readOnlyRoot sc then w2\<lparr> wReadOnlyRootFS := False \<rparr> else w2);
          w4 = (if allowsEscalation sc then w3\<lparr> wAllowPrivilegeEscalation := True \<rparr> else w3);
          w5 = w4\<lparr> wCapabilities := foldl add_cap (wCapabilities w4) (addedCaps sc) \<rparr>
      in (w5, if pcImage c \<noteq> [] then snd wi @ [pcImage c] else snd wi))"

definition podContainers :: "podSpec \<Rightarrow> podContainer list" where
  "podContainers ps = psContainers ps @ psInitContainers ps @ psEphemeralContainers ps"

definition absent_workload :: workload where
  "absent_workload = \<lparr> wPresent = False, wPrivileged = False, wRunAsRoot = False, wHostNetwork = False, wHostPID = False,
     wHostIPC = False, wReadOnlyRootFS = False, wAllowPrivilegeEscalation = False, wUsesHostPath = False,
     wCapabilities = [], wImages = [] \<rparr>"

definition flatten :: "podSpec \<Rightarrow> workloadInfo" where
  "flatten ps =
     (let cs = podContainers ps;
          w0 = absent_workload\<lparr> wPresent := True, wHostNetwork := psHostNetwork ps, wHostPID := psHostPID ps,
                 wHostIPC := psHostIPC ps, wReadOnlyRootFS := (0 < length cs) \<rparr>;
          wi = foldl (flatten_container (psSecurityContext ps)) (w0, []) cs;
          w1 = (if list_ex (\<lambda>v. pvHostPath v \<noteq> None) (psVolumes ps) then (fst wi)\<lparr> wUsesHostPath := True \<rparr> else fst wi)
      in \<lparr> wiWorkload = w1\<lparr> wImages := snd wi \<rparr>, wiImages = snd wi \<rparr>)"

text \<open>
  The decoders of the standard library at the types the code decodes to: the object, a pod spec, a controller's
  pod spec (\<^verbatim>\<open>template.spec\<close>) and that of a cron job. The last field writes an explanation.
\<close>

record admJSON =
  ajObject :: "bytes \<Rightarrow> string + k8sObject"
  ajPod :: "bytes \<Rightarrow> string + podSpec"
  ajTemplate :: "bytes \<Rightarrow> string + podSpec"
  ajCronJob :: "bytes \<Rightarrow> string + podSpec"
  ajExplanation :: "explanation \<Rightarrow> string option"

definition wrap_err :: "string \<Rightarrow> string + 'a \<Rightarrow> string + 'a option" where
  "wrap_err pre r = (case r of Inl e \<Rightarrow> Inl (pre @ '': '' @ e) | Inr x \<Rightarrow> Inr (Some x))"

definition locatePodSpec :: "admJSON \<Rightarrow> k8sObject \<Rightarrow> string + podSpec option" where
  "locatePodSpec js obj =
     (if koKind obj = ''Pod'' then wrap_err ''parse pod spec'' (ajPod js (koSpec obj))
      else if koKind obj \<in> {''Deployment'', ''StatefulSet'', ''DaemonSet'', ''ReplicaSet'', ''ReplicationController'', ''Job''}
        then wrap_err (''parse '' @ koKind obj @ '' template'') (ajTemplate js (koSpec obj))
      else if koKind obj = ''CronJob'' then wrap_err ''parse CronJob template'' (ajCronJob js (koSpec obj))
      else Inr None)"

definition extractWorkload :: "admJSON \<Rightarrow> bytes \<Rightarrow> string + workloadInfo" where
  "extractWorkload js raw =
     (if raw = [] then Inl ''admission object is empty''
      else case ajObject js raw of
        Inl e \<Rightarrow> Inl (''parse admission object: '' @ e)
      | Inr obj \<Rightarrow>
          (case locatePodSpec js obj of
             Inl e \<Rightarrow> Inl e
           | Inr None \<Rightarrow> Inr \<lparr> wiWorkload = absent_workload, wiImages = [] \<rparr>
           | Inr (Some ps) \<Rightarrow> Inr (flatten ps)))"

definition parseImageRef :: "string \<Rightarrow> image" where
  "parseImageRef ref =
     (let (rest1, dig) = (case cut_byte CHR ''@'' ref of Some (a, b) \<Rightarrow> (a, b) | None \<Rightarrow> (ref, []));
          (reg, rest2) = (case cut_byte CHR ''/'' rest1 of
              Some (hd1, after) \<Rightarrow>
                if CHR ''.'' \<in> set hd1 \<or> CHR '':'' \<in> set hd1 \<or> hd1 = ''localhost''
                then (hd1, after) else (''docker.io'', rest1)
            | None \<Rightarrow> (''docker.io'', rest1));
          (repo, tag) = (case cut_last_byte CHR '':'' rest2 of Some (a, b) \<Rightarrow> (a, b) | None \<Rightarrow> (rest2, []))
      in \<lparr> imgReference = ref, imgRegistry = reg, imgRepository = repo, imgTag = tag, imgDigest = dig \<rparr>)"

subsection \<open>The review\<close>

record admissionRequest =
  arUID :: string
  arObject :: bytes

record admStatus =
  stCode :: int
  stMessage :: string
  stReason :: string

record admissionResponse =
  apUID :: string
  apAllowed :: bool
  apStatus :: "admStatus option"
  apWarnings :: "string list"
  apAudit :: "string \<rightharpoonup> string"

record admissionReview =
  avRequest :: "admissionRequest option"
  avResponse :: "admissionResponse option"

type_synonym imageContext = "attestationState option \<times> finding list \<times> string list"

record reviewer =
  rvEngine :: policyEngine
  rvResolver :: "string \<Rightarrow> imageContext"
  rvNow :: int
  rvExplain :: bool
  rvFailOpen :: bool

definition emptyResolver :: "string \<Rightarrow> imageContext" where
  "emptyResolver img = (Some (staticState \<lparr> saIsSigned = False, saPredicates = [] \<rparr>), [], [])"

record admDecision =
  dcBlocked :: bool
  dcVerdict :: decisionType
  dcDenials :: "(string \<times> ruleResult) list"
  dcWarnings :: "(string \<times> ruleResult) list"
  dcEx :: "explanation option"
  dcEvalErr :: bool

definition dedupeStrings :: "string list \<Rightarrow> string list" where
  "dedupeStrings ss = sort_Strings (dedupe_by id [] ss)"

definition tag_reasons :: "string \<Rightarrow> ruleExplanation list \<Rightarrow> ruleExplanation list" where
  "tag_reasons img rs = (if img = [] then rs else map (\<lambda>r. r\<lparr> reReason := ''['' @ img @ ''] '' @ reReason r \<rparr>) rs)"

definition mergeExplanation :: "texts \<Rightarrow> explanation option \<Rightarrow> explanation option \<Rightarrow> string \<Rightarrow> explanation option" where
  "mergeExplanation tx acc add img =
     (case add of
        None \<Rightarrow> acc
      | Some a \<Rightarrow>
          (let c0 = (case acc of
                  Some c \<Rightarrow> c
                | None \<Rightarrow> \<lparr> exPolicy = exPolicy a, exDecision = exDecision a, exSummary = [], exDenials = [], exWarnings = [],
                      exWaived = [], exRemediation = [], exEvaluatedAt = exEvaluatedAt a \<rparr>);
               c1 = (if exDecision a = DecisionDeny \<or> exDecision a = DecisionWarn \<and> exDecision c0 = DecisionAllow
                     then c0\<lparr> exDecision := exDecision a \<rparr> else c0);
               c2 = c1\<lparr> exDenials := exDenials c1 @ tag_reasons img (exDenials a),
                        exWarnings := exWarnings c1 @ tag_reasons img (exWarnings a),
                        exRemediation := dedupeStrings (exRemediation c1 @ exRemediation a) \<rparr>
           in Some (c2\<lparr> exSummary := strings_ToUpper (exDecision c2) @ '' by policy '' @ txQuote tx (exPolicy c2) @ '': ''
                          @ fmt_int (int (length (exDenials c2))) @ '' denial(s)'' \<rparr>)))"

definition rule_key :: "string \<times> ruleResult \<Rightarrow> string" where
  "rule_key ir = fst ir @ ''|'' @ rrRuleID (snd ir)"

text \<open>
  Appending a rule result unless its key was seen: the keys in the map are those of the entries appended so far, all
  of which this loop appended itself.
\<close>

definition add_new :: "(string \<times> ruleResult) list \<Rightarrow> string \<times> ruleResult \<Rightarrow> (string \<times> ruleResult) list" where
  "add_new xs ir = (if rule_key ir \<in> set (map rule_key xs) then xs else xs @ [ir])"

definition imageInput :: "reviewer \<Rightarrow> workloadInfo \<Rightarrow> string \<Rightarrow> policyInput" where
  "imageInput rv info img =
     (case rvResolver rv img of (att, fs, lic) \<Rightarrow>
       \<lparr> inFindings = fs, inImage = parseImageRef img, inWorkload = wiWorkload info, inAttest = att,
         inLicenses = lic, inPackages = [] \<rparr>)"

definition imageResult :: "lib \<Rightarrow> reviewer \<Rightarrow> workloadInfo \<Rightarrow> string \<Rightarrow> result" where
  "imageResult lb rv info img = Evaluate lb (rvEngine rv) (imageInput rv info img) (rvNow rv)"

definition worst :: "decisionType \<Rightarrow> decisionType \<Rightarrow> decisionType" where
  "worst acc d =
     (if d = DecisionDeny then DecisionDeny
      else if d = DecisionWarn then (if acc \<noteq> DecisionDeny then DecisionWarn else acc)
      else acc)"

definition decide_image :: "lib \<Rightarrow> texts \<Rightarrow> reviewer \<Rightarrow> workloadInfo \<Rightarrow> admDecision \<Rightarrow> string \<Rightarrow> admDecision option" where
  "decide_image lb tx rv info dec img =
     (let res = imageResult lb rv info img;
          dec' = dec\<lparr> dcVerdict := worst (dcVerdict dec) (rsDecision res),
                   dcDenials := foldl add_new (dcDenials dec) (map (Pair img) (Denials res)),
                   dcEvalErr := (dcEvalErr dec \<or> list_ex (\<lambda>d. rrError d \<noteq> None) (Denials res)),
                   dcWarnings := foldl add_new (dcWarnings dec) (map (Pair img) (Warnings res)) \<rparr>
      in if rvExplain rv
         then (case Explain lb tx (rvEngine rv) res (imageInput rv info img) of
                 None \<Rightarrow> None
               | Some ex \<Rightarrow> Some (dec'\<lparr> dcEx := mergeExplanation tx (dcEx dec') (Some ex) img \<rparr>))
         else Some dec')"

fun decide_images :: "lib \<Rightarrow> texts \<Rightarrow> reviewer \<Rightarrow> workloadInfo \<Rightarrow> admDecision \<Rightarrow> string list \<Rightarrow> admDecision option" where
  "decide_images lb tx rv info dec [] = Some dec"
| "decide_images lb tx rv info dec (img # imgs) =
     Option.bind (decide_image lb tx rv info dec img) (\<lambda>dec'. decide_images lb tx rv info dec' imgs)"

definition reviewed_images :: "workloadInfo \<Rightarrow> string list" where
  "reviewed_images info = (if wiImages info = [] then [[]] else wiImages info)"

definition adm_decide :: "lib \<Rightarrow> texts \<Rightarrow> reviewer \<Rightarrow> workloadInfo \<Rightarrow> admDecision option" where
  "adm_decide lb tx rv info =
     map_option (\<lambda>dec. dec\<lparr> dcBlocked := (dcVerdict dec = DecisionDeny) \<rparr>)
       (decide_images lb tx rv info
          \<lparr> dcBlocked = False, dcVerdict = DecisionAllow, dcDenials = [], dcWarnings = [], dcEx = None, dcEvalErr = False \<rparr>
          (reviewed_images info))"

definition denial_line :: "texts \<Rightarrow> string \<times> ruleResult \<Rightarrow> string" where
  "denial_line tx d =
     (let rr = snd d;
          reason = (case rrError rr of Some e \<Rightarrow> ''evaluation error (fail-closed): '' @ txRuleErr tx e | None \<Rightarrow> rrMessage rr)
      in (if fst d \<noteq> [] then CHR 0x0A # ''  - ['' @ rrRuleID rr @ ''] '' @ fst d @ '': '' @ reason
          else CHR 0x0A # ''  - '' @ rrRuleID rr @ '': '' @ reason)
         @ (if rrRemediation rr \<noteq> [] then CHR 0x0A # ''    fix: '' @ rrRemediation rr else []))"

definition denyMessage :: "texts \<Rightarrow> (string \<times> ruleResult) list \<Rightarrow> string" where
  "denyMessage tx ds =
     ''denied by docker-security policy ('' @ fmt_int (int (length ds)) @ '' violation(s)):'' @ concat (map (denial_line tx) ds)"

definition warningLines :: "(string \<times> ruleResult) list \<Rightarrow> string list" where
  "warningLines ws =
     sort_Strings (map (\<lambda>(img, rr). if img \<noteq> [] then ''['' @ rrRuleID rr @ ''] '' @ img @ '': '' @ rrMessage rr
                                    else rrRuleID rr @ '': '' @ rrMessage rr) ws)"

definition attachAudit :: "admJSON \<Rightarrow> reviewer \<Rightarrow> admissionResponse \<Rightarrow> admDecision \<Rightarrow> admissionResponse" where
  "attachAudit js rv resp dec =
     (let ann = [''docker-security.policy/decision'' \<mapsto> dcVerdict dec]
      in resp\<lparr> apAudit :=
           (case (if rvExplain rv then Option.bind (dcEx dec) (ajExplanation js) else None) of
              Some data \<Rightarrow> ann(''docker-security.policy/explanation'' \<mapsto> data)
            | None \<Rightarrow> ann) \<rparr>)"

definition toResponse :: "admJSON \<Rightarrow> texts \<Rightarrow> reviewer \<Rightarrow> string \<Rightarrow> admDecision \<Rightarrow> admissionResponse" where
  "toResponse js tx rv uid dec =
     (if dcBlocked dec \<and> dcEvalErr dec \<and> rvFailOpen rv then
        attachAudit js rv \<lparr> apUID = uid, apAllowed = True, apStatus = None,
            apWarnings = warningLines (dcWarnings dec) @ [''policy evaluation error (fail-open): admitted for audit''],
            apAudit = Map.empty \<rparr> dec
      else
        attachAudit js rv \<lparr> apUID = uid, apAllowed = (\<not> dcBlocked dec),
            apStatus = (if dcBlocked dec
               then Some \<lparr> stCode = 403, stMessage = denyMessage tx (dcDenials dec), stReason = ''Forbidden'' \<rparr> else None),
            apWarnings = warningLines (dcWarnings dec), apAudit = Map.empty \<rparr> dec)"

definition adm_onError :: "reviewer \<Rightarrow> string \<Rightarrow> string \<Rightarrow> admissionResponse" where
  "adm_onError rv uid msg =
     (if rvFailOpen rv then
        \<lparr> apUID = uid, apAllowed = True, apStatus = None, apWarnings = [''admission: '' @ msg @ '' (fail-open)''], apAudit = Map.empty \<rparr>
      else
        \<lparr> apUID = uid, apAllowed = False,
          apStatus = Some \<lparr> stCode = 400, stMessage = ''admission: '' @ msg @ '' (fail-closed)'', stReason = ''Forbidden'' \<rparr>,
          apWarnings = [], apAudit = Map.empty \<rparr>)"

definition newResponseReview :: "admissionResponse \<Rightarrow> admissionReview" where
  "newResponseReview resp = \<lparr> avRequest = None, avResponse = Some resp \<rparr>"

definition Review :: "lib \<Rightarrow> admJSON \<Rightarrow> texts \<Rightarrow> reviewer \<Rightarrow> admissionReview option \<Rightarrow> admissionReview option" where
  "Review lb js tx rv ar =
     (case Option.bind ar avRequest of
        None \<Rightarrow> Some (newResponseReview (adm_onError rv [] ''missing admission request''))
      | Some req \<Rightarrow>
          (case extractWorkload js (arObject req) of
             Inl e \<Rightarrow> Some (newResponseReview (adm_onError rv (arUID req) (''could not parse workload: '' @ e)))
           | Inr info \<Rightarrow>
               map_option (\<lambda>dec. newResponseReview (toResponse js tx rv (arUID req) dec)) (adm_decide lb tx rv info)))"

definition adm_maxBodyBytes :: nat where
  "adm_maxBodyBytes = 3145728"

definition handleValidate ::
    "(bytes \<Rightarrow> admissionReview option) \<Rightarrow> lib \<Rightarrow> admJSON \<Rightarrow> texts \<Rightarrow> reviewer \<Rightarrow> bytes \<Rightarrow> admissionReview option" where
  "handleValidate decodeAR lb js tx rv body =
     (case (if length body > adm_maxBodyBytes then None else decodeAR body) of
        None \<Rightarrow> Review lb js tx rv (Some \<lparr> avRequest = None, avResponse = None \<rparr>)
      | Some ar \<Rightarrow> Review lb js tx rv (Some ar))"

subsection \<open>What a workload shows of its containers\<close>

lemma flag_updates:
  "(if P then w\<lparr> wPrivileged := True \<rparr> else w) = w\<lparr> wPrivileged := wPrivileged w \<or> P \<rparr>"
  "(if P then w\<lparr> wRunAsRoot := True \<rparr> else w) = w\<lparr> wRunAsRoot := wRunAsRoot w \<or> P \<rparr>"
  "(if \<not> P then w\<lparr> wReadOnlyRootFS := False \<rparr> else w) = w\<lparr> wReadOnlyRootFS := wReadOnlyRootFS w \<and> P \<rparr>"
  "(if P then w\<lparr> wAllowPrivilegeEscalation := True \<rparr> else w) = w\<lparr> wAllowPrivilegeEscalation := wAllowPrivilegeEscalation w \<or> P \<rparr>"
  by simp_all

lemma flatten_container_step:
  "flatten_container pod (w, imgs) c =
     (w\<lparr> wPrivileged := wPrivileged w \<or> runsPrivileged (pcSecurityContext c),
        wRunAsRoot := wRunAsRoot w \<or> \<not> guaranteedNonRoot (pcSecurityContext c) pod,
        wReadOnlyRootFS := wReadOnlyRootFS w \<and> readOnlyRoot (pcSecurityContext c),
        wAllowPrivilegeEscalation := wAllowPrivilegeEscalation w \<or> allowsEscalation (pcSecurityContext c),
        wCapabilities := foldl add_cap (wCapabilities w) (addedCaps (pcSecurityContext c)) \<rparr>,
      imgs @ filter (\<lambda>i. i \<noteq> []) [pcImage c])"
  unfolding flatten_container_def Let_def flag_updates by simp

lemma flatten_container_fold:
  "foldl (flatten_container pod) (w, imgs) cs =
     (w\<lparr> wPrivileged := wPrivileged w \<or> list_ex (runsPrivileged \<circ> pcSecurityContext) cs,
        wRunAsRoot := wRunAsRoot w \<or> list_ex (\<lambda>c. \<not> guaranteedNonRoot (pcSecurityContext c) pod) cs,
        wReadOnlyRootFS := wReadOnlyRootFS w \<and> list_all (readOnlyRoot \<circ> pcSecurityContext) cs,
        wAllowPrivilegeEscalation := wAllowPrivilegeEscalation w \<or> list_ex (allowsEscalation \<circ> pcSecurityContext) cs,
        wCapabilities := foldl add_cap (wCapabilities w) (concat (map (addedCaps \<circ> pcSecurityContext) cs)) \<rparr>,
      imgs @ filter (\<lambda>i. i \<noteq> []) (map pcImage cs))"
proof (induction cs arbitrary: w imgs)
  case (Cons c cs)
  show ?case
    by (simp only: foldl_Cons flatten_container_step Cons.IH) (simp add: conj_assoc disj_assoc)
qed simp

lemma hasCap_lower: "hasCap caps x \<longleftrightarrow> strings_ToLower x \<in> set (map strings_ToLower caps)"
  unfolding hasCap_def list_ex_iff set_map image_iff by metis

lemma add_cap_lower: "set (map strings_ToLower (add_cap caps c)) = insert (strings_ToLower c) (set (map strings_ToLower caps))"
  unfolding add_cap_def hasCap_lower by (cases "strings_ToLower c \<in> set (map strings_ToLower caps)") (simp_all add: insert_absorb)

lemma hasCap_fold: "hasCap (foldl add_cap caps cs) x \<longleftrightarrow> hasCap caps x \<or> hasCap cs x"
  unfolding hasCap_lower
proof (induction cs arbitrary: caps)
  case (Cons c cs)
  show ?case unfolding foldl_Cons Cons.IH add_cap_lower by auto
qed simp

text \<open>
  The workload is the union of the risks of all containers, init and ephemeral ones included, and the intersection
  of their guarantees; a capability is listed, up to case, exactly when some container adds it, and the images are
  those of the containers in order.
\<close>

theorem flatten_exact:
  fixes ps :: podSpec
  defines "cs \<equiv> podContainers ps" and "w \<equiv> wiWorkload (flatten ps)"
  shows "wPresent w \<and> wHostNetwork w = psHostNetwork ps \<and> wHostPID w = psHostPID ps \<and> wHostIPC w = psHostIPC ps
    \<and> (wPrivileged w \<longleftrightarrow> list_ex (runsPrivileged \<circ> pcSecurityContext) cs)
    \<and> (wRunAsRoot w \<longleftrightarrow> list_ex (\<lambda>c. \<not> guaranteedNonRoot (pcSecurityContext c) (psSecurityContext ps)) cs)
    \<and> (wReadOnlyRootFS w \<longleftrightarrow> cs \<noteq> [] \<and> list_all (readOnlyRoot \<circ> pcSecurityContext) cs)
    \<and> (wAllowPrivilegeEscalation w \<longleftrightarrow> list_ex (allowsEscalation \<circ> pcSecurityContext) cs)
    \<and> (wUsesHostPath w \<longleftrightarrow> list_ex (\<lambda>v. pvHostPath v \<noteq> None) (psVolumes ps))
    \<and> (hasCap (wCapabilities w) x \<longleftrightarrow> hasCap (concat (map (addedCaps \<circ> pcSecurityContext) cs)) x)
    \<and> wImages w = filter (\<lambda>i. i \<noteq> []) (map pcImage cs) \<and> wiImages (flatten ps) = wImages w"
proof -
  have n: "\<not> hasCap [] x" by (simp add: hasCap_def)
  show ?thesis
    unfolding cs_def w_def flatten_def Let_def flatten_container_fold
    by (simp add: absent_workload_def hasCap_fold n)
qed

subsection \<open>The verdict over all images\<close>

definition workload_denied :: "lib \<Rightarrow> reviewer \<Rightarrow> workloadInfo \<Rightarrow> bool" where
  "workload_denied lb rv info \<longleftrightarrow> list_ex (\<lambda>img. rsDecision (imageResult lb rv info img) = DecisionDeny) (reviewed_images info)"

definition eval_failed :: "lib \<Rightarrow> reviewer \<Rightarrow> workloadInfo \<Rightarrow> bool" where
  "eval_failed lb rv info \<longleftrightarrow>
     list_ex (\<lambda>img. list_ex (\<lambda>cr. rrError (evalRule lb (imageInput rv info img) cr) \<noteq> None) (enRules (rvEngine rv)))
       (reviewed_images info)"

definition denial_errors :: "result \<Rightarrow> bool" where
  "denial_errors res \<longleftrightarrow> list_ex (\<lambda>d. rrError d \<noteq> None) (Denials res)"

lemma worst_fold: "foldl worst acc ds = DecisionDeny \<longleftrightarrow> acc = DecisionDeny \<or> DecisionDeny \<in> set ds"
  by (induction ds arbitrary: acc) (auto simp: worst_def)

lemma decide_image_some:
  "\<exists>dec'. decide_image lb tx rv info dec img = Some dec'
     \<and> dcVerdict dec' = worst (dcVerdict dec) (rsDecision (imageResult lb rv info img))
     \<and> dcEvalErr dec' = (dcEvalErr dec \<or> denial_errors (imageResult lb rv info img))
     \<and> dcDenials dec' = foldl add_new (dcDenials dec) (map (Pair img) (Denials (imageResult lb rv info img)))
     \<and> dcWarnings dec' = foldl add_new (dcWarnings dec) (map (Pair img) (Warnings (imageResult lb rv info img)))"
proof -
  obtain ex where "Explain lb tx (rvEngine rv) (imageResult lb rv info img) (imageInput rv info img) = Some ex"
    using Explain_agrees [of lb tx "rvEngine rv" "imageInput rv info img" "rvNow rv"] unfolding imageResult_def by blast
  then show ?thesis by (simp add: decide_image_def Let_def denial_errors_def)
qed

lemma decide_images_some:
  "\<exists>dec'. decide_images lb tx rv info dec imgs = Some dec'
     \<and> dcVerdict dec' = foldl worst (dcVerdict dec) (map (\<lambda>img. rsDecision (imageResult lb rv info img)) imgs)
     \<and> dcEvalErr dec' = (dcEvalErr dec \<or> list_ex (\<lambda>img. denial_errors (imageResult lb rv info img)) imgs)
     \<and> dcDenials dec' = foldl add_new (dcDenials dec) (concat (map (\<lambda>img. map (Pair img) (Denials (imageResult lb rv info img))) imgs))
     \<and> dcWarnings dec' = foldl add_new (dcWarnings dec) (concat (map (\<lambda>img. map (Pair img) (Warnings (imageResult lb rv info img))) imgs))"
proof (induction imgs arbitrary: dec)
  case (Cons img imgs)
  obtain d1 where d1: "decide_image lb tx rv info dec img = Some d1"
    "dcVerdict d1 = worst (dcVerdict dec) (rsDecision (imageResult lb rv info img))"
    "dcEvalErr d1 = (dcEvalErr dec \<or> denial_errors (imageResult lb rv info img))"
    "dcDenials d1 = foldl add_new (dcDenials dec) (map (Pair img) (Denials (imageResult lb rv info img)))"
    "dcWarnings d1 = foldl add_new (dcWarnings dec) (map (Pair img) (Warnings (imageResult lb rv info img)))"
    using decide_image_some by blast
  from Cons.IH [of d1] show ?case by (simp add: d1 disj_assoc)
qed simp

text \<open>A review always comes to a decision: explaining the results of its own engine does not panic.\<close>

lemma decide_total:
  "\<exists>dec. adm_decide lb tx rv info = Some dec
     \<and> dcBlocked dec = workload_denied lb rv info
     \<and> dcBlocked dec = (dcVerdict dec = DecisionDeny)
     \<and> dcEvalErr dec = list_ex (\<lambda>img. denial_errors (imageResult lb rv info img)) (reviewed_images info)"
proof -
  obtain dec where d: "decide_images lb tx rv info
        \<lparr> dcBlocked = False, dcVerdict = DecisionAllow, dcDenials = [], dcWarnings = [], dcEx = None, dcEvalErr = False \<rparr>
        (reviewed_images info) = Some dec"
    "dcVerdict dec = foldl worst DecisionAllow (map (\<lambda>img. rsDecision (imageResult lb rv info img)) (reviewed_images info))"
    "dcEvalErr dec = list_ex (\<lambda>img. denial_errors (imageResult lb rv info img)) (reviewed_images info)"
    using decide_images_some [of lb tx rv info
      "\<lparr> dcBlocked = False, dcVerdict = DecisionAllow, dcDenials = [], dcWarnings = [], dcEx = None, dcEvalErr = False \<rparr>"
      "reviewed_images info"] by auto
  have "dcVerdict dec = DecisionDeny \<longleftrightarrow> workload_denied lb rv info"
    unfolding d(2) worst_fold workload_denied_def list_ex_iff set_map image_iff by (metis decisions_distinct(2))
  then show ?thesis using d(1,3) by (simp add: adm_decide_def)
qed

lemma rule_errors:
  "errored (set (rsRules (Evaluate lb e i now))) \<longleftrightarrow> list_ex (\<lambda>cr. rrError (evalRule lb i cr) \<noteq> None) (enRules e)"
  using error_not_waivable [of lb i _ _ "enWaivers e" now]
  by (auto simp: errored_def Evaluate_rules Evaluate_waived list_ex_iff)

text \<open>In a denied result the denials carry an error exactly when some rule did not evaluate.\<close>

lemma denial_errors_exact:
  "denial_errors (Evaluate lb e i now) \<longleftrightarrow> rsDecision (Evaluate lb e i now) = DecisionDeny
     \<and> list_ex (\<lambda>cr. rrError (evalRule lb i cr) \<noteq> None) (enRules e)"
  unfolding rule_errors [of lb e i now, symmetric]
  by (auto simp: denial_errors_def Denials_def list_ex_iff blocking_def errored_def)

lemma errors_deny:
  assumes "list_ex (\<lambda>cr. rrError (evalRule lb i cr) \<noteq> None) (enRules e)" and "policy_mode (enPolicy e) \<noteq> ModeAudit"
  shows "rsDecision (Evaluate lb e i now) = DecisionDeny"
  using assms by (simp add: Evaluate_decision verdict_def rule_errors)

lemma denied_enforces: "rsDecision (Evaluate lb e i now) = DecisionDeny \<Longrightarrow> policy_mode (enPolicy e) \<noteq> ModeAudit"
  using verdict_audit by (metis Evaluate_decision)

lemma evalErr_exact:
  assumes "workload_denied lb rv info"
  shows "list_ex (\<lambda>img. denial_errors (imageResult lb rv info img)) (reviewed_images info) \<longleftrightarrow> eval_failed lb rv info"
proof -
  have "policy_mode (enPolicy (rvEngine rv)) \<noteq> ModeAudit"
    using assms denied_enforces by (auto simp: workload_denied_def list_ex_iff imageResult_def)
  then have "denial_errors (imageResult lb rv info img) \<longleftrightarrow>
      list_ex (\<lambda>cr. rrError (evalRule lb (imageInput rv info img) cr) \<noteq> None) (enRules (rvEngine rv))" for img
    unfolding imageResult_def denial_errors_exact using errors_deny by blast
  then show ?thesis by (simp add: eval_failed_def)
qed

lemma reviewed_flatten:
  "reviewed_images (flatten ps) =
     (case filter (\<lambda>i. i \<noteq> []) (map pcImage (psContainers ps @ psInitContainers ps @ psEphemeralContainers ps)) of
        [] \<Rightarrow> [[]] | i # is \<Rightarrow> i # is)"
proof -
  have "wiImages (flatten ps) = filter (\<lambda>i. i \<noteq> []) (map pcImage (podContainers ps))"
    unfolding flatten_def Let_def flatten_container_fold by simp
  then show ?thesis unfolding reviewed_images_def podContainers_def by (simp split: list.split)
qed

lemma newResponseReview_inj [simp]: "newResponseReview a = newResponseReview b \<longleftrightarrow> a = b"
  by (simp add: newResponseReview_def)

lemma attachAudit_frame [simp]:
  "apAllowed (attachAudit js rv resp dec) = apAllowed resp" "apUID (attachAudit js rv resp dec) = apUID resp"
  "apStatus (attachAudit js rv resp dec) = apStatus resp" "apWarnings (attachAudit js rv resp dec) = apWarnings resp"
  by (simp_all add: attachAudit_def Let_def)

lemma review_allows:
  "\<exists>resp. Review lb js tx rv ar = Some (newResponseReview resp)
     \<and> (apAllowed resp \<longleftrightarrow>
          (case Option.bind ar avRequest of
             None \<Rightarrow> rvFailOpen rv
           | Some req \<Rightarrow>
               (case extractWorkload js (arObject req) of
                  Inl e \<Rightarrow> rvFailOpen rv
                | Inr info \<Rightarrow> (if workload_denied lb rv info then rvFailOpen rv \<and> eval_failed lb rv info else True))))
     \<and> apUID resp = (case Option.bind ar avRequest of None \<Rightarrow> [] | Some req \<Rightarrow> arUID req)
     \<and> (apStatus resp = None \<longleftrightarrow> apAllowed resp)"
proof -
  have onErr: "apAllowed (adm_onError rv u m) = rvFailOpen rv" "apUID (adm_onError rv u m) = u"
    "apStatus (adm_onError rv u m) = None \<longleftrightarrow> rvFailOpen rv" for u m
    by (simp_all add: adm_onError_def)
  show ?thesis
  proof (cases "Option.bind ar avRequest")
    case None
    then show ?thesis using onErr by (simp add: Review_def)
  next
    case (Some req)
    show ?thesis
    proof (cases "extractWorkload js (arObject req)")
      case (Inl e)
      then show ?thesis using onErr Some by (simp add: Review_def)
    next
      case (Inr info)
      obtain dec where dec: "adm_decide lb tx rv info = Some dec" "dcBlocked dec = workload_denied lb rv info"
        "dcEvalErr dec = list_ex (\<lambda>img. denial_errors (imageResult lb rv info img)) (reviewed_images info)"
        using decide_total by blast
      then have "apAllowed (toResponse js tx rv (arUID req) dec) \<longleftrightarrow>
          (if workload_denied lb rv info then rvFailOpen rv \<and> eval_failed lb rv info else True)"
        using evalErr_exact by (auto simp: toResponse_def)
      moreover have "apUID (toResponse js tx rv (arUID req) dec) = arUID req"
        "apStatus (toResponse js tx rv (arUID req) dec) = None \<longleftrightarrow> apAllowed (toResponse js tx rv (arUID req) dec)"
        by (simp_all add: toResponse_def)
      ultimately show ?thesis using Some Inr dec(1) by (simp add: Review_def)
    qed
  qed
qed


text \<open>A body above the limit or that does not decode is answered like a request that is missing.\<close>

lemma handleValidate_unreadable:
  "adm_maxBodyBytes < length body \<or> decodeAR body = None \<Longrightarrow>
     handleValidate decodeAR lb js tx rv body = Some (newResponseReview (adm_onError rv [] ''missing admission request''))"
  by (auto simp: handleValidate_def Review_def)

text \<open>
  Failing open is said to rescue evaluation errors only, never a clean deny. It does rescue one: an object that a
  rule denies without any error is admitted as soon as another rule fails to evaluate on it.
\<close>

definition deny_all :: compiledRule where
  "deny_all = \<lparr> crRule = rule0 ''deny'' ''true'' EffectDeny, crAst = LitNode (VBool True) \<rparr>"

definition broken_rule :: compiledRule where
  "broken_rule = \<lparr> crRule = rule0 ''b'' ''has_rule(true)'' EffectWarn, crAst = CallNode ''has_rule'' [LitNode (VBool True)] \<rparr>"

definition reviewer_of :: "bool \<Rightarrow> compiledRule list \<Rightarrow> reviewer" where
  "reviewer_of failOpen rules =
     \<lparr> rvEngine = \<lparr> enPolicy = policy0 [] [], enRules = rules, enWaivers = [] \<rparr>, rvResolver = emptyResolver,
       rvNow = 1, rvExplain = False, rvFailOpen = failOpen \<rparr>"

lemma emptyResolver_input: "imageInput (reviewer_of f rules) info img =
   \<lparr> inFindings = [], inImage = parseImageRef img, inWorkload = wiWorkload info,
     inAttest = Some (staticState \<lparr> saIsSigned = False, saPredicates = [] \<rparr>), inLicenses = [], inPackages = [] \<rparr>"
  by (simp add: imageInput_def reviewer_of_def emptyResolver_def)

lemma reviewed_nonempty: "list_ex P (reviewed_images info) \<longleftrightarrow> (\<exists>img. img \<in> set (reviewed_images info) \<and> P img)"
  "\<exists>img. img \<in> set (reviewed_images info)"
  by (auto simp: list_ex_iff reviewed_images_def) (metis list.set_intros(1) neq_Nil_conv)

theorem fail_open_admits_denied:
  assumes "extractWorkload js (arObject req) = Inr info"
  shows "workload_denied lb (reviewer_of True [deny_all]) info \<and> \<not> eval_failed lb (reviewer_of True [deny_all]) info
    \<and> (\<exists>resp. Review lb js tx (reviewer_of True [deny_all, broken_rule]) (Some \<lparr> avRequest = Some req, avResponse = None \<rparr>)
          = Some (newResponseReview resp) \<and> apAllowed resp)"
proof -
  have d: "rsDecision (imageResult lb (reviewer_of True [deny_all]) info img) = DecisionDeny" for img
    by (simp add: imageResult_def reviewer_of_def Evaluate_decision verdict_def Evaluate_rules fires_def errored_def
        deny_all_def evalRule_def rule0_def policy0_def policy_mode_def ModeAudit_def ModeEnforce_def apply_rule_def)
  have n: "rrError (evalRule lb i deny_all) = None" for i by (simp add: evalRule_outcome deny_all_def)
  have b: "rrError (evalRule lb i broken_rule) \<noteq> None" for i
    by (simp add: evalRule_outcome broken_rule_def builtins_def fn1_def sarg_def argAt_def strArg_def)
  let ?rv = "reviewer_of True [deny_all, broken_rule]"
  have f: "eval_failed lb ?rv info" and o: "rvFailOpen ?rv"
    using reviewed_nonempty b by (simp_all add: eval_failed_def reviewer_of_def)
  have "workload_denied lb (reviewer_of True [deny_all]) info"
    using reviewed_nonempty d by (simp add: workload_denied_def)
  moreover have "\<not> eval_failed lb (reviewer_of True [deny_all]) info"
    using n by (simp add: eval_failed_def reviewer_of_def list_ex_iff)
  moreover obtain resp where "Review lb js tx ?rv (Some \<lparr> avRequest = Some req, avResponse = None \<rparr>) = Some (newResponseReview resp)"
    "apAllowed resp"
    using review_allows [of lb js tx ?rv "Some \<lparr> avRequest = Some req, avResponse = None \<rparr>"] assms f o by (auto split: if_splits)
  ultimately show ?thesis by blast
qed

end
