(* ===== verification/Compliance.thy ===== *)
theory Compliance
  imports EngineModel GoData GoMath
begin

text \<open>
  Benchmark auditing of \<^verbatim>\<open>internal/compliance\<close>: controls and statuses (\<^verbatim>\<open>compliance.go\<close>), the order of
  control ids and the framework mappings (\<^verbatim>\<open>framework.go\<close>), a benchmark run and its aggregation
  (\<^verbatim>\<open>report.go\<close>), waivers (\<^verbatim>\<open>waiver.go\<close>), drift (\<^verbatim>\<open>drift.go\<close>) and the findings of a report
  (\<^verbatim>\<open>finding.go\<close>). A time is a number of nanoseconds since the year 1, 0 the zero time; the two date
  parsers of the standard library are the record \<open>dates\<close>. The assessor of a benchmark is an argument.
\<close>

subsection \<open>Controls\<close>

datatype level = LevelUnset | Level1 | Level2

fun Level_String :: "level \<Rightarrow> string" where
  "Level_String Level2 = ''L2''"
| "Level_String Level1 = ''L1''"
| "Level_String LevelUnset = ''L1''"

datatype status = StatusUnknown | StatusInfo | StatusPass | StatusWarn | StatusFail

fun Status_String :: "status \<Rightarrow> string" where
  "Status_String StatusPass = ''PASS''"
| "Status_String StatusWarn = ''WARN''"
| "Status_String StatusFail = ''FAIL''"
| "Status_String StatusInfo = ''INFO''"
| "Status_String StatusUnknown = ''UNKNOWN''"

record frameworkRef =
  frFramework :: string
  frID :: string

record ctlFix =
  fxKind :: string
  fxTarget :: string
  fxSnippet :: string
  fxDryRun :: string

record control =
  ctID :: string
  ctTitle :: string
  ctSection :: string
  ctLevel :: level
  ctScored :: bool
  ctDescription :: string
  ctRemediation :: string
  ctFrameworks :: "frameworkRef list"
  ctFix :: "ctlFix option"

record assessment =
  asmStatus :: status
  asmEvidence :: string
  asmActual :: string

record benchmark =
  bmCode :: string
  bmName :: string
  bmVersion :: string
  bmProfile :: string
  bmControls :: "control list"

subsection \<open>Frameworks\<close>

definition FrameworkCIS :: string where "FrameworkCIS = ''CIS''"

definition hasNonCIS :: "frameworkRef list \<Rightarrow> bool" where
  "hasNonCIS refs \<longleftrightarrow> list_ex (\<lambda>r. frFramework r \<noteq> FrameworkCIS \<and> frFramework r \<noteq> []) refs"

definition ctl_References :: "control \<Rightarrow> string \<Rightarrow> string list" where
  "ctl_References c benchmarkName =
     dedupe_by id [] (filter (\<lambda>s. s \<noteq> [])
       ((benchmarkName @ '' '' @ ctID c) # map (\<lambda>r. frFramework r @ '' '' @ frID r) (ctFrameworks c)))"

definition count_in :: "(string \<times> int) list \<Rightarrow> string \<Rightarrow> (string \<times> int) list" where
  "count_in cov fw = kv_put fw ((case map_of cov fw of Some n \<Rightarrow> n | None \<Rightarrow> 0) + 1) cov"

definition cover_control :: "(string \<times> int) list \<Rightarrow> control \<Rightarrow> (string \<times> int) list" where
  "cover_control cov c =
     foldl count_in (count_in cov FrameworkCIS)
       (dedupe_by id [FrameworkCIS] (filter (\<lambda>fw. fw \<noteq> []) (map frFramework (ctFrameworks c))))"

definition FrameworkCoverage :: "control list \<Rightarrow> (string \<times> int) list" where
  "FrameworkCoverage cs = foldl cover_control [] cs"

definition SortedFrameworks :: "(string \<times> int) list \<Rightarrow> string list" where
  "SortedFrameworks cov = sort_Strings (map fst cov)"

text \<open>The order of control ids: a number per segment where both are numbers, text otherwise.\<close>

fun atoi_loop :: "int \<Rightarrow> string \<Rightarrow> int option" where
  "atoi_loop n [] = Some n"
| "atoi_loop n (c # cs) = (if isDigit c then atoi_loop (wrap64 (n * 10 + int (digitVal c))) cs else None)"

definition ctl_atoi :: "string \<Rightarrow> int \<times> bool" where
  "ctl_atoi s = (if s = [] then (0, False) else case atoi_loop 0 s of None \<Rightarrow> (0, False) | Some n \<Rightarrow> (n, True))"

fun compare_segments :: "string list \<Rightarrow> string list \<Rightarrow> bool" where
  "compare_segments (a # as) (b # bs) =
     (if snd (ctl_atoi a) \<and> snd (ctl_atoi b)
      then (if fst (ctl_atoi a) \<noteq> fst (ctl_atoi b) then fst (ctl_atoi a) < fst (ctl_atoi b) else compare_segments as bs)
      else if a \<noteq> b then str_less a b
      else compare_segments as bs)"
| "compare_segments [] bs = (bs \<noteq> [])"
| "compare_segments (a # as) [] = False"

definition compareControlID :: "string \<Rightarrow> string \<Rightarrow> bool" where
  "compareControlID a b = compare_segments (split_byte CHR ''.'' a) (split_byte CHR ''.'' b)"

subsection \<open>Reports\<close>

record benchResult =
  brControl :: control
  brStatus :: status
  brEvidence :: string
  brActual :: string
  brWaived :: bool
  brWaiverReason :: string

record benchReport =
  rpBenchmark :: string
  rpVersion :: string
  rpProfile :: string
  rpResults :: "benchResult list"

definition effectiveStatus :: "benchResult \<Rightarrow> status" where
  "effectiveStatus r = (if brWaived r \<and> (brStatus r = StatusFail \<or> brStatus r = StatusWarn) then StatusInfo else brStatus r)"

definition assess_result :: "(control \<Rightarrow> assessment) \<Rightarrow> control \<Rightarrow> benchResult" where
  "assess_result assess c =
     (let a = assess c;
          a' = (if asmStatus a = StatusUnknown
                then a\<lparr> asmStatus := StatusInfo,
                        asmEvidence := (if asmEvidence a = [] then ''no check implemented for this control; manual review required''
                                        else asmEvidence a) \<rparr>
                else a)
      in \<lparr> brControl = c, brStatus = asmStatus a', brEvidence = asmEvidence a', brActual = asmActual a',
           brWaived = False, brWaiverReason = [] \<rparr>)"

definition result_less :: "benchResult \<Rightarrow> benchResult \<Rightarrow> bool" where
  "result_less a b = compareControlID (ctID (brControl a)) (ctID (brControl b))"

definition bench_Run :: "benchmark \<Rightarrow> (control \<Rightarrow> assessment) \<Rightarrow> benchReport" where
  "bench_Run b assess =
     \<lparr> rpBenchmark = bmName b, rpVersion = bmVersion b, rpProfile = bmProfile b,
       rpResults = sort_stable result_less (map (assess_result assess) (bmControls b)) \<rparr>"

definition bench_Counts :: "benchReport \<Rightarrow> status \<Rightarrow> int" where
  "bench_Counts r s = int (length (filter (\<lambda>res. effectiveStatus res = s) (rpResults r)))"

definition score_of :: "int \<Rightarrow> int \<Rightarrow> int" where
  "score_of pass scorable =
     (if scorable = 0 then 100 else fto_int (fmul (fdiv (float_of_int pass) (float_of_int scorable)) (Fin 100)))"

definition Score :: "benchReport \<Rightarrow> int" where
  "Score r = score_of (bench_Counts r StatusPass) (bench_Counts r StatusPass + bench_Counts r StatusFail)"

definition Failing :: "benchReport \<Rightarrow> benchResult list" where
  "Failing r = filter (\<lambda>res. effectiveStatus res = StatusFail) (rpResults r)"

definition bench_FailsAt :: "benchReport \<Rightarrow> bool \<Rightarrow> bool" where
  "bench_FailsAt r warnAlso \<longleftrightarrow>
     list_ex (\<lambda>res. effectiveStatus res = StatusFail \<or> effectiveStatus res = StatusWarn \<and> warnAlso) (rpResults r)"

subsection \<open>Waivers\<close>

record dates =
  dtRFC3339 :: "string \<Rightarrow> int option"
  dtDate :: "string \<Rightarrow> int option"

record benchWaiver =
  bwControl :: string
  bwBenchmark :: string
  bwReason :: string
  bwOwner :: string
  bwExpires :: string

definition bw_expiryTime :: "dates \<Rightarrow> benchWaiver \<Rightarrow> int" where
  "bw_expiryTime dt w =
     (if bwExpires w = [] then 0
      else case dtRFC3339 dt (bwExpires w) of
        Some t \<Rightarrow> t
      | None \<Rightarrow> (case dtDate dt (bwExpires w) of Some t \<Rightarrow> t + (24 * 3600 - 1) * 1000000000 | None \<Rightarrow> 0))"

definition bw_active :: "dates \<Rightarrow> benchWaiver \<Rightarrow> string \<Rightarrow> int \<Rightarrow> bool" where
  "bw_active dt w code now =
     (if bwBenchmark w \<noteq> [] \<and> bwBenchmark w \<noteq> code then False
      else bw_expiryTime dt w \<noteq> 0 \<and> now < bw_expiryTime dt w)"

definition waive_result :: "dates \<Rightarrow> benchWaiver list \<Rightarrow> string \<Rightarrow> int \<Rightarrow> benchResult \<Rightarrow> benchResult" where
  "waive_result dt ws code now res =
     (if brStatus res \<noteq> StatusFail \<and> brStatus res \<noteq> StatusWarn then res
      else case List.find (\<lambda>w. bwControl w = ctID (brControl res) \<and> bw_active dt w code now) ws of
        None \<Rightarrow> res
      | Some w \<Rightarrow> res\<lparr> brWaived := True, brWaiverReason := bwReason w @ '' (expires '' @ bwExpires w @ '')'' \<rparr>)"

definition bench_Apply :: "dates \<Rightarrow> benchWaiver list \<Rightarrow> benchReport \<Rightarrow> string \<Rightarrow> int \<Rightarrow> benchReport" where
  "bench_Apply dt ws rep code now =
     (if ws = [] then rep else rep\<lparr> rpResults := map (waive_result dt ws code now) (rpResults rep) \<rparr>)"

definition bw_less :: "dates \<Rightarrow> benchWaiver \<Rightarrow> benchWaiver \<Rightarrow> bool" where
  "bw_less dt a b =
     (if bw_expiryTime dt a \<noteq> bw_expiryTime dt b then bw_expiryTime dt a < bw_expiryTime dt b
      else compareControlID (bwControl a) (bwControl b))"

definition bench_Expiring :: "dates \<Rightarrow> benchWaiver list \<Rightarrow> int \<Rightarrow> int \<Rightarrow> benchWaiver list" where
  "bench_Expiring dt ws window now =
     sort_stable (bw_less dt)
       (filter (\<lambda>w. bw_expiryTime dt w \<noteq> 0 \<and> now \<le> bw_expiryTime dt w \<and> bw_expiryTime dt w < now + window) ws)"

subsection \<open>Drift\<close>

datatype change = ChangeRegressed | ChangeFixed | ChangeNew | ChangeRemoved | ChangeUnchanged

record driftEntry =
  deControlID :: string
  deTitle :: string
  deChange :: change
  deFrom :: status
  deTo :: status

record drift =
  dfBenchmark :: string
  dfRegressed :: "driftEntry list"
  dfFixed :: "driftEntry list"
  dfNew :: "driftEntry list"
  dfRemoved :: "driftEntry list"
  dfScoreFrom :: int
  dfScoreTo :: int

definition HasDrift :: "drift \<Rightarrow> bool" where
  "HasDrift d \<longleftrightarrow> dfRegressed d \<noteq> [] \<or> dfFixed d \<noteq> [] \<or> dfRemoved d \<noteq> []"

definition drift_entry :: "benchResult \<Rightarrow> change \<Rightarrow> status \<Rightarrow> status \<Rightarrow> driftEntry" where
  "drift_entry r ch src dst =
     \<lparr> deControlID = ctID (brControl r), deTitle = ctTitle (brControl r), deChange = ch, deFrom = src, deTo = dst \<rparr>"

definition baseline_of :: "benchReport option \<Rightarrow> (string \<times> benchResult) list" where
  "baseline_of bl = (case bl of None \<Rightarrow> [] | Some b \<Rightarrow> kv.put_all (\<lambda>r. ctID (brControl r)) (\<lambda>r. r) (rpResults b) [])"

text \<open>How one control moved; no entry when the change is none of the reported ones.\<close>

definition drift_of :: "(string \<times> benchResult) list \<Rightarrow> benchResult \<Rightarrow> driftEntry option" where
  "drift_of base cur =
     (let dst = effectiveStatus cur in
      case map_of base (ctID (brControl cur)) of
        None \<Rightarrow> Some (drift_entry cur ChangeNew StatusUnknown dst)
      | Some prev \<Rightarrow>
          (let src = effectiveStatus prev in
           if src = StatusPass \<and> (dst = StatusFail \<or> dst = StatusWarn) then Some (drift_entry cur ChangeRegressed src dst)
           else if (src = StatusFail \<or> src = StatusWarn) \<and> dst = StatusPass then Some (drift_entry cur ChangeFixed src dst)
           else None))"

definition sortEntries :: "driftEntry list \<Rightarrow> driftEntry list" where
  "sortEntries es = sort_stable (\<lambda>a b. compareControlID (deControlID a) (deControlID b)) es"

text \<open>The argument \<open>visit\<close> is the order in which the range over the baseline meets its entries.\<close>

definition bench_Diff ::
    "((string \<times> benchResult) list \<Rightarrow> (string \<times> benchResult) list) \<Rightarrow> benchReport option \<Rightarrow> benchReport \<Rightarrow> drift" where
  "bench_Diff visit bl current =
     (let base = baseline_of bl;
          es = List.map_filter (drift_of base) (rpResults current);
          ids = map (\<lambda>r. ctID (brControl r)) (rpResults current);
          gone = map (\<lambda>(i, prev). drift_entry prev ChangeRemoved (effectiveStatus prev) StatusUnknown)
                   (filter (\<lambda>(i, prev). i \<notin> set ids) (visit base))
      in \<lparr> dfBenchmark = rpBenchmark current,
           dfRegressed = sortEntries (filter (\<lambda>e. deChange e = ChangeRegressed) es),
           dfFixed = sortEntries (filter (\<lambda>e. deChange e = ChangeFixed) es),
           dfNew = sortEntries (filter (\<lambda>e. deChange e = ChangeNew) es),
           dfRemoved = sortEntries gone,
           dfScoreFrom = (case bl of None \<Rightarrow> 0 | Some b \<Rightarrow> Score b), dfScoreTo = Score current \<rparr>)"

subsection \<open>Findings\<close>

fun severityFor :: "status \<Rightarrow> severity \<times> bool" where
  "severityFor StatusFail = (SeverityHigh, True)"
| "severityFor StatusWarn = (SeverityMedium, True)"
| "severityFor StatusInfo = (SeverityInfo, True)"
| "severityFor s = (SeverityInfo, False)"

definition benchmarkCode :: "string \<Rightarrow> string" where
  "benchmarkCode name =
     (let l = strings_ToLower name in
      if strings_Index l ''kubernetes'' \<noteq> None then ''k8s''
      else if strings_Index l ''docker'' \<noteq> None then ''docker''
      else (let f = takeWhile (\<lambda>c. \<not> isSpaceByte c) (dropWhile isSpaceByte l) in if f \<noteq> [] then f else ''bench''))"

definition bench_ruleID :: "benchReport \<Rightarrow> string \<Rightarrow> string" where
  "bench_ruleID rep controlID = ''DS-RAT-CIS-'' @ strings_ToUpper (benchmarkCode (rpBenchmark rep)) @ ''-'' @ controlID"

definition frameworkRefs :: "benchReport \<Rightarrow> string list" where
  "frameworkRefs rep =
     (let cov = FrameworkCoverage (map brControl (rpResults rep)) in
      sort_Strings (map (\<lambda>fw. fw @ '' ('' @ fmt_int (case map_of cov fw of Some n \<Rightarrow> n | None \<Rightarrow> 0) @ '' controls)'')
        (SortedFrameworks cov)))"

definition profile_or_default :: "benchReport \<Rightarrow> string" where
  "profile_or_default rep = (if rpProfile rep = [] then ''default'' else rpProfile rep)"

definition bench_summary :: "string \<Rightarrow> benchReport \<Rightarrow> finding" where
  "bench_summary moduleName rep =
     (let n = (\<lambda>s. fmt_int (bench_Counts rep s)); score = fmt_int (Score rep); profile = profile_or_default rep in
      \<lparr> fRuleID = ''DS-RAT-CIS-SUMMARY'', fModule = moduleName, fSeverity = SeverityInfo,
        fTitle = rpBenchmark rep @ '': '' @ score @ ''% compliant ('' @ n StatusPass @ '' pass, '' @ n StatusFail @ '' fail, ''
          @ n StatusWarn @ '' warn)'',
        fDescription = ''Assessed '' @ fmt_int (int (length (rpResults rep))) @ '' controls against '' @ rpBenchmark rep @ '' v''
          @ rpVersion rep @ '' (profile '' @ profile @ '').'',
        fResource = rpBenchmark rep, fLocation = None, fRemediation = [], fReferences = frameworkRefs rep,
        fMetadata = [(''benchmark'', rpBenchmark rep), (''version'', rpVersion rep), (''profile'', profile), (''score'', score),
          (''pass'', n StatusPass), (''fail'', n StatusFail), (''warn'', n StatusWarn), (''info'', n StatusInfo)] \<rparr>)"

definition result_description :: "benchResult \<Rightarrow> string" where
  "result_description res =
     (let d0 = ctDescription (brControl res);
          d1 = (if brEvidence res \<noteq> [] then strings_TrimSpace (d0 @ '' Observed: '' @ brEvidence res) else d0)
      in if brWaived res then strings_TrimSpace (d1 @ '' [WAIVED: '' @ brWaiverReason res @ '']'') else d1)"

definition result_metadata :: "benchReport \<Rightarrow> benchResult \<Rightarrow> (string \<times> string) list" where
  "result_metadata rep res =
     (let c = brControl res in
      [(''benchmark'', rpBenchmark rep), (''control'', ctID c), (''status'', Status_String (brStatus res)),
       (''level'', Level_String (ctLevel c)), (''section'', ctSection c)]
      @ (if brActual res \<noteq> [] then [(''observed'', brActual res)] else [])
      @ (if brWaived res then [(''waived'', ''true'')] else [])
      @ (case ctFix c of None \<Rightarrow> []
         | Some f \<Rightarrow> [(''fix_kind'', fxKind f), (''fix_target'', fxTarget f), (''fix_snippet'', fxSnippet f)]))"

definition result_finding :: "string \<Rightarrow> benchReport \<Rightarrow> benchResult \<Rightarrow> finding option" where
  "result_finding moduleName rep res =
     (let c = brControl res; sv = severityFor (effectiveStatus res) in
      if \<not> snd sv \<or> effectiveStatus res = StatusPass then None
      else Some \<lparr> fRuleID = bench_ruleID rep (ctID c), fModule = moduleName, fSeverity = fst sv,
          fTitle = ''['' @ Status_String (brStatus res) @ '' '' @ ctID c @ ''] '' @ ctTitle c,
          fDescription = result_description res, fResource = rpBenchmark rep, fLocation = None,
          fRemediation = ctRemediation c, fReferences = ctl_References c (rpBenchmark rep),
          fMetadata = result_metadata rep res \<rparr>)"

definition bench_Findings :: "string \<Rightarrow> benchReport \<Rightarrow> finding list" where
  "bench_Findings moduleName rep =
     bench_summary moduleName rep # List.map_filter (result_finding moduleName rep) (rpResults rep)"

subsection \<open>The score\<close>

text \<open>Two roundings leave the percentage within a relative error of \<open>2 ^ -51\<close>.\<close>

lemma percent_error:
  assumes "0 < p" "p \<le> n" "n \<le> 2 ^ 40"
  shows "\<exists>r. fmul (fdiv (float_of_int p) (float_of_int n)) (Fin 100) = Fin r
    \<and> \<bar>r - 100 * of_int p / of_int n\<bar> \<le> 100 * of_int p / of_int n / 2 ^ 51"
proof -
  define x :: rat where "x = of_int p / of_int n"
  have n: "(0 :: rat) < of_int n" "(of_int p :: rat) \<le> of_int n" using assms by simp_all
  have "(of_int n :: rat) \<le> of_int (2 ^ 40)" using assms(3) by (simp only: of_int_le_iff)
  then have "1 / 2 ^ 40 \<le> 1 / (of_int n :: rat)" using n(1) by (intro divide_left_mono) simp_all
  also have "\<dots> \<le> x" unfolding x_def using assms(1) n(1) by (intro divide_right_mono) simp_all
  finally have x: "1 / 2 ^ 40 \<le> x" "x \<le> 1" using n by (simp_all add: x_def)
  have "(1 :: rat) / 2 ^ 1000 \<le> 1 / 2 ^ 40" "(1 :: rat) \<le> 2 ^ 1000" by simp_all
  then obtain r1 where r1: "round64 x = Fin r1" "\<bar>r1 - x\<bar> \<le> x / 2 ^ 53" using round64_error [of x] x by force
  have r1b: "x / 2 \<le> r1" "r1 \<le> 2 * x" using r1(2) [unfolded abs_le_iff] x by auto
  have "1 / 2 ^ 1000 \<le> r1 * 100" "r1 * 100 \<le> 2 ^ 1000"
  proof -
    have c: "(1 :: rat) / 2 ^ 1000 \<le> 50 * (1 / 2 ^ 40)" "(200 :: rat) \<le> 2 ^ 1000" by simp_all
    have "50 * (1 / 2 ^ 40) \<le> 50 * x" using x(1) by (rule mult_left_mono) simp
    moreover have "50 * x \<le> r1 * 100" "r1 * 100 \<le> 200" using r1b x(2) by linarith+
    ultimately show "1 / 2 ^ 1000 \<le> r1 * 100" "r1 * 100 \<le> 2 ^ 1000" using c by (blast intro: order_trans)+
  qed
  then obtain r2 where r2: "round64 (r1 * 100) = Fin r2" "\<bar>r2 - r1 * 100\<bar> \<le> r1 * 100 / 2 ^ 53" using round64_error by blast
  have "fmul (fdiv (float_of_int p) (float_of_int n)) (Fin 100) = Fin r2"
    using assms n r1 r2 by (simp add: float_of_int_exact x_def)
  moreover have "\<bar>r2 - 100 * x\<bar> \<le> 100 * x / 2 ^ 51" 
    unfolding abs_le_iff using r1(2) [unfolded abs_le_iff] r2(2) [unfolded abs_le_iff] x by auto
  ultimately show ?thesis by (simp add: x_def)
qed

lemma score_of_all: "0 < n \<Longrightarrow> n \<le> 2 ^ 40 \<Longrightarrow> score_of n n = 100"
proof -
  assume n: "0 < n" "n \<le> 2 ^ 40"
  have "round64 1 = Fin 1" "round64 100 = Fin 100" using round64_int [of 1] round64_int [of 100] by simp_all
  then show "score_of n n = 100" using n by (simp add: score_of_def float_of_int_exact fto_int_def)
qed

lemma score_of_accurate:
  assumes "0 \<le> p" "p < n" "n \<le> 2 ^ 40"
  shows "score_of p n = 100 * p div n \<or> n dvd 100 * p \<and> score_of p n = 100 * p div n - 1"
proof (cases "p = 0")
  case True
  then show ?thesis using assms by (simp add: score_of_def float_of_int_exact fto_int_def)
next
  case False
  define t where "t = 100 * p div n"
  define m where "m = 100 * p mod n"
  define T :: rat where "T = 100 * of_int p / of_int n"
  have n: "(0 :: rat) < of_int n" using assms by simp
  have m: "0 \<le> m" "m < n" using assms by (simp_all add: m_def)
  have "100 * p = t * n + m" by (simp add: t_def m_def)
  then have "of_int (100 * p) = (of_int (t * n + m) :: rat)" by (rule arg_cong)
  then have T: "T = of_int t + of_int m / of_int n" using n by (simp add: T_def field_simps)
  obtain r where r: "fmul (fdiv (float_of_int p) (float_of_int n)) (Fin 100) = Fin r" "\<bar>r - T\<bar> \<le> T / 2 ^ 51"
    using percent_error [of p n] assms False unfolding T_def by auto
  have T0: "0 \<le> T" "T \<le> 100" using assms n by (simp_all add: T_def field_simps)
  have S: "score_of p n = \<lfloor>r\<rfloor>"
  proof -
    have "0 \<le> r" using r(2) [unfolded abs_le_iff] T0 by auto
    then show ?thesis using assms r(1) by (simp add: score_of_def fto_int_def)
  qed
  have gap: "T / 2 ^ 51 < 1 / of_int n"
  proof -
    have "(of_int n :: rat) \<le> of_int (2 ^ 40)" using assms(3) by (simp only: of_int_le_iff)
    then have "1 / 2 ^ 40 \<le> 1 / (of_int n :: rat)" using n by (intro divide_left_mono) simp_all
    then show ?thesis using T0 by simp
  qed
  have "of_int m / of_int n \<le> (of_int (n - 1) / of_int n :: rat)"
    using m n by (intro divide_right_mono) simp_all
  then have up: "of_int m / of_int n \<le> 1 - 1 / (of_int n :: rat)" using n by (simp add: diff_divide_distrib)
  have "r < of_int t + 1" using r(2) [unfolded abs_le_iff] T up gap by linarith
  then have hi: "\<lfloor>r\<rfloor> \<le> t" by linarith
  show ?thesis
  proof (cases "m = 0")
    case True
    have "1 / (of_int n :: rat) \<le> 1" using assms by simp
    then have "of_int t - 1 \<le> r" using r(2) [unfolded abs_le_iff] T True gap by auto
    then have "t - 1 \<le> \<lfloor>r\<rfloor>" by linarith
    moreover have "n dvd 100 * p" using True by (simp add: m_def dvd_eq_mod_eq_0)
    ultimately show ?thesis using hi S unfolding t_def [symmetric] by auto
  next
    case False
    then have "(1 :: rat) / of_int n \<le> of_int m / of_int n" using m n by (intro divide_right_mono) simp_all
    then have "of_int t \<le> r" using r(2) [unfolded abs_le_iff] T gap by linarith
    then have "t \<le> \<lfloor>r\<rfloor>" by linarith
    then show ?thesis using hi S unfolding t_def [symmetric] by simp
  qed
qed

lemma counts_nonneg: "0 \<le> bench_Counts rep s"
  by (simp add: bench_Counts_def)

lemma counts_bound: "bench_Counts rep StatusPass + bench_Counts rep StatusFail \<le> int (length (rpResults rep))"
proof -
  have "length (filter (\<lambda>r. effectiveStatus r = StatusPass) xs) + length (filter (\<lambda>r. effectiveStatus r = StatusFail) xs) \<le> length xs"
    for xs :: "benchResult list" by (induction xs) auto
  then show ?thesis unfolding bench_Counts_def by (simp only: of_nat_add [symmetric] of_nat_le_iff)
qed

lemma failing_count: "bench_Counts rep StatusFail = 0 \<longleftrightarrow> Failing rep = []"
  by (simp add: bench_Counts_def Failing_def)

text \<open>
  C31: The score is 100 exactly when no control fails that is not waived, and otherwise the percentage of passing controls
  rounded down, except that an integral percentage may come out one too low.
\<close>

theorem Score_accurate:
  fixes rep :: benchReport
  defines "pass \<equiv> bench_Counts rep StatusPass" and "fails \<equiv> bench_Counts rep StatusFail"
  assumes "length (rpResults rep) \<le> 2 ^ 40"
  shows "(Score rep = 100 \<longleftrightarrow> Failing rep = [])
    \<and> (if Failing rep = [] then True
       else Score rep = 100 * pass div (pass + fails)
         \<or> (pass + fails) dvd 100 * pass \<and> Score rep = 100 * pass div (pass + fails) - 1)"
proof -
  have "int (length (rpResults rep)) \<le> int (2 ^ 40)" using assms(3) by (simp only: of_nat_le_iff)
  then have b: "pass + fails \<le> 2 ^ 40" using counts_bound [of rep] unfolding pass_def fails_def by simp
  have nn: "0 \<le> pass" "0 \<le> fails" unfolding pass_def fails_def by (rule counts_nonneg)+
  have S: "Score rep = score_of pass (pass + fails)" by (simp add: Score_def pass_def fails_def)
  show ?thesis
  proof (cases "fails = 0")
    case True
    then have "Score rep = 100" using S b nn score_of_all [of pass] by (cases "pass = 0") (simp_all add: score_of_def)
    then show ?thesis using True failing_count unfolding fails_def by simp
  next
    case False
    then have lt: "pass < pass + fails" using nn by simp
    then have "100 * pass < 100 * (pass + fails)" by simp
    then have d: "100 * pass div (pass + fails) < 100" 
  proof -
    let ?q = "100 * pass div (pass + fails)"
    have e: "100 * pass = ?q * (pass + fails) + 100 * pass mod (pass + fails)" by (rule div_mult_mod_eq [symmetric])
    have "0 \<le> 100 * pass mod (pass + fails)" using lt nn by simp
    moreover have "100 * (pass + fails) \<le> ?q * (pass + fails)" if "100 \<le> ?q" using that lt nn by (intro mult_right_mono) auto
    ultimately show ?thesis using e \<open>100 * pass < 100 * (pass + fails)\<close> by linarith
  qed
    show ?thesis using score_of_accurate [OF nn(1) lt b] d False failing_count [of rep] unfolding S fails_def [symmetric] by auto
  qed
qed

text \<open>It does come out too low: 29 of 50 passing controls are scored 57.\<close>

definition sample_control :: "string \<Rightarrow> control" where
  "sample_control i = \<lparr> ctID = i, ctTitle = [], ctSection = [], ctLevel = Level1, ctScored = True, ctDescription = [], ctRemediation = [],
     ctFrameworks = [], ctFix = None \<rparr>"

definition result_with :: "string \<Rightarrow> status \<Rightarrow> bool \<Rightarrow> benchResult" where
  "result_with i s w = \<lparr> brControl = sample_control i, brStatus = s, brEvidence = [], brActual = [], brWaived = w, brWaiverReason = [] \<rparr>"

definition report_with :: "benchResult list \<Rightarrow> benchReport" where
  "report_with rs = \<lparr> rpBenchmark = ''CIS Docker Benchmark'', rpVersion = ''1'', rpProfile = [], rpResults = rs \<rparr>"

definition pass29 :: benchReport where
  "pass29 = report_with (replicate 29 (result_with ''1'' StatusPass False) @ replicate 21 (result_with ''2'' StatusFail False))"

lemma pass29_counts: "bench_Counts pass29 StatusPass = 29" "bench_Counts pass29 StatusFail = 21" "length (rpResults pass29) = 50"
  by (simp_all add: pass29_def report_with_def bench_Counts_def result_with_def effectiveStatus_def)

lemma ilog2_first: "ilog2 (29 / 50) = -1" by (rule ilog2_eqI) (simp_all add: pow2_def)
lemma ilog2_second: "ilog2 (130604389193744375 / 2251799813685248) = 5" by (rule ilog2_eqI) (simp_all add: pow2_def)

lemma below_max: "2 ^ 64 < pow2 1024"
proof -
  have "(2 :: rat) ^ 64 < 2 ^ 1024" by (rule power_strict_increasing) simp_all
  then show ?thesis by (simp add: pow2_def)
qed

lemma round_first: "round64 (29 / 50) = Fin (5224175567749775 / 9007199254740992)"
proof (rule round64_eqI [OF ilog2_first])
  show "5224175567749775 / 9007199254740992 < pow2 1024" by (rule less_trans [OF _ below_max]) simp
qed (simp_all add: pow2_def [of "- 53"])

lemma round_second: "round64 (130604389193744375 / 2251799813685248) = Fin (8162774324609023 / 140737488355328)"
proof (rule round64_eqI [OF ilog2_second])
  show "8162774324609023 / 140737488355328 < pow2 1024" by (rule less_trans [OF _ below_max]) simp
qed (simp_all add: pow2_def [of "- 47"])

theorem score_too_low: "Score pass29 = 57"
proof -
  have "\<lfloor>8162774324609023 / 140737488355328 :: rat\<rfloor> = 57" by (rule floor_unique) simp_all
  then have "score_of 29 50 = 57" by (simp add: score_of_def float_of_int_exact round_first round_second fto_int_def)
  then show ?thesis by (simp add: Score_def pass29_counts)
qed

theorem Score_accurate_witness:
  "Score pass29 \<noteq> 100 \<and> (Score pass29 = 58 \<or> 50 dvd (2900 :: int) \<and> Score pass29 = 57)"
proof -
  have l: "length (rpResults pass29) \<le> 2 ^ 40" by (simp add: pass29_counts)
  have "Failing pass29 \<noteq> []" using failing_count [of pass29] by (simp add: pass29_counts)
  then show ?thesis using Score_accurate [OF l] by (simp add: pass29_counts)
qed

subsection \<open>The order of a report\<close>

fun int_lex :: "int list \<Rightarrow> int list \<Rightarrow> bool" where
  "int_lex (a # as) (b # bs) = (if a \<noteq> b then a < b else int_lex as bs)"
| "int_lex [] bs = (bs \<noteq> [])"
| "int_lex (a # as) [] = False"

lemma int_lex_trans: "int_lex xs ys \<Longrightarrow> int_lex ys zs \<Longrightarrow> int_lex xs zs"
proof (induction xs ys arbitrary: zs rule: int_lex.induct)
  case (1 a as b bs)
  then show ?case by (cases zs) (auto split: if_splits)
next
  case (2 bs)
  then show ?case by (cases zs; cases bs) auto
qed simp

lemma int_lex_linear: "\<not> int_lex xs ys \<Longrightarrow> \<not> int_lex ys xs \<Longrightarrow> xs = ys"
  by (induction xs ys rule: int_lex.induct) (auto split: if_splits)

lemma int_lex_irrefl: "\<not> int_lex xs xs"
  by (induction xs) auto

definition segments :: "string \<Rightarrow> int list" where
  "segments s = map (fst \<circ> ctl_atoi) (split_byte CHR ''.'' s)"

definition numericID :: "string \<Rightarrow> bool" where
  "numericID s \<longleftrightarrow> list_all (snd \<circ> ctl_atoi) (split_byte CHR ''.'' s)"

lemma compare_numeric: "numericID a \<Longrightarrow> numericID b \<Longrightarrow> compareControlID a b = int_lex (segments a) (segments b)"
proof -
  have "list_all (snd \<circ> ctl_atoi) as \<Longrightarrow> list_all (snd \<circ> ctl_atoi) bs \<Longrightarrow>
      compare_segments as bs = int_lex (map (fst \<circ> ctl_atoi) as) (map (fst \<circ> ctl_atoi) bs)" for as bs
    by (induction as bs rule: compare_segments.induct) auto
  then show "numericID a \<Longrightarrow> numericID b \<Longrightarrow> compareControlID a b = int_lex (segments a) (segments b)"
    by (simp add: numericID_def segments_def compareControlID_def)
qed

definition numeric_less :: "benchResult \<Rightarrow> benchResult \<Rightarrow> bool" where
  "numeric_less a b = int_lex (segments (ctID (brControl a))) (segments (ctID (brControl b)))"

interpretation ids: strict_weak numeric_less
proof
  show "\<not> numeric_less x x" for x by (simp add: numeric_less_def int_lex_irrefl)
  show "numeric_less x z" if "numeric_less x y" "numeric_less y z" for x y z
    using that int_lex_trans unfolding numeric_less_def by blast
  show "\<not> numeric_less x z" if "\<not> numeric_less x y" "\<not> numeric_less y z" for x y z
    using that int_lex_trans int_lex_linear unfolding numeric_less_def by metis
qed

lemma ins_stable_cong: "(\<And>y. y \<in> set xs \<Longrightarrow> lt y x = lt' y x) \<Longrightarrow> ins_stable lt x xs = ins_stable lt' x xs"
  by (induction xs) auto

lemma sort_stable_cong:
  "(\<And>x y. x \<in> set xs \<Longrightarrow> y \<in> set xs \<Longrightarrow> lt x y = lt' x y) \<Longrightarrow> sort_stable lt xs = sort_stable lt' xs"
proof (induction xs)
  case (Cons x xs)
  then have "sort_stable lt xs = sort_stable lt' xs" by simp
  moreover have "ins_stable lt x (sort_stable lt' xs) = ins_stable lt' x (sort_stable lt' xs)"
    using Cons.prems by (intro ins_stable_cong) simp
  ultimately show ?case by simp
qed simp

lemma assess_result_control [simp]: "brControl (assess_result assess c) = c"
  by (simp add: assess_result_def Let_def)

lemma assess_result_status: "brStatus (assess_result assess c) =
    (if asmStatus (assess c) = StatusUnknown then StatusInfo else asmStatus (assess c))"
  by (simp add: assess_result_def Let_def)

lemma bench_Run_numeric:
  assumes "list_all (numericID \<circ> ctID) (bmControls b)"
  shows "rpResults (bench_Run b assess) = sort_stable numeric_less (map (assess_result assess) (bmControls b))"
  unfolding bench_Run_def benchReport.simps
proof (rule sort_stable_cong)
  fix x y assume "x \<in> set (map (assess_result assess) (bmControls b))" "y \<in> set (map (assess_result assess) (bmControls b))"
  then have "numericID (ctID (brControl x))" "numericID (ctID (brControl y))" using assms by (auto simp: list_all_iff)
  then show "result_less x y = numeric_less x y" by (simp add: result_less_def numeric_less_def compare_numeric)
qed

text \<open>
  A run reports every control once, with the status of its assessment, an unknown one as a manual review.
  When the ids are numbers separated by dots and no two denote the same numbers, the report is in their numeric order
  and does not depend on the order in which the catalogue lists the controls.
\<close>

theorem bench_Run_canonical:
  assumes "list_all (numericID \<circ> ctID) (bmControls b)" and "distinct (map (segments \<circ> ctID) (bmControls b))"
    and "mset cs = mset (bmControls b)"
  shows "bench_Run (b\<lparr> bmControls := cs \<rparr>) assess = bench_Run b assess
    \<and> sorted_wrt (\<lambda>x y. int_lex (segments (ctID (brControl x))) (segments (ctID (brControl y)))) (rpResults (bench_Run b assess))
    \<and> image_mset (\<lambda>r. (brControl r, brStatus r)) (mset (rpResults (bench_Run b assess)))
        = image_mset (\<lambda>c. (c, if asmStatus (assess c) = StatusUnknown then StatusInfo else asmStatus (assess c))) (mset (bmControls b))
    \<and> StatusUnknown \<notin> brStatus ` set (rpResults (bench_Run b assess))"
proof (intro conjI)
  let ?f = "assess_result assess" and ?rs = "rpResults (bench_Run b assess)"
  have set_cs: "set cs = set (bmControls b)" using assms(3) by (rule mset_eq_setD)
  have inj: "inj_on (segments \<circ> ctID) (set (bmControls b))" using assms(2) by (simp add: distinct_map)
  have rs: "?rs = sort_stable numeric_less (map ?f (bmControls b))" by (rule bench_Run_numeric [OF assms(1)])
  have tot: "x = y" if "x \<in> ?f ` set (bmControls b)" "y \<in> ?f ` set (bmControls b)" "\<not> numeric_less x y" "\<not> numeric_less y x" for x y
  proof -
    obtain c d where cd: "x = ?f c" "y = ?f d" "c \<in> set (bmControls b)" "d \<in> set (bmControls b)" using \<open>x \<in> _\<close> \<open>y \<in> _\<close> by blast
    have "segments (ctID c) = segments (ctID d)" using that(3,4) int_lex_linear by (simp add: numeric_less_def cd)
    then show ?thesis using inj_onD [OF inj _ cd(3,4)] cd(1,2) by simp
  qed
  have "list_all (numericID \<circ> ctID) (bmControls (b\<lparr> bmControls := cs \<rparr>))" using assms(1) set_cs by (simp add: list_all_iff)
  then have "rpResults (bench_Run (b\<lparr> bmControls := cs \<rparr>) assess) = sort_stable numeric_less (map ?f cs)"
    using bench_Run_numeric by force
  also have "\<dots> = sort_stable numeric_less (map ?f (bmControls b))"
    by (rule ids.canonical) (use tot set_cs assms(3) in \<open>auto simp: mset_map\<close>)
  finally show "bench_Run (b\<lparr> bmControls := cs \<rparr>) assess = bench_Run b assess" using rs by (simp add: bench_Run_def)
  have d: "distinct ?rs"
  proof -
    have "distinct (map ?f (bmControls b))"
      unfolding distinct_map using assms(2) by (auto intro!: inj_onI dest: arg_cong [where f = brControl] simp: distinct_map)
    moreover have "mset ?rs = mset (map ?f (bmControls b))" by (simp only: rs mset_sort_stable)
    ultimately show ?thesis by (metis mset_eq_imp_distinct_iff)
  qed
  have "sorted_wrt (\<lambda>x y. \<not> numeric_less y x \<and> x \<noteq> y) ?rs"
    using ids.sorted [of "map ?f (bmControls b)"] d unfolding rs [symmetric] distinct_conv_nth sorted_wrt_iff_nth_less by auto
  then show "sorted_wrt (\<lambda>x y. int_lex (segments (ctID (brControl x))) (segments (ctID (brControl y)))) ?rs"
    by (rule sorted_wrt_mono_rel [rotated]) (use tot in \<open>auto simp: rs numeric_less_def\<close>)
  show "image_mset (\<lambda>r. (brControl r, brStatus r)) (mset ?rs)
      = image_mset (\<lambda>c. (c, if asmStatus (assess c) = StatusUnknown then StatusInfo else asmStatus (assess c))) (mset (bmControls b))"
    by (simp add: bench_Run_def image_mset.compositionality comp_def assess_result_status)
  show "StatusUnknown \<notin> brStatus ` set ?rs" by (auto simp: bench_Run_def assess_result_status split: if_splits)
qed

text \<open>
  Outside numeric ids the comparison is not an order: it has a cycle, and the report depends on the order of
  the catalogue.
\<close>

theorem control_order_cyclic:
  "compareControlID ''2'' ''10'' \<and> compareControlID ''10'' ''1a'' \<and> compareControlID ''1a'' ''2''
   \<and> sort_stable compareControlID [''2'', ''10'', ''1a''] \<noteq> sort_stable compareControlID [''10'', ''1a'', ''2'']"
  by code_simp

text \<open>A concrete catalogue, listed backwards.\<close>

definition small_bench :: benchmark where
  "small_bench = \<lparr> bmCode = ''docker'', bmName = ''CIS Docker Benchmark'', bmVersion = ''1'', bmProfile = [],
     bmControls = [sample_control ''2.10'', sample_control ''2.2''] \<rparr>"

theorem bench_Run_canonical_witness:
  "bench_Run (small_bench\<lparr> bmControls := [sample_control ''2.2'', sample_control ''2.10''] \<rparr>) (\<lambda>c. \<lparr> asmStatus = StatusUnknown, asmEvidence = [], asmActual = [] \<rparr>)
     = bench_Run small_bench (\<lambda>c. \<lparr> asmStatus = StatusUnknown, asmEvidence = [], asmActual = [] \<rparr>)"
proof -
  have "list_all (numericID \<circ> ctID) (bmControls small_bench)" "distinct (map (segments \<circ> ctID) (bmControls small_bench))" by code_simp+
  moreover have "mset [sample_control ''2.2'', sample_control ''2.10''] = mset (bmControls small_bench)" by (simp add: small_bench_def add_mset_commute)
  ultimately show ?thesis by (rule bench_Run_canonical [THEN conjunct1])
qed

subsection \<open>Waivers and drift\<close>

lemma waive_result_frame [simp]:
  "brControl (waive_result dt ws code now res) = brControl res" "brStatus (waive_result dt ws code now res) = brStatus res"
  "brEvidence (waive_result dt ws code now res) = brEvidence res" "brActual (waive_result dt ws code now res) = brActual res"
  by (simp_all add: waive_result_def split: option.split)

lemma waive_result_waived:
  "brWaived (waive_result dt ws code now res) \<longleftrightarrow> brWaived res
     \<or> (brStatus res = StatusFail \<or> brStatus res = StatusWarn)
       \<and> list_ex (\<lambda>w. bwControl w = ctID (brControl res) \<and> bw_active dt w code now) ws"
proof (cases "List.find (\<lambda>w. bwControl w = ctID (brControl res) \<and> bw_active dt w code now) ws")
  case None
  then have "\<not> list_ex (\<lambda>w. bwControl w = ctID (brControl res) \<and> bw_active dt w code now) ws"
    unfolding find_None_iff list_ex_iff by blast
  then show ?thesis using None by (simp add: waive_result_def)
next
  case (Some w)
  then have "list_ex (\<lambda>w. bwControl w = ctID (brControl res) \<and> bw_active dt w code now) ws"
    unfolding find_Some_iff list_ex_iff by (metis nth_mem)
  then show ?thesis using Some by (simp add: waive_result_def)
qed

lemma bench_Apply_results: "rpResults (bench_Apply dt ws rep code now) = map (waive_result dt ws code now) (rpResults rep)"
proof -
  have "waive_result dt [] code now = (\<lambda>res. res)" by (simp add: fun_eq_iff waive_result_def)
  then show ?thesis by (simp add: bench_Apply_def)
qed

text \<open>
  Applying waivers changes nothing but the two waiver fields, and leaves the controls in place. A result of a fresh
  report is then waived exactly when it fails or warns and a waiver for its control, in scope of the benchmark,
  has an end that is still to come; the gate trips exactly on the results that are not waived.
\<close>

theorem bench_Apply_exact:
  fixes rep :: benchReport and dt :: dates and ws :: "benchWaiver list" and code :: string and now :: int
  defines "rep' \<equiv> bench_Apply dt ws rep code now"
  assumes "list_all (\<lambda>res. \<not> brWaived res) (rpResults rep)"
  shows "map (\<lambda>r. r\<lparr> brWaived := False, brWaiverReason := [] \<rparr>) (rpResults rep') = map (\<lambda>r. r\<lparr> brWaiverReason := [] \<rparr>) (rpResults rep)
    \<and> rpBenchmark rep' = rpBenchmark rep
    \<and> map brWaived (rpResults rep') = map (\<lambda>r. (brStatus r = StatusFail \<or> brStatus r = StatusWarn)
        \<and> list_ex (\<lambda>w. bwControl w = ctID (brControl r) \<and> (bwBenchmark w = [] \<or> bwBenchmark w = code)
            \<and> bw_expiryTime dt w \<noteq> 0 \<and> now < bw_expiryTime dt w) ws) (rpResults rep)
    \<and> (bench_FailsAt rep' False \<longleftrightarrow> list_ex (\<lambda>r. brStatus r = StatusFail \<and> \<not> brWaived r) (rpResults rep'))
    \<and> (bench_FailsAt rep' True \<longleftrightarrow> list_ex (\<lambda>r. (brStatus r = StatusFail \<or> brStatus r = StatusWarn) \<and> \<not> brWaived r) (rpResults rep'))"
proof (intro conjI)
  have unw: "\<not> brWaived r" if "r \<in> set (rpResults rep)" for r using assms(2) that by (simp add: list_all_iff)
  have act: "bw_active dt w code now \<longleftrightarrow> (bwBenchmark w = [] \<or> bwBenchmark w = code) \<and> bw_expiryTime dt w \<noteq> 0 \<and> now < bw_expiryTime dt w" for w
    by (auto simp: bw_active_def)
  show "map brWaived (rpResults rep') = map (\<lambda>r. (brStatus r = StatusFail \<or> brStatus r = StatusWarn)
        \<and> list_ex (\<lambda>w. bwControl w = ctID (brControl r) \<and> (bwBenchmark w = [] \<or> bwBenchmark w = code)
            \<and> bw_expiryTime dt w \<noteq> 0 \<and> now < bw_expiryTime dt w) ws) (rpResults rep)"
    by (simp add: rep'_def bench_Apply_results waive_result_waived act unw cong: map_cong)
  show "map (\<lambda>r. r\<lparr> brWaived := False, brWaiverReason := [] \<rparr>) (rpResults rep') = map (\<lambda>r. r\<lparr> brWaiverReason := [] \<rparr>) (rpResults rep)"
    using unw by (auto simp: rep'_def bench_Apply_results waive_result_def split: option.split intro!: benchResult.equality)
  show "rpBenchmark rep' = rpBenchmark rep" by (simp add: rep'_def bench_Apply_def)
  show "bench_FailsAt rep' False \<longleftrightarrow> list_ex (\<lambda>r. brStatus r = StatusFail \<and> \<not> brWaived r) (rpResults rep')"
    by (auto simp: bench_FailsAt_def list_ex_iff effectiveStatus_def split: if_splits)
  show "bench_FailsAt rep' True \<longleftrightarrow> list_ex (\<lambda>r. (brStatus r = StatusFail \<or> brStatus r = StatusWarn) \<and> \<not> brWaived r) (rpResults rep')"
    by (auto simp: bench_FailsAt_def list_ex_iff effectiveStatus_def split: if_splits)
qed

definition one_failing :: "bool \<Rightarrow> benchReport" where
  "one_failing w = report_with [result_with ''1'' StatusFail w]"

definition no_dates :: dates where
  "no_dates = \<lparr> dtRFC3339 = (\<lambda>s. if s = ''soon'' then Some 10 else None), dtDate = (\<lambda>s. None) \<rparr>"

definition until_soon :: benchWaiver where
  "until_soon = \<lparr> bwControl = ''1'', bwBenchmark = [], bwReason = ''accepted'', bwOwner = [], bwExpires = ''soon'' \<rparr>"

theorem bench_Apply_exact_witness:
  "map brWaived (rpResults (bench_Apply no_dates [until_soon] (one_failing False) ''docker'' 5)) = [True]"
proof -
  have "list_all (\<lambda>res. \<not> brWaived res) (rpResults (one_failing False))" by code_simp
  note bench_Apply_exact [OF this, of no_dates "[until_soon]" "''docker''" 5, THEN conjunct2, THEN conjunct2, THEN conjunct1]
  then show ?thesis
    by (simp add: one_failing_def report_with_def result_with_def until_soon_def no_dates_def sample_control_def bw_expiryTime_def)
qed

text \<open>
  Drift is said to flag the control that drifted. A waiver that lapses between two runs turns the gate from green to
  red and the score from 100 to 0, and no drift is reported, nor is a warning that becomes a failure.
\<close>

theorem lapse_not_drift:
  "bench_FailsAt (one_failing True) False = False \<and> bench_FailsAt (one_failing False) False
   \<and> \<not> HasDrift (bench_Diff (\<lambda>xs. xs) (Some (one_failing True)) (one_failing False))
   \<and> Score (one_failing True) = 100 \<and> Score (one_failing False) = 0
   \<and> \<not> HasDrift (bench_Diff (\<lambda>xs. xs) (Some (report_with [result_with ''1'' StatusWarn False])) (one_failing False))"
proof (intro conjI)
  show "Score (one_failing True) = 100" "Score (one_failing False) = 0"
    by (simp_all add: Score_def score_of_def bench_Counts_def one_failing_def report_with_def result_with_def effectiveStatus_def
        float_of_int_exact fto_int_def)
  have d: "dfRegressed (bench_Diff v b c) = []" "dfFixed (bench_Diff v b c) = []" "dfRemoved (bench_Diff v b c) = []"
    if "List.map_filter (drift_of (baseline_of b)) (rpResults c) = []" "filter (\<lambda>(i, prev). i \<notin> ctID ` brControl ` set (rpResults c)) (v (baseline_of b)) = []" for v b c
    using that by (simp_all add: bench_Diff_def Let_def sortEntries_def image_image)
  show "\<not> HasDrift (bench_Diff (\<lambda>xs. xs) (Some (one_failing True)) (one_failing False))"
    "\<not> HasDrift (bench_Diff (\<lambda>xs. xs) (Some (report_with [result_with ''1'' StatusWarn False])) (one_failing False))"
    unfolding HasDrift_def
    by (subst d; simp add: baseline_of_def one_failing_def report_with_def result_with_def sample_control_def drift_of_def effectiveStatus_def
        List.map_filter_def)+
qed code_simp+

subsection \<open>Findings\<close>

lemma severityFor_effective:
  "result_finding m rep res = None \<longleftrightarrow> effectiveStatus res = StatusPass \<or> effectiveStatus res = StatusUnknown"
  "result_finding m rep res = Some f \<Longrightarrow> fSeverity f = fst (severityFor (effectiveStatus res))"
  by (cases "effectiveStatus res"; simp add: result_finding_def Let_def)
     (cases "effectiveStatus res"; auto simp: result_finding_def Let_def)

lemma FailsAt_loop_list_ex: "FailsAt_loop t fs \<longleftrightarrow> list_ex (\<lambda>f. t \<le> fSeverity f) fs"
  by (induction fs) auto

text \<open>
  The gate of the engine over the findings of a report agrees with the gate of the report: at high severity with
  failures, at medium severity with failures and warnings. There is one finding for each
  result that neither passes nor is unknown, in the order of the report, after the summary.
\<close>

theorem bench_gate_agrees:
  "(FailsAt_loop SeverityHigh (bench_Findings m rep) \<longleftrightarrow> bench_FailsAt rep False)
   \<and> (FailsAt_loop SeverityMedium (bench_Findings m rep) \<longleftrightarrow> bench_FailsAt rep True)
   \<and> map fTitle (tl (bench_Findings m rep)) =
       map (\<lambda>res. ''['' @ Status_String (brStatus res) @ '' '' @ ctID (brControl res) @ ''] '' @ ctTitle (brControl res))
         (filter (\<lambda>res. effectiveStatus res \<noteq> StatusPass \<and> effectiveStatus res \<noteq> StatusUnknown) (rpResults rep))"
proof (intro conjI)
  have ex: "list_ex P (List.map_filter (result_finding m rep) rs) \<longleftrightarrow>
      list_ex (\<lambda>res. case result_finding m rep res of None \<Rightarrow> False | Some f \<Rightarrow> P f) rs" for P rs
    by (induction rs) (auto simp: List.map_filter_simps split: option.split)
  have one: "(case result_finding m rep res of None \<Rightarrow> False | Some f \<Rightarrow> t \<le> fSeverity f) \<longleftrightarrow>
      snd (severityFor (effectiveStatus res)) \<and> t \<le> fst (severityFor (effectiveStatus res))" for res t
    by (cases "effectiveStatus res") (simp_all add: result_finding_def Let_def)
  have high: "snd (severityFor s) \<and> SeverityHigh \<le> fst (severityFor s) \<longleftrightarrow> s = StatusFail" for s
    by (cases s) (simp_all add: severity_defs)
  have medium: "snd (severityFor s) \<and> SeverityMedium \<le> fst (severityFor s) \<longleftrightarrow> s = StatusFail \<or> s = StatusWarn" for s
    by (cases s) (simp_all add: severity_defs)
  have info: "\<not> SeverityHigh \<le> SeverityInfo" "\<not> SeverityMedium \<le> SeverityInfo" by (simp_all add: severity_defs)
  show "FailsAt_loop SeverityHigh (bench_Findings m rep) \<longleftrightarrow> bench_FailsAt rep False"
    by (simp add: FailsAt_loop_list_ex bench_Findings_def ex one high info bench_FailsAt_def bench_summary_def Let_def)
  show "FailsAt_loop SeverityMedium (bench_Findings m rep) \<longleftrightarrow> bench_FailsAt rep True"
    by (simp add: FailsAt_loop_list_ex bench_Findings_def ex one medium info bench_FailsAt_def bench_summary_def Let_def)
  have "map fTitle (List.map_filter (result_finding m rep) rs) =
      map (\<lambda>res. ''['' @ Status_String (brStatus res) @ '' '' @ ctID (brControl res) @ ''] '' @ ctTitle (brControl res))
        (filter (\<lambda>res. effectiveStatus res \<noteq> StatusPass \<and> effectiveStatus res \<noteq> StatusUnknown) rs)" for rs
  proof (induction rs)
    case (Cons r rs)
    then show ?case
      by (cases "effectiveStatus r") (simp_all add: List.map_filter_simps result_finding_def Let_def)
  qed (simp add: List.map_filter_simps)
  then show "map fTitle (tl (bench_Findings m rep)) =
       map (\<lambda>res. ''['' @ Status_String (brStatus res) @ '' '' @ ctID (brControl res) @ ''] '' @ ctTitle (brControl res))
         (filter (\<lambda>res. effectiveStatus res \<noteq> StatusPass \<and> effectiveStatus res \<noteq> StatusUnknown) (rpResults rep))"
    by (simp add: bench_Findings_def)
qed

end
