(* ===== verification/CompliancePacks.thy ===== *)
theory CompliancePacks
  imports Compliance GoEncoding
begin

text \<open>
  The data-driven half of \<^verbatim>\<open>internal/compliance\<close>: control packs and their crosswalk (\<^verbatim>\<open>pack.go\<close>),
  the register of waivers and attestations (\<^verbatim>\<open>attestation.go\<close>), the run of the packs over a report of the engine
  (\<^verbatim>\<open>runner.go\<close>), coverage and gaps (\<^verbatim>\<open>coverage.go\<close>), the OSCAL export up to its JSON encoding
  (\<^verbatim>\<open>export.go\<close>) and the narrative of a benchmark report (\<^verbatim>\<open>narrative.go\<close>). The JSON decoder of a pack, reading a
  file and the two time formats are arguments.
\<close>

subsection \<open>Packs\<close>

record packControl =
  pkID :: string
  pkTitle :: string
  pkStatement :: string
  pkLevel :: int
  pkAssessment :: string
  pkModule :: string
  pkCheck :: string
  pkPresentMeans :: string
  pkExpected :: string
  pkRemediation :: string
  pkMapsTo :: "(string \<times> string list) list"
  pkReferences :: "string list"

record pack =
  paFramework :: string
  paVersion :: string
  paTitle :: string
  paSourceURL :: string
  paControls :: "packControl list"

type_synonym crosswalkEdge = "string \<times> string"

record catalog =
  caPacks :: "string \<rightharpoonup> pack"
  caOrder :: "string list"
  caXwalk :: "string \<Rightarrow> crosswalkEdge list"

definition newCatalog :: catalog where
  "newCatalog = \<lparr> caPacks = Map.empty, caOrder = [], caXwalk = (\<lambda>k. []) \<rparr>"

datatype pack_err = PackDir | PackRead string | PackParse string | PackNoFramework string

definition addJSON :: "(bytes \<Rightarrow> pack option) \<Rightarrow> catalog \<Rightarrow> bytes \<Rightarrow> string \<Rightarrow> pack_err + catalog" where
  "addJSON decode cat data name =
     (case decode data of
        None \<Rightarrow> Inl (PackParse name)
      | Some p \<Rightarrow>
          if paFramework p = [] then Inl (PackNoFramework name)
          else Inr (cat\<lparr> caOrder := (if caPacks cat (paFramework p) = None then caOrder cat @ [paFramework p] else caOrder cat),
                         caPacks := (caPacks cat)(paFramework p \<mapsto> p) \<rparr>))"

definition pack_controls :: "catalog \<Rightarrow> string \<Rightarrow> packControl list" where
  "pack_controls cat fw = (case caPacks cat fw of None \<Rightarrow> [] | Some p \<Rightarrow> paControls p)"

definition xwalk_key :: "string \<Rightarrow> string \<Rightarrow> string" where
  "xwalk_key fw i = fw @ ''|'' @ i"

definition crosswalk_edges :: "catalog \<Rightarrow> (string \<times> crosswalkEdge) list" where
  "crosswalk_edges cat =
     concat (map (\<lambda>fw. concat (map (\<lambda>ctl. concat (map (\<lambda>(mfw, ids). map (\<lambda>i. (xwalk_key fw (pkID ctl), (mfw, i))) ids)
       (pkMapsTo ctl))) (pack_controls cat fw))) (caOrder cat))"

definition buildCrosswalk :: "catalog \<Rightarrow> catalog" where
  "buildCrosswalk cat = cat\<lparr> caXwalk := foldl (\<lambda>x (k, e). x(k := x k @ [e])) (caXwalk cat) (crosswalk_edges cat) \<rparr>"

fun load_files :: "(bytes \<Rightarrow> pack option) \<Rightarrow> (string \<Rightarrow> bytes option) \<Rightarrow> catalog \<Rightarrow> string list \<Rightarrow> pack_err + catalog" where
  "load_files decode readFile cat [] = Inr (buildCrosswalk cat)"
| "load_files decode readFile cat (n # ns) =
     (case readFile n of
        None \<Rightarrow> Inl (PackRead n)
      | Some data \<Rightarrow>
          (case addJSON decode cat data n of Inl e \<Rightarrow> Inl e | Inr cat' \<Rightarrow> load_files decode readFile cat' ns))"

text \<open>Both loaders: the embedded packs and a directory differ in where the entries and the bytes of a name come from.\<close>

definition LoadPacks :: "(bytes \<Rightarrow> pack option) \<Rightarrow> string list option \<Rightarrow> (string \<Rightarrow> bytes option) \<Rightarrow> pack_err + catalog" where
  "LoadPacks decode entries readFile =
     (case entries of
        None \<Rightarrow> Inl PackDir
      | Some es \<Rightarrow> load_files decode readFile newCatalog (sort_Strings (filter (\<lambda>n. strings_HasSuffix n ''.json'') es)))"

definition MappedFrameworks :: "catalog \<Rightarrow> string \<Rightarrow> string \<Rightarrow> crosswalkEdge list" where
  "MappedFrameworks cat fw i = caXwalk cat (xwalk_key fw i)"

subsection \<open>The register\<close>

record registerEntry =
  reKind :: string
  reFramework :: string
  reControlID :: string
  reOwner :: string
  reJustification :: string
  reEvidence :: string
  reExpires :: int

definition LoadRegister ::
    "(bytes \<Rightarrow> registerEntry list option) \<Rightarrow> (string \<Rightarrow> bool + bytes) \<Rightarrow> string \<Rightarrow> string + registerEntry list" where
  "LoadRegister decode readFile path =
     (if path = [] then Inr []
      else case readFile path of
        Inl missing \<Rightarrow> if missing then Inr [] else Inl (''read register '' @ fmt_q path)
      | Inr data \<Rightarrow> (case decode data of None \<Rightarrow> Inl (''parse register '' @ fmt_q path) | Some r \<Rightarrow> Inr r))"

definition register_find :: "registerEntry list \<Rightarrow> string \<Rightarrow> string \<Rightarrow> string \<Rightarrow> int \<Rightarrow> registerEntry option" where
  "register_find r knd fw i now =
     List.find (\<lambda>e. reKind e = knd \<and> reFramework e = fw \<and> reControlID e = i \<and> reExpires e \<noteq> 0 \<and> now < reExpires e) r"

subsection \<open>Running the packs\<close>

datatype disposition = DispSatisfied | DispFailed | DispWaived | DispNotApplicable | DispManual | DispUnknown

fun disposition_text :: "disposition \<Rightarrow> string" where
  "disposition_text DispSatisfied = ''Satisfied''"
| "disposition_text DispFailed = ''Failed''"
| "disposition_text DispWaived = ''Waived''"
| "disposition_text DispNotApplicable = ''NotApplicable''"
| "disposition_text DispManual = ''Manual''"
| "disposition_text DispUnknown = ''Unknown''"

definition Resolved :: "disposition \<Rightarrow> bool" where
  "Resolved d \<longleftrightarrow> d = DispSatisfied \<or> d = DispFailed \<or> d = DispWaived \<or> d = DispNotApplicable"

record cmplEvidence =
  evCheck :: string
  evObserved :: string
  evVerdict :: string
  evTimestamp :: string
  evTool :: string
  evTarget :: string

record controlResult =
  crFramework :: string
  crVersion :: string
  crID :: string
  crTitle :: string
  crAssessment :: string
  crDisposition :: disposition
  crEvidence :: cmplEvidence
  crMapsTo :: "(string \<times> string list) list"
  crRemediation :: string

record complianceReport =
  cmTarget :: string
  cmGeneratedAt :: string
  cmToolVersion :: string
  cmFrameworks :: "string list"
  cmResults :: "controlResult list"

record runOptions =
  roNow :: int
  roToolVersion :: string
  roTarget :: string
  roRegister :: "registerEntry list option"

record timeFormats =
  tfRFC3339 :: "int \<Rightarrow> string"
  tfDate :: "int \<Rightarrow> string"

definition check_matches :: "string \<Rightarrow> finding \<Rightarrow> bool" where
  "check_matches check f \<longleftrightarrow> fRuleID f = check \<or> strings_HasSuffix check ''-'' \<and> strings_HasPrefix (fRuleID f) check"

definition matchingFindings :: "string \<Rightarrow> report \<Rightarrow> finding list" where
  "matchingFindings check rep = (if check = [] then [] else filter (check_matches check) (rFindings rep))"

definition firstViolation :: "string \<Rightarrow> report \<Rightarrow> finding option" where
  "firstViolation check rep = List.find (\<lambda>f. fSeverity f > SeverityInfo) (matchingFindings check rep)"

text \<open>A disposition with its verdict and what was observed.\<close>

type_synonym disposed = "disposition \<times> string \<times> string"

definition disposeAutomated :: "packControl \<Rightarrow> report \<Rightarrow> string set \<Rightarrow> disposed" where
  "disposeAutomated ctl rep rans =
     (let matched = matchingFindings (pkCheck ctl) rep;
          moduleRan = (pkModule ctl = [] \<or> pkModule ctl \<in> rans);
          absent = (DispNotApplicable, ''N/A'', ''module '' @ pkModule ctl @ '' did not run for this target'')
      in if pkPresentMeans ctl = ''pass'' then
           (if matched \<noteq> [] then (DispSatisfied, ''PASS'', fTitle (hd matched))
            else if moduleRan then (DispFailed, ''FAIL'', ''expected evidence ('' @ pkCheck ctl @ '') not produced'')
            else absent)
         else (case firstViolation (pkCheck ctl) rep of
             Some f \<Rightarrow> (DispFailed, ''FAIL'', fTitle f)
           | None \<Rightarrow> if moduleRan then (DispSatisfied, ''PASS'', ''no violating '' @ pkCheck ctl @ '' finding'') else absent))"

definition cmpl_nonEmpty :: "string \<Rightarrow> string \<Rightarrow> string" where
  "cmpl_nonEmpty s d = (if s = [] then d else s)"

definition disposeControl :: "packControl \<Rightarrow> report \<Rightarrow> string set \<Rightarrow> disposed" where
  "disposeControl ctl rep rans =
     (if pkAssessment ctl = ''automated'' then disposeAutomated ctl rep rans
      else if pkAssessment ctl = ''hybrid'' then
        (case firstViolation (pkCheck ctl) rep of
           Some f \<Rightarrow> (DispFailed, ''FAIL'', fTitle f)
         | None \<Rightarrow> (DispManual, ''MANUAL'', ''automated signal absent; requires attestation''))
      else (DispManual, ''MANUAL'', cmpl_nonEmpty (pkAssessment ctl) ''manual'' @ '' control; requires recorded attestation''))"

definition applyRegister :: "timeFormats \<Rightarrow> string \<Rightarrow> packControl \<Rightarrow> runOptions \<Rightarrow> disposed \<Rightarrow> disposed" where
  "applyRegister tf fw ctl opts d =
     (case roRegister opts of
        None \<Rightarrow> d
      | Some reg \<Rightarrow>
          if fst d = DispFailed then
            (case register_find reg ''waiver'' fw (pkID ctl) (roNow opts) of
               Some e \<Rightarrow> (DispWaived, ''WAIVED'', ''waived by '' @ reOwner e @ '' until '' @ tfDate tf (reExpires e) @ '': '' @ reJustification e)
             | None \<Rightarrow> d)
          else if fst d = DispManual then
            (case register_find reg ''attestation'' fw (pkID ctl) (roNow opts) of
               Some e \<Rightarrow> (DispSatisfied, ''ATTESTED'', ''attested by '' @ reOwner e @ '': '' @ reEvidence e)
             | None \<Rightarrow> d)
          else d)"

definition modules_ran :: "report \<Rightarrow> string set" where
  "modules_ran rep = mrModule ` set (rModuleRuns rep)"

definition pack_result :: "timeFormats \<Rightarrow> runOptions \<Rightarrow> report \<Rightarrow> string \<Rightarrow> string \<Rightarrow> packControl \<Rightarrow> controlResult" where
  "pack_result tf opts rep fw version ctl =
     (case applyRegister tf fw ctl opts (disposeControl ctl rep (modules_ran rep)) of (d, verdict, observed) \<Rightarrow>
        \<lparr> crFramework = fw, crVersion = version, crID = pkID ctl, crTitle = pkTitle ctl, crAssessment = pkAssessment ctl,
          crDisposition = d,
          crEvidence = \<lparr> evCheck = pkCheck ctl, evObserved = observed, evVerdict = verdict, evTimestamp = tfRFC3339 tf (roNow opts),
             evTool = strings_TrimSpace (''docker-security '' @ roToolVersion opts), evTarget = roTarget opts \<rparr>,
          crMapsTo = pkMapsTo ctl, crRemediation = pkRemediation ctl \<rparr>)"

definition cmpl_atoiSafe :: "string \<Rightarrow> int \<times> bool" where
  "cmpl_atoiSafe s = (case atoi_loop 0 s of None \<Rightarrow> (0, False) | Some n \<Rightarrow> (n, s \<noteq> []))"

fun less_segments :: "string list \<Rightarrow> string list \<Rightarrow> bool" where
  "less_segments (a # as) (b # bs) =
     (if snd (cmpl_atoiSafe a) \<and> snd (cmpl_atoiSafe b)
      then (if fst (cmpl_atoiSafe a) \<noteq> fst (cmpl_atoiSafe b) then fst (cmpl_atoiSafe a) < fst (cmpl_atoiSafe b) else less_segments as bs)
      else if a \<noteq> b then str_less a b
      else less_segments as bs)"
| "less_segments [] bs = (bs \<noteq> [])"
| "less_segments (a # as) [] = False"

definition lessControlID :: "string \<Rightarrow> string \<Rightarrow> bool" where
  "lessControlID a b = less_segments (split_byte CHR ''.'' a) (split_byte CHR ''.'' b)"

definition pack_less :: "controlResult \<Rightarrow> controlResult \<Rightarrow> bool" where
  "pack_less = key_less crFramework (\<lambda>a b. lessControlID (crID a) (crID b))"

definition pack_results :: "timeFormats \<Rightarrow> catalog \<Rightarrow> string list \<Rightarrow> report \<Rightarrow> runOptions \<Rightarrow> controlResult list" where
  "pack_results tf cat fws rep opts =
     concat (map (\<lambda>fw. case caPacks cat fw of None \<Rightarrow> []
                       | Some p \<Rightarrow> map (pack_result tf opts rep fw (paVersion p)) (paControls p)) fws)"

definition RunPacks :: "timeFormats \<Rightarrow> catalog \<Rightarrow> string list \<Rightarrow> report \<Rightarrow> runOptions \<Rightarrow> complianceReport" where
  "RunPacks tf cat fws rep opts =
     \<lparr> cmTarget = roTarget opts, cmGeneratedAt = tfRFC3339 tf (roNow opts), cmToolVersion = roToolVersion opts,
       cmFrameworks = fws, cmResults = sort_stable pack_less (pack_results tf cat fws rep opts) \<rparr>"

subsection \<open>Coverage\<close>

record covStat =
  csFramework :: string
  csTotal :: int
  csSatisfied :: int
  csFailed :: int
  csWaived :: int
  csNotApplicable :: int
  csManual :: int
  csUnknown :: int
  csResolved :: int
  csCoveragePct :: float64
  csAutomatedPct :: float64

definition new_stat :: "string \<Rightarrow> covStat" where
  "new_stat fw = \<lparr> csFramework = fw, csTotal = 0, csSatisfied = 0, csFailed = 0, csWaived = 0, csNotApplicable = 0, csManual = 0,
     csUnknown = 0, csResolved = 0, csCoveragePct = Fin 0, csAutomatedPct = Fin 0 \<rparr>"

definition tally :: "controlResult \<Rightarrow> covStat \<Rightarrow> covStat" where
  "tally r s0 =
     (let s = s0\<lparr> csTotal := csTotal s0 + 1 \<rparr> in
      case crDisposition r of
        DispSatisfied \<Rightarrow> s\<lparr> csSatisfied := csSatisfied s + 1, csResolved := csResolved s + 1,
            csAutomatedPct := (if crAssessment r = ''automated'' then fadd (csAutomatedPct s) (Fin 1) else csAutomatedPct s) \<rparr>
      | DispFailed \<Rightarrow> s\<lparr> csFailed := csFailed s + 1, csResolved := csResolved s + 1 \<rparr>
      | DispWaived \<Rightarrow> s\<lparr> csWaived := csWaived s + 1, csResolved := csResolved s + 1 \<rparr>
      | DispNotApplicable \<Rightarrow> s\<lparr> csNotApplicable := csNotApplicable s + 1, csResolved := csResolved s + 1 \<rparr>
      | DispManual \<Rightarrow> s\<lparr> csManual := csManual s + 1 \<rparr>
      | DispUnknown \<Rightarrow> s\<lparr> csUnknown := csUnknown s + 1 \<rparr>)"

definition cov_step :: "(string \<times> covStat) list \<Rightarrow> controlResult \<Rightarrow> (string \<times> covStat) list" where
  "cov_step m r =
     kv_put (crFramework r) (tally r (case map_of m (crFramework r) of None \<Rightarrow> new_stat (crFramework r) | Some s \<Rightarrow> s)) m"

definition cov_round1 :: "float64 \<Rightarrow> float64" where
  "cov_round1 f = fdiv (float_of_int (fto_int (fadd (fmul f (Fin 10)) (Fin (1 / 2))))) (Fin 10)"

definition cov_finish :: "covStat \<Rightarrow> covStat" where
  "cov_finish s =
     (if csTotal s > 0 then
        s\<lparr> csCoveragePct := cov_round1 (fdiv (fmul (Fin 100) (float_of_int (csResolved s))) (float_of_int (csTotal s))),
           csAutomatedPct := cov_round1 (fdiv (fmul (Fin 100) (csAutomatedPct s)) (float_of_int (csTotal s))) \<rparr>
      else s)"

definition Coverage :: "complianceReport \<Rightarrow> covStat list" where
  "Coverage rep =
     sort_stable (\<lambda>a b. str_less (csFramework a) (csFramework b))
       (map (\<lambda>(fw, s). cov_finish s) (foldl cov_step [] (cmResults rep)))"

definition Gaps :: "complianceReport \<Rightarrow> controlResult list" where
  "Gaps rep = filter (\<lambda>r. crDisposition r \<in> {DispFailed, DispManual, DispUnknown}) (cmResults rep)"

subsection \<open>The OSCAL export\<close>

definition oscalState :: "disposition \<Rightarrow> string" where
  "oscalState d = (if d \<in> {DispSatisfied, DispWaived, DispNotApplicable} then ''satisfied'' else ''not-satisfied'')"

text \<open>The seventh byte keeps its low four bits under a 5, the ninth its low six under a 2 in the upper two.\<close>

definition detUUID :: "string \<Rightarrow> string" where
  "detUUID seed =
     (let b = take 16 (sha256 seed);
          b6 = char_of (byte (b ! 6) mod 16 + 80);
          b8 = char_of (byte (b ! 8) mod 64 + 128);
          h = hex_encode (b[6 := b6, 8 := b8])
      in take 8 h @ ''-'' @ take 4 (drop 8 h) @ ''-'' @ take 4 (drop 12 h) @ ''-'' @ take 4 (drop 16 h) @ ''-'' @ take 12 (drop 20 h))"

record oscalFinding =
  ofUUID :: string
  ofTitle :: string
  ofTargetType :: string
  ofTargetID :: string
  ofState :: string
  ofReason :: string

record oscalDoc =
  odUUID :: string
  odTitle :: string
  odLastModified :: string
  odVersion :: string
  odOSCALVersion :: string
  odResultUUID :: string
  odResultTitle :: string
  odStart :: string
  odFindings :: "oscalFinding list"

definition oscal_finding :: "controlResult \<Rightarrow> oscalFinding" where
  "oscal_finding r =
     \<lparr> ofUUID = detUUID (crFramework r @ ''|'' @ crID r),
       ofTitle = crFramework r @ '' '' @ crID r @ '' '' @ emdash @ '' '' @ crTitle r,
       ofTargetType = ''objective-id'', ofTargetID = crFramework r @ '':'' @ crID r,
       ofState = oscalState (crDisposition r), ofReason = evObserved (crEvidence r) \<rparr>"

definition renderOSCAL :: "complianceReport \<Rightarrow> oscalDoc" where
  "renderOSCAL rep =
     \<lparr> odUUID = detUUID (cmTarget rep @ ''|assessment''),
       odTitle = ''docker-security compliance assessment: '' @ cmTarget rep,
       odLastModified = cmGeneratedAt rep, odVersion = cmToolVersion rep, odOSCALVersion = ''1.1.2'',
       odResultUUID = detUUID (cmTarget rep @ ''|result''), odResultTitle = ''Automated control assessment'',
       odStart = cmGeneratedAt rep, odFindings = map oscal_finding (cmResults rep) \<rparr>"

definition flattenMaps :: "(string \<times> string list) list \<Rightarrow> string" where
  "flattenMaps m =
     join_with ''; '' (map (\<lambda>k. k @ '':'' @ join_with ''/'' (case map_of m k of Some ids \<Rightarrow> ids | None \<Rightarrow> [])) (sort_Strings (map fst m)))"

subsection \<open>The narrative\<close>

record narrativeItem =
  niControlID :: string
  niTitle :: string
  niStatus :: status
  niSection :: string
  niRemediation :: string
  niFrameworks :: "frameworkRef list"
  niFix :: "ctlFix option"

record narrative =
  naBenchmark :: string
  naVersion :: string
  naProfile :: string
  naGeneratedAt :: string
  naScore :: int
  naCounts :: "(string \<times> int) list"
  naFrameworks :: "(string \<times> int) list"
  naDrift :: "drift option"
  naTopFailures :: "narrativeItem list"
  naExpiring :: "benchWaiver list"

record narrativeOptions =
  noNow :: int
  noBaseline :: "benchReport option"
  noWaivers :: "benchWaiver list option"
  noMaxFailures :: int

fun level_rank :: "level \<Rightarrow> int" where
  "level_rank LevelUnset = 0"
| "level_rank Level1 = 1"
| "level_rank Level2 = 2"

definition failure_less :: "benchResult \<Rightarrow> benchResult \<Rightarrow> bool" where
  "failure_less = ikey_less (\<lambda>r. level_rank (ctLevel (brControl r))) result_less"

definition narrative_item :: "benchResult \<Rightarrow> narrativeItem" where
  "narrative_item r =
     (let c = brControl r in
      \<lparr> niControlID = ctID c, niTitle = ctTitle c, niStatus = brStatus r, niSection = ctSection c,
        niRemediation = ctRemediation c, niFrameworks = ctFrameworks c, niFix = ctFix c \<rparr>)"

definition BuildNarrative ::
    "timeFormats \<Rightarrow> dates \<Rightarrow> ((string \<times> benchResult) list \<Rightarrow> (string \<times> benchResult) list) \<Rightarrow> benchReport \<Rightarrow> narrativeOptions
      \<Rightarrow> narrative" where
  "BuildNarrative tf dt visit rep opts =
     (let most = (if noMaxFailures opts \<le> 0 then 5 else noMaxFailures opts);
          cov = FrameworkCoverage (map brControl (rpResults rep))
      in \<lparr> naBenchmark = rpBenchmark rep, naVersion = rpVersion rep, naProfile = rpProfile rep,
           naGeneratedAt = tfRFC3339 tf (noNow opts), naScore = Score rep,
           naCounts = map (\<lambda>s. (Status_String s, bench_Counts rep s)) [StatusPass, StatusWarn, StatusFail, StatusInfo, StatusUnknown],
           naFrameworks = map (\<lambda>fw. (fw, case map_of cov fw of Some n \<Rightarrow> n | None \<Rightarrow> 0)) (SortedFrameworks cov),
           naDrift = map_option (\<lambda>b. bench_Diff visit (Some b) rep) (noBaseline opts),
           naTopFailures = map narrative_item (take (nat most) (sort_stable failure_less (Failing rep))),
           naExpiring = (case noWaivers opts of None \<Rightarrow> []
              | Some ws \<Rightarrow> bench_Expiring dt ws (30 * 24 * 3600 * 1000000000) (noNow opts)) \<rparr>)"

subsection \<open>What a disposition says\<close>

text \<open>The two comparisons of control ids are the same.\<close>

lemma lessControlID_eq: "lessControlID = compareControlID"
proof -
  have a: "cmpl_atoiSafe s = ctl_atoi s" for s by (cases s) (simp_all add: cmpl_atoiSafe_def ctl_atoi_def split: option.split)
  have "less_segments as bs = compare_segments as bs" for as bs
    by (induction as bs rule: compare_segments.induct) (simp_all add: a)
  then show ?thesis by (simp add: fun_eq_iff lessControlID_def compareControlID_def)
qed

text \<open>The evidence for a control in a report, and the register entries in force.\<close>

definition violated :: "packControl \<Rightarrow> report \<Rightarrow> bool" where
  "violated c rep \<longleftrightarrow> pkCheck c \<noteq> [] \<and> list_ex (\<lambda>f. check_matches (pkCheck c) f \<and> SeverityInfo < fSeverity f) (rFindings rep)"

definition evidenced :: "packControl \<Rightarrow> report \<Rightarrow> bool" where
  "evidenced c rep \<longleftrightarrow> pkCheck c \<noteq> [] \<and> list_ex (check_matches (pkCheck c)) (rFindings rep)"

definition listed :: "packControl \<Rightarrow> report \<Rightarrow> bool" where
  "listed c rep \<longleftrightarrow> pkModule c = [] \<or> list_ex (\<lambda>mr. mrModule mr = pkModule c) (rModuleRuns rep)"

definition in_force :: "string \<Rightarrow> string \<Rightarrow> packControl \<Rightarrow> runOptions \<Rightarrow> bool" where
  "in_force knd fw c opts \<longleftrightarrow> (case roRegister opts of None \<Rightarrow> False
     | Some reg \<Rightarrow> list_ex (\<lambda>e. reKind e = knd \<and> reFramework e = fw \<and> reControlID e = pkID c \<and> reExpires e \<noteq> 0 \<and> roNow opts < reExpires e) reg)"

text \<open>A control fails on its evidence; it needs an attestation when nothing automatic decides it.\<close>

definition fails :: "packControl \<Rightarrow> report \<Rightarrow> bool" where
  "fails c rep \<longleftrightarrow>
     pkAssessment c = ''automated'' \<and> pkPresentMeans c = ''pass'' \<and> \<not> evidenced c rep \<and> listed c rep
     \<or> pkAssessment c = ''automated'' \<and> pkPresentMeans c \<noteq> ''pass'' \<and> violated c rep
     \<or> pkAssessment c = ''hybrid'' \<and> violated c rep"

definition shown :: "packControl \<Rightarrow> report \<Rightarrow> bool" where
  "shown c rep \<longleftrightarrow> pkAssessment c = ''automated'' \<and>
     (if pkPresentMeans c = ''pass'' then evidenced c rep else listed c rep \<and> \<not> violated c rep)"

definition undecided :: "packControl \<Rightarrow> report \<Rightarrow> bool" where
  "undecided c rep \<longleftrightarrow> pkAssessment c \<noteq> ''automated'' \<and> \<not> (pkAssessment c = ''hybrid'' \<and> violated c rep)"

lemma find_None_ex: "List.find P xs = None \<longleftrightarrow> \<not> list_ex P xs"
  by (auto simp: find_None_iff list_ex_iff)

lemma find_Some_ex: "(\<exists>x. List.find P xs = Some x) \<longleftrightarrow> list_ex P xs"
  using find_None_ex [of P xs] by auto

lemma firstViolation_None: "firstViolation (pkCheck c) rep = None \<longleftrightarrow> \<not> violated c rep"
  unfolding firstViolation_def find_None_ex by (auto simp: matchingFindings_def violated_def list_ex_iff)

lemma matching_nonempty: "matchingFindings (pkCheck c) rep \<noteq> [] \<longleftrightarrow> evidenced c rep"
  by (auto simp: matchingFindings_def evidenced_def list_ex_iff filter_empty_conv)

lemma listed_ran: "pkModule c = [] \<or> pkModule c \<in> modules_ran rep \<longleftrightarrow> listed c rep"
  unfolding listed_def modules_ran_def list_ex_iff image_iff by metis

lemma dispose_raw:
  "fst (disposeControl c rep (modules_ran rep)) =
     (if fails c rep then DispFailed else if shown c rep then DispSatisfied else if undecided c rep then DispManual else DispNotApplicable)"
  using firstViolation_None [of c rep] matching_nonempty [of c rep] listed_ran [of c rep]
  by (auto simp: disposeControl_def disposeAutomated_def Let_def fails_def shown_def undecided_def split: option.splits)

lemma register_force:
  "roRegister opts = Some reg \<Longrightarrow> register_find reg knd fw (pkID c) (roNow opts) = None \<longleftrightarrow> \<not> in_force knd fw c opts"
  unfolding register_find_def find_None_ex in_force_def by simp

lemma register_none: "roRegister opts = None \<Longrightarrow> \<not> in_force knd fw c opts"
  by (simp add: in_force_def)

lemma applyRegister_fst:
  "fst (applyRegister tf fw c opts d) =
     (if fst d = DispFailed \<and> in_force ''waiver'' fw c opts then DispWaived
      else if fst d = DispManual \<and> in_force ''attestation'' fw c opts then DispSatisfied else fst d)"
proof (cases "roRegister opts")
  case None
  then show ?thesis by (simp add: applyRegister_def register_none)
next
  case (Some reg)
  show ?thesis
    using register_force [OF Some, of "''waiver''" fw c] register_force [OF Some, of "''attestation''" fw c]
    by (auto simp: applyRegister_def Some split: option.split)
qed

lemma pack_result_disposition:
  "crDisposition (pack_result tf opts rep fw v c) = fst (applyRegister tf fw c opts (disposeControl c rep (modules_ran rep)))"
  by (simp add: pack_result_def split: prod.split)

lemma fails_shown: "fails c rep \<Longrightarrow> \<not> shown c rep" "fails c rep \<Longrightarrow> \<not> undecided c rep" "shown c rep \<Longrightarrow> \<not> undecided c rep"
  by (auto simp: fails_def shown_def undecided_def)


text \<open>
  A module counts as run when the report of the engine lists it, and the engine lists every module it selected, also
  one that panicked or that a cancelled context cut off. A control of such a module passes: nothing was
  checked, and the report says that there is no violation.
\<close>

definition panicking :: "string \<Rightarrow> engine_module" where
  "panicking n = \<lparr> mName = n, mSupports = (\<lambda>t. True), mAnalyze = (\<lambda>t. Panicked ''boom'') \<rparr>"

definition auto_control :: "string \<Rightarrow> string \<Rightarrow> packControl" where
  "auto_control m check = \<lparr> pkID = ''1'', pkTitle = [], pkStatement = [], pkLevel = 1, pkAssessment = ''automated'', pkModule = m,
     pkCheck = check, pkPresentMeans = [], pkExpected = [], pkRemediation = [], pkMapsTo = [], pkReferences = [] \<rparr>"

definition one_pack :: "packControl \<Rightarrow> catalog" where
  "one_pack c = newCatalog\<lparr> caPacks := [''f'' \<mapsto> \<lparr> paFramework = ''f'', paVersion = [], paTitle = [], paSourceURL = [], paControls = [c] \<rparr>] \<rparr>"

definition scan_with :: "(nat \<Rightarrow> string option) \<Rightarrow> report" where
  "scan_with ctx = Run (Register NewRegistry (panicking ''m'')) ctx 0 \<lparr> tType = ''image'', tLocation = ''i'' \<rparr> []"

lemma scan_with_reports:
  "rModuleRuns (scan_with (\<lambda>n. None)) = [\<lparr> mrModule = ''m'', mrError = ''panic: boom'' \<rparr>]"
  "rModuleRuns (scan_with (\<lambda>n. Some e)) = [\<lparr> mrModule = ''m'', mrError = ''not run: '' @ e \<rparr>]"
  "rFindings (scan_with (\<lambda>n. None)) = []" "rFindings (scan_with (\<lambda>n. Some e)) = []"
  by (simp_all add: scan_with_def Run_def selectModules_def reg_All_def Register_def NewRegistry_def panicking_def runModule_def
      sortFindings_def)

theorem not_run_passes:
  "map crDisposition (cmResults (RunPacks tf (one_pack (auto_control ''m'' ''DS-1'')) [''f''] (scan_with (\<lambda>n. None)) opts)) = [DispSatisfied]
   \<and> map mrError (rModuleRuns (scan_with (\<lambda>n. None))) = [''panic: boom'']
   \<and> map crDisposition (cmResults (RunPacks tf (one_pack (auto_control ''m'' ''DS-1'')) [''f''] (scan_with (\<lambda>n. Some e)) opts)) = [DispSatisfied]
   \<and> map mrError (rModuleRuns (scan_with (\<lambda>n. Some e))) = [''not run: '' @ e]"
proof -
  have "crDisposition (pack_result tf opts rep ''f'' v (auto_control ''m'' ''DS-1'')) = DispSatisfied"
    if "map mrModule (rModuleRuns rep) = [''m'']" "rFindings rep = []" for rep v
  proof -
    have "''m'' \<in> mrModule ` set (rModuleRuns rep)" using arg_cong [OF that(1), of set] by simp
    then have "shown (auto_control ''m'' ''DS-1'') rep"
      using that(2) by (auto simp: shown_def auto_control_def listed_def violated_def list_ex_iff)
    then have "fst (disposeControl (auto_control ''m'' ''DS-1'') rep (modules_ran rep)) = DispSatisfied"
      using fails_shown [of "auto_control ''m'' ''DS-1''" rep] unfolding dispose_raw by auto
    then show ?thesis unfolding pack_result_disposition applyRegister_fst by simp
  qed
  then show ?thesis by (simp add: RunPacks_def pack_results_def one_pack_def scan_with_reports)
qed

subsection \<open>Coverage adds up\<close>

definition stat_of :: "controlResult list \<Rightarrow> string \<Rightarrow> covStat" where
  "stat_of rs fw = foldl (\<lambda>s r. tally r s) (new_stat fw) (filter (\<lambda>r. crFramework r = fw) rs)"

lemma stat_of_snoc: "stat_of (rs @ [r]) fw = (if crFramework r = fw then tally r (stat_of rs fw) else stat_of rs fw)"
  by (simp add: stat_of_def)

lemma cov_fold:
  "map_of (foldl cov_step [] rs) fw = (if fw \<in> crFramework ` set rs then Some (stat_of rs fw) else None)
   \<and> fst ` set (foldl cov_step [] rs) = crFramework ` set rs \<and> distinct (map fst (foldl cov_step [] rs))"
proof (induction rs arbitrary: fw rule: rev_induct)
  case (snoc r rs)
  have "stat_of rs (crFramework r) = new_stat (crFramework r)" if "crFramework r \<notin> crFramework ` set rs"
  proof -
    have "filter (\<lambda>x. crFramework x = crFramework r) rs = []" using that unfolding filter_empty_conv image_iff by metis
    then show ?thesis by (simp add: stat_of_def)
  qed
  then show ?case using snoc.IH by (auto simp: cov_step_def stat_of_snoc)
qed simp

definition count_disp :: "controlResult list \<Rightarrow> string \<Rightarrow> disposition \<Rightarrow> int" where
  "count_disp rs fw d = int (length (filter (\<lambda>r. crFramework r = fw \<and> crDisposition r = d) rs))"

lemma stat_of_counts:
  "csFramework (stat_of rs fw) = fw \<and> csSatisfied (stat_of rs fw) = count_disp rs fw DispSatisfied
   \<and> csFailed (stat_of rs fw) = count_disp rs fw DispFailed \<and> csWaived (stat_of rs fw) = count_disp rs fw DispWaived
   \<and> csNotApplicable (stat_of rs fw) = count_disp rs fw DispNotApplicable \<and> csManual (stat_of rs fw) = count_disp rs fw DispManual
   \<and> csUnknown (stat_of rs fw) = count_disp rs fw DispUnknown
   \<and> csTotal (stat_of rs fw) = csResolved (stat_of rs fw) + csManual (stat_of rs fw) + csUnknown (stat_of rs fw)
   \<and> csResolved (stat_of rs fw) = csSatisfied (stat_of rs fw) + csFailed (stat_of rs fw) + csWaived (stat_of rs fw) + csNotApplicable (stat_of rs fw)"
proof (induction rs rule: rev_induct)
  case (snoc r rs)
  then show ?case
    by (cases "crDisposition r") (auto simp: stat_of_snoc tally_def Let_def count_disp_def)
qed (simp add: stat_of_def new_stat_def count_disp_def)

lemma cov_finish_frame [simp]:
  "csFramework (cov_finish s) = csFramework s" "csTotal (cov_finish s) = csTotal s" "csSatisfied (cov_finish s) = csSatisfied s"
  "csFailed (cov_finish s) = csFailed s" "csWaived (cov_finish s) = csWaived s" "csNotApplicable (cov_finish s) = csNotApplicable s"
  "csManual (cov_finish s) = csManual s" "csUnknown (cov_finish s) = csUnknown s" "csResolved (cov_finish s) = csResolved s"
  by (simp_all add: cov_finish_def)

lemma Coverage_map:
  "Coverage rep = map (\<lambda>fw. cov_finish (stat_of (cmResults rep) fw)) (sorted_set (map crFramework (cmResults rep)))"
proof -
  let ?m = "foldl cov_step [] (cmResults rep)" and ?f = "\<lambda>fw. cov_finish (stat_of (cmResults rep) fw)"
  note c = cov_fold [of "cmResults rep"]
  have d: "distinct (map fst ?m)" and k: "fst ` set ?m = crFramework ` set (cmResults rep)" using c by blast+
  have "s = stat_of (cmResults rep) fw" if "(fw, s) \<in> set ?m" for fw s
  proof -
    have "map_of ?m fw = Some s" using d that by (rule map_of_is_SomeI)
    then show ?thesis using c [of fw, THEN conjunct1] by (metis option.distinct(1) option.inject)
  qed
  then have m: "map (\<lambda>(fw, s). cov_finish s) ?m = map ?f (map fst ?m)" by (auto simp: comp_def)
  have fwk: "csFramework (?f fw) = fw" for fw using stat_of_counts by simp
  have "sort_stable (\<lambda>a b. str_less (csFramework a) (csFramework b)) (map ?f ks) = map ?f (sort_stable str_less ks)" for ks
    by (rule map_sort_stable [symmetric]) (simp only: fwk)
  then have "Coverage rep = map ?f (sort_stable str_less (map fst ?m))" unfolding Coverage_def m .
  also have "sort_stable str_less (map fst ?m) = sorted_set (map crFramework (cmResults rep))"
  proof -
    have "set (dedupe_by id [] (map crFramework (cmResults rep))) = set (map fst ?m)" using k by (simp add: dedupe_by_id)
    moreover have "distinct (dedupe_by id [] (map crFramework (cmResults rep)))"
      using dedupe_by_distinct [of id "[]" "map crFramework (cmResults rep)"] by simp
    ultimately have "mset (map fst ?m) = mset (dedupe_by id [] (map crFramework (cmResults rep)))"
      using d set_eq_iff_mset_eq_distinct by blast
    then show ?thesis unfolding sort_Strings_def [symmetric] sorted_set_def by (rule sort_Strings_canonical)
  qed
  finally show ?thesis .
qed

text \<open>
  Coverage has one row for each framework of the report, in order, and its counts are those of the results: every
  result is in exactly one count, the resolved ones are those with a final disposition, and the gaps are the failed
  ones and those that are not resolved.
\<close>

theorem Coverage_accounts:
  "map (\<lambda>s. (csFramework s, [csSatisfied s, csFailed s, csWaived s, csNotApplicable s, csManual s, csUnknown s], csResolved s, csTotal s))
      (Coverage rep)
   = map (\<lambda>fw. (fw, map (count_disp (cmResults rep) fw) [DispSatisfied, DispFailed, DispWaived, DispNotApplicable, DispManual, DispUnknown],
        int (length (filter (\<lambda>r. crFramework r = fw \<and> Resolved (crDisposition r)) (cmResults rep))),
        int (length (filter (\<lambda>r. crFramework r = fw) (cmResults rep)))))
      (sorted_set (map crFramework (cmResults rep)))
   \<and> length (Gaps rep) + length (filter (\<lambda>r. Resolved (crDisposition r)) (cmResults rep))
       = length (cmResults rep) + length (filter (\<lambda>r. crDisposition r = DispFailed) (cmResults rep))"
proof (intro conjI)
  have sum: "int (length (filter (\<lambda>r. crFramework r = fw \<and> Resolved (crDisposition r)) rs))
      = count_disp rs fw DispSatisfied + count_disp rs fw DispFailed + count_disp rs fw DispWaived + count_disp rs fw DispNotApplicable"
    "int (length (filter (\<lambda>r. crFramework r = fw) rs))
      = int (length (filter (\<lambda>r. crFramework r = fw \<and> Resolved (crDisposition r)) rs)) + count_disp rs fw DispManual + count_disp rs fw DispUnknown"
    for rs fw
  proof (induction rs)
    case (Cons r rs)
    case 1
    show ?case using Cons.IH(1) by (cases "crDisposition r") (simp_all add: count_disp_def Resolved_def)
  next
    case (Cons r rs)
    case 2
    show ?case using Cons.IH(2) by (cases "crDisposition r") (simp_all add: count_disp_def Resolved_def)
  qed (simp_all add: count_disp_def)
  show "map (\<lambda>s. (csFramework s, [csSatisfied s, csFailed s, csWaived s, csNotApplicable s, csManual s, csUnknown s], csResolved s, csTotal s))
      (Coverage rep)
   = map (\<lambda>fw. (fw, map (count_disp (cmResults rep) fw) [DispSatisfied, DispFailed, DispWaived, DispNotApplicable, DispManual, DispUnknown],
        int (length (filter (\<lambda>r. crFramework r = fw \<and> Resolved (crDisposition r)) (cmResults rep))),
        int (length (filter (\<lambda>r. crFramework r = fw) (cmResults rep)))))
      (sorted_set (map crFramework (cmResults rep)))"
    unfolding Coverage_map using stat_of_counts sum by (simp add: comp_def)
  have "length (filter (\<lambda>r. crDisposition r \<in> {DispFailed, DispManual, DispUnknown}) rs) + length (filter (\<lambda>r. Resolved (crDisposition r)) rs)
      = length rs + length (filter (\<lambda>r. crDisposition r = DispFailed) rs)" for rs
  proof (induction rs)
    case (Cons r rs)
    then show ?case by (cases "crDisposition r") (simp_all add: Resolved_def)
  qed simp
  then show "length (Gaps rep) + length (filter (\<lambda>r. Resolved (crDisposition r)) (cmResults rep))
       = length (cmResults rep) + length (filter (\<lambda>r. crDisposition r = DispFailed) (cmResults rep))"
    by (simp add: Gaps_def)
qed

end
