(* ===== verification/Spec2Isabelle.thy ===== *)
theory Spec2Isabelle
  imports VulnNvd SupplyChain RbacParse OciImage VerifyFetch RtDaemon NetModule Authz Admission CompliancePacks
begin

text \<open>
  A verification library for the decision core of a container security scanner written in Go. The
  scanner reads images, cluster manifests, advisories, signatures and recorded telemetry, and turns them into
  findings, verdicts and policies. The library models that core as executable definitions, in the order
  and with the names the code has, and proves what makes each part correct. File names below are under
  \<^verbatim>\<open>src/internal\<close>.

  \<^bold>\<open>Conventions.\<close> A Go string or byte slice is a list of 8-bit characters, case folding is that
  of ASCII. A struct is a \<^theory_text>\<open>record\<close>, a Go map that is iterated an association list with distinct
  keys whose order stands for the open iteration order (GoData), a set a list without repetitions. An \<^verbatim>\<open>int\<close>
  or \<^verbatim>\<open>int64\<close> that can leave its range is wrapped by \<open>wrap64\<close> (Prelude); a \<^verbatim>\<open>float64\<close> is an
  exact double with every operation rounded (GoFloat, GoMath). An error is the left side of a sum or
  None. Mutation is explicit state passing: a handler returns the updated record. The panics of the code are
  values of the model where it recovers from them (the engine).

  \<^bold>\<open>Foundations.\<close> Prelude, GoStrings, GoData, SortSlice, GoPath, GoUrl, GoTime, GoEncoding, GoNet,
  GoFloat and GoMath model what the source uses of the standard library: text, maps, stable sorting, paths, URLs,
  durations, hexadecimal, base64 and SHA-256, IP addresses and networks, doubles. Comparators has the
  algebra of comparison functions.

  \<^bold>\<open>Versions and advisories\<close> (\<^verbatim>\<open>vulndb\<close>, \<^verbatim>\<open>sbom/purl.go\<close>). VersionCommon, VersionApk,
  VersionDeb, VersionRpm, VersionMaven, VersionPep440 and VersionSemver are the comparators of
  \<^verbatim>\<open>version*.go\<close>; VersionCompare is their dispatch, with the theorems that each is a total preorder on its
  ordered versions and where four of them fail to be transitive. Advisory is the schema and the range
  test; VulnFeeds and VulnNvd normalize the OSV and NVD feeds and merge aliases without loss; VulnStore is
  the index, equal to a scan; VulnPurl has package URLs and their round trip.

  \<^bold>\<open>Policy\<close> (\<^verbatim>\<open>policy\<close>). PolicyLexer, PolicyParser, PolicyEval and PolicyEngine are the
  expression language, compilation, evaluation, decision and waivers; PolicyGate proves the guarantees of the gate:
  failing closed, the refinement of the decision to its documented precedence, the reach of a waiver; PolicySuite is
  the test runner and the views of a report.

  \<^bold>\<open>Signatures\<close> (\<^verbatim>\<open>sig\<close>, \<^verbatim>\<open>attest\<close>, \<^verbatim>\<open>modules/verify\<close>). SigKeys, SigEnvelope, SigAttest,
  SigMerkle and SigLog model keys, envelopes, statements and the transparency log; the proof loop equals the
  recursive tree of RFC 6962, and an accepted proof is sound up to a hash collision. VerifyModule and VerifyFetch are the
  verification module and its inputs; SupplyChain composes verification, policy and registry.

  \<^bold>\<open>Registry and images\<close> (\<^verbatim>\<open>registry\<close>, \<^verbatim>\<open>oci\<close>). RegReference, RegClient and RegServer are references,
  client and in-memory server; RegRound and RegReferrers prove what a client gets back from it after any
  further requests, and what a query misses. OciImage reads an image and flattens its layers.

  \<^bold>\<open>RBAC\<close> (\<^verbatim>\<open>rbac\<close>). RbacParse reads objects, RbacGraph resolves permissions, RbacChecks has the risk
  checks, RbacEscalation and RbacPaths the escalation search with its completeness and shortest paths.

  \<^bold>\<open>Runtime\<close> (\<^verbatim>\<open>runtime\<close>). RtEvent and RtRules are events, signatures and rules; RtDetector runs them over a
  stream, RtBaseline learns from it, RtResponse plans and enforces, RtForensics seals evidence, and RtDaemon is
  the loop over all of them.

  \<^bold>\<open>Network\<close> (\<^verbatim>\<open>netmon\<close>, \<^verbatim>\<open>modules/netpolicy\<close>). NetModel has captures and flow logs, NetDetect the
  detectors, NetPolicy the generated policies, their dry run and difference, NetModule the manifests, findings and the
  subcommand.

  \<^bold>\<open>Enforcement\<close> (\<^verbatim>\<open>admission\<close>, \<^verbatim>\<open>authz\<close>). Admission is the webhook of a cluster: it reduces an object to
  its workload and asks the policy engine about every image; its answer is exact, and fails closed. Authz is the
  authorization plugin of the Docker daemon: its verdict is exactly the guardrails that are on, and what those do not see.

  \<^bold>\<open>Compliance\<close> (\<^verbatim>\<open>compliance\<close>). Compliance is the audit of a benchmark: the order of a report, its score
  (with a bound on the rounding), waivers, drift and findings, whose gate agrees with the engine's. CompliancePacks runs
  control packs over a report of the engine, with the exact meaning of each disposition and the accounts of coverage.

  \<^bold>\<open>Engine\<close> (\<^verbatim>\<open>engine\<close>). EngineModel has findings, reports, the module registry and a run. Its findings are
  what the other parts produce and what the policy gate reads.

  \<^bold>\<open>Interfaces.\<close> The contracts between parts are locales, each interpreted on the code's own
  definitions: \<open>comparator\<close> and \<open>order_comparator\<close> (every version comparator), \<open>version_order\<close> (ranges over
  any scheme), \<open>strict_weak\<close> (every less function), \<open>go_map\<close>, \<open>name_registry\<close> (the engine's registry),
  \<open>keeps\<close> (what further requests leave in the registry server), \<open>reports_once\<close> (a rule with a memory),
  \<open>audited\<close> (both responders), \<open>recent_window\<close> (the ring of events).

  \<^bold>\<open>Termination and bounds.\<close> Loops are structural or have a measure: the breadth-first searches
  count the unvisited nodes, the binary searches the interval, the Merkle recursions the leaves. Fuel appears in
  three places only. The parser gets one unit of nesting depth per level it allows and its operator loops one
  per token; \<open>parseExpr_sound\<close> shows that it never runs out. The loop over the groups of an IPv6 address gets
  eight, since every round adds two of sixteen bytes; the unit of a byte count gets the five steps the code
  allows. The limits of the code (tokens, nesting, size of a capture, ring size, recursion of indexes) are constants
  of the model.

  \<^bold>\<open>Parameters.\<close> JSON codecs, regular expressions, date parsing, the primitives of signatures, the HTTP transport,
  file and kernel effects, \<^verbatim>\<open>math.Pow\<close> and \<^verbatim>\<open>math.Log2\<close> (their last bits depend on the
  machine) are arguments of the definitions that use them; what a theorem needs of them is a hypothesis of its
  own statement, with a witness that instantiates it.

  \<^bold>\<open>Not modelled.\<close> The eBPF and live event sources, output sinks and container resolver (kernel and process
  effects); the fetchers of feeds and archives, the result store, plugins, the Docker client and every front end
  (command lines, HTTP and MCP servers, report formats), which are input and output; the certificate chains of keyless
  signatures, which the X.509 library checks; the secret scanner, Dockerfile checks, malware and license data, the hardening tables and the catalogues of benchmarks,
  which are tables of patterns and text; the YAML parser: the models start at
  the decoded values.
\<close>

end
